(* ===== verification/Prelude.thy ===== *)
theory Prelude
  imports Main "HOL-Library.Word"
begin

text \<open>
  Shared vocabulary of the development: the machine types the sources use, size arithmetic at
  its width, counted loops, and the generic lemmas on lists and folds that the component theories
  rely on.

  Conventions. Bytes, pixels and CSI parameters are words (\<open>u8\<close>, \<open>u32\<close>, \<open>u64\<close>).
  A \<open>size_t\<close> is a \<open>nat\<close>; where the C expression can leave the range, the wrap-around is
  written out with \<open>sub64\<close>, \<open>add64\<close> and \<open>mul64\<close>, which compute modulo
  \<open>2 ^ 64\<close>. A counted loop \<^verbatim>\<open>for (i = a; i < b; i++)\<close> whose bounds do not change is
  \<open>for_up\<close>; \<^verbatim>\<open>for (i = a; i >= b; i--)\<close> with \<open>b \<ge> 1\<close> is \<open>for_down\<close>.
\<close>

unbundle bit_operations_syntax

type_synonym u8 = "8 word"
type_synonym u16 = "16 word"
type_synonym u32 = "32 word"
type_synonym u64 = "64 word"

text \<open>A character constant of the source as a byte.\<close>

abbreviation byte :: "char \<Rightarrow> u8" where
  "byte c \<equiv> of_char c"

named_theorems size_simps \<open>size arithmetic that does not leave its range\<close>

section \<open>Size arithmetic\<close>

definition SIZE_MAX :: nat where
  "SIZE_MAX = 0xFFFFFFFFFFFFFFFF"

definition add64 :: "nat \<Rightarrow> nat \<Rightarrow> nat" where
  "add64 a b = (a + b) mod 0x10000000000000000"

definition mul64 :: "nat \<Rightarrow> nat \<Rightarrow> nat" where
  "mul64 a b = (a * b) mod 0x10000000000000000"

definition sub64 :: "nat \<Rightarrow> nat \<Rightarrow> nat" where
  "sub64 a b = nat ((int a - int b) mod 0x10000000000000000)"

lemma sub64_le [size_simps]: "b \<le> a \<Longrightarrow> a \<le> SIZE_MAX \<Longrightarrow> sub64 a b = a - b"
  by (simp add: sub64_def SIZE_MAX_def mod_pos_pos_trivial nat_diff_distrib)

lemma add64_le [size_simps]: "a + b \<le> SIZE_MAX \<Longrightarrow> add64 a b = a + b"
  by (simp add: add64_def SIZE_MAX_def)

lemma mul64_le [size_simps]: "a * b \<le> SIZE_MAX \<Longrightarrow> mul64 a b = a * b"
  by (simp add: mul64_def SIZE_MAX_def)

lemma sub64_wraps: "a < b \<Longrightarrow> b \<le> SIZE_MAX \<Longrightarrow> sub64 a b = SIZE_MAX + 1 - (b - a)"
proof -
  assume ab: "a < b" "b \<le> SIZE_MAX"
  have "(int a - int b) mod 0x10000000000000000
        = (int a - int b + 0x10000000000000000) mod 0x10000000000000000"
    by (rule mod_add_self2 [symmetric])
  also have "\<dots> = int a - int b + 0x10000000000000000"
    by (rule mod_pos_pos_trivial) (use ab in \<open>auto simp: SIZE_MAX_def\<close>)
  finally show ?thesis
    using ab by (simp add: sub64_def SIZE_MAX_def)
qed

section \<open>Lists\<close>

lemma nth_upd: "k < length xs \<Longrightarrow> xs[i := v] ! k = (if i = k then v else xs ! k)"
  by (cases "i = k") simp_all

section \<open>Counted loops\<close>

definition for_up :: "nat \<Rightarrow> nat \<Rightarrow> (nat \<Rightarrow> 's \<Rightarrow> 's) \<Rightarrow> 's \<Rightarrow> 's" where
  "for_up a b f s = fold f [a..<b] s"

definition for_down :: "nat \<Rightarrow> nat \<Rightarrow> (nat \<Rightarrow> 's \<Rightarrow> 's) \<Rightarrow> 's \<Rightarrow> 's" where
  "for_down a b f s = fold f (rev [b..<Suc a]) s"

lemma for_up_done [simp]: "b \<le> a \<Longrightarrow> for_up a b f s = s"
  by (simp add: for_up_def)

lemma for_up_step: "a < b \<Longrightarrow> for_up a b f s = for_up (Suc a) b f (f a s)"
  by (simp add: for_up_def upt_conv_Cons)

lemma for_up_last: "a \<le> b \<Longrightarrow> for_up a (Suc b) f s = f b (for_up a b f s)"
  by (simp add: for_up_def)

lemma for_down_done [simp]: "a < b \<Longrightarrow> for_down a b f s = s"
  by (simp add: for_down_def)

lemma for_down_step: "1 \<le> b \<Longrightarrow> b \<le> a \<Longrightarrow> for_down a b f s = for_down (a - 1) b f (f a s)"
  by (cases a) (auto simp: for_down_def)

lemma fold_inv:
  assumes "P s" and "\<And>x s. x \<in> set xs \<Longrightarrow> P s \<Longrightarrow> P (f x s)"
  shows "P (fold f xs s)"
  using assms by (induction xs arbitrary: s) auto

lemma for_up_inv:
  assumes "P s" and "\<And>i s. a \<le> i \<Longrightarrow> i < b \<Longrightarrow> P s \<Longrightarrow> P (f i s)"
  shows "P (for_up a b f s)"
  unfolding for_up_def by (rule fold_inv) (use assms in auto)

lemma for_down_inv:
  assumes "P s" and "\<And>i s. b \<le> i \<Longrightarrow> i \<le> a \<Longrightarrow> P s \<Longrightarrow> P (f i s)"
  shows "P (for_down a b f s)"
  unfolding for_down_def by (rule fold_inv) (use assms in \<open>auto simp del: upt_Suc\<close>)

lemma for_up_measure:
  \<comment> \<open>A quantity that every iteration keeps is kept by the loop.\<close>
  assumes "\<And>i s. g (f i s) = g s"
  shows "g (for_up a b f s) = g s"
  by (rule for_up_inv [where P = "\<lambda>t. g t = g s"]) (simp_all add: assms)

lemma for_down_measure:
  assumes "\<And>i s. g (f i s) = g s"
  shows "g (for_down a b f s) = g s"
  by (rule for_down_inv [where P = "\<lambda>t. g t = g s"]) (simp_all add: assms)

end
