(* ===== verification/Flanterm.thy ===== *)
theory Flanterm
  imports Flanterm_Tables
begin

text \<open>
  The terminal emulator of \<^verbatim>\<open>flanterm.c\<close>: the byte-driven state machine that decodes UTF-8,
  control characters, escape sequences, CSI and OSC sequences and drives a display backend.

  \<open>flanterm_context\<close> is the C struct, field by field; the last field \<open>be\<close> is the state of the
  backend (in C the fields a backend appends after the embedded \<^verbatim>\<open>struct flanterm_context\<close>). The
  function pointers of the struct are the record \<open>flanterm_ops\<close>. A backend operation reads the
  whole context and returns the new backend state: no operation of \<^verbatim>\<open>fb.c\<close> writes a field of the
  embedded \<^verbatim>\<open>struct flanterm_context\<close>. The client's \<open>callback\<close> is code outside the sources: it
  is an optional function on contexts, and the lemmas say what they need of it.
\<close>

definition FLANTERM_MAX_ESC_VALUES :: nat where
  "FLANTERM_MAX_ESC_VALUES = 16"

definition FLANTERM_OSC_BUF :: nat where
  "FLANTERM_OSC_BUF = 256"

record 'b flanterm_context =
  tab_size :: nat
  autoflush :: bool
  cursor_enabled :: bool
  scroll_enabled :: bool
  wrap_enabled :: bool
  origin_mode :: bool
  control_sequence :: bool
  escape :: bool
  osc :: bool
  osc_escape :: bool
  osc_buf_i :: nat
  osc_buf :: "u8 list"
  rrr :: bool
  discard_next :: bool
  bold :: bool
  bg_bold :: bool
  reverse_video :: bool
  dec_private :: bool
  insert_mode :: bool
  csi_unhandled :: bool
  code_point :: nat
  unicode_remaining :: nat
  g_select :: nat
  charsets :: "nat list"
  current_charset :: nat
  escape_offset :: nat
  esc_values_i :: nat
  saved_cursor_x :: nat
  saved_cursor_y :: nat
  current_primary :: nat
  current_bg :: nat
  scroll_top_margin :: nat
  scroll_bottom_margin :: nat
  esc_values :: "u32 list"
  last_printed_char :: u8
  last_was_graphic :: bool
  saved_state_bold :: bool
  saved_state_bg_bold :: bool
  saved_state_reverse_video :: bool
  saved_state_origin_mode :: bool
  saved_state_wrap_enabled :: bool
  saved_state_current_charset :: nat
  saved_state_charsets :: "nat list"
  saved_state_current_primary :: nat
  saved_state_current_bg :: nat
  saved_state_scroll_top_margin :: nat
  saved_state_scroll_bottom_margin :: nat
  rows :: nat
  cols :: nat
  be :: 'b

text \<open>The arguments of a callback: numbers, or a pointer into a buffer of the context.\<close>

datatype cb_arg = Num nat | EscValues | OscBuf nat

type_synonym 'b callback =
  "'b flanterm_context \<Rightarrow> nat \<Rightarrow> cb_arg \<Rightarrow> cb_arg \<Rightarrow> cb_arg \<Rightarrow> 'b flanterm_context"

record 'b flanterm_ops =
  be_raw_putchar :: "'b flanterm_context \<Rightarrow> u8 \<Rightarrow> 'b"
  be_clear :: "'b flanterm_context \<Rightarrow> bool \<Rightarrow> 'b"
  be_set_cursor_pos :: "'b flanterm_context \<Rightarrow> nat \<Rightarrow> nat \<Rightarrow> 'b"
  be_get_cursor_pos :: "'b flanterm_context \<Rightarrow> nat \<times> nat"
  be_set_text_fg :: "'b flanterm_context \<Rightarrow> nat \<Rightarrow> 'b"
  be_set_text_bg :: "'b flanterm_context \<Rightarrow> nat \<Rightarrow> 'b"
  be_set_text_fg_bright :: "'b flanterm_context \<Rightarrow> nat \<Rightarrow> 'b"
  be_set_text_bg_bright :: "'b flanterm_context \<Rightarrow> nat \<Rightarrow> 'b"
  be_set_text_fg_rgb :: "'b flanterm_context \<Rightarrow> u32 \<Rightarrow> 'b"
  be_set_text_bg_rgb :: "'b flanterm_context \<Rightarrow> u32 \<Rightarrow> 'b"
  be_set_text_fg_default :: "'b flanterm_context \<Rightarrow> 'b"
  be_set_text_bg_default :: "'b flanterm_context \<Rightarrow> 'b"
  be_set_text_fg_default_bright :: "'b flanterm_context \<Rightarrow> 'b"
  be_set_text_bg_default_bright :: "'b flanterm_context \<Rightarrow> 'b"
  be_move_character :: "'b flanterm_context \<Rightarrow> nat \<Rightarrow> nat \<Rightarrow> nat \<Rightarrow> nat \<Rightarrow> 'b"
  be_scroll :: "'b flanterm_context \<Rightarrow> 'b"
  be_revscroll :: "'b flanterm_context \<Rightarrow> 'b"
  be_swap_palette :: "'b flanterm_context \<Rightarrow> 'b"
  be_save_state :: "'b flanterm_context \<Rightarrow> 'b"
  be_restore_state :: "'b flanterm_context \<Rightarrow> 'b"
  be_double_buffer_flush :: "'b flanterm_context \<Rightarrow> 'b"
  be_full_refresh :: "'b flanterm_context \<Rightarrow> 'b"
  callback :: "'b callback option"

section \<open>Calls through the function pointers\<close>

definition raw_putchar :: "'b flanterm_ops \<Rightarrow> u8 \<Rightarrow> 'b flanterm_context \<Rightarrow> 'b flanterm_context" where
  "raw_putchar ops c ctx = ctx\<lparr>be := be_raw_putchar ops ctx c\<rparr>"

definition clear :: "'b flanterm_ops \<Rightarrow> bool \<Rightarrow> 'b flanterm_context \<Rightarrow> 'b flanterm_context" where
  "clear ops move ctx = ctx\<lparr>be := be_clear ops ctx move\<rparr>"

definition set_cursor_pos :: "'b flanterm_ops \<Rightarrow> nat \<Rightarrow> nat \<Rightarrow> 'b flanterm_context \<Rightarrow> 'b flanterm_context" where
  "set_cursor_pos ops x y ctx = ctx\<lparr>be := be_set_cursor_pos ops ctx x y\<rparr>"

definition set_text_fg :: "'b flanterm_ops \<Rightarrow> nat \<Rightarrow> 'b flanterm_context \<Rightarrow> 'b flanterm_context" where
  "set_text_fg ops fg ctx = ctx\<lparr>be := be_set_text_fg ops ctx fg\<rparr>"

definition set_text_bg :: "'b flanterm_ops \<Rightarrow> nat \<Rightarrow> 'b flanterm_context \<Rightarrow> 'b flanterm_context" where
  "set_text_bg ops bg ctx = ctx\<lparr>be := be_set_text_bg ops ctx bg\<rparr>"

definition set_text_fg_bright :: "'b flanterm_ops \<Rightarrow> nat \<Rightarrow> 'b flanterm_context \<Rightarrow> 'b flanterm_context" where
  "set_text_fg_bright ops fg ctx = ctx\<lparr>be := be_set_text_fg_bright ops ctx fg\<rparr>"

definition set_text_bg_bright :: "'b flanterm_ops \<Rightarrow> nat \<Rightarrow> 'b flanterm_context \<Rightarrow> 'b flanterm_context" where
  "set_text_bg_bright ops bg ctx = ctx\<lparr>be := be_set_text_bg_bright ops ctx bg\<rparr>"

definition set_text_fg_rgb :: "'b flanterm_ops \<Rightarrow> u32 \<Rightarrow> 'b flanterm_context \<Rightarrow> 'b flanterm_context" where
  "set_text_fg_rgb ops fg ctx = ctx\<lparr>be := be_set_text_fg_rgb ops ctx fg\<rparr>"

definition set_text_bg_rgb :: "'b flanterm_ops \<Rightarrow> u32 \<Rightarrow> 'b flanterm_context \<Rightarrow> 'b flanterm_context" where
  "set_text_bg_rgb ops bg ctx = ctx\<lparr>be := be_set_text_bg_rgb ops ctx bg\<rparr>"

definition set_text_fg_default :: "'b flanterm_ops \<Rightarrow> 'b flanterm_context \<Rightarrow> 'b flanterm_context" where
  "set_text_fg_default ops ctx = ctx\<lparr>be := be_set_text_fg_default ops ctx\<rparr>"

definition set_text_bg_default :: "'b flanterm_ops \<Rightarrow> 'b flanterm_context \<Rightarrow> 'b flanterm_context" where
  "set_text_bg_default ops ctx = ctx\<lparr>be := be_set_text_bg_default ops ctx\<rparr>"

definition set_text_fg_default_bright :: "'b flanterm_ops \<Rightarrow> 'b flanterm_context \<Rightarrow> 'b flanterm_context" where
  "set_text_fg_default_bright ops ctx = ctx\<lparr>be := be_set_text_fg_default_bright ops ctx\<rparr>"

definition set_text_bg_default_bright :: "'b flanterm_ops \<Rightarrow> 'b flanterm_context \<Rightarrow> 'b flanterm_context" where
  "set_text_bg_default_bright ops ctx = ctx\<lparr>be := be_set_text_bg_default_bright ops ctx\<rparr>"

definition move_character ::
  "'b flanterm_ops \<Rightarrow> nat \<Rightarrow> nat \<Rightarrow> nat \<Rightarrow> nat \<Rightarrow> 'b flanterm_context \<Rightarrow> 'b flanterm_context" where
  "move_character ops nx ny ox oy ctx = ctx\<lparr>be := be_move_character ops ctx nx ny ox oy\<rparr>"

definition scroll :: "'b flanterm_ops \<Rightarrow> 'b flanterm_context \<Rightarrow> 'b flanterm_context" where
  "scroll ops ctx = ctx\<lparr>be := be_scroll ops ctx\<rparr>"

definition revscroll :: "'b flanterm_ops \<Rightarrow> 'b flanterm_context \<Rightarrow> 'b flanterm_context" where
  "revscroll ops ctx = ctx\<lparr>be := be_revscroll ops ctx\<rparr>"

definition swap_palette :: "'b flanterm_ops \<Rightarrow> 'b flanterm_context \<Rightarrow> 'b flanterm_context" where
  "swap_palette ops ctx = ctx\<lparr>be := be_swap_palette ops ctx\<rparr>"

definition double_buffer_flush :: "'b flanterm_ops \<Rightarrow> 'b flanterm_context \<Rightarrow> 'b flanterm_context" where
  "double_buffer_flush ops ctx = ctx\<lparr>be := be_double_buffer_flush ops ctx\<rparr>"

definition call_callback ::
  "'b flanterm_ops \<Rightarrow> nat \<Rightarrow> cb_arg \<Rightarrow> cb_arg \<Rightarrow> cb_arg \<Rightarrow> 'b flanterm_context \<Rightarrow> 'b flanterm_context" where
  "call_callback ops t a b c ctx =
     (case callback ops of None \<Rightarrow> ctx | Some cb \<Rightarrow> cb ctx t a b c)"

definition FLANTERM_CB_DEC :: nat where "FLANTERM_CB_DEC = 10"
definition FLANTERM_CB_BELL :: nat where "FLANTERM_CB_BELL = 20"
definition FLANTERM_CB_PRIVATE_ID :: nat where "FLANTERM_CB_PRIVATE_ID = 30"
definition FLANTERM_CB_STATUS_REPORT :: nat where "FLANTERM_CB_STATUS_REPORT = 40"
definition FLANTERM_CB_POS_REPORT :: nat where "FLANTERM_CB_POS_REPORT = 50"
definition FLANTERM_CB_KBD_LEDS :: nat where "FLANTERM_CB_KBD_LEDS = 60"
definition FLANTERM_CB_MODE :: nat where "FLANTERM_CB_MODE = 70"
definition FLANTERM_CB_LINUX :: nat where "FLANTERM_CB_LINUX = 80"
definition FLANTERM_CB_OSC :: nat where "FLANTERM_CB_OSC = 90"

section \<open>Initial state\<close>

definition CHARSET_DEFAULT :: nat where "CHARSET_DEFAULT = 0"
definition CHARSET_DEC_SPECIAL :: nat where "CHARSET_DEC_SPECIAL = 1"

text \<open>\<open>(size_t)-1\<close> and \<open>(size_t)-2\<close>: no colour chosen, and a colour that is not of the palette.\<close>

definition COLOUR_NONE :: nat where "COLOUR_NONE = SIZE_MAX"
definition COLOUR_RGB :: nat where "COLOUR_RGB = SIZE_MAX - 1"

definition flanterm_context_reinit :: "'b flanterm_context \<Rightarrow> 'b flanterm_context" where
  "flanterm_context_reinit ctx = ctx\<lparr>
     tab_size := 8,
     autoflush := True,
     cursor_enabled := True,
     scroll_enabled := True,
     wrap_enabled := True,
     origin_mode := False,
     control_sequence := False,
     escape := False,
     osc := False,
     osc_escape := False,
     rrr := False,
     discard_next := False,
     bold := False,
     bg_bold := False,
     reverse_video := False,
     dec_private := False,
     insert_mode := False,
     csi_unhandled := False,
     unicode_remaining := 0,
     g_select := 0,
     charsets := (charsets ctx)[0 := CHARSET_DEFAULT, 1 := CHARSET_DEC_SPECIAL],
     current_charset := 0,
     escape_offset := 0,
     esc_values_i := 0,
     saved_cursor_x := 0,
     saved_cursor_y := 0,
     current_primary := COLOUR_NONE,
     current_bg := COLOUR_NONE,
     saved_state_charsets := (saved_state_charsets ctx)[0 := CHARSET_DEFAULT, 1 := CHARSET_DEC_SPECIAL],
     saved_state_wrap_enabled := True,
     saved_state_current_primary := COLOUR_NONE,
     saved_state_current_bg := COLOUR_NONE,
     saved_state_scroll_top_margin := 0,
     saved_state_scroll_bottom_margin := rows ctx,
     last_printed_char := byte CHR '' '',
     last_was_graphic := False,
     scroll_top_margin := 0,
     scroll_bottom_margin := rows ctx\<rparr>"

section \<open>Select graphic rendition\<close>

definition sgr_default :: "'b flanterm_ops \<Rightarrow> 'b flanterm_context \<Rightarrow> 'b flanterm_context" where
  "sgr_default ops ctx =
     (let ctx = (if reverse_video ctx then swap_palette ops (ctx\<lparr>reverse_video := False\<rparr>) else ctx);
          ctx = ctx\<lparr>bold := False, bg_bold := False,
                    current_primary := COLOUR_NONE, current_bg := COLOUR_NONE\<rparr>
      in set_text_fg_default ops (set_text_bg_default ops ctx))"

definition sgr_bold_on :: "'b flanterm_ops \<Rightarrow> 'b flanterm_context \<Rightarrow> 'b flanterm_context" where
  "sgr_bold_on ops ctx =
     (let ctx = ctx\<lparr>bold := True\<rparr> in
      if current_primary ctx = COLOUR_RGB then ctx
      else if current_primary ctx \<noteq> COLOUR_NONE then
        (if \<not> reverse_video ctx then set_text_fg_bright ops (current_primary ctx) ctx
         else set_text_bg_bright ops (current_primary ctx) ctx)
      else
        (if \<not> reverse_video ctx then set_text_fg_default_bright ops ctx
         else set_text_bg_default_bright ops ctx))"

definition sgr_bg_bold_on :: "'b flanterm_ops \<Rightarrow> 'b flanterm_context \<Rightarrow> 'b flanterm_context" where
  "sgr_bg_bold_on ops ctx =
     (let ctx = ctx\<lparr>bg_bold := True\<rparr> in
      if current_bg ctx = COLOUR_RGB then ctx
      else if current_bg ctx \<noteq> COLOUR_NONE then
        (if \<not> reverse_video ctx then set_text_bg_bright ops (current_bg ctx) ctx
         else set_text_fg_bright ops (current_bg ctx) ctx)
      else
        (if \<not> reverse_video ctx then set_text_bg_default_bright ops ctx
         else set_text_fg_default_bright ops ctx))"

definition sgr_bold_off :: "'b flanterm_ops \<Rightarrow> 'b flanterm_context \<Rightarrow> 'b flanterm_context" where
  "sgr_bold_off ops ctx =
     (let ctx = ctx\<lparr>bold := False\<rparr> in
      if current_primary ctx = COLOUR_RGB then ctx
      else if current_primary ctx \<noteq> COLOUR_NONE then
        (if \<not> reverse_video ctx then set_text_fg ops (current_primary ctx) ctx
         else set_text_bg ops (current_primary ctx) ctx)
      else
        (if \<not> reverse_video ctx then set_text_fg_default ops ctx
         else set_text_bg_default ops ctx))"

definition sgr_bg_bold_off :: "'b flanterm_ops \<Rightarrow> 'b flanterm_context \<Rightarrow> 'b flanterm_context" where
  "sgr_bg_bold_off ops ctx =
     (let ctx = ctx\<lparr>bg_bold := False\<rparr> in
      if current_bg ctx = COLOUR_RGB then ctx
      else if current_bg ctx \<noteq> COLOUR_NONE then
        (if \<not> reverse_video ctx then set_text_bg ops (current_bg ctx) ctx
         else set_text_fg ops (current_bg ctx) ctx)
      else
        (if \<not> reverse_video ctx then set_text_bg_default ops ctx
         else set_text_fg_default ops ctx))"

text \<open>The labels \<open>set_fg\<close>, \<open>set_bg\<close>, \<open>set_fg_bright\<close> and \<open>set_bg_bright\<close>; \<open>n\<close> is the parameter less its offset.\<close>

definition sgr_set_fg :: "'b flanterm_ops \<Rightarrow> nat \<Rightarrow> 'b flanterm_context \<Rightarrow> 'b flanterm_context" where
  "sgr_set_fg ops n ctx =
     (if (bold ctx \<and> \<not> reverse_video ctx) \<or> (bg_bold ctx \<and> reverse_video ctx)
      then set_text_fg_bright ops n ctx else set_text_fg ops n ctx)"

definition sgr_set_bg :: "'b flanterm_ops \<Rightarrow> nat \<Rightarrow> 'b flanterm_context \<Rightarrow> 'b flanterm_context" where
  "sgr_set_bg ops n ctx =
     (if (bold ctx \<and> reverse_video ctx) \<or> (bg_bold ctx \<and> \<not> reverse_video ctx)
      then set_text_bg_bright ops n ctx else set_text_bg ops n ctx)"

definition sgr_primary :: "'b flanterm_ops \<Rightarrow> nat \<Rightarrow> 'b flanterm_context \<Rightarrow> 'b flanterm_context" where
  "sgr_primary ops n ctx =
     (let ctx = ctx\<lparr>current_primary := n\<rparr> in
      if reverse_video ctx then sgr_set_bg ops n ctx else sgr_set_fg ops n ctx)"

definition sgr_background :: "'b flanterm_ops \<Rightarrow> nat \<Rightarrow> 'b flanterm_context \<Rightarrow> 'b flanterm_context" where
  "sgr_background ops n ctx =
     (let ctx = ctx\<lparr>current_bg := n\<rparr> in
      if reverse_video ctx then sgr_set_fg ops n ctx else sgr_set_bg ops n ctx)"

definition sgr_primary_bright :: "'b flanterm_ops \<Rightarrow> nat \<Rightarrow> 'b flanterm_context \<Rightarrow> 'b flanterm_context" where
  "sgr_primary_bright ops n ctx =
     (let ctx = ctx\<lparr>current_primary := n\<rparr> in
      if reverse_video ctx then set_text_bg_bright ops n ctx else set_text_fg_bright ops n ctx)"

definition sgr_background_bright :: "'b flanterm_ops \<Rightarrow> nat \<Rightarrow> 'b flanterm_context \<Rightarrow> 'b flanterm_context" where
  "sgr_background_bright ops n ctx =
     (let ctx = ctx\<lparr>current_bg := n\<rparr> in
      if reverse_video ctx then set_text_fg_bright ops n ctx else set_text_bg_bright ops n ctx)"

definition sgr_fg_default :: "'b flanterm_ops \<Rightarrow> 'b flanterm_context \<Rightarrow> 'b flanterm_context" where
  "sgr_fg_default ops ctx =
     (let ctx = ctx\<lparr>current_primary := COLOUR_NONE\<rparr>;
          ctx = (if reverse_video ctx then swap_palette ops ctx else ctx);
          ctx = (if \<not> bold ctx then set_text_fg_default ops ctx
                 else set_text_fg_default_bright ops ctx)
      in if reverse_video ctx then swap_palette ops ctx else ctx)"

definition sgr_bg_default :: "'b flanterm_ops \<Rightarrow> 'b flanterm_context \<Rightarrow> 'b flanterm_context" where
  "sgr_bg_default ops ctx =
     (let ctx = ctx\<lparr>current_bg := COLOUR_NONE\<rparr>;
          ctx = (if reverse_video ctx then swap_palette ops ctx else ctx);
          ctx = (if \<not> bg_bold ctx then set_text_bg_default ops ctx
                 else set_text_bg_default_bright ops ctx)
      in if reverse_video ctx then swap_palette ops ctx else ctx)"

definition sgr_reverse :: "'b flanterm_ops \<Rightarrow> bool \<Rightarrow> 'b flanterm_context \<Rightarrow> 'b flanterm_context" where
  "sgr_reverse ops on ctx =
     (if reverse_video ctx \<noteq> on then swap_palette ops (ctx\<lparr>reverse_video := on\<rparr>) else ctx)"

text \<open>
  The arms for 38 and 48. The result pairs the number of further parameters consumed with the
  context; \<open>None\<close> is \<open>break\<close> or \<open>goto out\<close>.
\<close>

definition sgr_mark :: "bool \<Rightarrow> 'b flanterm_context \<Rightarrow> 'b flanterm_context" where
  "sgr_mark fg ctx = (if fg then ctx\<lparr>current_primary := COLOUR_RGB\<rparr> else ctx\<lparr>current_bg := COLOUR_RGB\<rparr>)"

definition sgr_col256 :: "'b flanterm_ops \<Rightarrow> bool \<Rightarrow> bool \<Rightarrow> nat \<Rightarrow> 'b flanterm_context \<Rightarrow> 'b flanterm_context" where
  "sgr_col256 ops fg render_fg col ctx =
     (if col < 8 then
        (if render_fg then set_text_fg ops col (sgr_mark fg ctx)
         else set_text_bg ops col (sgr_mark fg ctx))
      else if col < 16 then
        (if render_fg then set_text_fg_bright ops (col - 8) (sgr_mark fg ctx)
         else set_text_bg_bright ops (col - 8) (sgr_mark fg ctx))
      else if col < 256 then
        (if render_fg then set_text_fg_rgb ops (col256 ! (col - 16)) (sgr_mark fg ctx)
         else set_text_bg_rgb ops (col256 ! (col - 16)) (sgr_mark fg ctx))
      else ctx)"

definition rgb_of :: "u32 \<Rightarrow> u32 \<Rightarrow> u32 \<Rightarrow> u32" where
  "rgb_of r g b = (push_bit 16 (r AND 0xff) OR push_bit 8 (g AND 0xff)) OR (b AND 0xff)"

definition sgr_extended ::
  "'b flanterm_ops \<Rightarrow> bool \<Rightarrow> nat \<Rightarrow> nat \<Rightarrow> 'b flanterm_context \<Rightarrow> nat option \<times> 'b flanterm_context" where
  "sgr_extended ops fg i n ctx =
     (let render_fg = (if reverse_video ctx then \<not> fg else fg);
          ev = esc_values ctx
      in if Suc i \<ge> n then (None, ctx)
         else if ev ! Suc i = 2 then
           (if i + 4 \<ge> n then (None, ctx)
            else
              let rgb_value = rgb_of (ev ! (i + 2)) (ev ! (i + 3)) (ev ! (i + 4));
                  ctx = sgr_mark fg ctx
              in (Some 4, if render_fg then set_text_fg_rgb ops rgb_value ctx
                          else set_text_bg_rgb ops rgb_value ctx))
         else if ev ! Suc i = 5 then
           (if i + 2 \<ge> n then (None, ctx)
            else (Some 2, sgr_col256 ops fg render_fg (unat (ev ! (i + 2))) ctx))
         else (Some 1, ctx))"

definition sgr_step ::
  "'b flanterm_ops \<Rightarrow> nat \<Rightarrow> nat \<Rightarrow> 'b flanterm_context \<Rightarrow> nat option \<times> 'b flanterm_context" where
  "sgr_step ops i n ctx =
     (let v = unat (esc_values ctx ! i) in
      if v = 0 then (Some 0, sgr_default ops ctx)
      else if v = 1 then (Some 0, sgr_bold_on ops ctx)
      else if v = 2 \<or> v = 3 \<or> v = 4 \<or> v = 8 then (Some 0, ctx)
      else if v = 5 then (Some 0, sgr_bg_bold_on ops ctx)
      else if v = 22 then (Some 0, sgr_bold_off ops ctx)
      else if v = 23 \<or> v = 24 \<or> v = 28 then (Some 0, ctx)
      else if v = 25 then (Some 0, sgr_bg_bold_off ops ctx)
      else if v \<ge> 30 \<and> v \<le> 37 then (Some 0, sgr_primary ops (v - 30) ctx)
      else if v \<ge> 40 \<and> v \<le> 47 then (Some 0, sgr_background ops (v - 40) ctx)
      else if v \<ge> 90 \<and> v \<le> 97 then (Some 0, sgr_primary_bright ops (v - 90) ctx)
      else if v \<ge> 100 \<and> v \<le> 107 then (Some 0, sgr_background_bright ops (v - 100) ctx)
      else if v = 39 then (Some 0, sgr_fg_default ops ctx)
      else if v = 49 then (Some 0, sgr_bg_default ops ctx)
      else if v = 7 then (Some 0, sgr_reverse ops True ctx)
      else if v = 27 then (Some 0, sgr_reverse ops False ctx)
      else if v = 38 \<or> v = 48 then sgr_extended ops (v = 38) i n ctx
      else (Some 0, ctx))"

text \<open>The loop; its bound \<open>n\<close> is \<open>esc_values_i\<close>, which no arm writes.\<close>

function sgr_loop :: "'b flanterm_ops \<Rightarrow> nat \<Rightarrow> nat \<Rightarrow> 'b flanterm_context \<Rightarrow> 'b flanterm_context" where
  "sgr_loop ops i n ctx =
     (if i < n then
        (case sgr_step ops i n ctx of
           (None, ctx') \<Rightarrow> ctx'
         | (Some k, ctx') \<Rightarrow> sgr_loop ops (i + k + 1) n ctx')
      else ctx)"
  by pat_completeness auto
termination
  by (relation "measure (\<lambda>(ops, i, n, ctx). n - i)") auto

declare sgr_loop.simps [simp del]

definition sgr :: "'b flanterm_ops \<Rightarrow> 'b flanterm_context \<Rightarrow> 'b flanterm_context" where
  "sgr ops ctx =
     (if esc_values_i ctx = 0 then sgr_default ops ctx
      else sgr_loop ops 0 (esc_values_i ctx) ctx)"


section \<open>Saving and restoring the cursor state\<close>

definition restore_state :: "'b flanterm_ops \<Rightarrow> 'b flanterm_context \<Rightarrow> 'b flanterm_context" where
  "restore_state ops ctx =
     (let ctx = ctx\<lparr>
        bold := saved_state_bold ctx,
        bg_bold := saved_state_bg_bold ctx,
        reverse_video := saved_state_reverse_video ctx,
        origin_mode := saved_state_origin_mode ctx,
        wrap_enabled := saved_state_wrap_enabled ctx,
        current_charset := saved_state_current_charset ctx,
        charsets := (charsets ctx)[0 := saved_state_charsets ctx ! 0, 1 := saved_state_charsets ctx ! 1],
        current_primary := saved_state_current_primary ctx,
        current_bg := saved_state_current_bg ctx,
        scroll_top_margin := saved_state_scroll_top_margin ctx,
        scroll_bottom_margin := saved_state_scroll_bottom_margin ctx\<rparr>
      in ctx\<lparr>be := be_restore_state ops ctx\<rparr>)"

definition save_state :: "'b flanterm_ops \<Rightarrow> 'b flanterm_context \<Rightarrow> 'b flanterm_context" where
  "save_state ops ctx =
     (let ctx = ctx\<lparr>be := be_save_state ops ctx\<rparr>
      in ctx\<lparr>
        saved_state_bold := bold ctx,
        saved_state_bg_bold := bg_bold ctx,
        saved_state_reverse_video := reverse_video ctx,
        saved_state_origin_mode := origin_mode ctx,
        saved_state_wrap_enabled := wrap_enabled ctx,
        saved_state_current_charset := current_charset ctx,
        saved_state_charsets := (saved_state_charsets ctx)[0 := charsets ctx ! 0, 1 := charsets ctx ! 1],
        saved_state_current_primary := current_primary ctx,
        saved_state_current_bg := current_bg ctx,
        saved_state_scroll_top_margin := scroll_top_margin ctx,
        saved_state_scroll_bottom_margin := scroll_bottom_margin ctx\<rparr>)"

section \<open>Modes and private sequences\<close>

definition dec_private_mode :: "'b flanterm_ops \<Rightarrow> bool \<Rightarrow> u32 \<Rightarrow> 'b flanterm_context \<Rightarrow> 'b flanterm_context" where
  "dec_private_mode ops st v ctx =
     (if v = 6 then
        (let ctx = ctx\<lparr>origin_mode := st\<rparr>
         in set_cursor_pos ops 0 (if st then scroll_top_margin ctx else 0) ctx)
      else if v = 7 then ctx\<lparr>wrap_enabled := st\<rparr>
      else if v = 25 then ctx\<lparr>cursor_enabled := st\<rparr>
      else if v = 1049 then
        (if st then
           (let ctx = save_state ops ctx;
                ctx = ctx\<lparr>scroll_top_margin := 0, scroll_bottom_margin := rows ctx\<rparr>
            in clear ops True ctx)
         else restore_state ops (clear ops True ctx))
      else ctx)"

definition dec_private_parse :: "'b flanterm_ops \<Rightarrow> u8 \<Rightarrow> 'b flanterm_context \<Rightarrow> 'b flanterm_context" where
  "dec_private_parse ops c ctx =
     (let ctx = ctx\<lparr>dec_private := False\<rparr> in
      if esc_values_i ctx = 0 then ctx
      else if c \<noteq> byte CHR ''h'' \<and> c \<noteq> byte CHR ''l'' then ctx
      else
        let st = (c = byte CHR ''h'');
            ctx = for_up 0 (esc_values_i ctx)
                    (\<lambda>i ctx. dec_private_mode ops st (esc_values ctx ! i) ctx) ctx
        in call_callback ops FLANTERM_CB_DEC (Num (esc_values_i ctx)) EscValues (Num (unat c)) ctx)"

definition linux_private_parse :: "'b flanterm_ops \<Rightarrow> 'b flanterm_context \<Rightarrow> 'b flanterm_context" where
  "linux_private_parse ops ctx =
     (if esc_values_i ctx = 0 then ctx
      else call_callback ops FLANTERM_CB_LINUX (Num (esc_values_i ctx)) EscValues (Num 0) ctx)"

definition mode_toggle :: "'b flanterm_ops \<Rightarrow> u8 \<Rightarrow> 'b flanterm_context \<Rightarrow> 'b flanterm_context" where
  "mode_toggle ops c ctx =
     (if esc_values_i ctx = 0 then ctx
      else if c \<noteq> byte CHR ''h'' \<and> c \<noteq> byte CHR ''l'' then ctx
      else if esc_values ctx ! 0 = 4 then ctx\<lparr>insert_mode := (c = byte CHR ''h'')\<rparr>
      else call_callback ops FLANTERM_CB_MODE (Num (esc_values_i ctx)) EscValues (Num (unat c)) ctx)"

section \<open>Operating system commands\<close>

text \<open>The leading decimal number; \<open>osc_num\<close> is a 64-bit value and wraps.\<close>

function osc_number :: "u8 list \<Rightarrow> nat \<Rightarrow> nat \<Rightarrow> u64 \<Rightarrow> nat \<times> u64" where
  "osc_number buf n i num =
     (if i < n \<and> buf ! i \<ge> byte CHR ''0'' \<and> buf ! i \<le> byte CHR ''9''
      then osc_number buf n (Suc i) (num * 10 + ucast (buf ! i - byte CHR ''0''))
      else (i, num))"
  by pat_completeness auto
termination
  by (relation "measure (\<lambda>(buf, n, i, num). n - i)") auto

declare osc_number.simps [simp del]

definition osc_finalize :: "'b flanterm_ops \<Rightarrow> 'b flanterm_context \<Rightarrow> 'b flanterm_context" where
  "osc_finalize ops ctx =
     (if callback ops = None then ctx
      else
        let (i, osc_num) = osc_number (osc_buf ctx) (osc_buf_i ctx) 0 0;
            i = (if i < osc_buf_i ctx \<and> osc_buf ctx ! i = byte CHR '';'' then Suc i else i)
        in call_callback ops FLANTERM_CB_OSC (Num (unat osc_num)) (Num (osc_buf_i ctx - i)) (OscBuf i) ctx)"

definition osc_parse :: "'b flanterm_ops \<Rightarrow> u8 \<Rightarrow> 'b flanterm_context \<Rightarrow> bool \<times> 'b flanterm_context" where
  "osc_parse ops c ctx =
     (if osc_escape ctx then
        (if c = byte CHR 0x5c then
           (True, (osc_finalize ops ctx)\<lparr>osc := False, osc_escape := False, escape := False\<rparr>)
         else (False, ctx\<lparr>osc_escape := False, osc := False\<rparr>))
      else if c = 0x1b then (True, ctx\<lparr>osc_escape := True\<rparr>)
      else if c = 7 then
        (True, (osc_finalize ops ctx)\<lparr>osc_escape := False, osc := False, escape := False\<rparr>)
      else if osc_buf_i ctx < FLANTERM_OSC_BUF then
        (True, ctx\<lparr>osc_buf := (osc_buf ctx)[osc_buf_i ctx := c], osc_buf_i := Suc (osc_buf_i ctx)\<rparr>)
      else (True, ctx))"

section \<open>Control characters\<close>

definition execute_c0 :: "'b flanterm_ops \<Rightarrow> u8 \<Rightarrow> 'b flanterm_context \<Rightarrow> bool \<times> 'b flanterm_context" where
  "execute_c0 ops c ctx =
     (let (x, y) = be_get_cursor_pos ops ctx in
      if c = 7 then
        (True, call_callback ops FLANTERM_CB_BELL (Num 0) (Num 0) (Num 0) ctx)
      else if c = 8 then
        (True, if x > 0 then set_cursor_pos ops (x - 1) y ctx else ctx)
      else if c = 9 then
        (let x = (x div tab_size ctx + 1) * tab_size ctx;
             x = (if x \<ge> cols ctx then sub64 (cols ctx) 1 else x)
         in (True, set_cursor_pos ops x y ctx))
      else if c = 0x0b \<or> c = 0x0c \<or> c = 0x0a then
        (True,
         if y = sub64 (scroll_bottom_margin ctx) 1 then set_cursor_pos ops x y (scroll ops ctx)
         else if y < sub64 (rows ctx) 1 then set_cursor_pos ops x (y + 1) ctx
         else ctx)
      else if c = 0x0d then (True, set_cursor_pos ops 0 y ctx)
      else if c = 14 then (True, ctx\<lparr>current_charset := 1\<rparr>)
      else if c = 15 then (True, ctx\<lparr>current_charset := 0\<rparr>)
      else (False, ctx))"

section \<open>Control sequences\<close>

text \<open>
  \<open>control_sequence_parse\<close> collects decimal parameters and dispatches on the final byte. Each arm
  of the switch is a definition of its own; \<open>x\<close> and \<open>y\<close> are the cursor position read before the
  switch. Parameters are 32-bit: \<open>set_esc\<close> truncates what is stored, \<open>esc\<close> widens what is read.
\<close>

definition esc :: "nat \<Rightarrow> 'b flanterm_context \<Rightarrow> nat" where
  "esc i ctx = unat (esc_values ctx ! i)"

definition set_esc :: "nat \<Rightarrow> nat \<Rightarrow> 'b flanterm_context \<Rightarrow> 'b flanterm_context" where
  "set_esc i v ctx = ctx\<lparr>esc_values := (esc_values ctx)[i := of_nat v]\<rparr>"

definition csi_digit :: "u8 \<Rightarrow> 'b flanterm_context \<Rightarrow> 'b flanterm_context" where
  "csi_digit c ctx =
     (if esc_values_i ctx = FLANTERM_MAX_ESC_VALUES then ctx
      else
        let ctx = ctx\<lparr>rrr := True\<rparr>; i = esc_values_i ctx in
        if esc i ctx > 0xFFFFFFFF div 10 then ctx
        else
          let ctx = set_esc i (esc i ctx * 10) ctx;
              digit = unat (c - byte CHR ''0'')
          in if esc i ctx > 0xFFFFFFFF - digit then set_esc i 0xFFFFFFFF ctx
             else set_esc i (esc i ctx + digit) ctx)"

definition csi_defaults :: "u8 \<Rightarrow> 'b flanterm_context \<Rightarrow> 'b flanterm_context" where
  "csi_defaults c ctx =
     (let esc_default =
            (if c \<in> {byte CHR ''J'', byte CHR ''K'', byte CHR ''q'', byte CHR ''m'',
                     byte CHR ''c'', byte CHR '']''} then 0 else 1);
          ctx = for_up (esc_values_i ctx) FLANTERM_MAX_ESC_VALUES (\<lambda>i. set_esc i esc_default) ctx
      in if esc_default \<noteq> 0
         then for_up 0 (esc_values_i ctx)
                (\<lambda>i ctx. if esc i ctx = 0 then set_esc i esc_default ctx else ctx) ctx
         else ctx)"

definition csi_cursor_up :: "'b flanterm_ops \<Rightarrow> nat \<Rightarrow> nat \<Rightarrow> 'b flanterm_context \<Rightarrow> 'b flanterm_context" where
  "csi_cursor_up ops x y ctx =
     (let ctx = (if esc 0 ctx > y then set_esc 0 y ctx else ctx);
          dest_y = sub64 y (esc 0 ctx);
          min_y = (if origin_mode ctx then scroll_top_margin ctx else 0);
          dest_y = (if dest_y < min_y then min_y else dest_y)
      in set_cursor_pos ops x dest_y ctx)"

definition csi_cursor_down :: "'b flanterm_ops \<Rightarrow> nat \<Rightarrow> nat \<Rightarrow> 'b flanterm_context \<Rightarrow> 'b flanterm_context" where
  "csi_cursor_down ops x y ctx =
     (let ctx = (if y + esc 0 ctx > sub64 (rows ctx) 1
                 then set_esc 0 (sub64 (sub64 (rows ctx) 1) y) ctx else ctx);
          dest_y = y + esc 0 ctx;
          max_y = (if origin_mode ctx then scroll_bottom_margin ctx else rows ctx);
          dest_y = (if dest_y \<ge> max_y then sub64 max_y 1 else dest_y)
      in set_cursor_pos ops x dest_y ctx)"

definition csi_cursor_right :: "'b flanterm_ops \<Rightarrow> nat \<Rightarrow> nat \<Rightarrow> 'b flanterm_context \<Rightarrow> 'b flanterm_context" where
  "csi_cursor_right ops x y ctx =
     (let ctx = (if x + esc 0 ctx > sub64 (cols ctx) 1
                 then set_esc 0 (sub64 (sub64 (cols ctx) 1) x) ctx else ctx)
      in set_cursor_pos ops (x + esc 0 ctx) y ctx)"

definition csi_cursor_left :: "'b flanterm_ops \<Rightarrow> nat \<Rightarrow> nat \<Rightarrow> 'b flanterm_context \<Rightarrow> 'b flanterm_context" where
  "csi_cursor_left ops x y ctx =
     (let ctx = (if esc 0 ctx > x then set_esc 0 x ctx else ctx)
      in set_cursor_pos ops (sub64 x (esc 0 ctx)) y ctx)"

definition max_row :: "'b flanterm_context \<Rightarrow> nat" where
  "max_row ctx = (if origin_mode ctx then sub64 (scroll_bottom_margin ctx) (scroll_top_margin ctx)
                  else rows ctx)"

definition row_offset :: "'b flanterm_context \<Rightarrow> nat" where
  "row_offset ctx = (if origin_mode ctx then scroll_top_margin ctx else 0)"

definition esc_pred :: "nat \<Rightarrow> 'b flanterm_context \<Rightarrow> 'b flanterm_context" where
  "esc_pred i ctx = (if esc i ctx \<noteq> 0 then set_esc i (esc i ctx - 1) ctx else ctx)"

definition csi_row :: "'b flanterm_ops \<Rightarrow> nat \<Rightarrow> nat \<Rightarrow> 'b flanterm_context \<Rightarrow> 'b flanterm_context" where
  "csi_row ops x y ctx =
     (let ctx = esc_pred 0 ctx;
          ctx = (if esc 0 ctx \<ge> max_row ctx then set_esc 0 (sub64 (max_row ctx) 1) ctx else ctx)
      in set_cursor_pos ops x (esc 0 ctx + row_offset ctx) ctx)"

definition csi_column :: "'b flanterm_ops \<Rightarrow> nat \<Rightarrow> nat \<Rightarrow> 'b flanterm_context \<Rightarrow> 'b flanterm_context" where
  "csi_column ops x y ctx =
     (let ctx = esc_pred 0 ctx;
          ctx = (if esc 0 ctx \<ge> cols ctx then set_esc 0 (sub64 (cols ctx) 1) ctx else ctx)
      in set_cursor_pos ops (esc 0 ctx) y ctx)"

definition csi_position :: "'b flanterm_ops \<Rightarrow> 'b flanterm_context \<Rightarrow> 'b flanterm_context" where
  "csi_position ops ctx =
     (let ctx = esc_pred 1 (esc_pred 0 ctx);
          ctx = (if esc 1 ctx \<ge> cols ctx then set_esc 1 (sub64 (cols ctx) 1) ctx else ctx);
          ctx = (if esc 0 ctx \<ge> max_row ctx then set_esc 0 (sub64 (max_row ctx) 1) ctx else ctx)
      in set_cursor_pos ops (esc 1 ctx) (esc 0 ctx + row_offset ctx) ctx)"

text \<open>\<open>M\<close> and \<open>L\<close>: delete or insert lines, by scrolling the region that starts at the cursor line.\<close>

definition csi_delete_lines :: "'b flanterm_ops \<Rightarrow> nat \<Rightarrow> 'b flanterm_context \<Rightarrow> 'b flanterm_context" where
  "csi_delete_lines ops y ctx =
     (if y < scroll_top_margin ctx \<or> y \<ge> scroll_bottom_margin ctx then ctx
      else
        let old_scroll_top_margin = scroll_top_margin ctx;
            ctx = ctx\<lparr>scroll_top_margin := y\<rparr>;
            max_count = sub64 (scroll_bottom_margin ctx) y;
            count = (if esc 0 ctx > max_count then max_count else esc 0 ctx);
            ctx = for_up 0 count (\<lambda>_. scroll ops) ctx
        in ctx\<lparr>scroll_top_margin := old_scroll_top_margin\<rparr>)"

definition csi_insert_lines :: "'b flanterm_ops \<Rightarrow> nat \<Rightarrow> 'b flanterm_context \<Rightarrow> 'b flanterm_context" where
  "csi_insert_lines ops y ctx =
     (if y < scroll_top_margin ctx \<or> y \<ge> scroll_bottom_margin ctx then ctx
      else
        let old_scroll_top_margin = scroll_top_margin ctx;
            ctx = ctx\<lparr>scroll_top_margin := y\<rparr>;
            max_count = sub64 (scroll_bottom_margin ctx) y;
            count = (if esc 0 ctx > max_count then max_count else esc 0 ctx);
            ctx = for_up 0 count (\<lambda>_. revscroll ops) ctx
        in ctx\<lparr>scroll_top_margin := old_scroll_top_margin\<rparr>)"

definition csi_report :: "'b flanterm_ops \<Rightarrow> nat \<Rightarrow> nat \<Rightarrow> 'b flanterm_context \<Rightarrow> 'b flanterm_context" where
  "csi_report ops x y ctx =
     (if esc 0 ctx = 5 then call_callback ops FLANTERM_CB_STATUS_REPORT (Num 0) (Num 0) (Num 0) ctx
      else if esc 0 ctx = 6 then
        (let report_y = (if origin_mode ctx \<and> y \<ge> scroll_top_margin ctx
                         then y - scroll_top_margin ctx else y)
         in call_callback ops FLANTERM_CB_POS_REPORT (Num (x + 1)) (Num (report_y + 1)) (Num 0) ctx)
      else ctx)"

definition blanks :: "'b flanterm_ops \<Rightarrow> nat \<Rightarrow> 'b flanterm_context \<Rightarrow> 'b flanterm_context" where
  "blanks ops n ctx = for_up 0 n (\<lambda>_. raw_putchar ops (byte CHR '' '')) ctx"

definition csi_erase_display :: "'b flanterm_ops \<Rightarrow> nat \<Rightarrow> nat \<Rightarrow> 'b flanterm_context \<Rightarrow> 'b flanterm_context" where
  "csi_erase_display ops x y ctx =
     (if esc 0 ctx = 0 then
        (let ctx = set_cursor_pos ops x y ctx;
             ctx = for_up x (cols ctx) (\<lambda>_. raw_putchar ops (byte CHR '' '')) ctx;
             ctx = for_up (y + 1) (rows ctx)
                     (\<lambda>yc ctx. for_up 0 (cols ctx) (\<lambda>_. raw_putchar ops (byte CHR '' ''))
                                 (set_cursor_pos ops 0 yc ctx)) ctx
         in set_cursor_pos ops x y ctx)
      else if esc 0 ctx = 1 then
        (let ctx = for_up 0 y
                     (\<lambda>yc ctx. for_up 0 (cols ctx) (\<lambda>_. raw_putchar ops (byte CHR '' ''))
                                 (set_cursor_pos ops 0 yc ctx)) ctx;
             ctx = set_cursor_pos ops 0 y ctx;
             ctx = for_up 0 (Suc x) (\<lambda>_. raw_putchar ops (byte CHR '' '')) ctx
         in set_cursor_pos ops x y ctx)
      else if esc 0 ctx = 2 \<or> esc 0 ctx = 3 then clear ops False ctx
      else ctx)"

text \<open>
  \<open>@\<close>, \<open>P\<close> and \<open>X\<close>. The downward loop of \<open>@\<close> ends at \<open>x + n\<close>, which is at least one here
  since \<open>n\<close> is.
\<close>

definition csi_insert_chars :: "'b flanterm_ops \<Rightarrow> nat \<Rightarrow> nat \<Rightarrow> 'b flanterm_context \<Rightarrow> 'b flanterm_context" where
  "csi_insert_chars ops x y ctx =
     (let n = esc 0 ctx in
      if n = 0 then ctx
      else
        let n = (if n > sub64 (cols ctx) x then sub64 (cols ctx) x else n);
            ctx = for_down (sub64 (cols ctx) 1) (x + n)
                    (\<lambda>i. move_character ops i y (sub64 i n) y) ctx;
            ctx = set_cursor_pos ops x y ctx;
            ctx = blanks ops n ctx
        in set_cursor_pos ops x y ctx)"

definition csi_erase_chars :: "'b flanterm_ops \<Rightarrow> nat \<Rightarrow> nat \<Rightarrow> 'b flanterm_context \<Rightarrow> 'b flanterm_context" where
  "csi_erase_chars ops x y ctx =
     (let (cx, cy) = be_get_cursor_pos ops ctx;
          ctx = set_cursor_pos ops cx cy ctx;
          remaining = sub64 (cols ctx) cx;
          count = (if esc 0 ctx > remaining then remaining else esc 0 ctx);
          ctx = blanks ops count ctx
      in set_cursor_pos ops x y ctx)"

definition csi_delete_chars :: "'b flanterm_ops \<Rightarrow> nat \<Rightarrow> nat \<Rightarrow> 'b flanterm_context \<Rightarrow> 'b flanterm_context" where
  "csi_delete_chars ops x y ctx =
     (let ctx = (if esc 0 ctx > sub64 (cols ctx) x then set_esc 0 (sub64 (cols ctx) x) ctx else ctx);
          ctx = for_up (x + esc 0 ctx) (cols ctx)
                  (\<lambda>i ctx. move_character ops (sub64 i (esc 0 ctx)) y i y ctx) ctx;
          ctx = set_cursor_pos ops (sub64 (cols ctx) (esc 0 ctx)) y ctx
      in csi_erase_chars ops x y ctx)"

definition csi_erase_line :: "'b flanterm_ops \<Rightarrow> nat \<Rightarrow> nat \<Rightarrow> 'b flanterm_context \<Rightarrow> 'b flanterm_context" where
  "csi_erase_line ops x y ctx =
     (if esc 0 ctx = 0 then
        (let ctx = set_cursor_pos ops x y ctx;
             ctx = for_up x (cols ctx) (\<lambda>_. raw_putchar ops (byte CHR '' '')) ctx
         in set_cursor_pos ops x y ctx)
      else if esc 0 ctx = 1 then
        (let ctx = set_cursor_pos ops 0 y ctx;
             ctx = for_up 0 (Suc x) (\<lambda>_. raw_putchar ops (byte CHR '' '')) ctx
         in set_cursor_pos ops x y ctx)
      else if esc 0 ctx = 2 then
        (let ctx = set_cursor_pos ops 0 y ctx;
             ctx = for_up 0 (cols ctx) (\<lambda>_. raw_putchar ops (byte CHR '' '')) ctx
         in set_cursor_pos ops x y ctx)
      else ctx)"

definition csi_set_margins :: "'b flanterm_ops \<Rightarrow> 'b flanterm_context \<Rightarrow> 'b flanterm_context" where
  "csi_set_margins ops ctx =
     (let top_m = (if esc_values_i ctx > 0 then unat (esc_values ctx ! 0 - 1) else 0);
          bottom_m = (if esc_values_i ctx > 1 then esc 1 ctx else rows ctx);
          bad = (top_m \<ge> rows ctx \<or> bottom_m > rows ctx \<or> top_m \<ge> sub64 bottom_m 1);
          ctx = ctx\<lparr>scroll_top_margin := (if bad then 0 else top_m),
                    scroll_bottom_margin := (if bad then rows ctx else bottom_m)\<rparr>
      in set_cursor_pos ops 0 (if origin_mode ctx then scroll_top_margin ctx else 0) ctx)"

definition csi_scroll :: "'b flanterm_ops \<Rightarrow> 'b flanterm_context \<Rightarrow> 'b flanterm_context" where
  "csi_scroll ops ctx =
     (let region = sub64 (scroll_bottom_margin ctx) (scroll_top_margin ctx);
          count = (if esc 0 ctx > region then region else esc 0 ctx)
      in for_up 0 count (\<lambda>_. scroll ops) ctx)"

definition csi_revscroll :: "'b flanterm_ops \<Rightarrow> 'b flanterm_context \<Rightarrow> 'b flanterm_context" where
  "csi_revscroll ops ctx =
     (let region = sub64 (scroll_bottom_margin ctx) (scroll_top_margin ctx);
          count = (if esc 0 ctx > region then region else esc 0 ctx)
      in for_up 0 count (\<lambda>_. revscroll ops) ctx)"

text \<open>\<open>b\<close> repeats the last graphic character with the scroll and wrap modes the user set.\<close>

definition csi_repeat :: "'b flanterm_ops \<Rightarrow> bool \<Rightarrow> bool \<Rightarrow> 'b flanterm_context \<Rightarrow> 'b flanterm_context" where
  "csi_repeat ops r saved_wrap ctx =
     (if \<not> last_was_graphic ctx then ctx
      else
        let ctx = ctx\<lparr>scroll_enabled := r, wrap_enabled := saved_wrap\<rparr>;
            count = (if esc 0 ctx > 65535 then 65535 else esc 0 ctx)
        in for_up 0 count
             (\<lambda>_ ctx.
               let ctx = (if insert_mode ctx then
                            (let (ix, iy) = be_get_cursor_pos ops ctx
                             in for_down (sub64 (cols ctx) 1) (Suc ix)
                                  (\<lambda>j. move_character ops j iy (j - 1) iy) ctx)
                          else ctx)
               in raw_putchar ops (last_printed_char ctx) ctx) ctx)"

text \<open>The switch on the final byte. \<open>None\<close> is the default arm for a byte that is not a final byte.\<close>

definition csi_action ::
  "'b flanterm_ops \<Rightarrow> u8 \<Rightarrow> bool \<Rightarrow> bool \<Rightarrow> nat \<Rightarrow> nat \<Rightarrow> 'b flanterm_context \<Rightarrow> 'b flanterm_context option" where
  "csi_action ops c r saved_wrap x y ctx =
     (if c = byte CHR ''F'' then Some (csi_cursor_up ops 0 y ctx)
      else if c = byte CHR ''A'' then Some (csi_cursor_up ops x y ctx)
      else if c = byte CHR ''E'' then Some (csi_cursor_down ops 0 y ctx)
      else if c = byte CHR ''e'' \<or> c = byte CHR ''B'' then Some (csi_cursor_down ops x y ctx)
      else if c = byte CHR ''a'' \<or> c = byte CHR ''C'' then Some (csi_cursor_right ops x y ctx)
      else if c = byte CHR ''D'' then Some (csi_cursor_left ops x y ctx)
      else if c = byte CHR ''c'' then
        Some (call_callback ops FLANTERM_CB_PRIVATE_ID (Num 0) (Num 0) (Num 0) ctx)
      else if c = byte CHR ''d'' then Some (csi_row ops x y ctx)
      else if c = byte CHR ''G'' \<or> c = byte CHR 0x60 then Some (csi_column ops x y ctx)
      else if c = byte CHR ''H'' \<or> c = byte CHR ''f'' then Some (csi_position ops ctx)
      else if c = byte CHR ''M'' then Some (csi_delete_lines ops y ctx)
      else if c = byte CHR ''L'' then Some (csi_insert_lines ops y ctx)
      else if c = byte CHR ''n'' then Some (csi_report ops x y ctx)
      else if c = byte CHR ''q'' then
        Some (call_callback ops FLANTERM_CB_KBD_LEDS (Num (esc 0 ctx)) (Num 0) (Num 0) ctx)
      else if c = byte CHR ''J'' then Some (csi_erase_display ops x y ctx)
      else if c = byte CHR ''@'' then Some (csi_insert_chars ops x y ctx)
      else if c = byte CHR ''P'' then Some (csi_delete_chars ops x y ctx)
      else if c = byte CHR ''X'' then Some (csi_erase_chars ops x y ctx)
      else if c = byte CHR ''m'' then Some (sgr ops ctx)
      else if c = byte CHR ''s'' then
        Some (let (sx, sy) = be_get_cursor_pos ops ctx
              in ctx\<lparr>saved_cursor_x := sx, saved_cursor_y := sy\<rparr>)
      else if c = byte CHR ''u'' then
        Some (set_cursor_pos ops (saved_cursor_x ctx) (saved_cursor_y ctx) ctx)
      else if c = byte CHR ''K'' then Some (csi_erase_line ops x y ctx)
      else if c = byte CHR ''r'' then Some (csi_set_margins ops ctx)
      else if c = byte CHR ''l'' \<or> c = byte CHR ''h'' then Some (mode_toggle ops c ctx)
      else if c = byte CHR ''S'' then Some (csi_scroll ops ctx)
      else if c = byte CHR ''T'' then Some (csi_revscroll ops ctx)
      else if c = byte CHR ''b'' then Some (csi_repeat ops r saved_wrap ctx)
      else if c = byte CHR '']'' then Some (linux_private_parse ops ctx)
      else if c \<ge> 0x40 \<and> c \<le> 0x7E then Some ctx
      else None)"

definition csi_cleanup :: "'b flanterm_context \<Rightarrow> 'b flanterm_context" where
  "csi_cleanup ctx = ctx\<lparr>control_sequence := False, escape := False\<rparr>"

definition csi_execute :: "'b flanterm_ops \<Rightarrow> u8 \<Rightarrow> 'b flanterm_context \<Rightarrow> 'b flanterm_context" where
  "csi_execute ops c ctx =
     (let r = scroll_enabled ctx;
          saved_wrap = wrap_enabled ctx;
          ctx = ctx\<lparr>scroll_enabled := False, wrap_enabled := True\<rparr>;
          (x, y) = be_get_cursor_pos ops ctx
      in if c = 0x1B then
           ctx\<lparr>scroll_enabled := r, wrap_enabled := saved_wrap,
               control_sequence := False, escape_offset := 0\<rparr>
         else case csi_action ops c r saved_wrap x y ctx of
             None \<Rightarrow> ctx\<lparr>scroll_enabled := r, wrap_enabled := saved_wrap, csi_unhandled := True\<rparr>
           | Some ctx \<Rightarrow> csi_cleanup (ctx\<lparr>scroll_enabled := r, wrap_enabled := saved_wrap\<rparr>))"

definition csi_dispatch :: "'b flanterm_ops \<Rightarrow> u8 \<Rightarrow> 'b flanterm_context \<Rightarrow> 'b flanterm_context" where
  "csi_dispatch ops c ctx =
     (let ctx = csi_defaults c ctx in
      if dec_private ctx then csi_cleanup (dec_private_parse ops c ctx)
      else if csi_unhandled ctx then
        (if c = 0x1B then
           ctx\<lparr>csi_unhandled := False, control_sequence := False, escape_offset := 0\<rparr>
         else if c \<ge> 0x40 \<and> c \<le> 0x7E then csi_cleanup (ctx\<lparr>csi_unhandled := False\<rparr>)
         else ctx)
      else csi_execute ops c ctx)"

definition control_sequence_parse :: "'b flanterm_ops \<Rightarrow> u8 \<Rightarrow> 'b flanterm_context \<Rightarrow> 'b flanterm_context" where
  "control_sequence_parse ops c ctx =
     (if escape_offset ctx = 2 \<and> c = byte CHR ''['' then csi_cleanup (ctx\<lparr>discard_next := True\<rparr>)
      else if escape_offset ctx = 2 \<and> c = byte CHR ''?'' then ctx\<lparr>dec_private := True\<rparr>
      else if c < 0x20 \<and> c \<noteq> 0x1b then snd (execute_c0 ops c ctx)
      else if c \<ge> byte CHR ''0'' \<and> c \<le> byte CHR ''9'' then csi_digit c ctx
      else if rrr ctx then
        (let ctx = ctx\<lparr>esc_values_i := Suc (esc_values_i ctx), rrr := False\<rparr>
         in if c = byte CHR '';'' then ctx else csi_dispatch ops c ctx)
      else if c = byte CHR '';'' then
        (if esc_values_i ctx = FLANTERM_MAX_ESC_VALUES then ctx
         else (set_esc (esc_values_i ctx) 0 ctx)\<lparr>esc_values_i := Suc (esc_values_i ctx)\<rparr>)
      else csi_dispatch ops c ctx)"


section \<open>Escape sequences\<close>

text \<open>The switch of \<open>escape_parse\<close> on the byte after ESC; \<open>x\<close> and \<open>y\<close> are the cursor position.\<close>

definition esc_index :: "'b flanterm_ops \<Rightarrow> nat \<Rightarrow> nat \<Rightarrow> 'b flanterm_context \<Rightarrow> 'b flanterm_context" where
  "esc_index ops x y ctx =
     (if y = sub64 (scroll_bottom_margin ctx) 1 then set_cursor_pos ops x y (scroll ops ctx)
      else if y < sub64 (rows ctx) 1 then set_cursor_pos ops x (y + 1) ctx
      else ctx)"

definition esc_next_line :: "'b flanterm_ops \<Rightarrow> nat \<Rightarrow> 'b flanterm_context \<Rightarrow> 'b flanterm_context" where
  "esc_next_line ops y ctx =
     (if y = sub64 (scroll_bottom_margin ctx) 1 then set_cursor_pos ops 0 y (scroll ops ctx)
      else if y < sub64 (rows ctx) 1 then set_cursor_pos ops 0 (y + 1) ctx
      else set_cursor_pos ops 0 y ctx)"

definition esc_reverse_index :: "'b flanterm_ops \<Rightarrow> nat \<Rightarrow> nat \<Rightarrow> 'b flanterm_context \<Rightarrow> 'b flanterm_context" where
  "esc_reverse_index ops x y ctx =
     (if y = scroll_top_margin ctx then set_cursor_pos ops x y (revscroll ops ctx)
      else if y > 0 then set_cursor_pos ops x (y - 1) ctx
      else ctx)"

definition esc_reset :: "'b flanterm_ops \<Rightarrow> 'b flanterm_context \<Rightarrow> 'b flanterm_context" where
  "esc_reset ops ctx =
     (let ctx = (if reverse_video ctx then swap_palette ops ctx else ctx);
          ctx = flanterm_context_reinit ctx;
          ctx = set_text_bg_default ops ctx;
          ctx = set_text_fg_default ops ctx;
          ctx = clear ops True ctx
      in save_state ops ctx)"

definition escape_switch :: "'b flanterm_ops \<Rightarrow> u8 \<Rightarrow> 'b flanterm_context \<Rightarrow> 'b flanterm_context" where
  "escape_switch ops c ctx =
     (let (x, y) = be_get_cursor_pos ops ctx in
      if c = 0x1b then ctx\<lparr>escape_offset := 0\<rparr>
      else if c = byte CHR '']'' then ctx\<lparr>osc_escape := False, osc := True, osc_buf_i := 0\<rparr>
      else if c = byte CHR ''['' then
        (let ctx = for_up 0 FLANTERM_MAX_ESC_VALUES (\<lambda>i. set_esc i 0) ctx
         in ctx\<lparr>esc_values_i := 0, rrr := False, csi_unhandled := False, control_sequence := True\<rparr>)
      else
        let ctx =
          (if c = byte CHR ''7'' then save_state ops ctx
           else if c = byte CHR ''8'' then restore_state ops ctx
           else if c = byte CHR ''c'' then esc_reset ops ctx
           else if c = byte CHR ''D'' then esc_index ops x y ctx
           else if c = byte CHR ''E'' then esc_next_line ops y ctx
           else if c = byte CHR ''M'' then esc_reverse_index ops x y ctx
           else if c = byte CHR ''Z'' then
             call_callback ops FLANTERM_CB_PRIVATE_ID (Num 0) (Num 0) (Num 0) ctx
           else if c = byte CHR ''('' \<or> c = byte CHR '')'' then
             ctx\<lparr>g_select := unat (c - byte CHR 0x27)\<rparr>
           else ctx)
        in ctx\<lparr>escape := False\<rparr>)"

definition escape_parse :: "'b flanterm_ops \<Rightarrow> u8 \<Rightarrow> 'b flanterm_context \<Rightarrow> 'b flanterm_context" where
  "escape_parse ops c ctx =
     (let ctx = ctx\<lparr>escape_offset := add64 (escape_offset ctx) 1\<rparr>;
          (consumed, ctx) =
            (if osc ctx then
               (let (ok, ctx) = osc_parse ops c ctx
                in if ok then (True, ctx) else (False, ctx\<lparr>escape_offset := 1\<rparr>))
             else (False, ctx))
      in if consumed then ctx
         else if control_sequence ctx then control_sequence_parse ops c ctx
         else escape_switch ops c ctx)"

section \<open>Bytes\<close>

definition dec_special_print :: "'b flanterm_ops \<Rightarrow> u8 \<Rightarrow> 'b flanterm_context \<Rightarrow> bool \<times> 'b flanterm_context" where
  "dec_special_print ops c ctx =
     (case dec_special c of
        Some g \<Rightarrow> (True, raw_putchar ops g (ctx\<lparr>last_printed_char := g, last_was_graphic := True\<rparr>))
      | None \<Rightarrow> (False, ctx))"

definition insert_shift :: "'b flanterm_ops \<Rightarrow> nat \<Rightarrow> 'b flanterm_context \<Rightarrow> 'b flanterm_context" where
  "insert_shift ops count ctx =
     (if insert_mode ctx \<and> count > 0 then
        (let (x, y) = be_get_cursor_pos ops ctx;
             count = (if count > sub64 (cols ctx) x then sub64 (cols ctx) x else count)
         in for_down (sub64 (cols ctx) 1) (x + count)
              (\<lambda>i. move_character ops i y (sub64 i count) y) ctx)
      else ctx)"

definition print_glyph :: "'b flanterm_ops \<Rightarrow> u8 \<Rightarrow> 'b flanterm_context \<Rightarrow> 'b flanterm_context" where
  "print_glyph ops g ctx = raw_putchar ops g (ctx\<lparr>last_printed_char := g, last_was_graphic := True\<rparr>)"

text \<open>The code after the label \<open>unicode_error\<close>: a byte that does not continue a UTF-8 sequence.\<close>

definition putchar_lead :: "u8 \<Rightarrow> 'b flanterm_context \<Rightarrow> 'b flanterm_context" where
  "putchar_lead c ctx =
     (let ctx = ctx\<lparr>g_select := 0\<rparr> in
      if c \<ge> 0xc2 \<and> c \<le> 0xdf then
        ctx\<lparr>unicode_remaining := 1, code_point := push_bit 6 (unat (c AND 0x1f))\<rparr>
      else if c \<ge> 0xe0 \<and> c \<le> 0xef then
        ctx\<lparr>unicode_remaining := 2, code_point := push_bit (6 * 2) (unat (c AND 0x0f))\<rparr>
      else if c \<ge> 0xf0 \<and> c \<le> 0xf4 then
        ctx\<lparr>unicode_remaining := 3, code_point := push_bit (6 * 3) (unat (c AND 0x07))\<rparr>
      else ctx)"

definition putchar_graphic :: "'b flanterm_ops \<Rightarrow> u8 \<Rightarrow> 'b flanterm_context \<Rightarrow> 'b flanterm_context" where
  "putchar_graphic ops c ctx =
     (let ctx = insert_shift ops 1 ctx;
          (printed, ctx) =
            (if charsets ctx ! current_charset ctx = CHARSET_DEC_SPECIAL
             then dec_special_print ops c ctx else (False, ctx))
      in if printed then ctx
         else if c \<ge> 0x20 \<and> c \<le> 0x7e then print_glyph ops c ctx
         else if c \<ge> 0x80 then print_glyph ops 0xfe ctx
         else ctx)"

definition putchar_ground :: "'b flanterm_ops \<Rightarrow> u8 \<Rightarrow> 'b flanterm_context \<Rightarrow> 'b flanterm_context" where
  "putchar_ground ops c ctx =
     (let ctx = (if (c \<le> 0x1f \<and> c \<noteq> 0x1b) \<or> c = 0x7f then ctx\<lparr>last_was_graphic := False\<rparr> else ctx)
      in if c = 0 \<or> c = 0x7f then ctx
         else if c = 0x1b then ctx\<lparr>escape_offset := 0, escape := True\<rparr>
         else if c < 0x20 then snd (execute_c0 ops c ctx)
         else putchar_graphic ops c ctx)"

definition putchar_charset :: "u8 \<Rightarrow> 'b flanterm_context \<Rightarrow> 'b flanterm_context" where
  "putchar_charset c ctx =
     (let ctx = ctx\<lparr>g_select := g_select ctx - 1\<rparr>;
          ctx = (if c = byte CHR ''B'' then ctx\<lparr>charsets := (charsets ctx)[g_select ctx := CHARSET_DEFAULT]\<rparr>
                 else if c = byte CHR ''0'' then ctx\<lparr>charsets := (charsets ctx)[g_select ctx := CHARSET_DEC_SPECIAL]\<rparr>
                 else ctx)
      in ctx\<lparr>g_select := 0\<rparr>)"

definition putchar_byte :: "'b flanterm_ops \<Rightarrow> u8 \<Rightarrow> 'b flanterm_context \<Rightarrow> 'b flanterm_context" where
  "putchar_byte ops c ctx =
     (if c \<ge> 0xc2 \<and> c \<le> 0xf4 then putchar_lead c ctx
      else if escape ctx then escape_parse ops c ctx
      else if g_select ctx \<noteq> 0 then
        (if c \<le> 0x1f \<or> c = 0x7f then putchar_ground ops c (ctx\<lparr>g_select := 0\<rparr>)
         else putchar_charset c ctx)
      else putchar_ground ops c ctx)"

text \<open>A complete code point: printed through code page 437, or replaced at its width.\<close>

definition putchar_unicode :: "'b flanterm_ops \<Rightarrow> 'b flanterm_context \<Rightarrow> 'b flanterm_context" where
  "putchar_unicode ops ctx =
     (let cc = unicode_to_cp437 (code_point ctx) in
      if cc = -1 then
        (let replacement_width = mk_wcwidth (code_point ctx mod 2 ^ 32);
             ctx = (if replacement_width > 0
                    then print_glyph ops 0xfe (insert_shift ops (nat replacement_width) ctx)
                    else ctx)
         in for_up 1 (nat replacement_width) (\<lambda>_. raw_putchar ops (byte CHR '' '')) ctx)
      else print_glyph ops (of_int cc) (insert_shift ops 1 ctx))"

definition putchar_continue :: "'b flanterm_ops \<Rightarrow> u8 \<Rightarrow> 'b flanterm_context \<Rightarrow> 'b flanterm_context" where
  "putchar_continue ops c ctx =
     (if c AND 0xc0 \<noteq> 0x80 then
        (let ctx = ctx\<lparr>unicode_remaining := 0\<rparr>;
             ctx = raw_putchar ops 0xfe (insert_shift ops 1 ctx)
         in putchar_byte ops c ctx)
      else
        let ctx = ctx\<lparr>unicode_remaining := unicode_remaining ctx - 1\<rparr>;
            ctx = ctx\<lparr>code_point := code_point ctx OR
                        push_bit (6 * unicode_remaining ctx) (unat (c AND 0x3f))\<rparr>
        in if unicode_remaining ctx = 1 \<and> code_point ctx < 0x800 then
             putchar_byte ops c (ctx\<lparr>unicode_remaining := 0\<rparr>)
           else if unicode_remaining ctx = 2 \<and> code_point ctx < 0x10000 then
             putchar_byte ops c (ctx\<lparr>unicode_remaining := 0\<rparr>)
           else if unicode_remaining ctx = 2 \<and> code_point ctx > 0x10ffff then
             putchar_byte ops c (ctx\<lparr>unicode_remaining := 0\<rparr>)
           else if unicode_remaining ctx \<noteq> 0 then ctx
           else if code_point ctx \<ge> 0xd800 \<and> code_point ctx \<le> 0xdfff then putchar_byte ops c ctx
           else putchar_unicode ops ctx)"

definition flanterm_putchar :: "'b flanterm_ops \<Rightarrow> u8 \<Rightarrow> 'b flanterm_context \<Rightarrow> 'b flanterm_context" where
  "flanterm_putchar ops c ctx =
     (if discard_next ctx \<or> (c = 0x18 \<or> c = 0x1a) then
        ctx\<lparr>discard_next := False,
            escape := False,
            control_sequence := False,
            unicode_remaining := 0,
            osc := False,
            osc_escape := False,
            g_select := 0,
            last_was_graphic := False\<rparr>
      else if unicode_remaining ctx \<noteq> 0 then putchar_continue ops c ctx
      else putchar_byte ops c ctx)"

section \<open>The interface\<close>

definition flanterm_write :: "'b flanterm_ops \<Rightarrow> u8 list \<Rightarrow> 'b flanterm_context \<Rightarrow> 'b flanterm_context" where
  "flanterm_write ops buf ctx =
     (let ctx = fold (flanterm_putchar ops) buf ctx
      in if autoflush ctx then double_buffer_flush ops ctx else ctx)"

definition flanterm_flush :: "'b flanterm_ops \<Rightarrow> 'b flanterm_context \<Rightarrow> 'b flanterm_context" where
  "flanterm_flush ops ctx = double_buffer_flush ops ctx"

definition flanterm_full_refresh :: "'b flanterm_ops \<Rightarrow> 'b flanterm_context \<Rightarrow> 'b flanterm_context" where
  "flanterm_full_refresh ops ctx = ctx\<lparr>be := be_full_refresh ops ctx\<rparr>"

definition flanterm_get_dimensions :: "'b flanterm_context \<Rightarrow> nat \<times> nat" where
  "flanterm_get_dimensions ctx = (cols ctx, rows ctx)"

definition flanterm_set_autoflush :: "bool \<Rightarrow> 'b flanterm_context \<Rightarrow> 'b flanterm_context" where
  "flanterm_set_autoflush st ctx = ctx\<lparr>autoflush := st\<rparr>"

definition flanterm_set_callback :: "'b callback option \<Rightarrow> 'b flanterm_ops \<Rightarrow> 'b flanterm_ops" where
  "flanterm_set_callback cb ops = ops\<lparr>callback := cb\<rparr>"

end
