(* ===== verification/Flanterm_Safety.thy ===== *)
theory Flanterm_Safety
  imports Flanterm
begin

text \<open>
  The safety invariant of the terminal and the interface it expects of a display backend.

  \<open>term_inv\<close> holds what keeps every array access of \<^verbatim>\<open>flanterm.c\<close> in bounds: the parameter index
  of a CSI sequence, the OSC buffer index, the character set index and the palette index; and what
  keeps the scroll region inside the screen. The locale \<open>term_backend\<close> is the contract of a
  backend: its operations keep the backend's own invariant when they are called with arguments in
  range, and the cursor it reports is on the screen. Inside the locale every operation of the
  emulator is shown to keep \<open>wf\<close>, up to \<open>flanterm_write\<close> on an arbitrary byte string.
\<close>

definition colour_ok :: "nat \<Rightarrow> bool" where
  "colour_ok c \<longleftrightarrow> c < 8 \<or> c = COLOUR_NONE \<or> c = COLOUR_RGB"

definition margins_ok :: "nat \<Rightarrow> nat \<Rightarrow> nat \<Rightarrow> bool" where
  "margins_ok t b n \<longleftrightarrow> t < b \<and> b \<le> n"

definition term_inv :: "'b flanterm_context \<Rightarrow> bool" where
  "term_inv ctx \<longleftrightarrow>
     0 < rows ctx \<and> rows ctx \<le> 0x80000000 \<and> 0 < cols ctx \<and> cols ctx \<le> 0x80000000 \<and>
     tab_size ctx = 8 \<and>
     length (esc_values ctx) = FLANTERM_MAX_ESC_VALUES \<and>
     esc_values_i ctx \<le> FLANTERM_MAX_ESC_VALUES \<and>
     (rrr ctx \<longrightarrow> esc_values_i ctx < FLANTERM_MAX_ESC_VALUES) \<and>
     length (osc_buf ctx) = FLANTERM_OSC_BUF \<and> osc_buf_i ctx \<le> FLANTERM_OSC_BUF \<and>
     length (charsets ctx) = 2 \<and> current_charset ctx < 2 \<and>
     length (saved_state_charsets ctx) = 2 \<and> saved_state_current_charset ctx < 2 \<and>
     g_select ctx \<le> 2 \<and> unicode_remaining ctx \<le> 3 \<and>
     colour_ok (current_primary ctx) \<and> colour_ok (current_bg ctx) \<and>
     colour_ok (saved_state_current_primary ctx) \<and> colour_ok (saved_state_current_bg ctx) \<and>
     margins_ok (scroll_top_margin ctx) (scroll_bottom_margin ctx) (rows ctx) \<and>
     margins_ok (saved_state_scroll_top_margin ctx) (saved_state_scroll_bottom_margin ctx) (rows ctx)"

lemma colour_ok_simps [simp]:
  "colour_ok COLOUR_NONE" "colour_ok COLOUR_RGB" "n < 8 \<Longrightarrow> colour_ok n"
  by (simp_all add: colour_ok_def)

lemma colour_ok_index: "colour_ok c \<Longrightarrow> c \<noteq> COLOUR_NONE \<Longrightarrow> c \<noteq> COLOUR_RGB \<Longrightarrow> c < 8"
  by (auto simp: colour_ok_def)

text \<open>Fields the invariant does not speak of.\<close>

lemma term_inv_frame [simp]:
  "term_inv (ctx\<lparr>autoflush := a\<rparr>) = term_inv ctx"
  "term_inv (ctx\<lparr>cursor_enabled := a\<rparr>) = term_inv ctx"
  "term_inv (ctx\<lparr>scroll_enabled := a\<rparr>) = term_inv ctx"
  "term_inv (ctx\<lparr>wrap_enabled := a\<rparr>) = term_inv ctx"
  "term_inv (ctx\<lparr>origin_mode := a\<rparr>) = term_inv ctx"
  "term_inv (ctx\<lparr>control_sequence := a\<rparr>) = term_inv ctx"
  "term_inv (ctx\<lparr>escape := a\<rparr>) = term_inv ctx"
  "term_inv (ctx\<lparr>osc := a\<rparr>) = term_inv ctx"
  "term_inv (ctx\<lparr>osc_escape := a\<rparr>) = term_inv ctx"
  "term_inv (ctx\<lparr>discard_next := a\<rparr>) = term_inv ctx"
  "term_inv (ctx\<lparr>bold := a\<rparr>) = term_inv ctx"
  "term_inv (ctx\<lparr>bg_bold := a\<rparr>) = term_inv ctx"
  "term_inv (ctx\<lparr>reverse_video := a\<rparr>) = term_inv ctx"
  "term_inv (ctx\<lparr>dec_private := a\<rparr>) = term_inv ctx"
  "term_inv (ctx\<lparr>insert_mode := a\<rparr>) = term_inv ctx"
  "term_inv (ctx\<lparr>csi_unhandled := a\<rparr>) = term_inv ctx"
  "term_inv (ctx\<lparr>code_point := n\<rparr>) = term_inv ctx"
  "term_inv (ctx\<lparr>escape_offset := n\<rparr>) = term_inv ctx"
  "term_inv (ctx\<lparr>saved_cursor_x := n\<rparr>) = term_inv ctx"
  "term_inv (ctx\<lparr>saved_cursor_y := n\<rparr>) = term_inv ctx"
  "term_inv (ctx\<lparr>last_printed_char := c\<rparr>) = term_inv ctx"
  "term_inv (ctx\<lparr>last_was_graphic := a\<rparr>) = term_inv ctx"
  "term_inv (ctx\<lparr>be := b\<rparr>) = term_inv ctx"
  by (simp_all add: term_inv_def)

lemma term_inv_update:
  "term_inv ctx \<Longrightarrow> term_inv (ctx\<lparr>rrr := False\<rparr>)"
  "term_inv ctx \<Longrightarrow> term_inv (ctx\<lparr>osc_buf_i := 0\<rparr>)"
  "term_inv ctx \<Longrightarrow> n \<le> 3 \<Longrightarrow> term_inv (ctx\<lparr>unicode_remaining := n\<rparr>)"
  "term_inv ctx \<Longrightarrow> n \<le> 2 \<Longrightarrow> term_inv (ctx\<lparr>g_select := n\<rparr>)"
  "term_inv ctx \<Longrightarrow> n < 2 \<Longrightarrow> term_inv (ctx\<lparr>current_charset := n\<rparr>)"
  "term_inv ctx \<Longrightarrow> length cs = 2 \<Longrightarrow> term_inv (ctx\<lparr>charsets := cs\<rparr>)"
  "term_inv ctx \<Longrightarrow> colour_ok n \<Longrightarrow> term_inv (ctx\<lparr>current_primary := n\<rparr>)"
  "term_inv ctx \<Longrightarrow> colour_ok n \<Longrightarrow> term_inv (ctx\<lparr>current_bg := n\<rparr>)"
  "term_inv ctx \<Longrightarrow> term_inv (ctx\<lparr>esc_values := (esc_values ctx)[i := w]\<rparr>)"
  by (simp_all add: term_inv_def)

lemma term_inv_esc_values_i:
  "term_inv ctx \<Longrightarrow> n \<le> 16 \<Longrightarrow> term_inv (ctx\<lparr>esc_values_i := n, rrr := False\<rparr>)"
  by (simp add: term_inv_def FLANTERM_MAX_ESC_VALUES_def)

lemma term_inv_margins:
  "term_inv ctx \<Longrightarrow> margins_ok t b (rows ctx) \<Longrightarrow>
   term_inv (ctx\<lparr>scroll_top_margin := t, scroll_bottom_margin := b\<rparr>)"
  by (simp add: term_inv_def)

lemma margins_full [simp]: "term_inv ctx \<Longrightarrow> margins_ok 0 (rows ctx) (rows ctx)"
  by (simp add: term_inv_def margins_ok_def)

section \<open>The backend interface\<close>

locale term_backend =
  fixes ops :: "'b flanterm_ops"
    and be_ok :: "nat \<Rightarrow> nat \<Rightarrow> 'b \<Rightarrow> bool"
  assumes cursor_in_screen:
      "term_inv ctx \<Longrightarrow> be_ok (rows ctx) (cols ctx) (be ctx) \<Longrightarrow> be_get_cursor_pos ops ctx = (x, y)
       \<Longrightarrow> x < cols ctx \<and> y < rows ctx"
    and ok_raw_putchar:
      "term_inv ctx \<Longrightarrow> be_ok (rows ctx) (cols ctx) (be ctx) \<Longrightarrow>
       be_ok (rows ctx) (cols ctx) (be_raw_putchar ops ctx c)"
    and ok_clear:
      "term_inv ctx \<Longrightarrow> be_ok (rows ctx) (cols ctx) (be ctx) \<Longrightarrow>
       be_ok (rows ctx) (cols ctx) (be_clear ops ctx move)"
    and ok_set_cursor_pos:
      "term_inv ctx \<Longrightarrow> be_ok (rows ctx) (cols ctx) (be ctx) \<Longrightarrow>
       be_ok (rows ctx) (cols ctx) (be_set_cursor_pos ops ctx x y)"
    and ok_set_text:
      "term_inv ctx \<Longrightarrow> be_ok (rows ctx) (cols ctx) (be ctx) \<Longrightarrow> n < 8 \<Longrightarrow>
       be_ok (rows ctx) (cols ctx) (be_set_text_fg ops ctx n) \<and>
       be_ok (rows ctx) (cols ctx) (be_set_text_bg ops ctx n) \<and>
       be_ok (rows ctx) (cols ctx) (be_set_text_fg_bright ops ctx n) \<and>
       be_ok (rows ctx) (cols ctx) (be_set_text_bg_bright ops ctx n)"
    and ok_set_rgb:
      "term_inv ctx \<Longrightarrow> be_ok (rows ctx) (cols ctx) (be ctx) \<Longrightarrow>
       be_ok (rows ctx) (cols ctx) (be_set_text_fg_rgb ops ctx rgb) \<and>
       be_ok (rows ctx) (cols ctx) (be_set_text_bg_rgb ops ctx rgb)"
    and ok_set_default:
      "term_inv ctx \<Longrightarrow> be_ok (rows ctx) (cols ctx) (be ctx) \<Longrightarrow>
       be_ok (rows ctx) (cols ctx) (be_set_text_fg_default ops ctx) \<and>
       be_ok (rows ctx) (cols ctx) (be_set_text_bg_default ops ctx) \<and>
       be_ok (rows ctx) (cols ctx) (be_set_text_fg_default_bright ops ctx) \<and>
       be_ok (rows ctx) (cols ctx) (be_set_text_bg_default_bright ops ctx)"
    and ok_move_character:
      "term_inv ctx \<Longrightarrow> be_ok (rows ctx) (cols ctx) (be ctx) \<Longrightarrow>
       be_ok (rows ctx) (cols ctx) (be_move_character ops ctx nx ny ox oy)"
    and ok_scroll:
      "term_inv ctx \<Longrightarrow> be_ok (rows ctx) (cols ctx) (be ctx) \<Longrightarrow>
       be_ok (rows ctx) (cols ctx) (be_scroll ops ctx) \<and>
       be_ok (rows ctx) (cols ctx) (be_revscroll ops ctx)"
    and ok_palette:
      "term_inv ctx \<Longrightarrow> be_ok (rows ctx) (cols ctx) (be ctx) \<Longrightarrow>
       be_ok (rows ctx) (cols ctx) (be_swap_palette ops ctx)"
    and ok_state:
      "term_inv ctx \<Longrightarrow> be_ok (rows ctx) (cols ctx) (be ctx) \<Longrightarrow>
       be_ok (rows ctx) (cols ctx) (be_save_state ops ctx) \<and>
       be_ok (rows ctx) (cols ctx) (be_restore_state ops ctx)"
    and ok_flush:
      "term_inv ctx \<Longrightarrow> be_ok (rows ctx) (cols ctx) (be ctx) \<Longrightarrow>
       be_ok (rows ctx) (cols ctx) (be_double_buffer_flush ops ctx)"
    and ok_callback:
      "callback ops = Some cb \<Longrightarrow> term_inv ctx \<Longrightarrow> be_ok (rows ctx) (cols ctx) (be ctx) \<Longrightarrow>
       term_inv (cb ctx t a1 a2 a3) \<and>
       be_ok (rows (cb ctx t a1 a2 a3)) (cols (cb ctx t a1 a2 a3)) (be (cb ctx t a1 a2 a3))"
begin

definition wf :: "'b flanterm_context \<Rightarrow> bool" where
  "wf ctx \<longleftrightarrow> term_inv ctx \<and> be_ok (rows ctx) (cols ctx) (be ctx)"

lemma wf_upd: "wf ctx \<Longrightarrow> term_inv ctx' \<Longrightarrow> rows ctx' = rows ctx \<Longrightarrow> cols ctx' = cols ctx \<Longrightarrow>
    be ctx' = be ctx \<Longrightarrow> wf ctx'"
  by (simp add: wf_def)

lemma wf_term_inv: "wf ctx \<Longrightarrow> term_inv ctx"
  by (simp add: wf_def)

lemma wf_cursor: "wf ctx \<Longrightarrow> be_get_cursor_pos ops ctx = (x, y) \<Longrightarrow> x < cols ctx \<and> y < rows ctx"
  unfolding wf_def using cursor_in_screen by blast

lemma wf_raw_putchar [simp]: "wf ctx \<Longrightarrow> wf (raw_putchar ops c ctx)"
  by (simp add: wf_def raw_putchar_def ok_raw_putchar)

lemma wf_clear [simp]: "wf ctx \<Longrightarrow> wf (clear ops m ctx)"
  by (simp add: wf_def clear_def ok_clear)

lemma wf_set_cursor_pos [simp]: "wf ctx \<Longrightarrow> wf (set_cursor_pos ops x y ctx)"
  by (simp add: wf_def set_cursor_pos_def ok_set_cursor_pos)

lemma wf_set_text [simp]:
  "wf ctx \<Longrightarrow> n < 8 \<Longrightarrow> wf (set_text_fg ops n ctx)"
  "wf ctx \<Longrightarrow> n < 8 \<Longrightarrow> wf (set_text_bg ops n ctx)"
  "wf ctx \<Longrightarrow> n < 8 \<Longrightarrow> wf (set_text_fg_bright ops n ctx)"
  "wf ctx \<Longrightarrow> n < 8 \<Longrightarrow> wf (set_text_bg_bright ops n ctx)"
  by (simp_all add: wf_def set_text_fg_def set_text_bg_def set_text_fg_bright_def
      set_text_bg_bright_def ok_set_text)

lemma wf_set_rgb [simp]:
  "wf ctx \<Longrightarrow> wf (set_text_fg_rgb ops rgb ctx)"
  "wf ctx \<Longrightarrow> wf (set_text_bg_rgb ops rgb ctx)"
  by (simp_all add: wf_def set_text_fg_rgb_def set_text_bg_rgb_def ok_set_rgb)

lemma wf_set_default [simp]:
  "wf ctx \<Longrightarrow> wf (set_text_fg_default ops ctx)"
  "wf ctx \<Longrightarrow> wf (set_text_bg_default ops ctx)"
  "wf ctx \<Longrightarrow> wf (set_text_fg_default_bright ops ctx)"
  "wf ctx \<Longrightarrow> wf (set_text_bg_default_bright ops ctx)"
  by (simp_all add: wf_def set_text_fg_default_def set_text_bg_default_def
      set_text_fg_default_bright_def set_text_bg_default_bright_def ok_set_default)

lemma wf_move_character [simp]: "wf ctx \<Longrightarrow> wf (move_character ops nx ny ox oy ctx)"
  by (simp add: wf_def move_character_def ok_move_character)

lemma wf_scroll [simp]:
  "wf ctx \<Longrightarrow> wf (scroll ops ctx)"
  "wf ctx \<Longrightarrow> wf (revscroll ops ctx)"
  by (simp_all add: wf_def scroll_def revscroll_def ok_scroll)

lemma wf_swap_palette [simp]: "wf ctx \<Longrightarrow> wf (swap_palette ops ctx)"
  by (simp add: wf_def swap_palette_def ok_palette)

lemma wf_flush [simp]: "wf ctx \<Longrightarrow> wf (double_buffer_flush ops ctx)"
  by (simp add: wf_def double_buffer_flush_def ok_flush)

lemma wf_callback [simp]: "wf ctx \<Longrightarrow> wf (call_callback ops t a b c ctx)"
  using ok_callback by (auto simp: wf_def call_callback_def split: option.split)

text \<open>Field updates the invariant allows, as introduction rules.\<close>

lemma wf_frame [simp]:
  "wf (ctx\<lparr>autoflush := a\<rparr>) = wf ctx"
  "wf (ctx\<lparr>cursor_enabled := a\<rparr>) = wf ctx"
  "wf (ctx\<lparr>scroll_enabled := a\<rparr>) = wf ctx"
  "wf (ctx\<lparr>wrap_enabled := a\<rparr>) = wf ctx"
  "wf (ctx\<lparr>origin_mode := a\<rparr>) = wf ctx"
  "wf (ctx\<lparr>control_sequence := a\<rparr>) = wf ctx"
  "wf (ctx\<lparr>escape := a\<rparr>) = wf ctx"
  "wf (ctx\<lparr>osc := a\<rparr>) = wf ctx"
  "wf (ctx\<lparr>osc_escape := a\<rparr>) = wf ctx"
  "wf (ctx\<lparr>discard_next := a\<rparr>) = wf ctx"
  "wf (ctx\<lparr>bold := a\<rparr>) = wf ctx"
  "wf (ctx\<lparr>bg_bold := a\<rparr>) = wf ctx"
  "wf (ctx\<lparr>reverse_video := a\<rparr>) = wf ctx"
  "wf (ctx\<lparr>dec_private := a\<rparr>) = wf ctx"
  "wf (ctx\<lparr>insert_mode := a\<rparr>) = wf ctx"
  "wf (ctx\<lparr>csi_unhandled := a\<rparr>) = wf ctx"
  "wf (ctx\<lparr>code_point := n\<rparr>) = wf ctx"
  "wf (ctx\<lparr>escape_offset := n\<rparr>) = wf ctx"
  "wf (ctx\<lparr>saved_cursor_x := n\<rparr>) = wf ctx"
  "wf (ctx\<lparr>saved_cursor_y := n\<rparr>) = wf ctx"
  "wf (ctx\<lparr>last_printed_char := c\<rparr>) = wf ctx"
  "wf (ctx\<lparr>last_was_graphic := a\<rparr>) = wf ctx"
  by (simp_all add: wf_def)

lemma wf_update [simp]:
  "wf ctx \<Longrightarrow> wf (ctx\<lparr>rrr := False\<rparr>)"
  "wf ctx \<Longrightarrow> wf (ctx\<lparr>osc_buf_i := 0\<rparr>)"
  "wf ctx \<Longrightarrow> n \<le> 3 \<Longrightarrow> wf (ctx\<lparr>unicode_remaining := n\<rparr>)"
  "wf ctx \<Longrightarrow> n \<le> 2 \<Longrightarrow> wf (ctx\<lparr>g_select := n\<rparr>)"
  "wf ctx \<Longrightarrow> n < 2 \<Longrightarrow> wf (ctx\<lparr>current_charset := n\<rparr>)"
  "wf ctx \<Longrightarrow> length cs = 2 \<Longrightarrow> wf (ctx\<lparr>charsets := cs\<rparr>)"
  "wf ctx \<Longrightarrow> colour_ok k \<Longrightarrow> wf (ctx\<lparr>current_primary := k\<rparr>)"
  "wf ctx \<Longrightarrow> colour_ok k \<Longrightarrow> wf (ctx\<lparr>current_bg := k\<rparr>)"
  by (simp_all add: wf_def term_inv_update)

lemma wf_lengths:
  "wf ctx \<Longrightarrow> length (charsets ctx) = 2"
  "wf ctx \<Longrightarrow> length (esc_values ctx) = FLANTERM_MAX_ESC_VALUES"
  by (simp_all add: wf_def term_inv_def)

lemma wf_if [simp]: "wf (if b then c1 else c2) = (if b then wf c1 else wf c2)"
  by simp

lemma wf_for_up [simp]: "wf ctx \<Longrightarrow> (\<And>i c. wf c \<Longrightarrow> wf (f i c)) \<Longrightarrow> wf (for_up a b f ctx)"
  by (rule for_up_inv)

lemma wf_for_down [simp]: "wf ctx \<Longrightarrow> (\<And>i c. wf c \<Longrightarrow> wf (f i c)) \<Longrightarrow> wf (for_down a b f ctx)"
  by (rule for_down_inv)

lemma wf_set_esc [simp]: "wf ctx \<Longrightarrow> wf (set_esc i v ctx)"
  by (simp add: wf_def set_esc_def term_inv_update)

subsection \<open>Select graphic rendition\<close>

lemma wf_colours:
  "wf ctx \<Longrightarrow> current_primary ctx \<noteq> COLOUR_NONE \<Longrightarrow> current_primary ctx \<noteq> COLOUR_RGB \<Longrightarrow> current_primary ctx < 8"
  "wf ctx \<Longrightarrow> current_bg ctx \<noteq> COLOUR_NONE \<Longrightarrow> current_bg ctx \<noteq> COLOUR_RGB \<Longrightarrow> current_bg ctx < 8"
  using colour_ok_index unfolding wf_def term_inv_def by blast+

lemma wf_sgr_default [simp]: "wf ctx \<Longrightarrow> wf (sgr_default ops ctx)"
  by (simp add: sgr_default_def Let_def)

lemma wf_sgr_bold [simp]:
  "wf ctx \<Longrightarrow> wf (sgr_bold_on ops ctx)"
  "wf ctx \<Longrightarrow> wf (sgr_bg_bold_on ops ctx)"
  "wf ctx \<Longrightarrow> wf (sgr_bold_off ops ctx)"
  "wf ctx \<Longrightarrow> wf (sgr_bg_bold_off ops ctx)"
  by (simp_all add: sgr_bold_on_def sgr_bg_bold_on_def sgr_bold_off_def sgr_bg_bold_off_def Let_def
      wf_colours)

lemma wf_sgr_colour [simp]:
  "wf ctx \<Longrightarrow> n < 8 \<Longrightarrow> wf (sgr_primary ops n ctx)"
  "wf ctx \<Longrightarrow> n < 8 \<Longrightarrow> wf (sgr_background ops n ctx)"
  "wf ctx \<Longrightarrow> n < 8 \<Longrightarrow> wf (sgr_primary_bright ops n ctx)"
  "wf ctx \<Longrightarrow> n < 8 \<Longrightarrow> wf (sgr_background_bright ops n ctx)"
  by (simp_all add: sgr_primary_def sgr_background_def sgr_primary_bright_def sgr_background_bright_def
      sgr_set_fg_def sgr_set_bg_def Let_def)

lemma wf_sgr_defaults [simp]:
  "wf ctx \<Longrightarrow> wf (sgr_fg_default ops ctx)"
  "wf ctx \<Longrightarrow> wf (sgr_bg_default ops ctx)"
  "wf ctx \<Longrightarrow> wf (sgr_reverse ops on ctx)"
  by (simp_all add: sgr_fg_default_def sgr_bg_default_def sgr_reverse_def Let_def)

lemma wf_sgr_mark [simp]: "wf ctx \<Longrightarrow> wf (sgr_mark fg ctx)"
  by (simp add: sgr_mark_def)

lemma wf_sgr_col256 [simp]: "wf ctx \<Longrightarrow> wf (sgr_col256 ops fg rfg col ctx)"
  by (simp add: sgr_col256_def)

lemma wf_sgr_extended: "wf ctx \<Longrightarrow> wf (snd (sgr_extended ops fg i n ctx))"
  by (simp add: sgr_extended_def Let_def)

lemma wf_sgr_step: "wf ctx \<Longrightarrow> wf (snd (sgr_step ops i n ctx))"
  by (auto simp: sgr_step_def Let_def wf_sgr_extended)

lemma wf_sgr_loop: "wf ctx \<Longrightarrow> wf (sgr_loop ops i n ctx)"
proof (induction "n - i" arbitrary: i ctx rule: less_induct)
  case less
  have step: "wf (snd (sgr_step ops i n ctx))" using less.prems by (rule wf_sgr_step)
  show ?case
  proof (cases "i < n")
    case True
    obtain k ctx' where st: "sgr_step ops i n ctx = (k, ctx')" by fastforce
    show ?thesis
    proof (cases k)
      case None
      with True st step show ?thesis by (simp add: sgr_loop.simps [of ops i])
    next
      case (Some m)
      have "wf (sgr_loop ops (i + m + 1) n ctx')"
        by (rule less.hyps) (use True st step in auto)
      with True st Some show ?thesis by (simp add: sgr_loop.simps [of ops i])
    qed
  next
    case False
    with less.prems show ?thesis by (simp add: sgr_loop.simps [of ops i])
  qed
qed

lemma wf_sgr [simp]: "wf ctx \<Longrightarrow> wf (sgr ops ctx)"
  by (simp add: sgr_def wf_sgr_loop)

subsection \<open>State, modes, operating system commands, control characters\<close>

lemma wf_save_state [simp]: "wf ctx \<Longrightarrow> wf (save_state ops ctx)"
  by (simp add: wf_def save_state_def Let_def ok_state) (simp add: term_inv_def)

lemma wf_restore_state [simp]: "wf ctx \<Longrightarrow> wf (restore_state ops ctx)"
proof -
  assume wf: "wf ctx"
  define ctx1 where "ctx1 = ctx\<lparr>
        bold := saved_state_bold ctx,
        bg_bold := saved_state_bg_bold ctx,
        reverse_video := saved_state_reverse_video ctx,
        origin_mode := saved_state_origin_mode ctx,
        wrap_enabled := saved_state_wrap_enabled ctx,
        current_charset := saved_state_current_charset ctx,
        charsets := (charsets ctx)[0 := saved_state_charsets ctx ! 0, 1 := saved_state_charsets ctx ! 1],
        current_primary := saved_state_current_primary ctx,
        current_bg := saved_state_current_bg ctx,
        scroll_top_margin := saved_state_scroll_top_margin ctx,
        scroll_bottom_margin := saved_state_scroll_bottom_margin ctx\<rparr>"
  have "term_inv ctx1" using wf by (simp add: wf_def ctx1_def term_inv_def)
  then have "wf ctx1" using wf by (simp add: wf_def ctx1_def)
  then have "wf (ctx1\<lparr>be := be_restore_state ops ctx1\<rparr>)" by (simp add: wf_def ok_state)
  then show ?thesis by (simp add: restore_state_def ctx1_def Let_def)
qed

lemma wf_margins_full: "wf ctx \<Longrightarrow> wf (ctx\<lparr>scroll_top_margin := 0, scroll_bottom_margin := rows ctx\<rparr>)"
  by (simp add: wf_def term_inv_margins)

lemma rows_save_state [simp]: "rows (save_state ops ctx) = rows ctx"
  by (simp add: save_state_def Let_def)

lemma wf_dec_private_mode [simp]: "wf ctx \<Longrightarrow> wf (dec_private_mode ops st v ctx)"
  using wf_margins_full [of "save_state ops ctx"]
  by (simp add: dec_private_mode_def Let_def)

lemma wf_dec_private_parse [simp]: "wf ctx \<Longrightarrow> wf (dec_private_parse ops c ctx)"
  by (simp add: dec_private_parse_def Let_def)

lemma wf_linux_private_parse [simp]: "wf ctx \<Longrightarrow> wf (linux_private_parse ops ctx)"
  by (auto simp: linux_private_parse_def)

lemma wf_mode_toggle [simp]: "wf ctx \<Longrightarrow> wf (mode_toggle ops c ctx)"
  by (auto simp: mode_toggle_def)

lemma wf_osc_finalize [simp]: "wf ctx \<Longrightarrow> wf (osc_finalize ops ctx)"
  by (auto simp: osc_finalize_def Let_def split: prod.split)

lemma wf_osc_buf: "wf ctx \<Longrightarrow> osc_buf_i ctx < FLANTERM_OSC_BUF \<Longrightarrow>
    wf (ctx\<lparr>osc_buf := (osc_buf ctx)[osc_buf_i ctx := c], osc_buf_i := Suc (osc_buf_i ctx)\<rparr>)"
  by (simp add: wf_def term_inv_def)

lemma wf_osc_parse: "wf ctx \<Longrightarrow> wf (snd (osc_parse ops c ctx))"
  using wf_osc_buf by (auto simp: osc_parse_def)

lemma wf_execute_c0: "wf ctx \<Longrightarrow> wf (snd (execute_c0 ops c ctx))"
  by (auto simp: execute_c0_def Let_def split: prod.split)

subsection \<open>Control sequences\<close>

lemma wf_csi_digit [simp]: "wf ctx \<Longrightarrow> wf (csi_digit c ctx)"
proof -
  assume wf: "wf ctx"
  show ?thesis
  proof (cases "esc_values_i ctx = FLANTERM_MAX_ESC_VALUES")
    case True
    with wf show ?thesis by (simp add: csi_digit_def)
  next
    case False
    with wf have "wf (ctx\<lparr>rrr := True\<rparr>)" by (simp add: wf_def term_inv_def)
    with False show ?thesis by (auto simp: csi_digit_def Let_def)
  qed
qed

lemma wf_csi_defaults [simp]: "wf ctx \<Longrightarrow> wf (csi_defaults c ctx)"
  by (simp add: csi_defaults_def Let_def)

lemma wf_blanks [simp]: "wf ctx \<Longrightarrow> wf (blanks ops n ctx)"
  by (simp add: blanks_def)

lemma wf_osc_parse_pair: "osc_parse ops c ctx = (ok, ctx') \<Longrightarrow> wf ctx \<Longrightarrow> wf ctx'"
  using wf_osc_parse [of ctx c] by simp

lemma wf_esc_pred [simp]: "wf ctx \<Longrightarrow> wf (esc_pred i ctx)"
  by (auto simp: esc_pred_def)

lemma wf_csi_moves [simp]:
  "wf ctx \<Longrightarrow> wf (csi_cursor_up ops x y ctx)"
  "wf ctx \<Longrightarrow> wf (csi_cursor_down ops x y ctx)"
  "wf ctx \<Longrightarrow> wf (csi_cursor_right ops x y ctx)"
  "wf ctx \<Longrightarrow> wf (csi_cursor_left ops x y ctx)"
  "wf ctx \<Longrightarrow> wf (csi_row ops x y ctx)"
  "wf ctx \<Longrightarrow> wf (csi_column ops x y ctx)"
  "wf ctx \<Longrightarrow> wf (csi_position ops ctx)"
  by (simp_all add: csi_cursor_up_def csi_cursor_down_def csi_cursor_right_def csi_cursor_left_def
    csi_row_def csi_column_def csi_position_def Let_def)

lemma frame_scroll [simp]:
  "scroll_bottom_margin (scroll ops ctx) = scroll_bottom_margin ctx"
  "scroll_top_margin (scroll ops ctx) = scroll_top_margin ctx"
  "rows (scroll ops ctx) = rows ctx"
  "scroll_bottom_margin (revscroll ops ctx) = scroll_bottom_margin ctx"
  "scroll_top_margin (revscroll ops ctx) = scroll_top_margin ctx"
  "rows (revscroll ops ctx) = rows ctx"
  by (simp_all add: scroll_def revscroll_def)

text \<open>Scrolling a region that starts at another line, and the old top margin put back.\<close>

lemma wf_lines:
  assumes "wf ctx" and "scroll_top_margin ctx \<le> y" and "y < scroll_bottom_margin ctx"
    and "\<And>i c. wf c \<Longrightarrow> wf (f i c)"
    and "\<And>i c. scroll_bottom_margin (f i c) = scroll_bottom_margin c"
    and "\<And>i c. rows (f i c) = rows c"
  shows "wf ((for_up 0 n f (ctx\<lparr>scroll_top_margin := y\<rparr>))\<lparr>scroll_top_margin := scroll_top_margin ctx\<rparr>)"
proof -
  let ?c = "for_up 0 n f (ctx\<lparr>scroll_top_margin := y\<rparr>)"
  have start: "wf (ctx\<lparr>scroll_top_margin := y\<rparr>)"
    using assms(1-3) by (auto simp: wf_def term_inv_def margins_ok_def)
  have "wf ?c" by (rule for_up_inv) (use start assms(4) in auto)
  moreover have "scroll_bottom_margin ?c = scroll_bottom_margin ctx"
    by (subst for_up_measure [of scroll_bottom_margin]) (simp_all add: assms(5))
  moreover have "rows ?c = rows ctx"
    by (subst for_up_measure [of rows]) (simp_all add: assms(6))
  ultimately show ?thesis
    using assms(1) by (auto simp: wf_def term_inv_def margins_ok_def)
qed

lemma wf_csi_lines [simp]:
  "wf ctx \<Longrightarrow> wf (csi_delete_lines ops y ctx)"
  "wf ctx \<Longrightarrow> wf (csi_insert_lines ops y ctx)"
  unfolding csi_delete_lines_def csi_insert_lines_def Let_def
  by (auto intro!: wf_lines)

lemma wf_csi_report [simp]: "wf ctx \<Longrightarrow> wf (csi_report ops x y ctx)"
  by (auto simp: csi_report_def Let_def)

lemma wf_csi_erase_display [simp]: "wf ctx \<Longrightarrow> wf (csi_erase_display ops x y ctx)"
  by (simp add: csi_erase_display_def Let_def)

lemma wf_csi_chars [simp]:
  "wf ctx \<Longrightarrow> wf (csi_insert_chars ops x y ctx)"
  "wf ctx \<Longrightarrow> wf (csi_erase_chars ops x y ctx)"
  by (simp_all add: csi_insert_chars_def csi_erase_chars_def Let_def split: prod.split)

lemma wf_csi_delete_chars [simp]: "wf ctx \<Longrightarrow> wf (csi_delete_chars ops x y ctx)"
  by (simp add: csi_delete_chars_def Let_def)

lemma wf_csi_erase_line [simp]: "wf ctx \<Longrightarrow> wf (csi_erase_line ops x y ctx)"
  by (simp add: csi_erase_line_def Let_def)

lemma wf_csi_scrolls [simp]:
  "wf ctx \<Longrightarrow> wf (csi_scroll ops ctx)"
  "wf ctx \<Longrightarrow> wf (csi_revscroll ops ctx)"
  by (simp_all add: csi_scroll_def csi_revscroll_def Let_def)

lemma wf_csi_repeat [simp]: "wf ctx \<Longrightarrow> wf (csi_repeat ops r w ctx)"
  by (simp add: csi_repeat_def Let_def split: prod.split)

text \<open>
  The margins: whatever the parameters, the accepted region lies inside the screen and has at
  least two lines; anything else resets it to the full screen. The second parameter is not zero
  here, since \<open>csi_defaults\<close> has replaced zeros by ones.
\<close>

lemma margins_accepted:
  assumes "0 < b" and "\<not> (t \<ge> n \<or> b > n \<or> t \<ge> sub64 b 1)" and "n \<le> SIZE_MAX"
  shows "margins_ok t b n"
proof -
  have "sub64 b 1 = b - 1" using assms by (intro sub64_le) auto
  with assms show ?thesis by (auto simp: margins_ok_def)
qed

lemma wf_csi_set_margins:
  assumes wf: "wf ctx" and nz: "esc 1 ctx \<noteq> 0"
  shows "wf (csi_set_margins ops ctx)"
proof -
  define t where "t = (if esc_values_i ctx > 0 then unat (esc_values ctx ! 0 - 1) else 0)"
  define b where "b = (if esc_values_i ctx > 1 then esc 1 ctx else rows ctx)"
  define bad where "bad \<longleftrightarrow> t \<ge> rows ctx \<or> b > rows ctx \<or> t \<ge> sub64 b 1"
  let ?ctx = "ctx\<lparr>scroll_top_margin := (if bad then 0 else t),
                  scroll_bottom_margin := (if bad then rows ctx else b)\<rparr>"
  have inv: "term_inv ctx" using wf by (rule wf_term_inv)
  then have "0 < b" and "rows ctx \<le> SIZE_MAX"
    using nz by (auto simp: b_def term_inv_def SIZE_MAX_def)
  then have "margins_ok (if bad then 0 else t) (if bad then rows ctx else b) (rows ctx)"
    using margins_full [OF inv]
    by (cases bad) (simp_all add: margins_accepted bad_def del: One_nat_def)
  with inv have "term_inv ?ctx" by (rule term_inv_margins)
  then have "wf ?ctx" by (rule wf_upd [OF wf]) simp_all
  then have "wf (set_cursor_pos ops 0 (if origin_mode ?ctx then scroll_top_margin ?ctx else 0) ?ctx)"
    by (rule wf_set_cursor_pos)
  then show ?thesis
    unfolding csi_set_margins_def Let_def t_def b_def bad_def .
qed

lemma esc_set_esc:
  "i < length (esc_values ctx) \<Longrightarrow> esc j (set_esc i v ctx) = (if i = j then unat (of_nat v :: u32) else esc j ctx)"
  by (simp add: esc_def set_esc_def nth_list_update)

lemma set_esc_frame [simp]:
  "length (esc_values (set_esc i v ctx)) = length (esc_values ctx)"
  "esc_values_i (set_esc i v ctx) = esc_values_i ctx"
  by (simp_all add: set_esc_def)

text \<open>After \<open>csi_defaults\<close> no parameter of a sequence whose default is one is zero.\<close>

lemma csi_defaults_nonzero:
  assumes len: "length (esc_values ctx) = 16" and ei: "esc_values_i ctx \<le> 16" and j: "j < 16"
    and c: "c \<notin> {byte CHR ''J'', byte CHR ''K'', byte CHR ''q'', byte CHR ''m'',
                  byte CHR ''c'', byte CHR '']''}"
  shows "esc j (csi_defaults c ctx) \<noteq> 0"
proof -
  let ?n = "esc_values_i ctx"
  let ?f = "\<lambda>i. set_esc i 1"
  let ?g = "\<lambda>i ctx. if esc i ctx = 0 then set_esc i 1 ctx else ctx"
  define c1 where "c1 = for_up ?n 16 ?f ctx"
  have f: "length (esc_values (for_up ?n k ?f ctx)) = 16 \<and> esc_values_i (for_up ?n k ?f ctx) = ?n \<and>
      (\<forall>i. ?n \<le> i \<longrightarrow> i < k \<longrightarrow> i < 16 \<longrightarrow> esc i (for_up ?n k ?f ctx) \<noteq> 0)" if "?n \<le> k" "k \<le> 16" for k
    using that
  proof (induction k rule: dec_induct)
    case base
    then show ?case by (simp add: len)
  next
    case (step k)
    then show ?case by (auto simp: for_up_last esc_set_esc less_Suc_eq)
  qed
  have c1: "length (esc_values c1) = 16" "esc_values_i c1 = ?n"
    "\<And>i. ?n \<le> i \<Longrightarrow> i < 16 \<Longrightarrow> esc i c1 \<noteq> 0"
    using f [of 16] ei by (auto simp: c1_def)
  have g: "length (esc_values (for_up 0 k ?g c1)) = 16 \<and>
      (\<forall>i < 16. i < k \<or> ?n \<le> i \<longrightarrow> esc i (for_up 0 k ?g c1) \<noteq> 0)" if "k \<le> ?n" for k
    using that
  proof (induction k)
    case 0
    then show ?case by (simp add: c1)
  next
    case (Suc k)
    then show ?case using ei by (auto simp: for_up_last esc_set_esc less_Suc_eq)
  qed
  have "csi_defaults c ctx = for_up 0 ?n ?g c1"
    using c c1(2) by (simp add: csi_defaults_def Let_def c1_def FLANTERM_MAX_ESC_VALUES_def del: One_nat_def cong: if_cong)
  with g [of ?n] j show ?thesis by auto
qed

lemma csi_defaults_margins: "wf ctx \<Longrightarrow> esc 1 (csi_defaults (byte CHR ''r'') ctx) \<noteq> 0"
  by (rule csi_defaults_nonzero)
    (simp_all add: wf_def term_inv_def FLANTERM_MAX_ESC_VALUES_def)

lemma wf_csi_action:
  assumes "csi_action ops c r w x y ctx = Some ctx'" and "wf ctx"
    and "c = byte CHR ''r'' \<Longrightarrow> esc 1 ctx \<noteq> 0"
  shows "wf ctx'"
  using assms unfolding csi_action_def
  by (auto split: if_splits prod.splits simp: wf_csi_set_margins simp del: One_nat_def)

lemma wf_csi_cleanup [simp]: "wf (csi_cleanup ctx) = wf ctx"
  by (simp add: csi_cleanup_def)

lemma wf_csi_execute:
  assumes "wf ctx" and "c = byte CHR ''r'' \<Longrightarrow> esc 1 ctx \<noteq> 0"
  shows "wf (csi_execute ops c ctx)"
proof -
  let ?ctx = "ctx\<lparr>scroll_enabled := False, wrap_enabled := True\<rparr>"
  have "esc 1 ?ctx = esc 1 ctx" by (simp add: esc_def)
  with assms have "wf ctx'" if "csi_action ops c r w x y ?ctx = Some ctx'" for r w x y ctx'
    using that by (intro wf_csi_action [OF that]) simp_all
  with assms(1) show ?thesis
    by (auto simp: csi_execute_def Let_def split: prod.split option.split)
qed

lemma wf_csi_dispatch [simp]: "wf ctx \<Longrightarrow> wf (csi_dispatch ops c ctx)"
  using wf_csi_execute [of "csi_defaults c ctx" c] csi_defaults_margins [of ctx]
  by (auto simp: csi_dispatch_def Let_def)

lemma wf_control_sequence_parse [simp]: "wf ctx \<Longrightarrow> wf (control_sequence_parse ops c ctx)"
proof -
  assume wf: "wf ctx"
  have next_param: "wf (ctx\<lparr>esc_values_i := Suc (esc_values_i ctx), rrr := False\<rparr>)" if "rrr ctx"
    using that wf term_inv_esc_values_i [of ctx "Suc (esc_values_i ctx)"]
    by (auto simp: wf_def term_inv_def FLANTERM_MAX_ESC_VALUES_def)
  have empty_param: "wf ((set_esc (esc_values_i ctx) 0 ctx)\<lparr>esc_values_i := Suc (esc_values_i ctx)\<rparr>)"
    if "\<not> rrr ctx" "esc_values_i ctx \<noteq> FLANTERM_MAX_ESC_VALUES"
    using that wf by (auto simp: wf_def set_esc_def term_inv_def)
  show ?thesis
    using wf next_param empty_param wf_execute_c0 [OF wf, of c]
    by (auto simp: control_sequence_parse_def Let_def)
qed

subsection \<open>Escape sequences and bytes\<close>

lemma wf_esc_moves [simp]:
  "wf ctx \<Longrightarrow> wf (esc_index ops x y ctx)"
  "wf ctx \<Longrightarrow> wf (esc_next_line ops y ctx)"
  "wf ctx \<Longrightarrow> wf (esc_reverse_index ops x y ctx)"
  by (simp_all add: esc_index_def esc_next_line_def esc_reverse_index_def)

lemma wf_reinit [simp]: "wf ctx \<Longrightarrow> wf (flanterm_context_reinit ctx)"
  by (simp add: wf_def flanterm_context_reinit_def) (simp add: term_inv_def margins_ok_def)

lemma wf_esc_reset [simp]: "wf ctx \<Longrightarrow> wf (esc_reset ops ctx)"
  by (simp add: esc_reset_def Let_def)

lemma wf_csi_start: "wf ctx \<Longrightarrow> wf (ctx\<lparr>esc_values_i := 0, rrr := False\<rparr>)"
  by (simp add: wf_def) (simp add: term_inv_def)

lemma wf_escape_switch [simp]: "wf ctx \<Longrightarrow> wf (escape_switch ops c ctx)"
  by (auto simp: escape_switch_def Let_def wf_csi_start split: prod.split)

lemma wf_escape_parse [simp]: "wf ctx \<Longrightarrow> wf (escape_parse ops c ctx)"
  using wf_osc_parse_pair [where ctx = "ctx\<lparr>escape_offset := add64 (escape_offset ctx) 1\<rparr>"]
  by (auto simp: escape_parse_def Let_def split: prod.splits if_splits)

lemma wf_print_glyph [simp]: "wf ctx \<Longrightarrow> wf (print_glyph ops g ctx)"
  by (simp add: print_glyph_def)

lemma wf_dec_special_print: "wf ctx \<Longrightarrow> wf (snd (dec_special_print ops c ctx))"
  by (simp add: dec_special_print_def split: option.split)

lemma wf_insert_shift [simp]: "wf ctx \<Longrightarrow> wf (insert_shift ops n ctx)"
  by (simp add: insert_shift_def Let_def split: prod.split)

lemma wf_putchar_lead [simp]: "wf ctx \<Longrightarrow> wf (putchar_lead c ctx)"
  by (simp add: putchar_lead_def Let_def)

lemma wf_putchar_graphic [simp]: "wf ctx \<Longrightarrow> wf (putchar_graphic ops c ctx)"
  using wf_dec_special_print [of "insert_shift ops 1 ctx" c]
  by (auto simp: putchar_graphic_def Let_def split: prod.splits if_splits)

lemma wf_putchar_ground [simp]: "wf ctx \<Longrightarrow> wf (putchar_ground ops c ctx)"
  by (simp add: putchar_ground_def Let_def wf_execute_c0)

lemma wf_putchar_charset [simp]: "wf ctx \<Longrightarrow> wf (putchar_charset c ctx)"
  using wf_term_inv [of ctx]
  by (auto simp: putchar_charset_def Let_def wf_lengths term_inv_def)

lemma wf_putchar_byte [simp]: "wf ctx \<Longrightarrow> wf (putchar_byte ops c ctx)"
  by (simp add: putchar_byte_def)

lemma wf_putchar_unicode [simp]: "wf ctx \<Longrightarrow> wf (putchar_unicode ops ctx)"
  by (simp add: putchar_unicode_def Let_def)

lemma wf_putchar_continue [simp]: "wf ctx \<Longrightarrow> wf (putchar_continue ops c ctx)"
  using wf_term_inv [of ctx]
  by (auto simp: putchar_continue_def Let_def term_inv_def)

lemma wf_flanterm_putchar [simp]: "wf ctx \<Longrightarrow> wf (flanterm_putchar ops c ctx)"
  by (simp add: flanterm_putchar_def)

lemma wf_flanterm_write: "wf ctx \<Longrightarrow> wf (flanterm_write ops buf ctx)"
proof -
  assume "wf ctx"
  then have "wf (fold (flanterm_putchar ops) buf ctx)" by (rule fold_inv) simp
  then show ?thesis by (simp add: flanterm_write_def Let_def)
qed

end

end
