(* ===== verification/Flanterm_Fb.thy ===== *)
theory Flanterm_Fb
  imports Flanterm_Safety
begin

text \<open>
  The framebuffer backend of \<^verbatim>\<open>flanterm_backends/fb.c\<close>: a character grid, a queue of pending cell
  changes with a map from cells to queue entries, and the routines that plot glyphs.

  \<open>fb_context\<close> holds the fields of \<^verbatim>\<open>struct flanterm_fb_context\<close> after the embedded terminal
  context. A pointer into the queue (the entries of \<open>map\<close>) is the index it points to. Pixels are
  a function of the pixel index relative to \<open>framebuffer\<close>, so that a write outside the buffer is
  visible in the model. \<open>flush_log\<close> records the lengths passed to the flush callback.
\<close>

record fb_char =
  ch_c :: u32
  ch_fg :: u32
  ch_bg :: u32

record fb_queue_item =
  qi_x :: nat
  qi_y :: nat
  qi_c :: fb_char

datatype plot_fn = Scaled_canvas | Scaled_uncanvas | Unscaled_canvas | Unscaled_uncanvas

record fb_context =
  plot_char :: plot_fn
  flush_callback :: bool
  flush_log :: "nat list"
  font_width :: nat
  font_height :: nat
  glyph_width :: nat
  glyph_height :: nat
  font_scale_x :: nat
  font_scale_y :: nat
  offset_x :: nat
  offset_y :: nat
  framebuffer :: nat
  pixels :: "int \<Rightarrow> u32"
  pitch :: nat
  width :: nat
  height :: nat
  phys_height :: nat
  red_mask_size :: u8
  red_mask_shift :: u8
  green_mask_size :: u8
  green_mask_shift :: u8
  blue_mask_size :: u8
  blue_mask_shift :: u8
  rotation :: int
  font_bits_size :: nat
  font_bits :: "u8 list"
  font_bool_size :: nat
  font_bool :: "bool list"
  ansi_colours :: "u32 list"
  ansi_bright_colours :: "u32 list"
  default_fg :: u32
  default_bg :: u32
  default_fg_bright :: u32
  default_bg_bright :: u32
  canvas_size :: nat
  canvas :: "u32 list option"
  grid_size :: nat
  queue_size :: nat
  map_size :: nat
  grid :: "fb_char list"
  queue :: "fb_queue_item list"
  queue_i :: nat
  qmap :: "nat option list"
  text_fg :: u32
  text_bg :: u32
  cursor_x :: nat
  cursor_y :: nat
  saved_state_text_fg :: u32
  saved_state_text_bg :: u32
  saved_state_cursor_x :: nat
  saved_state_cursor_y :: nat
  old_cursor_x :: nat
  old_cursor_y :: nat

type_synonym fb_term = "fb_context flanterm_context"

section \<open>Colours and saved state\<close>

text \<open>
  The shift counts are 8-bit values promoted to int; \<open>convert_component\<close> is one of the three
  symmetric conditional statements.
\<close>

definition convert_component :: "u32 \<Rightarrow> u8 \<Rightarrow> u8 \<Rightarrow> u32 \<Rightarrow> u32" where
  "convert_component v msize mshift ret =
     (if msize > 8
      then ret OR push_bit (unat mshift + 8 - unat msize) (drop_bit (16 - unat msize) v)
      else ret)"

definition convert_colour :: "fb_context \<Rightarrow> u32 \<Rightarrow> u32" where
  "convert_colour fb colour =
     (let r = drop_bit 16 colour AND 0xff;
          g = drop_bit 8 colour AND 0xff;
          b = colour AND 0xff;
          ret = push_bit (unat (red_mask_shift fb)) r OR push_bit (unat (green_mask_shift fb)) g
                OR push_bit (unat (blue_mask_shift fb)) b;
          ret = convert_component r (red_mask_size fb) (red_mask_shift fb) ret;
          ret = convert_component g (green_mask_size fb) (green_mask_shift fb) ret
      in convert_component b (blue_mask_size fb) (blue_mask_shift fb) ret)"

definition flanterm_fb_save_state :: "fb_term \<Rightarrow> fb_context" where
  "flanterm_fb_save_state ctx =
     (let fb = be ctx in
      fb\<lparr>saved_state_text_fg := text_fg fb,
         saved_state_text_bg := text_bg fb,
         saved_state_cursor_x := cursor_x fb,
         saved_state_cursor_y := cursor_y fb\<rparr>)"

definition flanterm_fb_restore_state :: "fb_term \<Rightarrow> fb_context" where
  "flanterm_fb_restore_state ctx =
     (let fb = be ctx in
      fb\<lparr>text_fg := saved_state_text_fg fb,
         text_bg := saved_state_text_bg fb,
         cursor_x := saved_state_cursor_x fb,
         cursor_y := saved_state_cursor_y fb\<rparr>)"

definition flanterm_fb_swap_palette :: "fb_term \<Rightarrow> fb_context" where
  "flanterm_fb_swap_palette ctx =
     (let fb = be ctx in fb\<lparr>text_bg := text_fg fb, text_fg := text_bg fb\<rparr>)"

section \<open>Plotting\<close>

definition FLANTERM_FB_ROTATE_0 :: int where "FLANTERM_FB_ROTATE_0 = 0"
definition FLANTERM_FB_ROTATE_90 :: int where "FLANTERM_FB_ROTATE_90 = 1"
definition FLANTERM_FB_ROTATE_180 :: int where "FLANTERM_FB_ROTATE_180 = 2"
definition FLANTERM_FB_ROTATE_270 :: int where "FLANTERM_FB_ROTATE_270 = 3"

text \<open>
  The switch on the rotation: the pixel index of the glyph's first dot, the step to the next line
  and the step to the next dot.
\<close>

definition plot_dest :: "fb_context \<Rightarrow> nat \<Rightarrow> nat \<Rightarrow> int \<times> int \<times> int" where
  "plot_dest fb x y =
     (let p = int (pitch fb div 4) in
      if rotation fb = FLANTERM_FB_ROTATE_90 then
        (int (height fb) - 1 - int y + int x * p, -1, p)
      else if rotation fb = FLANTERM_FB_ROTATE_180 then
        (int (width fb) - 1 - int x + (int (height fb) - 1 - int y) * p, - p, -1)
      else if rotation fb = FLANTERM_FB_ROTATE_270 then
        (int y + (int (width fb) - 1 - int x) * p, 1, - p)
      else (int x + int y * p, p, 1))"

definition set_pixel :: "int \<Rightarrow> u32 \<Rightarrow> fb_context \<Rightarrow> fb_context" where
  "set_pixel i v fb = fb\<lparr>pixels := (pixels fb)(i := v)\<rparr>"

definition default_colour :: "u32 \<Rightarrow> u32 \<Rightarrow> u32" where
  "default_colour d v = (if v = 0xffffffff then d else v)"

definition glyph_base :: "fb_context \<Rightarrow> fb_char \<Rightarrow> nat" where
  "glyph_base fb c = unat (ch_c c) * font_height fb * font_width fb"

definition plot_char_scaled_canvas :: "nat \<Rightarrow> nat \<Rightarrow> fb_char \<Rightarrow> nat \<Rightarrow> nat \<Rightarrow> fb_context \<Rightarrow> fb_context" where
  "plot_char_scaled_canvas rws cls c x y fb =
     (if x \<ge> cls \<or> y \<ge> rws then fb
      else
        let x = offset_x fb + x * glyph_width fb;
            y = offset_y fb + y * glyph_height fb;
            glyph = glyph_base fb c;
            (dest, outer_stride, inner_stride) = plot_dest fb x y
        in for_up 0 (glyph_height fb)
             (\<lambda>gy fb.
               let fy = (gy div font_scale_y fb) mod 256;
                   canvas_line = x + (y + gy) * width fb
               in for_up 0 (font_width fb)
                    (\<lambda>fx fb. for_up 0 (font_scale_x fb)
                      (\<lambda>i fb.
                        let gx = font_scale_x fb * fx + i;
                            under = the (canvas fb) ! (canvas_line + gx);
                            bg = default_colour under (ch_bg c);
                            fg = default_colour under (ch_fg c)
                        in set_pixel (dest + int gy * outer_stride + int gx * inner_stride)
                             (if font_bool fb ! (glyph + fy * font_width fb + fx) then fg else bg) fb)
                      fb)
                    fb)
             fb)"

definition plot_char_scaled_uncanvas :: "nat \<Rightarrow> nat \<Rightarrow> fb_char \<Rightarrow> nat \<Rightarrow> nat \<Rightarrow> fb_context \<Rightarrow> fb_context" where
  "plot_char_scaled_uncanvas rws cls c x y fb =
     (if x \<ge> cls \<or> y \<ge> rws then fb
      else
        let bg = default_colour (default_bg fb) (ch_bg c);
            fg = default_colour (default_bg fb) (ch_fg c);
            x = offset_x fb + x * glyph_width fb;
            y = offset_y fb + y * glyph_height fb;
            glyph = glyph_base fb c;
            (dest, outer_stride, inner_stride) = plot_dest fb x y
        in for_up 0 (glyph_height fb)
             (\<lambda>gy fb.
               let fy = (gy div font_scale_y fb) mod 256
               in for_up 0 (font_width fb)
                    (\<lambda>fx fb. for_up 0 (font_scale_x fb)
                      (\<lambda>i fb.
                        set_pixel (dest + int gy * outer_stride + int (font_scale_x fb * fx + i) * inner_stride)
                          (if font_bool fb ! (glyph + fy * font_width fb + fx) then fg else bg) fb)
                      fb)
                    fb)
             fb)"

definition plot_char_unscaled_canvas :: "nat \<Rightarrow> nat \<Rightarrow> fb_char \<Rightarrow> nat \<Rightarrow> nat \<Rightarrow> fb_context \<Rightarrow> fb_context" where
  "plot_char_unscaled_canvas rws cls c x y fb =
     (if x \<ge> cls \<or> y \<ge> rws then fb
      else
        let x = offset_x fb + x * glyph_width fb;
            y = offset_y fb + y * glyph_height fb;
            glyph = glyph_base fb c;
            (dest, outer_stride, inner_stride) = plot_dest fb x y
        in for_up 0 (glyph_height fb)
             (\<lambda>gy fb.
               let canvas_line = x + (y + gy) * width fb
               in for_up 0 (font_width fb)
                    (\<lambda>fx fb.
                      let under = the (canvas fb) ! (canvas_line + fx);
                          bg = default_colour under (ch_bg c);
                          fg = default_colour under (ch_fg c)
                      in set_pixel (dest + int gy * outer_stride + int fx * inner_stride)
                           (if font_bool fb ! (glyph + gy * font_width fb + fx) then fg else bg) fb)
                    fb)
             fb)"

definition plot_char_unscaled_uncanvas :: "nat \<Rightarrow> nat \<Rightarrow> fb_char \<Rightarrow> nat \<Rightarrow> nat \<Rightarrow> fb_context \<Rightarrow> fb_context" where
  "plot_char_unscaled_uncanvas rws cls c x y fb =
     (if x \<ge> cls \<or> y \<ge> rws then fb
      else
        let bg = default_colour (default_bg fb) (ch_bg c);
            fg = default_colour (default_bg fb) (ch_fg c);
            x = offset_x fb + x * glyph_width fb;
            y = offset_y fb + y * glyph_height fb;
            glyph = glyph_base fb c;
            (dest, outer_stride, inner_stride) = plot_dest fb x y
        in for_up 0 (glyph_height fb)
             (\<lambda>gy fb. for_up 0 (font_width fb)
               (\<lambda>fx fb.
                 set_pixel (dest + int gy * outer_stride + int fx * inner_stride)
                   (if font_bool fb ! (glyph + gy * font_width fb + fx) then fg else bg) fb)
               fb)
             fb)"

definition call_plot_char :: "nat \<Rightarrow> nat \<Rightarrow> fb_char \<Rightarrow> nat \<Rightarrow> nat \<Rightarrow> fb_context \<Rightarrow> fb_context" where
  "call_plot_char rws cls c x y fb =
     (case plot_char fb of
        Scaled_canvas \<Rightarrow> plot_char_scaled_canvas rws cls c x y fb
      | Scaled_uncanvas \<Rightarrow> plot_char_scaled_uncanvas rws cls c x y fb
      | Unscaled_canvas \<Rightarrow> plot_char_unscaled_canvas rws cls c x y fb
      | Unscaled_uncanvas \<Rightarrow> plot_char_unscaled_uncanvas rws cls c x y fb)"

section \<open>The queue of pending changes\<close>

definition compare_char :: "fb_char \<Rightarrow> fb_char \<Rightarrow> bool" where
  "compare_char a b \<longleftrightarrow> \<not> (ch_c a \<noteq> ch_c b \<or> ch_bg a \<noteq> ch_bg b \<or> ch_fg a \<noteq> ch_fg b)"

definition push_to_queue :: "nat \<Rightarrow> nat \<Rightarrow> fb_char \<Rightarrow> nat \<Rightarrow> nat \<Rightarrow> fb_context \<Rightarrow> fb_context" where
  "push_to_queue rws cls c x y fb =
     (if x \<ge> cls \<or> y \<ge> rws then fb
      else
        let i = y * cls + x in
        case qmap fb ! i of
          Some q \<Rightarrow> fb\<lparr>queue := (queue fb)[q := (queue fb ! q)\<lparr>qi_c := c\<rparr>]\<rparr>
        | None \<Rightarrow>
            if compare_char (grid fb ! i) c then fb
            else if queue_i fb = rws * cls then fb
            else fb\<lparr>queue := (queue fb)[queue_i fb := \<lparr>qi_x = x, qi_y = y, qi_c = c\<rparr>],
                     queue_i := Suc (queue_i fb),
                     qmap := (qmap fb)[i := Some (queue_i fb)]\<rparr>)"

text \<open>The character a cell shows: its pending change, or the grid.\<close>

definition cell :: "fb_context \<Rightarrow> nat \<Rightarrow> fb_char" where
  "cell fb i = (case qmap fb ! i of Some q \<Rightarrow> qi_c (queue fb ! q) | None \<Rightarrow> grid fb ! i)"

definition empty_char :: "fb_context \<Rightarrow> fb_char" where
  "empty_char fb = \<lparr>ch_c = ucast (byte CHR '' ''), ch_fg = text_fg fb, ch_bg = text_bg fb\<rparr>"

definition flanterm_fb_revscroll :: "fb_term \<Rightarrow> fb_context" where
  "flanterm_fb_revscroll ctx =
     (let fb = be ctx; rws = rows ctx; cls = cols ctx;
          start = scroll_top_margin ctx * cls;
          end_i = mul64 (sub64 (scroll_bottom_margin ctx) 1) cls;
          fb = fold (\<lambda>i fb. push_to_queue rws cls (cell fb i) ((i + cls) mod cls) ((i + cls) div cls) fb)
                 (rev [start..<end_i]) fb;
          empty = empty_char fb
      in for_up 0 cls (\<lambda>i. push_to_queue rws cls empty i (scroll_top_margin ctx)) fb)"

definition flanterm_fb_scroll :: "fb_term \<Rightarrow> fb_context" where
  "flanterm_fb_scroll ctx =
     (let fb = be ctx; rws = rows ctx; cls = cols ctx;
          fb = for_up ((scroll_top_margin ctx + 1) * cls) (scroll_bottom_margin ctx * cls)
                 (\<lambda>i fb. push_to_queue rws cls (cell fb i) ((i - cls) mod cls) ((i - cls) div cls) fb) fb;
          empty = empty_char fb
      in for_up 0 cls (\<lambda>i. push_to_queue rws cls empty i (sub64 (scroll_bottom_margin ctx) 1)) fb)"

definition flanterm_fb_clear :: "fb_term \<Rightarrow> bool \<Rightarrow> fb_context" where
  "flanterm_fb_clear ctx move =
     (let fb = be ctx; empty = empty_char fb;
          fb = for_up 0 (rows ctx * cols ctx)
                 (\<lambda>i. push_to_queue (rows ctx) (cols ctx) empty (i mod cols ctx) (i div cols ctx)) fb
      in if move then fb\<lparr>cursor_x := 0, cursor_y := 0\<rparr> else fb)"

section \<open>Cursor, colours and characters\<close>

definition clamp_coord :: "nat \<Rightarrow> nat \<Rightarrow> nat" where
  "clamp_coord x n = (if x \<ge> n then (if x > SIZE_MAX div 2 then 0 else sub64 n 1) else x)"

definition flanterm_fb_set_cursor_pos :: "fb_term \<Rightarrow> nat \<Rightarrow> nat \<Rightarrow> fb_context" where
  "flanterm_fb_set_cursor_pos ctx x y =
     (be ctx)\<lparr>cursor_x := clamp_coord x (cols ctx), cursor_y := clamp_coord y (rows ctx)\<rparr>"

definition flanterm_fb_get_cursor_pos :: "fb_term \<Rightarrow> nat \<times> nat" where
  "flanterm_fb_get_cursor_pos ctx =
     (let fb = be ctx in
      (if cursor_x fb \<ge> cols ctx then sub64 (cols ctx) 1 else cursor_x fb,
       if cursor_y fb \<ge> rows ctx then sub64 (rows ctx) 1 else cursor_y fb))"

definition flanterm_fb_move_character :: "fb_term \<Rightarrow> nat \<Rightarrow> nat \<Rightarrow> nat \<Rightarrow> nat \<Rightarrow> fb_context" where
  "flanterm_fb_move_character ctx new_x new_y old_x old_y =
     (let fb = be ctx in
      if old_x \<ge> cols ctx \<or> old_y \<ge> rows ctx \<or> new_x \<ge> cols ctx \<or> new_y \<ge> rows ctx then fb
      else push_to_queue (rows ctx) (cols ctx) (cell fb (old_x + old_y * cols ctx)) new_x new_y fb)"

definition flanterm_fb_set_text_fg :: "fb_term \<Rightarrow> nat \<Rightarrow> fb_context" where
  "flanterm_fb_set_text_fg ctx fg = (be ctx)\<lparr>text_fg := ansi_colours (be ctx) ! fg\<rparr>"

definition flanterm_fb_set_text_bg :: "fb_term \<Rightarrow> nat \<Rightarrow> fb_context" where
  "flanterm_fb_set_text_bg ctx bg = (be ctx)\<lparr>text_bg := ansi_colours (be ctx) ! bg\<rparr>"

definition flanterm_fb_set_text_fg_bright :: "fb_term \<Rightarrow> nat \<Rightarrow> fb_context" where
  "flanterm_fb_set_text_fg_bright ctx fg = (be ctx)\<lparr>text_fg := ansi_bright_colours (be ctx) ! fg\<rparr>"

definition flanterm_fb_set_text_bg_bright :: "fb_term \<Rightarrow> nat \<Rightarrow> fb_context" where
  "flanterm_fb_set_text_bg_bright ctx bg = (be ctx)\<lparr>text_bg := ansi_bright_colours (be ctx) ! bg\<rparr>"

definition flanterm_fb_set_text_fg_rgb :: "fb_term \<Rightarrow> u32 \<Rightarrow> fb_context" where
  "flanterm_fb_set_text_fg_rgb ctx fg = (be ctx)\<lparr>text_fg := convert_colour (be ctx) fg\<rparr>"

definition flanterm_fb_set_text_bg_rgb :: "fb_term \<Rightarrow> u32 \<Rightarrow> fb_context" where
  "flanterm_fb_set_text_bg_rgb ctx bg = (be ctx)\<lparr>text_bg := convert_colour (be ctx) bg\<rparr>"

definition flanterm_fb_set_text_fg_default :: "fb_term \<Rightarrow> fb_context" where
  "flanterm_fb_set_text_fg_default ctx = (be ctx)\<lparr>text_fg := default_fg (be ctx)\<rparr>"

definition flanterm_fb_set_text_bg_default :: "fb_term \<Rightarrow> fb_context" where
  "flanterm_fb_set_text_bg_default ctx = (be ctx)\<lparr>text_bg := 0xffffffff\<rparr>"

definition flanterm_fb_set_text_fg_default_bright :: "fb_term \<Rightarrow> fb_context" where
  "flanterm_fb_set_text_fg_default_bright ctx = (be ctx)\<lparr>text_fg := default_fg_bright (be ctx)\<rparr>"

definition flanterm_fb_set_text_bg_default_bright :: "fb_term \<Rightarrow> fb_context" where
  "flanterm_fb_set_text_bg_default_bright ctx = (be ctx)\<lparr>text_bg := default_bg_bright (be ctx)\<rparr>"

definition draw_cursor :: "nat \<Rightarrow> nat \<Rightarrow> fb_context \<Rightarrow> fb_context" where
  "draw_cursor rws cls fb =
     (if cursor_x fb \<ge> cls \<or> cursor_y fb \<ge> rws then fb
      else
        let i = cursor_x fb + cursor_y fb * cls;
            q = qmap fb ! i;
            c = cell fb i;
            c = c\<lparr>ch_fg := ch_bg c, ch_bg := ch_fg c\<rparr>;
            fb = call_plot_char rws cls c (cursor_x fb) (cursor_y fb) fb
        in case q of
             Some j \<Rightarrow> fb\<lparr>grid := (grid fb)[i := qi_c (queue fb ! j)], qmap := (qmap fb)[i := None]\<rparr>
           | None \<Rightarrow> fb)"

definition flush_item :: "nat \<Rightarrow> nat \<Rightarrow> nat \<Rightarrow> fb_context \<Rightarrow> fb_context" where
  "flush_item rws cls i fb =
     (let q = queue fb ! i;
          off = qi_y q * cls + qi_x q
      in if qmap fb ! off = None then fb
         else
           let fb = call_plot_char rws cls (qi_c q) (qi_x q) (qi_y q) fb
           in fb\<lparr>grid := (grid fb)[off := qi_c q], qmap := (qmap fb)[off := None]\<rparr>)"

definition call_flush_callback :: "fb_context \<Rightarrow> fb_context" where
  "call_flush_callback fb =
     (if flush_callback fb then fb\<lparr>flush_log := flush_log fb @ [pitch fb * phys_height fb]\<rparr> else fb)"

definition erase_old_cursor :: "bool \<Rightarrow> nat \<Rightarrow> nat \<Rightarrow> fb_context \<Rightarrow> fb_context" where
  "erase_old_cursor cursor_on rws cls fb =
     (if (old_cursor_x fb \<noteq> cursor_x fb \<or> old_cursor_y fb \<noteq> cursor_y fb) \<or> \<not> cursor_on
      then (if old_cursor_x fb < cls \<and> old_cursor_y fb < rws
            then call_plot_char rws cls (grid fb ! (old_cursor_x fb + old_cursor_y fb * cls))
                   (old_cursor_x fb) (old_cursor_y fb) fb
            else fb)
      else fb)"

definition flanterm_fb_double_buffer_flush :: "fb_term \<Rightarrow> fb_context" where
  "flanterm_fb_double_buffer_flush ctx =
     (let rws = rows ctx; cls = cols ctx; fb = be ctx;
          fb = (if cursor_enabled ctx then draw_cursor rws cls fb else fb);
          fb = for_up 0 (queue_i fb) (flush_item rws cls) fb;
          fb = erase_old_cursor (cursor_enabled ctx) rws cls fb;
          fb = fb\<lparr>old_cursor_x := cursor_x fb, old_cursor_y := cursor_y fb, queue_i := 0\<rparr>
      in call_flush_callback fb)"

text \<open>The first part of \<open>flanterm_fb_raw_putchar\<close>: a cursor past the last column wraps or is held.\<close>

definition raw_putchar_wrap :: "fb_term \<Rightarrow> fb_context" where
  "raw_putchar_wrap ctx =
     (let fb = be ctx in
      if cursor_x fb \<ge> cols ctx then
        (if wrap_enabled ctx \<and>
            (cursor_y fb < sub64 (scroll_bottom_margin ctx) 1 \<or> scroll_enabled ctx) then
           (let fb = fb\<lparr>cursor_x := 0, cursor_y := Suc (cursor_y fb)\<rparr>;
                fb = (if cursor_y fb = scroll_bottom_margin ctx
                      then flanterm_fb_scroll (ctx\<lparr>be := fb\<lparr>cursor_y := cursor_y fb - 1\<rparr>\<rparr>)
                      else fb)
            in if cursor_y fb \<ge> rows ctx then fb\<lparr>cursor_y := sub64 (rows ctx) 1\<rparr> else fb)
         else fb\<lparr>cursor_x := sub64 (cols ctx) 1\<rparr>)
      else fb)"

definition flanterm_fb_raw_putchar :: "fb_term \<Rightarrow> u8 \<Rightarrow> fb_context" where
  "flanterm_fb_raw_putchar ctx c =
     (let fb = raw_putchar_wrap ctx;
          ch = \<lparr>ch_c = ucast c, ch_fg = text_fg fb, ch_bg = text_bg fb\<rparr>
      in push_to_queue (rows ctx) (cols ctx) ch (cursor_x fb) (cursor_y fb)
           (fb\<lparr>cursor_x := Suc (cursor_x fb)\<rparr>))"

definition full_refresh_pixel :: "fb_context \<Rightarrow> nat \<Rightarrow> nat \<Rightarrow> int \<times> int" where
  "full_refresh_pixel fb x y =
     (if rotation fb = FLANTERM_FB_ROTATE_90 then (int (height fb) - 1 - int y, int x)
      else if rotation fb = FLANTERM_FB_ROTATE_180 then
        (int (width fb) - 1 - int x, int (height fb) - 1 - int y)
      else if rotation fb = FLANTERM_FB_ROTATE_270 then (int y, int (width fb) - 1 - int x)
      else (int x, int y))"

definition flanterm_fb_full_refresh :: "fb_term \<Rightarrow> fb_context" where
  "flanterm_fb_full_refresh ctx =
     (let rws = rows ctx; cls = cols ctx; fb = be ctx;
          default_bg_v = default_bg fb;
          fb = for_up 0 (height fb)
                 (\<lambda>y fb. for_up 0 (width fb)
                   (\<lambda>x fb.
                     let (px, py) = full_refresh_pixel fb x y
                     in set_pixel (py * int (pitch fb div 4) + px)
                          (case canvas fb of Some cv \<Rightarrow> cv ! (y * width fb + x) | None \<Rightarrow> default_bg_v) fb)
                   fb) fb;
          fb = for_up 0 (rws * cls)
                 (\<lambda>i fb. call_plot_char rws cls (grid fb ! i) (i mod cls) (i div cls) fb) fb;
          fb = (if cursor_enabled ctx then draw_cursor rws cls fb else fb)
      in call_flush_callback fb)"

definition flanterm_fb_set_flush_callback :: "bool \<Rightarrow> fb_context \<Rightarrow> fb_context" where
  "flanterm_fb_set_flush_callback cb fb = fb\<lparr>flush_callback := cb\<rparr>"

text \<open>The operations \<open>flanterm_fb_init\<close> installs. The kernel sets no callback.\<close>

definition fb_ops :: "fb_context flanterm_ops" where
  "fb_ops = \<lparr>
     be_raw_putchar = flanterm_fb_raw_putchar,
     be_clear = flanterm_fb_clear,
     be_set_cursor_pos = flanterm_fb_set_cursor_pos,
     be_get_cursor_pos = flanterm_fb_get_cursor_pos,
     be_set_text_fg = flanterm_fb_set_text_fg,
     be_set_text_bg = flanterm_fb_set_text_bg,
     be_set_text_fg_bright = flanterm_fb_set_text_fg_bright,
     be_set_text_bg_bright = flanterm_fb_set_text_bg_bright,
     be_set_text_fg_rgb = flanterm_fb_set_text_fg_rgb,
     be_set_text_bg_rgb = flanterm_fb_set_text_bg_rgb,
     be_set_text_fg_default = flanterm_fb_set_text_fg_default,
     be_set_text_bg_default = flanterm_fb_set_text_bg_default,
     be_set_text_fg_default_bright = flanterm_fb_set_text_fg_default_bright,
     be_set_text_bg_default_bright = flanterm_fb_set_text_bg_default_bright,
     be_move_character = flanterm_fb_move_character,
     be_scroll = flanterm_fb_scroll,
     be_revscroll = flanterm_fb_revscroll,
     be_swap_palette = flanterm_fb_swap_palette,
     be_save_state = flanterm_fb_save_state,
     be_restore_state = flanterm_fb_restore_state,
     be_double_buffer_flush = flanterm_fb_double_buffer_flush,
     be_full_refresh = flanterm_fb_full_refresh,
     callback = None\<rparr>"

end
