(* ===== verification/Flanterm_Screen.thy ===== *)
theory Flanterm_Screen
  imports Flanterm_Fb
begin

text \<open>
  What the framebuffer backend promises. The abstract screen gives every cell the character it
  shows (\<open>cell\<close>); the queue and the map are an implementation of it. \<open>fb_ok\<close> keeps the accesses to
  grid, queue and map in bounds; \<open>fb_sync\<close> adds that every queue entry is the one its cell points
  to. Under \<open>fb_sync\<close> the queue never overflows and each operation is an update of the abstract
  screen. The backend is then shown to implement the interface \<open>term_backend\<close>.
\<close>

definition qpos :: "nat \<Rightarrow> fb_queue_item \<Rightarrow> nat" where
  "qpos cls q = qi_y q * cls + qi_x q"

definition fb_ok :: "nat \<Rightarrow> nat \<Rightarrow> fb_context \<Rightarrow> bool" where
  "fb_ok rws cls fb \<longleftrightarrow>
     length (grid fb) = rws * cls \<and> length (queue fb) = rws * cls \<and> length (qmap fb) = rws * cls \<and>
     queue_i fb \<le> rws * cls \<and>
     (\<forall>j < queue_i fb. qi_x (queue fb ! j) < cls \<and> qi_y (queue fb ! j) < rws) \<and>
     (\<forall>i < rws * cls. \<forall>q. qmap fb ! i = Some q \<longrightarrow> q < queue_i fb \<and> qpos cls (queue fb ! q) = i) \<and>
     length (ansi_colours fb) = 8 \<and> length (ansi_bright_colours fb) = 8 \<and>
     cursor_y fb < rws \<and> cursor_x fb \<le> cls \<and>
     saved_state_cursor_y fb < rws \<and> saved_state_cursor_x fb \<le> cls"

definition fb_sync :: "nat \<Rightarrow> nat \<Rightarrow> fb_context \<Rightarrow> bool" where
  "fb_sync rws cls fb \<longleftrightarrow> fb_ok rws cls fb \<and>
     (\<forall>j < queue_i fb. qmap fb ! qpos cls (queue fb ! j) = Some j)"

lemma fb_ok_lengths:
  assumes "fb_ok rws cls fb"
  shows "length (grid fb) = rws * cls" "length (queue fb) = rws * cls"
    "length (qmap fb) = rws * cls" "queue_i fb \<le> rws * cls"
  using assms by (simp_all add: fb_ok_def)

lemma fb_ok_map:
  "fb_ok rws cls fb \<Longrightarrow> i < rws * cls \<Longrightarrow> qmap fb ! i = Some q \<Longrightarrow>
   q < queue_i fb \<and> qpos cls (queue fb ! q) = i"
  by (simp add: fb_ok_def)

lemma cell_index:
  fixes x y cls rws :: nat
  assumes "x < cls" and "y < rws"
  shows "y * cls + x < rws * cls"
proof -
  have "y * cls + x < y * cls + cls" using assms(1) by simp
  also have "\<dots> = Suc y * cls" by simp
  also have "\<dots> \<le> rws * cls" using assms(2) by (intro mult_le_mono1) simp
  finally show ?thesis .
qed

lemma fb_ok_qpos: "fb_ok rws cls fb \<Longrightarrow> j < queue_i fb \<Longrightarrow> qpos cls (queue fb ! j) < rws * cls"
  unfolding qpos_def by (rule cell_index) (simp_all add: fb_ok_def)

text \<open>The queue has room whenever a cell without a pending change needs an entry.\<close>

lemma queue_room:
  assumes sync: "fb_sync rws cls fb" and i: "i < rws * cls" and none: "qmap fb ! i = None"
  shows "queue_i fb < rws * cls"
proof -
  let ?pos = "\<lambda>j. qpos cls (queue fb ! j)"
  have ok: "fb_ok rws cls fb" and entry: "\<And>j. j < queue_i fb \<Longrightarrow> qmap fb ! ?pos j = Some j"
    using sync by (auto simp: fb_sync_def)
  have inj: "inj_on ?pos {..<queue_i fb}"
  proof (rule inj_onI)
    fix j k
    assume jk: "j \<in> {..<queue_i fb}" "k \<in> {..<queue_i fb}" and eq: "?pos j = ?pos k"
    have "qmap fb ! ?pos j = Some j" by (rule entry) (use jk in simp)
    moreover have "qmap fb ! ?pos k = Some k" by (rule entry) (use jk in simp)
    ultimately show "j = k" unfolding eq by simp
  qed
  have "?pos ` {..<queue_i fb} \<subseteq> {..<rws * cls} - {i}"
  proof (rule image_subsetI)
    fix j
    assume "j \<in> {..<queue_i fb}"
    then have "j < queue_i fb" by simp
    then show "?pos j \<in> {..<rws * cls} - {i}"
      using fb_ok_qpos [OF ok, of j] entry [of j] none by (auto simp del: neq0_conv)
  qed
  then have "card (?pos ` {..<queue_i fb}) \<le> card ({..<rws * cls} - {i})"
    by (intro card_mono) auto
  then have "queue_i fb \<le> rws * cls - 1"
    using i by (simp add: card_image [OF inj])
  with i show ?thesis by linarith
qed

section \<open>Pushing a change\<close>

lemma compare_char_eq: "compare_char a b \<longleftrightarrow> a = b"
  by (cases a; cases b) (auto simp: compare_char_def)

text \<open>Fields \<open>push_to_queue\<close> does not write.\<close>

lemma push_frame [simp]:
  "grid (push_to_queue rws cls c x y fb) = grid fb"
  "text_fg (push_to_queue rws cls c x y fb) = text_fg fb"
  "text_bg (push_to_queue rws cls c x y fb) = text_bg fb"
  "cursor_x (push_to_queue rws cls c x y fb) = cursor_x fb"
  "cursor_y (push_to_queue rws cls c x y fb) = cursor_y fb"
  "empty_char (push_to_queue rws cls c x y fb) = empty_char fb"
  by (simp_all add: push_to_queue_def empty_char_def Let_def split: option.split)

lemma push_ok:
  assumes ok: "fb_ok rws cls fb"
  shows "fb_ok rws cls (push_to_queue rws cls c x y fb)"
proof (cases "x \<ge> cls \<or> y \<ge> rws")
  case True
  with ok show ?thesis by (simp add: push_to_queue_def)
next
  case False
  then have xy: "x < cls" "y < rws" by auto
  let ?i = "y * cls + x"
  have i: "?i < rws * cls" using xy by (rule cell_index)
  show ?thesis
  proof (cases "qmap fb ! ?i")
    case (Some q)
    have q: "q < queue_i fb" using fb_ok_map [OF ok i Some] by simp
    with ok have "q < length (queue fb)" by (auto simp: fb_ok_def)
    with False Some ok q show ?thesis
      by (auto simp: push_to_queue_def fb_ok_def qpos_def nth_list_update)
  next
    case None
    show ?thesis
    proof (cases "compare_char (grid fb ! ?i) c \<or> queue_i fb = rws * cls")
      case True
      with False None ok show ?thesis by (auto simp: push_to_queue_def Let_def)
    next
      case push: False
      from push ok have room: "queue_i fb < rws * cls" by (auto simp: fb_ok_def)
      define it where "it = \<lparr>qi_x = x, qi_y = y, qi_c = c\<rparr>"
      have eq: "push_to_queue rws cls c x y fb =
          fb\<lparr>queue := (queue fb)[queue_i fb := it], queue_i := Suc (queue_i fb),
             qmap := (qmap fb)[?i := Some (queue_i fb)]\<rparr>"
        using False None push by (auto simp: push_to_queue_def it_def Let_def)
      have pos: "qpos cls it = ?i" by (simp add: it_def qpos_def)
      show ?thesis
        unfolding eq
        using ok room xy pos i
        by (auto simp: fb_ok_def nth_list_update less_Suc_eq it_def split: if_splits)
    qed
  qed
qed

lemma push_sync:
  assumes sync: "fb_sync rws cls fb"
  shows "fb_sync rws cls (push_to_queue rws cls c x y fb)"
proof -
  have ok: "fb_ok rws cls fb" using sync by (simp add: fb_sync_def)
  have entry: "\<And>j. j < queue_i fb \<Longrightarrow> qmap fb ! qpos cls (queue fb ! j) = Some j"
    using sync by (simp add: fb_sync_def)
  have "\<forall>j < queue_i (push_to_queue rws cls c x y fb).
      qmap (push_to_queue rws cls c x y fb) !
        qpos cls (queue (push_to_queue rws cls c x y fb) ! j) = Some j"
  proof (cases "x \<ge> cls \<or> y \<ge> rws")
    case True
    with entry show ?thesis by (simp add: push_to_queue_def)
  next
    case False
    let ?i = "y * cls + x"
    have i: "?i < rws * cls" using False by (intro cell_index) auto
    have len: "length (queue fb) = rws * cls" "length (qmap fb) = rws * cls"
      using ok by (simp_all add: fb_ok_def)
    show ?thesis
    proof (cases "qmap fb ! ?i")
      case (Some q)
      have "q < length (queue fb)"
        using fb_ok_map [OF ok i Some] fb_ok_lengths [OF ok] by simp
      with False Some entry show ?thesis
        by (auto simp: push_to_queue_def qpos_def nth_list_update)
    next
      case None
      have room: "queue_i fb < rws * cls" by (rule queue_room [OF sync i None])
      have ne: "qpos cls (queue fb ! j) \<noteq> ?i" if "j < queue_i fb" for j
        using entry [OF that] None by auto
      show ?thesis
        using False None entry room len i ne
        by (auto simp: push_to_queue_def nth_list_update less_Suc_eq qpos_def Let_def)
    qed
  qed
  with push_ok [OF ok] show ?thesis by (simp add: fb_sync_def)
qed

text \<open>A push is one cell written: the refinement of the abstract update.\<close>

lemma push_cell:
  assumes sync: "fb_sync rws cls fb" and xy: "x < cls" "y < rws" and j: "j < rws * cls"
  shows "cell (push_to_queue rws cls c x y fb) j = (if j = y * cls + x then c else cell fb j)"
proof -
  let ?i = "y * cls + x"
  have ok: "fb_ok rws cls fb" using sync by (simp add: fb_sync_def)
  have i: "?i < rws * cls" using xy by (rule cell_index)
  note len = fb_ok_lengths [OF ok]
  show ?thesis
  proof (cases "qmap fb ! ?i")
    case (Some q)
    have q: "q < queue_i fb" "qpos cls (queue fb ! q) = ?i" using fb_ok_map [OF ok i Some] by auto
    have other: "qmap fb ! j \<noteq> Some q" if "j \<noteq> ?i"
      using fb_ok_map [OF ok j, of q] q that by auto
    show ?thesis
      using xy Some q len other
      by (auto simp: push_to_queue_def cell_def nth_list_update split: option.split)
  next
    case None
    have room: "queue_i fb < rws * cls" by (rule queue_room [OF sync i None])
    have other: "qmap fb ! j = Some q \<Longrightarrow> q \<noteq> queue_i fb" for q
      using fb_ok_map [OF ok j, of q] by auto
    show ?thesis
      using xy None room len i j other
      by (auto simp: push_to_queue_def cell_def nth_list_update compare_char_eq Let_def split: option.split)
  qed
qed


section \<open>Operations as updates of the screen\<close>

text \<open>
  A list of pushes whose characters do not depend on the state. \<open>screen_upd\<close> is the abstract
  counterpart of one push on the function from cells to characters.
\<close>

definition screen_upd :: "nat \<Rightarrow> nat \<Rightarrow> fb_char \<Rightarrow> nat \<Rightarrow> nat \<Rightarrow> (nat \<Rightarrow> fb_char) \<Rightarrow> nat \<Rightarrow> fb_char" where
  "screen_upd rws cls c x y s = (if x < cls \<and> y < rws then s(y * cls + x := c) else s)"

lemma push_screen_upd:
  assumes "fb_sync rws cls fb" and "j < rws * cls"
  shows "cell (push_to_queue rws cls c x y fb) j = screen_upd rws cls c x y (cell fb) j"
proof (cases "x < cls \<and> y < rws")
  case True
  with assms show ?thesis by (simp add: push_cell screen_upd_def)
next
  case False
  then show ?thesis by (auto simp: push_to_queue_def screen_upd_def)
qed

lemma for_up_push_sync:
  assumes "fb_sync rws cls fb"
  shows "fb_sync rws cls (for_up a b (\<lambda>i. push_to_queue rws cls (f i) (g i) (h i)) fb)"
  by (rule for_up_inv) (simp_all add: assms push_sync)

lemma for_up_push_ok:
  assumes "fb_ok rws cls fb"
  shows "fb_ok rws cls (for_up a b (\<lambda>i. push_to_queue rws cls (f i) (g i) (h i)) fb)"
  by (rule for_up_inv) (simp_all add: assms push_ok)

text \<open>A row of the same character.\<close>

lemma for_up_push_row:
  assumes sync: "fb_sync rws cls fb" and y: "y < rws" and j: "j < rws * cls" and n: "n \<le> cls"
  shows "cell (for_up 0 n (\<lambda>i. push_to_queue rws cls c i y) fb) j =
         (if y * cls \<le> j \<and> j < y * cls + n then c else cell fb j)"
  using n
proof (induction n)
  case 0
  then show ?case by auto
next
  case (Suc n)
  let ?fb = "for_up 0 n (\<lambda>i. push_to_queue rws cls c i y) fb"
  have "fb_sync rws cls ?fb" using sync by (rule for_up_push_sync)
  moreover have "n < cls" using Suc.prems by simp
  ultimately have "cell (push_to_queue rws cls c n y ?fb) j = (if j = y * cls + n then c else cell ?fb j)"
    using y j by (intro push_cell)
  with Suc show ?case by (auto simp: for_up_last)
qed

text \<open>Every cell of the screen, in index order.\<close>

lemma for_up_push_all:
  assumes sync: "fb_sync rws cls fb" and j: "j < rws * cls" and n: "n \<le> rws * cls" and cls: "0 < cls"
  shows "cell (for_up 0 n (\<lambda>i. push_to_queue rws cls c (i mod cls) (i div cls)) fb) j =
         (if j < n then c else cell fb j)"
  using n
proof (induction n)
  case 0
  then show ?case by simp
next
  case (Suc n)
  let ?fb = "for_up 0 n (\<lambda>i. push_to_queue rws cls c (i mod cls) (i div cls)) fb"
  have "fb_sync rws cls ?fb" using sync by (rule for_up_push_sync)
  moreover have "n div cls < rws" using Suc.prems cls by (simp add: div_less_iff_less_mult)
  moreover have "n mod cls < cls" using cls by simp
  ultimately have "cell (push_to_queue rws cls c (n mod cls) (n div cls) ?fb) j =
      (if j = n div cls * cls + n mod cls then c else cell ?fb j)"
    using j by (intro push_cell)
  with Suc show ?case by (auto simp: for_up_last)
qed

text \<open>
  Scrolling up copies line by line from the line below; the copy of a cell reads a cell that the
  loop has not written yet.
\<close>

lemma scroll_copy:
  assumes sync: "fb_sync rws cls fb" and cls: "0 < cls" and j: "j < rws * cls"
    and n: "a * cls \<le> n" "n \<le> rws * cls" and a: "0 < a"
  defines "step \<equiv> \<lambda>i fb. push_to_queue rws cls (cell fb i) ((i - cls) mod cls) ((i - cls) div cls) fb"
  shows "fb_sync rws cls (for_up (a * cls) n step fb) \<and>
    cell (for_up (a * cls) n step fb) j =
      (if (a - 1) * cls \<le> j \<and> j + cls < n then cell fb (j + cls) else cell fb j)"
proof -
  have step_app: "step i g = push_to_queue rws cls (cell g i) ((i - cls) mod cls) ((i - cls) div cls) g" for i g
    by (simp add: step_def)
  show ?thesis
  using n j
proof (induction n arbitrary: j rule: dec_induct)
  case base
  have "\<not> ((a - 1) * cls \<le> j \<and> j + cls < a * cls)"
    using a by (cases a) auto
  with sync show ?case by auto
next
  case (step n)
  let ?fb = "for_up (a * cls) n step fb"
  have sync': "fb_sync rws cls ?fb" and IH: "\<And>j. j < rws * cls \<Longrightarrow> cell ?fb j =
      (if (a - 1) * cls \<le> j \<and> j + cls < n then cell fb (j + cls) else cell fb j)"
    using step by auto
  have ncls: "cls \<le> n" using step.hyps(1) a by (metis le_trans mult_le_mono1 nat_mult_1 Suc_leI One_nat_def)
  have here: "cell ?fb n = cell fb n" using IH [of n] step.prems by simp
  have pos: "(n - cls) div cls * cls + (n - cls) mod cls = n - cls" by simp
  have "(n - cls) div cls < rws"
    using step.prems cls by (simp add: div_less_iff_less_mult)
  then have push: "cell (step n ?fb) j = (if j = n - cls then cell fb n else cell ?fb j)"
    using push_cell [OF sync', of "(n - cls) mod cls" "(n - cls) div cls" j] cls step.prems here pos
    by (simp add: step_app)
  have low: "(a - 1) * cls \<le> n - cls"
    using step.hyps(1) by (simp add: diff_mult_distrib)
  have "fb_sync rws cls (step n ?fb)" using push_sync [OF sync'] by (simp add: step_app)
  moreover have "cell (step n ?fb) j =
      (if (a - 1) * cls \<le> j \<and> j + cls < Suc n then cell fb (j + cls) else cell fb j)"
    using push IH [of j] step.prems ncls low by auto
  ultimately show ?case using step.hyps(1) by (simp add: for_up_last)
qed
qed


lemma revscroll_copy:
  assumes sync: "fb_sync rws cls fb" and cls: "0 < cls" and j: "j < rws * cls"
    and b: "b + cls \<le> rws * cls" and ab: "a \<le> b"
  defines "step \<equiv> \<lambda>i fb. push_to_queue rws cls (cell fb i) ((i + cls) mod cls) ((i + cls) div cls) fb"
  shows "fb_sync rws cls (fold step (rev [a..<b]) fb) \<and>
    cell (fold step (rev [a..<b]) fb) j =
      (if a + cls \<le> j \<and> j < b + cls then cell fb (j - cls) else cell fb j)"
  using ab b sync j
proof (induction b arbitrary: fb j rule: dec_induct)
  case base
  then show ?case by auto
next
  case (step n)
  let ?fb = "step n fb"
  have pos: "(n + cls) div cls * cls + (n + cls) mod cls = n + cls" by (rule div_mult_mod_eq)
  have "(n + cls) div cls < rws"
    using step.prems(1) cls by (simp add: div_less_iff_less_mult del: div_add_self2)
  then have push: "cell ?fb k = (if k = n + cls then cell fb n else cell fb k)" if "k < rws * cls" for k
    unfolding step_def
    using push_cell [OF step.prems(2), of "(n + cls) mod cls" "(n + cls) div cls" k] cls that pos
    by (simp del: div_add_self2 mod_add_self2)
  have sync': "fb_sync rws cls ?fb" unfolding step_def by (rule push_sync [OF step.prems(2)])
  have "fb_sync rws cls (fold step (rev [a..<n]) ?fb) \<and>
    cell (fold step (rev [a..<n]) ?fb) j =
      (if a + cls \<le> j \<and> j < n + cls then cell ?fb (j - cls) else cell ?fb j)"
    by (rule step.IH) (use step.prems sync' in auto)
  moreover have "fold step (rev [a..<Suc n]) fb = fold step (rev [a..<n]) ?fb"
    using step.hyps(1) by simp
  ultimately show ?case
    using push [of j] push [of "j - cls"] step.prems step.hyps(1) cls by auto
qed

text \<open>Plotting touches pixels only.\<close>

lemma set_pixel_frame [simp]: "(set_pixel i v fb)\<lparr>pixels := p\<rparr> = fb\<lparr>pixels := p\<rparr>"
  by (simp add: set_pixel_def)

lemma call_plot_char_frame:
  "(call_plot_char rws cls c x y fb)\<lparr>pixels := p\<rparr> = fb\<lparr>pixels := p\<rparr>"
  by (auto simp: call_plot_char_def plot_char_scaled_canvas_def plot_char_scaled_uncanvas_def
      plot_char_unscaled_canvas_def plot_char_unscaled_uncanvas_def Let_def
      intro!: for_up_measure [where g = "\<lambda>fb. fb\<lparr>pixels := p\<rparr>"]
      split: plot_fn.split prod.split)

lemma call_plot_char_eq: "\<exists>p. call_plot_char rws cls c x y fb = fb\<lparr>pixels := p\<rparr>"
proof -
  let ?fb = "call_plot_char rws cls c x y fb"
  have "?fb = ?fb\<lparr>pixels := pixels ?fb\<rparr>" by simp
  also have "\<dots> = fb\<lparr>pixels := pixels ?fb\<rparr>" by (rule call_plot_char_frame)
  finally show ?thesis by blast
qed

lemma pixels_frame [simp]:
  "fb_ok rws cls (fb\<lparr>pixels := p\<rparr>) = fb_ok rws cls fb"
  "fb_sync rws cls (fb\<lparr>pixels := p\<rparr>) = fb_sync rws cls fb"
  "cell (fb\<lparr>pixels := p\<rparr>) j = cell fb j"
  by (simp_all add: fb_ok_def fb_sync_def cell_def split: option.split)

text \<open>
  Between \<open>draw_cursor\<close> and the end of a flush an entry of the queue may already have been drawn:
  its cell points to it or to nothing.
\<close>

definition fb_half :: "nat \<Rightarrow> nat \<Rightarrow> fb_context \<Rightarrow> bool" where
  "fb_half rws cls fb \<longleftrightarrow> fb_ok rws cls fb \<and>
     (\<forall>j < queue_i fb. qmap fb ! qpos cls (queue fb ! j) \<in> {None, Some j})"

lemma fb_sync_half: "fb_sync rws cls fb \<Longrightarrow> fb_half rws cls fb"
  by (simp add: fb_sync_def fb_half_def)

text \<open>Retiring an entry: the cell is drawn, the grid takes its character and the map forgets it.\<close>

definition retire :: "nat \<Rightarrow> nat \<Rightarrow> fb_context \<Rightarrow> fb_context" where
  "retire i j fb = fb\<lparr>grid := (grid fb)[i := qi_c (queue fb ! j)], qmap := (qmap fb)[i := None]\<rparr>"

lemma retire_ok:
  assumes "fb_ok rws cls fb"
  shows "fb_ok rws cls (retire i j fb)"
  using assms by (auto simp: fb_ok_def retire_def nth_upd split: if_splits)

lemma retire_half:
  assumes "fb_half rws cls fb"
  shows "fb_half rws cls (retire i j fb)"
proof -
  have "length (qmap fb) = rws * cls" using assms by (simp add: fb_half_def fb_ok_def)
  with assms show ?thesis
    using fb_ok_qpos [of rws cls fb] retire_ok [of rws cls fb i j]
    by (auto simp: fb_half_def retire_def nth_upd)
qed

lemma retire_cell:
  assumes "fb_ok rws cls fb" and "i < rws * cls" and "qmap fb ! i = Some j" and "k < rws * cls"
  shows "cell (retire i j fb) k = cell fb k"
  using assms by (auto simp: cell_def retire_def fb_ok_def nth_list_update split: option.split)

lemma draw_cursor_cases:
  assumes "fb_ok rws cls fb"
  obtains p where "draw_cursor rws cls fb = fb\<lparr>pixels := p\<rparr>"
  | p j where "draw_cursor rws cls fb = (retire (cursor_x fb + cursor_y fb * cls) j fb)\<lparr>pixels := p\<rparr>"
    "qmap fb ! (cursor_x fb + cursor_y fb * cls) = Some j" "cursor_x fb + cursor_y fb * cls < rws * cls"
proof (cases "cursor_x fb \<ge> cls \<or> cursor_y fb \<ge> rws")
  case True
  then have "draw_cursor rws cls fb = fb\<lparr>pixels := pixels fb\<rparr>" by (auto simp: draw_cursor_def)
  with that(1) show thesis .
next
  case False
  let ?i = "cursor_x fb + cursor_y fb * cls"
  let ?c = "(cell fb ?i)\<lparr>ch_fg := ch_bg (cell fb ?i), ch_bg := ch_fg (cell fb ?i)\<rparr>"
  obtain p where p: "call_plot_char rws cls ?c (cursor_x fb) (cursor_y fb) fb = fb\<lparr>pixels := p\<rparr>"
    using call_plot_char_eq by blast
  have i: "?i < rws * cls"
    using False cell_index [of "cursor_x fb" cls "cursor_y fb" rws] by (simp add: add.commute)
  show thesis
  proof (cases "qmap fb ! ?i")
    case None
    with False p have "draw_cursor rws cls fb = fb\<lparr>pixels := p\<rparr>"
      by (simp add: draw_cursor_def Let_def)
    with that(1) show thesis .
  next
    case (Some j)
    with False p have "draw_cursor rws cls fb = (retire ?i j fb)\<lparr>pixels := p\<rparr>"
      by (simp add: draw_cursor_def Let_def retire_def)
    with that(2) Some i show thesis by blast
  qed
qed

lemma fb_half_pixels [simp]: "fb_half rws cls (fb\<lparr>pixels := p\<rparr>) = fb_half rws cls fb"
  by (simp add: fb_half_def)

lemma draw_cursor_half:
  assumes "fb_half rws cls fb"
  shows "fb_half rws cls (draw_cursor rws cls fb)"
    and "j < rws * cls \<Longrightarrow> cell (draw_cursor rws cls fb) j = cell fb j"
    and "queue_i (draw_cursor rws cls fb) = queue_i fb"
proof -
  have ok: "fb_ok rws cls fb" using assms by (simp add: fb_half_def)
  show "fb_half rws cls (draw_cursor rws cls fb)"
    using ok by (rule draw_cursor_cases) (simp_all add: assms retire_half)
  show "cell (draw_cursor rws cls fb) j = cell fb j" if "j < rws * cls"
    using ok by (rule draw_cursor_cases) (simp_all add: that retire_cell [OF ok])
  show "queue_i (draw_cursor rws cls fb) = queue_i fb"
    using ok by (rule draw_cursor_cases) (simp_all add: retire_def)
qed

lemma draw_cursor_ok: "fb_ok rws cls fb \<Longrightarrow> fb_ok rws cls (draw_cursor rws cls fb)"
  by (rule draw_cursor_cases [of rws cls fb]) (simp_all add: retire_ok)

lemma flush_item_cases:
  assumes "fb_ok rws cls fb" and "i < queue_i fb"
  shows "(qmap fb ! qpos cls (queue fb ! i) = None \<and> flush_item rws cls i fb = fb) \<or>
    (qmap fb ! qpos cls (queue fb ! i) \<noteq> None \<and>
     (\<exists>p. flush_item rws cls i fb = (retire (qpos cls (queue fb ! i)) i fb)\<lparr>pixels := p\<rparr>))"
proof (cases "qmap fb ! qpos cls (queue fb ! i)")
  case None
  then show ?thesis by (simp add: flush_item_def qpos_def Let_def)
next
  case (Some j)
  let ?q = "queue fb ! i"
  obtain p where "call_plot_char rws cls (qi_c ?q) (qi_x ?q) (qi_y ?q) fb = fb\<lparr>pixels := p\<rparr>"
    using call_plot_char_eq by blast
  then have "flush_item rws cls i fb = (retire (qpos cls ?q) i fb)\<lparr>pixels := p\<rparr>"
    using Some by (simp add: flush_item_def qpos_def Let_def retire_def)
  with Some show ?thesis by auto
qed


lemma flush_items:
  assumes half: "fb_half rws cls fb" and n: "n \<le> queue_i fb"
  defines "fl \<equiv> \<lambda>n. for_up 0 n (flush_item rws cls) fb"
  shows "fb_half rws cls (fl n) \<and> queue (fl n) = queue fb \<and> queue_i (fl n) = queue_i fb \<and>
    (\<forall>j < rws * cls. cell (fl n) j = cell fb j) \<and>
    (\<forall>i < n. qmap (fl n) ! qpos cls (queue fb ! i) = None)"
  using n
proof (induction n)
  case 0
  with half show ?case by (simp add: fl_def)
next
  case (Suc n)
  let ?fb = "fl n" and ?pos = "\<lambda>i. qpos cls (queue fb ! i)"
  have IH: "fb_half rws cls ?fb" "queue ?fb = queue fb" "queue_i ?fb = queue_i fb"
    "\<And>j. j < rws * cls \<Longrightarrow> cell ?fb j = cell fb j" "\<And>i. i < n \<Longrightarrow> qmap ?fb ! ?pos i = None"
    using Suc by auto
  have ok: "fb_ok rws cls ?fb" and n: "n < queue_i ?fb" using IH Suc.prems by (auto simp: fb_half_def)
  have pos: "?pos i < rws * cls" if "i < queue_i fb" for i
    using fb_ok_qpos [OF ok, of i] that by (simp add: IH)
  have next_fl: "fl (Suc n) = flush_item rws cls n ?fb" by (simp add: fl_def for_up_last)
  show ?case
  proof (cases "qmap ?fb ! ?pos n")
    case None
    then have "fl (Suc n) = ?fb" using flush_item_cases [OF ok n] by (simp add: next_fl IH(2))
    with IH None show ?thesis by (auto simp: less_Suc_eq)
  next
    case (Some q)
    then obtain p where p: "fl (Suc n) = (retire (?pos n) n ?fb)\<lparr>pixels := p\<rparr>"
      using flush_item_cases [OF ok n] by (auto simp: next_fl IH(2))
    have "qmap ?fb ! ?pos n = Some n"
      using IH(1) n Some by (auto simp: fb_half_def IH(2))
    then have cells: "cell (retire (?pos n) n ?fb) j = cell ?fb j" if "j < rws * cls" for j
      using that pos [of n] n by (intro retire_cell [OF ok]) (simp_all add: IH)
    have len: "length (qmap ?fb) = rws * cls" using ok by (simp add: fb_ok_def)
    have none: "qmap (retire (?pos n) n ?fb) ! ?pos i = None" if "i < Suc n" for i
      using that IH(5) pos [of i] n len by (auto simp: retire_def nth_upd less_Suc_eq IH(3))
    show ?thesis
      unfolding p using retire_half [OF IH(1)] cells none IH by (simp add: retire_def)
  qed
qed

text \<open>The last part of a flush: the old cursor is erased, the queue is emptied, the callback runs.\<close>

lemma flush_tail:
  "\<exists>p l. call_flush_callback
      ((erase_old_cursor on rws cls fb)\<lparr>old_cursor_x := ox, old_cursor_y := oy, queue_i := 0\<rparr>) =
    fb\<lparr>pixels := p, flush_log := l, old_cursor_x := ox, old_cursor_y := oy, queue_i := 0\<rparr>"
proof -
  have "\<exists>p. erase_old_cursor on rws cls fb = fb\<lparr>pixels := p\<rparr>"
    using call_plot_char_eq [of rws cls] by (auto simp: erase_old_cursor_def intro: exI [of _ "pixels fb"])
  then obtain p where p: "erase_old_cursor on rws cls fb = fb\<lparr>pixels := p\<rparr>" ..
  show ?thesis
    unfolding p
    by (rule exI [of _ p], rule exI [of _ "if flush_callback fb
          then flush_log fb @ [pitch fb * phys_height fb] else flush_log fb"])
      (simp add: call_flush_callback_def)
qed

lemma flush_steps:
  "\<exists>p l. flanterm_fb_double_buffer_flush ctx =
     (let fb1 = (if cursor_enabled ctx then draw_cursor (rows ctx) (cols ctx) (be ctx) else be ctx);
          fb2 = for_up 0 (queue_i fb1) (flush_item (rows ctx) (cols ctx)) fb1
      in fb2\<lparr>pixels := p, flush_log := l, old_cursor_x := cursor_x fb2,
             old_cursor_y := cursor_y fb2, queue_i := 0\<rparr>)"
proof -
  define fb1 where "fb1 = (if cursor_enabled ctx then draw_cursor (rows ctx) (cols ctx) (be ctx) else be ctx)"
  define fb2 where "fb2 = for_up 0 (queue_i fb1) (flush_item (rows ctx) (cols ctx)) fb1"
  let ?e = "erase_old_cursor (cursor_enabled ctx) (rows ctx) (cols ctx) fb2"
  have "\<exists>p. ?e = fb2\<lparr>pixels := p\<rparr>"
    using call_plot_char_eq [of "rows ctx" "cols ctx"]
    by (auto simp: erase_old_cursor_def intro: exI [of _ "pixels fb2"])
  then have "cursor_x ?e = cursor_x fb2" "cursor_y ?e = cursor_y fb2" by auto
  then have "flanterm_fb_double_buffer_flush ctx = call_flush_callback
      (?e\<lparr>old_cursor_x := cursor_x fb2, old_cursor_y := cursor_y fb2, queue_i := 0\<rparr>)"
    unfolding flanterm_fb_double_buffer_flush_def Let_def fb1_def [symmetric] fb2_def [symmetric] by simp
  then show ?thesis
    unfolding Let_def fb1_def [symmetric] fb2_def [symmetric] using flush_tail by metis
qed

text \<open>
  A flush brings the grid up to date: afterwards the queue is empty, no cell has a pending change,
  and the grid holds what the screen showed.
\<close>

lemma flush_grid:
  assumes half: "fb_half (rows ctx) (cols ctx) (be ctx)"
  defines "fb' \<equiv> flanterm_fb_double_buffer_flush ctx"
  shows "fb_sync (rows ctx) (cols ctx) fb'" and "queue_i fb' = 0"
    and "\<And>j. j < rows ctx * cols ctx \<Longrightarrow>
          qmap fb' ! j = None \<and> grid fb' ! j = cell (be ctx) j \<and> cell fb' j = cell (be ctx) j"
proof -
  let ?r = "rows ctx" and ?c = "cols ctx"
  define fb1 where "fb1 = (if cursor_enabled ctx then draw_cursor ?r ?c (be ctx) else be ctx)"
  have half1: "fb_half ?r ?c fb1" and cell1: "\<And>j. j < ?r * ?c \<Longrightarrow> cell fb1 j = cell (be ctx) j"
    using draw_cursor_half [OF half] half by (auto simp: fb1_def)
  define fb2 where "fb2 = for_up 0 (queue_i fb1) (flush_item ?r ?c) fb1"
  have fb2: "fb_half ?r ?c fb2" "queue fb2 = queue fb1" "queue_i fb2 = queue_i fb1"
    "\<And>j. j < ?r * ?c \<Longrightarrow> cell fb2 j = cell fb1 j"
    "\<And>i. i < queue_i fb1 \<Longrightarrow> qmap fb2 ! qpos ?c (queue fb1 ! i) = None"
    using flush_items [OF half1 order.refl] by (auto simp: fb2_def)
  have none: "qmap fb2 ! j = None" if "j < ?r * ?c" for j
  proof (cases "qmap fb2 ! j")
    case (Some q)
    then have "q < queue_i fb2" "qpos ?c (queue fb2 ! q) = j"
      using fb2(1) that by (auto simp: fb_half_def fb_ok_def)
    then show ?thesis using fb2(5) [of q] by (simp add: fb2)
  qed
  have grid: "grid fb2 ! j = cell (be ctx) j" if "j < ?r * ?c" for j
    using none [OF that] fb2(4) [OF that] cell1 [OF that] by (simp add: cell_def)
  obtain p l where fb': "fb' = fb2\<lparr>pixels := p, flush_log := l, old_cursor_x := cursor_x fb2,
      old_cursor_y := cursor_y fb2, queue_i := 0\<rparr>"
    using flush_steps [of ctx] unfolding fb'_def Let_def fb1_def [symmetric] fb2_def [symmetric] by blast
  show "queue_i fb' = 0" by (simp add: fb')
  show "fb_sync ?r ?c fb'"
    using fb2(1) none by (auto simp: fb' fb_half_def fb_sync_def fb_ok_def)
  show "qmap fb' ! j = None \<and> grid fb' ! j = cell (be ctx) j \<and> cell fb' j = cell (be ctx) j"
    if "j < ?r * ?c" for j
    using none [OF that] grid [OF that] by (simp add: fb' cell_def)
qed


section \<open>Lines of the screen\<close>

lemma row_less:
  fixes r c b cls :: nat
  assumes c: "c < cls"
  shows "(r * cls + c < b * cls) = (r < b)"
proof
  assume "r * cls + c < b * cls"
  then have "r * cls < b * cls" by (rule le_less_trans [OF le_add1])
  then show "r < b" by (simp only: mult_less_cancel2)
next
  assume "r < b"
  with c show "r * cls + c < b * cls" by (rule cell_index)
qed

lemma row_le: "c < cls \<Longrightarrow> (a * cls \<le> r * cls + c) = ((a :: nat) \<le> r)"
  using row_less [of c cls r a] by linarith

lemma row_eq: "c < cls \<Longrightarrow> c' < cls \<Longrightarrow> (r * cls + c = r' * cls + c') = (r = r' \<and> c = (c' :: nat))"
proof -
  assume c: "c < cls" "c' < cls"
  show ?thesis
  proof
    assume eq: "r * cls + c = r' * cls + c'"
    have "r = r'"
      using c arg_cong [OF eq, of "\<lambda>n. n div cls"] by simp
    with eq show "r = r' \<and> c = c'" by simp
  qed simp
qed

lemma term_inv_bounds:
  assumes "term_inv ctx"
  shows "0 < cols ctx" "0 < rows ctx" "scroll_top_margin ctx < scroll_bottom_margin ctx"
    "scroll_bottom_margin ctx \<le> rows ctx"
    "sub64 (scroll_bottom_margin ctx) 1 = scroll_bottom_margin ctx - 1"
    "sub64 (rows ctx) 1 = rows ctx - 1" "sub64 (cols ctx) 1 = cols ctx - 1"
    "rows ctx \<le> SIZE_MAX div 2" "cols ctx \<le> SIZE_MAX div 2"
proof -
  have b: "rows ctx \<le> 0x80000000" "cols ctx \<le> 0x80000000" "0 < cols ctx" "0 < rows ctx"
    and m: "scroll_top_margin ctx < scroll_bottom_margin ctx" "scroll_bottom_margin ctx \<le> rows ctx"
    using assms by (simp_all add: term_inv_def margins_ok_def)
  then show "0 < cols ctx" "0 < rows ctx" "scroll_top_margin ctx < scroll_bottom_margin ctx"
    "scroll_bottom_margin ctx \<le> rows ctx" by auto
  show "sub64 (scroll_bottom_margin ctx) 1 = scroll_bottom_margin ctx - 1"
    "sub64 (rows ctx) 1 = rows ctx - 1" "sub64 (cols ctx) 1 = cols ctx - 1"
    using b m by (auto intro!: sub64_le simp: SIZE_MAX_def)
  show "rows ctx \<le> SIZE_MAX div 2" "cols ctx \<le> SIZE_MAX div 2"
    using b by (auto simp: SIZE_MAX_def)
qed

text \<open>The loops of both scroll routines leave the text colours alone.\<close>

lemma for_up_push_empty:
  "empty_char (for_up a b (\<lambda>i fb. push_to_queue rws cls (f i fb) (g i) (h i) fb) fb) = empty_char fb"
  by (rule for_up_measure) simp

lemma fold_push_empty:
  "empty_char (fold (\<lambda>i fb. push_to_queue rws cls (f i fb) (g i) (h i) fb) xs fb) = empty_char fb"
  by (induction xs arbitrary: fb) simp_all

lemma scroll_cursor [simp]:
  "cursor_x (flanterm_fb_scroll ctx) = cursor_x (be ctx)"
  "cursor_y (flanterm_fb_scroll ctx) = cursor_y (be ctx)"
  by (simp_all add: flanterm_fb_scroll_def Let_def for_up_measure [where g = cursor_x]
      for_up_measure [where g = cursor_y])

lemma scroll_screen:
  assumes inv: "term_inv ctx" and sync: "fb_sync (rows ctx) (cols ctx) (be ctx)"
    and rc: "r < rows ctx" "c < cols ctx"
  shows "cell (flanterm_fb_scroll ctx) (r * cols ctx + c) =
    (if scroll_top_margin ctx \<le> r \<and> r + 1 < scroll_bottom_margin ctx
     then cell (be ctx) ((r + 1) * cols ctx + c)
     else if r + 1 = scroll_bottom_margin ctx then empty_char (be ctx)
     else cell (be ctx) (r * cols ctx + c))"
proof -
  let ?r = "rows ctx" and ?c = "cols ctx" and ?t = "scroll_top_margin ctx" and ?b = "scroll_bottom_margin ctx"
  note b = term_inv_bounds [OF inv]
  let ?f = "\<lambda>i fb. push_to_queue ?r ?c (cell fb i) ((i - ?c) mod ?c) ((i - ?c) div ?c) fb"
  define fb1 where "fb1 = for_up ((?t + 1) * ?c) (?b * ?c) ?f (be ctx)"
  have j: "r * ?c + c < ?r * ?c" using rc by (simp add: cell_index)
  have le: "(?t + 1) * ?c \<le> ?b * ?c" "?b * ?c \<le> ?r * ?c"
    using b(3,4) by (intro mult_le_mono1; simp)+
  have copy: "fb_sync ?r ?c fb1 \<and> cell fb1 (r * ?c + c) =
      (if (?t + 1 - 1) * ?c \<le> r * ?c + c \<and> r * ?c + c + ?c < ?b * ?c
       then cell (be ctx) (r * ?c + c + ?c) else cell (be ctx) (r * ?c + c))"
    unfolding fb1_def by (rule scroll_copy [OF sync b(1) j le]) simp
  have empty: "empty_char fb1 = empty_char (be ctx)" unfolding fb1_def by (rule for_up_push_empty)
  have eq: "flanterm_fb_scroll ctx = for_up 0 ?c (\<lambda>i. push_to_queue ?r ?c (empty_char fb1) i (?b - 1)) fb1"
    unfolding flanterm_fb_scroll_def Let_def b(5) fb1_def ..
  have "cell (flanterm_fb_scroll ctx) (r * ?c + c) =
      (if (?b - 1) * ?c \<le> r * ?c + c \<and> r * ?c + c < (?b - 1) * ?c + ?c then empty_char fb1
       else cell fb1 (r * ?c + c))"
    unfolding eq by (rule for_up_push_row) (use copy b j in auto)
  moreover have "(?b - 1) * ?c + ?c = ?b * ?c" using b(3) by (cases ?b) auto
  moreover have next_row: "r * ?c + c + ?c = (r + 1) * ?c + c" by simp
  ultimately show ?thesis
    using copy rc b(3)
    unfolding next_row by (auto simp del: mult_Suc add_Suc_right mult_Suc_right add_mult_distrib
        add_mult_distrib2 One_nat_def Suc_eq_plus1_left simp: row_le row_less empty)
qed

lemma revscroll_screen:
  assumes inv: "term_inv ctx" and sync: "fb_sync (rows ctx) (cols ctx) (be ctx)"
    and small: "rows ctx * cols ctx \<le> SIZE_MAX"
    and rc: "r < rows ctx" "c < cols ctx"
  shows "cell (flanterm_fb_revscroll ctx) (r * cols ctx + c) =
    (if scroll_top_margin ctx < r \<and> r < scroll_bottom_margin ctx
     then cell (be ctx) ((r - 1) * cols ctx + c)
     else if r = scroll_top_margin ctx then empty_char (be ctx)
     else cell (be ctx) (r * cols ctx + c))"
proof -
  let ?r = "rows ctx" and ?c = "cols ctx" and ?t = "scroll_top_margin ctx" and ?b = "scroll_bottom_margin ctx"
  note b = term_inv_bounds [OF inv]
  let ?f = "\<lambda>i fb. push_to_queue ?r ?c (cell fb i) ((i + ?c) mod ?c) ((i + ?c) div ?c) fb"
  have le: "(?b - 1) * ?c \<le> ?r * ?c" "?t * ?c \<le> (?b - 1) * ?c"
    using b(3,4) by (intro mult_le_mono1; simp)+
  have end_i: "mul64 (sub64 ?b 1) ?c = (?b - 1) * ?c"
    unfolding b(5) by (rule mul64_le) (rule order_trans [OF le(1) small])
  have bc: "(?b - 1) * ?c + ?c = ?b * ?c" using b(3) by (cases ?b) auto
  define fb1 where "fb1 = fold ?f (rev [?t * ?c..<(?b - 1) * ?c]) (be ctx)"
  have j: "r * ?c + c < ?r * ?c" using rc by (simp add: cell_index)
  have copy: "fb_sync ?r ?c fb1 \<and> cell fb1 (r * ?c + c) =
      (if ?t * ?c + ?c \<le> r * ?c + c \<and> r * ?c + c < (?b - 1) * ?c + ?c
       then cell (be ctx) (r * ?c + c - ?c) else cell (be ctx) (r * ?c + c))"
    unfolding fb1_def
    by (rule revscroll_copy [OF sync b(1) j _ le(2)]) (use b(4) bc in simp)
  have empty: "empty_char fb1 = empty_char (be ctx)" unfolding fb1_def by (rule fold_push_empty)
  have eq: "flanterm_fb_revscroll ctx = for_up 0 ?c (\<lambda>i. push_to_queue ?r ?c (empty_char fb1) i ?t) fb1"
    unfolding flanterm_fb_revscroll_def Let_def end_i fb1_def ..
  have "cell (flanterm_fb_revscroll ctx) (r * ?c + c) =
      (if ?t * ?c \<le> r * ?c + c \<and> r * ?c + c < ?t * ?c + ?c then empty_char fb1
       else cell fb1 (r * ?c + c))"
    unfolding eq by (rule for_up_push_row) (use copy b j in auto)
  moreover have top: "(?t * ?c + ?c \<le> r * ?c + c) = (?t < r)"
    and top': "(r * ?c + c < ?t * ?c + ?c) = (r \<le> ?t)"
    using row_le [OF rc(2), of "Suc ?t" r] row_less [OF rc(2), of r "Suc ?t"] by (auto simp: ac_simps)
  moreover have "r * ?c + c - ?c = (r - 1) * ?c + c" if "?t < r"
    using that by (cases r) auto
  ultimately show ?thesis
    using copy rc b(3) unfolding bc top top' by (auto simp: row_le row_less empty)
qed

lemma clear_screen:
  assumes inv: "term_inv ctx" and sync: "fb_sync (rows ctx) (cols ctx) (be ctx)" and j: "j < rows ctx * cols ctx"
  shows "cell (flanterm_fb_clear ctx move) j = empty_char (be ctx)"
proof -
  let ?e = "empty_char (be ctx)"
  let ?fb = "for_up 0 (rows ctx * cols ctx)
      (\<lambda>i. push_to_queue (rows ctx) (cols ctx) ?e (i mod cols ctx) (i div cols ctx)) (be ctx)"
  have "cell ?fb j = ?e"
    using for_up_push_all [OF sync j order.refl term_inv_bounds(1) [OF inv]] j by simp
  moreover have "cell (flanterm_fb_clear ctx move) j = cell ?fb j"
    by (simp add: flanterm_fb_clear_def Let_def cell_def split: option.split)
  ultimately show ?thesis by simp
qed


section \<open>The backend keeps its invariant\<close>

text \<open>
  The glyph numbers of the grid and of the queue index the font, which has 256 glyphs.
  \<open>fb_safe\<close> is what memory safety needs; \<open>fb_synced\<close> is what the screen contract needs.
\<close>

definition glyphs_ok :: "fb_context \<Rightarrow> bool" where
  "glyphs_ok fb \<longleftrightarrow> (\<forall>c \<in> set (grid fb). ch_c c < 256) \<and> (\<forall>q \<in> set (queue fb). ch_c (qi_c q) < 256)"

definition fb_safe :: "nat \<Rightarrow> nat \<Rightarrow> fb_context \<Rightarrow> bool" where
  "fb_safe rws cls fb \<longleftrightarrow> fb_ok rws cls fb \<and> glyphs_ok fb"

definition fb_synced :: "nat \<Rightarrow> nat \<Rightarrow> fb_context \<Rightarrow> bool" where
  "fb_synced rws cls fb \<longleftrightarrow> fb_sync rws cls fb \<and> glyphs_ok fb"

lemma glyphs_cell:
  assumes "fb_ok rws cls fb" and "glyphs_ok fb" and "i < rws * cls"
  shows "ch_c (cell fb i) < 256"
proof (cases "qmap fb ! i")
  case None
  with assms show ?thesis by (simp add: cell_def glyphs_ok_def fb_ok_lengths)
next
  case (Some q)
  with assms have "q < length (queue fb)"
    using fb_ok_map [OF assms(1,3) Some] fb_ok_lengths [OF assms(1)] by simp
  with Some assms(2) show ?thesis by (simp add: cell_def glyphs_ok_def)
qed

lemma in_set_updD: "x \<in> set (xs[i := v]) \<Longrightarrow> x = v \<or> x \<in> set xs"
  using set_update_subset_insert [of xs i v] by auto

lemma glyphs_push:
  assumes "glyphs_ok fb" and "ch_c c < 256"
  shows "glyphs_ok (push_to_queue rws cls c x y fb)"
  using assms
  by (auto simp: glyphs_ok_def push_to_queue_def Let_def dest!: in_set_updD split: option.split)

lemma glyphs_retire:
  assumes "glyphs_ok fb" and "j < length (queue fb)"
  shows "glyphs_ok (retire i j fb)"
  using assms by (auto simp: glyphs_ok_def retire_def dest!: in_set_updD)

lemma glyphs_pixels [simp]: "glyphs_ok (fb\<lparr>pixels := p\<rparr>) = glyphs_ok fb"
  by (simp add: glyphs_ok_def)

lemma glyphs_draw_cursor:
  assumes ok: "fb_ok rws cls fb" and g: "glyphs_ok fb"
  shows "glyphs_ok (draw_cursor rws cls fb)"
  using ok
proof (rule draw_cursor_cases)
  fix p j
  assume "draw_cursor rws cls fb = (retire (cursor_x fb + cursor_y fb * cls) j fb)\<lparr>pixels := p\<rparr>"
    "qmap fb ! (cursor_x fb + cursor_y fb * cls) = Some j" "cursor_x fb + cursor_y fb * cls < rws * cls"
  moreover from this have "j < length (queue fb)"
    using fb_ok_map [OF ok] fb_ok_lengths [OF ok] by fastforce
  ultimately show ?thesis using g by (simp add: glyphs_retire)
qed (simp add: g)

text \<open>Flushing from any safe state: every pending change is drawn.\<close>

lemma flush_items_safe:
  assumes safe: "fb_safe rws cls fb" and n: "n \<le> queue_i fb"
  defines "fl \<equiv> \<lambda>n. for_up 0 n (flush_item rws cls) fb"
  shows "fb_safe rws cls (fl n) \<and> queue (fl n) = queue fb \<and> queue_i (fl n) = queue_i fb \<and>
    (\<forall>i < n. qmap (fl n) ! qpos cls (queue fb ! i) = None)"
  using n
proof (induction n)
  case 0
  with safe show ?case by (simp add: fl_def)
next
  case (Suc n)
  let ?fb = "fl n" and ?pos = "\<lambda>i. qpos cls (queue fb ! i)"
  have IH: "fb_safe rws cls ?fb" "queue ?fb = queue fb" "queue_i ?fb = queue_i fb"
    "\<And>i. i < n \<Longrightarrow> qmap ?fb ! ?pos i = None"
    using Suc by auto
  have ok: "fb_ok rws cls ?fb" and g: "glyphs_ok ?fb" and n: "n < queue_i ?fb"
    using IH Suc.prems by (auto simp: fb_safe_def)
  have pos: "?pos i < rws * cls" if "i < queue_i fb" for i
    using fb_ok_qpos [OF ok, of i] that by (simp add: IH)
  have next_fl: "fl (Suc n) = flush_item rws cls n ?fb" by (simp add: fl_def for_up_last)
  show ?case
  proof (cases "qmap ?fb ! ?pos n")
    case None
    then have "fl (Suc n) = ?fb" using flush_item_cases [OF ok n] by (simp add: next_fl IH(2))
    with IH None show ?thesis by (auto simp: less_Suc_eq)
  next
    case (Some q)
    then obtain p where p: "fl (Suc n) = (retire (?pos n) n ?fb)\<lparr>pixels := p\<rparr>"
      using flush_item_cases [OF ok n] by (auto simp: next_fl IH(2))
    have len: "length (qmap ?fb) = rws * cls" "n < length (queue ?fb)"
      using ok n by (auto simp: fb_ok_def)
    have none: "qmap (retire (?pos n) n ?fb) ! ?pos i = None" if "i < Suc n" for i
      using that IH(4) pos [of i] n len by (auto simp: retire_def nth_upd less_Suc_eq IH(3))
    have "fb_safe rws cls (retire (?pos n) n ?fb)"
      using retire_ok [OF ok] glyphs_retire [OF g len(2)] by (simp add: fb_safe_def)
    then show ?thesis
      unfolding p using none IH by (simp add: fb_safe_def retire_def)
  qed
qed

lemma flush_safe:
  assumes safe: "fb_safe (rows ctx) (cols ctx) (be ctx)"
  shows "fb_safe (rows ctx) (cols ctx) (flanterm_fb_double_buffer_flush ctx)"
proof -
  let ?r = "rows ctx" and ?c = "cols ctx"
  define fb1 where "fb1 = (if cursor_enabled ctx then draw_cursor ?r ?c (be ctx) else be ctx)"
  have safe1: "fb_safe ?r ?c fb1"
    using safe draw_cursor_ok glyphs_draw_cursor by (auto simp: fb1_def fb_safe_def)
  define fb2 where "fb2 = for_up 0 (queue_i fb1) (flush_item ?r ?c) fb1"
  have fb2: "fb_safe ?r ?c fb2" "queue fb2 = queue fb1" "queue_i fb2 = queue_i fb1"
    "\<And>i. i < queue_i fb1 \<Longrightarrow> qmap fb2 ! qpos ?c (queue fb1 ! i) = None"
    using flush_items_safe [OF safe1 order.refl] by (auto simp: fb2_def)
  have none: "qmap fb2 ! j \<noteq> Some q" if "j < ?r * ?c" for j q
  proof
    assume "qmap fb2 ! j = Some q"
    with fb2(1) that have "q < queue_i fb2" "qpos ?c (queue fb2 ! q) = j"
      by (auto simp: fb_safe_def fb_ok_def)
    with \<open>qmap fb2 ! j = Some q\<close> show False using fb2(4) [of q] by (simp add: fb2)
  qed
  obtain p l where "flanterm_fb_double_buffer_flush ctx = fb2\<lparr>pixels := p, flush_log := l,
      old_cursor_x := cursor_x fb2, old_cursor_y := cursor_y fb2, queue_i := 0\<rparr>"
    using flush_steps [of ctx] unfolding Let_def fb1_def [symmetric] fb2_def [symmetric] by blast
  with fb2(1) none show ?thesis by (auto simp: fb_safe_def fb_ok_def glyphs_ok_def)
qed

lemma flush_glyphs:
  assumes "fb_synced (rows ctx) (cols ctx) (be ctx)"
  shows "fb_synced (rows ctx) (cols ctx) (flanterm_fb_double_buffer_flush ctx)"
  using flush_safe [of ctx] flush_grid(1) [of ctx] assms
  by (simp add: fb_synced_def fb_safe_def fb_sync_half fb_sync_def)


section \<open>The interface the operations rely on\<close>

text \<open>
  The operations change the queue by \<open>push_to_queue\<close> and flush only, and every other field they
  write is a colour or a cursor coordinate. An invariant with the four laws below is therefore kept
  by all of them, and gives an implementation of \<open>term_backend\<close>.
\<close>

locale queue_invariant =
  fixes I :: "nat \<Rightarrow> nat \<Rightarrow> fb_context \<Rightarrow> bool"
  assumes I_safe: "I rws cls fb \<Longrightarrow> fb_safe rws cls fb"
    and I_push: "I rws cls fb \<Longrightarrow> ch_c c < 256 \<Longrightarrow> I rws cls (push_to_queue rws cls c x y fb)"
    and I_fields: "I rws cls fb \<Longrightarrow> cx \<le> cls \<Longrightarrow> cy < rws \<Longrightarrow> sx \<le> cls \<Longrightarrow> sy < rws \<Longrightarrow>
       I rws cls (fb\<lparr>text_fg := fg, text_bg := bg, cursor_x := cx, cursor_y := cy,
         saved_state_text_fg := sfg, saved_state_text_bg := sbg,
         saved_state_cursor_x := sx, saved_state_cursor_y := sy\<rparr>)"
    and I_flush: "I (rows ctx) (cols ctx) (be ctx) \<Longrightarrow>
       I (rows ctx) (cols ctx) (flanterm_fb_double_buffer_flush ctx)"
begin

lemma I_cursor:
  assumes "I rws cls fb"
  shows "cursor_x fb \<le> cls" "cursor_y fb < rws" "saved_state_cursor_x fb \<le> cls"
    "saved_state_cursor_y fb < rws"
  using I_safe [OF assms] by (simp_all add: fb_safe_def fb_ok_def)

lemma I_colours:
  assumes "I rws cls fb"
  shows "I rws cls (fb\<lparr>text_fg := fg\<rparr>)" and "I rws cls (fb\<lparr>text_bg := bg\<rparr>)"
    and "I rws cls (fb\<lparr>text_fg := fg, text_bg := bg\<rparr>)"
proof -
  note c = I_cursor [OF assms]
  show "I rws cls (fb\<lparr>text_fg := fg\<rparr>)"
    using I_fields [OF assms c, where fg = fg and bg = "text_bg fb" and sfg = "saved_state_text_fg fb"
        and sbg = "saved_state_text_bg fb"] by simp
  show "I rws cls (fb\<lparr>text_bg := bg\<rparr>)"
    using I_fields [OF assms c, where fg = "text_fg fb" and bg = bg and sfg = "saved_state_text_fg fb"
        and sbg = "saved_state_text_bg fb"] by simp
  show "I rws cls (fb\<lparr>text_fg := fg, text_bg := bg\<rparr>)"
    using I_fields [OF assms c, where fg = fg and bg = bg and sfg = "saved_state_text_fg fb"
        and sbg = "saved_state_text_bg fb"] by simp
qed

lemma I_set_cursor:
  assumes "I rws cls fb" and "x \<le> cls" and "y < rws"
  shows "I rws cls (fb\<lparr>cursor_x := x, cursor_y := y\<rparr>)"
  using I_fields [OF assms(1,2,3) I_cursor(3,4) [OF assms(1)],
      where fg = "text_fg fb" and bg = "text_bg fb" and sfg = "saved_state_text_fg fb"
        and sbg = "saved_state_text_bg fb"] by simp

lemma I_set_cursor_x: "I rws cls fb \<Longrightarrow> x \<le> cls \<Longrightarrow> I rws cls (fb\<lparr>cursor_x := x\<rparr>)"
  using I_set_cursor [of rws cls fb x "cursor_y fb"] I_cursor [of rws cls fb] by simp

lemma I_set_cursor_y: "I rws cls fb \<Longrightarrow> y < rws \<Longrightarrow> I rws cls (fb\<lparr>cursor_y := y\<rparr>)"
  using I_set_cursor [of rws cls fb "cursor_x fb" y] I_cursor [of rws cls fb] by simp

lemma I_push_cell: "I rws cls fb \<Longrightarrow> i < rws * cls \<Longrightarrow> I rws cls (push_to_queue rws cls (cell fb i) x y fb)"
  using I_safe [of rws cls fb] glyphs_cell [of rws cls fb i] by (simp add: I_push fb_safe_def)

lemma empty_glyph: "ch_c (empty_char fb) < 256"
  by (simp add: empty_char_def)

lemma I_empty_line:
  "I rws cls fb \<Longrightarrow> I rws cls (for_up 0 n (\<lambda>i. push_to_queue rws cls (empty_char fb0) i y) fb)"
  by (rule for_up_inv) (simp_all add: I_push empty_glyph)

lemma I_scroll:
  assumes inv: "term_inv ctx" and I: "I (rows ctx) (cols ctx) (be ctx)"
  shows "I (rows ctx) (cols ctx) (flanterm_fb_scroll ctx)"
proof -
  have "scroll_bottom_margin ctx * cols ctx \<le> rows ctx * cols ctx"
    using term_inv_bounds(4) [OF inv] by (rule mult_le_mono1)
  then have "i < rows ctx * cols ctx" if "i < scroll_bottom_margin ctx * cols ctx" for i
    using that by (rule order_less_le_trans [rotated])
  then show ?thesis
    unfolding flanterm_fb_scroll_def Let_def
    by (intro I_empty_line, intro for_up_inv [where P = "I (rows ctx) (cols ctx)"] I) (auto intro: I_push_cell)
qed

lemma I_revscroll:
  assumes inv: "term_inv ctx" and I: "I (rows ctx) (cols ctx) (be ctx)"
  shows "I (rows ctx) (cols ctx) (flanterm_fb_revscroll ctx)"
proof -
  note b = term_inv_bounds [OF inv]
  have "mul64 (scroll_bottom_margin ctx - 1) (cols ctx) \<le> (scroll_bottom_margin ctx - 1) * cols ctx"
    unfolding mul64_def by (rule mod_less_eq_dividend)
  also have "\<dots> \<le> rows ctx * cols ctx"
    using b(4) by (intro mult_le_mono1) simp
  finally have "mul64 (sub64 (scroll_bottom_margin ctx) 1) (cols ctx) \<le> rows ctx * cols ctx"
    by (simp only: b(5))
  then show ?thesis
    unfolding flanterm_fb_revscroll_def Let_def
    by (intro I_empty_line, intro fold_inv [where P = "I (rows ctx) (cols ctx)"] I) (auto intro: I_push_cell)
qed

lemma I_clear:
  assumes "term_inv ctx" and I: "I (rows ctx) (cols ctx) (be ctx)"
  shows "I (rows ctx) (cols ctx) (flanterm_fb_clear ctx move)"
proof -
  have "I (rows ctx) (cols ctx) (for_up 0 (rows ctx * cols ctx) (\<lambda>i. push_to_queue (rows ctx) (cols ctx)
      (empty_char (be ctx)) (i mod cols ctx) (i div cols ctx)) (be ctx))"
    by (rule for_up_inv) (auto intro!: I_push I empty_glyph)
  then show ?thesis
    using term_inv_bounds(2) [OF assms(1)]
    by (auto simp: flanterm_fb_clear_def Let_def intro: I_set_cursor)
qed

lemma clamp_coord_less: "0 < n \<Longrightarrow> n \<le> SIZE_MAX div 2 \<Longrightarrow> clamp_coord x n < n"
  using sub64_le [of 1 n] by (auto simp: clamp_coord_def SIZE_MAX_def)

lemma I_set_cursor_pos:
  assumes "term_inv ctx" and "I (rows ctx) (cols ctx) (be ctx)"
  shows "I (rows ctx) (cols ctx) (flanterm_fb_set_cursor_pos ctx x y)"
proof -
  note b = term_inv_bounds [OF assms(1)]
  show ?thesis
    unfolding flanterm_fb_set_cursor_pos_def
    using clamp_coord_less [OF b(1,9)] clamp_coord_less [OF b(2,8)] assms(2)
    by (intro I_set_cursor) (simp_all add: less_imp_le)
qed

lemma glyph_u8: "ch_c \<lparr>ch_c = ucast (c :: u8), ch_fg = fg, ch_bg = bg\<rparr> < 256"
  using unsigned_less [of c, where 'a = nat] by (simp add: word_less_nat_alt unsigned_ucast_eq take_bit_nat_def)

lemma I_raw_putchar_wrap:
  assumes inv: "term_inv ctx" and I: "I (rows ctx) (cols ctx) (be ctx)"
  shows "I (rows ctx) (cols ctx) (raw_putchar_wrap ctx) \<and> cursor_x (raw_putchar_wrap ctx) < cols ctx"
proof -
  note b = term_inv_bounds [OF inv]
  have set: "I (rows ctx) (cols ctx) ((be ctx)\<lparr>cursor_x := x, cursor_y := y\<rparr>)"
    if "x < cols ctx" "y < rows ctx" for x y
    using that by (intro I_set_cursor I) auto
  have scr: "I (rows ctx) (cols ctx) (flanterm_fb_scroll (ctx\<lparr>be := (be ctx)\<lparr>cursor_x := 0, cursor_y := y\<rparr>\<rparr>))"
    if "y < rows ctx" for y
    using I_scroll [of "ctx\<lparr>be := (be ctx)\<lparr>cursor_x := 0, cursor_y := y\<rparr>\<rparr>"] inv set [OF b(1) that] by simp
  show ?thesis
    using set [of "cols ctx - 1"] set [OF b(1)] scr b(1,2,6,7) I_cursor(2) [OF I] I
      I_set_cursor_x [OF I, of "cols ctx - 1"]
    by (auto simp: raw_putchar_wrap_def Let_def scroll_cursor not_le)
qed

lemma I_raw_putchar:
  assumes inv: "term_inv ctx" and I: "I (rows ctx) (cols ctx) (be ctx)"
  shows "I (rows ctx) (cols ctx) (flanterm_fb_raw_putchar ctx c)"
  unfolding flanterm_fb_raw_putchar_def Let_def
  using I_raw_putchar_wrap [OF assms] by (intro I_push I_set_cursor_x glyph_u8) auto

lemma I_set_text:
  assumes "I (rows ctx) (cols ctx) (be ctx)"
  shows "I (rows ctx) (cols ctx) (flanterm_fb_set_text_fg ctx n)"
    "I (rows ctx) (cols ctx) (flanterm_fb_set_text_bg ctx n)"
    "I (rows ctx) (cols ctx) (flanterm_fb_set_text_fg_bright ctx n)"
    "I (rows ctx) (cols ctx) (flanterm_fb_set_text_bg_bright ctx n)"
    "I (rows ctx) (cols ctx) (flanterm_fb_set_text_fg_rgb ctx rgb)"
    "I (rows ctx) (cols ctx) (flanterm_fb_set_text_bg_rgb ctx rgb)"
    "I (rows ctx) (cols ctx) (flanterm_fb_set_text_fg_default ctx)"
    "I (rows ctx) (cols ctx) (flanterm_fb_set_text_bg_default ctx)"
    "I (rows ctx) (cols ctx) (flanterm_fb_set_text_fg_default_bright ctx)"
    "I (rows ctx) (cols ctx) (flanterm_fb_set_text_bg_default_bright ctx)"
    "I (rows ctx) (cols ctx) (flanterm_fb_swap_palette ctx)"
  using assms
  by (simp_all add: flanterm_fb_set_text_fg_def flanterm_fb_set_text_bg_def
      flanterm_fb_set_text_fg_bright_def flanterm_fb_set_text_bg_bright_def
      flanterm_fb_set_text_fg_rgb_def flanterm_fb_set_text_bg_rgb_def
      flanterm_fb_set_text_fg_default_def flanterm_fb_set_text_bg_default_def
      flanterm_fb_set_text_fg_default_bright_def flanterm_fb_set_text_bg_default_bright_def
      flanterm_fb_swap_palette_def Let_def I_colours)

lemma I_saved_state:
  assumes I: "I (rows ctx) (cols ctx) (be ctx)"
  shows "I (rows ctx) (cols ctx) (flanterm_fb_save_state ctx)"
    and "I (rows ctx) (cols ctx) (flanterm_fb_restore_state ctx)"
proof -
  note c = I_cursor [OF I]
  show "I (rows ctx) (cols ctx) (flanterm_fb_save_state ctx)"
    unfolding flanterm_fb_save_state_def Let_def
    using I_fields [OF I c(1,2,1,2), where fg = "text_fg (be ctx)" and bg = "text_bg (be ctx)"
        and sfg = "text_fg (be ctx)" and sbg = "text_bg (be ctx)"] by simp
  show "I (rows ctx) (cols ctx) (flanterm_fb_restore_state ctx)"
    unfolding flanterm_fb_restore_state_def Let_def
    using I_fields [OF I c(3,4,3,4), where fg = "saved_state_text_fg (be ctx)"
        and bg = "saved_state_text_bg (be ctx)" and sfg = "saved_state_text_fg (be ctx)"
        and sbg = "saved_state_text_bg (be ctx)"] by simp
qed

lemma I_move_character:
  assumes "I (rows ctx) (cols ctx) (be ctx)"
  shows "I (rows ctx) (cols ctx) (flanterm_fb_move_character ctx nx ny ox oy)"
  using assms cell_index [of ox "cols ctx" oy "rows ctx"]
  by (auto simp: flanterm_fb_move_character_def Let_def add.commute not_le intro!: I_push_cell)

lemma fb_cursor_in_screen:
  assumes "term_inv ctx" and "flanterm_fb_get_cursor_pos ctx = (x, y)"
  shows "x < cols ctx \<and> y < rows ctx"
  using assms(2) term_inv_bounds [OF assms(1)]
  by (auto simp: flanterm_fb_get_cursor_pos_def Let_def split: if_splits)

end

sublocale queue_invariant \<subseteq> tb: term_backend fb_ops I
  by unfold_locales
    (auto simp: fb_ops_def fb_cursor_in_screen I_raw_putchar I_clear I_set_cursor_pos I_set_text
      I_move_character I_scroll I_revscroll I_saved_state I_flush)

interpretation safe: queue_invariant fb_safe
proof
  show "fb_safe rws cls (push_to_queue rws cls c x y fb)"
    if "fb_safe rws cls fb" "ch_c c < 256" for rws cls fb c x y
    using that by (simp add: fb_safe_def push_ok glyphs_push)
  show "fb_safe (rows ctx) (cols ctx) (flanterm_fb_double_buffer_flush ctx)"
    if "fb_safe (rows ctx) (cols ctx) (be ctx)" for ctx
    using that by (rule flush_safe)
qed (auto simp: fb_safe_def fb_ok_def glyphs_ok_def)

interpretation synced: queue_invariant fb_synced
proof
  show "fb_synced rws cls (push_to_queue rws cls c x y fb)"
    if "fb_synced rws cls fb" "ch_c c < 256" for rws cls fb c x y
    using that by (simp add: fb_synced_def push_sync glyphs_push)
  show "fb_synced (rows ctx) (cols ctx) (flanterm_fb_double_buffer_flush ctx)"
    if "fb_synced (rows ctx) (cols ctx) (be ctx)" for ctx
    using that by (rule flush_glyphs)
qed (auto simp: fb_synced_def fb_safe_def fb_sync_def fb_ok_def glyphs_ok_def)

end
