(* ===== verification/Flanterm_Init.thy ===== *)
theory Flanterm_Init
  imports Flanterm_Screen Flanterm_Font "HOL-Library.Multiset"
begin

text \<open>
  Construction and destruction of the framebuffer terminal: \<open>bump_alloc\<close>, \<open>flanterm_fb_init\<close> and
  \<open>flanterm_fb_deinit\<close> of \<^verbatim>\<open>fb.c\<close>.

  \<open>fb_world\<close> holds the static variables of the file and a log of the calls made through the
  client's \<open>_malloc\<close> and \<open>_free\<close>. The client's allocator is code outside the sources: a function of
  the history of calls and of the size. A block is its address and size; \<open>fb_blocks\<close> holds the
  pointers of the context that \<open>_free\<close> receives. The sizes of the C types are those of the x86-64
  ABI the kernel is built for. Division by a zero glyph size, undefined in C, is excluded by the
  hypotheses of the lemmas.
\<close>

section \<open>Allocation\<close>

definition FLANTERM_FB_FONT_GLYPHS :: nat where "FLANTERM_FB_FONT_GLYPHS = 256"
definition FLANTERM_FB_BUMP_ALLOC_POOL_SIZE :: nat where "FLANTERM_FB_BUMP_ALLOC_POOL_SIZE = 873000"
definition FLANTERM_FB_WIDTH_LIMIT :: nat where "FLANTERM_FB_WIDTH_LIMIT = 1920"
definition FLANTERM_FB_HEIGHT_LIMIT :: nat where "FLANTERM_FB_HEIGHT_LIMIT = 1200"

text \<open>Sizes of \<^verbatim>\<open>struct flanterm_fb_context\<close>, \<^verbatim>\<open>struct flanterm_fb_char\<close>, the queue item and a pointer.\<close>

definition sizeof_fb_context :: nat where "sizeof_fb_context = 1112"
definition sizeof_fb_char :: nat where "sizeof_fb_char = 12"
definition sizeof_fb_queue_item :: nat where "sizeof_fb_queue_item = 32"
definition sizeof_ptr :: nat where "sizeof_ptr = 8"

datatype heap_event = Alloc nat nat | Alloc_failed nat | Free nat nat

record fb_world =
  bump_alloc_pool :: nat
  bump_alloc_ptr :: nat
  bump_alloc_base_offset_added :: bool
  bump_allocated_instance :: bool
  heap_log :: "heap_event list"

text \<open>The value of \<open>_malloc\<close>: the file's own allocator or a client's.\<close>

datatype malloc_fn = Bump_alloc | Client_malloc "heap_event list \<Rightarrow> nat \<Rightarrow> nat option"

definition bump_align_base :: "fb_world \<Rightarrow> fb_world" where
  "bump_align_base w =
     (if bump_alloc_base_offset_added w then w
      else
        let w = (if bump_alloc_pool w mod 16 \<noteq> 0
                 then w\<lparr>bump_alloc_ptr := add64 (bump_alloc_ptr w) (16 - bump_alloc_pool w mod 16)\<rparr>
                 else w)
        in w\<lparr>bump_alloc_base_offset_added := True\<rparr>)"

definition round16 :: "nat \<Rightarrow> nat" where
  "round16 s = (if s mod 16 \<noteq> 0 then add64 s 16 div 16 * 16 else s)"

definition bump_alloc :: "nat \<Rightarrow> fb_world \<Rightarrow> nat option \<times> fb_world" where
  "bump_alloc s w =
     (let w = bump_align_base w;
          next_ptr = add64 (bump_alloc_ptr w) (round16 s)
      in if next_ptr > FLANTERM_FB_BUMP_ALLOC_POOL_SIZE then (None, w)
         else (Some (bump_alloc_pool w + bump_alloc_ptr w), w\<lparr>bump_alloc_ptr := next_ptr\<rparr>))"

definition call_malloc :: "malloc_fn \<Rightarrow> nat \<Rightarrow> fb_world \<Rightarrow> nat option \<times> fb_world" where
  "call_malloc m s w =
     (case m of
        Bump_alloc \<Rightarrow> bump_alloc s w
      | Client_malloc f \<Rightarrow>
          (case f (heap_log w) s of
             None \<Rightarrow> (None, w\<lparr>heap_log := heap_log w @ [Alloc_failed s]\<rparr>)
           | Some p \<Rightarrow> (Some p, w\<lparr>heap_log := heap_log w @ [Alloc p s]\<rparr>)))"

record fb_blocks =
  blk_ctx :: "(nat \<times> nat) option"
  blk_font_bits :: "(nat \<times> nat) option"
  blk_font_bool :: "(nat \<times> nat) option"
  blk_grid :: "(nat \<times> nat) option"
  blk_queue :: "(nat \<times> nat) option"
  blk_map :: "(nat \<times> nat) option"
  blk_canvas :: "(nat \<times> nat) option"

definition no_blocks :: fb_blocks where
  "no_blocks = \<lparr>blk_ctx = None, blk_font_bits = None, blk_font_bool = None, blk_grid = None,
     blk_queue = None, blk_map = None, blk_canvas = None\<rparr>"

text \<open>A call of \<open>_free\<close> on a pointer of the context, skipped when the pointer is null.\<close>

definition free_block :: "(nat \<times> nat) option \<Rightarrow> fb_world \<Rightarrow> fb_world" where
  "free_block b w =
     (case b of None \<Rightarrow> w | Some (p, s) \<Rightarrow> w\<lparr>heap_log := heap_log w @ [Free p s]\<rparr>)"

definition bump_reset :: "fb_world \<Rightarrow> fb_world" where
  "bump_reset w = w\<lparr>bump_alloc_ptr := 0, bump_alloc_base_offset_added := False\<rparr>"

definition flanterm_fb_deinit :: "bool \<Rightarrow> fb_blocks \<Rightarrow> fb_world \<Rightarrow> fb_world" where
  "flanterm_fb_deinit has_free b w =
     (if \<not> has_free then
        (if bump_allocated_instance w then (bump_reset w)\<lparr>bump_allocated_instance := False\<rparr> else w)
      else
        let w = free_block (blk_font_bits b) w;
            w = free_block (blk_font_bool b) w;
            w = free_block (blk_grid b) w;
            w = free_block (blk_queue b) w;
            w = free_block (blk_map b) w;
            w = free_block (blk_canvas b) w
        in free_block (blk_ctx b) w)"

text \<open>\<open>flanterm_deinit\<close> calls the backend's \<open>deinit\<close>, which \<open>flanterm_fb_init\<close> sets to the function above.\<close>

definition flanterm_deinit :: "bool \<Rightarrow> fb_blocks \<Rightarrow> fb_world \<Rightarrow> fb_world" where
  "flanterm_deinit = flanterm_fb_deinit"

section \<open>Initialisation\<close>

text \<open>The parameters of \<open>flanterm_fb_init\<close>; a null pointer is \<open>None\<close>.\<close>

record fb_args =
  a_malloc :: "(heap_event list \<Rightarrow> nat \<Rightarrow> nat option) option"
  a_free :: bool
  a_framebuffer :: nat
  a_pixels :: "int \<Rightarrow> u32"
  a_width :: nat
  a_height :: nat
  a_pitch :: nat
  a_red_mask_size :: u8
  a_red_mask_shift :: u8
  a_green_mask_size :: u8
  a_green_mask_shift :: u8
  a_blue_mask_size :: u8
  a_blue_mask_shift :: u8
  a_canvas :: "u32 list option"
  a_ansi_colours :: "u32 list option"
  a_ansi_bright_colours :: "u32 list option"
  a_default_bg :: "u32 option"
  a_default_fg :: "u32 option"
  a_default_bg_bright :: "u32 option"
  a_default_fg_bright :: "u32 option"
  a_font :: "u8 list option"
  a_font_width :: nat
  a_font_height :: nat
  a_font_spacing :: nat
  a_font_scale_x :: nat
  a_font_scale_y :: nat
  a_margin :: nat
  a_rotation :: int

definition sideways :: "int \<Rightarrow> bool" where
  "sideways rot \<longleftrightarrow> rot = FLANTERM_FB_ROTATE_90 \<or> rot = FLANTERM_FB_ROTATE_270"

definition init_scale :: "nat \<Rightarrow> nat \<Rightarrow> nat \<Rightarrow> nat \<Rightarrow> nat \<times> nat" where
  "init_scale w h sx sy =
     (if sx = 0 \<or> sy = 0 then
        (let s = (1, 1);
             s = (if w \<ge> 1920 + 1920 div 3 \<and> h \<ge> 1080 + 1080 div 3 then (2, 2) else s)
         in if w \<ge> 3840 + 3840 div 3 \<and> h \<ge> 2160 + 2160 div 3 then (4, 4) else s)
      else (sx, sy))"

text \<open>
  The size limit of a bump-allocated terminal: the new size, the physical height and the byte
  offset of the centred area.
\<close>

definition init_limit :: "int \<Rightarrow> nat \<Rightarrow> nat \<Rightarrow> nat \<Rightarrow> nat \<Rightarrow> nat \<times> nat \<times> nat \<times> nat" where
  "init_limit rot w h ph ptch =
     (if w > FLANTERM_FB_WIDTH_LIMIT \<or> h > FLANTERM_FB_HEIGHT_LIMIT then
        (let wl = (if w > FLANTERM_FB_WIDTH_LIMIT then FLANTERM_FB_WIDTH_LIMIT else w);
             hl = (if h > FLANTERM_FB_HEIGHT_LIMIT then FLANTERM_FB_HEIGHT_LIMIT else h);
             off = (if sideways rot
                    then (h div 2 - hl div 2) * 4 + (w div 2 - wl div 2) * ptch
                    else (h div 2 - hl div 2) * ptch + (w div 2 - wl div 2) * 4)
         in (wl, hl, if sideways rot then wl else hl, off))
      else (w, h, ph, 0))"

text \<open>The context after \<^verbatim>\<open>memset\<close> to zero.\<close>

definition zero_fb :: fb_context where
  "zero_fb = \<lparr>plot_char = Unscaled_uncanvas, flush_callback = False, flush_log = [],
     font_width = 0, font_height = 0, glyph_width = 0, glyph_height = 0,
     font_scale_x = 0, font_scale_y = 0, offset_x = 0, offset_y = 0,
     framebuffer = 0, pixels = (\<lambda>_. 0), pitch = 0, width = 0, height = 0, phys_height = 0,
     red_mask_size = 0, red_mask_shift = 0, green_mask_size = 0, green_mask_shift = 0,
     blue_mask_size = 0, blue_mask_shift = 0, rotation = 0,
     font_bits_size = 0, font_bits = [], font_bool_size = 0, font_bool = [],
     ansi_colours = replicate 8 0, ansi_bright_colours = replicate 8 0,
     default_fg = 0, default_bg = 0, default_fg_bright = 0, default_bg_bright = 0,
     canvas_size = 0, canvas = None, grid_size = 0, queue_size = 0, map_size = 0,
     grid = [], queue = [], queue_i = 0, qmap = [],
     text_fg = 0, text_bg = 0, cursor_x = 0, cursor_y = 0,
     saved_state_text_fg = 0, saved_state_text_bg = 0,
     saved_state_cursor_x = 0, saved_state_cursor_y = 0, old_cursor_x = 0, old_cursor_y = 0\<rparr>"

definition zero_context :: "nat \<Rightarrow> nat \<Rightarrow> 'b \<Rightarrow> 'b flanterm_context" where
  "zero_context rws cls b = \<lparr>tab_size = 0, autoflush = False, cursor_enabled = False,
     scroll_enabled = False, wrap_enabled = False, origin_mode = False, control_sequence = False,
     escape = False, osc = False, osc_escape = False, osc_buf_i = 0,
     osc_buf = replicate FLANTERM_OSC_BUF 0, rrr = False, discard_next = False, bold = False,
     bg_bold = False, reverse_video = False, dec_private = False, insert_mode = False,
     csi_unhandled = False, code_point = 0, unicode_remaining = 0, g_select = 0,
     charsets = [0, 0], current_charset = 0, escape_offset = 0, esc_values_i = 0,
     saved_cursor_x = 0, saved_cursor_y = 0, current_primary = 0, current_bg = 0,
     scroll_top_margin = 0, scroll_bottom_margin = 0,
     esc_values = replicate FLANTERM_MAX_ESC_VALUES 0, last_printed_char = 0,
     last_was_graphic = False, saved_state_bold = False, saved_state_bg_bold = False,
     saved_state_reverse_video = False, saved_state_origin_mode = False,
     saved_state_wrap_enabled = False, saved_state_current_charset = 0,
     saved_state_charsets = [0, 0], saved_state_current_primary = 0, saved_state_current_bg = 0,
     saved_state_scroll_top_margin = 0, saved_state_scroll_bottom_margin = 0,
     rows = rws, cols = cls, be = b\<rparr>"

definition init_masks :: "fb_args \<Rightarrow> fb_context \<Rightarrow> fb_context" where
  "init_masks a fb = fb\<lparr>
     red_mask_size := a_red_mask_size a,
     red_mask_shift := a_red_mask_shift a + (a_red_mask_size a - 8),
     green_mask_size := a_green_mask_size a,
     green_mask_shift := a_green_mask_shift a + (a_green_mask_size a - 8),
     blue_mask_size := a_blue_mask_size a,
     blue_mask_shift := a_blue_mask_shift a + (a_blue_mask_size a - 8)\<rparr>"

definition init_colours :: "fb_args \<Rightarrow> fb_context \<Rightarrow> fb_context" where
  "init_colours a fb =
     (let conv = convert_colour fb;
          fb = fb\<lparr>ansi_colours := (case a_ansi_colours a of
                    Some cs \<Rightarrow> map (\<lambda>i. conv (cs ! i)) [0..<8]
                  | None \<Rightarrow> map conv [0x00000000, 0x00aa0000, 0x0000aa00, 0x00aa5500,
                                      0x000000aa, 0x00aa00aa, 0x0000aaaa, 0x00aaaaaa]),
                  ansi_bright_colours := (case a_ansi_bright_colours a of
                    Some cs \<Rightarrow> map (\<lambda>i. conv (cs ! i)) [0..<8]
                  | None \<Rightarrow> map conv [0x00555555, 0x00ff5555, 0x0055ff55, 0x00ffff55,
                                      0x005555ff, 0x00ff55ff, 0x0055ffff, 0x00ffffff]),
                  default_bg := (case a_default_bg a of Some c \<Rightarrow> conv c | None \<Rightarrow> 0),
                  default_fg := (case a_default_fg a of Some c \<Rightarrow> conv c | None \<Rightarrow> conv 0x00aaaaaa),
                  default_bg_bright :=
                    (case a_default_bg_bright a of Some c \<Rightarrow> conv c | None \<Rightarrow> conv 0x00555555),
                  default_fg_bright :=
                    (case a_default_fg_bright a of Some c \<Rightarrow> conv c | None \<Rightarrow> conv 0x00ffffff)\<rparr>
      in fb\<lparr>text_fg := default_fg fb, text_bg := 0xffffffff,
            saved_state_text_fg := default_fg fb, saved_state_text_bg := 0xffffffff\<rparr>)"

text \<open>The font's dots as booleans: \<open>font_offset\<close> is the index that the two inner loops compute.\<close>

definition font_offset :: "nat \<Rightarrow> nat \<Rightarrow> nat \<Rightarrow> nat \<Rightarrow> nat \<Rightarrow> nat" where
  "font_offset fh fw i y x = i * fh * fw + y * fw + x"

definition font_dot :: "u8 list \<Rightarrow> nat \<Rightarrow> nat \<Rightarrow> nat \<Rightarrow> nat \<Rightarrow> bool" where
  "font_dot bits fh i y x =
     (if x < 8 then bits ! (i * fh + y) AND drop_bit x 0x80 \<noteq> 0
      else i \<ge> 0xc0 \<and> i \<le> 0xdf \<and> bits ! (i * fh + y) AND 1 \<noteq> 0)"

definition fill_font :: "u8 list \<Rightarrow> nat \<Rightarrow> nat \<Rightarrow> bool list \<Rightarrow> bool list" where
  "fill_font bits fh fw =
     for_up 0 FLANTERM_FB_FONT_GLYPHS
       (\<lambda>i. for_up 0 fh
         (\<lambda>y bs.
           let bs = for_up 0 8 (\<lambda>x bs. bs[font_offset fh fw i y x := font_dot bits fh i y x]) bs
           in for_up 8 fw (\<lambda>x bs. bs[font_offset fh fw i y x := font_dot bits fh i y x]) bs))"

definition init_geometry :: "nat \<Rightarrow> nat \<Rightarrow> nat \<Rightarrow> nat \<Rightarrow> fb_context \<Rightarrow> fb_context" where
  "init_geometry fh sx sy margin fb =
     (let gw = font_width fb * sx;
          gh = fh * sy;
          aw = sub64 (width fb) (mul64 margin 2);
          ah = sub64 (height fb) (mul64 margin 2)
      in fb\<lparr>font_scale_x := sx, font_scale_y := sy, glyph_width := gw, glyph_height := gh,
            offset_x := add64 margin ((aw mod gw) div 2),
            offset_y := add64 margin ((ah mod gh) div 2)\<rparr>)"

definition init_rows :: "nat \<Rightarrow> fb_context \<Rightarrow> nat" where
  "init_rows margin fb = sub64 (height fb) (mul64 margin 2) div glyph_height fb"

definition init_cols :: "nat \<Rightarrow> fb_context \<Rightarrow> nat" where
  "init_cols margin fb = sub64 (width fb) (mul64 margin 2) div glyph_width fb"

definition init_plot_char :: "nat \<Rightarrow> nat \<Rightarrow> bool \<Rightarrow> plot_fn" where
  "init_plot_char sx sy cv =
     (if sx = 1 \<and> sy = 1 then (if \<not> cv then Unscaled_uncanvas else Unscaled_canvas)
      else (if \<not> cv then Scaled_uncanvas else Scaled_canvas))"

definition init_buffers :: "nat \<Rightarrow> nat \<Rightarrow> u32 list option \<Rightarrow> fb_context \<Rightarrow> fb_context" where
  "init_buffers rws cls cv fb =
     fb\<lparr>grid_size := rws * cls * sizeof_fb_char,
        grid := replicate (rws * cls)
          \<lparr>ch_c = ucast (byte CHR '' ''), ch_fg = text_fg fb, ch_bg = text_bg fb\<rparr>,
        queue_size := rws * cls * sizeof_fb_queue_item,
        queue_i := 0,
        queue := replicate (rws * cls) \<lparr>qi_x = 0, qi_y = 0, qi_c = \<lparr>ch_c = 0, ch_fg = 0, ch_bg = 0\<rparr>\<rparr>,
        map_size := rws * cls * sizeof_ptr,
        qmap := replicate (rws * cls) None,
        canvas_size := (if cv = None then 0 else width fb * height fb * 4),
        canvas := map_option (\<lambda>cs. map (\<lambda>i. convert_colour fb (cs ! i)) [0..<width fb * height fb]) cv\<rparr>"

text \<open>One allocation of the sequence: \<open>Inl\<close> is the jump to \<open>fail\<close>.\<close>

definition alloc_step :: "malloc_fn \<Rightarrow> nat \<Rightarrow> ((nat \<times> nat) \<Rightarrow> fb_blocks \<Rightarrow> fb_blocks) \<Rightarrow>
    fb_blocks \<times> fb_world \<Rightarrow> (fb_blocks \<times> fb_world) + (fb_blocks \<times> fb_world)" where
  "alloc_step m s put = (\<lambda>(b, w).
     case call_malloc m s w of
       (None, w) \<Rightarrow> Inl (b, w)
     | (Some p, w) \<Rightarrow> Inr (put (p, s) b, w))"

fun alloc_all :: "malloc_fn \<Rightarrow> (nat \<times> ((nat \<times> nat) \<Rightarrow> fb_blocks \<Rightarrow> fb_blocks)) list \<Rightarrow>
    fb_blocks \<times> fb_world \<Rightarrow> (fb_blocks \<times> fb_world) + (fb_blocks \<times> fb_world)" where
  "alloc_all m [] s = Inr s"
| "alloc_all m ((n, put) # xs) s =
     (case alloc_step m n put s of Inl s \<Rightarrow> Inl s | Inr s \<Rightarrow> alloc_all m xs s)"

text \<open>The blocks in the order the function requests them.\<close>

definition init_requests :: "fb_context \<Rightarrow>
    (nat \<times> ((nat \<times> nat) \<Rightarrow> fb_blocks \<Rightarrow> fb_blocks)) list" where
  "init_requests fb =
     [(sizeof_fb_context, \<lambda>p b. b\<lparr>blk_ctx := Some p\<rparr>),
      (font_bits_size fb, \<lambda>p b. b\<lparr>blk_font_bits := Some p\<rparr>),
      (font_bool_size fb, \<lambda>p b. b\<lparr>blk_font_bool := Some p\<rparr>),
      (grid_size fb, \<lambda>p b. b\<lparr>blk_grid := Some p\<rparr>),
      (queue_size fb, \<lambda>p b. b\<lparr>blk_queue := Some p\<rparr>),
      (map_size fb, \<lambda>p b. b\<lparr>blk_map := Some p\<rparr>)] @
     (if canvas fb = None then [] else [(canvas_size fb, \<lambda>p b. b\<lparr>blk_canvas := Some p\<rparr>)])"

definition init_fail :: "malloc_fn \<Rightarrow> bool \<Rightarrow> fb_blocks \<Rightarrow> fb_world \<Rightarrow> fb_world" where
  "init_fail m has_free b w =
     (if blk_ctx b = None then w
      else case m of
        Bump_alloc \<Rightarrow> bump_reset w
      | Client_malloc _ \<Rightarrow>
        if \<not> has_free then w
        else
        let w = free_block (blk_canvas b) w;
            w = free_block (blk_map b) w;
            w = free_block (blk_queue b) w;
            w = free_block (blk_grid b) w;
            w = free_block (blk_font_bool b) w;
            w = free_block (blk_font_bits b) w
        in free_block (blk_ctx b) w)"

definition init_font :: "fb_args \<Rightarrow> fb_context \<Rightarrow> fb_context" where
  "init_font a fb =
     (let (bits, fw, fh, spacing) =
            (case a_font a of
               Some f \<Rightarrow> (take (a_font_height a * FLANTERM_FB_FONT_GLYPHS) f,
                          a_font_width a, a_font_height a, a_font_spacing a)
             | None \<Rightarrow> (builtin_font, 8, 16, 1));
          fw = fw + spacing;
          size = FLANTERM_FB_FONT_GLYPHS * fh * fw
      in fb\<lparr>font_width := fw, font_height := fh,
            font_bits_size := fh * FLANTERM_FB_FONT_GLYPHS, font_bits := bits,
            font_bool_size := size,
            font_bool := fill_font bits fh fw (replicate size False)\<rparr>)"

text \<open>The context the function builds once its size, scale and canvas are settled.\<close>

definition init_context :: "fb_args \<Rightarrow> nat \<Rightarrow> nat \<Rightarrow> nat \<Rightarrow> nat \<Rightarrow> nat \<Rightarrow> nat \<Rightarrow> u32 list option \<Rightarrow> fb_term" where
  "init_context a w h ph off sx sy cv =
     (let fb = init_colours a (init_masks a zero_fb);
          fb = fb\<lparr>rotation := a_rotation a, framebuffer := a_framebuffer a + off,
                  pixels := (\<lambda>i. a_pixels a (i + int (off div 4))),
                  width := w, height := h, phys_height := ph, pitch := a_pitch a\<rparr>;
          fb = init_font a fb;
          fb = init_geometry (font_height fb) sx sy (a_margin a) fb;
          cls = init_cols (a_margin a) fb;
          rws = init_rows (a_margin a) fb;
          fb = init_buffers rws cls cv fb;
          fb = fb\<lparr>plot_char := init_plot_char sx sy (cv \<noteq> None)\<rparr>
      in zero_context rws cls fb)"

text \<open>The end of the function: the terminal is reset and drawn.\<close>

definition init_finish :: "fb_term \<Rightarrow> fb_term" where
  "init_finish ctx =
     (let ctx = flanterm_context_reinit ctx in ctx\<lparr>be := flanterm_fb_full_refresh ctx\<rparr>)"

definition init_alloc :: "malloc_fn \<Rightarrow> bool \<Rightarrow> fb_term \<Rightarrow> fb_world \<Rightarrow> (fb_term \<times> fb_blocks) option \<times> fb_world" where
  "init_alloc m has_free ctx w =
     (case alloc_all m (init_requests (be ctx)) (no_blocks, w) of
        Inl (b, w) \<Rightarrow> (None, init_fail m has_free b w)
      | Inr (b, w) \<Rightarrow>
          (Some (init_finish ctx, b),
           (case m of Bump_alloc \<Rightarrow> w\<lparr>bump_allocated_instance := True\<rparr> | Client_malloc _ \<Rightarrow> w)))"

definition flanterm_fb_init :: "fb_args \<Rightarrow> fb_world \<Rightarrow> (fb_term \<times> fb_blocks) option \<times> fb_world" where
  "flanterm_fb_init a w =
     (let ph = a_height a;
          (wd, h) = (if sideways (a_rotation a) then (a_height a, a_width a) else (a_width a, a_height a));
          (sx, sy) = init_scale wd h (a_font_scale_x a) (a_font_scale_y a)
      in if a_red_mask_size a < 8 \<or> a_red_mask_size a \<noteq> a_green_mask_size a \<or>
            a_red_mask_size a \<noteq> a_blue_mask_size a then (None, w)
         else
           case a_malloc a of
             None \<Rightarrow>
               if bump_allocated_instance w then (None, w)
               else
                 let (wd, h, ph, off) = init_limit (a_rotation a) wd h ph (a_pitch a)
                 in init_alloc Bump_alloc (a_free a) (init_context a wd h ph off sx sy None) w
           | Some f \<Rightarrow>
               init_alloc (Client_malloc f) (a_free a) (init_context a wd h ph 0 sx sy (a_canvas a)) w)"

text \<open>The call of \<open>__cstdio_initialise_terminal\<close> for a framebuffer of the boot loader.\<close>

definition kernel_args :: "nat \<Rightarrow> (int \<Rightarrow> u32) \<Rightarrow> nat \<Rightarrow> nat \<Rightarrow> nat \<Rightarrow> u8 \<Rightarrow> u8 \<Rightarrow> u8 \<Rightarrow> u8 \<Rightarrow> u8 \<Rightarrow> u8 \<Rightarrow> fb_args" where
  "kernel_args addr px w h ptch rsz rsh gsz gsh bsz bsh =
     \<lparr>a_malloc = None, a_free = False, a_framebuffer = addr, a_pixels = px,
      a_width = w, a_height = h, a_pitch = ptch,
      a_red_mask_size = rsz, a_red_mask_shift = rsh, a_green_mask_size = gsz, a_green_mask_shift = gsh,
      a_blue_mask_size = bsz, a_blue_mask_shift = bsh,
      a_canvas = None, a_ansi_colours = None, a_ansi_bright_colours = None,
      a_default_bg = None, a_default_fg = None, a_default_bg_bright = None, a_default_fg_bright = None,
      a_font = None, a_font_width = 0, a_font_height = 0, a_font_spacing = 1,
      a_font_scale_x = 0, a_font_scale_y = 0, a_margin = 0, a_rotation = 0\<rparr>"



section \<open>The new terminal is well formed\<close>

lemma set_pixel_loop_frame:
  "\<exists>p. for_up a b (\<lambda>y fb. for_up (c y) (d fb) (\<lambda>x fb. set_pixel (i y x fb) (v y x fb) fb) fb) fb = fb\<lparr>pixels := p\<rparr>"
proof -
  let ?r = "for_up a b (\<lambda>y fb. for_up (c y) (d fb) (\<lambda>x fb. set_pixel (i y x fb) (v y x fb) fb) fb) fb"
  have "?r\<lparr>pixels := p\<rparr> = fb\<lparr>pixels := p\<rparr>" for p
    by (rule for_up_measure [where g = "\<lambda>fb. fb\<lparr>pixels := p\<rparr>"])
      (rule for_up_measure [where g = "\<lambda>fb. fb\<lparr>pixels := p\<rparr>"], simp)
  from this [of "pixels ?r"] show ?thesis by auto
qed

lemma plot_loop_frame:
  "\<exists>p. for_up a b (\<lambda>i fb. call_plot_char rws cls (g i fb) (x i) (y i) fb) fb = fb\<lparr>pixels := p\<rparr>"
proof -
  let ?r = "for_up a b (\<lambda>i fb. call_plot_char rws cls (g i fb) (x i) (y i) fb) fb"
  have "?r\<lparr>pixels := p\<rparr> = fb\<lparr>pixels := p\<rparr>" for p
    by (rule for_up_measure [where g = "\<lambda>fb. fb\<lparr>pixels := p\<rparr>"]) (rule call_plot_char_frame)
  from this [of "pixels ?r"] show ?thesis by auto
qed

text \<open>A refresh repaints every pixel and then draws the cursor as a flush does.\<close>

lemma full_refresh_steps:
  "\<exists>p l. flanterm_fb_full_refresh ctx =
     (if cursor_enabled ctx then draw_cursor (rows ctx) (cols ctx) ((be ctx)\<lparr>pixels := p\<rparr>)
      else (be ctx)\<lparr>pixels := p\<rparr>)\<lparr>flush_log := l\<rparr>"
proof -
  let ?fb = "be ctx"
  define fb1 where "fb1 = for_up 0 (height ?fb) (\<lambda>y fb. for_up 0 (width fb)
      (\<lambda>x fb. let (px, py) = full_refresh_pixel fb x y
        in set_pixel (py * int (pitch fb div 4) + px)
          (case canvas fb of Some cv \<Rightarrow> cv ! (y * width fb + x) | None \<Rightarrow> default_bg ?fb) fb) fb) ?fb"
  have "\<exists>p. fb1 = ?fb\<lparr>pixels := p\<rparr>"
    unfolding fb1_def case_prod_beta Let_def by (rule set_pixel_loop_frame)
  then obtain p1 where fb1: "fb1 = ?fb\<lparr>pixels := p1\<rparr>" ..
  define fb2 where "fb2 = for_up 0 (rows ctx * cols ctx)
      (\<lambda>i fb. call_plot_char (rows ctx) (cols ctx) (grid fb ! i) (i mod cols ctx) (i div cols ctx) fb) fb1"
  have "\<exists>p. fb2 = fb1\<lparr>pixels := p\<rparr>"
    unfolding fb2_def by (rule plot_loop_frame)
  then obtain p2 where "fb2 = fb1\<lparr>pixels := p2\<rparr>" ..
  then have fb2: "fb2 = ?fb\<lparr>pixels := p2\<rparr>" by (simp add: fb1)
  define fb3 where "fb3 = (if cursor_enabled ctx then draw_cursor (rows ctx) (cols ctx) fb2 else fb2)"
  have "flanterm_fb_full_refresh ctx = call_flush_callback fb3"
    unfolding flanterm_fb_full_refresh_def Let_def fb3_def fb2_def fb1_def by (rule refl)
  moreover have "\<exists>l. call_flush_callback fb3 = fb3\<lparr>flush_log := l\<rparr>"
    by (auto simp: call_flush_callback_def intro: exI [of _ "flush_log fb3"])
  ultimately show ?thesis unfolding fb3_def fb2 by metis
qed

lemma flush_log_frame [simp]:
  "fb_synced rws cls (fb\<lparr>flush_log := l\<rparr>) = fb_synced rws cls fb"
  "fb_safe rws cls (fb\<lparr>flush_log := l\<rparr>) = fb_safe rws cls fb"
  "fb_half rws cls (fb\<lparr>flush_log := l\<rparr>) = fb_half rws cls fb"
  "cell (fb\<lparr>flush_log := l\<rparr>) j = cell fb j"
  by (simp_all add: fb_synced_def fb_safe_def fb_sync_def fb_half_def fb_ok_def glyphs_ok_def cell_def
      split: option.split)

lemma synced_pixels [simp]:
  "fb_synced rws cls (fb\<lparr>pixels := p\<rparr>) = fb_synced rws cls fb"
  "fb_safe rws cls (fb\<lparr>pixels := p\<rparr>) = fb_safe rws cls fb"
  by (simp_all add: fb_synced_def fb_safe_def)

lemma full_refresh_synced:
  assumes sync: "fb_synced (rows ctx) (cols ctx) (be ctx)"
    and none: "\<And>i. i < rows ctx * cols ctx \<Longrightarrow> qmap (be ctx) ! i = None"
  shows "fb_synced (rows ctx) (cols ctx) (flanterm_fb_full_refresh ctx)"
proof -
  obtain p l where eq: "flanterm_fb_full_refresh ctx =
     (if cursor_enabled ctx then draw_cursor (rows ctx) (cols ctx) ((be ctx)\<lparr>pixels := p\<rparr>)
      else (be ctx)\<lparr>pixels := p\<rparr>)\<lparr>flush_log := l\<rparr>"
    using full_refresh_steps by blast
  have ok: "fb_ok (rows ctx) (cols ctx) ((be ctx)\<lparr>pixels := p\<rparr>)"
    using sync by (simp add: fb_synced_def fb_sync_def)
  have "fb_synced (rows ctx) (cols ctx) (draw_cursor (rows ctx) (cols ctx) ((be ctx)\<lparr>pixels := p\<rparr>))"
    using ok by (rule draw_cursor_cases) (use sync none in auto)
  with sync show ?thesis unfolding eq by simp
qed

definition fresh_fb :: "nat \<Rightarrow> nat \<Rightarrow> fb_context \<Rightarrow> bool" where
  "fresh_fb rws cls fb \<longleftrightarrow> fb_synced rws cls fb \<and> (\<forall>i < rws * cls. qmap fb ! i = None)"

lemma init_buffers_fresh:
  assumes "0 < rws" and "cursor_x fb = 0" "cursor_y fb = 0" "saved_state_cursor_x fb = 0"
    "saved_state_cursor_y fb = 0" "length (ansi_colours fb) = 8" "length (ansi_bright_colours fb) = 8"
  shows "fresh_fb rws cls (init_buffers rws cls cv fb\<lparr>plot_char := pc\<rparr>)"
  using assms by (simp add: fresh_fb_def fb_synced_def fb_sync_def fb_ok_def glyphs_ok_def init_buffers_def)

lemma init_colours_length:
  "length (ansi_colours (init_colours a fb)) = 8" "length (ansi_bright_colours (init_colours a fb)) = 8"
  by (simp_all add: init_colours_def Let_def split: option.split)

lemma init_font_frame:
  "\<exists>fw fh n bits k bools. init_font a fb = fb\<lparr>font_width := fw, font_height := fh, font_bits_size := n,
     font_bits := bits, font_bool_size := k, font_bool := bools\<rparr>"
  unfolding init_font_def Let_def case_prod_beta by blast

definition zeroed_cursor :: "fb_context \<Rightarrow> bool" where
  "zeroed_cursor fb \<longleftrightarrow> cursor_x fb = 0 \<and> cursor_y fb = 0 \<and> saved_state_cursor_x fb = 0 \<and>
     saved_state_cursor_y fb = 0 \<and> length (ansi_colours fb) = 8 \<and> length (ansi_bright_colours fb) = 8"

lemma zeroed_start:
  "zeroed_cursor (init_colours a (init_masks a zero_fb)\<lparr>rotation := r, framebuffer := f, pixels := px,
     width := w, height := h, phys_height := ph, pitch := pt\<rparr>)"
  using init_colours_length [of a "init_masks a zero_fb"]
  by (simp add: zeroed_cursor_def) (simp add: init_colours_def init_masks_def zero_fb_def Let_def)

lemma zeroed_font: "zeroed_cursor fb \<Longrightarrow> zeroed_cursor (init_font a fb)"
  using init_font_frame [of a fb] by (auto simp: zeroed_cursor_def)

lemma zeroed_geometry: "zeroed_cursor fb \<Longrightarrow> zeroed_cursor (init_geometry n sx sy m fb)"
  by (simp add: zeroed_cursor_def init_geometry_def Let_def)

lemma init_context_fresh:
  fixes a w h ph off sx sy cv
  defines "ctx \<equiv> init_context a w h ph off sx sy cv"
  assumes "0 < rows ctx"
  shows "fresh_fb (rows ctx) (cols ctx) (be ctx)"
proof -
  have "fresh_fb rws cls (init_buffers rws cls cv fb\<lparr>plot_char := pc\<rparr>)"
    if "zeroed_cursor fb" "0 < rws" for rws cls fb pc
    using that by (intro init_buffers_fresh) (simp_all add: zeroed_cursor_def)
  moreover note zeroed_geometry [OF zeroed_font [OF zeroed_start]]
  ultimately show ?thesis
    using assms unfolding init_context_def Let_def zero_context_def by simp
qed

lemma reinit_inv:
  assumes "0 < rws" "rws \<le> 0x80000000" "0 < cls" "cls \<le> 0x80000000"
  shows "term_inv (flanterm_context_reinit (zero_context rws cls b))"
  using assms
  by (simp add: term_inv_def flanterm_context_reinit_def zero_context_def margins_ok_def
      FLANTERM_OSC_BUF_def FLANTERM_MAX_ESC_VALUES_def)

lemma init_finish_wf:
  fixes a w h ph off sx sy cv
  defines "ctx \<equiv> init_context a w h ph off sx sy cv"
  assumes size: "0 < rows ctx" "rows ctx \<le> 0x80000000" "0 < cols ctx" "cols ctx \<le> 0x80000000"
  shows "synced.tb.wf (init_finish ctx)"
proof -
  have fresh: "fresh_fb (rows ctx) (cols ctx) (be ctx)"
    using size(1) unfolding ctx_def by (rule init_context_fresh)
  have same: "rows (flanterm_context_reinit ctx) = rows ctx" "cols (flanterm_context_reinit ctx) = cols ctx"
    "be (flanterm_context_reinit ctx) = be ctx"
    by (simp_all add: flanterm_context_reinit_def)
  have "\<exists>b. ctx = zero_context (rows ctx) (cols ctx) b"
    unfolding ctx_def init_context_def Let_def by (auto simp: zero_context_def)
  then have inv: "term_inv (flanterm_context_reinit ctx)"
    using reinit_inv size by metis
  have "fb_synced (rows ctx) (cols ctx) (flanterm_fb_full_refresh (flanterm_context_reinit ctx))"
    using full_refresh_synced [of "flanterm_context_reinit ctx"] fresh by (simp add: same fresh_fb_def)
  with inv show ?thesis
    by (simp add: init_finish_def synced.tb.wf_def same Let_def)
qed


section \<open>The bump allocator\<close>

lemma round16_bounds:
  assumes "s + 16 \<le> SIZE_MAX"
  shows "s \<le> round16 s" "round16 s \<le> s + 15" "round16 s mod 16 = 0"
proof -
  have "add64 s 16 = s + 16" using assms by (rule add64_le)
  then have eq: "round16 s = (if s mod 16 = 0 then s else (s + 16) div 16 * 16)"
    by (simp add: round16_def)
  show "round16 s mod 16 = 0" by (simp add: eq)
  show "s \<le> round16 s" "round16 s \<le> s + 15" unfolding eq by presburger+
qed

lemma bump_align_base_added:
  "bump_alloc_base_offset_added (bump_align_base w)"
  "bump_alloc_base_offset_added w \<Longrightarrow> bump_align_base w = w"
  "bump_allocated_instance (bump_align_base w) = bump_allocated_instance w"
  "bump_alloc_pool (bump_align_base w) = bump_alloc_pool w"
  "heap_log (bump_align_base w) = heap_log w"
  by (simp_all add: bump_align_base_def Let_def)

lemma bump_align_base_ptr:
  assumes "bump_alloc_ptr w \<le> 873000" and "bump_alloc_base_offset_added w \<Longrightarrow> (bump_alloc_pool w + bump_alloc_ptr w) mod 16 = 0"
    and "\<not> bump_alloc_base_offset_added w \<Longrightarrow> bump_alloc_ptr w = 0"
  shows "bump_alloc_ptr w \<le> bump_alloc_ptr (bump_align_base w)"
    and "bump_alloc_ptr (bump_align_base w) \<le> bump_alloc_ptr w + 15"
    and "(bump_alloc_pool w + bump_alloc_ptr (bump_align_base w)) mod 16 = 0"
proof -
  have "add64 0 (16 - bump_alloc_pool w mod 16) = 16 - bump_alloc_pool w mod 16"
    by (simp add: add64_def)
  with assms show "bump_alloc_ptr w \<le> bump_alloc_ptr (bump_align_base w)"
    "bump_alloc_ptr (bump_align_base w) \<le> bump_alloc_ptr w + 15"
    by (auto simp: bump_align_base_def Let_def)
  have "(bump_alloc_pool w + (16 - bump_alloc_pool w mod 16)) mod 16 = 0" by presburger
  with assms \<open>add64 0 _ = _\<close> show "(bump_alloc_pool w + bump_alloc_ptr (bump_align_base w)) mod 16 = 0"
    by (auto simp: bump_align_base_def Let_def)
qed

text \<open>The states the allocator reaches: a used part of the pool that ends at a multiple of sixteen.\<close>

definition bump_ok :: "fb_world \<Rightarrow> bool" where
  "bump_ok w \<longleftrightarrow> bump_alloc_ptr w \<le> FLANTERM_FB_BUMP_ALLOC_POOL_SIZE \<and>
     (if bump_alloc_base_offset_added w then (bump_alloc_pool w + bump_alloc_ptr w) mod 16 = 0
      else bump_alloc_ptr w = 0)"

lemma bump_alloc_success:
  assumes ok: "bump_ok w" and s: "s + 16 \<le> SIZE_MAX"
    and room: "bump_alloc_ptr (bump_align_base w) + s + 15 \<le> FLANTERM_FB_BUMP_ALLOC_POOL_SIZE"
  shows "\<exists>p w'. bump_alloc s w = (Some p, w') \<and> bump_ok w' \<and> bump_alloc_base_offset_added w' \<and>
    bump_alloc_ptr w' \<le> bump_alloc_ptr (bump_align_base w) + s + 15 \<and>
    bump_allocated_instance w' = bump_allocated_instance w"
proof -
  note r = round16_bounds [OF s]
  let ?w = "bump_align_base w"
  have "bump_alloc_ptr ?w + round16 s \<le> 873000"
    using r(2) room by (simp add: FLANTERM_FB_BUMP_ALLOC_POOL_SIZE_def)
  then have sum: "add64 (bump_alloc_ptr ?w) (round16 s) = bump_alloc_ptr ?w + round16 s"
    by (intro add64_le) (simp add: SIZE_MAX_def)
  have al: "(bump_alloc_pool w + bump_alloc_ptr ?w) mod 16 = 0"
    by (rule bump_align_base_ptr(3)) (use ok in \<open>auto simp: bump_ok_def FLANTERM_FB_BUMP_ALLOC_POOL_SIZE_def\<close>)
  have "16 dvd (bump_alloc_pool w + bump_alloc_ptr ?w) + round16 s"
    using al r(3) unfolding mod_eq_0_iff_dvd by (rule dvd_add)
  then have al': "(bump_alloc_pool w + (bump_alloc_ptr ?w + round16 s)) mod 16 = 0"
    by (simp only: mod_eq_0_iff_dvd add.assoc)
  have eq: "bump_alloc s w = (Some (bump_alloc_pool w + bump_alloc_ptr ?w),
      ?w\<lparr>bump_alloc_ptr := bump_alloc_ptr ?w + round16 s\<rparr>)"
    using r(2) room by (simp add: bump_alloc_def Let_def sum bump_align_base_added)
  show ?thesis
    unfolding eq using r(2) room al' by (simp add: bump_align_base_added bump_ok_def)
qed

lemma bump_alloc_all:
  assumes "bump_ok w" and "\<forall>x \<in> set xs. fst x + 16 \<le> SIZE_MAX"
    and "bump_alloc_ptr (bump_align_base w) + (\<Sum>x\<leftarrow>xs. fst x + 15) \<le> FLANTERM_FB_BUMP_ALLOC_POOL_SIZE"
  shows "\<exists>b' w'. alloc_all Bump_alloc xs (b, w) = Inr (b', w')"
  using assms
proof (induction xs arbitrary: b w)
  case Nil
  then show ?case by simp
next
  case (Cons x xs)
  obtain n put where x: "x = (n, put)" by (cases x)
  obtain p w' where w': "bump_alloc n w = (Some p, w')" "bump_ok w'" "bump_alloc_base_offset_added w'"
    "bump_alloc_ptr w' \<le> bump_alloc_ptr (bump_align_base w) + n + 15"
    using bump_alloc_success [OF Cons.prems(1), of n] Cons.prems(2,3) x by auto
  have "\<exists>b' w''. alloc_all Bump_alloc xs (put (p, n) b, w') = Inr (b', w'')"
    by (rule Cons.IH) (use w' Cons.prems x in \<open>auto simp: bump_align_base_added\<close>)
  then show ?case
    by (simp add: x alloc_step_def call_malloc_def w'(1))
qed


section \<open>The kernel's terminal\<close>

lemma init_limit_kernel:
  assumes "init_limit rot w h ph pt = (w', h', ph', off)"
  shows "w' \<le> 1920" "h' \<le> 1200" "w' = min w 1920" "h' = min h 1200"
  using assms
  by (auto simp: init_limit_def Let_def FLANTERM_FB_WIDTH_LIMIT_def FLANTERM_FB_HEIGHT_LIMIT_def
      split: if_splits)

lemma init_scale_auto:
  "init_scale w h 0 0 = (s, s') \<Longrightarrow> s' = s \<and>
     (s = 1 \<or> s = 2 \<and> 2560 \<le> w \<and> 1440 \<le> h \<or> s = 4 \<and> 5120 \<le> w \<and> 2880 \<le> h)"
  by (auto simp: init_scale_def Let_def split: if_splits)

text \<open>The context the kernel's call builds: nine by sixteen dots per cell, scaled.\<close>

lemma kernel_context:
  fixes addr px w h pt rsz rsh gsz gsh bsz bsh w' h' ph off s
  defines "ctx \<equiv> init_context (kernel_args addr px w h pt rsz rsh gsz gsh bsz bsh) w' h' ph off s s None"
  assumes "w' \<le> SIZE_MAX" "h' \<le> SIZE_MAX"
  shows "cols ctx = w' div (9 * s)" "rows ctx = h' div (16 * s)"
    "font_bits_size (be ctx) = 4096" "font_bool_size (be ctx) = 36864"
    "grid_size (be ctx) = rows ctx * cols ctx * 12" "queue_size (be ctx) = rows ctx * cols ctx * 32"
    "map_size (be ctx) = rows ctx * cols ctx * 8" "canvas (be ctx) = None"
proof -
  have z: "mul64 0 2 = 0" "sub64 w' 0 = w'" "sub64 h' 0 = h'"
    using assms by (simp_all add: mul64_def sub64_le)
  show "cols ctx = w' div (9 * s)" "rows ctx = h' div (16 * s)"
    "font_bits_size (be ctx) = 4096" "font_bool_size (be ctx) = 36864"
    "grid_size (be ctx) = rows ctx * cols ctx * 12" "queue_size (be ctx) = rows ctx * cols ctx * 32"
    "map_size (be ctx) = rows ctx * cols ctx * 8" "canvas (be ctx) = None"
    by (simp_all add: ctx_def init_context_def Let_def zero_context_def init_buffers_def init_cols_def
        init_rows_def init_geometry_def init_font_def kernel_args_def z FLANTERM_FB_FONT_GLYPHS_def
        sizeof_fb_char_def sizeof_fb_queue_item_def sizeof_ptr_def)
qed

lemma kernel_cells:
  fixes w h s :: nat
  assumes "w \<le> 1920" "h \<le> 1200" "1 \<le> s"
  shows "w div (9 * s) \<le> 213" "h div (16 * s) \<le> 75"
proof -
  have "w div (9 * s) \<le> w div 9" "h div (16 * s) \<le> h div 16"
    using assms(3) by (auto intro!: div_le_mono2)
  with assms(1,2) show "w div (9 * s) \<le> 213" "h div (16 * s) \<le> 75" by auto
qed


lemma kernel_alloc:
  assumes ok: "bump_ok w0" "bump_alloc_ptr w0 = 0"
    and sizes: "font_bits_size fb = 4096" "font_bool_size fb = 36864" "grid_size fb = n * 12"
      "queue_size fb = n * 32" "map_size fb = n * 8" "canvas fb = None" and n: "n \<le> 15975"
  shows "\<exists>b w'. alloc_all Bump_alloc (init_requests fb) (no_blocks, w0) = Inr (b, w')"
proof (rule bump_alloc_all [OF ok(1)])
  show "\<forall>x\<in>set (init_requests fb). fst x + 16 \<le> SIZE_MAX"
    using n by (simp add: init_requests_def sizes sizeof_fb_context_def SIZE_MAX_def)
  have "bump_alloc_ptr (bump_align_base w0) \<le> bump_alloc_ptr w0 + 15"
    by (rule bump_align_base_ptr(2)) (use ok in \<open>auto simp: bump_ok_def\<close>)
  then show "bump_alloc_ptr (bump_align_base w0) + (\<Sum>x\<leftarrow>init_requests fb. fst x + 15)
      \<le> FLANTERM_FB_BUMP_ALLOC_POOL_SIZE"
    using n by (simp add: init_requests_def sizes sizeof_fb_context_def ok(2)
        FLANTERM_FB_BUMP_ALLOC_POOL_SIZE_def)
qed

lemma kernel_init:
  assumes fresh: "bump_alloc_ptr w0 = 0" "\<not> bump_alloc_base_offset_added w0" "\<not> bump_allocated_instance w0"
    and masks: "8 \<le> rsz" "gsz = rsz" "bsz = rsz"
    and size: "9 \<le> w" "16 \<le> h" "w \<le> SIZE_MAX" "h \<le> SIZE_MAX"
  shows "\<exists>ctx b w1. flanterm_fb_init (kernel_args addr px w h pt rsz rsh gsz gsh bsz bsh) w0
      = (Some (ctx, b), w1) \<and> bump_allocated_instance w1 \<and>
    0 < rows ctx \<and> rows ctx \<le> 75 \<and> 0 < cols ctx \<and> cols ctx \<le> 213 \<and>
    term_inv ctx \<and> fb_synced (rows ctx) (cols ctx) (be ctx)"
proof -
  define a where "a = kernel_args addr px w h pt rsz rsh gsz gsh bsz bsh"
  obtain s s' where "init_scale w h 0 0 = (s, s')" by (cases "init_scale w h 0 0")
  then have sc: "init_scale w h 0 0 = (s, s)"
    and s: "s = 1 \<or> s = 2 \<and> 2560 \<le> w \<and> 1440 \<le> h \<or> s = 4 \<and> 5120 \<le> w \<and> 2880 \<le> h"
    using init_scale_auto by auto
  obtain w' h' ph off where lim: "init_limit 0 w h h pt = (w', h', ph, off)"
    by (cases "init_limit 0 w h h pt") auto
  note wh = init_limit_kernel [OF lim]
  define ctx where "ctx = init_context a w' h' ph off s s None"
  note k = kernel_context [of w' h' addr px w h pt rsz rsh gsz gsh bsz bsh ph off s,
      folded a_def, folded ctx_def]
  have le: "w' \<le> SIZE_MAX" "h' \<le> SIZE_MAX" using wh by (simp_all add: SIZE_MAX_def)
  have pos: "0 < w' div (9 * s)" "0 < h' div (16 * s)"
    using s size wh(3,4) by (auto simp: div_greater_zero_iff)
  have max: "cols ctx \<le> 213" "rows ctx \<le> 75"
    using kernel_cells [OF wh(1,2), of s] s by (auto simp: k [OF le])
  have n: "rows ctx * cols ctx \<le> 15975" using mult_le_mono [OF max(2,1)] by simp
  have "bump_ok w0" using fresh by (simp add: bump_ok_def)
  then obtain b w1 where al: "alloc_all Bump_alloc (init_requests (be ctx)) (no_blocks, w0) = Inr (b, w1)"
    using kernel_alloc [OF _ fresh(1) k(3-8) [OF le] n] by blast
  have "flanterm_fb_init a w0 = init_alloc Bump_alloc False ctx w0"
    unfolding flanterm_fb_init_def ctx_def using fresh(3) masks(2,3) sc lim masks(1) [folded not_less]
    by (simp add: a_def kernel_args_def sideways_def FLANTERM_FB_ROTATE_90_def FLANTERM_FB_ROTATE_270_def)
  also have "\<dots> = (Some (init_finish ctx, b), w1\<lparr>bump_allocated_instance := True\<rparr>)"
    by (simp add: init_alloc_def al)
  finally have init: "flanterm_fb_init a w0 = \<dots>" .
  have "synced.tb.wf (init_finish ctx)"
    unfolding ctx_def by (rule init_finish_wf) (use max pos k(1,2) [OF le] in \<open>simp_all add: ctx_def\<close>)
  moreover have "rows (init_finish ctx) = rows ctx" "cols (init_finish ctx) = cols ctx"
    by (simp_all add: init_finish_def Let_def flanterm_context_reinit_def)
  ultimately show ?thesis
    using init max pos k(1,2) [OF le] unfolding a_def [symmetric] by (simp add: synced.tb.wf_def)
qed

lemma kernel_init_wf:
  assumes "bump_alloc_ptr w0 = 0" "\<not> bump_alloc_base_offset_added w0" "\<not> bump_allocated_instance w0"
    and "8 \<le> rsz" "gsz = rsz" "bsz = rsz" and "9 \<le> w" "16 \<le> h" "w \<le> SIZE_MAX" "h \<le> SIZE_MAX"
  shows "\<exists>ctx b w1. flanterm_fb_init (kernel_args addr px w h pt rsz rsh gsz gsh bsz bsh) w0
      = (Some (ctx, b), w1) \<and> synced.tb.wf ctx"
  using kernel_init [OF assms] unfolding synced.tb.wf_def by blast

text \<open>
  the kernel's console comes up. On a machine with a framebuffer of at least one glyph and
  three equal colour masks of eight bits or more, the call of \<open>flanterm_fb_init\<close> that
  \<open>__cstdio_initialise_terminal\<close> makes never runs out of its static pool, whatever the resolution
  and wherever the linker put the pool: it returns a terminal of at most 75 lines of 213 characters,
  whose state satisfies the invariants of the emulator and of the backend, and it marks the pool used.
\<close>

theorem kernel_terminal_init:
  assumes fresh: "bump_alloc_ptr w0 = 0" "\<not> bump_alloc_base_offset_added w0" "\<not> bump_allocated_instance w0"
    and masks: "8 \<le> rsz" "gsz = rsz" "bsz = rsz"
    and size: "9 \<le> w" "16 \<le> h" "w \<le> SIZE_MAX" "h \<le> SIZE_MAX"
  shows "\<exists>ctx b w1. flanterm_fb_init (kernel_args addr px w h pt rsz rsh gsz gsh bsz bsh) w0
      = (Some (ctx, b), w1) \<and> bump_allocated_instance w1 \<and>
    0 < rows ctx \<and> rows ctx \<le> 75 \<and> 0 < cols ctx \<and> cols ctx \<le> 213 \<and>
    term_inv ctx \<and> fb_synced (rows ctx) (cols ctx) (be ctx)"
  by (rule kernel_init [OF assms])

theorem kernel_terminal_init_witness:
  "\<exists>ctx b w1. flanterm_fb_init (kernel_args 0xfd000000 (\<lambda>_. 0) 1280 800 5120 8 16 8 8 8 0)
      \<lparr>bump_alloc_pool = 0x10008, bump_alloc_ptr = 0, bump_alloc_base_offset_added = False,
       bump_allocated_instance = False, heap_log = []\<rparr>
      = (Some (ctx, b), w1) \<and> bump_allocated_instance w1 \<and>
    0 < rows ctx \<and> rows ctx \<le> 75 \<and> 0 < cols ctx \<and> cols ctx \<le> 213 \<and>
    term_inv ctx \<and> fb_synced (rows ctx) (cols ctx) (be ctx)"
  by (rule kernel_terminal_init) (simp_all add: SIZE_MAX_def)


section \<open>The font table\<close>

lemma fold_upd_nth:
  "k < length bs \<Longrightarrow> fold (\<lambda>k bs. bs[k := d k]) ks bs ! k = (if k \<in> set ks then d k else bs ! k)"
  by (induction ks arbitrary: bs) (auto simp: nth_upd)

lemma for_up_concat: "for_up a b (\<lambda>i. fold f (ks i)) s = fold f (concat (map ks [a..<b])) s"
proof -
  have "fold (\<lambda>i. fold f (ks i)) xs s = fold f (concat (map ks xs)) s" for xs
    by (induction xs arbitrary: s) simp_all
  then show ?thesis by (simp add: for_up_def)
qed

lemma for_up_cong:
  "(\<And>i. a \<le> i \<Longrightarrow> i < b \<Longrightarrow> f i = g i) \<Longrightarrow> for_up a b f s = for_up a b g s"
  unfolding for_up_def by (rule fold_cong) auto

lemma font_offset_split:
  assumes "x < fw" and "y < fh"
  shows "font_offset fh fw i y x mod fw = x" "font_offset fh fw i y x div fw mod fh = y"
    "font_offset fh fw i y x div fw div fh = i"
proof -
  have "font_offset fh fw i y x = (i * fh + y) * fw + x"
    by (simp add: font_offset_def algebra_simps)
  with assms show "font_offset fh fw i y x mod fw = x" "font_offset fh fw i y x div fw mod fh = y"
    "font_offset fh fw i y x div fw div fh = i"
    by simp_all
qed

lemma font_offset_less:
  assumes "x < fw" and "y < fh" and "i < n"
  shows "font_offset fh fw i y x < n * fh * fw"
proof -
  have "i * fh + y < n * fh" using assms by (intro cell_index)
  then have "(i * fh + y) * fw + x < n * fh * fw" using assms by (intro cell_index)
  then show ?thesis by (simp add: font_offset_def algebra_simps)
qed

lemma fill_font_fold:
  assumes "8 \<le> fw"
  shows "fill_font bits fh fw bs =
    fold (\<lambda>k bs. bs[k := font_dot bits fh (k div fw div fh) (k div fw mod fh) (k mod fw)])
      (concat (map (\<lambda>i. concat (map (\<lambda>y. map (font_offset fh fw i y) [0..<fw]) [0..<fh])) [0..<256])) bs"
proof -
  let ?d = "\<lambda>k. font_dot bits fh (k div fw div fh) (k div fw mod fh) (k mod fw)"
  let ?w = "\<lambda>k bs. bs[k := ?d k]"
  have line: "for_up 8 fw (\<lambda>x bs. bs[font_offset fh fw i y x := font_dot bits fh i y x])
      (for_up 0 8 (\<lambda>x bs. bs[font_offset fh fw i y x := font_dot bits fh i y x]) bs)
      = fold ?w (map (font_offset fh fw i y) [0..<fw]) bs" if y: "y < fh" for i y bs
  proof -
    have "[0..<fw] = [0..<8] @ [8..<fw]"
      using upt_add_eq_append [of 0 8 "fw - 8"] assms by simp
    then have "for_up 8 fw g (for_up 0 8 g bs) = for_up 0 fw g bs" for g :: "nat \<Rightarrow> bool list \<Rightarrow> bool list"
      by (simp add: for_up_def)
    moreover have "for_up 0 fw (\<lambda>x bs. bs[font_offset fh fw i y x := font_dot bits fh i y x]) bs
        = for_up 0 fw (\<lambda>x. ?w (font_offset fh fw i y x)) bs"
      by (rule for_up_cong) (simp add: font_offset_split y)
    ultimately show ?thesis by (simp add: for_up_def fold_map o_def)
  qed
  show ?thesis
    unfolding fill_font_def FLANTERM_FB_FONT_GLYPHS_def Let_def
    by (subst for_up_concat [symmetric], rule for_up_cong, rule ext,
        subst for_up_concat [symmetric], rule for_up_cong, rule ext, rule line)
qed

lemma fill_font_dot:
  assumes fw: "8 \<le> fw" and bs: "length bs = FLANTERM_FB_FONT_GLYPHS * fh * fw"
    and i: "i < FLANTERM_FB_FONT_GLYPHS" and y: "y < fh" and x: "x < fw"
  shows "fill_font bits fh fw bs ! font_offset fh fw i y x = font_dot bits fh i y x"
proof -
  have "font_offset fh fw i y x < length bs"
    unfolding bs by (rule font_offset_less [OF x y i])
  moreover have "font_offset fh fw i y x \<in>
      set (concat (map (\<lambda>i. concat (map (\<lambda>y. map (font_offset fh fw i y) [0..<fw]) [0..<fh])) [0..<256]))"
    using x y i by (fastforce simp: FLANTERM_FB_FONT_GLYPHS_def)
  ultimately show ?thesis
    by (simp only: fill_font_fold [OF fw] fold_upd_nth if_True font_offset_split [OF x y])
qed

lemma init_font_bool:
  "font_bool (init_font a fb) = fill_font (font_bits (init_font a fb)) (font_height (init_font a fb))
     (font_width (init_font a fb)) (replicate (FLANTERM_FB_FONT_GLYPHS *
       font_height (init_font a fb) * font_width (init_font a fb)) False)"
  by (simp add: init_font_def Let_def split: option.split)

text \<open>
  the font a terminal draws from is the font it was given. For a glyph cell at least eight dots
  wide, after \<open>flanterm_fb_init\<close> has expanded the bitmap, dot \<open>x\<close> of scan line \<open>y\<close> of glyph \<open>i\<close> is set
  exactly when bit \<open>7 - x\<close> of the glyph's byte is, and the columns beyond the eighth repeat the last bit for the
  line-drawing glyphs 0xC0 to 0xDF and are empty for the others.
\<close>

theorem init_font_dots:
  assumes "i < FLANTERM_FB_FONT_GLYPHS" "y < font_height (init_font a fb)" "x < font_width (init_font a fb)"
    "8 \<le> font_width (init_font a fb)"
  shows "font_bool (init_font a fb) ! font_offset (font_height (init_font a fb)) (font_width (init_font a fb)) i y x
    = font_dot (font_bits (init_font a fb)) (font_height (init_font a fb)) i y x"
  unfolding init_font_bool by (rule fill_font_dot) (use assms in simp_all)

theorem init_font_dots_witness:
  "font_bool (init_font (kernel_args 0 (\<lambda>_. 0) 640 480 2560 8 16 8 8 8 0) zero_fb) ! font_offset 16 9 65 3 4
    = font_dot builtin_font 16 65 3 4"
  using init_font_dots [of 65 3 "kernel_args 0 (\<lambda>_. 0) 640 480 2560 8 16 8 8 8 0" zero_fb 4]
  by (simp add: init_font_def kernel_args_def FLANTERM_FB_FONT_GLYPHS_def)

text \<open>
  the loops that expand the font stay inside \<open>font_bool\<close> exactly when a cell is at least eight
  dots wide. The first inner loop always writes eight columns, so for a narrower client font the
  last scan line of the last glyph is written past the end of the buffer.
\<close>

theorem font_offset_bounds:
  assumes "0 < fh"
  shows "(\<forall>i < FLANTERM_FB_FONT_GLYPHS. \<forall>y < fh. \<forall>x < max 8 fw.
      font_offset fh fw i y x < FLANTERM_FB_FONT_GLYPHS * fh * fw) \<longleftrightarrow> 8 \<le> fw"
proof
  assume all: "\<forall>i < FLANTERM_FB_FONT_GLYPHS. \<forall>y < fh. \<forall>x < max 8 fw.
      font_offset fh fw i y x < FLANTERM_FB_FONT_GLYPHS * fh * fw"
  have "font_offset fh fw 255 (fh - 1) 7 < FLANTERM_FB_FONT_GLYPHS * fh * fw"
    using all assms by (simp add: FLANTERM_FB_FONT_GLYPHS_def)
  moreover obtain f where "fh = Suc f" using assms by (cases fh) auto
  ultimately show "8 \<le> fw"
    by (simp add: font_offset_def FLANTERM_FB_FONT_GLYPHS_def algebra_simps)
next
  assume "8 \<le> fw"
  then show "\<forall>i < FLANTERM_FB_FONT_GLYPHS. \<forall>y < fh. \<forall>x < max 8 fw.
      font_offset fh fw i y x < FLANTERM_FB_FONT_GLYPHS * fh * fw"
    by (simp add: max_absorb2 font_offset_less)
qed

theorem font_offset_bounds_witness:
  "\<not> (\<forall>i < FLANTERM_FB_FONT_GLYPHS. \<forall>y < 8. \<forall>x < max 8 6.
      font_offset 8 6 i y x < FLANTERM_FB_FONT_GLYPHS * 8 * 6)"
  using font_offset_bounds [of 8 6] by simp


section \<open>No leak\<close>

text \<open>The blocks allocated and the blocks freed in a log, with their sizes.\<close>

fun allocated :: "heap_event list \<Rightarrow> (nat \<times> nat) multiset" where
  "allocated [] = {#}"
| "allocated (Alloc p s # es) = add_mset (p, s) (allocated es)"
| "allocated (_ # es) = allocated es"

fun freed :: "heap_event list \<Rightarrow> (nat \<times> nat) multiset" where
  "freed [] = {#}"
| "freed (Free p s # es) = add_mset (p, s) (freed es)"
| "freed (_ # es) = freed es"

lemma allocated_append [simp]: "allocated (xs @ ys) = allocated xs + allocated ys"
  by (induction xs rule: allocated.induct) simp_all

lemma freed_append [simp]: "freed (xs @ ys) = freed xs + freed ys"
  by (induction xs rule: freed.induct) simp_all

definition owned :: "(nat \<times> nat) option \<Rightarrow> (nat \<times> nat) multiset" where
  "owned b = (case b of None \<Rightarrow> {#} | Some x \<Rightarrow> {#x#})"

definition owned_blocks :: "fb_blocks \<Rightarrow> (nat \<times> nat) multiset" where
  "owned_blocks b = owned (blk_ctx b) + owned (blk_font_bits b) + owned (blk_font_bool b) +
     owned (blk_grid b) + owned (blk_queue b) + owned (blk_map b) + owned (blk_canvas b)"

lemma owned_simps [simp]: "owned None = {#}" "owned (Some x) = {#x#}"
  by (simp_all add: owned_def)

lemma free_block_log [simp]:
  "allocated (heap_log (free_block b w)) = allocated (heap_log w)"
  "freed (heap_log (free_block b w)) = freed (heap_log w) + owned b"
  by (auto simp: free_block_def owned_def split: option.split)

lemma deinit_log:
  "allocated (heap_log (flanterm_fb_deinit True b w)) = allocated (heap_log w)"
  "freed (heap_log (flanterm_fb_deinit True b w)) = freed (heap_log w) + owned_blocks b"
  by (simp_all add: flanterm_fb_deinit_def Let_def owned_blocks_def ac_simps)

lemma fail_log:
  assumes "blk_ctx b \<noteq> None"
  shows "allocated (heap_log (init_fail (Client_malloc f) True b w)) = allocated (heap_log w)"
    "freed (heap_log (init_fail (Client_malloc f) True b w)) = freed (heap_log w) + owned_blocks b"
  using assms by (auto simp: init_fail_def Let_def owned_blocks_def ac_simps)

text \<open>
  The allocation sequence keeps: everything allocated is owned by the context. \<open>fields\<close> are the
  positions still to be filled, so that no pointer is overwritten.
\<close>

definition ledger :: "fb_blocks \<Rightarrow> fb_world \<Rightarrow> fb_world \<Rightarrow> bool" where
  "ledger b w0 w \<longleftrightarrow> allocated (heap_log w) = allocated (heap_log w0) + owned_blocks b \<and>
     freed (heap_log w) = freed (heap_log w0)"

definition fills :: "((nat \<times> nat) \<Rightarrow> fb_blocks \<Rightarrow> fb_blocks) list \<Rightarrow> fb_blocks \<Rightarrow> bool" where
  "fills puts b \<longleftrightarrow> (\<forall>ps. length ps \<le> length puts \<longrightarrow>
     owned_blocks (fold (\<lambda>(put, p). put p) (zip puts ps) b) = owned_blocks b + mset ps)"

lemma fills_Cons: "fills (put # puts) b \<Longrightarrow> owned_blocks (put p b) = add_mset p (owned_blocks b) \<and> fills puts (put p b)"
proof
  assume all: "fills (put # puts) b"
  show one: "owned_blocks (put p b) = add_mset p (owned_blocks b)"
    using all [unfolded fills_def, rule_format, of "[p]"] by simp
  show "fills puts (put p b)"
    unfolding fills_def
  proof (intro allI impI)
    fix ps :: "(nat \<times> nat) list"
    assume "length ps \<le> length puts"
    then show "owned_blocks (fold (\<lambda>(put, p). put p) (zip puts ps) (put p b)) = owned_blocks (put p b) + mset ps"
      using all [unfolded fills_def, rule_format, of "p # ps"] one by simp
  qed
qed

lemma alloc_all_ledger:
  assumes "fills (map snd xs) b" and "ledger b w0 w"
  shows "case alloc_all (Client_malloc f) xs (b, w) of
      Inl (b', w') \<Rightarrow> ledger b' w0 w' | Inr (b', w') \<Rightarrow> ledger b' w0 w'"
  using assms
proof (induction xs arbitrary: b w)
  case Nil
  then show ?case by simp
next
  case (Cons x xs)
  obtain n put where x: "x = (n, put)" by (cases x)
  note fills = fills_Cons [of put "map snd xs" b]
  show ?case
  proof (cases "f (heap_log w) n")
    case None
    with Cons.prems show ?thesis
      by (simp add: x alloc_step_def call_malloc_def ledger_def)
  next
    case (Some p)
    have "ledger (put (p, n) b) w0 (w\<lparr>heap_log := heap_log w @ [Alloc p n]\<rparr>)"
      using Cons.prems fills [of "(p, n)"] by (simp add: ledger_def x)
    with Cons.IH [of "put (p, n) b"] fills [of "(p, n)"] Cons.prems(1) Some show ?thesis
      by (simp add: x alloc_step_def call_malloc_def)
  qed
qed

lemma requests_fill: "fills (map snd (init_requests fb)) no_blocks"
proof -
  have "owned_blocks (fold (\<lambda>(put, p). put p) (zip (map snd (init_requests fb)) ps) no_blocks)
      = owned_blocks no_blocks + mset ps" if "length ps \<le> length (init_requests fb)" for ps
    using that
    by (cases "canvas fb = None")
      (auto simp: init_requests_def no_blocks_def owned_blocks_def length_Suc_conv numeral_eq_Suc le_Suc_eq ac_simps)
  then show ?thesis by (simp add: fills_def)
qed


lemma alloc_all_keeps_ctx:
  assumes "\<And>x p b. x \<in> set xs \<Longrightarrow> blk_ctx b \<noteq> None \<Longrightarrow> blk_ctx (snd x p b) \<noteq> None" and "blk_ctx b \<noteq> None"
  shows "alloc_all m xs (b, w) = Inl (b', w') \<Longrightarrow> blk_ctx b' \<noteq> None"
  using assms
proof (induction xs arbitrary: b w)
  case (Cons x xs)
  obtain n put where x: "x = (n, put)" by (cases x)
  obtain r w1 where m: "call_malloc m n w = (r, w1)" by (cases "call_malloc m n w")
  show ?case
  proof (cases r)
    case None
    with Cons.prems m x show ?thesis by (simp add: alloc_step_def)
  next
    case (Some p)
    have "blk_ctx (put (p, n) b) \<noteq> None" using Cons.prems(2) [of x] Cons.prems(3) x by simp
    with Cons m x Some show ?thesis by (auto simp: alloc_step_def)
  qed
qed simp

lemma failed_ctx:
  assumes "alloc_all m (init_requests fb) (no_blocks, w) = Inl (b, w')" and "blk_ctx b = None"
  shows "b = no_blocks"
proof (cases "call_malloc m sizeof_fb_context w")
  case (Pair r w1)
  let ?rest = "tl (init_requests fb)"
  have req: "init_requests fb = (sizeof_fb_context, \<lambda>p b. b\<lparr>blk_ctx := Some p\<rparr>) # ?rest"
    by (simp add: init_requests_def)
  have keep: "blk_ctx (snd x p b) \<noteq> None" if "x \<in> set ?rest" "blk_ctx b \<noteq> None" for x p b
    using that by (auto simp: init_requests_def split: if_splits)
  show ?thesis
  proof (cases r)
    case None
    with assms(1) Pair show ?thesis by (subst (asm) req) (simp add: alloc_step_def)
  next
    case (Some p)
    with assms(1) Pair have "alloc_all m ?rest (no_blocks\<lparr>blk_ctx := Some (p, sizeof_fb_context)\<rparr>, w1) = Inl (b, w')"
      by (subst (asm) req) (simp add: alloc_step_def)
    from alloc_all_keeps_ctx [OF keep _ this] assms(2) show ?thesis by simp
  qed
qed

lemma init_alloc_log:
  assumes "heap_log w = []" and "init_alloc (Client_malloc f) True ctx w = (r, w')"
  shows "case r of None \<Rightarrow> freed (heap_log w') = allocated (heap_log w')
    | Some (_, b) \<Rightarrow> freed (heap_log w') = {#} \<and> allocated (heap_log w') = owned_blocks b"
proof -
  have start: "ledger no_blocks w w" by (simp add: ledger_def no_blocks_def owned_blocks_def)
  note led = alloc_all_ledger [OF requests_fill start, of f "be ctx"]
  show ?thesis
  proof (cases "alloc_all (Client_malloc f) (init_requests (be ctx)) (no_blocks, w)")
    case (Inl bw)
    obtain b v where bw: "bw = (b, v)" by (cases bw)
    have "freed (heap_log v) = {#}" "allocated (heap_log v) = owned_blocks b"
      using led Inl assms(1) by (simp_all add: bw ledger_def)
    moreover have "owned_blocks no_blocks = {#}" by (simp add: no_blocks_def owned_blocks_def)
    then have "owned_blocks b = {#} \<or> blk_ctx b \<noteq> None"
      using failed_ctx [OF Inl [unfolded bw]] by metis
    ultimately show ?thesis
      using assms(2) Inl fail_log [of b f v] by (auto simp: bw init_alloc_def init_fail_def)
  next
    case (Inr bw)
    with led assms show ?thesis by (cases bw) (auto simp: init_alloc_def ledger_def)
  qed
qed

text \<open>
  initialisation does not leak. When a client passes its own allocator and deallocator, a call
  of \<open>flanterm_fb_init\<close> that fails, at whichever of its allocations, has given back every block it
  obtained, once and with the size it was requested with.
\<close>

theorem init_failure_frees:
  assumes "a_malloc a = Some f" "a_free a" "heap_log w = []" "flanterm_fb_init a w = (None, w')"
  shows "freed (heap_log w') = allocated (heap_log w')"
  using assms init_alloc_log [OF assms(3), of f _ None w']
  by (auto simp: flanterm_fb_init_def Let_def case_prod_beta split: if_splits)

text \<open>A call with a client's allocator, and the state before the first call.\<close>

definition client_args :: "(heap_event list \<Rightarrow> nat \<Rightarrow> nat option) \<Rightarrow> fb_args" where
  "client_args f = (kernel_args 0x1000 (\<lambda>_. 0) 64 32 256 8 16 8 8 8 0)\<lparr>a_malloc := Some f, a_free := True\<rparr>"

definition idle_world :: fb_world where
  "idle_world = \<lparr>bump_alloc_pool = 0x10008, bump_alloc_ptr = 0, bump_alloc_base_offset_added = False,
     bump_allocated_instance = False, heap_log = []\<rparr>"

lemma client_init:
  "flanterm_fb_init (client_args f) idle_world =
     init_alloc (Client_malloc f) True (init_context (client_args f) 64 32 32 0 1 1 None) idle_world"
  by (simp add: flanterm_fb_init_def client_args_def kernel_args_def init_scale_def idle_world_def
      sideways_def FLANTERM_FB_ROTATE_90_def FLANTERM_FB_ROTATE_270_def)

lemma init_context_canvas: "canvas (be (init_context a w h ph off sx sy None)) = None"
  by (simp add: init_context_def Let_def zero_context_def init_buffers_def)

theorem init_failure_frees_witness:
  "\<exists>w'. flanterm_fb_init (client_args (\<lambda>es n. if length es < 3 then Some (0x8000 * (1 + length es)) else None))
      idle_world = (None, w') \<and> size (allocated (heap_log w')) = 3 \<and>
    freed (heap_log w') = allocated (heap_log w')"
proof -
  let ?f = "\<lambda>es n. if length (es :: heap_event list) < 3 then Some (0x8000 * (1 + length es)) else None"
  obtain w' where w': "flanterm_fb_init (client_args ?f) idle_world = (None, w')"
    "size (allocated (heap_log w')) = 3"
    unfolding client_init
    by (simp add: init_alloc_def init_requests_def alloc_step_def call_malloc_def idle_world_def
        init_fail_def no_blocks_def free_block_def Let_def)
  moreover have "freed (heap_log w') = allocated (heap_log w')"
    by (rule init_failure_frees [OF _ _ _ w'(1)]) (simp_all add: client_args_def idle_world_def)
  ultimately show ?thesis by blast
qed

text \<open>
  destruction does not leak. \<open>flanterm_deinit\<close> with a deallocator gives back exactly the
  blocks that a successful \<open>flanterm_fb_init\<close> obtained from the client's allocator.
\<close>

theorem deinit_frees:
  assumes "a_malloc a = Some f" "a_free a" "heap_log w = []" "flanterm_fb_init a w = (Some (ctx, b), w')"
  shows "freed (heap_log (flanterm_deinit True b w')) = allocated (heap_log (flanterm_deinit True b w'))"
  using assms init_alloc_log [OF assms(3), of f _ "Some (ctx, b)" w']
  by (auto simp: flanterm_fb_init_def flanterm_deinit_def Let_def case_prod_beta deinit_log split: if_splits)


theorem deinit_frees_witness:
  "\<exists>ctx b w'. flanterm_fb_init (client_args (\<lambda>es n. Some (0x8000 * (1 + length es)))) idle_world
      = (Some (ctx, b), w') \<and> size (allocated (heap_log w')) = 6 \<and>
    freed (heap_log (flanterm_deinit True b w')) = allocated (heap_log (flanterm_deinit True b w'))"
proof -
  let ?f = "\<lambda>es n. Some (0x8000 * (1 + length (es :: heap_event list)))"
  obtain ctx b w' where w': "flanterm_fb_init (client_args ?f) idle_world = (Some (ctx, b), w')"
    "size (allocated (heap_log w')) = 6"
    unfolding client_init
    by (simp add: init_alloc_def init_requests_def alloc_step_def call_malloc_def idle_world_def
        no_blocks_def init_context_canvas)
  moreover have "freed (heap_log (flanterm_deinit True b w')) = allocated (heap_log (flanterm_deinit True b w'))"
    by (rule deinit_frees [OF _ _ _ w'(1)]) (simp_all add: client_args_def idle_world_def)
  ultimately show ?thesis by blast
qed

end
