(* ===== verification/Screen_Spec.thy ===== *)
theory Screen_Spec
  imports Flanterm_Init
begin

text \<open>
  An abstract screen and the refinement of the framebuffer backend to it. \<open>ascreen\<close> is what a user
  sees: a character per line and column, a cursor and the current colours; it knows nothing of the
  queue, the map and the grid. Each drawing operation of \<^verbatim>\<open>fb.c\<close> commutes with the abstraction
  \<open>abs_screen\<close>.
\<close>

record ascreen =
  s_cell :: "nat \<Rightarrow> nat \<Rightarrow> fb_char"
  s_x :: nat
  s_y :: nat
  s_fg :: u32
  s_bg :: u32

definition null_char :: fb_char where
  "null_char = \<lparr>ch_c = 0, ch_fg = 0, ch_bg = 0\<rparr>"

definition abs_screen :: "nat \<Rightarrow> nat \<Rightarrow> fb_context \<Rightarrow> ascreen" where
  "abs_screen rws cls fb =
     \<lparr>s_cell = (\<lambda>r c. if r < rws \<and> c < cls then cell fb (r * cls + c) else null_char),
      s_x = cursor_x fb, s_y = cursor_y fb, s_fg = text_fg fb, s_bg = text_bg fb\<rparr>"

definition s_blank :: "ascreen \<Rightarrow> fb_char" where
  "s_blank s = \<lparr>ch_c = 32, ch_fg = s_fg s, ch_bg = s_bg s\<rparr>"

definition s_write :: "nat \<Rightarrow> nat \<Rightarrow> fb_char \<Rightarrow> nat \<Rightarrow> nat \<Rightarrow> ascreen \<Rightarrow> ascreen" where
  "s_write rws cls ch x y s =
     (if x < cls \<and> y < rws
      then s\<lparr>s_cell := (\<lambda>r c. if r = y \<and> c = x then ch else s_cell s r c)\<rparr> else s)"

definition s_scroll :: "nat \<Rightarrow> nat \<Rightarrow> nat \<Rightarrow> ascreen \<Rightarrow> ascreen" where
  "s_scroll cls t b s =
     s\<lparr>s_cell := (\<lambda>r c. if c < cls \<and> t \<le> r \<and> r + 1 < b then s_cell s (r + 1) c
                        else if c < cls \<and> r + 1 = b then s_blank s else s_cell s r c)\<rparr>"

definition s_revscroll :: "nat \<Rightarrow> nat \<Rightarrow> nat \<Rightarrow> ascreen \<Rightarrow> ascreen" where
  "s_revscroll cls t b s =
     s\<lparr>s_cell := (\<lambda>r c. if c < cls \<and> t < r \<and> r < b then s_cell s (r - 1) c
                        else if c < cls \<and> r = t then s_blank s else s_cell s r c)\<rparr>"

definition s_clear :: "nat \<Rightarrow> nat \<Rightarrow> bool \<Rightarrow> ascreen \<Rightarrow> ascreen" where
  "s_clear rws cls home s =
     (let s' = s\<lparr>s_cell := (\<lambda>r c. if r < rws \<and> c < cls then s_blank s else s_cell s r c)\<rparr>
      in if home then s'\<lparr>s_x := 0, s_y := 0\<rparr> else s')"

text \<open>Printing: the line wraps first when the cursor stands behind the last column.\<close>

definition s_wrap :: "nat \<Rightarrow> nat \<Rightarrow> bool \<Rightarrow> bool \<Rightarrow> nat \<Rightarrow> nat \<Rightarrow> ascreen \<Rightarrow> ascreen" where
  "s_wrap rws cls wrap scrolling t b s =
     (if s_x s < cls then s
      else if wrap \<and> (s_y s + 1 < b \<or> scrolling) then
        (if s_y s + 1 = b then s_scroll cls t b (s\<lparr>s_x := 0\<rparr>)
         else s\<lparr>s_x := 0, s_y := min (s_y s + 1) (rws - 1)\<rparr>)
      else s\<lparr>s_x := cls - 1\<rparr>)"

definition s_put :: "nat \<Rightarrow> nat \<Rightarrow> bool \<Rightarrow> bool \<Rightarrow> nat \<Rightarrow> nat \<Rightarrow> u8 \<Rightarrow> ascreen \<Rightarrow> ascreen" where
  "s_put rws cls wrap scrolling t b c s =
     (let s = s_wrap rws cls wrap scrolling t b s
      in s_write rws cls \<lparr>ch_c = ucast c, ch_fg = s_fg s, ch_bg = s_bg s\<rparr> (s_x s) (s_y s)
           (s\<lparr>s_x := s_x s + 1\<rparr>))"

section \<open>Refinement\<close>

lemma abs_screen_eqI:
  assumes "\<And>r c. r < rws \<Longrightarrow> c < cls \<Longrightarrow> cell fb (r * cls + c) = s_cell s r c"
    and "\<And>r c. \<not> (r < rws \<and> c < cls) \<Longrightarrow> s_cell s r c = null_char"
    and "cursor_x fb = s_x s" "cursor_y fb = s_y s" "text_fg fb = s_fg s" "text_bg fb = s_bg s"
  shows "abs_screen rws cls fb = s"
  using assms by (cases s) (auto simp: abs_screen_def fun_eq_iff)

lemma empty_char_blank: "empty_char fb = s_blank (abs_screen rws cls fb)"
  by (simp add: empty_char_def s_blank_def abs_screen_def)

lemma push_refines:
  assumes "fb_sync rws cls fb"
  shows "abs_screen rws cls (push_to_queue rws cls ch x y fb) = s_write rws cls ch x y (abs_screen rws cls fb)"
proof (rule abs_screen_eqI)
  fix r c
  assume rc: "r < rws" "c < cls"
  then have "r * cls + c < rws * cls" by (simp add: cell_index)
  from push_screen_upd [OF assms this] rc
  show "cell (push_to_queue rws cls ch x y fb) (r * cls + c) = s_cell (s_write rws cls ch x y (abs_screen rws cls fb)) r c"
    by (auto simp: screen_upd_def s_write_def abs_screen_def row_eq)
qed (auto simp: s_write_def abs_screen_def)

lemma fold_push_frame:
  "cursor_x (fold (\<lambda>i fb. push_to_queue rws cls (f i fb) (g i) (h i) fb) xs fb) = cursor_x fb"
  "cursor_y (fold (\<lambda>i fb. push_to_queue rws cls (f i fb) (g i) (h i) fb) xs fb) = cursor_y fb"
  "text_fg (fold (\<lambda>i fb. push_to_queue rws cls (f i fb) (g i) (h i) fb) xs fb) = text_fg fb"
  "text_bg (fold (\<lambda>i fb. push_to_queue rws cls (f i fb) (g i) (h i) fb) xs fb) = text_bg fb"
  by (induction xs arbitrary: fb) simp_all

lemma scroll_frame:
  "cursor_x (flanterm_fb_scroll ctx) = cursor_x (be ctx)" "cursor_y (flanterm_fb_scroll ctx) = cursor_y (be ctx)"
  "text_fg (flanterm_fb_scroll ctx) = text_fg (be ctx)" "text_bg (flanterm_fb_scroll ctx) = text_bg (be ctx)"
  "cursor_x (flanterm_fb_revscroll ctx) = cursor_x (be ctx)" "cursor_y (flanterm_fb_revscroll ctx) = cursor_y (be ctx)"
  "text_fg (flanterm_fb_revscroll ctx) = text_fg (be ctx)" "text_bg (flanterm_fb_revscroll ctx) = text_bg (be ctx)"
  by (simp_all add: flanterm_fb_scroll_def flanterm_fb_revscroll_def Let_def for_up_def fold_push_frame)

lemma scroll_refines:
  assumes inv: "term_inv ctx" and sync: "fb_sync (rows ctx) (cols ctx) (be ctx)"
  shows "abs_screen (rows ctx) (cols ctx) (flanterm_fb_scroll ctx) =
    s_scroll (cols ctx) (scroll_top_margin ctx) (scroll_bottom_margin ctx)
      (abs_screen (rows ctx) (cols ctx) (be ctx))"
proof (rule abs_screen_eqI)
  note b = term_inv_bounds [OF inv]
  fix r c
  assume rc: "r < rows ctx" "c < cols ctx"
  show "cell (flanterm_fb_scroll ctx) (r * cols ctx + c) = s_cell (s_scroll (cols ctx) (scroll_top_margin ctx)
      (scroll_bottom_margin ctx) (abs_screen (rows ctx) (cols ctx) (be ctx))) r c"
    unfolding scroll_screen [OF assms rc] using rc b(4)
    by (auto simp: s_scroll_def abs_screen_def s_blank_def empty_char_def)
next
  fix r c
  assume "\<not> (r < rows ctx \<and> c < cols ctx)"
  with term_inv_bounds(4) [OF inv]
  show "s_cell (s_scroll (cols ctx) (scroll_top_margin ctx)
      (scroll_bottom_margin ctx) (abs_screen (rows ctx) (cols ctx) (be ctx))) r c = null_char"
    by (auto simp: s_scroll_def abs_screen_def)
qed (simp_all add: s_scroll_def scroll_frame abs_screen_def)

lemma revscroll_refines:
  assumes inv: "term_inv ctx" and sync: "fb_sync (rows ctx) (cols ctx) (be ctx)"
    and small: "rows ctx * cols ctx \<le> SIZE_MAX"
  shows "abs_screen (rows ctx) (cols ctx) (flanterm_fb_revscroll ctx) =
    s_revscroll (cols ctx) (scroll_top_margin ctx) (scroll_bottom_margin ctx)
      (abs_screen (rows ctx) (cols ctx) (be ctx))"
proof (rule abs_screen_eqI)
  note b = term_inv_bounds [OF inv]
  fix r c
  assume rc: "r < rows ctx" "c < cols ctx"
  show "cell (flanterm_fb_revscroll ctx) (r * cols ctx + c) = s_cell (s_revscroll (cols ctx) (scroll_top_margin ctx)
      (scroll_bottom_margin ctx) (abs_screen (rows ctx) (cols ctx) (be ctx))) r c"
    unfolding revscroll_screen [OF assms rc] using rc b(4)
    by (auto simp: s_revscroll_def abs_screen_def s_blank_def empty_char_def)
next
  fix r c
  assume "\<not> (r < rows ctx \<and> c < cols ctx)"
  with term_inv_bounds(3,4) [OF inv]
  show "s_cell (s_revscroll (cols ctx) (scroll_top_margin ctx)
      (scroll_bottom_margin ctx) (abs_screen (rows ctx) (cols ctx) (be ctx))) r c = null_char"
    by (auto simp: s_revscroll_def abs_screen_def)
qed (simp_all add: s_revscroll_def scroll_frame abs_screen_def)

lemma small_screen: "term_inv ctx \<Longrightarrow> rows ctx * cols ctx \<le> SIZE_MAX"
proof -
  assume "term_inv ctx"
  then have "rows ctx * cols ctx \<le> 0x80000000 * 0x80000000"
    by (intro mult_le_mono) (simp_all add: term_inv_def)
  then show ?thesis by (simp add: SIZE_MAX_def)
qed


lemma abs_screen_cursor:
  "abs_screen rws cls (fb\<lparr>cursor_x := x\<rparr>) = (abs_screen rws cls fb)\<lparr>s_x := x\<rparr>"
  "abs_screen rws cls (fb\<lparr>cursor_y := y\<rparr>) = (abs_screen rws cls fb)\<lparr>s_y := y\<rparr>"
  by (simp_all add: abs_screen_def cell_def fun_eq_iff split: option.split)

lemma abs_screen_sel [simp]:
  "s_x (abs_screen rws cls fb) = cursor_x fb" "s_y (abs_screen rws cls fb) = cursor_y fb"
  "s_fg (abs_screen rws cls fb) = text_fg fb" "s_bg (abs_screen rws cls fb) = text_bg fb"
  by (simp_all add: abs_screen_def)

lemma wrap_refines:
  assumes inv: "term_inv ctx" and sync: "fb_synced (rows ctx) (cols ctx) (be ctx)"
  shows "abs_screen (rows ctx) (cols ctx) (raw_putchar_wrap ctx) =
    s_wrap (rows ctx) (cols ctx) (wrap_enabled ctx) (scroll_enabled ctx)
      (scroll_top_margin ctx) (scroll_bottom_margin ctx) (abs_screen (rows ctx) (cols ctx) (be ctx))"
proof -
  note b = term_inv_bounds [OF inv]
  note c = synced.I_cursor [OF sync]
  have lt: "(cursor_y (be ctx) < sub64 (scroll_bottom_margin ctx) 1) =
      (cursor_y (be ctx) + 1 < scroll_bottom_margin ctx)"
    using b(3) unfolding b(5) by linarith
  let ?m = "\<lambda>y. ctx\<lparr>be := (be ctx)\<lparr>cursor_x := 0, cursor_y := y\<rparr>\<rparr>"
  have scr: "abs_screen (rows ctx) (cols ctx) (flanterm_fb_scroll (?m y)) =
      s_scroll (cols ctx) (scroll_top_margin ctx) (scroll_bottom_margin ctx)
        ((abs_screen (rows ctx) (cols ctx) (be ctx))\<lparr>s_x := 0\<rparr>)" if "y = cursor_y (be ctx)" for y
  proof -
    have "fb_synced (rows ctx) (cols ctx) (be (?m y))"
      using that c(2) synced.I_set_cursor [OF sync, of 0 y] by simp
    then show ?thesis
      using scroll_refines [of "?m y"] inv that by (simp add: fb_synced_def abs_screen_cursor)
  qed
  show ?thesis
    unfolding raw_putchar_wrap_def Let_def s_wrap_def lt
    using c(1,2) b(2,6,7)
    by (auto simp: scr abs_screen_cursor scroll_frame not_le min_def)
qed

text \<open>A small screen to evaluate on: \<open>flanterm_fb_init\<close>'s buffers without a font.\<close>

definition demo_fb :: "nat \<Rightarrow> nat \<Rightarrow> fb_context" where
  "demo_fb rws cls = init_buffers rws cls None zero_fb"

definition demo_term :: "nat \<Rightarrow> nat \<Rightarrow> fb_term" where
  "demo_term rws cls = flanterm_context_reinit (zero_context rws cls (demo_fb rws cls))"

lemma demo_sel [simp]:
  "rows (demo_term r c) = r" "cols (demo_term r c) = c" "scroll_top_margin (demo_term r c) = 0"
  "scroll_bottom_margin (demo_term r c) = r" "wrap_enabled (demo_term r c)" "scroll_enabled (demo_term r c)"
  "autoflush (demo_term r c)" "cursor_enabled (demo_term r c)" "be (demo_term r c) = demo_fb r c"
  by (simp_all add: demo_term_def flanterm_context_reinit_def zero_context_def)

lemma demo_wf:
  assumes "0 < r" "r \<le> 0x80000000" "0 < c" "c \<le> 0x80000000"
  shows "term_inv (demo_term r c)" "fb_synced r c (demo_fb r c)"
proof -
  show "term_inv (demo_term r c)" unfolding demo_term_def using assms by (rule reinit_inv)
  have "fresh_fb r c ((demo_fb r c)\<lparr>plot_char := Unscaled_uncanvas\<rparr>)"
    unfolding demo_fb_def by (rule init_buffers_fresh) (simp_all add: assms zero_fb_def)
  then have "fresh_fb r c (demo_fb r c)" by (simp add: demo_fb_def init_buffers_def zero_fb_def)
  then show "fb_synced r c (demo_fb r c)" by (simp add: fresh_fb_def)
qed

section \<open>The drawing operations\<close>

text \<open>
  C2: printing a character is what a terminal does. \<open>flanterm_fb_raw_putchar\<close>, seen through the
  queue and the map, wraps the line and scrolls the region when the cursor stands behind the last
  column (or holds the cursor there when wrapping is off), puts the glyph with the current colours
  under the cursor, moves the cursor right and leaves every other cell alone.
\<close>

theorem raw_putchar_refines:
  assumes inv: "term_inv ctx" and sync: "fb_synced (rows ctx) (cols ctx) (be ctx)"
  shows "abs_screen (rows ctx) (cols ctx) (flanterm_fb_raw_putchar ctx ch) =
    s_put (rows ctx) (cols ctx) (wrap_enabled ctx) (scroll_enabled ctx)
      (scroll_top_margin ctx) (scroll_bottom_margin ctx) ch (abs_screen (rows ctx) (cols ctx) (be ctx))"
proof -
  let ?w = "raw_putchar_wrap ctx"
  have w: "fb_synced (rows ctx) (cols ctx) ?w" "cursor_x ?w < cols ctx"
    using synced.I_raw_putchar_wrap [OF inv sync] by simp_all
  have "fb_synced (rows ctx) (cols ctx) (?w\<lparr>cursor_x := Suc (cursor_x ?w)\<rparr>)"
    using w by (intro synced.I_set_cursor_x) simp_all
  then have "fb_sync (rows ctx) (cols ctx) (?w\<lparr>cursor_x := Suc (cursor_x ?w)\<rparr>)"
    by (simp add: fb_synced_def)
  from push_refines [OF this] show ?thesis
    unfolding flanterm_fb_raw_putchar_def s_put_def Let_def wrap_refines [OF assms, symmetric]
    by (simp add: abs_screen_cursor)
qed


theorem raw_putchar_refines_witness:
  "abs_screen 3 4 (flanterm_fb_raw_putchar (demo_term 3 4) 65) =
     s_put 3 4 True True 0 3 65 (abs_screen 3 4 (demo_fb 3 4)) \<and>
   ch_c (s_cell (abs_screen 3 4 (flanterm_fb_raw_putchar (demo_term 3 4) 65)) 0 0) = 65"
proof -
  have "abs_screen 3 4 (flanterm_fb_raw_putchar (demo_term 3 4) 65) =
     s_put 3 4 True True 0 3 65 (abs_screen 3 4 (demo_fb 3 4))"
    using raw_putchar_refines [of "demo_term 3 4" 65] demo_wf [of 3 4] by simp
  moreover have "cursor_x (demo_fb 3 4) = 0" "cursor_y (demo_fb 3 4) = 0"
    by (simp_all add: demo_fb_def init_buffers_def zero_fb_def)
  ultimately show ?thesis by (simp add: s_put_def s_wrap_def s_write_def Let_def)
qed

text \<open>
  C3: the queue never loses a change. In every state the drawing operations reach,
  \<open>push_to_queue\<close> makes the cell show the new character and leaves the others, the queue never runs
  full when an entry is needed, and the invariant between map, queue and grid is kept.
\<close>

theorem queue_refines:
  assumes "fb_sync rws cls fb"
  shows "abs_screen rws cls (push_to_queue rws cls ch x y fb) = s_write rws cls ch x y (abs_screen rws cls fb) \<and>
    fb_sync rws cls (push_to_queue rws cls ch x y fb) \<and>
    (y * cls + x < rws * cls \<longrightarrow> qmap fb ! (y * cls + x) = None \<longrightarrow> queue_i fb < rws * cls)"
  using push_refines [OF assms] push_sync [OF assms] queue_room [OF assms] by blast

theorem queue_refines_witness:
  "abs_screen 2 3 (push_to_queue 2 3 null_char 1 1 (demo_fb 2 3)) =
     s_write 2 3 null_char 1 1 (abs_screen 2 3 (demo_fb 2 3)) \<and>
   fb_sync 2 3 (push_to_queue 2 3 null_char 1 1 (demo_fb 2 3)) \<and> queue_i (demo_fb 2 3) < 6"
proof -
  have sync: "fb_sync 2 3 (demo_fb 2 3)" using demo_wf [of 2 3] by (simp add: fb_synced_def)
  have "qmap (demo_fb 2 3) ! 4 = None" by (simp add: demo_fb_def init_buffers_def)
  then show ?thesis
    using queue_refines [OF sync, of null_char 1 1] by simp
qed

text \<open>
  C7: scrolling. \<open>flanterm_fb_scroll\<close> moves the lines of the scroll region up by one and blanks its
  last line; \<open>flanterm_fb_revscroll\<close> moves them down by one and blanks the first; lines outside the region,
  the cursor and the colours are kept, although both loops read cells that earlier iterations may
  have overwritten.
\<close>

theorem scrolling_refines:
  assumes "term_inv ctx" and "fb_sync (rows ctx) (cols ctx) (be ctx)"
  shows "abs_screen (rows ctx) (cols ctx) (flanterm_fb_scroll ctx) =
      s_scroll (cols ctx) (scroll_top_margin ctx) (scroll_bottom_margin ctx)
        (abs_screen (rows ctx) (cols ctx) (be ctx)) \<and>
    abs_screen (rows ctx) (cols ctx) (flanterm_fb_revscroll ctx) =
      s_revscroll (cols ctx) (scroll_top_margin ctx) (scroll_bottom_margin ctx)
        (abs_screen (rows ctx) (cols ctx) (be ctx))"
  using scroll_refines [OF assms] revscroll_refines [OF assms small_screen [OF assms(1)]] by blast

theorem scrolling_refines_witness:
  "abs_screen 3 4 (flanterm_fb_scroll (demo_term 3 4)) = s_scroll 4 0 3 (abs_screen 3 4 (demo_fb 3 4)) \<and>
   abs_screen 3 4 (flanterm_fb_revscroll (demo_term 3 4)) = s_revscroll 4 0 3 (abs_screen 3 4 (demo_fb 3 4))"
  using scrolling_refines [of "demo_term 3 4"] demo_wf [of 3 4] by (simp add: fb_synced_def)

text \<open>
  clearing blanks every cell with the current colours, and moves the cursor home on request.
\<close>

theorem clear_refines:
  assumes inv: "term_inv ctx" and sync: "fb_sync (rows ctx) (cols ctx) (be ctx)"
  shows "abs_screen (rows ctx) (cols ctx) (flanterm_fb_clear ctx move) =
    s_clear (rows ctx) (cols ctx) move (abs_screen (rows ctx) (cols ctx) (be ctx))"
proof (rule abs_screen_eqI)
  fix r c
  assume rc: "r < rows ctx" "c < cols ctx"
  then have "r * cols ctx + c < rows ctx * cols ctx" by (simp add: cell_index)
  from clear_screen [OF assms this] rc
  show "cell (flanterm_fb_clear ctx move) (r * cols ctx + c) =
      s_cell (s_clear (rows ctx) (cols ctx) move (abs_screen (rows ctx) (cols ctx) (be ctx))) r c"
    by (simp add: s_clear_def Let_def empty_char_blank)
qed (auto simp: s_clear_def Let_def abs_screen_def flanterm_fb_clear_def for_up_def fold_push_frame)

theorem clear_refines_witness:
  "abs_screen 3 4 (flanterm_fb_clear (demo_term 3 4) True) = s_clear 3 4 True (abs_screen 3 4 (demo_fb 3 4))"
  using clear_refines [of "demo_term 3 4" True] demo_wf [of 3 4] by (simp add: fb_synced_def)

text \<open>
  a flush shows the screen. After \<open>flanterm_fb_double_buffer_flush\<close> the queue is empty, no cell
  has a pending change and the grid, from which the pixels were plotted, holds for every cell the
  character that the screen showed before the flush; what the user sees does not change.
\<close>

theorem flush_shows_screen:
  assumes "fb_sync (rows ctx) (cols ctx) (be ctx)"
  shows "queue_i (flanterm_fb_double_buffer_flush ctx) = 0 \<and>
    fb_sync (rows ctx) (cols ctx) (flanterm_fb_double_buffer_flush ctx) \<and>
    (\<forall>j < rows ctx * cols ctx. qmap (flanterm_fb_double_buffer_flush ctx) ! j = None \<and>
      grid (flanterm_fb_double_buffer_flush ctx) ! j = cell (be ctx) j)"
  using flush_grid [OF fb_sync_half [OF assms]] by blast

theorem flush_shows_screen_witness:
  "queue_i (flanterm_fb_double_buffer_flush (demo_term 2 2)) = 0 \<and>
   fb_sync 2 2 (flanterm_fb_double_buffer_flush (demo_term 2 2)) \<and>
   grid (flanterm_fb_double_buffer_flush (demo_term 2 2)) ! 3 = cell (demo_fb 2 2) 3"
  using flush_shows_screen [of "demo_term 2 2"] demo_wf [of 2 2] by (simp add: fb_synced_def)

lemma demo_fb_sel:
  "grid (demo_fb r c) = replicate (r * c) \<lparr>ch_c = 32, ch_fg = 0, ch_bg = 0\<rparr>"
  "queue (demo_fb r c) = replicate (r * c) \<lparr>qi_x = 0, qi_y = 0, qi_c = \<lparr>ch_c = 0, ch_fg = 0, ch_bg = 0\<rparr>\<rparr>"
  "queue_i (demo_fb r c) = 0" "qmap (demo_fb r c) = replicate (r * c) None"
  "cursor_x (demo_fb r c) = 0" "cursor_y (demo_fb r c) = 0" "text_fg (demo_fb r c) = 0" "text_bg (demo_fb r c) = 0"
  "glyph_height (demo_fb r c) = 0" "height (demo_fb r c) = 0" "plot_char (demo_fb r c) = Unscaled_uncanvas"
  "flush_callback (demo_fb r c) = False"
  by (simp_all add: demo_fb_def init_buffers_def zero_fb_def)

lemma call_plot_char_none:
  "plot_char fb = Unscaled_uncanvas \<Longrightarrow> glyph_height fb = 0 \<Longrightarrow> call_plot_char rws cls c x y fb = fb"
  by (simp add: call_plot_char_def plot_char_unscaled_uncanvas_def Let_def split: prod.split)

definition demo_ch :: "u32 \<Rightarrow> fb_char" where
  "demo_ch c = \<lparr>ch_c = c, ch_fg = 0, ch_bg = 0\<rparr>"

definition demo_state :: "nat \<Rightarrow> u32 \<Rightarrow> fb_queue_item list \<Rightarrow> nat \<Rightarrow> nat option \<Rightarrow> fb_context" where
  "demo_state x c qs n m = (demo_fb 1 2)\<lparr>grid := [demo_ch c, demo_ch 32], queue := qs, queue_i := n,
     qmap := [m, None], cursor_x := x\<rparr>"

lemma demo_state_sel:
  "grid (demo_state x c qs n m) = [demo_ch c, demo_ch 32]" "queue (demo_state x c qs n m) = qs"
  "queue_i (demo_state x c qs n m) = n" "qmap (demo_state x c qs n m) = [m, None]"
  "cursor_x (demo_state x c qs n m) = x" "cursor_y (demo_state x c qs n m) = 0"
  "text_fg (demo_state x c qs n m) = 0" "text_bg (demo_state x c qs n m) = 0"
  "glyph_height (demo_state x c qs n m) = 0" "height (demo_state x c qs n m) = 0"
  "plot_char (demo_state x c qs n m) = Unscaled_uncanvas" "flush_callback (demo_state x c qs n m) = False"
  by (simp_all add: demo_state_def demo_fb_sel)

lemma demo_putchar:
  assumes "be t = demo_state 0 c qs n None" "rows t = 1" "cols t = 2" "ucast a \<noteq> c" "n < 2" "length qs = 2"
  shows "flanterm_fb_raw_putchar t a =
    demo_state 1 c (qs[n := \<lparr>qi_x = 0, qi_y = 0, qi_c = demo_ch (ucast a)\<rparr>]) (Suc n) (Some n)"
  unfolding flanterm_fb_raw_putchar_def raw_putchar_wrap_def Let_def assms(1)
  using assms(2-6)
  by (simp add: demo_state_sel push_to_queue_def compare_char_def) (simp add: demo_state_def demo_ch_def)

lemma demo_refresh:
  assumes "be t = demo_state 0 c qs n (Some 0)" "rows t = 1" "cols t = 2" "cursor_enabled t"
    "qi_c (qs ! 0) = demo_ch a"
  shows "flanterm_fb_full_refresh t = demo_state 0 a qs n None"
proof -
  have "for_up 0 2 (\<lambda>i fb. call_plot_char 1 2 (grid fb ! i) (i mod 2) (i div 2) fb) (demo_state 0 c qs n (Some 0))
      = demo_state 0 c qs n (Some 0)"
    by (rule for_up_inv) (simp_all add: call_plot_char_none demo_state_sel)
  then have "flanterm_fb_full_refresh t = draw_cursor 1 2 (demo_state 0 c qs n (Some 0))"
    unfolding flanterm_fb_full_refresh_def Let_def assms(1)
    using assms(2-4) by (simp add: demo_state_sel call_flush_callback_def draw_cursor_def Let_def call_plot_char_none)
  also have "\<dots> = demo_state 0 a qs n None"
    using assms(5) by (simp add: draw_cursor_def Let_def demo_state_sel call_plot_char_none) (simp add: demo_state_def)
  finally show ?thesis .
qed


lemma demo_start:
  "demo_fb 1 2 = demo_state 0 32 (replicate 2 \<lparr>qi_x = 0, qi_y = 0, qi_c = demo_ch 0\<rparr>) 0 None"
proof -
  have two: "replicate 2 z = [z, z]" for z :: 'z by (simp add: numeral_2_eq_2)
  have upd: "fb = fb\<lparr>grid := g, queue := q, queue_i := n, qmap := m, cursor_x := x\<rparr>"
    if "grid fb = g" "queue fb = q" "queue_i fb = n" "qmap fb = m" "cursor_x fb = x"
    for fb :: fb_context and g q n m x
    using that by auto
  show ?thesis
    unfolding demo_state_def by (rule upd) (simp_all add: demo_fb_sel demo_ch_def two)
qed

lemma demo_flush:
  assumes "be t = demo_state 1 c [q, q'] 2 (Some 1)" "rows t = 1" "cols t = 2" "cursor_enabled t"
    "qi_x q = 0" "qi_y q = 0" "qi_c q = demo_ch a" "qi_x q' = 0" "qi_y q' = 0"
  shows "ch_c (grid (flanterm_fb_double_buffer_flush t) ! 0) = a"
proof -
  let ?s = "demo_state 1 c [q, q'] 2 (Some 1)"
  have cur: "draw_cursor 1 2 ?s = ?s"
    by (simp add: draw_cursor_def Let_def demo_state_sel call_plot_char_none)
  have f0: "flush_item 1 2 0 ?s = demo_state 1 a [q, q'] 2 None"
    using assms(5-7) by (simp add: flush_item_def Let_def demo_state_sel call_plot_char_none)
      (simp add: demo_state_def)
  have f1: "flush_item 1 2 1 (demo_state 1 a [q, q'] 2 None) = demo_state 1 a [q, q'] 2 None"
    using assms(8,9) by (simp add: flush_item_def Let_def demo_state_sel)
  have items: "for_up 0 2 (flush_item 1 2) ?s = demo_state 1 a [q, q'] 2 None"
    using f0 f1 by (simp add: for_up_def numeral_2_eq_2)
  obtain p l where "flanterm_fb_double_buffer_flush t = (demo_state 1 a [q, q'] 2 None)\<lparr>pixels := p,
      flush_log := l, old_cursor_x := 1, old_cursor_y := 0, queue_i := 0\<rparr>"
    using flush_steps [of t] assms(1-4) cur items by (auto simp: Let_def demo_state_sel)
  then show ?thesis by (simp add: demo_state_sel demo_ch_def)
qed

text \<open>
  a refresh between a write and its flush loses the next write. When \<open>flanterm_fb_full_refresh\<close>
  draws the cursor over a cell with a pending change, it clears the cell's map entry but leaves the
  change in the queue. A later character for the same cell gets a second entry, and the next flush plots the older
  entry and skips the newer one: here \<open>B\<close> is printed over \<open>A\<close>, and the grid keeps \<open>A\<close>.
\<close>

theorem full_refresh_loses_write:
  "let t0 = demo_term 1 2;
       t1 = t0\<lparr>be := flanterm_fb_raw_putchar t0 (byte CHR ''A'')\<rparr>;
       t2 = t1\<lparr>be := flanterm_fb_set_cursor_pos t1 0 0\<rparr>;
       t3 = t2\<lparr>be := flanterm_fb_full_refresh t2\<rparr>;
       t4 = t3\<lparr>be := flanterm_fb_raw_putchar t3 (byte CHR ''B'')\<rparr>
   in ch_c (cell (be t4) 0) = 66 \<and> ch_c (grid (flanterm_fb_double_buffer_flush t4) ! 0) = 65"
proof -
  let ?z = "\<lparr>qi_x = 0, qi_y = 0, qi_c = demo_ch 0\<rparr>"
  let ?A = "\<lparr>qi_x = 0, qi_y = 0, qi_c = demo_ch 65\<rparr>" and ?B = "\<lparr>qi_x = 0, qi_y = 0, qi_c = demo_ch 66\<rparr>"
  let ?t0 = "demo_term 1 2"
  have two: "replicate 2 z = [z, z]" for z :: 'z by (simp add: numeral_2_eq_2)
  have e1: "flanterm_fb_raw_putchar ?t0 65 = demo_state 1 32 [?A, ?z] 1 (Some 0)"
    using demo_putchar [of ?t0 32 "[?z, ?z]" 0 65] by (simp add: demo_start [simplified] two)
  have e2: "flanterm_fb_set_cursor_pos (?t0\<lparr>be := demo_state 1 32 [?A, ?z] 1 (Some 0)\<rparr>) 0 0
      = demo_state 0 32 [?A, ?z] 1 (Some 0)"
    by (simp add: flanterm_fb_set_cursor_pos_def clamp_coord_def demo_state_def demo_fb_sel)
  have e3: "flanterm_fb_full_refresh (?t0\<lparr>be := demo_state 0 32 [?A, ?z] 1 (Some 0)\<rparr>)
      = demo_state 0 65 [?A, ?z] 1 None"
    by (rule demo_refresh) simp_all
  have e4: "flanterm_fb_raw_putchar (?t0\<lparr>be := demo_state 0 65 [?A, ?z] 1 None\<rparr>) 66
      = demo_state 1 65 [?A, ?B] 2 (Some 1)"
    using demo_putchar [of "?t0\<lparr>be := demo_state 0 65 [?A, ?z] 1 None\<rparr>" 65 "[?A, ?z]" 1 66]
    by (simp add: Suc_1 del: One_nat_def) simp
  have e5: "ch_c (grid (flanterm_fb_double_buffer_flush (?t0\<lparr>be := demo_state 1 65 [?A, ?B] 2 (Some 1)\<rparr>)) ! 0) = 65"
    by (rule demo_flush [where c = 65 and q = ?A and q' = ?B]) simp_all
  show ?thesis
    unfolding Let_def using e1 e2 e3 e4 e5 by (simp add: cell_def demo_state_sel demo_ch_def)
qed

end
