(* ===== verification/Flanterm_Decode.thy ===== *)
theory Flanterm_Decode
  imports Flanterm_Init
begin

text \<open>
  What the byte machine of \<^verbatim>\<open>flanterm.c\<close> recognises: the UTF-8 decoder is correct for every scalar
  value, and the parameters of a CSI sequence are the numbers written in it. \<open>utf8\<close> and \<open>decimal\<close> are
  the encoders the statements are relative to.
\<close>

section \<open>UTF-8\<close>

definition utf8 :: "nat \<Rightarrow> u8 list" where
  "utf8 cp =
     (if cp < 0x80 then [of_nat cp]
      else if cp < 0x800 then [of_nat (0xc0 + cp div 64), of_nat (0x80 + cp mod 64)]
      else if cp < 0x10000 then
        [of_nat (0xe0 + cp div 4096), of_nat (0x80 + cp div 64 mod 64), of_nat (0x80 + cp mod 64)]
      else
        [of_nat (0xf0 + cp div 262144), of_nat (0x80 + cp div 4096 mod 64),
         of_nat (0x80 + cp div 64 mod 64), of_nat (0x80 + cp mod 64)])"

lemma u8_and_mask:
  assumes "n < 256"
  shows "unat ((of_nat n :: u8) AND 0x3f) = n mod 64" "unat ((of_nat n :: u8) AND 0x1f) = n mod 32"
    "unat ((of_nat n :: u8) AND 0x0f) = n mod 16" "unat ((of_nat n :: u8) AND 0x07) = n mod 8"
proof -
  have m: "(0x3f :: u8) = mask 6" "(0x1f :: u8) = mask 5" "(0x0f :: u8) = mask 4" "(0x07 :: u8) = mask 3"
    by (simp_all add: mask_eq_exp_minus_1)
  have n: "unat (of_nat n :: u8) = n"
    using assms by (simp add: unat_of_nat)
  show "unat ((of_nat n :: u8) AND 0x3f) = n mod 64" "unat ((of_nat n :: u8) AND 0x1f) = n mod 32"
    "unat ((of_nat n :: u8) AND 0x0f) = n mod 16" "unat ((of_nat n :: u8) AND 0x07) = n mod 8"
    unfolding m take_bit_eq_mask [symmetric]
    by (simp_all add: take_bit_eq_mod unat_mod_distrib n)
qed

lemma u8_continuation: "k < 64 \<Longrightarrow> (of_nat (0x80 + k) :: u8) AND 0xc0 = 0x80"
proof -
  have all: "\<forall>k < 64. (of_nat (0x80 + k) :: u8) AND 0xc0 = 0x80" by code_simp
  then show "k < 64 \<Longrightarrow> (of_nat (0x80 + k) :: u8) AND 0xc0 = 0x80" by blast
qed

lemma push_bit_or:
  fixes a b :: nat
  assumes "b < 2 ^ n"
  shows "push_bit n a OR b = a * 2 ^ n + b"
proof -
  have "\<not> bit (push_bit n a) m \<or> \<not> bit b m" for m
  proof (cases "m < n")
    case True
    then show ?thesis by (simp add: bit_push_bit_iff)
  next
    case False
    then have "b < 2 ^ m" by (intro order_less_le_trans [OF assms] power_increasing) simp_all
    then have "b div 2 ^ m = 0" by simp
    then show ?thesis by (simp add: bit_iff_odd)
  qed
  then have "push_bit n a + b = push_bit n a OR b" by (rule disjunctive_add)
  then show ?thesis by (simp add: push_bit_eq_mult)
qed

text \<open>The state in which a multi-byte sequence may start.\<close>

definition ready :: "'b flanterm_context \<Rightarrow> bool" where
  "ready ctx \<longleftrightarrow> \<not> discard_next ctx \<and> unicode_remaining ctx = 0"

lemma u8_of_nat_le [simp]: "n < 256 \<Longrightarrow> m < 256 \<Longrightarrow> ((of_nat n :: u8) \<le> of_nat m) = (n \<le> m)"
  by (simp add: word_le_nat_alt unat_of_nat)

lemma lead_byte:
  assumes "ready ctx" and "0xc2 \<le> n" "n \<le> 0xf4"
  shows "flanterm_putchar ops (of_nat n) ctx = putchar_lead (of_nat n) ctx"
proof -
  have "(0xc2 :: u8) \<le> of_nat n" "(of_nat n :: u8) \<le> 0xf4"
    using assms by (simp_all add: word_le_nat_alt unat_of_nat)
  moreover have "(of_nat n :: u8) \<noteq> 0x18" "(of_nat n :: u8) \<noteq> 0x1a"
    using assms by (auto simp: word_unat_eq_iff unat_of_nat)
  ultimately show ?thesis using assms(1) by (simp add: flanterm_putchar_def putchar_byte_def ready_def)
qed

lemma continue_byte:
  assumes "\<not> discard_next ctx" and "unicode_remaining ctx \<noteq> 0" and "k < 64"
  shows "flanterm_putchar ops (of_nat (0x80 + k)) ctx = putchar_continue ops (of_nat (0x80 + k)) ctx"
proof -
  have "(of_nat (0x80 + k) :: u8) \<noteq> 0x18" "(of_nat (0x80 + k) :: u8) \<noteq> 0x1a"
    using assms(3) unfolding word_unat_eq_iff by (simp_all add: unat_of_nat del: of_nat_add)
  with assms(1,2) show ?thesis by (simp add: flanterm_putchar_def del: of_nat_add)
qed

lemma mod_eqI: "n = k * m + r \<Longrightarrow> r < m \<Longrightarrow> n mod m = (r :: nat)"
  by simp

lemma continue_value:
  assumes "k < 64"
  shows "unat ((of_nat (0x80 + k) :: u8) AND 0x3f) = k"
proof -
  have "unat ((of_nat (0x80 + k) :: u8) AND 0x3f) = (0x80 + k) mod 64"
    by (rule u8_and_mask) (use assms in simp)
  also have "\<dots> = k" by (rule mod_eqI [of _ 2]) (use assms in simp_all)
  finally show ?thesis .
qed


lemma lead_state:
  "0xc2 \<le> n \<Longrightarrow> n \<le> 0xdf \<Longrightarrow> putchar_lead (of_nat n) ctx =
     ctx\<lparr>g_select := 0, unicode_remaining := 1, code_point := (n - 0xc0) * 64\<rparr>"
  "0xe0 \<le> n \<Longrightarrow> n \<le> 0xef \<Longrightarrow> putchar_lead (of_nat n) ctx =
     ctx\<lparr>g_select := 0, unicode_remaining := 2, code_point := (n - 0xe0) * 4096\<rparr>"
  "0xf0 \<le> n \<Longrightarrow> n \<le> 0xf4 \<Longrightarrow> putchar_lead (of_nat n) ctx =
     ctx\<lparr>g_select := 0, unicode_remaining := 3, code_point := (n - 0xf0) * 262144\<rparr>"
proof -
  have num: "(0xc2 :: u8) = of_nat 0xc2" "(0xdf :: u8) = of_nat 0xdf" "(0xe0 :: u8) = of_nat 0xe0"
    "(0xef :: u8) = of_nat 0xef" "(0xf0 :: u8) = of_nat 0xf0" "(0xf4 :: u8) = of_nat 0xf4"
    by simp_all
  show "putchar_lead (of_nat n) ctx =
     ctx\<lparr>g_select := 0, unicode_remaining := 1, code_point := (n - 0xc0) * 64\<rparr>" if "0xc2 \<le> n" "n \<le> 0xdf"
  proof -
    have "n mod 32 = n - 0xc0" by (rule mod_eqI [of _ 6]) (use that in simp_all)
    with that show ?thesis
      unfolding putchar_lead_def Let_def num
      by (simp add: u8_and_mask push_bit_eq_mult del: of_nat_numeral)
  qed
  show "putchar_lead (of_nat n) ctx =
     ctx\<lparr>g_select := 0, unicode_remaining := 2, code_point := (n - 0xe0) * 4096\<rparr>" if "0xe0 \<le> n" "n \<le> 0xef"
  proof -
    have "n mod 16 = n - 0xe0" by (rule mod_eqI [of _ 14]) (use that in simp_all)
    with that show ?thesis
      unfolding putchar_lead_def Let_def num
      by (simp add: u8_and_mask push_bit_eq_mult del: of_nat_numeral)
  qed
  show "putchar_lead (of_nat n) ctx =
     ctx\<lparr>g_select := 0, unicode_remaining := 3, code_point := (n - 0xf0) * 262144\<rparr>" if "0xf0 \<le> n" "n \<le> 0xf4"
  proof -
    have "n mod 8 = n - 0xf0" by (rule mod_eqI [of _ 30]) (use that in simp_all)
    with that show ?thesis
      unfolding putchar_lead_def Let_def num
      by (simp add: u8_and_mask push_bit_eq_mult del: of_nat_numeral)
  qed
qed

text \<open>One continuation byte of a sequence that is neither overlong nor out of range.\<close>

lemma continue_state:
  assumes rem: "unicode_remaining ctx = Suc r" "r \<le> 2" and k: "k < 64" and cp: "code_point ctx = a * 64 ^ Suc r"
    and long2: "r = 1 \<Longrightarrow> 0x800 \<le> (a * 64 + k) * 64" and long3: "r = 2 \<Longrightarrow> 0x10000 \<le> (a * 64 + k) * 4096"
    and max: "r = 2 \<Longrightarrow> (a * 64 + k) * 4096 \<le> 0x10ffff"
  shows "putchar_continue ops (of_nat (0x80 + k)) ctx =
    (if r \<noteq> 0 then ctx\<lparr>unicode_remaining := r, code_point := (a * 64 + k) * 64 ^ r\<rparr>
     else if 0xd800 \<le> a * 64 + k \<and> a * 64 + k \<le> 0xdfff
       then putchar_byte ops (of_nat (0x80 + k)) (ctx\<lparr>unicode_remaining := 0, code_point := a * 64 + k\<rparr>)
     else putchar_unicode ops (ctx\<lparr>unicode_remaining := 0, code_point := a * 64 + k\<rparr>))"
proof -
  have "push_bit (6 * r) (a * 64 + k) = push_bit (6 * r) (push_bit 6 a OR k)"
    using push_bit_or [of k 6 a] k by simp
  also have "\<dots> = push_bit (6 * r + 6) a OR push_bit (6 * r) k"
    by (simp add: push_bit_or add.commute)
  finally have "code_point ctx OR push_bit (6 * r) k = (a * 64 + k) * 64 ^ r"
    unfolding cp by (simp add: push_bit_eq_mult power_add power_mult mult.assoc mult.commute [of 64])
  moreover have "(of_nat (0x80 + k) :: u8) AND 0xc0 = 0x80" using k by (rule u8_continuation)
  ultimately show ?thesis
    using rem continue_value [OF k] long2 long3 max
    unfolding putchar_continue_def Let_def
    by (auto simp del: of_nat_add)
qed


lemma cp_split:
  fixes cp :: nat
  shows "cp div 64 * 64 + cp mod 64 = cp" "(cp div 4096 * 64 + cp div 64 mod 64) = cp div 64"
    "(cp div 262144 * 64 + cp div 4096 mod 64) = cp div 4096"
proof -
  have "cp div 4096 = cp div 64 div 64" "cp div 262144 = cp div 4096 div 64"
    by (simp_all add: div_mult2_eq [symmetric])
  then show "cp div 64 * 64 + cp mod 64 = cp" "(cp div 4096 * 64 + cp div 64 mod 64) = cp div 64"
    "(cp div 262144 * 64 + cp div 4096 mod 64) = cp div 4096"
    by simp_all
qed

lemma utf8_decode_2:
  assumes "ready ctx" "0x80 \<le> cp" "cp < 0x800"
  shows "fold (flanterm_putchar ops) (utf8 cp) ctx =
    putchar_unicode ops (ctx\<lparr>g_select := 0, unicode_remaining := 0, code_point := cp\<rparr>)"
proof -
  have lead: "0xc2 \<le> 0xc0 + cp div 64" "0xc0 + cp div 64 \<le> 0xdf"
    using div_le_mono [of "0x80" cp 64] div_le_mono [of cp "0x7ff" 64] assms(2,3) by simp_all
  let ?c1 = "ctx\<lparr>g_select := 0, unicode_remaining := 1, code_point := cp div 64 * 64\<rparr>"
  have 1: "flanterm_putchar ops (of_nat (0xc0 + cp div 64)) ctx = ?c1"
    using lead_byte [OF assms(1) lead(1)] lead lead_state(1) [OF lead] by (simp del: of_nat_add)
  have "flanterm_putchar ops (of_nat (0x80 + cp mod 64)) ?c1
      = putchar_continue ops (of_nat (0x80 + cp mod 64)) ?c1"
    using assms(1) by (intro continue_byte) (simp_all add: ready_def)
  also have "\<dots> = putchar_unicode ops (ctx\<lparr>g_select := 0, unicode_remaining := 0, code_point := cp\<rparr>)"
    using continue_state [of ?c1 0 "cp mod 64" "cp div 64" ops] assms(3) by (simp del: of_nat_add)
  finally show ?thesis using assms 1 by (simp add: utf8_def del: of_nat_add)
qed

lemma utf8_decode_3:
  assumes "ready ctx" "0x800 \<le> cp" "cp < 0x10000" "\<not> (0xd800 \<le> cp \<and> cp \<le> 0xdfff)"
  shows "fold (flanterm_putchar ops) (utf8 cp) ctx =
    putchar_unicode ops (ctx\<lparr>g_select := 0, unicode_remaining := 0, code_point := cp\<rparr>)"
proof -
  have lead: "0xe0 \<le> 0xe0 + cp div 4096" "0xe0 + cp div 4096 \<le> 0xef"
    using div_le_mono [of cp "0xffff" 4096] assms(3) by simp_all
  let ?c1 = "ctx\<lparr>g_select := 0, unicode_remaining := 2, code_point := cp div 4096 * 4096\<rparr>"
  let ?c2 = "ctx\<lparr>g_select := 0, unicode_remaining := 1, code_point := cp div 64 * 64\<rparr>"
  let ?k1 = "cp div 64 mod 64" and ?k2 = "cp mod 64"
  have 1: "flanterm_putchar ops (of_nat (0xe0 + cp div 4096)) ctx = ?c1"
    using lead_byte [OF assms(1), of "0xe0 + cp div 4096"] lead lead_state(2) [OF lead] by (simp del: of_nat_add)
  have "flanterm_putchar ops (of_nat (0x80 + ?k1)) ?c1 = putchar_continue ops (of_nat (0x80 + ?k1)) ?c1"
    using assms(1) by (intro continue_byte) (simp_all add: ready_def)
  also have "\<dots> = ?c2"
    using continue_state [of ?c1 1 ?k1 "cp div 4096" ops] cp_split(2) [of cp]
      mult_le_mono1 [OF div_le_mono [of "0x800" cp 64], of 64] assms(2)
    by (simp del: of_nat_add)
  finally have 2: "flanterm_putchar ops (of_nat (0x80 + ?k1)) ?c1 = ?c2" .
  have "flanterm_putchar ops (of_nat (0x80 + ?k2)) ?c2 = putchar_continue ops (of_nat (0x80 + ?k2)) ?c2"
    using assms(1) by (intro continue_byte) (simp_all add: ready_def)
  also have "\<dots> = putchar_unicode ops (ctx\<lparr>g_select := 0, unicode_remaining := 0, code_point := cp\<rparr>)"
    using continue_state [of ?c2 0 ?k2 "cp div 64" ops] assms(4) by (auto simp del: of_nat_add)
  finally show ?thesis using assms 1 2 by (simp add: utf8_def del: of_nat_add)
qed

lemma utf8_decode_4:
  assumes "ready ctx" "0x10000 \<le> cp" "cp \<le> 0x10ffff"
  shows "fold (flanterm_putchar ops) (utf8 cp) ctx =
    putchar_unicode ops (ctx\<lparr>g_select := 0, unicode_remaining := 0, code_point := cp\<rparr>)"
proof -
  have lead: "0xf0 \<le> 0xf0 + cp div 262144" "0xf0 + cp div 262144 \<le> 0xf4"
    using div_le_mono [of cp "0x10ffff" 262144] assms(3) by simp_all
  let ?c1 = "ctx\<lparr>g_select := 0, unicode_remaining := 3, code_point := cp div 262144 * 262144\<rparr>"
  let ?c2 = "ctx\<lparr>g_select := 0, unicode_remaining := 2, code_point := cp div 4096 * 4096\<rparr>"
  let ?c3 = "ctx\<lparr>g_select := 0, unicode_remaining := 1, code_point := cp div 64 * 64\<rparr>"
  let ?k1 = "cp div 4096 mod 64" and ?k2 = "cp div 64 mod 64" and ?k3 = "cp mod 64"
  have 1: "flanterm_putchar ops (of_nat (0xf0 + cp div 262144)) ctx = ?c1"
    using lead_byte [OF assms(1), of "0xf0 + cp div 262144"] lead lead_state(3) [OF lead] by (simp del: of_nat_add)
  have "flanterm_putchar ops (of_nat (0x80 + ?k1)) ?c1 = putchar_continue ops (of_nat (0x80 + ?k1)) ?c1"
    using assms(1) by (intro continue_byte) (simp_all add: ready_def)
  also have "\<dots> = ?c2"
  proof -
    have "0x10000 \<le> cp div 4096 * 4096"
      using mult_le_mono1 [OF div_le_mono [of "0x10000" cp 4096], of 4096] assms(2) by simp
    moreover have "cp div 4096 * 4096 \<le> 0x10ffff"
      using div_times_less_eq_dividend [of cp 4096] assms(3) by (rule order_trans)
    moreover note cp_split(3) [of cp]
    ultimately show ?thesis
      using continue_state [of ?c1 2 ?k1 "cp div 262144" ops] by (simp del: of_nat_add)
  qed
  finally have 2: "flanterm_putchar ops (of_nat (0x80 + ?k1)) ?c1 = ?c2" .
  have "flanterm_putchar ops (of_nat (0x80 + ?k2)) ?c2 = putchar_continue ops (of_nat (0x80 + ?k2)) ?c2"
    using assms(1) by (intro continue_byte) (simp_all add: ready_def)
  also have "\<dots> = ?c3"
    using continue_state [of ?c2 1 ?k2 "cp div 4096" ops] cp_split(2) [of cp]
      mult_le_mono1 [OF div_le_mono [of "0x800" cp 64], of 64] assms(2)
    by (simp del: of_nat_add)
  finally have 3: "flanterm_putchar ops (of_nat (0x80 + ?k2)) ?c2 = ?c3" .
  have "flanterm_putchar ops (of_nat (0x80 + ?k3)) ?c3 = putchar_continue ops (of_nat (0x80 + ?k3)) ?c3"
    using assms(1) by (intro continue_byte) (simp_all add: ready_def)
  also have "\<dots> = putchar_unicode ops (ctx\<lparr>g_select := 0, unicode_remaining := 0, code_point := cp\<rparr>)"
    using continue_state [of ?c3 0 ?k3 "cp div 64" ops] assms(2) by (auto simp del: of_nat_add)
  finally show ?thesis using assms 1 2 3 by (simp add: utf8_def del: of_nat_add)
qed

text \<open>
  C5: the UTF-8 decoder is correct. Writing the encoding of any Unicode scalar value above ASCII,
  of two, three or four bytes, when no sequence is pending, ends in the state where exactly that
  code point is displayed: no byte is printed on its own, whatever escape sequence was under way.
\<close>

theorem utf8_decode:
  assumes "ready ctx" and "0x80 \<le> cp" "cp \<le> 0x10ffff" "\<not> (0xd800 \<le> cp \<and> cp \<le> 0xdfff)"
  shows "fold (flanterm_putchar ops) (utf8 cp) ctx =
    putchar_unicode ops (ctx\<lparr>g_select := 0, unicode_remaining := 0, code_point := cp\<rparr>)"
proof -
  consider "cp < 0x800" | "0x800 \<le> cp" "cp < 0x10000" | "0x10000 \<le> cp" by linarith
  then show ?thesis
    using assms by cases (simp_all add: utf8_decode_2 utf8_decode_3 utf8_decode_4)
qed

theorem utf8_decode_witness:
  "fold (flanterm_putchar fb_ops) [0xe2, 0x82, 0xac] (zero_context 25 80 zero_fb) =
    putchar_unicode fb_ops ((zero_context 25 80 zero_fb)\<lparr>g_select := 0, unicode_remaining := 0, code_point := 0x20ac\<rparr>)"
proof -
  have "utf8 0x20ac = [0xe2, 0x82, 0xac]" by (simp add: utf8_def)
  then show ?thesis
    using utf8_decode [where ctx = "zero_context 25 80 zero_fb" and cp = "0x20ac" and ops = fb_ops] by (simp add: ready_def zero_context_def)
qed


section \<open>CSI parameters\<close>

fun decimal :: "nat \<Rightarrow> u8 list" where
  "decimal n = (if n < 10 then [of_nat (0x30 + n)] else decimal (n div 10) @ [of_nat (0x30 + n mod 10)])"

declare decimal.simps [simp del]

text \<open>The state of the parser after the digits read so far: parameter \<open>esc_values_i\<close> holds \<open>v\<close>.\<close>

definition param :: "nat \<Rightarrow> 'b flanterm_context \<Rightarrow> 'b flanterm_context" where
  "param v ctx = ctx\<lparr>rrr := True, esc_values := (esc_values ctx)[esc_values_i ctx := of_nat v]\<rparr>"

lemma csi_digit_param:
  assumes i: "esc_values_i ctx < FLANTERM_MAX_ESC_VALUES" "length (esc_values ctx) = FLANTERM_MAX_ESC_VALUES"
    and v: "v * 10 + d \<le> 0xFFFFFFFF" and d: "d < 10"
  shows "csi_digit (of_nat (0x30 + d)) (param v ctx) = param (v * 10 + d) ctx"
proof -
  have u: "unat (of_nat w :: u32) = w" if "w \<le> 0xFFFFFFFF" for w
    using that by (simp add: unat_of_nat)
  have dig: "unat ((of_nat (0x30 + d) :: u8) - byte CHR ''0'') = d"
    using d by (simp add: unat_of_nat)
  have e: "esc (esc_values_i ctx) (param w ctx) = w" if "w \<le> 0xFFFFFFFF" for w
    using that i u [OF that] by (simp add: esc_def param_def)
  have s: "set_esc (esc_values_i ctx) w (param w' ctx) = param w ctx" for w w'
    by (simp add: set_esc_def param_def)
  have i': "esc_values_i (param w ctx) = esc_values_i ctx" "(param w ctx)\<lparr>rrr := True\<rparr> = param w ctx" for w
    by (simp_all add: param_def)
  have "v \<le> 0xFFFFFFFF div 10" using v by simp
  moreover have "v \<le> 0xFFFFFFFF" "v * 10 \<le> 0xFFFFFFFF" using v by simp_all
  ultimately show ?thesis
    unfolding csi_digit_def Let_def dig i' using i(1) v
    by (simp only: e s) (simp add: e)
qed

lemma decimal_param:
  assumes i: "esc_values_i ctx < FLANTERM_MAX_ESC_VALUES" "length (esc_values ctx) = FLANTERM_MAX_ESC_VALUES"
    and n: "n \<le> 0xFFFFFFFF"
  shows "fold csi_digit (decimal n) (param 0 ctx) = param n ctx"
  using n
proof (induction n rule: decimal.induct)
  case (1 n)
  show ?case
  proof (cases "n < 10")
    case True
    then show ?thesis using csi_digit_param [OF i, of 0 n] by (subst decimal.simps) simp
  next
    case False
    then have IH: "fold csi_digit (decimal (n div 10)) (param 0 ctx) = param (n div 10) ctx"
      using 1 by (metis div_le_dividend order_trans)
    have "n div 10 * 10 + n mod 10 = n" by (rule div_mult_mod_eq)
    with csi_digit_param [OF i, of "n div 10" "n mod 10"] False 1(2) IH show ?thesis
      by (subst decimal.simps) (simp del: of_nat_add)
  qed
qed

text \<open>
  a CSI parameter means the number written. Inside a control sequence, the decimal digits of
  any \<open>n\<close> below 2 to the 32 set the current parameter to exactly \<open>n\<close>, without wrapping around and
  without touching another parameter.
\<close>

theorem csi_number:
  assumes "esc_values_i ctx < FLANTERM_MAX_ESC_VALUES" "length (esc_values ctx) = FLANTERM_MAX_ESC_VALUES"
    "esc_values ctx ! esc_values_i ctx = 0" "n \<le> 0xFFFFFFFF"
  shows "fold csi_digit (decimal n) (ctx\<lparr>rrr := True\<rparr>) =
    ctx\<lparr>rrr := True, esc_values := (esc_values ctx)[esc_values_i ctx := of_nat n]\<rparr>"
proof -
  have "param 0 ctx = ctx\<lparr>rrr := True\<rparr>"
    using assms(3) list_update_id [of "esc_values ctx" "esc_values_i ctx"] by (simp add: param_def)
  with decimal_param [OF assms(1,2,4)] show ?thesis by (simp add: param_def)
qed

theorem csi_number_witness:
  "fold csi_digit [0x31, 0x32, 0x30] ((zero_context 25 80 zero_fb)\<lparr>rrr := True\<rparr>) =
    (zero_context 25 80 zero_fb)\<lparr>rrr := True, esc_values := (replicate 16 0)[0 := 120]\<rparr>"
proof -
  have "decimal 120 = [0x31, 0x32, 0x30]" by (simp add: decimal.simps)
  then show ?thesis
    using csi_number [where ctx = "zero_context 25 80 zero_fb" and n = 120]
    by (simp add: zero_context_def FLANTERM_MAX_ESC_VALUES_def)
qed

text \<open>
  a parameter that does not fit is not always saturated. The code clamps to \<open>UINT32_MAX\<close> when
  the addition of a digit overflows, but when the multiplication by ten would overflow it drops the
  digit and keeps the shorter number: 4294967296 is read as 4294967295, the larger 5000000000 as 500000000.
\<close>

theorem csi_number_overflow:
  "esc 0 (fold csi_digit (decimal 4294967296) (zero_context r c b)) = 4294967295 \<and>
   esc 0 (fold csi_digit (decimal 5000000000) (zero_context r c b)) = 500000000"
  by (simp add: decimal.simps csi_digit_def Let_def esc_def set_esc_def zero_context_def FLANTERM_MAX_ESC_VALUES_def)

end
