(* ===== verification/Flanterm_Csi.thy ===== *)
theory Flanterm_Csi
  imports Screen_Spec Flanterm_Decode
begin

text \<open>
  Control sequences end to end: from the bytes a client writes to the call of the backend. The
  parser's two states \<open>ground\<close> and \<open>in_csi\<close> are those of \<^verbatim>\<open>escape_parse\<close> and
  \<^verbatim>\<open>control_sequence_parse\<close>.
\<close>

section \<open>Control sequences\<close>

text \<open>The parser is between sequences.\<close>

definition ground :: "'b flanterm_context \<Rightarrow> bool" where
  "ground ctx \<longleftrightarrow> ready ctx \<and> \<not> escape ctx \<and> \<not> control_sequence ctx \<and> \<not> osc ctx \<and> \<not> dec_private ctx \<and>
     g_select ctx = 0 \<and> length (esc_values ctx) = FLANTERM_MAX_ESC_VALUES"

text \<open>The parser is inside a control sequence that started in the ground state.\<close>

definition in_csi :: "'b flanterm_context \<Rightarrow> bool" where
  "in_csi ctx \<longleftrightarrow> ready ctx \<and> escape ctx \<and> control_sequence ctx \<and> \<not> osc ctx \<and> \<not> dec_private ctx \<and>
     \<not> csi_unhandled ctx \<and> g_select ctx = 0 \<and> length (esc_values ctx) = FLANTERM_MAX_ESC_VALUES"

definition csi_start :: "'b flanterm_context \<Rightarrow> 'b flanterm_context" where
  "csi_start ctx = ctx\<lparr>escape := True, escape_offset := 1, esc_values := replicate 16 0, esc_values_i := 0,
     rrr := False, csi_unhandled := False, control_sequence := True\<rparr>"

lemma clear_params:
  "length (esc_values ctx) = 16 \<Longrightarrow> n \<le> 16 \<Longrightarrow>
   for_up 0 n (\<lambda>i. set_esc i 0) ctx = ctx\<lparr>esc_values := replicate n 0 @ drop n (esc_values ctx)\<rparr>"
proof (induction n)
  case (Suc n)
  then have "drop n (esc_values ctx) = esc_values ctx ! n # drop (Suc n) (esc_values ctx)"
    by (simp add: Cons_nth_drop_Suc)
  with Suc show ?case
    by (simp add: for_up_last set_esc_def list_update_append replicate_append_same [symmetric])
qed simp

lemma putchar_csi_start:
  assumes "ground ctx"
  shows "fold (flanterm_putchar ops) [0x1b, byte CHR ''[''] ctx = csi_start ctx"
proof -
  have 1: "flanterm_putchar ops 0x1b ctx = ctx\<lparr>escape_offset := 0, escape := True\<rparr>"
    using assms by (simp add: ground_def ready_def flanterm_putchar_def putchar_byte_def putchar_ground_def)
  have "flanterm_putchar ops (byte CHR ''['') (ctx\<lparr>escape_offset := 0, escape := True\<rparr>) = csi_start ctx"
    using assms
    by (simp add: ground_def ready_def flanterm_putchar_def putchar_byte_def escape_parse_def escape_switch_def
        add64_def clear_params FLANTERM_MAX_ESC_VALUES_def csi_start_def Let_def split: prod.split)
  with 1 show ?thesis by simp
qed

lemma putchar_in_csi:
  assumes "in_csi ctx" "c < 0x80" "c \<noteq> 0x18" "c \<noteq> 0x1a"
  shows "flanterm_putchar ops c ctx =
    control_sequence_parse ops c (ctx\<lparr>escape_offset := add64 (escape_offset ctx) 1\<rparr>)"
proof -
  have "\<not> 0xc2 \<le> c" using assms(2) by (auto simp: not_le intro: less_trans)
  then show ?thesis
    using assms by (simp add: in_csi_def ready_def flanterm_putchar_def putchar_byte_def escape_parse_def Let_def)
qed

lemma digit_bytes: "c \<in> set (decimal n) \<Longrightarrow> byte CHR ''0'' \<le> c \<and> c \<le> byte CHR ''9''"
proof (induction n rule: decimal.induct)
  case (1 n)
  have "byte CHR ''0'' \<le> (of_nat (0x30 + d) :: u8) \<and> (of_nat (0x30 + d) :: u8) \<le> byte CHR ''9''" if "d < 10" for d
    using that by (simp add: word_le_nat_alt unat_of_nat del: of_nat_add)
  moreover have "c \<in> set (if n < 10 then [of_nat (0x30 + n)] else decimal (n div 10) @ [of_nat (0x30 + n mod 10)])"
    using 1(2) by (subst (asm) decimal.simps)
  ultimately show ?case
    using 1(1) by (auto simp del: of_nat_add split: if_splits)
qed

lemma csi_digit_frame:
  "csi_digit c (ctx\<lparr>escape_offset := k\<rparr>) = (csi_digit c ctx)\<lparr>escape_offset := k\<rparr>"
  "in_csi (csi_digit c ctx) = in_csi ctx" "esc_values_i (csi_digit c ctx) = esc_values_i ctx"
  by (simp_all add: csi_digit_def Let_def set_esc_def esc_def in_csi_def ready_def)

lemma digits_frame:
  "fold csi_digit ds (ctx\<lparr>escape_offset := k\<rparr>) = (fold csi_digit ds ctx)\<lparr>escape_offset := k\<rparr>"
  by (induction ds arbitrary: ctx) (simp_all add: csi_digit_frame)

lemma putchar_digits:
  assumes "in_csi ctx" "\<And>c. c \<in> set ds \<Longrightarrow> byte CHR ''0'' \<le> c \<and> c \<le> byte CHR ''9''"
  shows "\<exists>k. fold (flanterm_putchar ops) ds ctx = (fold csi_digit ds ctx)\<lparr>escape_offset := k\<rparr>"
  using assms
proof (induction ds arbitrary: ctx)
  case Nil
  show ?case by (rule exI [of _ "escape_offset ctx"]) simp
next
  case (Cons c ds)
  have c: "byte CHR ''0'' \<le> c" "c \<le> byte CHR ''9''" using Cons.prems(2) by auto
  then have ne: "c < 0x80" "c \<noteq> 0x18" "c \<noteq> 0x1a" "c \<noteq> byte CHR ''[''" "c \<noteq> byte CHR ''?''" "\<not> c < 0x20"
    by (auto simp: word_le_nat_alt word_less_nat_alt)
  have one: "flanterm_putchar ops c ctx = (csi_digit c ctx)\<lparr>escape_offset := add64 (escape_offset ctx) 1\<rparr>"
    using putchar_in_csi [OF Cons.prems(1) ne(1-3)] ne c
    by (simp add: control_sequence_parse_def csi_digit_frame)
  have "in_csi (flanterm_putchar ops c ctx)"
    unfolding one using Cons.prems(1) csi_digit_frame(2) [of c ctx] by (simp add: in_csi_def ready_def)
  then obtain k where "fold (flanterm_putchar ops) ds (flanterm_putchar ops c ctx) =
      (fold csi_digit ds (flanterm_putchar ops c ctx))\<lparr>escape_offset := k\<rparr>"
    using Cons.IH Cons.prems(2) by fastforce
  then show ?case by (auto simp: one digits_frame)
qed


lemma digits_set_rrr:
  assumes "ds \<noteq> []" "esc_values_i ctx < FLANTERM_MAX_ESC_VALUES"
  shows "fold csi_digit ds ctx = fold csi_digit ds (ctx\<lparr>rrr := True\<rparr>)"
proof -
  obtain c cs where "ds = c # cs" using assms(1) by (cases ds) auto
  moreover have "csi_digit c ctx = csi_digit c (ctx\<lparr>rrr := True\<rparr>)"
    using assms(2) by (simp add: csi_digit_def Let_def set_esc_def esc_def)
  ultimately show ?thesis by simp
qed

lemma decimal_nonempty: "decimal n \<noteq> []"
  by (subst decimal.simps) simp

text \<open>A number inside a control sequence, as the parameter it becomes.\<close>

lemma putchar_number:
  assumes csi: "in_csi ctx" and i: "esc_values_i ctx < FLANTERM_MAX_ESC_VALUES"
    and zero: "esc_values ctx ! esc_values_i ctx = 0" and n: "n \<le> 0xFFFFFFFF"
  shows "\<exists>k. fold (flanterm_putchar ops) (decimal n) ctx = (param n ctx)\<lparr>escape_offset := k\<rparr>"
proof -
  have len: "length (esc_values ctx) = FLANTERM_MAX_ESC_VALUES" using csi by (simp add: in_csi_def)
  have "param 0 ctx = ctx\<lparr>rrr := True\<rparr>"
    using zero list_update_id [of "esc_values ctx" "esc_values_i ctx"] by (simp add: param_def)
  then have "fold csi_digit (decimal n) ctx = param n ctx"
    using decimal_param [OF i len n] digits_set_rrr [OF decimal_nonempty i] by simp
  then show ?thesis
    using putchar_digits [OF csi, of "decimal n" ops] digit_bytes by simp
qed

text \<open>Parameters are all that the preparation of a sequence changes.\<close>

lemma esc_of_set:
  assumes "i < length (esc_values ctx)" "v \<le> 0xFFFFFFFF"
  shows "esc j (set_esc i v ctx) = (if j = i then v else esc j ctx)"
  using assms by (simp add: esc_def set_esc_def unat_of_nat)

lemma params_frame [simp]:
  "(set_esc i v ctx)\<lparr>esc_values := e\<rparr> = ctx\<lparr>esc_values := e\<rparr>"
  "(esc_pred i ctx)\<lparr>esc_values := e\<rparr> = ctx\<lparr>esc_values := e\<rparr>"
  "length (esc_values (set_esc i v ctx)) = length (esc_values ctx)"
  "length (esc_values (esc_pred i ctx)) = length (esc_values ctx)"
  by (simp_all add: set_esc_def esc_pred_def)

lemma for_up_params:
  assumes "\<And>i c. a \<le> i \<Longrightarrow> i < b \<Longrightarrow> (f i c)\<lparr>esc_values := e\<rparr> = c\<lparr>esc_values := e\<rparr> \<and>
      length (esc_values (f i c)) = length (esc_values c) \<and> esc 0 (f i c) = esc 0 c \<and> esc 1 (f i c) = esc 1 c"
  shows "(for_up a b f ctx)\<lparr>esc_values := e\<rparr> = ctx\<lparr>esc_values := e\<rparr> \<and>
    length (esc_values (for_up a b f ctx)) = length (esc_values ctx) \<and>
    esc 0 (for_up a b f ctx) = esc 0 ctx \<and> esc 1 (for_up a b f ctx) = esc 1 ctx"
  by (rule for_up_inv [where P = "\<lambda>c. c\<lparr>esc_values := e\<rparr> = ctx\<lparr>esc_values := e\<rparr> \<and>
      length (esc_values c) = length (esc_values ctx) \<and> esc 0 c = esc 0 ctx \<and> esc 1 c = esc 1 ctx"])
    (simp_all add: assms del: One_nat_def)

lemma params_eq_sel:
  assumes "c\<lparr>esc_values := e\<rparr> = c'\<lparr>esc_values := e\<rparr>"
  shows "esc_values_i c = esc_values_i c'" "rows c = rows c'" "cols c = cols c'" "origin_mode c = origin_mode c'"
    "be c = be c'" "dec_private c = dec_private c'" "csi_unhandled c = csi_unhandled c'"
    "scroll_enabled c = scroll_enabled c'" "wrap_enabled c = wrap_enabled c'"
    "ready c = ready c'" "osc c = osc c'" "g_select c = g_select c'"
  using arg_cong [OF assms, of esc_values_i] arg_cong [OF assms, of rows] arg_cong [OF assms, of cols]
    arg_cong [OF assms, of origin_mode] arg_cong [OF assms, of be] arg_cong [OF assms, of dec_private]
    arg_cong [OF assms, of csi_unhandled] arg_cong [OF assms, of scroll_enabled] arg_cong [OF assms, of wrap_enabled]
    arg_cong [OF assms, of ready] arg_cong [OF assms, of osc] arg_cong [OF assms, of g_select]
  by (simp_all add: ready_def)

lemma defaults_two:
  assumes "length (esc_values ctx) = 16" "esc_values_i ctx = 2" "0 < esc 0 ctx" "0 < esc 1 ctx"
  shows "(csi_defaults (byte CHR ''H'') ctx)\<lparr>esc_values := e\<rparr> = ctx\<lparr>esc_values := e\<rparr> \<and>
    length (esc_values (csi_defaults (byte CHR ''H'') ctx)) = 16 \<and>
    esc 0 (csi_defaults (byte CHR ''H'') ctx) = esc 0 ctx \<and> esc 1 (csi_defaults (byte CHR ''H'') ctx) = esc 1 ctx"
proof -
  define c1 where "c1 = for_up 2 16 (\<lambda>i. set_esc i 1) ctx"
  have c1: "c1\<lparr>esc_values := e\<rparr> = ctx\<lparr>esc_values := e\<rparr> \<and> length (esc_values c1) = length (esc_values ctx) \<and>
      esc 0 c1 = esc 0 ctx \<and> esc 1 c1 = esc 1 ctx"
    unfolding c1_def by (rule for_up_params) (simp add: esc_def set_esc_def)
  moreover have "esc_values_i c1 = 2"
    using params_eq_sel(1) [OF conjunct1 [OF c1]] assms(2) by simp
  moreover have "for_up 0 2 (\<lambda>i c. if esc i c = 0 then set_esc i 1 c else c) c1 = c1"
    using c1 assms(3,4) by (simp add: for_up_def numeral_2_eq_2)
  ultimately show ?thesis
    using assms(1,2) by (simp add: csi_defaults_def Let_def FLANTERM_MAX_ESC_VALUES_def c1_def [symmetric] del: One_nat_def)
qed

lemma set_cursor_inside:
  assumes "x < cols ctx" "y < rows ctx"
  shows "flanterm_fb_set_cursor_pos ctx x y = (be ctx)\<lparr>cursor_x := x, cursor_y := y\<rparr>"
  using assms by (simp add: flanterm_fb_set_cursor_pos_def clamp_coord_def)


lemma clamp_min: "0 < n \<Longrightarrow> (if n \<le> v then n - 1 else v) = min v (n - 1 :: nat)"
  by (simp add: min_def) linarith

lemma csi_position_cursor:
  assumes len: "length (esc_values ctx) = 16" and o: "\<not> origin_mode ctx"
    and sz: "0 < rows ctx" "rows ctx \<le> 0x80000000" "0 < cols ctx" "cols ctx \<le> 0x80000000"
  shows "(csi_position fb_ops ctx)\<lparr>esc_values := e\<rparr> = ctx\<lparr>esc_values := e, be := (be ctx)\<lparr>
    cursor_x := min (esc 1 ctx - 1) (cols ctx - 1), cursor_y := min (esc 0 ctx - 1) (rows ctx - 1)\<rparr>\<rparr> \<and>
    length (esc_values (csi_position fb_ops ctx)) = 16"
proof -
  have u: "esc i ctx - 1 \<le> 0xFFFFFFFF" for i
    using unsigned_less [of "esc_values ctx ! i", where 'a = nat] by (simp add: esc_def)
  have s: "sub64 (cols ctx) 1 = cols ctx - 1" "sub64 (rows ctx) 1 = rows ctx - 1"
    using sz by (auto intro!: sub64_le simp: SIZE_MAX_def)
  have le: "rows ctx - 1 \<le> 0xFFFFFFFF" "cols ctx - 1 \<le> 0xFFFFFFFF" using sz by simp_all
  define c1 where "c1 = esc_pred 1 (esc_pred 0 ctx)"
  have c1: "c1\<lparr>esc_values := e\<rparr> = ctx\<lparr>esc_values := e\<rparr>" "length (esc_values c1) = 16"
    "esc 0 c1 = esc 0 ctx - 1" "esc 1 c1 = esc 1 ctx - 1"
    using len u [of 0] u [of 1] by (simp_all add: c1_def esc_pred_def esc_of_set del: One_nat_def)
  define c2 where "c2 = (if esc 1 c1 \<ge> cols c1 then set_esc 1 (sub64 (cols c1) 1) c1 else c1)"
  have c2: "c2\<lparr>esc_values := e\<rparr> = ctx\<lparr>esc_values := e\<rparr>" "length (esc_values c2) = 16"
    "esc 0 c2 = esc 0 ctx - 1" "esc 1 c2 = min (esc 1 ctx - 1) (cols ctx - 1)"
    using c1 s le clamp_min [OF sz(3), of "esc 1 ctx - 1"]
    by (simp_all add: c2_def esc_of_set params_eq_sel [OF c1(1)] if_distrib [of "esc _"] del: One_nat_def split: if_splits)
  define c3 where "c3 = (if esc 0 c2 \<ge> max_row c2 then set_esc 0 (sub64 (max_row c2) 1) c2 else c2)"
  have "max_row c2 = rows ctx" using o by (simp add: max_row_def params_eq_sel [OF c2(1)])
  then have c3: "c3\<lparr>esc_values := e\<rparr> = ctx\<lparr>esc_values := e\<rparr>"
    "esc 0 c3 = min (esc 0 ctx - 1) (rows ctx - 1)" "esc 1 c3 = min (esc 1 ctx - 1) (cols ctx - 1)" "length (esc_values c3) = 16"
    using c2 s le clamp_min [OF sz(1), of "esc 0 ctx - 1"]
    by (simp_all add: c3_def esc_of_set if_distrib [of "esc _"] del: One_nat_def split: if_splits)
  have "csi_position fb_ops ctx = c3\<lparr>be := flanterm_fb_set_cursor_pos c3 (esc 1 c3) (esc 0 c3 + row_offset c3)\<rparr>"
    unfolding csi_position_def Let_def c1_def [symmetric] c2_def [symmetric] c3_def [symmetric]
    by (simp add: set_cursor_pos_def fb_ops_def)
  also have "flanterm_fb_set_cursor_pos c3 (esc 1 c3) (esc 0 c3 + row_offset c3) = (be ctx)\<lparr>
    cursor_x := min (esc 1 ctx - 1) (cols ctx - 1), cursor_y := min (esc 0 ctx - 1) (rows ctx - 1)\<rparr>"
    using sz o c3 by (subst set_cursor_inside) (auto simp: params_eq_sel [OF c3(1)] row_offset_def)
  finally have eq: "csi_position fb_ops ctx = c3\<lparr>be := \<dots>\<rparr>" .
  have "(c3\<lparr>be := b\<rparr>)\<lparr>esc_values := e\<rparr> = ctx\<lparr>esc_values := e, be := b\<rparr>" for b
    using arg_cong [OF c3(1), of "\<lambda>c. c\<lparr>be := b\<rparr>"] by (cases c3) simp
  then show ?thesis unfolding eq using c3(4) by simp
qed

text \<open>The final byte \<open>H\<close> of a sequence with two parameters.\<close>

lemma putchar_H:
  assumes csi: "in_csi ctx" "rrr ctx" "esc_values_i ctx = 1" and pos: "0 < esc 0 ctx" "0 < esc 1 ctx"
    and o: "\<not> origin_mode ctx" and sz: "0 < rows ctx" "rows ctx \<le> 0x80000000" "0 < cols ctx" "cols ctx \<le> 0x80000000"
  shows "be (flanterm_putchar fb_ops (byte CHR ''H'') ctx) = (be ctx)\<lparr>
      cursor_x := min (esc 1 ctx - 1) (cols ctx - 1), cursor_y := min (esc 0 ctx - 1) (rows ctx - 1)\<rparr> \<and>
    ground (flanterm_putchar fb_ops (byte CHR ''H'') ctx)"
proof -
  define c0 where "c0 = ctx\<lparr>escape_offset := add64 (escape_offset ctx) 1, esc_values_i := 2, rrr := False\<rparr>"
  define c1 where "c1 = csi_defaults (byte CHR ''H'') c0"
  have c1: "c1\<lparr>esc_values := []\<rparr> = c0\<lparr>esc_values := []\<rparr>" "length (esc_values c1) = 16"
    "esc 0 c1 = esc 0 ctx" "esc 1 c1 = esc 1 ctx"
    using defaults_two [of c0 "[]"] csi pos
    by (simp_all add: c0_def c1_def in_csi_def FLANTERM_MAX_ESC_VALUES_def esc_def)
  have flags: "\<not> dec_private c1" "\<not> csi_unhandled c1"
    using params_eq_sel [OF c1(1)] csi(1) by (simp_all add: c0_def in_csi_def)
  have h: "byte CHR ''H'' < (0x80 :: u8)" "byte CHR ''H'' \<noteq> (0x18 :: u8)" "byte CHR ''H'' \<noteq> (0x1a :: u8)" by simp_all
  define c2 where "c2 = c1\<lparr>scroll_enabled := False, wrap_enabled := True\<rparr>"
  have "flanterm_putchar fb_ops (byte CHR ''H'') ctx = csi_dispatch fb_ops (byte CHR ''H'') c0"
    unfolding putchar_in_csi [OF csi(1) h] using csi(2,3)
    by (simp add: control_sequence_parse_def Let_def c0_def del: One_nat_def)
  also have "\<dots> = csi_execute fb_ops (byte CHR ''H'') c1"
    unfolding csi_dispatch_def Let_def c1_def [symmetric] using flags by simp
  also have "\<dots> = csi_cleanup ((csi_position fb_ops c2)\<lparr>scroll_enabled := scroll_enabled c1, wrap_enabled := wrap_enabled c1\<rparr>)"
    by (simp add: csi_execute_def Let_def csi_action_def c2_def split: prod.split)
  finally have eq: "flanterm_putchar fb_ops (byte CHR ''H'') ctx =
    csi_cleanup ((csi_position fb_ops c2)\<lparr>scroll_enabled := scroll_enabled c1, wrap_enabled := wrap_enabled c1\<rparr>)" .
  let ?p = "csi_position fb_ops c2"
  have c2: "rows c2 = rows ctx" "cols c2 = cols ctx" "be c2 = be ctx" "esc 0 c2 = esc 0 ctx" "esc 1 c2 = esc 1 ctx"
    "origin_mode c2 = origin_mode ctx" "length (esc_values c2) = 16" "ready c2" "\<not> osc c2" "g_select c2 = 0" "\<not> dec_private c2"
    using c1 csi(1) params_eq_sel [OF c1(1)]
    by (simp_all add: c2_def c0_def esc_def in_csi_def ready_def)
  have p: "?p\<lparr>esc_values := []\<rparr> = (c2\<lparr>be := (be ctx)\<lparr>cursor_x := min (esc 1 ctx - 1) (cols ctx - 1),
      cursor_y := min (esc 0 ctx - 1) (rows ctx - 1)\<rparr>\<rparr>)\<lparr>esc_values := []\<rparr>" "length (esc_values ?p) = 16"
    using csi_position_cursor [of c2 "[]"] c2 o sz by simp_all
  note sel = params_eq_sel [OF p(1)]
  show ?thesis
    unfolding eq csi_cleanup_def ground_def
    using sel c2 p(2) by (simp add: ready_def FLANTERM_MAX_ESC_VALUES_def)
qed

text \<open>
  cursor addressing works end to end. Writing \<open>ESC [ r ; c H\<close> with decimal numbers from one up,
  in the ground state and outside origin mode, moves the cursor to line \<open>r\<close> and column \<open>c\<close>, counted
  from one and limited to the screen, changes nothing else in the backend and leaves the parser in the ground state.
\<close>

theorem cursor_address:
  assumes g: "ground ctx" and o: "\<not> origin_mode ctx"
    and sz: "0 < rows ctx" "rows ctx \<le> 0x80000000" "0 < cols ctx" "cols ctx \<le> 0x80000000"
    and rc: "1 \<le> r" "r \<le> 0xFFFFFFFF" "1 \<le> c" "c \<le> 0xFFFFFFFF"
  shows "let ctx' = fold (flanterm_putchar fb_ops)
        ([0x1b, byte CHR ''[''] @ decimal r @ [byte CHR '';''] @ decimal c @ [byte CHR ''H'']) ctx in
    be ctx' = (be ctx)\<lparr>cursor_x := min (c - 1) (cols ctx - 1), cursor_y := min (r - 1) (rows ctx - 1)\<rparr> \<and> ground ctx'"
proof -
  let ?s0 = "csi_start ctx"
  have s0: "in_csi ?s0" "esc_values_i ?s0 = 0" "esc_values ?s0 = replicate 16 0"
    using g by (simp_all add: csi_start_def in_csi_def ground_def ready_def FLANTERM_MAX_ESC_VALUES_def)
  obtain k1 where k1: "fold (flanterm_putchar fb_ops) (decimal r) ?s0 = (param r ?s0)\<lparr>escape_offset := k1\<rparr>"
    using putchar_number [OF s0(1), of r fb_ops] s0 rc by (auto simp: FLANTERM_MAX_ESC_VALUES_def)
  let ?s1 = "(param r ?s0)\<lparr>escape_offset := k1\<rparr>"
  have "in_csi ?s1" using s0(1) by (simp add: in_csi_def param_def ready_def)
  then have semi: "flanterm_putchar fb_ops (byte CHR '';'') ?s1
      = ?s1\<lparr>escape_offset := add64 k1 1, esc_values_i := 1, rrr := False\<rparr>" (is "_ = ?s2")
    using putchar_in_csi [of ?s1 "byte CHR '';''" fb_ops] s0(2)
    by (simp add: control_sequence_parse_def Let_def param_def)
  have s2: "in_csi ?s2" "esc_values_i ?s2 = 1" "esc_values ?s2 = (replicate 16 0)[0 := of_nat r]"
    using \<open>in_csi ?s1\<close> s0 by (simp_all add: in_csi_def param_def ready_def)
  obtain k2 where k2: "fold (flanterm_putchar fb_ops) (decimal c) ?s2 = (param c ?s2)\<lparr>escape_offset := k2\<rparr>"
    using putchar_number [OF s2(1), of c fb_ops] s2 rc by (auto simp: FLANTERM_MAX_ESC_VALUES_def)
  let ?s3 = "(param c ?s2)\<lparr>escape_offset := k2\<rparr>"
  have s3: "in_csi ?s3" "rrr ?s3" "esc_values_i ?s3 = 1" "esc 0 ?s3 = r" "esc 1 ?s3 = c"
    "rows ?s3 = rows ctx" "cols ?s3 = cols ctx" "be ?s3 = be ctx" "origin_mode ?s3 = origin_mode ctx"
    using s2 s0 rc by (simp_all add: in_csi_def param_def ready_def esc_def unat_of_nat FLANTERM_MAX_ESC_VALUES_def)
      (simp_all add: csi_start_def)
  have "fold (flanterm_putchar fb_ops)
        ([0x1b, byte CHR ''[''] @ decimal r @ [byte CHR '';''] @ decimal c @ [byte CHR ''H'']) ctx
      = flanterm_putchar fb_ops (byte CHR ''H'') ?s3"
    using putchar_csi_start [OF g, of fb_ops] k1 semi k2 by (simp only: fold_append o_apply) simp
  with putchar_H [OF s3(1-3)] s3(4-9) o sz rc show ?thesis by (simp add: Let_def)
qed


theorem cursor_address_witness:
  "be (fold (flanterm_putchar fb_ops) [0x1b, 0x5b, 0x35, 0x3b, 0x31, 0x30, 0x48] (demo_term 3 20)) =
     (demo_fb 3 20)\<lparr>cursor_x := 9, cursor_y := 2\<rparr>"
proof -
  have "ground (demo_term 3 20)" "\<not> origin_mode (demo_term 3 20)"
    by (simp_all add: ground_def ready_def demo_term_def flanterm_context_reinit_def zero_context_def)
  moreover have "decimal 5 = [0x35]" "decimal 10 = [0x31, 0x30]" by (simp_all add: decimal.simps)
  ultimately show ?thesis
    using cursor_address [of "demo_term 3 20" 5 10] by (simp add: Let_def)
qed

end
