(* ===== verification/Flanterm_Pixels.thy ===== *)
theory Flanterm_Pixels
  imports Flanterm_Init
begin

text \<open>
  The pixels a glyph occupies. Under every rotation \<open>plot_dest\<close> agrees with the mapping that
  \<open>flanterm_fb_full_refresh\<close> uses, no pixel outside the visible area is written, and each dot of
  the glyph is painted in the right colour.
\<close>

text \<open>The visible size in physical rows and columns: the logical size turned by the rotation.\<close>

definition phys_size :: "fb_context \<Rightarrow> nat \<times> nat" where
  "phys_size fb = (if sideways (rotation fb) then (height fb, width fb) else (width fb, height fb))"

definition pixel_index :: "fb_context \<Rightarrow> nat \<Rightarrow> nat \<Rightarrow> int" where
  "pixel_index fb x y = (let (px, py) = full_refresh_pixel fb x y in py * int (pitch fb div 4) + px)"

lemmas rotations = FLANTERM_FB_ROTATE_90_def FLANTERM_FB_ROTATE_180_def FLANTERM_FB_ROTATE_270_def

lemma plot_dest_index:
  assumes "plot_dest fb x y = (dest, outer, inner)"
  shows "dest + int gy * outer + int gx * inner = pixel_index fb (x + gx) (y + gy)"
  using assms
  by (auto simp: plot_dest_def pixel_index_def full_refresh_pixel_def Let_def algebra_simps split: if_splits)

lemma full_refresh_pixel_bounds:
  assumes "x < width fb" "y < height fb" "full_refresh_pixel fb x y = (px, py)" "phys_size fb = (pw, ph)"
  shows "0 \<le> px" "px < int pw" "0 \<le> py" "py < int ph"
  using assms
  by (auto simp: full_refresh_pixel_def phys_size_def sideways_def rotations split: if_splits)

lemma full_refresh_pixel_inj:
  assumes "x < width fb" "y < height fb" "x' < width fb" "y' < height fb"
    "full_refresh_pixel fb x y = full_refresh_pixel fb x' y'"
  shows "x = x' \<and> y = y'"
  using assms by (auto simp: full_refresh_pixel_def split: if_splits)

text \<open>Distinct pixels of the visible area have distinct indices.\<close>

lemma pixel_index_inj:
  assumes xy: "x < width fb" "y < height fb" "x' < width fb" "y' < height fb"
    and pitch: "fst (phys_size fb) \<le> pitch fb div 4" and eq: "pixel_index fb x y = pixel_index fb x' y'"
  shows "x = x' \<and> y = y'"
proof -
  obtain px py px' py' where p: "full_refresh_pixel fb x y = (px, py)" "full_refresh_pixel fb x' y' = (px', py')"
    by fastforce
  obtain pw ph where s: "phys_size fb = (pw, ph)" by fastforce
  note b = full_refresh_pixel_bounds [OF xy(1,2) p(1) s] full_refresh_pixel_bounds [OF xy(3,4) p(2) s]
  have lt: "px < int (pitch fb div 4)" "px' < int (pitch fb div 4)" using b pitch s by auto
  have eq': "py * int (pitch fb div 4) + px = py' * int (pitch fb div 4) + px'"
    using eq p by (simp add: pixel_index_def)
  have "py = py'"
    using arg_cong [OF eq', of "\<lambda>n. n div int (pitch fb div 4)"] lt b by simp
  with eq' have "px = px'" by simp
  with \<open>py = py'\<close> p full_refresh_pixel_inj [OF xy] show ?thesis by simp
qed

section \<open>Loops that paint\<close>

text \<open>A list of pixel writes, in order.\<close>

definition paint :: "(int \<times> u32) list \<Rightarrow> fb_context \<Rightarrow> fb_context" where
  "paint ps = fold (\<lambda>(i, v). set_pixel i v) ps"

lemma paint_append: "paint (xs @ ys) fb = paint ys (paint xs fb)"
  by (simp add: paint_def)

lemma paint_eq: "\<exists>p. paint ps fb = fb\<lparr>pixels := p\<rparr>"
proof (induction ps arbitrary: fb)
  case Nil
  show ?case by (rule exI [of _ "pixels fb"]) (simp add: paint_def)
next
  case (Cons q ps)
  obtain i v where q: "q = (i, v)" by (cases q)
  obtain p where "paint ps (set_pixel i v fb) = (set_pixel i v fb)\<lparr>pixels := p\<rparr>" using Cons.IH by blast
  then show ?case by (auto simp: paint_def q set_pixel_def)
qed

lemma paint_miss: "k \<notin> fst ` set ps \<Longrightarrow> pixels (paint ps fb) k = pixels fb k"
  by (induction ps arbitrary: fb) (auto simp: paint_def set_pixel_def)

lemma paint_hit:
  assumes "(k, v) \<in> set ps" and "\<And>v'. (k, v') \<in> set ps \<Longrightarrow> v' = v"
  shows "pixels (paint ps fb) k = v"
  using assms
proof (induction ps rule: rev_induct)
  case (snoc q ps)
  obtain i w where q: "q = (i, w)" by (cases q)
  have last: "paint (ps @ [q]) fb = set_pixel i w (paint ps fb)"
    unfolding paint_append q by (simp add: paint_def)
  show ?case
  proof (cases "i = k")
    case True
    then show ?thesis unfolding last using snoc.prems(2) [of w] by (simp add: set_pixel_def q)
  next
    case False
    have mem: "(k, v) \<in> set ps" using snoc.prems(1) False q by auto
    have "v' = v" if "(k, v') \<in> set ps" for v' by (rule snoc.prems(2)) (simp add: that)
    then have "pixels (paint ps fb) k = v" by (rule snoc.IH [OF mem])
    with False show ?thesis unfolding last by (simp add: set_pixel_def)
  qed
qed simp

text \<open>A loop whose body paints, whatever the pixels are, paints the concatenation.\<close>

lemma for_up_paint:
  assumes "\<And>i p. a \<le> i \<Longrightarrow> i < b \<Longrightarrow> body i (fb\<lparr>pixels := p\<rparr>) = paint (ps i) (fb\<lparr>pixels := p\<rparr>)"
  shows "for_up a b body (fb\<lparr>pixels := p\<rparr>) = paint (concat (map ps [a..<b])) (fb\<lparr>pixels := p\<rparr>)"
  using assms
proof (induction b)
  case 0
  then show ?case by (simp add: paint_def)
next
  case (Suc b)
  show ?case
  proof (cases "a \<le> b")
    case True
    obtain p' where p': "paint (concat (map ps [a..<b])) (fb\<lparr>pixels := p\<rparr>) = fb\<lparr>pixels := p'\<rparr>"
      using paint_eq [of "concat (map ps [a..<b])" "fb\<lparr>pixels := p\<rparr>"] by auto
    with Suc True show ?thesis by (simp add: for_up_last paint_append)
  next
    case False
    then show ?thesis by (simp add: paint_def)
  qed
qed

lemma for_up_set_pixel:
  assumes "\<And>i p. a \<le> i \<Longrightarrow> i < b \<Longrightarrow> body i (fb\<lparr>pixels := p\<rparr>) = set_pixel (k i) (v i) (fb\<lparr>pixels := p\<rparr>)"
  shows "for_up a b body (fb\<lparr>pixels := p\<rparr>) = paint (map (\<lambda>i. (k i, v i)) [a..<b]) (fb\<lparr>pixels := p\<rparr>)"
proof -
  have "for_up a b body (fb\<lparr>pixels := p\<rparr>) = paint (concat (map (\<lambda>i. [(k i, v i)]) [a..<b])) (fb\<lparr>pixels := p\<rparr>)"
    by (rule for_up_paint) (simp add: assms, simp add: paint_def)
  then show ?thesis by (simp add: concat_map_singleton)
qed

section \<open>The four plotting routines\<close>

text \<open>The colour of dot \<open>(gx, gy)\<close> of character \<open>c\<close> drawn with its top left corner at \<open>(x, y)\<close>.\<close>

definition dot_colour :: "fb_context \<Rightarrow> fb_char \<Rightarrow> nat \<Rightarrow> nat \<Rightarrow> nat \<Rightarrow> nat \<Rightarrow> u32" where
  "dot_colour fb c x y gx gy =
     (let under = (case canvas fb of Some cv \<Rightarrow> cv ! (x + gx + (y + gy) * width fb) | None \<Rightarrow> default_bg fb);
          lit = font_bool fb ! (glyph_base fb c + gy div font_scale_y fb * font_width fb + gx div font_scale_x fb)
      in default_colour under (if lit then ch_fg c else ch_bg c))"

text \<open>What \<open>flanterm_fb_init\<close> establishes about the fields the routines read.\<close>

definition plot_ready :: "fb_context \<Rightarrow> bool" where
  "plot_ready fb \<longleftrightarrow>
     glyph_width fb = font_width fb * font_scale_x fb \<and> glyph_height fb = font_height fb * font_scale_y fb \<and>
     0 < font_scale_x fb \<and> 0 < font_scale_y fb \<and> font_height fb \<le> 256 \<and>
     plot_char fb = init_plot_char (font_scale_x fb) (font_scale_y fb) (canvas fb \<noteq> None)"

definition cell_writes :: "fb_context \<Rightarrow> fb_char \<Rightarrow> nat \<Rightarrow> nat \<Rightarrow> (int \<times> u32) list" where
  "cell_writes fb c x y = concat (map (\<lambda>gy. concat (map (\<lambda>fx. map
       (\<lambda>i. (pixel_index fb (x + (font_scale_x fb * fx + i)) (y + gy),
             dot_colour fb c x y (font_scale_x fb * fx + i) gy))
       [0..<font_scale_x fb]) [0..<font_width fb])) [0..<glyph_height fb])"

lemma cell_writes_set:
  assumes "glyph_width fb = font_width fb * font_scale_x fb" "0 < font_scale_x fb"
  shows "set (cell_writes fb c x y) =
    {(pixel_index fb (x + gx) (y + gy), dot_colour fb c x y gx gy) | gx gy. gx < glyph_width fb \<and> gy < glyph_height fb}"
    (is "?L = ?R")
proof (rule set_eqI, rule iffI)
  fix e
  assume "e \<in> ?L"
  then obtain gy fx i where e: "gy < glyph_height fb" "fx < font_width fb" "i < font_scale_x fb"
    "e = (pixel_index fb (x + (font_scale_x fb * fx + i)) (y + gy), dot_colour fb c x y (font_scale_x fb * fx + i) gy)"
    by (auto simp: cell_writes_def)
  moreover have "font_scale_x fb * fx + i < glyph_width fb"
    using cell_index [OF e(3,2)] assms(1) by (simp add: mult.commute)
  ultimately show "e \<in> ?R" by blast
next
  fix e
  assume "e \<in> ?R"
  then obtain gx gy where e: "gx < glyph_width fb" "gy < glyph_height fb"
    "e = (pixel_index fb (x + gx) (y + gy), dot_colour fb c x y gx gy)" by blast
  have "gx div font_scale_x fb < font_width fb"
    using e(1) assms by (simp add: div_less_iff_less_mult)
  moreover have "gx mod font_scale_x fb < font_scale_x fb" using assms(2) by simp
  moreover have "font_scale_x fb * (gx div font_scale_x fb) + gx mod font_scale_x fb = gx" by simp
  moreover have "(pixel_index fb (x + (font_scale_x fb * fx + i)) (y + gy),
      dot_colour fb c x y (font_scale_x fb * fx + i) gy) \<in> ?L" if "fx < font_width fb" "i < font_scale_x fb" for fx i
    using that e(2) by (fastforce simp: cell_writes_def)
  ultimately show "e \<in> ?L" using e(3) by metis
qed


text \<open>Plotting reads no pixel, so every routine paints the same list for whatever pixels it finds.\<close>

lemma double_paint:
  assumes "\<And>gy fx p0 p. gy < gh \<Longrightarrow> fx < font_width fb \<Longrightarrow>
      body gy (fb\<lparr>pixels := p0\<rparr>) fx (fb\<lparr>pixels := p\<rparr>) = set_pixel (k gy fx) (v gy fx) (fb\<lparr>pixels := p\<rparr>)"
  shows "for_up 0 gh (\<lambda>gy f. for_up 0 (font_width f) (body gy f) f) fb =
    paint (concat (map (\<lambda>gy. map (\<lambda>fx. (k gy fx, v gy fx)) [0..<font_width fb]) [0..<gh])) fb"
proof -
  have "for_up 0 gh (\<lambda>gy f. for_up 0 (font_width f) (body gy f) f) (fb\<lparr>pixels := pixels fb\<rparr>) =
    paint (concat (map (\<lambda>gy. map (\<lambda>fx. (k gy fx, v gy fx)) [0..<font_width fb]) [0..<gh])) (fb\<lparr>pixels := pixels fb\<rparr>)"
    by (rule for_up_paint) (simp add: for_up_set_pixel assms)
  then show ?thesis by simp
qed

lemma triple_paint:
  assumes "\<And>gy fx i p0 p. gy < gh \<Longrightarrow> fx < font_width fb \<Longrightarrow> i < font_scale_x fb \<Longrightarrow>
      body gy (fb\<lparr>pixels := p0\<rparr>) fx i (fb\<lparr>pixels := p\<rparr>) = set_pixel (k gy fx i) (v gy fx i) (fb\<lparr>pixels := p\<rparr>)"
  shows "for_up 0 gh (\<lambda>gy f. for_up 0 (font_width f) (\<lambda>fx g. for_up 0 (font_scale_x g) (body gy f fx) g) f) fb =
    paint (concat (map (\<lambda>gy. concat (map (\<lambda>fx. map (\<lambda>i. (k gy fx i, v gy fx i))
      [0..<font_scale_x fb]) [0..<font_width fb])) [0..<gh])) fb"
proof -
  have "for_up 0 gh (\<lambda>gy f. for_up 0 (font_width f) (\<lambda>fx g. for_up 0 (font_scale_x g) (body gy f fx) g) f) (fb\<lparr>pixels := pixels fb\<rparr>) =
    paint (concat (map (\<lambda>gy. concat (map (\<lambda>fx. map (\<lambda>i. (k gy fx i, v gy fx i))
      [0..<font_scale_x fb]) [0..<font_width fb])) [0..<gh])) (fb\<lparr>pixels := pixels fb\<rparr>)"
    by (rule for_up_paint, simp, rule for_up_paint) (simp add: for_up_set_pixel assms)
  then show ?thesis by simp
qed

lemma font_line:
  assumes "gy < glyph_height fb" "glyph_height fb = font_height fb * font_scale_y fb" "font_height fb \<le> 256" "0 < font_scale_y fb"
  shows "gy div font_scale_y fb mod 256 = gy div font_scale_y fb"
proof -
  have "gy div font_scale_y fb < font_height fb" using assms by (simp add: div_less_iff_less_mult)
  with assms(3) show ?thesis by simp
qed

lemma scaled_uncanvas_paint:
  assumes xy: "x < cls" "y < rws" and cv: "canvas fb = None" and ready: "0 < font_scale_y fb"
    "glyph_height fb = font_height fb * font_scale_y fb" "font_height fb \<le> 256"
  shows "plot_char_scaled_uncanvas rws cls c x y fb =
    paint (cell_writes fb c (offset_x fb + x * glyph_width fb) (offset_y fb + y * glyph_height fb)) fb"
proof -
  let ?x = "offset_x fb + x * glyph_width fb" and ?y = "offset_y fb + y * glyph_height fb"
  obtain dest outr inr where d: "plot_dest fb ?x ?y = (dest, outr, inr)" by (metis prod_cases3)
  note idx = plot_dest_index [OF d]
  have "plot_char_scaled_uncanvas rws cls c x y fb =
    for_up 0 (glyph_height fb) (\<lambda>gy f. for_up 0 (font_width f) (\<lambda>fx g. for_up 0 (font_scale_x g)
      (\<lambda>i h. set_pixel (pixel_index fb (?x + (font_scale_x h * fx + i)) (?y + gy))
        (if font_bool h ! (glyph_base fb c + gy div font_scale_y f mod 256 * font_width h + fx)
         then default_colour (default_bg fb) (ch_fg c) else default_colour (default_bg fb) (ch_bg c)) h) g) f) fb"
    using xy by (simp add: plot_char_scaled_uncanvas_def Let_def d idx del: of_nat_add of_nat_mult)
  also have "\<dots> = paint (cell_writes fb c ?x ?y) fb"
    unfolding cell_writes_def
    by (rule triple_paint) (use cv ready font_line [of _ fb] in \<open>simp add: dot_colour_def ac_simps\<close>)
  finally show ?thesis .
qed

lemma scaled_canvas_paint:
  assumes xy: "x < cls" "y < rws" and cv: "canvas fb = Some cv" and ready: "0 < font_scale_y fb"
    "glyph_height fb = font_height fb * font_scale_y fb" "font_height fb \<le> 256"
  shows "plot_char_scaled_canvas rws cls c x y fb =
    paint (cell_writes fb c (offset_x fb + x * glyph_width fb) (offset_y fb + y * glyph_height fb)) fb"
proof -
  let ?x = "offset_x fb + x * glyph_width fb" and ?y = "offset_y fb + y * glyph_height fb"
  obtain dest outr inr where d: "plot_dest fb ?x ?y = (dest, outr, inr)" by (metis prod_cases3)
  note idx = plot_dest_index [OF d]
  have "plot_char_scaled_canvas rws cls c x y fb =
    for_up 0 (glyph_height fb) (\<lambda>gy f. for_up 0 (font_width f) (\<lambda>fx g. for_up 0 (font_scale_x g)
      (\<lambda>i h. set_pixel (pixel_index fb (?x + (font_scale_x h * fx + i)) (?y + gy))
        (if font_bool h ! (glyph_base fb c + gy div font_scale_y f mod 256 * font_width h + fx)
         then default_colour (the (canvas h) ! (?x + (?y + gy) * width f + (font_scale_x h * fx + i))) (ch_fg c) else default_colour (the (canvas h) ! (?x + (?y + gy) * width f + (font_scale_x h * fx + i))) (ch_bg c)) h) g) f) fb"
    using xy by (simp add: plot_char_scaled_canvas_def Let_def d idx del: of_nat_add of_nat_mult)
  also have "\<dots> = paint (cell_writes fb c ?x ?y) fb"
    unfolding cell_writes_def
    by (rule triple_paint) (use cv ready font_line [of _ fb] in \<open>simp add: dot_colour_def ac_simps\<close>)
  finally show ?thesis .
qed

lemma unscaled_uncanvas_paint:
  assumes xy: "x < cls" "y < rws" and cv: "canvas fb = None" and ready: "font_scale_x fb = 1" "font_scale_y fb = 1"
  shows "plot_char_unscaled_uncanvas rws cls c x y fb =
    paint (cell_writes fb c (offset_x fb + x * glyph_width fb) (offset_y fb + y * glyph_height fb)) fb"
proof -
  let ?x = "offset_x fb + x * glyph_width fb" and ?y = "offset_y fb + y * glyph_height fb"
  obtain dest outr inr where d: "plot_dest fb ?x ?y = (dest, outr, inr)" by (metis prod_cases3)
  note idx = plot_dest_index [OF d]
  have "plot_char_unscaled_uncanvas rws cls c x y fb =
    for_up 0 (glyph_height fb) (\<lambda>gy f. for_up 0 (font_width f)
      (\<lambda>fx h. set_pixel (pixel_index fb (?x + fx) (?y + gy))
        (if font_bool h ! (glyph_base fb c + gy * font_width h + fx)
         then default_colour (default_bg fb) (ch_fg c) else default_colour (default_bg fb) (ch_bg c)) h) f) fb"
    using xy by (simp add: plot_char_unscaled_uncanvas_def Let_def d idx del: of_nat_add of_nat_mult)
  also have "\<dots> = paint (cell_writes fb c ?x ?y) fb"
    unfolding cell_writes_def
    by (subst double_paint, use cv ready in \<open>simp_all add: dot_colour_def concat_map_singleton ac_simps\<close>)
  finally show ?thesis .
qed

lemma unscaled_canvas_paint:
  assumes xy: "x < cls" "y < rws" and cv: "canvas fb = Some cv" and ready: "font_scale_x fb = 1" "font_scale_y fb = 1"
  shows "plot_char_unscaled_canvas rws cls c x y fb =
    paint (cell_writes fb c (offset_x fb + x * glyph_width fb) (offset_y fb + y * glyph_height fb)) fb"
proof -
  let ?x = "offset_x fb + x * glyph_width fb" and ?y = "offset_y fb + y * glyph_height fb"
  obtain dest outr inr where d: "plot_dest fb ?x ?y = (dest, outr, inr)" by (metis prod_cases3)
  note idx = plot_dest_index [OF d]
  have "plot_char_unscaled_canvas rws cls c x y fb =
    for_up 0 (glyph_height fb) (\<lambda>gy f. for_up 0 (font_width f)
      (\<lambda>fx h. set_pixel (pixel_index fb (?x + fx) (?y + gy))
        (if font_bool h ! (glyph_base fb c + gy * font_width h + fx)
         then default_colour (the (canvas h) ! (?x + (?y + gy) * width f + fx)) (ch_fg c) else default_colour (the (canvas h) ! (?x + (?y + gy) * width f + fx)) (ch_bg c)) h) f) fb"
    using xy by (simp add: plot_char_unscaled_canvas_def Let_def d idx del: of_nat_add of_nat_mult)
  also have "\<dots> = paint (cell_writes fb c ?x ?y) fb"
    unfolding cell_writes_def
    by (subst double_paint, use cv ready in \<open>simp_all add: dot_colour_def concat_map_singleton ac_simps\<close>)
  finally show ?thesis .
qed


lemma call_plot_char_paint:
  assumes "x < cls" "y < rws" "plot_ready fb"
  shows "call_plot_char rws cls c x y fb =
    paint (cell_writes fb c (offset_x fb + x * glyph_width fb) (offset_y fb + y * glyph_height fb)) fb"
proof (cases "canvas fb")
  case None
  then show ?thesis
    using assms scaled_uncanvas_paint [OF assms(1,2) None, of c] unscaled_uncanvas_paint [OF assms(1,2) None, of c]
    by (simp add: call_plot_char_def plot_ready_def init_plot_char_def)
next
  case (Some cv)
  then show ?thesis
    using assms scaled_canvas_paint [OF assms(1,2) Some, of c] unscaled_canvas_paint [OF assms(1,2) Some, of c]
    by (simp add: call_plot_char_def plot_ready_def init_plot_char_def)
qed

section \<open>What a character looks like\<close>

text \<open>The geometry of a screen of \<open>rws\<close> lines of \<open>cls\<close> cells inside the framebuffer.\<close>

definition geometry_ok :: "nat \<Rightarrow> nat \<Rightarrow> fb_context \<Rightarrow> bool" where
  "geometry_ok rws cls fb \<longleftrightarrow>
     offset_x fb + cls * glyph_width fb \<le> width fb \<and> offset_y fb + rws * glyph_height fb \<le> height fb \<and>
     fst (phys_size fb) \<le> pitch fb div 4"

lemma cell_inside:
  assumes "geometry_ok rws cls fb" "x < cls" "y < rws" "gx < glyph_width fb" "gy < glyph_height fb"
  shows "offset_x fb + x * glyph_width fb + gx < width fb" "offset_y fb + y * glyph_height fb + gy < height fb"
  using assms cell_index [of gx "glyph_width fb" x cls] cell_index [of gy "glyph_height fb" y rws]
  by (auto simp: geometry_ok_def)

text \<open>
  C4: a character is drawn where it belongs. For every rotation, font scale and background, plotting
  a character in a cell of the screen paints each dot of the cell's rectangle: in the foreground
  colour where the font has a dot and in the background colour elsewhere, with the canvas or the
  default background showing through a transparent colour. Every other pixel is left alone, and a
  character outside the screen paints nothing.
\<close>

theorem plot_char_draws:
  assumes geo: "geometry_ok rws cls fb" "plot_ready fb"
  shows "(x < cls \<and> y < rws \<longrightarrow>
      (\<forall>gx < glyph_width fb. \<forall>gy < glyph_height fb.
        pixels (call_plot_char rws cls c x y fb)
          (pixel_index fb (offset_x fb + x * glyph_width fb + gx) (offset_y fb + y * glyph_height fb + gy)) =
        dot_colour fb c (offset_x fb + x * glyph_width fb) (offset_y fb + y * glyph_height fb) gx gy) \<and>
      (\<forall>k. (\<forall>gx < glyph_width fb. \<forall>gy < glyph_height fb.
          k \<noteq> pixel_index fb (offset_x fb + x * glyph_width fb + gx) (offset_y fb + y * glyph_height fb + gy)) \<longrightarrow>
        pixels (call_plot_char rws cls c x y fb) k = pixels fb k)) \<and>
    (\<not> (x < cls \<and> y < rws) \<longrightarrow> call_plot_char rws cls c x y fb = fb)"
proof (cases "x < cls \<and> y < rws")
  case True
  then have xy: "x < cls" "y < rws" by auto
  let ?x = "offset_x fb + x * glyph_width fb" and ?y = "offset_y fb + y * glyph_height fb"
  have set: "set (cell_writes fb c ?x ?y) = {(pixel_index fb (?x + gx) (?y + gy), dot_colour fb c ?x ?y gx gy) |
      gx gy. gx < glyph_width fb \<and> gy < glyph_height fb}"
    using geo(2) by (intro cell_writes_set) (simp_all add: plot_ready_def)
  have same: "gx' = gx \<and> gy' = gy" if "gx < glyph_width fb" "gy < glyph_height fb"
    "gx' < glyph_width fb" "gy' < glyph_height fb"
    "pixel_index fb (?x + gx) (?y + gy) = pixel_index fb (?x + gx') (?y + gy')" for gx gy gx' gy'
    using pixel_index_inj [OF cell_inside [OF geo(1) xy that(1,2)] cell_inside [OF geo(1) xy that(3,4)] _ that(5)] geo(1)
    by (simp add: geometry_ok_def)
  have hit: "pixels (paint (cell_writes fb c ?x ?y) fb) (pixel_index fb (?x + gx) (?y + gy)) = dot_colour fb c ?x ?y gx gy"
    if "gx < glyph_width fb" "gy < glyph_height fb" for gx gy
    by (rule paint_hit) (use that same [OF that] in \<open>auto simp: set\<close>)
  have miss: "pixels (paint (cell_writes fb c ?x ?y) fb) k = pixels fb k"
    if "\<forall>gx < glyph_width fb. \<forall>gy < glyph_height fb. k \<noteq> pixel_index fb (?x + gx) (?y + gy)" for k
    by (rule paint_miss) (use that in \<open>force simp: set\<close>)
  show ?thesis
    unfolding call_plot_char_paint [OF xy geo(2)] using xy hit miss by blast
next
  case False
  then show ?thesis
    by (auto simp: call_plot_char_def plot_char_scaled_canvas_def plot_char_scaled_uncanvas_def
        plot_char_unscaled_canvas_def plot_char_unscaled_uncanvas_def split: plot_fn.split)
qed

text \<open>
  no rotation writes outside the framebuffer. The start and the two strides that the plotting
  routines compute for a cell of the screen address, for every dot of the cell, the same pixel that
  \<open>flanterm_fb_full_refresh\<close> would use for that position, and this index lies between zero and the
  number of words of the visible rows.
\<close>

theorem plot_stays_inside:
  assumes geo: "geometry_ok rws cls fb" "phys_size fb = (pw, ph)" and xy: "x < cls" "y < rws"
    and g: "gx < glyph_width fb" "gy < glyph_height fb"
    and d: "plot_dest fb (offset_x fb + x * glyph_width fb) (offset_y fb + y * glyph_height fb) = (dest, outer, inner)"
  shows "dest + int gy * outer + int gx * inner =
      pixel_index fb (offset_x fb + x * glyph_width fb + gx) (offset_y fb + y * glyph_height fb + gy) \<and>
    0 \<le> dest + int gy * outer + int gx * inner \<and>
    dest + int gy * outer + int gx * inner < int ph * int (pitch fb div 4)"
proof -
  let ?x = "offset_x fb + x * glyph_width fb + gx" and ?y = "offset_y fb + y * glyph_height fb + gy"
  obtain px py where p: "full_refresh_pixel fb ?x ?y = (px, py)" by fastforce
  note b = full_refresh_pixel_bounds [OF cell_inside [OF geo(1) xy g] p geo(2)]
  have pw: "px < int (pitch fb div 4)" using b(2) geo by (simp add: geometry_ok_def)
  have k: "pixel_index fb ?x ?y = py * int (pitch fb div 4) + px" using p by (simp add: pixel_index_def)
  have "py * int (pitch fb div 4) + px < (py + 1) * int (pitch fb div 4)" using pw by (simp add: algebra_simps)
  also have "\<dots> \<le> int ph * int (pitch fb div 4)" using b(4) by (intro mult_right_mono) simp_all
  finally show ?thesis
    unfolding plot_dest_index [OF d] k using b(1,3) by simp
qed

text \<open>A framebuffer of eight by four pixels with a font of two by two dots, for evaluation.\<close>

definition tiny_fb :: "int \<Rightarrow> fb_context" where
  "tiny_fb rot = zero_fb\<lparr>rotation := rot, width := 8, height := 4, pitch := 32, phys_height := 8,
     font_width := 2, font_height := 2, glyph_width := 2, glyph_height := 2, font_scale_x := 1, font_scale_y := 1,
     font_bool := replicate 1024 True\<rparr>"

lemma tiny_ok: "geometry_ok 2 4 (tiny_fb rot)" "plot_ready (tiny_fb rot)"
  by (simp_all add: tiny_fb_def zero_fb_def geometry_ok_def plot_ready_def phys_size_def init_plot_char_def)

lemma tiny_sel: "glyph_width (tiny_fb rot) = 2" "glyph_height (tiny_fb rot) = 2" "offset_x (tiny_fb rot) = 0"
  "offset_y (tiny_fb rot) = 0" "pitch (tiny_fb rot) = 32" "pixels (tiny_fb rot) = (\<lambda>_. 0)"
  by (simp_all add: tiny_fb_def zero_fb_def)

theorem plot_char_draws_witness:
  "pixels (call_plot_char 2 4 \<lparr>ch_c = 65, ch_fg = 7, ch_bg = 1\<rparr> 3 0 (tiny_fb 1)) (pixel_index (tiny_fb 1) 6 0) = 7"
proof -
  let ?c = "\<lparr>ch_c = 65, ch_fg = 7, ch_bg = 1\<rparr>"
  have "\<forall>gx < 2. \<forall>gy < 2. pixels (call_plot_char 2 4 ?c 3 0 (tiny_fb 1)) (pixel_index (tiny_fb 1) (6 + gx) gy) =
      dot_colour (tiny_fb 1) ?c 6 0 gx gy"
    using plot_char_draws [OF tiny_ok(1) [of 1] tiny_ok(2) [of 1], where x = 3 and y = 0 and c = ?c]
    unfolding tiny_sel by simp
  from this [rule_format, of 0 0]
  have "pixels (call_plot_char 2 4 ?c 3 0 (tiny_fb 1)) (pixel_index (tiny_fb 1) 6 0) = dot_colour (tiny_fb 1) ?c 6 0 0 0"
    by simp
  moreover have "dot_colour (tiny_fb 1) ?c 6 0 0 0 = 7"
    by (simp add: dot_colour_def tiny_fb_def zero_fb_def glyph_base_def default_colour_def)
  ultimately show ?thesis by simp
qed

theorem plot_stays_inside_witness:
  "plot_dest (tiny_fb 1) 6 0 = (51, -1, 8) \<and> (51 :: int) + 1 * -1 + 1 * 8 = pixel_index (tiny_fb 1) 7 1 \<and>
   pixel_index (tiny_fb 1) 7 1 < 64"
proof -
  have d: "plot_dest (tiny_fb 1) 6 0 = (51, -1, 8)"
    by (simp add: plot_dest_def tiny_fb_def zero_fb_def rotations)
  have ph: "phys_size (tiny_fb 1) = (4, 8)"
    by (simp add: phys_size_def tiny_fb_def zero_fb_def sideways_def rotations)
  show ?thesis
    using plot_stays_inside [OF tiny_ok(1) ph, where x = 3 and y = 0 and gx = 1 and gy = 1
        and dest = 51 and outer = "-1" and inner = 8] d
    by (simp add: tiny_sel)
qed


section \<open>The geometry of a new terminal\<close>

lemma centred:
  fixes w m g :: nat
  assumes "2 * m \<le> w"
  shows "m + (w - 2 * m) mod g div 2 + (w - 2 * m) div g * g \<le> w"
proof -
  have "(w - 2 * m) mod g div 2 + (w - 2 * m) div g * g \<le> (w - 2 * m) mod g + (w - 2 * m) div g * g"
    by (intro add_mono div_le_dividend order.refl)
  also have "\<dots> = w - 2 * m" by simp
  finally show ?thesis using assms by linarith
qed

lemma init_font_sel:
  "width (init_font a fb) = width fb" "height (init_font a fb) = height fb" "pitch (init_font a fb) = pitch fb"
  "rotation (init_font a fb) = rotation fb"
  "font_height (init_font a fb) = (case a_font a of None \<Rightarrow> 16 | Some _ \<Rightarrow> a_font_height a)"
  using init_font_frame [of a fb] by (auto simp: init_font_def Let_def split: option.split)

lemma init_fields:
  fixes a w h ph off sx sy cv
  defines "ctx \<equiv> init_context a w h ph off sx sy cv"
  assumes m: "2 * a_margin a \<le> w" "2 * a_margin a \<le> h" "w \<le> SIZE_MAX" "h \<le> SIZE_MAX"
  shows "width (be ctx) = w" "height (be ctx) = h" "pitch (be ctx) = a_pitch a" "rotation (be ctx) = a_rotation a"
    "font_scale_x (be ctx) = sx" "font_scale_y (be ctx) = sy" "(canvas (be ctx) = None) = (cv = None)"
    "glyph_width (be ctx) = font_width (be ctx) * sx" "glyph_height (be ctx) = font_height (be ctx) * sy"
    "plot_char (be ctx) = init_plot_char sx sy (cv \<noteq> None)"
    "cols ctx = (w - 2 * a_margin a) div glyph_width (be ctx)"
    "rows ctx = (h - 2 * a_margin a) div glyph_height (be ctx)"
    "offset_x (be ctx) = add64 (a_margin a) ((w - 2 * a_margin a) mod glyph_width (be ctx) div 2)"
    "offset_y (be ctx) = add64 (a_margin a) ((h - 2 * a_margin a) mod glyph_height (be ctx) div 2)"
    "font_height (be ctx) = (case a_font a of None \<Rightarrow> 16 | Some _ \<Rightarrow> a_font_height a)"
proof -
  have mul: "mul64 (a_margin a) 2 = 2 * a_margin a" using m by (subst mul64_le) simp_all
  have sub: "sub64 w (2 * a_margin a) = w - 2 * a_margin a" "sub64 h (2 * a_margin a) = h - 2 * a_margin a"
    using m by (simp_all add: sub64_le)
  show "width (be ctx) = w" "height (be ctx) = h" "pitch (be ctx) = a_pitch a" "rotation (be ctx) = a_rotation a"
    "font_scale_x (be ctx) = sx" "font_scale_y (be ctx) = sy" "(canvas (be ctx) = None) = (cv = None)"
    "glyph_width (be ctx) = font_width (be ctx) * sx" "glyph_height (be ctx) = font_height (be ctx) * sy"
    "plot_char (be ctx) = init_plot_char sx sy (cv \<noteq> None)"
    "cols ctx = (w - 2 * a_margin a) div glyph_width (be ctx)"
    "rows ctx = (h - 2 * a_margin a) div glyph_height (be ctx)"
    "offset_x (be ctx) = add64 (a_margin a) ((w - 2 * a_margin a) mod glyph_width (be ctx) div 2)"
    "offset_y (be ctx) = add64 (a_margin a) ((h - 2 * a_margin a) mod glyph_height (be ctx) div 2)"
    "font_height (be ctx) = (case a_font a of None \<Rightarrow> 16 | Some _ \<Rightarrow> a_font_height a)"
    by (simp_all add: ctx_def init_context_def Let_def zero_context_def init_buffers_def init_geometry_def
        init_cols_def init_rows_def mul sub init_font_sel)
qed

text \<open>
  the text area fits. For margins that fit twice into the framebuffer and a pitch that covers a
  physical row, the rows, columns, offsets and glyph size that \<open>flanterm_fb_init\<close> computes keep the
  whole grid of cells, centred between the margins, inside the framebuffer, for every rotation, and
  the plotting routine it selects is the one for the scale and the canvas in use.
\<close>

theorem init_geometry_fits:
  assumes m: "2 * a_margin a \<le> w" "2 * a_margin a \<le> h" "w \<le> SIZE_MAX" "h \<le> SIZE_MAX"
    and font: "a_font a = None \<or> a_font_height a \<le> 256" and s: "0 < sx" "0 < sy"
    and pitch: "(if sideways (a_rotation a) then h else w) \<le> a_pitch a div 4"
  shows "geometry_ok (rows (init_context a w h ph off sx sy cv)) (cols (init_context a w h ph off sx sy cv))
      (be (init_context a w h ph off sx sy cv)) \<and> plot_ready (be (init_context a w h ph off sx sy cv))"
proof -
  let ?ctx = "init_context a w h ph off sx sy cv"
  note f = init_fields [OF m, of ph off sx sy cv]
  have "a_margin a + (w - 2 * a_margin a) mod g div 2 \<le> SIZE_MAX" "a_margin a + (h - 2 * a_margin a) mod g div 2 \<le> SIZE_MAX" for g
    using centred [OF m(1), of g] centred [OF m(2), of g] m(3,4) by linarith+
  then have off: "offset_x (be ?ctx) = a_margin a + (w - 2 * a_margin a) mod glyph_width (be ?ctx) div 2"
    "offset_y (be ?ctx) = a_margin a + (h - 2 * a_margin a) mod glyph_height (be ?ctx) div 2"
    unfolding f(13,14) by (simp_all add: add64_le)
  have "geometry_ok (rows ?ctx) (cols ?ctx) (be ?ctx)"
    unfolding geometry_ok_def off f(11,12) phys_size_def f(1-4)
    using centred [OF m(1)] centred [OF m(2)] pitch by (simp split: if_splits)
  moreover have "plot_ready (be ?ctx)"
    using s font by (auto simp: plot_ready_def f(5-10) f(15) split: option.split)
  ultimately show ?thesis by blast
qed

theorem init_geometry_fits_witness:
  "geometry_ok (rows (init_context (kernel_args 0 (\<lambda>_. 0) 640 480 2560 8 16 8 8 8 0) 640 480 480 0 1 1 None))
     (cols (init_context (kernel_args 0 (\<lambda>_. 0) 640 480 2560 8 16 8 8 8 0) 640 480 480 0 1 1 None))
     (be (init_context (kernel_args 0 (\<lambda>_. 0) 640 480 2560 8 16 8 8 8 0) 640 480 480 0 1 1 None))"
  using init_geometry_fits [where a = "kernel_args 0 (\<lambda>_. 0) 640 480 2560 8 16 8 8 8 0" and w = 640 and h = 480
      and ph = 480 and off = 0 and sx = 1 and sy = 1 and cv = None]
  by (simp add: kernel_args_def SIZE_MAX_def sideways_def rotations)

end
