(* ===== verification/Console.thy ===== *)
theory Console
  imports Flanterm_Csi Flanterm_Pixels
begin

text \<open>
  The console as its clients use it: the emulator of \<^verbatim>\<open>flanterm.c\<close> over the framebuffer backend of
  \<^verbatim>\<open>fb.c\<close>. The public functions are the steps of a client; the lemmas of the interface theories are
  put together here.
\<close>

section \<open>Client calls\<close>

text \<open>The calls a client of an initialised terminal can make, in any order.\<close>

datatype console_call =
    Write "u8 list"
  | Flush
  | Full_refresh
  | Set_autoflush bool

fun console_step :: "console_call \<Rightarrow> fb_term \<Rightarrow> fb_term" where
  "console_step (Write buf) ctx = flanterm_write fb_ops buf ctx"
| "console_step Flush ctx = flanterm_flush fb_ops ctx"
| "console_step Full_refresh ctx = flanterm_full_refresh fb_ops ctx"
| "console_step (Set_autoflush b) ctx = flanterm_set_autoflush b ctx"

lemma fb_ops_sel:
  "be_raw_putchar fb_ops = flanterm_fb_raw_putchar" "be_set_cursor_pos fb_ops = flanterm_fb_set_cursor_pos"
  "be_get_cursor_pos fb_ops = flanterm_fb_get_cursor_pos" "be_save_state fb_ops = flanterm_fb_save_state"
  "be_restore_state fb_ops = flanterm_fb_restore_state" "be_full_refresh fb_ops = flanterm_fb_full_refresh"
  "be_double_buffer_flush fb_ops = flanterm_fb_double_buffer_flush" "be_swap_palette fb_ops = flanterm_fb_swap_palette"
  "be_set_text_fg_default fb_ops = flanterm_fb_set_text_fg_default"
  "be_set_text_bg_default fb_ops = flanterm_fb_set_text_bg_default"
  by (simp_all add: fb_ops_def)

lemma full_refresh_safe:
  assumes "fb_safe (rows ctx) (cols ctx) (be ctx)"
  shows "fb_safe (rows ctx) (cols ctx) (flanterm_fb_full_refresh ctx)"
proof -
  obtain p l where "flanterm_fb_full_refresh ctx =
     (if cursor_enabled ctx then draw_cursor (rows ctx) (cols ctx) ((be ctx)\<lparr>pixels := p\<rparr>)
      else (be ctx)\<lparr>pixels := p\<rparr>)\<lparr>flush_log := l\<rparr>"
    using full_refresh_steps by blast
  moreover have "fb_safe (rows ctx) (cols ctx) (draw_cursor (rows ctx) (cols ctx) ((be ctx)\<lparr>pixels := p\<rparr>))"
    using assms by (simp add: fb_safe_def draw_cursor_ok glyphs_draw_cursor)
  ultimately show ?thesis using assms by simp
qed

text \<open>Every call of a client keeps the invariant of the terminal and the ranges of the backend, whatever the bytes.\<close>

lemma console_step_safe: "safe.tb.wf ctx \<Longrightarrow> safe.tb.wf (console_step c ctx)"
proof (cases c)
  case Full_refresh
  assume "safe.tb.wf ctx"
  then show ?thesis
    using full_refresh_safe [of ctx]
    by (simp add: Full_refresh safe.tb.wf_def flanterm_full_refresh_def fb_ops_def)
qed (simp_all add: safe.tb.wf_flanterm_write flanterm_flush_def flanterm_set_autoflush_def)

text \<open>
  C6: what is written is shown. When a write ends with automatic flushing on, the queue is empty
  and the grid from which the pixels are plotted agrees with the screen in every cell. This holds after
  any number of writes, as long as the client does not refresh the screen while changes are pending.
\<close>

theorem console_write_shows:
  assumes inv: "term_inv ctx" "fb_synced (rows ctx) (cols ctx) (be ctx)"
    and auto: "autoflush (fold (flanterm_putchar fb_ops) buf ctx)"
  shows "let ctx' = flanterm_write fb_ops buf ctx in
    term_inv ctx' \<and> fb_synced (rows ctx') (cols ctx') (be ctx') \<and> queue_i (be ctx') = 0 \<and>
    (\<forall>j < rows ctx' * cols ctx'. grid (be ctx') ! j = cell (be (fold (flanterm_putchar fb_ops) buf ctx)) j)"
proof -
  let ?m = "fold (flanterm_putchar fb_ops) buf ctx"
  have "synced.tb.wf ctx" using inv by (simp add: synced.tb.wf_def)
  then have m: "synced.tb.wf ?m" by (rule fold_inv) simp
  then have half: "fb_half (rows ?m) (cols ?m) (be ?m)"
    by (simp add: synced.tb.wf_def fb_synced_def fb_sync_half)
  have w: "flanterm_write fb_ops buf ctx = ?m\<lparr>be := flanterm_fb_double_buffer_flush ?m\<rparr>"
    using auto by (simp add: flanterm_write_def double_buffer_flush_def fb_ops_sel Let_def)
  have "synced.tb.wf (flanterm_write fb_ops buf ctx)"
    using \<open>synced.tb.wf ctx\<close> by (rule synced.tb.wf_flanterm_write)
  then show ?thesis
    using flush_grid [OF half] by (simp add: w synced.tb.wf_def)
qed


theorem console_write_shows_witness:
  "queue_i (be (flanterm_write fb_ops [65] (demo_term 2 2))) = 0 \<and>
   term_inv (flanterm_write fb_ops [65] (demo_term 2 2))"
proof -
  have "autoflush (fold (flanterm_putchar fb_ops) [65] (demo_term 2 2))"
    by (simp add: flanterm_putchar_def putchar_byte_def putchar_ground_def putchar_graphic_def insert_shift_def
        print_glyph_def raw_putchar_def demo_term_def flanterm_context_reinit_def zero_context_def
        CHARSET_DEFAULT_def CHARSET_DEC_SPECIAL_def)
  then show ?thesis
    using console_write_shows [of "demo_term 2 2" "[65]"] demo_wf [of 2 2] by (simp add: Let_def)
qed

section \<open>Saved state\<close>

text \<open>
  ESC 7 and ESC 8 are inverse. Restoring the state right after saving it changes nothing: cursor,
  colours, modes, character sets and scroll region are back, and every other field is untouched.
\<close>

theorem save_restore:
  assumes "length (charsets ctx) = 2" "length (saved_state_charsets ctx) = 2"
  shows "restore_state fb_ops (save_state fb_ops ctx) = save_state fb_ops ctx \<and>
    (let ctx' = restore_state fb_ops (save_state fb_ops ctx) in
      cursor_x (be ctx') = cursor_x (be ctx) \<and> cursor_y (be ctx') = cursor_y (be ctx) \<and>
      text_fg (be ctx') = text_fg (be ctx) \<and> text_bg (be ctx') = text_bg (be ctx) \<and>
      charsets ctx' = charsets ctx \<and> scroll_top_margin ctx' = scroll_top_margin ctx \<and>
      scroll_bottom_margin ctx' = scroll_bottom_margin ctx \<and> origin_mode ctx' = origin_mode ctx)"
proof -
  obtain a b c d where cs: "charsets ctx = [a, b]" "saved_state_charsets ctx = [c, d]"
    using assms by (auto simp: numeral_2_eq_2 length_Suc_conv)
  have fb: "flanterm_fb_restore_state c2 = be c2" if "be c2 = flanterm_fb_save_state c1" for c1 c2
    using that by (simp add: flanterm_fb_restore_state_def flanterm_fb_save_state_def Let_def)
  have "restore_state fb_ops (save_state fb_ops ctx) = save_state fb_ops ctx"
    using cs by (simp add: restore_state_def save_state_def Let_def fb_ops_sel fb)
  then show ?thesis
    by (simp add: Let_def) (simp add: save_state_def fb_ops_sel flanterm_fb_save_state_def Let_def)
qed

theorem save_restore_witness:
  "restore_state fb_ops (save_state fb_ops (demo_term 3 4)) = save_state fb_ops (demo_term 3 4)"
  using save_restore [of "demo_term 3 4"]
  by (simp add: demo_term_def flanterm_context_reinit_def zero_context_def)


section \<open>Reverse video\<close>

text \<open>
  reverse video is undone by its inverse. SGR 7 exchanges the text colours and SGR 27 exchanges
  them back; a second SGR 7 or a lone SGR 27 changes nothing.
\<close>

theorem reverse_video_roundtrip:
  assumes "\<not> reverse_video ctx"
  shows "sgr_reverse fb_ops False (sgr_reverse fb_ops True ctx) = ctx \<and>
    sgr_reverse fb_ops True (sgr_reverse fb_ops True ctx) = sgr_reverse fb_ops True ctx \<and>
    sgr_reverse fb_ops False ctx = ctx \<and>
    text_fg (be (sgr_reverse fb_ops True ctx)) = text_bg (be ctx) \<and>
    text_bg (be (sgr_reverse fb_ops True ctx)) = text_fg (be ctx)"
  using assms
  by (simp add: sgr_reverse_def swap_palette_def fb_ops_sel flanterm_fb_swap_palette_def Let_def)

theorem reverse_video_roundtrip_witness:
  "sgr_reverse fb_ops False (sgr_reverse fb_ops True (demo_term 3 4)) = demo_term 3 4"
  using reverse_video_roundtrip [of "demo_term 3 4"] by (simp add: demo_term_def flanterm_context_reinit_def)

text \<open>
  ending bold in reverse video makes the text invisible. With the default colours, SGR 7 exchanges
  foreground and background, and SGR 22 then resets the text background to the background's default
  instead of the foreground's: foreground and background are both the transparent default, so every character
  printed afterwards is drawn in the background colour.
\<close>

theorem reverse_bold_off_invisible:
  assumes "\<not> reverse_video ctx" "current_primary ctx = COLOUR_NONE" "text_bg (be ctx) = 0xffffffff"
  shows "text_fg (be (sgr fb_ops (ctx\<lparr>esc_values := [7, 22], esc_values_i := 2\<rparr>))) = 0xffffffff \<and>
    text_bg (be (sgr fb_ops (ctx\<lparr>esc_values := [7, 22], esc_values_i := 2\<rparr>))) = 0xffffffff"
  using assms
  by (simp add: sgr_def sgr_loop.simps sgr_step_def sgr_reverse_def sgr_bold_off_def swap_palette_def
      set_text_bg_default_def flanterm_fb_set_text_bg_default_def fb_ops_sel flanterm_fb_swap_palette_def Let_def
      COLOUR_NONE_def COLOUR_RGB_def SIZE_MAX_def)

theorem reverse_bold_off_invisible_witness:
  "text_fg (be (sgr fb_ops ((demo_term 2 2)\<lparr>be := flanterm_fb_set_text_bg_default (demo_term 2 2),
     esc_values := [7, 22], esc_values_i := 2\<rparr>))) = 0xffffffff"
  using reverse_bold_off_invisible [of "(demo_term 2 2)\<lparr>be := flanterm_fb_set_text_bg_default (demo_term 2 2)\<rparr>"]
  by (simp add: demo_term_def flanterm_context_reinit_def flanterm_fb_set_text_bg_default_def)


section \<open>The kernel's console\<close>

text \<open>
  C1: the kernel can print from boot on. After \<open>__cstdio_initialise_terminal\<close> on any framebuffer of
  at least one glyph with equal masks of eight bits or more, every sequence of \<open>putchar\<close> and string
  output leaves the terminal in a state that satisfies all invariants, with a queue and a map that describe
  the same pending changes: no output is lost and no memory outside the buffers is touched.
\<close>

theorem kernel_console:
  assumes fresh: "bump_alloc_ptr w0 = 0" "\<not> bump_alloc_base_offset_added w0" "\<not> bump_allocated_instance w0"
    and masks: "8 \<le> rsz" "gsz = rsz" "bsz = rsz"
    and size: "9 \<le> w" "16 \<le> h" "w \<le> SIZE_MAX" "h \<le> SIZE_MAX"
  shows "\<exists>ctx b w1. flanterm_fb_init (kernel_args addr px w h pt rsz rsh gsz gsh bsz bsh) w0 = (Some (ctx, b), w1) \<and>
    (\<forall>bufs. let ctx' = fold (flanterm_write fb_ops) bufs ctx in
      term_inv ctx' \<and> fb_synced (rows ctx') (cols ctx') (be ctx'))"
proof -
  obtain ctx b w1 where i: "flanterm_fb_init (kernel_args addr px w h pt rsz rsh gsz gsh bsz bsh) w0 = (Some (ctx, b), w1)"
    "synced.tb.wf ctx"
    using kernel_init_wf [OF assms, of addr px pt rsh gsh bsh] by blast
  have "synced.tb.wf (fold (flanterm_write fb_ops) bufs ctx)" for bufs
    using i(2) by (rule fold_inv) (rule synced.tb.wf_flanterm_write)
  with i(1) show ?thesis by (auto simp: synced.tb.wf_def Let_def)
qed

theorem kernel_console_witness:
  "\<exists>ctx b w1. flanterm_fb_init (kernel_args 0xfd000000 (\<lambda>_. 0) 1280 800 5120 8 16 8 8 8 0) idle_world = (Some (ctx, b), w1) \<and>
    (\<forall>bufs. let ctx' = fold (flanterm_write fb_ops) bufs ctx in
      term_inv ctx' \<and> fb_synced (rows ctx') (cols ctx') (be ctx'))"
  by (rule kernel_console) (simp_all add: SIZE_MAX_def idle_world_def)

end
