(* ===== verification/Printf.thy ===== *)
theory Printf
  imports Prelude "HOL-Library.Monad_Syntax"
begin

text \<open>
  Formatted output: \<open>extra/printf/printf.c\<close> as the kernel compiles it, without floating point.

  The output functions are state transformers \<open>out character idx maxlen\<close> on a state of any type (the
  buffer of \<open>snprintf_\<close>, the terminal of \<open>printf_\<close>); the conversions thread the pair of \<open>idx\<close> and this
  state. Strings are the bytes that may be read from a pointer on, their terminator included: reading past them,
  like a \<open>va_arg\<close> of the wrong type, is undefined behaviour and gives \<open>None\<close>. The conversion buffer \<open>buf\<close> of
  32 bytes is the list of the \<open>len\<close> bytes written so far.
\<close>

section \<open>Flags and output functions\<close>

definition PRINTF_NTOA_BUFFER_SIZE :: nat where "PRINTF_NTOA_BUFFER_SIZE = 32"

definition FLAGS_ZEROPAD :: u32 where "FLAGS_ZEROPAD = 0x001"
definition FLAGS_LEFT :: u32 where "FLAGS_LEFT = 0x002"
definition FLAGS_PLUS :: u32 where "FLAGS_PLUS = 0x004"
definition FLAGS_SPACE :: u32 where "FLAGS_SPACE = 0x008"
definition FLAGS_HASH :: u32 where "FLAGS_HASH = 0x010"
definition FLAGS_UPPERCASE :: u32 where "FLAGS_UPPERCASE = 0x020"
definition FLAGS_CHAR :: u32 where "FLAGS_CHAR = 0x040"
definition FLAGS_SHORT :: u32 where "FLAGS_SHORT = 0x080"
definition FLAGS_LONG :: u32 where "FLAGS_LONG = 0x100"
definition FLAGS_LONG_LONG :: u32 where "FLAGS_LONG_LONG = 0x200"
definition FLAGS_PRECISION :: u32 where "FLAGS_PRECISION = 0x400"

lemmas flag_defs = FLAGS_ZEROPAD_def FLAGS_LEFT_def FLAGS_PLUS_def FLAGS_SPACE_def FLAGS_HASH_def
  FLAGS_UPPERCASE_def FLAGS_CHAR_def FLAGS_SHORT_def FLAGS_LONG_def FLAGS_LONG_LONG_def FLAGS_PRECISION_def

text \<open>A test \<^verbatim>\<open>flags & m\<close>.\<close>

definition has :: "u32 \<Rightarrow> u32 \<Rightarrow> bool" where
  "has fl m \<longleftrightarrow> fl AND m \<noteq> 0"

type_synonym 'o out_fct_type = "u8 \<Rightarrow> nat \<Rightarrow> nat \<Rightarrow> 'o \<Rightarrow> 'o"

definition out_buffer :: "u8 list out_fct_type" where
  "out_buffer character idx maxlen buffer = (if idx < maxlen then buffer[idx := character] else buffer)"

definition out_null :: "'o out_fct_type" where
  "out_null character idx maxlen s = s"

text \<open>\<open>_out_char\<close> and \<open>_out_fct\<close> pass every character but the terminator to a function of the state.\<close>

definition out_fct :: "(u8 \<Rightarrow> 'o \<Rightarrow> 'o) \<Rightarrow> 'o out_fct_type" where
  "out_fct fct character idx maxlen s = (if character \<noteq> 0 then fct character s else s)"

text \<open>A call \<^verbatim>\<open>out(c, buffer, idx++, maxlen)\<close>.\<close>

definition emit :: "'o out_fct_type \<Rightarrow> nat \<Rightarrow> u8 \<Rightarrow> nat \<times> 'o \<Rightarrow> nat \<times> 'o" where
  "emit out maxlen c = (\<lambda>(idx, s). (Suc idx, out c idx maxlen s))"

section \<open>Strings and numbers of the format\<close>

text \<open>\<^verbatim>\<open>for (s = str; *s && maxsize--; ++s)\<close>: the byte is read before the count is tested.\<close>

fun strnlen_s :: "u8 list \<Rightarrow> nat \<Rightarrow> nat option" where
  "strnlen_s [] maxsize = None"
| "strnlen_s (c # str) maxsize =
     (if c \<noteq> 0 \<and> maxsize \<noteq> 0 then map_option Suc (strnlen_s str (maxsize - 1)) else Some 0)"

definition is_digit :: "u8 \<Rightarrow> bool" where
  "is_digit ch \<longleftrightarrow> ch \<ge> byte CHR ''0'' \<and> ch \<le> byte CHR ''9''"

fun atoi_loop :: "u32 \<Rightarrow> u8 list \<Rightarrow> (u32 \<times> u8 list) option" where
  "atoi_loop i [] = None"
| "atoi_loop i (c # str) =
     (if is_digit c then atoi_loop (i * 10 + ucast (c - byte CHR ''0'')) str else Some (i, c # str))"

definition atoi :: "u8 list \<Rightarrow> (u32 \<times> u8 list) option" where
  "atoi str = atoi_loop 0 str"

section \<open>Integers\<close>

definition out_rev ::
  "'o out_fct_type \<Rightarrow> nat \<Rightarrow> u8 list \<Rightarrow> nat \<Rightarrow> u32 \<Rightarrow> nat \<times> 'o \<Rightarrow> nat \<times> 'o" where
  "out_rev out maxlen buf width flags st =
     (let start_idx = fst st;
          st = (if \<not> has flags FLAGS_LEFT \<and> \<not> has flags FLAGS_ZEROPAD
                then for_up (length buf) width (\<lambda>_. emit out maxlen (byte CHR '' '')) st else st);
          st = fold (emit out maxlen) (rev buf) st
      in if has flags FLAGS_LEFT
         then for_up (fst st - start_idx) width (\<lambda>_. emit out maxlen (byte CHR '' '')) st
         else st)"

text \<open>A loop \<^verbatim>\<open>while (len < n && len < PRINTF_NTOA_BUFFER_SIZE) buf[len++] = '0'\<close>.\<close>

definition pad_zeros :: "nat \<Rightarrow> u8 list \<Rightarrow> u8 list" where
  "pad_zeros n buf =
     for_up (length buf) (min n PRINTF_NTOA_BUFFER_SIZE) (\<lambda>_ buf. buf @ [byte CHR ''0'']) buf"

text \<open>A guarded \<^verbatim>\<open>buf[len++] = c\<close>.\<close>

definition put_buf :: "u8 \<Rightarrow> u8 list \<Rightarrow> u8 list" where
  "put_buf c buf = (if length buf < PRINTF_NTOA_BUFFER_SIZE then buf @ [c] else buf)"

definition ntoa_hash :: "nat \<Rightarrow> nat \<Rightarrow> nat \<Rightarrow> u32 \<Rightarrow> u8 list \<Rightarrow> u8 list" where
  "ntoa_hash base prec width flags buf =
     (let buf = (if \<not> has flags FLAGS_PRECISION \<and> buf \<noteq> [] \<and> (length buf = prec \<or> length buf = width)
                 then (let buf = butlast buf in if buf \<noteq> [] \<and> base = 16 then butlast buf else buf)
                 else buf);
          buf = (if base = 16 \<and> \<not> has flags FLAGS_UPPERCASE then put_buf (byte CHR ''x'') buf
                 else if base = 16 \<and> has flags FLAGS_UPPERCASE then put_buf (byte CHR ''X'') buf
                 else if base = 2 then put_buf (byte CHR ''b'') buf
                 else buf)
      in put_buf (byte CHR ''0'') buf)"

definition ntoa_sign :: "bool \<Rightarrow> u32 \<Rightarrow> u8 list \<Rightarrow> u8 list" where
  "ntoa_sign negative flags buf =
     (if negative then put_buf (byte CHR ''-'') buf
      else if has flags FLAGS_PLUS then put_buf (byte CHR ''+'') buf
      else if has flags FLAGS_SPACE then put_buf (byte CHR '' '') buf
      else buf)"

text \<open>Padding, prefix and sign; the result pairs the buffer with the width that is left for spaces.\<close>

definition ntoa_layout :: "u8 list \<Rightarrow> bool \<Rightarrow> nat \<Rightarrow> nat \<Rightarrow> nat \<Rightarrow> u32 \<Rightarrow> u8 list \<times> nat" where
  "ntoa_layout buf negative base prec width flags =
     (let width = (if \<not> has flags FLAGS_LEFT \<and> width \<noteq> 0 \<and> has flags FLAGS_ZEROPAD \<and>
                      (negative \<or> has flags (FLAGS_PLUS OR FLAGS_SPACE)) then width - 1 else width);
          buf = (if \<not> has flags FLAGS_LEFT
                 then (let buf = pad_zeros prec buf
                       in if has flags FLAGS_ZEROPAD then pad_zeros width buf else buf)
                 else buf);
          buf = (if has flags FLAGS_HASH then ntoa_hash base prec width flags buf else buf)
      in (ntoa_sign negative flags buf, width))"

definition ntoa_format ::
  "'o out_fct_type \<Rightarrow> nat \<Rightarrow> u8 list \<Rightarrow> bool \<Rightarrow> nat \<Rightarrow> nat \<Rightarrow> nat \<Rightarrow> u32 \<Rightarrow> nat \<times> 'o \<Rightarrow> nat \<times> 'o" where
  "ntoa_format out maxlen buf negative base prec width flags st =
     (let (buf, width) = ntoa_layout buf negative base prec width flags
      in out_rev out maxlen buf width flags st)"

definition digit_char :: "u32 \<Rightarrow> nat \<Rightarrow> u8" where
  "digit_char flags digit =
     (if digit < 10 then byte CHR ''0'' + of_nat digit
      else (if has flags FLAGS_UPPERCASE then byte CHR ''A'' else byte CHR ''a'') + of_nat digit - 10)"

text \<open>The do-while loop that collects the digits, the least significant first.\<close>

function ntoa_digits :: "u32 \<Rightarrow> nat \<Rightarrow> nat \<Rightarrow> u8 list \<Rightarrow> u8 list" where
  "ntoa_digits flags base v buf =
     (let buf = buf @ [digit_char flags (v mod base)]; v = v div base
      in if v \<noteq> 0 \<and> length buf < PRINTF_NTOA_BUFFER_SIZE then ntoa_digits flags base v buf else buf)"
  by pat_completeness auto
termination
  by (relation "measure (\<lambda>(flags, base, v, buf). PRINTF_NTOA_BUFFER_SIZE - length buf)") auto

declare ntoa_digits.simps [simp del]

text \<open>
  \<open>_ntoa_long\<close>; \<open>_ntoa_long_long\<close> has the same body, and \<open>long\<close> and \<open>long long\<close> have 64 bits.
\<close>

definition ntoa_long ::
  "'o out_fct_type \<Rightarrow> nat \<Rightarrow> u64 \<Rightarrow> bool \<Rightarrow> nat \<Rightarrow> nat \<Rightarrow> nat \<Rightarrow> u32 \<Rightarrow> nat \<times> 'o \<Rightarrow> nat \<times> 'o" where
  "ntoa_long out maxlen value negative base prec width flags st =
     (let flags = (if value = 0 then flags AND NOT FLAGS_HASH else flags);
          buf = (if \<not> has flags FLAGS_PRECISION \<or> value \<noteq> 0
                 then ntoa_digits flags base (unat value) [] else [])
      in ntoa_format out maxlen buf negative base prec width flags st)"

definition ntoa_long_long ::
  "'o out_fct_type \<Rightarrow> nat \<Rightarrow> u64 \<Rightarrow> bool \<Rightarrow> nat \<Rightarrow> nat \<Rightarrow> nat \<Rightarrow> u32 \<Rightarrow> nat \<times> 'o \<Rightarrow> nat \<times> 'o" where
  "ntoa_long_long out maxlen value negative base prec width flags st =
     (let flags = (if value = 0 then flags AND NOT FLAGS_HASH else flags);
          buf = (if \<not> has flags FLAGS_PRECISION \<or> value \<noteq> 0
                 then ntoa_digits flags base (unat value) [] else [])
      in ntoa_format out maxlen buf negative base prec width flags st)"

section \<open>The format\<close>

text \<open>
  The variable arguments: 32-bit and 64-bit integers, and pointers with the bytes that may be read
  there (none for the null pointer).
\<close>

datatype va_value = VInt u32 | VLong u64 | VPtr u64 "u8 list"

fun va_int :: "va_value list \<Rightarrow> (u32 \<times> va_value list) option" where
  "va_int (VInt v # va) = Some (v, va)"
| "va_int _ = None"

fun va_long :: "va_value list \<Rightarrow> (u64 \<times> va_value list) option" where
  "va_long (VLong v # va) = Some (v, va)"
| "va_long _ = None"

fun va_ptr :: "va_value list \<Rightarrow> ((u64 \<times> u8 list) \<times> va_value list) option" where
  "va_ptr (VPtr a p # va) = Some ((a, p), va)"
| "va_ptr _ = None"

text \<open>\<^verbatim>\<open>*format\<close>.\<close>

fun peek :: "u8 list \<Rightarrow> u8 option" where
  "peek [] = None"
| "peek (c # _) = Some c"

fun parse_flags :: "u32 \<Rightarrow> u8 list \<Rightarrow> (u32 \<times> u8 list) option" where
  "parse_flags flags [] = None"
| "parse_flags flags (c # format) =
     (if c = byte CHR ''0'' then parse_flags (flags OR FLAGS_ZEROPAD) format
      else if c = byte CHR ''-'' then parse_flags (flags OR FLAGS_LEFT) format
      else if c = byte CHR ''+'' then parse_flags (flags OR FLAGS_PLUS) format
      else if c = byte CHR '' '' then parse_flags (flags OR FLAGS_SPACE) format
      else if c = byte CHR ''#'' then parse_flags (flags OR FLAGS_HASH) format
      else Some (flags, c # format))"

definition parse_width ::
  "u32 \<Rightarrow> u8 list \<Rightarrow> va_value list \<Rightarrow> (u32 \<times> u32 \<times> u8 list \<times> va_value list) option" where
  "parse_width flags format va = do {
     c \<leftarrow> peek format;
     if is_digit c then do {
       (width, format) \<leftarrow> atoi format;
       Some (flags, width, format, va)
     }
     else if c = byte CHR ''*'' then do {
       (w, va) \<leftarrow> va_int va;
       if sint w < 0 then Some (flags OR FLAGS_LEFT, - w, tl format, va)
       else Some (flags, w, tl format, va)
     }
     else Some (flags, 0, format, va)
   }"

definition parse_precision ::
  "u32 \<Rightarrow> u8 list \<Rightarrow> va_value list \<Rightarrow> (u32 \<times> u32 \<times> u8 list \<times> va_value list) option" where
  "parse_precision flags format va = do {
     c \<leftarrow> peek format;
     if c = byte CHR ''.'' then do {
       let flags = flags OR FLAGS_PRECISION;
       let format = tl format;
       c \<leftarrow> peek format;
       if is_digit c then do {
         (precision, format) \<leftarrow> atoi format;
         Some (flags, precision, format, va)
       }
       else if c = byte CHR ''*'' then do {
         (prec, va) \<leftarrow> va_int va;
         Some (flags, if sint prec > 0 then prec else 0, tl format, va)
       }
       else Some (flags, 0, format, va)
     }
     else Some (flags, 0, format, va)
   }"

text \<open>On x86-64 \<open>ptrdiff_t\<close>, \<open>intmax_t\<close> and \<open>size_t\<close> have the size of \<open>long\<close>.\<close>

definition parse_length :: "u32 \<Rightarrow> u8 list \<Rightarrow> (u32 \<times> u8 list) option" where
  "parse_length flags format = do {
     c \<leftarrow> peek format;
     if c = byte CHR ''l'' then do {
       c \<leftarrow> peek (tl format);
       if c = byte CHR ''l'' then Some (flags OR FLAGS_LONG OR FLAGS_LONG_LONG, tl (tl format))
       else Some (flags OR FLAGS_LONG, tl format)
     }
     else if c = byte CHR ''h'' then do {
       c \<leftarrow> peek (tl format);
       if c = byte CHR ''h'' then Some (flags OR FLAGS_SHORT OR FLAGS_CHAR, tl (tl format))
       else Some (flags OR FLAGS_SHORT, tl format)
     }
     else if c = byte CHR ''t'' \<or> c = byte CHR ''j'' \<or> c = byte CHR ''z'' then
       Some (flags OR FLAGS_LONG, tl format)
     else Some (flags, format)
   }"

section \<open>The conversions\<close>

text \<open>Base and flags of an integer conversion.\<close>

definition int_base :: "u8 \<Rightarrow> nat" where
  "int_base c =
     (if c = byte CHR ''x'' \<or> c = byte CHR ''X'' then 16
      else if c = byte CHR ''o'' then 8
      else if c = byte CHR ''b'' then 2
      else 10)"

definition int_flags :: "u8 \<Rightarrow> u32 \<Rightarrow> u32" where
  "int_flags c flags =
     (let flags = (if int_base c = 10 then flags AND NOT FLAGS_HASH else flags);
          flags = (if c = byte CHR ''X'' then flags OR FLAGS_UPPERCASE else flags);
          flags = (if c \<noteq> byte CHR ''i'' \<and> c \<noteq> byte CHR ''d''
                   then flags AND NOT (FLAGS_PLUS OR FLAGS_SPACE) else flags)
      in if has flags FLAGS_PRECISION then flags AND NOT FLAGS_ZEROPAD else flags)"

text \<open>The narrowing of an \<open>int\<close> argument by \<open>hh\<close> and \<open>h\<close>; \<open>char\<close> is signed.\<close>

definition int_value :: "u32 \<Rightarrow> u32 \<Rightarrow> u32" where
  "int_value flags v =
     (if has flags FLAGS_CHAR then scast (ucast v :: u8)
      else if has flags FLAGS_SHORT then scast (ucast v :: u16) else v)"

definition uint_value :: "u32 \<Rightarrow> u32 \<Rightarrow> u32" where
  "uint_value flags v =
     (if has flags FLAGS_CHAR then ucast (ucast v :: u8)
      else if has flags FLAGS_SHORT then ucast (ucast v :: u16) else v)"

text \<open>\<^verbatim>\<open>value > 0 ? value : 0 - value\<close>; the negation of the least integer wraps around.\<close>

definition magnitude :: "'a::len word \<Rightarrow> 'a word" where
  "magnitude v = (if sint v > 0 then v else 0 - v)"

text \<open>The value and the sign of the argument of an integer conversion.\<close>

definition int_arg :: "u8 \<Rightarrow> u32 \<Rightarrow> va_value list \<Rightarrow> (u64 \<times> bool \<times> va_value list) option" where
  "int_arg c flags va =
     (if c = byte CHR ''i'' \<or> c = byte CHR ''d'' then
        (if has flags FLAGS_LONG_LONG \<or> has flags FLAGS_LONG then do {
           (v, va) \<leftarrow> va_long va;
           Some (magnitude v, sint v < 0, va)
         }
         else do {
           (v, va) \<leftarrow> va_int va;
           let v = int_value flags v;
           Some (ucast (magnitude v), sint v < 0, va)
         })
      else
        (if has flags FLAGS_LONG_LONG \<or> has flags FLAGS_LONG then do {
           (v, va) \<leftarrow> va_long va;
           Some (v, False, va)
         }
         else do {
           (v, va) \<leftarrow> va_int va;
           Some (ucast (uint_value flags v), False, va)
         }))"

definition conv_integer ::
  "'o out_fct_type \<Rightarrow> nat \<Rightarrow> u8 \<Rightarrow> u32 \<Rightarrow> nat \<Rightarrow> nat \<Rightarrow> va_value list \<Rightarrow> nat \<times> 'o \<Rightarrow>
   (va_value list \<times> nat \<times> 'o) option" where
  "conv_integer out maxlen c flags precision width va st = do {
     let base = int_base c;
     let flags = int_flags c flags;
     (v, negative, va) \<leftarrow> int_arg c flags va;
     Some (va, if has flags FLAGS_LONG_LONG
               then ntoa_long_long out maxlen v negative base precision width flags st
               else ntoa_long out maxlen v negative base precision width flags st)
   }"

text \<open>A loop \<^verbatim>\<open>while (l++ < width) out(' ', ...)\<close>.\<close>

definition pad_spaces :: "'o out_fct_type \<Rightarrow> nat \<Rightarrow> nat \<Rightarrow> nat \<Rightarrow> nat \<times> 'o \<Rightarrow> nat \<times> 'o" where
  "pad_spaces out maxlen l width st = for_up l width (\<lambda>_. emit out maxlen (byte CHR '' '')) st"

definition conv_char ::
  "'o out_fct_type \<Rightarrow> nat \<Rightarrow> u32 \<Rightarrow> nat \<Rightarrow> va_value list \<Rightarrow> nat \<times> 'o \<Rightarrow> (va_value list \<times> nat \<times> 'o) option" where
  "conv_char out maxlen flags width va st = do {
     let st = (if \<not> has flags FLAGS_LEFT then pad_spaces out maxlen 1 width st else st);
     (v, va) \<leftarrow> va_int va;
     let st = emit out maxlen (ucast v) st;
     let st = (if has flags FLAGS_LEFT then pad_spaces out maxlen 1 width st else st);
     Some (va, st)
   }"

text \<open>\<^verbatim>\<open>while ((*p != 0) && (!(flags & FLAGS_PRECISION) || precision--))\<close>.\<close>

fun out_string :: "'o out_fct_type \<Rightarrow> nat \<Rightarrow> bool \<Rightarrow> nat \<Rightarrow> u8 list \<Rightarrow> nat \<times> 'o \<Rightarrow> (nat \<times> 'o) option" where
  "out_string out maxlen limited precision [] st = None"
| "out_string out maxlen limited precision (c # p) st =
     (if c \<noteq> 0 \<and> (\<not> limited \<or> precision \<noteq> 0)
      then out_string out maxlen limited (precision - 1) p (emit out maxlen c st)
      else Some st)"

definition conv_string ::
  "'o out_fct_type \<Rightarrow> nat \<Rightarrow> u32 \<Rightarrow> nat \<Rightarrow> nat \<Rightarrow> va_value list \<Rightarrow> nat \<times> 'o \<Rightarrow> (va_value list \<times> nat \<times> 'o) option" where
  "conv_string out maxlen flags precision width va st = do {
     ((a, p), va) \<leftarrow> va_ptr va;
     n \<leftarrow> strnlen_s p (if precision \<noteq> 0 then precision else SIZE_MAX);
     let l = n mod 0x100000000;
     let l = (if has flags FLAGS_PRECISION then (if l < precision then l else precision) else l);
     let st = (if \<not> has flags FLAGS_LEFT then pad_spaces out maxlen l width st else st);
     st \<leftarrow> out_string out maxlen (has flags FLAGS_PRECISION) precision p st;
     let st = (if has flags FLAGS_LEFT then pad_spaces out maxlen l width st else st);
     Some (va, st)
   }"

definition conv_pointer ::
  "'o out_fct_type \<Rightarrow> nat \<Rightarrow> u32 \<Rightarrow> nat \<Rightarrow> va_value list \<Rightarrow> nat \<times> 'o \<Rightarrow> (va_value list \<times> nat \<times> 'o) option" where
  "conv_pointer out maxlen flags precision va st = do {
     ((a, p), va) \<leftarrow> va_ptr va;
     Some (va, ntoa_long_long out maxlen a False 16 precision 16
                 (flags OR (FLAGS_ZEROPAD OR FLAGS_UPPERCASE)) st)
   }"

definition conv ::
  "'o out_fct_type \<Rightarrow> nat \<Rightarrow> u8 \<Rightarrow> u32 \<Rightarrow> nat \<Rightarrow> nat \<Rightarrow> va_value list \<Rightarrow> nat \<times> 'o \<Rightarrow>
   (va_value list \<times> nat \<times> 'o) option" where
  "conv out maxlen c flags precision width va st =
     (if c = byte CHR ''d'' \<or> c = byte CHR ''i'' \<or> c = byte CHR ''u'' \<or> c = byte CHR ''x'' \<or>
         c = byte CHR ''X'' \<or> c = byte CHR ''o'' \<or> c = byte CHR ''b''
      then conv_integer out maxlen c flags precision width va st
      else if c = byte CHR ''c'' then conv_char out maxlen flags width va st
      else if c = byte CHR ''s'' then conv_string out maxlen flags precision width va st
      else if c = byte CHR ''p'' then conv_pointer out maxlen flags precision va st
      else Some (va, emit out maxlen c st))"

section \<open>The loop over the format\<close>

text \<open>
  One iteration, on a byte that is not the terminator. A specifier that is the terminator itself is
  passed to \<open>out\<close> and skipped like any other, and the next iteration reads behind it.
\<close>

definition vsnprintf_step ::
  "'o out_fct_type \<Rightarrow> nat \<Rightarrow> u8 list \<Rightarrow> va_value list \<Rightarrow> nat \<times> 'o \<Rightarrow>
   (u8 list \<times> va_value list \<times> nat \<times> 'o) option" where
  "vsnprintf_step out maxlen format va st = do {
     c \<leftarrow> peek format;
     if c \<noteq> byte CHR ''%'' then Some (tl format, va, emit out maxlen c st)
     else do {
       (flags, format) \<leftarrow> parse_flags 0 (tl format);
       (flags, width, format, va) \<leftarrow> parse_width flags format va;
       (flags, precision, format, va) \<leftarrow> parse_precision flags format va;
       (flags, format) \<leftarrow> parse_length flags format;
       c \<leftarrow> peek format;
       (va, st) \<leftarrow> conv out maxlen c flags (unat precision) (unat width) va st;
       Some (tl format, va, st)
     }
   }"


lemma parse_flags_shorter: "parse_flags fl fmt = Some (fl', fmt') \<Longrightarrow> length fmt' \<le> length fmt"
  by (induction fl fmt rule: parse_flags.induct) (auto split: if_splits)

lemma atoi_loop_shorter: "atoi_loop i fmt = Some (w, fmt') \<Longrightarrow> length fmt' \<le> length fmt"
  by (induction i fmt rule: atoi_loop.induct) (auto split: if_splits)

lemma parse_width_shorter: "parse_width fl fmt va = Some (fl', w, fmt', va') \<Longrightarrow> length fmt' \<le> length fmt"
  by (auto simp: parse_width_def atoi_def bind_eq_Some_conv split: if_splits dest: atoi_loop_shorter)

lemma parse_precision_shorter:
  "parse_precision fl fmt va = Some (fl', w, fmt', va') \<Longrightarrow> length fmt' \<le> length fmt"
  by (auto simp: parse_precision_def atoi_def bind_eq_Some_conv Let_def split: if_splits dest!: atoi_loop_shorter)

lemma parse_length_shorter: "parse_length fl fmt = Some (fl', fmt') \<Longrightarrow> length fmt' \<le> length fmt"
  by (auto simp: parse_length_def bind_eq_Some_conv split: if_splits)

lemma peek_nonempty: "peek fmt = Some c \<Longrightarrow> length (tl fmt) < length fmt"
  by (cases fmt) auto

lemma vsnprintf_step_shorter:
  "vsnprintf_step out maxlen fmt va st = Some (fmt', va', st') \<Longrightarrow> length fmt' < length fmt"
  by (fastforce simp: vsnprintf_step_def bind_eq_Some_conv split: if_splits
      dest: peek_nonempty parse_flags_shorter parse_width_shorter parse_precision_shorter parse_length_shorter)

function vsnprintf_loop ::
  "'o out_fct_type \<Rightarrow> nat \<Rightarrow> u8 list \<Rightarrow> va_value list \<Rightarrow> nat \<times> 'o \<Rightarrow> (nat \<times> 'o) option" where
  "vsnprintf_loop out maxlen format va st =
     (case peek format of
        None \<Rightarrow> None
      | Some c \<Rightarrow>
          if c = 0 then Some st
          else case vsnprintf_step out maxlen format va st of
            None \<Rightarrow> None
          | Some (format, va, st) \<Rightarrow> vsnprintf_loop out maxlen format va st)"
  by pat_completeness auto
termination
  by (relation "measure (\<lambda>(out, maxlen, format, va, st). length format)") (auto dest: vsnprintf_step_shorter)

declare vsnprintf_loop.simps [simp del]

definition vsnprintf_internal ::
  "'o out_fct_type \<Rightarrow> bool \<Rightarrow> nat \<Rightarrow> u8 list \<Rightarrow> va_value list \<Rightarrow> 'o \<Rightarrow> (u32 \<times> 'o) option" where
  "vsnprintf_internal out null_buffer maxlen format va s = do {
     let out = (if null_buffer then out_null else out);
     (idx, s) \<leftarrow> vsnprintf_loop out maxlen format va (0, s);
     Some (of_nat idx, out 0 (if idx < maxlen then idx else sub64 maxlen 1) maxlen s)
   }"

section \<open>The interface\<close>

text \<open>A buffer that is the null pointer is \<open>None\<close>; its contents are then empty.\<close>

definition sprintf :: "u8 list option \<Rightarrow> u8 list \<Rightarrow> va_value list \<Rightarrow> (u32 \<times> u8 list) option" where
  "sprintf buffer format va =
     vsnprintf_internal out_buffer (buffer = None) SIZE_MAX format va (case buffer of None \<Rightarrow> [] | Some b \<Rightarrow> b)"

definition vsnprintf :: "u8 list option \<Rightarrow> nat \<Rightarrow> u8 list \<Rightarrow> va_value list \<Rightarrow> (u32 \<times> u8 list) option" where
  "vsnprintf buffer count format va =
     vsnprintf_internal out_buffer (buffer = None) count format va (case buffer of None \<Rightarrow> [] | Some b \<Rightarrow> b)"

definition snprintf :: "u8 list option \<Rightarrow> nat \<Rightarrow> u8 list \<Rightarrow> va_value list \<Rightarrow> (u32 \<times> u8 list) option" where
  "snprintf buffer count format va =
     vsnprintf_internal out_buffer (buffer = None) count format va (case buffer of None \<Rightarrow> [] | Some b \<Rightarrow> b)"

text \<open>The state \<open>s\<close> is what the function \<open>fct\<close> and its argument act on.\<close>

definition fctprintf :: "(u8 \<Rightarrow> 'o \<Rightarrow> 'o) \<Rightarrow> u8 list \<Rightarrow> va_value list \<Rightarrow> 'o \<Rightarrow> (u32 \<times> 'o) option" where
  "fctprintf fct format va s = vsnprintf_internal (out_fct fct) False SIZE_MAX format va s"

section \<open>The text of a conversion\<close>

text \<open>
  What each conversion prints, without output functions: the specification that the code's
  interleaving of computation and output implements.
\<close>

abbreviation spaces :: "nat \<Rightarrow> u8 list" where
  "spaces n \<equiv> replicate n (byte CHR '' '')"

definition rev_text :: "u8 list \<Rightarrow> nat \<Rightarrow> u32 \<Rightarrow> u8 list" where
  "rev_text buf width flags =
     (if has flags FLAGS_LEFT then rev buf @ spaces (width - length buf)
      else if has flags FLAGS_ZEROPAD then rev buf
      else spaces (width - length buf) @ rev buf)"

definition int_text :: "u64 \<Rightarrow> bool \<Rightarrow> nat \<Rightarrow> nat \<Rightarrow> nat \<Rightarrow> u32 \<Rightarrow> u8 list" where
  "int_text value negative base prec width flags =
     (let flags = (if value = 0 then flags AND NOT FLAGS_HASH else flags);
          buf = (if \<not> has flags FLAGS_PRECISION \<or> value \<noteq> 0
                 then ntoa_digits flags base (unat value) [] else []);
          (buf, width) = ntoa_layout buf negative base prec width flags
      in rev_text buf width flags)"

text \<open>A field of a given width, with the text on the left or on the right.\<close>

definition field :: "u32 \<Rightarrow> nat \<Rightarrow> nat \<Rightarrow> u8 list \<Rightarrow> u8 list" where
  "field flags l width t =
     (if has flags FLAGS_LEFT then t @ spaces (width - l) else spaces (width - l) @ t)"

fun c_string :: "bool \<Rightarrow> nat \<Rightarrow> u8 list \<Rightarrow> u8 list option" where
  "c_string limited precision [] = None"
| "c_string limited precision (c # p) =
     (if c \<noteq> 0 \<and> (\<not> limited \<or> precision \<noteq> 0) then map_option ((#) c) (c_string limited (precision - 1) p)
      else Some [])"

definition string_text :: "u32 \<Rightarrow> nat \<Rightarrow> nat \<Rightarrow> u8 list \<Rightarrow> u8 list option" where
  "string_text flags precision width p = do {
     n \<leftarrow> strnlen_s p (if precision \<noteq> 0 then precision else SIZE_MAX);
     let l = n mod 0x100000000;
     let l = (if has flags FLAGS_PRECISION then min l precision else l);
     t \<leftarrow> c_string (has flags FLAGS_PRECISION) precision p;
     Some (field flags l width t)
   }"

definition conv_text :: "u8 \<Rightarrow> u32 \<Rightarrow> nat \<Rightarrow> nat \<Rightarrow> va_value list \<Rightarrow> (va_value list \<times> u8 list) option" where
  "conv_text c flags precision width va =
     (if c = byte CHR ''d'' \<or> c = byte CHR ''i'' \<or> c = byte CHR ''u'' \<or> c = byte CHR ''x'' \<or>
         c = byte CHR ''X'' \<or> c = byte CHR ''o'' \<or> c = byte CHR ''b''
      then do {
        (v, negative, va) \<leftarrow> int_arg c (int_flags c flags) va;
        Some (va, int_text v negative (int_base c) precision width (int_flags c flags))
      }
      else if c = byte CHR ''c'' then do {
        (v, va) \<leftarrow> va_int va;
        Some (va, field flags 1 width [ucast v])
      }
      else if c = byte CHR ''s'' then do {
        ((a, p), va) \<leftarrow> va_ptr va;
        t \<leftarrow> string_text flags precision width p;
        Some (va, t)
      }
      else if c = byte CHR ''p'' then do {
        ((a, p), va) \<leftarrow> va_ptr va;
        Some (va, int_text a False 16 precision 16 (flags OR (FLAGS_ZEROPAD OR FLAGS_UPPERCASE)))
      }
      else Some (va, [c]))"

definition directive :: "u8 list \<Rightarrow> va_value list \<Rightarrow> (u8 list \<times> va_value list \<times> u8 list) option" where
  "directive format va = do {
     c \<leftarrow> peek format;
     if c \<noteq> byte CHR ''%'' then Some (tl format, va, [c])
     else do {
       (flags, format) \<leftarrow> parse_flags 0 (tl format);
       (flags, width, format, va) \<leftarrow> parse_width flags format va;
       (flags, precision, format, va) \<leftarrow> parse_precision flags format va;
       (flags, format) \<leftarrow> parse_length flags format;
       c \<leftarrow> peek format;
       (va, t) \<leftarrow> conv_text c flags (unat precision) (unat width) va;
       Some (tl format, va, t)
     }
   }"

lemma directive_shorter: "directive fmt va = Some (fmt', va', t) \<Longrightarrow> length fmt' < length fmt"
  by (fastforce simp: directive_def bind_eq_Some_conv split: if_splits
      dest: peek_nonempty parse_flags_shorter parse_width_shorter parse_precision_shorter parse_length_shorter)

function render :: "u8 list \<Rightarrow> va_value list \<Rightarrow> u8 list option" where
  "render format va =
     (case peek format of
        None \<Rightarrow> None
      | Some c \<Rightarrow>
          if c = 0 then Some []
          else case directive format va of
            None \<Rightarrow> None
          | Some (format, va, t) \<Rightarrow> map_option ((@) t) (render format va))"
  by pat_completeness auto
termination
  by (relation "measure (\<lambda>(format, va). length format)") (auto dest: directive_shorter)

declare render.simps [simp del]

section \<open>Output is the text\<close>

lemma for_up_emit: "for_up a b (\<lambda>_. emit out maxlen c) st = fold (emit out maxlen) (replicate (b - a) c) st"
proof (induction "b - a" arbitrary: a st)
  case (Suc n)
  then have "b - a = Suc (b - Suc a)" "a < b" by auto
  with Suc show ?case by (simp add: for_up_step)
qed simp

lemma fst_emits [simp]: "fst (fold (emit out maxlen) cs st) = fst st + length cs"
  by (induction cs arbitrary: st) (auto simp: emit_def split: prod.splits)

lemma out_rev_text: "out_rev out maxlen buf width flags st = fold (emit out maxlen) (rev_text buf width flags) st"
  by (auto simp: out_rev_def rev_text_def for_up_emit Let_def)

lemma ntoa_text:
  "ntoa_long out maxlen v neg base prec width flags st = fold (emit out maxlen) (int_text v neg base prec width flags) st"
  "ntoa_long_long out maxlen v neg base prec width flags st = fold (emit out maxlen) (int_text v neg base prec width flags) st"
  by (simp_all add: ntoa_long_def ntoa_long_long_def ntoa_format_def int_text_def out_rev_text Let_def split: prod.split)

lemma out_string_text:
  "out_string out maxlen limited precision p st
   = map_option (\<lambda>t. fold (emit out maxlen) t st) (c_string limited precision p)"
  by (induction limited precision p arbitrary: st rule: c_string.induct)
    (auto simp: option.map_comp o_def)

lemma pad_spaces_text: "pad_spaces out maxlen l width st = fold (emit out maxlen) (spaces (width - l)) st"
  by (simp add: pad_spaces_def for_up_emit)

lemma conv_string_text:
  "conv_string out maxlen flags precision width va st =
     do { ((a, p), va) \<leftarrow> va_ptr va; t \<leftarrow> string_text flags precision width p;
          Some (va, fold (emit out maxlen) t st) }"
proof (cases "va_ptr va")
  case (Some r)
  obtain a p va' where r: "r = ((a, p), va')" by (metis surj_pair)
  show ?thesis
    by (cases "strnlen_s p (if precision \<noteq> 0 then precision else SIZE_MAX)";
        cases "c_string (has flags FLAGS_PRECISION) precision p")
      (simp_all add: conv_string_def string_text_def Some r pad_spaces_text out_string_text field_def
        Let_def min_def)
qed (simp add: conv_string_def)

lemma conv_integer_text:
  "conv_integer out maxlen c flags precision width va st =
     do { (v, negative, va) \<leftarrow> int_arg c (int_flags c flags) va;
          Some (va, fold (emit out maxlen)
            (int_text v negative (int_base c) precision width (int_flags c flags)) st) }"
  by (cases "int_arg c (int_flags c flags) va") (simp_all add: conv_integer_def ntoa_text Let_def split: prod.split)

lemma conv_char_text:
  "conv_char out maxlen flags width va st =
     do { (v, va) \<leftarrow> va_int va; Some (va, fold (emit out maxlen) (field flags 1 width [ucast v]) st) }"
  by (simp add: conv_char_def pad_spaces_text field_def Let_def)

lemma conv_conv_text:
  "conv out maxlen c flags precision width va st =
     map_option (\<lambda>(va, t). (va, fold (emit out maxlen) t st)) (conv_text c flags precision width va)"
  unfolding conv_def conv_text_def conv_integer_text conv_char_text conv_string_text conv_pointer_def ntoa_text
  by (cases "int_arg c (int_flags c flags) va"; cases "va_int va"; cases "va_ptr va")
    (simp_all split: prod.split Option.bind_split)

lemma step_directive:
  "vsnprintf_step out maxlen fmt va st =
     map_option (\<lambda>(fmt, va, t). (fmt, va, fold (emit out maxlen) t st)) (directive fmt va)"
  by (auto simp: vsnprintf_step_def directive_def conv_conv_text split: Option.bind_splits)

lemma vsnprintf_loop_render:
  "vsnprintf_loop out maxlen fmt va st = map_option (\<lambda>t. fold (emit out maxlen) t st) (render fmt va)"
proof (induction fmt va arbitrary: st rule: render.induct)
  case (1 fmt va)
  then show ?case
    unfolding render.simps [of fmt] vsnprintf_loop.simps [of _ _ fmt]
    by (auto simp: step_directive option.map_comp o_def split: option.split)
qed

section \<open>Writing to a buffer\<close>

lemma emits_null: "fold (emit out_null maxlen) cs (idx, s) = (idx + length cs, s)"
  by (induction cs arbitrary: idx) (auto simp: emit_def out_null_def)

lemma emits_buffer:
  assumes "snd (fold (emit out_buffer m) cs (i, b)) = b'"
  shows "length b' = length b"
    and "k < length b \<Longrightarrow> b' ! k = (if i \<le> k \<and> k < m \<and> k < i + length cs then cs ! (k - i) else b ! k)"
  unfolding assms [symmetric]
  by (induction cs arbitrary: i b) (auto simp: emit_def out_buffer_def nth_upd nth_Cons')

lemma emits_pair: "fold (emit out maxlen) cs (i, s) = (i + length cs, snd (fold (emit out maxlen) cs (i, s)))"
  by (metis fst_conv fst_emits prod.collapse)

text \<open>
  The contract of an output function: a property of the state that every output of a character keeps,
  at any index, is kept by the whole of \<open>_vsnprintf\<close>.
\<close>

locale sink =
  fixes out :: "'o out_fct_type" and maxlen :: nat and P :: "'o \<Rightarrow> bool"
  assumes out_keeps: "P s \<Longrightarrow> P (out c idx maxlen s)"
begin

lemma emits_keep: "P s \<Longrightarrow> P (snd (fold (emit out maxlen) cs (idx, s)))"
  by (induction cs arbitrary: idx s) (auto simp: emit_def out_keeps)

lemma vsnprintf_keeps: "vsnprintf_internal out nb maxlen fmt va s = Some (n, s') \<Longrightarrow> P s \<Longrightarrow> P s'"
  using emits_keep [of s _ 0]
  by (cases nb) (auto simp: vsnprintf_internal_def vsnprintf_loop_render bind_eq_Some_conv out_null_def
      emits_null intro!: out_keeps split: prod.splits, metis snd_conv)

end

interpretation buffer: sink out_buffer maxlen "\<lambda>b. length b = n \<and> drop maxlen b = rest" for maxlen n rest
  by unfold_locales (auto simp: out_buffer_def)

text \<open>A function that takes the characters sees the text, less its zero bytes.\<close>

lemma emits_fct: "snd (fold (emit (out_fct f) m) t (i, s)) = fold f (filter (\<lambda>c. c \<noteq> 0) t) s"
  by (induction t arbitrary: i s) (auto simp: emit_def out_fct_def)

lemma fctprintf_text:
  "fctprintf f fmt va s = map_option (\<lambda>t. (of_nat (length t), fold f (filter (\<lambda>c. c \<noteq> 0) t) s)) (render fmt va)"
proof (cases "render fmt va")
  case (Some t)
  have "fold (emit (out_fct f) SIZE_MAX) t (0, s) = (0 + length t, fold f (filter (\<lambda>c. c \<noteq> 0) t) s)"
    unfolding emits_fct [of f SIZE_MAX t 0 s, symmetric] by (rule emits_pair)
  then show ?thesis
    by (simp add: fctprintf_def vsnprintf_internal_def vsnprintf_loop_render Some out_fct_def)
qed (simp add: fctprintf_def vsnprintf_internal_def vsnprintf_loop_render)

text \<open>
  \<open>snprintf\<close> in terms of \<open>render\<close>, the output of the format loop as one list. What the list is
  for a given format is the subject of \<open>Printf_Spec\<close>.
\<close>

lemma snprintf_render:
  assumes "count \<le> length b" "count \<le> SIZE_MAX"
  shows "snprintf (Some b) count fmt va =
      (case render fmt va of None \<Rightarrow> None
       | Some t \<Rightarrow> Some (of_nat (length t),
           if count = 0 then b else take (count - 1) t @ [0] @ drop (min (length t) (count - 1) + 1) b)) \<and>
    snprintf None count fmt va = map_option (\<lambda>t. (of_nat (length t), [])) (render fmt va)"
proof (cases "render fmt va")
  case (Some t)
  define b' where "b' = snd (fold (emit out_buffer count) t (0, b))"
  note b' = emits_buffer [OF b'_def [symmetric]]
  let ?i = "if length t < count then length t else sub64 count 1"
  let ?r = "take (count - 1) t @ [0] @ drop (min (length t) (count - 1) + 1) b"
  have "fold (emit out_buffer count) t (0, b) = (0 + length t, b')"
    unfolding b'_def by (rule emits_pair)
  then have call: "snprintf (Some b) count fmt va = Some (of_nat (length t), out_buffer 0 ?i count b')"
    by (simp add: snprintf_def vsnprintf_internal_def vsnprintf_loop_render Some)
  have "out_buffer 0 ?i count b' = ?r" if "0 < count"
  proof (rule nth_equalityI)
    show "length (out_buffer 0 ?i count b') = length ?r"
      using assms that by (auto simp: out_buffer_def b'(1))
  next
    fix k
    assume "k < length (out_buffer 0 ?i count b')"
    then have k: "k < length b" by (simp add: out_buffer_def b'(1) split: if_splits)
    have i: "?i = min (length t) (count - 1)" using that assms by (auto simp: size_simps min_def)
    show "out_buffer 0 ?i count b' ! k = ?r ! k"
      unfolding i using k that assms
      by (auto simp: out_buffer_def nth_upd b' nth_append min_def)
  qed
  moreover have "out_buffer 0 ?i count b' = b" if "count = 0"
    using that b' by (auto simp: out_buffer_def intro: nth_equalityI)
  moreover have "snprintf None count fmt va = Some (of_nat (length t), [])"
    by (simp add: snprintf_def vsnprintf_internal_def vsnprintf_loop_render emits_null out_null_def Some)
  ultimately show ?thesis by (simp add: call Some)
qed (simp add: snprintf_def vsnprintf_internal_def vsnprintf_loop_render)

section \<open>Numbers\<close>

text \<open>The digits of a number, the most significant first.\<close>

function to_digits :: "nat \<Rightarrow> nat \<Rightarrow> nat list" where
  "to_digits base n = (if n < base \<or> base < 2 then [n] else to_digits base (n div base) @ [n mod base])"
  by pat_completeness auto
termination
  by (relation "measure snd") auto

declare to_digits.simps [simp del]

text \<open>The text of an integer conversion as the C standard describes it, short of the alternate form.\<close>

definition number_text :: "u64 \<Rightarrow> bool \<Rightarrow> nat \<Rightarrow> nat \<Rightarrow> nat \<Rightarrow> u32 \<Rightarrow> u8 list" where
  "number_text v negative base prec width flags =
     (let ds = (if has flags FLAGS_PRECISION \<and> v = 0 then []
                else map (digit_char flags) (to_digits base (unat v)));
          ds = (if has flags FLAGS_LEFT then ds else replicate (prec - length ds) (byte CHR ''0'') @ ds);
          sign = (if negative then [byte CHR ''-''] else if has flags FLAGS_PLUS then [byte CHR ''+'']
                  else if has flags FLAGS_SPACE then [byte CHR '' ''] else [])
      in if has flags FLAGS_LEFT then sign @ ds @ spaces (width - length (sign @ ds))
         else if has flags FLAGS_ZEROPAD
         then sign @ replicate (width - length (sign @ ds)) (byte CHR ''0'') @ ds
         else spaces (width - length (sign @ ds)) @ sign @ ds)"

lemma ntoa_digits_to_digits:
  assumes "2 \<le> base" "length buf + k = PRINTF_NTOA_BUFFER_SIZE" "0 < k" "v < base ^ k"
  shows "ntoa_digits flags base v buf = buf @ map (digit_char flags) (rev (to_digits base v))"
  using assms(2-)
proof (induction k arbitrary: v buf)
  case (Suc k)
  show ?case
  proof (cases "v < base")
    case True
    then show ?thesis using assms(1) Suc.prems
      by (subst ntoa_digits.simps, subst to_digits.simps) simp
  next
    case False
    with Suc.prems have k: "0 < k" by (cases k) auto
    have v: "v div base < base ^ k" using Suc.prems(3) assms(1) by (simp add: less_mult_imp_div_less mult.commute)
    have nz: "v div base \<noteq> 0" using False assms(1) by (simp add: div_eq_0_iff)
    show ?thesis
      using Suc.IH [of "buf @ [digit_char flags (v mod base)]" "v div base"] Suc.prems k v nz False assms(1)
      by (subst ntoa_digits.simps, subst to_digits.simps) simp
  qed
qed simp

lemma length_to_digits: "2 \<le> base \<Longrightarrow> v < base ^ k \<Longrightarrow> 0 < k \<Longrightarrow> length (to_digits base v) \<le> k"
proof (induction k arbitrary: v)
  case (Suc k)
  have v: "v div base < base ^ k" using Suc.prems by (simp add: less_mult_imp_div_less mult.commute)
  show ?case
  proof (cases "v < base")
    case False
    with Suc.prems have "0 < k" by (cases k) auto
    with v Suc show ?thesis by (subst to_digits.simps) (auto)
  qed (simp add: to_digits.simps [of base v])
qed simp

lemma pad_zeros_replicate:
  "pad_zeros n buf = buf @ replicate (min n PRINTF_NTOA_BUFFER_SIZE - length buf) (byte CHR ''0'')"
proof -
  have "fold (\<lambda>_ b. b @ [c]) xs b = b @ replicate (length xs) c" for c :: u8 and xs :: "nat list" and b
    by (induction xs arbitrary: b) (simp_all add: replicate_app_Cons_same)
  then show ?thesis by (simp add: pad_zeros_def for_up_def)
qed

lemma has_plus_or_space: "has fl (FLAGS_PLUS OR FLAGS_SPACE) \<longleftrightarrow> has fl FLAGS_PLUS \<or> has fl FLAGS_SPACE"
  by (simp add: has_def bit.conj_disj_distrib word_bitwise_m1_simps) (metis bit.conj_disj_distrib or_eq_0_iff)

lemma clear_hash [simp]: "\<not> has fl FLAGS_HASH \<Longrightarrow> fl AND NOT FLAGS_HASH = fl"
proof (rule bit_word_eqI)
  fix n
  assume "\<not> has fl FLAGS_HASH" and n: "n < LENGTH(32)"
  then have "\<not> bit (fl AND FLAGS_HASH) n" by (simp add: has_def)
  then show "bit (fl AND NOT FLAGS_HASH) n = bit fl n" using n by (auto simp: bit_simps)
qed

lemma sign_put:
  "length buf < PRINTF_NTOA_BUFFER_SIZE \<Longrightarrow> rev (ntoa_sign negative flags buf) =
     (if negative then [byte CHR ''-''] else if has flags FLAGS_PLUS then [byte CHR ''+'']
      else if has flags FLAGS_SPACE then [byte CHR '' ''] else []) @ rev buf"
  by (simp add: ntoa_sign_def put_buf_def)

text \<open>The layout of a buffer of digits, by alignment.\<close>

lemma layout_text:
  assumes "length buf < PRINTF_NTOA_BUFFER_SIZE" "prec < PRINTF_NTOA_BUFFER_SIZE" "\<not> has flags FLAGS_HASH"
    "has flags FLAGS_ZEROPAD \<longrightarrow> width \<le> PRINTF_NTOA_BUFFER_SIZE"
    and layout: "ntoa_layout buf negative base prec width flags = (buf', width')"
  shows "rev_text buf' width' flags =
    (let ds = (if has flags FLAGS_LEFT then rev buf else replicate (prec - length buf) (byte CHR ''0'') @ rev buf);
         sign = (if negative then [byte CHR ''-''] else if has flags FLAGS_PLUS then [byte CHR ''+'']
                 else if has flags FLAGS_SPACE then [byte CHR '' ''] else [])
     in if has flags FLAGS_LEFT then sign @ ds @ spaces (width - length (sign @ ds))
        else if has flags FLAGS_ZEROPAD
        then sign @ replicate (width - length (sign @ ds)) (byte CHR ''0'') @ ds
        else spaces (width - length (sign @ ds)) @ sign @ ds)"
proof -
  let ?sign = "if negative then [byte CHR ''-''] else if has flags FLAGS_PLUS then [byte CHR ''+'']
                 else if has flags FLAGS_SPACE then [byte CHR '' ''] else []"
  let ?z = "buf @ replicate (prec - length buf) (byte CHR ''0'')"
  have prec: "pad_zeros prec buf = ?z" using assms(1,2) by (simp add: pad_zeros_replicate min_def)
  consider (left) "has flags FLAGS_LEFT" | (zero) "\<not> has flags FLAGS_LEFT" "has flags FLAGS_ZEROPAD"
    | (right) "\<not> has flags FLAGS_LEFT" "\<not> has flags FLAGS_ZEROPAD" by blast
  then show ?thesis
  proof cases
    case left
    have "buf' = ntoa_sign negative flags buf" "width' = width"
      using layout left assms(3) by (auto simp: ntoa_layout_def Let_def)
    then show ?thesis using left assms(1)
      by (simp add: rev_text_def ntoa_sign_def put_buf_def Let_def)
  next
    case zero
    have w: "width' = width - length ?sign"
      using layout zero by (auto simp: ntoa_layout_def Let_def has_plus_or_space)
    have b: "buf' = ntoa_sign negative flags (pad_zeros width' ?z)"
      using layout zero prec assms(3) by (auto simp: ntoa_layout_def Let_def)
    have "length (pad_zeros width' ?z) < PRINTF_NTOA_BUFFER_SIZE \<or> ?sign = []"
      using assms(1,2,4) zero w by (auto simp: pad_zeros_replicate min_def PRINTF_NTOA_BUFFER_SIZE_def)
    then have "rev buf' = ?sign @ rev (pad_zeros width' ?z)"
      unfolding b by (auto simp: ntoa_sign_def put_buf_def split: if_splits)
    moreover have "rev (pad_zeros width' ?z) = replicate (width' - length ?z) (byte CHR ''0'') @ rev ?z"
      using assms(4) zero w by (auto simp: pad_zeros_replicate min_def)
    ultimately show ?thesis using zero w
      by (simp add: rev_text_def Let_def)
  next
    case right
    have "buf' = ntoa_sign negative flags ?z" "width' = width"
      using layout right prec assms(3) by (auto simp: ntoa_layout_def Let_def)
    moreover have "length ?z < PRINTF_NTOA_BUFFER_SIZE" using assms(1,2) by auto
    ultimately show ?thesis using right
      by (simp add: rev_text_def sign_put Let_def) (auto simp: ntoa_sign_def put_buf_def add.commute)
  qed
qed

lemma int_text_number:
  assumes base: "base \<in> {8, 10, 16}" and hash: "\<not> has flags FLAGS_HASH"
    and prec: "prec < PRINTF_NTOA_BUFFER_SIZE" and width: "has flags FLAGS_ZEROPAD \<longrightarrow> width \<le> PRINTF_NTOA_BUFFER_SIZE"
  shows "int_text v negative base prec width flags = number_text v negative base prec width flags"
proof -
  let ?ds = "map (digit_char flags) (to_digits base (unat v))"
  have v: "unat v < 2 ^ 64" using unsigned_less [of v] by simp
  also have "(2::nat) ^ 64 < base ^ 22" using base by auto
  finally have v22: "unat v < base ^ 22" .
  have len: "length ?ds < PRINTF_NTOA_BUFFER_SIZE"
    using length_to_digits [OF _ v22] base by (auto simp: PRINTF_NTOA_BUFFER_SIZE_def)
  have "unat v < base ^ 32" using v22 base by (auto elim!: order.strict_trans)
  then have dig: "ntoa_digits flags base (unat v) [] = rev ?ds"
    using ntoa_digits_to_digits [of base "[]" 32 "unat v" flags] base
    by (auto simp: PRINTF_NTOA_BUFFER_SIZE_def rev_map)
  define buf where "buf = (if has flags FLAGS_PRECISION \<and> v = 0 then [] else rev ?ds)"
  have buf: "length buf < PRINTF_NTOA_BUFFER_SIZE" using len by (auto simp: buf_def PRINTF_NTOA_BUFFER_SIZE_def)
  obtain buf' width' where l: "ntoa_layout buf negative base prec width flags = (buf', width')" by fastforce
  have "int_text v negative base prec width flags = rev_text buf' width' flags"
    using l dig by (cases "v = 0") (auto simp: int_text_def hash buf_def Let_def split: if_splits)
  also have "\<dots> = number_text v negative base prec width flags"
    using layout_text [OF buf prec hash width l] by (simp add: number_text_def buf_def Let_def)
  finally show ?thesis .
qed

text \<open>
  integers are printed as the C standard says. For octal, decimal and hexadecimal conversions of any 64-bit
  value, with any combination of the flags for sign, zero padding and alignment, any width and a precision below
  32, what \<open>_ntoa_long\<close> passes to the output function, in this order, is the sign, the digits
  with their leading zeros, and the padding on the side that the flags ask for.
\<close>

theorem ntoa_number:
  assumes "base \<in> {8, 10, 16}" "\<not> has flags FLAGS_HASH" "prec < PRINTF_NTOA_BUFFER_SIZE"
    "has flags FLAGS_ZEROPAD \<longrightarrow> width \<le> PRINTF_NTOA_BUFFER_SIZE"
  shows "ntoa_long out maxlen v negative base prec width flags st =
    fold (emit out maxlen) (number_text v negative base prec width flags) st"
  by (simp add: ntoa_text int_text_number [OF assms])

theorem ntoa_number_witness:
  "ntoa_long out_buffer 9 0x1F True 16 4 9 FLAGS_PLUS (0, replicate 9 0)
    = (9, map byte ''    -001f'')"
proof -
  have "ntoa_long out_buffer 9 0x1F True 16 4 9 FLAGS_PLUS (0, replicate 9 0)
    = fold (emit out_buffer 9) (number_text 0x1F True 16 4 9 FLAGS_PLUS) (0, replicate 9 0)"
    by (rule ntoa_number) (simp_all add: has_def flag_defs PRINTF_NTOA_BUFFER_SIZE_def)
  also have "\<dots> = (9, map byte ''    -001f'')" by code_simp
  finally show ?thesis .
qed

lemma digit_char_value:
  assumes "d < 10"
  shows "is_digit (digit_char fl d)" and "ucast (digit_char fl d - byte CHR ''0'') = (of_nat d :: u32)"
proof -
  have "d = 0 \<or> d = 1 \<or> d = 2 \<or> d = 3 \<or> d = 4 \<or> d = 5 \<or> d = 6 \<or> d = 7 \<or> d = 8 \<or> d = 9"
    using assms by presburger
  then show "is_digit (digit_char fl d)" and "ucast (digit_char fl d - byte CHR ''0'') = (of_nat d :: u32)"
    by (elim disjE; simp add: is_digit_def digit_char_def)+
qed

lemma to_digits_less: "2 \<le> base \<Longrightarrow> d \<in> set (to_digits base n) \<Longrightarrow> d < base"
proof (induction base n rule: to_digits.induct)
  case (1 base n)
  then show ?case by (subst (asm) (2) to_digits.simps) (auto split: if_splits)
qed

lemma to_digits_value: "2 \<le> base \<Longrightarrow> foldl (\<lambda>a d. a * base + d) 0 (to_digits base n) = n"
  by (induction base n rule: to_digits.induct) (subst to_digits.simps, auto)

lemma atoi_loop_digits:
  "\<forall>d \<in> set ds. d < 10 \<Longrightarrow> atoi_loop i (map (digit_char fl) ds @ [0]) =
     Some (foldl (\<lambda>a d. a * 10 + of_nat d) i ds, [0])"
proof (induction ds arbitrary: i)
  case (Cons d ds)
  then show ?case using digit_char_value [of d fl] by simp
qed (simp add: is_digit_def)

lemma foldl_word_digits: "foldl (\<lambda>a d. a * 10 + of_nat d) (of_nat a) ds = (of_nat (foldl (\<lambda>a d. a * 10 + d) a ds) :: u32)"
proof (induction ds arbitrary: a)
  case (Cons d ds)
  then show ?case using Cons [of "a * 10 + d"] by simp
qed simp

lemma atoi_to_digits: "atoi (map (digit_char fl) (to_digits 10 n) @ [0]) = Some (of_nat n, [0])"
proof -
  have "atoi (map (digit_char fl) (to_digits 10 n) @ [0]) =
      Some (foldl (\<lambda>a d. a * 10 + of_nat d) 0 (to_digits 10 n), [0])"
    unfolding atoi_def by (rule atoi_loop_digits) (auto dest: to_digits_less [rotated])
  then show ?thesis
    using foldl_word_digits [of 0 "to_digits 10 n"] by (simp add: to_digits_value)
qed

lemma digit_char_nonzero: "d < 10 \<Longrightarrow> digit_char fl d \<noteq> 0"
  using digit_char_value(1) [of d fl] by (auto simp: is_digit_def)

lemma nonzero_text: "0 \<notin> set t \<Longrightarrow> filter (\<lambda>c. c \<noteq> 0) t = (t :: u8 list)"
  by (auto intro: filter_True)

lemma fold_append: "fold (\<lambda>c s. s @ [c]) t s = s @ t"
  by (induction t arbitrary: s) simp_all

lemma unat_ucast_64: "unat (ucast (n :: u32) :: u64) = unat n"
  by (transfer, simp add: take_bit_take_bit min_def)

lemma plain_number: "number_text v negative 10 0 0 0 =
    (if negative then [byte CHR ''-''] else []) @ map (digit_char 0) (to_digits 10 (unat v))"
  by (simp add: number_text_def has_def)

lemma int_text_plain: "int_text v negative 10 0 0 0 =
    (if negative then [byte CHR ''-''] else []) @ map (digit_char 0) (to_digits 10 (unat v))"
  by (subst int_text_number) (simp_all add: has_def PRINTF_NTOA_BUFFER_SIZE_def plain_number)

text \<open>The texts of \<open>%u\<close> and \<open>%d\<close>.\<close>

lemma render_u: "render (map byte ''%u'' @ [0]) [VInt n] = Some (map (digit_char 0) (to_digits 10 (unat n)))"
  by (simp add: render.simps directive_def parse_width_def parse_precision_def parse_length_def is_digit_def
      conv_text_def int_arg_def int_flags_def int_base_def has_def uint_value_def int_text_plain Let_def
      unat_ucast_64)

lemma render_d: "render (map byte ''%d'' @ [0]) [VInt n] = Some ((if sint n < 0 then [byte CHR ''-''] else []) @
    map (digit_char 0) (to_digits 10 (unat (magnitude n))))"
  by (simp add: render.simps directive_def parse_width_def parse_precision_def parse_length_def is_digit_def
      conv_text_def int_arg_def int_flags_def int_base_def has_def int_value_def int_text_plain Let_def
      unat_ucast_64)

lemma magnitude_neg: "magnitude n = (if sint n < 0 then - n else n)"
  by (cases "n = 0") (auto simp: magnitude_def not_less order.order_iff_strict signed_eq_0_iff)

lemma digits_nonzero: "0 \<notin> set (map (digit_char 0) (to_digits 10 m))"
  by (auto simp: digit_char_nonzero dest: to_digits_less [rotated])

text \<open>
  decimal output can be read back. For every 32-bit value the text of \<open>%u\<close> is read by the code's own
  \<open>_atoi\<close> as that value, and the text of \<open>%d\<close> is a minus sign exactly for the negative values, followed by
  digits that \<open>_atoi\<close> reads as the absolute value, the least integer included.
\<close>

theorem decimal_roundtrip:
  "(\<exists>k t. fctprintf (\<lambda>c s. s @ [c]) (map byte ''%u'' @ [0]) [VInt n] [] = Some (k, t) \<and>
          atoi (t @ [0]) = Some (n, [0])) \<and>
   (\<exists>k t. fctprintf (\<lambda>c s. s @ [c]) (map byte ''%d'' @ [0]) [VInt n] []
            = Some (k, (if sint n < 0 then [byte CHR ''-''] else []) @ t) \<and>
          atoi (t @ [0]) = Some (if sint n < 0 then - n else n, [0]))"
  using render_u [of n] render_d [of n] magnitude_neg [of n] digits_nonzero atoi_to_digits [of 0 "unat n"] atoi_to_digits [of 0 "unat (magnitude n)"]
  by (auto simp: fctprintf_text fold_append nonzero_text)

text \<open>
  the alternate form can lose digits. When the number of digits equals the field width, \<open>_ntoa_format\<close>
  takes the last two digits written, the most significant ones, for padding zeros and overwrites them with the
  prefix: 0x12 printed with \<open>%#2x\<close> is \<open>0x\<close>. A directive cut off by the end of the format is passed over
  together with the terminator, so what lies behind the format in memory is read as more format.
\<close>

theorem printf_defects:
  "snprintf (Some (replicate 4 7)) 4 (map byte ''%#2x'' @ [0]) [VInt 0x12] = Some (2, [48, 120, 0, 7]) \<and>
   snprintf (Some (replicate 4 7)) 4 (map byte ''%'' @ [0] @ map byte ''k'' @ [0]) [] = Some (2, [0, 107, 0, 7]) \<and>
   snprintf (Some (replicate 4 7)) 4 (map byte ''%'' @ [0]) [] = None"
proof (intro conjI)
  show "snprintf (Some (replicate 4 7)) 4 (map byte ''%#2x'' @ [0]) [VInt 0x12] = Some (2, [48, 120, 0, 7])"
    by code_simp
  show "snprintf (Some (replicate 4 7)) 4 (map byte ''%'' @ [0] @ map byte ''k'' @ [0]) [] = Some (2, [0, 107, 0, 7])"
    by code_simp
  show "snprintf (Some (replicate 4 7)) 4 (map byte ''%'' @ [0]) [] = None"
    by code_simp
qed

end
