(* ===== verification/Kernel_Output.thy ===== *)
theory Kernel_Output
  imports Console Printf
begin

text \<open>
  The kernel's output path: \<open>printf\<close> of \<open>extra/printf/printf.c\<close> on the \<open>putchar\<close> of \<open>klibc/cstdio.cpp\<close>, which
  writes one byte to the terminal. The laws of the terminal enter through the locale \<open>sink\<close>.
\<close>

definition putchar :: "u8 \<Rightarrow> fb_term \<Rightarrow> fb_term" where
  "putchar c ctx = flanterm_write fb_ops [c] ctx"

definition out_char :: "fb_term out_fct_type" where
  "out_char character idx maxlen ctx = (if character \<noteq> 0 then putchar character ctx else ctx)"

definition printf :: "u8 list \<Rightarrow> va_value list \<Rightarrow> fb_term \<Rightarrow> (u32 \<times> fb_term) option" where
  "printf format va ctx = vsnprintf_internal out_char False SIZE_MAX format va ctx"

definition vprintf :: "u8 list \<Rightarrow> va_value list \<Rightarrow> fb_term \<Rightarrow> (u32 \<times> fb_term) option" where
  "vprintf format va ctx = vsnprintf_internal out_char False SIZE_MAX format va ctx"

interpretation console: sink out_char maxlen "synced.tb.wf" for maxlen
  by unfold_locales (auto simp: out_char_def putchar_def intro: synced.tb.wf_flanterm_write)

lemma out_char_fct: "out_char = out_fct putchar"
  by (intro ext) (simp add: out_char_def out_fct_def)

text \<open>
  C9: the kernel's \<open>printf\<close> shows its text and cannot corrupt the console. A call on a console that satisfies the
  invariants of emulator and backend writes to the terminal, byte by byte, exactly the text that the format and its
  arguments denote, less zero bytes, returns the length of the text, and keeps the invariants, whatever
  escape sequences the text contains.
\<close>

theorem printf_console:
  assumes "term_inv ctx" "fb_synced (rows ctx) (cols ctx) (be ctx)"
  shows "case printf fmt va ctx of
      None \<Rightarrow> render fmt va = None
    | Some (n, ctx') \<Rightarrow> \<exists>t. render fmt va = Some t \<and> n = of_nat (length t) \<and>
        ctx' = fold putchar (filter (\<lambda>c. c \<noteq> 0) t) ctx \<and>
        term_inv ctx' \<and> fb_synced (rows ctx') (cols ctx') (be ctx')"
proof -
  have shown: "printf fmt va ctx =
      map_option (\<lambda>t. (of_nat (length t), fold putchar (filter (\<lambda>c. c \<noteq> 0) t) ctx)) (render fmt va)"
    using fctprintf_text [of putchar fmt va ctx] by (simp add: printf_def fctprintf_def out_char_fct)
  have "synced.tb.wf ctx'" if "printf fmt va ctx = Some (n, ctx')" for n ctx'
    using that assms console.vsnprintf_keeps [of False SIZE_MAX fmt va ctx n ctx']
    by (simp add: printf_def synced.tb.wf_def)
  with shown show ?thesis by (cases "render fmt va") (auto simp: synced.tb.wf_def)
qed

theorem printf_console_witness:
  "\<exists>ctx'. printf (map byte ''%s'' @ [0]) [VPtr 64 (map byte ''hi'' @ [0])] (demo_term 3 4) = Some (2, ctx') \<and>
     term_inv ctx' \<and> ctx' = putchar (byte CHR ''i'') (putchar (byte CHR ''h'') (demo_term 3 4))"
proof -
  have "render (map byte ''%s'' @ [0]) [VPtr 64 (map byte ''hi'' @ [0])] = Some (map byte ''hi'')"
    by (simp add: render.simps directive_def parse_width_def parse_precision_def parse_length_def is_digit_def
        conv_text_def string_text_def has_def field_def SIZE_MAX_def)
  then show ?thesis
    using printf_console [of "demo_term 3 4" "map byte ''%s'' @ [0]" "[VPtr 64 (map byte ''hi'' @ [0])]"] demo_wf [of 3 4]
    by (auto split: option.splits)
qed

end
