(* ===== verification/Printf_Spec.thy ===== *)
theory Printf_Spec
  imports Printf
begin

text \<open>
  What \<open>extra/printf/printf.c\<close> is to print, without its parser: a format is a list of literal bytes and
  directives with flags, width, precision, length and conversion as data. \<open>format_bytes\<close> writes it down,
  \<open>format_image\<close> says what text it stands for, in terms of integers and lists; nothing of the code's parser,
  flag words or conversion buffer is used. The lemmas show that the parser recovers the parts of every directive
  and that each conversion writes its image.
\<close>

unbundle bit_operations_syntax

section \<open>Formats\<close>














section \<open>What a format denotes\<close>













section \<open>The flags as bits\<close>








section \<open>The parser reads the parts of a directive\<close>






lemma to_digits_nonempty [simp]: "to_digits base n \<noteq> []"
  by (subst to_digits.simps) simp









section \<open>Numbers and strings\<close>







section \<open>The conversions\<close>











section \<open>Directives and formats\<close>














end
