(* ===== verification/Pmm.thy ===== *)
theory Pmm
  imports Prelude
begin

text \<open>
  The physical memory manager \<open>mm/pmm.cpp\<close>: a buddy allocator for each segment of the boot loader's memory map.

  A free block holds the address of the next free block of its size in its first word; the memory is the store
  \<open>nxt\<close>, from the address of a block to that word, and the null pointer is zero. An access to
  \<open>free_list\<close> outside its 16 entries is undefined behaviour and gives \<open>None\<close>. Addresses and sizes are
  natural numbers; the counters are 64-bit words, which wrap around. The field \<open>fully_used\<close> is never read or written.
\<close>

section \<open>Data\<close>

type_synonym store = "nat \<Rightarrow> nat"

definition FREE_LISTS :: nat where "FREE_LISTS = 16"

record pmm_segment =
  base_ptr :: nat
  seg_size :: nat
  pages_used :: u64
  free_list :: "nat list"
  max_order :: nat

record pmm =
  nxt :: store
  segtab :: "pmm_segment list"
  total_mem :: nat
  num_used :: u64
  num_errors :: u64

definition max_segtab :: nat where "max_segtab = 128"

record memmap_entry =
  mme_base :: nat
  mme_length :: nat
  mme_type :: nat

section \<open>Lists of blocks\<close>

text \<open>Both act on the store and on one entry of \<open>free_list\<close>.\<close>

definition add_block :: "nat \<Rightarrow> nat \<Rightarrow> store \<Rightarrow> nat list \<Rightarrow> (store \<times> nat list) option" where
  "add_block k b nx heads =
     (if k < FREE_LISTS then Some (nx(b := heads ! k), heads[k := b]) else None)"

definition remove_block :: "nat \<Rightarrow> store \<Rightarrow> nat list \<Rightarrow> nat \<times> nat list" where
  "remove_block k nx heads =
     (let b = heads ! k in if b \<noteq> 0 then (b, heads[k := nx b]) else (b, heads))"

section \<open>Initialisation\<close>

text \<open>\<^verbatim>\<open>while ((1ULL << (order + 1)) <= pages) order++\<close>, from an order on.\<close>

function order_within :: "nat \<Rightarrow> nat \<Rightarrow> nat" where
  "order_within pages k = (if 2 ^ (k + 1) \<le> pages then order_within pages (k + 1) else k)"
  by pat_completeness auto
termination
  by (relation "measure (\<lambda>(pages, k). pages - k)")
    (auto, metis less_exp n_not_Suc_n order.strict_trans2 diff_less_mono2 lessI less_trans power_Suc)


declare order_within.simps [simp del]

text \<open>The fields of an entry are 64-bit values, and the end of the entry is computed with wrap-around.\<close>

definition skip_low :: "memmap_entry \<Rightarrow> (nat \<times> nat) option" where
  "skip_low e =
     (if add64 (mme_base e) (mme_length e) \<le> 0x100000 then None
      else if mme_base e < 0x100000 then
        Some (mme_base e + (0x100000 - mme_base e), mme_length e - (0x100000 - mme_base e))
      else Some (mme_base e, mme_length e))"

definition add_segment :: "nat \<Rightarrow> nat \<Rightarrow> pmm \<Rightarrow> pmm option" where
  "add_segment base len s =
     (let order = order_within (len div 0x1000) 0
      in case add_block order base (nxt s) (replicate FREE_LISTS 0) of
           None \<Rightarrow> None
         | Some (nx, heads) \<Rightarrow>
             Some (s\<lparr>nxt := nx,
                     segtab := segtab s @ [\<lparr>base_ptr = base, seg_size = len, pages_used = 0,
                                            free_list = heads, max_order = order\<rparr>]\<rparr>))"

text \<open>
  The loop over the memory map. \<open>usable\<close> is the test of an entry's type against the three usable types
  of the boot protocol's header.
\<close>

fun initialise_loop :: "(nat \<Rightarrow> bool) \<Rightarrow> memmap_entry list \<Rightarrow> pmm \<Rightarrow> pmm option" where
  "initialise_loop usable [] s = Some s"
| "initialise_loop usable (e # es) s =
     (if \<not> usable (mme_type e) then initialise_loop usable es s
      else case skip_low e of
          None \<Rightarrow> initialise_loop usable es s
        | Some (base, len) \<Rightarrow>
            if length (segtab s) \<ge> max_segtab then Some s
            else case add_segment base len s of
                None \<Rightarrow> None
              | Some s \<Rightarrow> initialise_loop usable es s)"

definition pmm_initialise :: "(nat \<Rightarrow> bool) \<Rightarrow> memmap_entry list \<Rightarrow> store \<Rightarrow> pmm option" where
  "pmm_initialise usable entries mem =
     (case initialise_loop usable entries
         \<lparr>nxt = mem, segtab = [], total_mem = 0, num_used = 0, num_errors = 0\<rparr> of
        None \<Rightarrow> None
      | Some s \<Rightarrow>
          Some (s\<lparr>total_mem := (sum_list (map seg_size (segtab s)) + 0xFFF) div 0x1000,
                  num_used := 0, num_errors := 0\<rparr>))"

section \<open>Allocation\<close>

text \<open>\<^verbatim>\<open>while ((1ULL << order) < pages) order++\<close>, from an order on.\<close>

function order_for :: "nat \<Rightarrow> nat \<Rightarrow> nat" where
  "order_for pages k = (if 2 ^ k < pages then order_for pages (k + 1) else k)"
  by pat_completeness auto
termination
  by (relation "measure (\<lambda>(pages, k). pages - k)")
    (auto, meson diff_less_mono2 lessI less_exp less_trans)

declare order_for.simps [simp del]

definition alloc_order :: "nat \<Rightarrow> nat" where
  "alloc_order n = order_for (add64 n 0xFFF div 0x1000) 0"

text \<open>The loop that splits the block \<open>b\<close> of order \<open>current\<close> down to \<open>order\<close>.\<close>

function split_loop :: "nat \<Rightarrow> nat \<Rightarrow> nat \<Rightarrow> store \<times> nat list \<Rightarrow> (store \<times> nat list) option" where
  "split_loop order current b (nx, heads) =
     (if current > order then
        (case add_block (current - 1) (b + 2 ^ (current - 1 + 12)) nx heads of
           None \<Rightarrow> None
         | Some r \<Rightarrow> split_loop order (current - 1) b r)
      else Some (nx, heads))"
  by pat_completeness auto
termination
  by (relation "measure (\<lambda>(order, current, b, r). current)") auto

declare split_loop.simps [simp del]

text \<open>
  The loop over the orders of one segment: \<open>Some None\<close> when no list from \<open>current\<close> on has a block. The
  variable \<open>current\<close> of the source is the loop's own and is not used after a split.
\<close>

function segment_alloc :: "nat \<Rightarrow> nat \<Rightarrow> store \<Rightarrow> pmm_segment \<Rightarrow> (nat \<times> store \<times> pmm_segment) option option" where
  "segment_alloc order current nx seg =
     (if current \<le> max_order seg then
        (if current \<ge> FREE_LISTS then None
         else if free_list seg ! current = 0 then segment_alloc order (current + 1) nx seg
         else
           let (b, heads) = remove_block current nx (free_list seg)
           in case split_loop order current b (nx, heads) of
                None \<Rightarrow> None
              | Some (nx, heads) \<Rightarrow>
                  Some (Some (b, nx, seg\<lparr>free_list := heads, pages_used := pages_used seg + 2 ^ order\<rparr>)))
      else Some None)"
  by pat_completeness auto
termination
  by (relation "measure (\<lambda>(order, current, nx, seg). Suc (max_order seg) - current)") auto

declare segment_alloc.simps [simp del]

fun alloc_loop :: "nat \<Rightarrow> pmm_segment list \<Rightarrow> store \<Rightarrow> (nat \<times> store \<times> pmm_segment list) option option" where
  "alloc_loop order [] nx = Some None"
| "alloc_loop order (seg # segs) nx =
     (case segment_alloc order order nx seg of
        None \<Rightarrow> None
      | Some (Some (b, nx, seg)) \<Rightarrow> Some (Some (b, nx, seg # segs))
      | Some None \<Rightarrow>
          (case alloc_loop order segs nx of
             None \<Rightarrow> None
           | Some None \<Rightarrow> Some None
           | Some (Some (b, nx, segs)) \<Rightarrow> Some (Some (b, nx, seg # segs))))"

definition pmm_alloc :: "nat \<Rightarrow> pmm \<Rightarrow> (nat \<times> pmm) option" where
  "pmm_alloc n s =
     (let order = alloc_order n
      in case alloc_loop order (segtab s) (nxt s) of
           None \<Rightarrow> None
         | Some (Some (b, nx, segs)) \<Rightarrow> Some (b, s\<lparr>nxt := nx, segtab := segs, num_used := num_used s + 2 ^ order\<rparr>)
         | Some None \<Rightarrow> Some (0, s\<lparr>num_errors := num_errors s + 1\<rparr>))"

section \<open>Release\<close>

text \<open>
  The search for the buddy in a list, from \<open>cur\<close> with its predecessor \<open>prev\<close> on; it ends when the list does.
\<close>

partial_function (option) unlink_loop :: "nat \<Rightarrow> nat \<Rightarrow> nat \<Rightarrow> store \<Rightarrow> nat \<Rightarrow> (bool \<times> store \<times> nat) option" where
  "unlink_loop buddy prev cur nx head =
     (if cur = 0 then Some (False, nx, head)
      else if cur = buddy then
        (if prev \<noteq> 0 then Some (True, nx(prev := nx cur), head) else Some (True, nx, nx cur))
      else unlink_loop buddy cur (nx cur) nx head)"

text \<open>The loop that merges a block with its buddies: order, address, store and lists in the end.\<close>

function merge_loop ::
  "nat \<Rightarrow> nat \<Rightarrow> nat \<Rightarrow> nat \<Rightarrow> store \<times> nat list \<Rightarrow> (nat \<times> nat \<times> store \<times> nat list) option" where
  "merge_loop base mo order addr (nx, heads) =
     (if order < mo then
        (if order \<ge> FREE_LISTS then None
         else
           let buddy_addr = base + ((addr - base) XOR 2 ^ (order + 12))
           in case unlink_loop buddy_addr 0 (heads ! order) nx (heads ! order) of
                None \<Rightarrow> None
              | Some (found, nx, head) \<Rightarrow>
                  let heads = heads[order := head]
                  in if \<not> found then Some (order, addr, nx, heads)
                     else merge_loop base mo (order + 1) (if buddy_addr < addr then buddy_addr else addr) (nx, heads))
      else Some (order, addr, nx, heads))"
  by pat_completeness auto
termination
  by (relation "measure (\<lambda>(base, mo, order, addr, r). mo - order)") auto

declare merge_loop.simps [simp del]

definition segment_free :: "nat \<Rightarrow> nat \<Rightarrow> store \<Rightarrow> pmm_segment \<Rightarrow> (nat \<times> store \<times> pmm_segment) option" where
  "segment_free order addr nx seg =
     (case merge_loop (base_ptr seg) (max_order seg) order addr (nx, free_list seg) of
        None \<Rightarrow> None
      | Some (order, addr, nx, heads) \<Rightarrow>
          (case add_block order addr nx heads of
             None \<Rightarrow> None
           | Some (nx, heads) \<Rightarrow>
               Some (order, nx, seg\<lparr>free_list := heads, pages_used := pages_used seg - 2 ^ order\<rparr>)))"

fun free_loop :: "nat \<Rightarrow> nat \<Rightarrow> pmm_segment list \<Rightarrow> store \<Rightarrow> (nat \<times> store \<times> pmm_segment list) option option" where
  "free_loop order addr [] nx = Some None"
| "free_loop order addr (seg # segs) nx =
     (if addr < base_ptr seg \<or> addr \<ge> base_ptr seg + seg_size seg then
        (case free_loop order addr segs nx of
           None \<Rightarrow> None
         | Some None \<Rightarrow> Some None
         | Some (Some (k, nx, segs)) \<Rightarrow> Some (Some (k, nx, seg # segs)))
      else case segment_free order addr nx seg of
          None \<Rightarrow> None
        | Some (k, nx, seg) \<Rightarrow> Some (Some (k, nx, seg # segs)))"

definition pmm_free :: "nat \<Rightarrow> nat \<Rightarrow> pmm \<Rightarrow> pmm option" where
  "pmm_free p n s =
     (case free_loop (alloc_order n) p (segtab s) (nxt s) of
        None \<Rightarrow> None
      | Some None \<Rightarrow> Some s
      | Some (Some (order, nx, segs)) \<Rightarrow> Some (s\<lparr>nxt := nx, segtab := segs, num_used := num_used s - 2 ^ order\<rparr>))"

section \<open>Statistics\<close>

definition total_memory :: "pmm \<Rightarrow> nat" where
  "total_memory s = sum_list (map seg_size (segtab s))"

definition total_used :: "pmm \<Rightarrow> u64" where
  "total_used s = num_used s"

definition errors_count :: "pmm \<Rightarrow> u64" where
  "errors_count s = num_errors s"

end
