(* ===== verification/Pmm_Buddy.thy ===== *)
theory Pmm_Buddy
  imports Pmm
begin

text \<open>
  The buddy allocator keeps its free memory exactly. The lists in the store are described by a function \<open>F\<close>
  from orders to the addresses of the free blocks; blocks are aligned relative to the segment, lie inside
  it and do not overlap. A block that is on its way between the lists is \<open>held\<close>.
\<close>

section \<open>Lists in the store\<close>

fun list_at :: "store \<Rightarrow> nat \<Rightarrow> nat list \<Rightarrow> bool" where
  "list_at nx p [] \<longleftrightarrow> p = 0"
| "list_at nx p (a # as) \<longleftrightarrow> p = a \<and> a \<noteq> 0 \<and> list_at nx (nx a) as"

lemma list_at_upd [simp]: "b \<notin> set xs \<Longrightarrow> list_at (nx(b := v)) p xs = list_at nx p xs"
  by (induction xs arbitrary: p) auto

lemma list_at_cong: "(\<And>a. a \<in> set xs \<Longrightarrow> nx' a = nx a) \<Longrightarrow> list_at nx' p xs = list_at nx p xs"
  by (induction xs arbitrary: p) auto

lemma list_at_nonzero: "list_at nx p xs \<Longrightarrow> 0 \<notin> set xs"
  by (induction xs arbitrary: p) auto

lemma list_at_unique: "list_at nx p xs \<Longrightarrow> list_at nx p ys \<Longrightarrow> xs = ys"
proof (induction xs arbitrary: p ys)
  case (Cons a xs)
  then show ?case by (cases ys) auto
next
  case Nil
  then show ?case by (cases ys) auto
qed

lemma list_at_append: "list_at nx p (xs @ a # ys) \<Longrightarrow> list_at nx a (a # ys)"
  by (induction xs arbitrary: p) auto

lemma list_at_distinct: "list_at nx p xs \<Longrightarrow> distinct xs"
proof (induction xs arbitrary: p)
  case (Cons a xs)
  have "a \<notin> set xs"
  proof
    assume "a \<in> set xs"
    then obtain ys zs where xs: "xs = ys @ a # zs" by (meson split_list)
    with Cons.prems have "list_at nx a (a # zs)" "list_at nx a (a # xs)"
      using list_at_append [of nx p "a # ys" a zs] by auto
    then show False using list_at_unique xs by fastforce
  qed
  with Cons show ?case by auto
qed simp

lemma list_at_relink:
  "list_at nx p (zs @ b # a # xs) \<Longrightarrow> distinct (zs @ b # a # xs) \<Longrightarrow> list_at (nx(b := nx a)) p (zs @ b # xs)"
proof (induction zs arbitrary: p)
  case (Cons z zs)
  have "list_at (nx(b := nx a)) (nx z) (zs @ b # xs)"
    by (rule Cons.IH) (use Cons.prems in simp_all)
  with Cons.prems show ?case by (simp del: fun_upd_apply add: fun_upd_other)
qed simp

lemma unlink_general:
  assumes "list_at nx head (ys @ xs)" "list_at nx cur xs" "prev = (if ys = [] then 0 else last ys)" "buddy \<notin> set ys"
  shows "\<exists>nx' head'. unlink_loop buddy prev cur nx head = Some (buddy \<in> set xs, nx', head') \<and>
    list_at nx' head' (ys @ remove1 buddy xs) \<and> (\<forall>p. p \<notin> set (ys @ xs) \<longrightarrow> nx' p = nx p)"
  using assms
proof (induction xs arbitrary: ys cur prev)
  case Nil
  then show ?case by (simp add: unlink_loop.simps)
next
  case (Cons a xs)
  have a: "cur = a" "a \<noteq> 0" "list_at nx (nx a) xs" using Cons.prems(2) by auto
  have dist: "distinct (ys @ a # xs)" using Cons.prems(1) by (rule list_at_distinct)
  show ?case
  proof (cases "a = buddy")
    case False
    have "\<exists>nx' head'. unlink_loop buddy a (nx a) nx head = Some (buddy \<in> set xs, nx', head') \<and>
        list_at nx' head' ((ys @ [a]) @ remove1 buddy xs) \<and> (\<forall>p. p \<notin> set ((ys @ [a]) @ xs) \<longrightarrow> nx' p = nx p)"
      using Cons.prems a False by (intro Cons.IH) auto
    moreover have "unlink_loop buddy prev cur nx head = unlink_loop buddy a (nx a) nx head"
      using a False by (subst unlink_loop.simps) simp
    ultimately show ?thesis using False by simp
  next
    case True
    show ?thesis
    proof (cases ys rule: rev_cases)
      case Nil
      then show ?thesis using a True Cons.prems(3) by (subst unlink_loop.simps) simp
    next
      case (snoc zs b)
      have "b \<noteq> 0" using list_at_nonzero [OF Cons.prems(1)] snoc by auto
      then have "unlink_loop buddy prev cur nx head = Some (True, nx(b := nx a), head)"
        using a True Cons.prems(3) snoc by (subst unlink_loop.simps) simp
      moreover have "list_at (nx(b := nx a)) head (zs @ b # xs)"
        using list_at_relink [of nx head zs b a xs] Cons.prems(1) dist snoc by simp
      ultimately show ?thesis using True snoc by simp
    qed
  qed
qed

lemma unlink_ok:
  assumes "list_at nx head xs"
  obtains nx' head' where "unlink_loop buddy 0 head nx head = Some (buddy \<in> set xs, nx', head')"
    "list_at nx' head' (remove1 buddy xs)" "\<And>p. p \<notin> set xs \<Longrightarrow> nx' p = nx p"
  using unlink_general [of nx head "[]" xs head 0 buddy] assms by auto

lemma unlink_notin:
  assumes "list_at nx cur xs" "buddy \<notin> set xs"
  shows "unlink_loop buddy prev cur nx head = Some (False, nx, head)"
  using assms by (induction xs arbitrary: cur prev) (subst unlink_loop.simps; auto)+

section \<open>Blocks\<close>

definition bsize :: "nat \<Rightarrow> nat" where
  "bsize k = 2 ^ (k + 12)"

lemma bsize_pos [simp]: "0 < bsize k"
  by (simp add: bsize_def)

lemma bsize_Suc: "bsize (Suc k) = 2 * bsize k"
  unfolding bsize_def add_Suc power_Suc ..

lemma bsize_dvd: "k \<le> l \<Longrightarrow> bsize k dvd bsize l"
  unfolding bsize_def by (rule le_imp_power_dvd) simp

definition blk :: "nat \<Rightarrow> nat \<Rightarrow> nat set" where
  "blk k a = {a ..< a + bsize k}"

type_synonym lists = "nat \<Rightarrow> nat list"

definition free_set :: "lists \<Rightarrow> nat set" where
  "free_set F = (\<Union>k. \<Union>a \<in> set (F k). blk k a)"

definition placed :: "nat \<Rightarrow> nat \<Rightarrow> nat \<Rightarrow> nat \<Rightarrow> bool" where
  "placed base mo k a \<longleftrightarrow> k \<le> mo \<and> base \<le> a \<and> bsize k dvd a - base \<and> a + bsize k \<le> base + bsize mo"

definition held :: "nat \<Rightarrow> nat \<Rightarrow> lists \<Rightarrow> nat \<Rightarrow> nat \<Rightarrow> bool" where
  "held base mo F k a \<longleftrightarrow> placed base mo k a \<and> blk k a \<inter> free_set F = {}"

definition lists_ok :: "nat \<Rightarrow> nat \<Rightarrow> store \<Rightarrow> nat list \<Rightarrow> lists \<Rightarrow> bool" where
  "lists_ok base mo nx heads F \<longleftrightarrow> 0 < base \<and> mo < FREE_LISTS \<and> length heads = FREE_LISTS \<and>
     (\<forall>k < FREE_LISTS. list_at nx (heads ! k) (F k)) \<and>
     (\<forall>k. \<forall>a \<in> set (F k). placed base mo k a) \<and>
     (\<forall>k l. \<forall>a \<in> set (F k). \<forall>b \<in> set (F l). (k, a) \<noteq> (l, b) \<longrightarrow> blk k a \<inter> blk l b = {})"

lemma in_blk [simp]: "a \<in> blk k a"
  by (simp add: blk_def)

lemma free_set_iff: "x \<in> free_set F \<longleftrightarrow> (\<exists>k a. a \<in> set (F k) \<and> x \<in> blk k a)"
  by (auto simp: free_set_def)

lemma free_set_add: "free_set (F(k := b # F k)) = blk k b \<union> free_set F"
  unfolding set_eq_iff Un_iff free_set_iff by (metis fun_upd_apply list.set_intros set_ConsD)

lemma free_set_remove: "b \<in> set (F k) \<Longrightarrow> distinct (F k) \<Longrightarrow> free_set F = blk k b \<union> free_set (F(k := remove1 b (F k)))"
  unfolding set_eq_iff Un_iff free_set_iff by (auto simp: set_remove1_eq)

lemma held_not_listed: "held base mo F k b \<Longrightarrow> b \<notin> set (F l)"
  unfolding held_def disjoint_iff free_set_iff by (meson in_blk)

lemma held_disjoint: "held base mo F k b \<Longrightarrow> a \<in> set (F l) \<Longrightarrow> blk k b \<inter> blk l a = {}"
  unfolding held_def disjoint_iff free_set_iff by blast

lemma lists_ok_disjoint:
  "lists_ok base mo nx heads F \<Longrightarrow> a \<in> set (F k) \<Longrightarrow> b \<in> set (F l) \<Longrightarrow> (k, a) \<noteq> (l, b) \<Longrightarrow> blk k a \<inter> blk l b = {}"
  unfolding lists_ok_def by blast

lemma lists_ok_list: "lists_ok base mo nx heads F \<Longrightarrow> k < FREE_LISTS \<Longrightarrow> list_at nx (heads ! k) (F k)"
  by (simp add: lists_ok_def)

lemma lists_ok_empty: "lists_ok base mo nx heads F \<Longrightarrow> mo < k \<Longrightarrow> F k = []"
  unfolding lists_ok_def placed_def by (metis not_less list.set_intros(1) neq_Nil_conv)

lemma placed_region: "placed base mo k a \<Longrightarrow> blk k a \<subseteq> {base ..< base + bsize mo}"
  by (auto simp: placed_def blk_def)

lemma add_block_ok:
  assumes ok: "lists_ok base mo nx heads F" and h: "held base mo F k b"
  obtains nx' heads' where "add_block k b nx heads = Some (nx', heads')"
    "lists_ok base mo nx' heads' (F(k := b # F k))" "\<And>p. p \<noteq> b \<Longrightarrow> nx' p = nx p"
proof
  have k: "k < FREE_LISTS" and b: "0 < b" using ok h by (auto simp: lists_ok_def held_def placed_def)
  show "add_block k b nx heads = Some (nx(b := heads ! k), heads[k := b])" using k by (simp add: add_block_def)
  show "lists_ok base mo (nx(b := heads ! k)) (heads[k := b]) (F(k := b # F k))"
    unfolding lists_ok_def
  proof (intro conjI allI impI ballI)
    fix l
    assume "l < FREE_LISTS"
    then show "list_at (nx(b := heads ! k)) (heads[k := b] ! l) ((F(k := b # F k)) l)"
      using ok b held_not_listed [OF h] by (auto simp: lists_ok_def nth_upd)
  next
    fix l m a c
    assume a: "a \<in> set ((F(k := b # F k)) l)" and c: "c \<in> set ((F(k := b # F k)) m)" and ne: "(l, a) \<noteq> (m, c)"
    have "(l, a) = (k, b) \<or> a \<in> set (F l)" "(m, c) = (k, b) \<or> c \<in> set (F m)"
      using a c by (auto split: if_splits)
    then show "blk l a \<inter> blk m c = {}"
      using ne held_disjoint [OF h] lists_ok_disjoint [OF ok _ _ ne] by (metis Int_commute Pair_inject)
  qed (use ok h in \<open>auto simp: lists_ok_def held_def split: if_splits\<close>)
qed simp

lemma remove_ok:
  assumes ok: "lists_ok base mo nx heads F" and k: "k < FREE_LISTS" and b: "b \<in> set (F k)"
    and l: "list_at nx' h (remove1 b (F k))" "\<And>p. p \<notin> set (F k) \<Longrightarrow> nx' p = nx p"
  shows "lists_ok base mo nx' (heads[k := h]) (F(k := remove1 b (F k)))" "held base mo (F(k := remove1 b (F k))) k b"
    "free_set F = blk k b \<union> free_set (F(k := remove1 b (F k)))"
proof -
  have dist: "distinct (F k)" using ok k by (auto simp: lists_ok_def intro: list_at_distinct)
  have sub: "set (remove1 b (F k)) = set (F k) - {b}" using dist by (rule set_remove1_eq)
  have disj: "blk l a \<inter> blk m c = {}" if "a \<in> set (F l)" "c \<in> set (F m)" "(l, a) \<noteq> (m, c)" for l a m c
    using that by (rule lists_ok_disjoint [OF ok])
  have "a \<notin> set (F k)" if "a \<in> set (F l)" "l \<noteq> k" for a l
    using disj [of a l a k] that in_blk by blast
  then have other: "list_at nx' p (F l) = list_at nx p (F l)" if "l \<noteq> k" for l p
    using that l(2) by (intro list_at_cong) auto
  show "lists_ok base mo nx' (heads[k := h]) (F(k := remove1 b (F k)))"
    unfolding lists_ok_def
  proof (intro conjI allI impI ballI)
    fix m
    assume "m < FREE_LISTS"
    then show "list_at nx' (heads[k := h] ! m) ((F(k := remove1 b (F k))) m)"
      using ok l(1) other by (auto simp: lists_ok_def nth_upd)
  next
    fix l m a c
    assume "a \<in> set ((F(k := remove1 b (F k))) l)" "c \<in> set ((F(k := remove1 b (F k))) m)" "(l, a) \<noteq> (m, c)"
    then show "blk l a \<inter> blk m c = {}" using sub by (intro disj) (auto split: if_splits)
  qed (use ok sub in \<open>auto simp: lists_ok_def split: if_splits\<close>)
  show "held base mo (F(k := remove1 b (F k))) k b"
    unfolding held_def disjoint_iff free_set_iff
    using ok b sub disj [of b k] by (auto simp: lists_ok_def disjoint_iff split: if_splits)
  show "free_set F = blk k b \<union> free_set (F(k := remove1 b (F k)))" using b dist by (rule free_set_remove)
qed

section \<open>Splitting and merging\<close>

lemma blk_split: "blk (Suc k) b = blk k b \<union> blk k (b + bsize k)"
  by (auto simp: blk_def bsize_Suc)

lemma blk_halves_disjoint: "blk k b \<inter> blk k (b + bsize k) = {}"
  by (auto simp: blk_def)

lemma placed_half:
  assumes "placed base mo (Suc k) b"
  shows "placed base mo k b" "placed base mo k (b + bsize k)"
proof -
  have b: "Suc k \<le> mo" "base \<le> b" "bsize (Suc k) dvd b - base" "b + bsize (Suc k) \<le> base + bsize mo"
    using assms by (auto simp: placed_def)
  have d: "bsize k dvd b - base" using bsize_dvd [of k "Suc k"] b(3) by (auto intro: dvd_trans)
  moreover have "b + bsize k - base = (b - base) + bsize k" using b(2) by simp
  ultimately have "bsize k dvd b + bsize k - base" by simp
  then show "placed base mo k b" "placed base mo k (b + bsize k)"
    using b d unfolding placed_def bsize_Suc by simp_all
qed

lemma held_split:
  assumes "held base mo F (Suc k) b"
  shows "held base mo F k (b + bsize k)"
    "held base mo (F(k := (b + bsize k) # F k)) k b"
  using assms placed_half [of base mo k b] blk_split [of k b] blk_halves_disjoint [of k b]
  by (auto simp: held_def free_set_add)

lemma xor_power: "q * 2 ^ j XOR 2 ^ j = (if even q then q + 1 else q - 1) * (2 :: nat) ^ j"
proof -
  have "q XOR 1 = (if even q then q + 1 else q - 1)"
    by (auto simp add: xor_one_eq simp del: One_nat_def)
  moreover have "q * 2 ^ j XOR 2 ^ j = push_bit j (q XOR 1)"
    by (simp add: push_bit_xor flip: push_bit_eq_mult)
  ultimately show ?thesis by (simp add: push_bit_eq_mult)
qed

lemma buddy:
  assumes p: "placed base mo k a" and k: "k < mo"
  defines "b \<equiv> base + ((a - base) XOR bsize k)"
  shows "placed base mo k b" "b \<noteq> a" "placed base mo (Suc k) (if b < a then b else a)"
    "blk (Suc k) (if b < a then b else a) = blk k a \<union> blk k b"
proof -
  define S :: nat where "S = bsize k"
  have S: "0 < S" and S2: "bsize (Suc k) = 2 * S" by (simp_all add: S_def bsize_Suc)
  obtain q where q: "a = base + q * S" using p unfolding placed_def S_def by (metis dvd_div_mult_self le_add_diff_inverse)
  obtain N where N: "bsize mo = N * (2 * S)"
  proof -
    have "bsize (Suc k) dvd bsize mo" using k by (intro bsize_dvd) simp
    then show ?thesis using that unfolding S2 by (metis dvd_def mult.commute)
  qed
  have "q * S + S \<le> N * (2 * S)" using p q N by (simp add: placed_def S_def)
  then have "(q + 1) * S \<le> (N * 2) * S" by (simp add: algebra_simps)
  then have qN: "q + 1 \<le> N * 2" using S by (simp only: mult_le_cancel2)
  have b: "b = base + (if even q then q + 1 else q - 1) * S"
    using xor_power [of q "k + 12"] unfolding bsize_def [symmetric] S_def [symmetric] by (simp add: b_def q S_def)
  show "b \<noteq> a" using S q b by (auto elim!: oddE)
  have pl: "placed base mo k (base + m * S)" if "m + 1 \<le> N * 2" for m
  proof -
    have "(m + 1) * S \<le> (N * 2) * S" using that by (rule mult_le_mono1)
    then show ?thesis using k N unfolding placed_def S_def [symmetric] by (simp add: algebra_simps)
  qed
  have pl2: "placed base mo (Suc k) (base + m * S)" if "m + 2 \<le> N * 2" "even m" for m
  proof -
    have "(m + 2) * S \<le> (N * 2) * S" using that(1) by (rule mult_le_mono1)
    then show ?thesis using k N that(2) unfolding placed_def S2 by (auto simp: algebra_simps)
  qed
  have "q + 2 \<le> N * 2" if "even q" using qN that by presburger
  then show "placed base mo k b" unfolding b using qN by (intro pl) auto
  have min: "(if b < a then b else a) = base + (if even q then q else q - 1) * S"
    using S q b by (auto simp: not_less)
  show "placed base mo (Suc k) (if b < a then b else a)"
    unfolding min using qN \<open>even q \<Longrightarrow> q + 2 \<le> N * 2\<close> by (intro pl2) (auto elim: oddE)
  show "blk (Suc k) (if b < a then b else a) = blk k a \<union> blk k b"
    unfolding min blk_split using q b by (auto simp: S_def algebra_simps diff_mult_distrib elim!: oddE)
qed

section \<open>The loops\<close>

lemma remove_block_ok:
  assumes ok: "lists_ok base mo nx heads F" and k: "k < FREE_LISTS" and r: "remove_block k nx heads = (b, heads')"
    and b: "heads ! k \<noteq> 0"
  obtains F' where "lists_ok base mo nx heads' F'" "held base mo F' k b" "free_set F = blk k b \<union> free_set F'"
proof -
  have "list_at nx (heads ! k) (F k)" using ok k by (auto simp: lists_ok_def)
  then obtain as where F: "F k = b # as" "heads' = heads[k := nx b]" "list_at nx (nx b) as"
    using r b by (cases "F k") (auto simp: remove_block_def)
  have 1: "b \<in> set (F k)" "list_at nx (nx b) (remove1 b (F k))" using F by auto
  show ?thesis
    by (rule that [of "F(k := remove1 b (F k))"])
      (use remove_ok [OF ok k 1] F(2) in auto)
qed

lemma split_loop_ok:
  assumes "lists_ok base mo nx heads F" "held base mo F cur b" "order \<le> cur"
  obtains nx' heads' F' where "split_loop order cur b (nx, heads) = Some (nx', heads')"
    "lists_ok base mo nx' heads' F'" "held base mo F' order b" "blk cur b \<union> free_set F = blk order b \<union> free_set F'"
    "\<And>p. p \<notin> blk cur b \<Longrightarrow> nx' p = nx p"
  using assms
proof (induction "cur - order" arbitrary: cur nx heads F thesis)
  case 0
  then show ?case by (auto simp: split_loop.simps)
next
  case (Suc n)
  obtain c where c: "cur = Suc c" "order \<le> c" "n = c - order"
    using Suc.hyps(2) by (cases cur) auto
  note h = held_split [OF Suc.prems(3) [unfolded c(1)]]
  obtain nx1 heads1 where 1: "add_block c (b + bsize c) nx heads = Some (nx1, heads1)"
    "lists_ok base mo nx1 heads1 (F(c := (b + bsize c) # F c))" "\<And>p. p \<noteq> b + bsize c \<Longrightarrow> nx1 p = nx p"
    using add_block_ok [OF Suc.prems(2) h(1)] by blast
  obtain nx' heads' F' where 2: "split_loop order c b (nx1, heads1) = Some (nx', heads')"
    "lists_ok base mo nx' heads' F'" "held base mo F' order b"
    "blk c b \<union> free_set (F(c := (b + bsize c) # F c)) = blk order b \<union> free_set F'"
    "\<And>p. p \<notin> blk c b \<Longrightarrow> nx' p = nx1 p"
    using Suc.hyps(1) [OF c(3) _ 1(2) h(2) c(2)] by blast
  have "split_loop order cur b (nx, heads) = Some (nx', heads')"
    using 1(1) 2(1) c by (subst split_loop.simps) (simp add: bsize_def)
  moreover have "blk cur b \<union> free_set F = blk order b \<union> free_set F'"
    using 2(4) unfolding c(1) blk_split free_set_add by blast
  moreover have "nx' p = nx p" if "p \<notin> blk cur b" for p
    using that 1(3) 2(5) unfolding c(1) blk_split by (metis UnCI in_blk)
  ultimately show ?case using Suc.prems(1) 2 by blast
qed

lemma held_merge:
  assumes h: "held base mo (F(k := remove1 b (F k))) k b" "held base mo F k a" and k: "k < mo"
    and b: "b = base + ((a - base) XOR 2 ^ (k + 12))" and F: "free_set F = blk k b \<union> free_set (F(k := remove1 b (F k)))"
  shows "held base mo (F(k := remove1 b (F k))) (Suc k) (if b < a then b else a)"
    "blk (Suc k) (if b < a then b else a) \<union> free_set (F(k := remove1 b (F k))) = blk k a \<union> free_set F"
  using buddy(3,4) [of base mo k a] h k F unfolding held_def bsize_def b [symmetric] by auto

lemma merge_loop_ok:
  assumes "lists_ok base mo nx heads F" "held base mo F k a"
  obtains l c nx' heads' F' where "merge_loop base mo k a (nx, heads) = Some (l, c, nx', heads')"
    "lists_ok base mo nx' heads' F'" "held base mo F' l c" "blk l c \<union> free_set F' = blk k a \<union> free_set F"
    "\<forall>p. p \<notin> free_set F \<longrightarrow> nx' p = nx p" "k \<le> l"
  using assms
proof (induction "mo - k" arbitrary: k a nx heads F thesis)
  case 0
  then show ?case by (auto simp: merge_loop.simps)
next
  case (Suc n)
  then have k: "k < mo" "n = mo - Suc k" by auto
  then have kl: "k < FREE_LISTS" using Suc.prems(2) by (auto simp: lists_ok_def)
  define b where "b = base + ((a - base) XOR 2 ^ (k + 12))"
  have l: "list_at nx (heads ! k) (F k)" using Suc.prems(2) kl by (auto simp: lists_ok_def)
  obtain nx1 head1 where u: "unlink_loop b 0 (heads ! k) nx (heads ! k) = Some (b \<in> set (F k), nx1, head1)"
    "list_at nx1 head1 (remove1 b (F k))" "\<And>p. p \<notin> set (F k) \<Longrightarrow> nx1 p = nx p"
    using unlink_ok [OF l] by blast
  have frame1: "nx1 p = nx p" if "p \<notin> free_set F" for p
    using that u(3) [of p] by (metis free_set_iff in_blk)
  show ?case
  proof (cases "b \<in> set (F k)")
    case False
    have "nx1 = nx" "head1 = heads ! k"
      using u l False unlink_notin [OF l False] by auto
    then have "merge_loop base mo k a (nx, heads) = Some (k, a, nx, heads)"
      using u False k kl by (subst merge_loop.simps) (simp add: b_def [symmetric])
    then show ?thesis using Suc.prems by blast
  next
    case True
    note r = remove_ok [OF Suc.prems(2) kl True u(2,3)]
    note m = held_merge [OF r(2) Suc.prems(3) k(1) b_def r(3)]
    obtain l c nx' heads' F' where 2: "merge_loop base mo (Suc k) (if b < a then b else a) (nx1, heads[k := head1]) = Some (l, c, nx', heads')"
      "lists_ok base mo nx' heads' F'" "held base mo F' l c"
      "blk l c \<union> free_set F' = blk (Suc k) (if b < a then b else a) \<union> free_set (F(k := remove1 b (F k)))"
      "\<forall>p. p \<notin> free_set (F(k := remove1 b (F k))) \<longrightarrow> nx' p = nx1 p" "Suc k \<le> l"
      using Suc.hyps(1) [OF k(2) _ r(1) m(1)] by blast
    have "merge_loop base mo k a (nx, heads) = Some (l, c, nx', heads')"
      using u 2(1) True k kl by (subst merge_loop.simps) (simp add: b_def [symmetric])
    moreover have "\<forall>p. p \<notin> free_set F \<longrightarrow> nx' p = nx p"
      using frame1 2(5) r(3) by auto
    ultimately show ?thesis using Suc.prems(1) 2 m(2) by (metis Suc_leD)
  qed
qed

section \<open>Segments\<close>

definition region :: "pmm_segment \<Rightarrow> nat set" where
  "region seg = {base_ptr seg ..< base_ptr seg + seg_size seg}"

definition seg_ok :: "store \<Rightarrow> pmm_segment \<Rightarrow> lists \<Rightarrow> bool" where
  "seg_ok nx seg F \<longleftrightarrow> lists_ok (base_ptr seg) (max_order seg) nx (free_list seg) F \<and>
     bsize (max_order seg) \<le> seg_size seg"

definition seg_placed :: "nat \<Rightarrow> nat \<Rightarrow> pmm_segment \<Rightarrow> bool" where
  "seg_placed k a seg \<longleftrightarrow> placed (base_ptr seg) (max_order seg) k a"

lemma free_set_region: "seg_ok nx seg F \<Longrightarrow> free_set F \<subseteq> region seg"
  unfolding seg_ok_def lists_ok_def region_def
  by (auto simp: free_set_iff dest!: placed_region) (meson atLeastLessThan_iff nat_add_left_cancel_le order_less_le_trans placed_region subsetD)+

lemma blk_region: "seg_ok nx seg F \<Longrightarrow> seg_placed k a seg \<Longrightarrow> blk k a \<subseteq> region seg"
  by (fastforce simp: seg_ok_def seg_placed_def region_def dest: placed_region)

lemma seg_ok_frame:
  assumes "seg_ok nx seg F" "\<And>p. p \<in> free_set F \<Longrightarrow> nx' p = nx p"
  shows "seg_ok nx' seg F"
proof -
  have "list_at nx' p (F k) = list_at nx p (F k)" for p k
    by (rule list_at_cong) (metis assms(2) free_set_iff in_blk)
  then show ?thesis using assms(1) by (simp add: seg_ok_def lists_ok_def)
qed

lemma segment_alloc_ok:
  assumes ok: "seg_ok nx seg F" and "order \<le> cur"
  shows "(segment_alloc order cur nx seg = Some None \<and> (\<forall>k \<ge> cur. F k = [])) \<or>
    (\<exists>b nx' seg' F'. segment_alloc order cur nx seg = Some (Some (b, nx', seg')) \<and> seg_ok nx' seg' F' \<and>
       free_set F = blk order b \<union> free_set F' \<and> blk order b \<inter> free_set F' = {} \<and> region seg' = region seg \<and>
       seg_placed order b seg' \<and> (\<forall>p. p \<notin> free_set F \<longrightarrow> nx' p = nx p))"
  using assms(2)
proof (induction "Suc (max_order seg) - cur" arbitrary: cur)
  case 0
  have "F k = []" if "cur \<le> k" for k
    using ok 0 that by (intro lists_ok_empty [of "base_ptr seg" "max_order seg" nx "free_list seg"]) (auto simp: seg_ok_def)
  then show ?case using 0 by (simp add: segment_alloc.simps)
next
  case (Suc n)
  have l: "lists_ok (base_ptr seg) (max_order seg) nx (free_list seg) F" using ok by (simp add: seg_ok_def)
  have cur: "cur \<le> max_order seg" "cur < FREE_LISTS" using Suc.hyps(2) l by (auto simp: lists_ok_def)
  show ?case
  proof (cases "free_list seg ! cur = 0")
    case True
    have "list_at nx 0 (F cur)" using lists_ok_list [OF l cur(2)] True by simp
    then have "F cur = []" by (cases "F cur") auto
    moreover have "segment_alloc order cur nx seg = segment_alloc order (Suc cur) nx seg"
      using True cur by (subst segment_alloc.simps) simp
    moreover have "\<forall>k \<ge> cur. F k = []" if "\<forall>k \<ge> Suc cur. F k = []" "F cur = []"
      using that by (metis le_antisym not_less_eq_eq)
    ultimately show ?thesis using Suc.hyps(1) [of "Suc cur"] Suc.hyps(2) Suc.prems by auto
  next
    case False
    obtain b heads where r: "remove_block cur nx (free_list seg) = (b, heads)" by fastforce
    obtain F1 where 1: "lists_ok (base_ptr seg) (max_order seg) nx heads F1"
      "held (base_ptr seg) (max_order seg) F1 cur b" "free_set F = blk cur b \<union> free_set F1"
      using remove_block_ok [OF l cur(2) r False] by blast
    obtain nx' heads' F' where 2: "split_loop order cur b (nx, heads) = Some (nx', heads')"
      "lists_ok (base_ptr seg) (max_order seg) nx' heads' F'" "held (base_ptr seg) (max_order seg) F' order b"
      "blk cur b \<union> free_set F1 = blk order b \<union> free_set F'" "\<And>p. p \<notin> blk cur b \<Longrightarrow> nx' p = nx p"
      using split_loop_ok [OF 1(1,2) Suc.prems] by blast
    have "segment_alloc order cur nx seg =
        Some (Some (b, nx', seg\<lparr>free_list := heads', pages_used := pages_used seg + 2 ^ order\<rparr>))"
      using False cur r 2(1) by (subst segment_alloc.simps) simp
    moreover have "seg_ok nx' (seg\<lparr>free_list := heads', pages_used := pages_used seg + 2 ^ order\<rparr>) F'"
      using ok 2(2) by (simp add: seg_ok_def)
    moreover have "\<forall>p. p \<notin> free_set F \<longrightarrow> nx' p = nx p" using 1(3) 2(5) by blast
    ultimately show ?thesis using 1(3) 2(3,4)
      by (auto simp: region_def seg_placed_def held_def simp del: power_Suc)
  qed
qed

lemma segment_free_ok:
  assumes ok: "seg_ok nx seg F" and p: "seg_placed k a seg" "blk k a \<inter> free_set F = {}"
  obtains l nx' seg' F' where "segment_free k a nx seg = Some (l, nx', seg')" "seg_ok nx' seg' F'"
    "free_set F' = blk k a \<union> free_set F" "region seg' = region seg"
    "\<forall>p. p \<notin> blk k a \<union> free_set F \<longrightarrow> nx' p = nx p"
proof -
  have l: "lists_ok (base_ptr seg) (max_order seg) nx (free_list seg) F" using ok by (simp add: seg_ok_def)
  have h: "held (base_ptr seg) (max_order seg) F k a" using p by (simp add: held_def seg_placed_def)
  obtain l c nx1 heads1 F1 where 1: "merge_loop (base_ptr seg) (max_order seg) k a (nx, free_list seg) = Some (l, c, nx1, heads1)"
    "lists_ok (base_ptr seg) (max_order seg) nx1 heads1 F1" "held (base_ptr seg) (max_order seg) F1 l c"
    "blk l c \<union> free_set F1 = blk k a \<union> free_set F" "\<forall>p. p \<notin> free_set F \<longrightarrow> nx1 p = nx p" "k \<le> l"
    by (rule merge_loop_ok [OF l h])
  obtain nx' heads' where 2: "add_block l c nx1 heads1 = Some (nx', heads')"
    "lists_ok (base_ptr seg) (max_order seg) nx' heads' (F1(l := c # F1 l))" "\<And>p. p \<noteq> c \<Longrightarrow> nx' p = nx1 p"
    using add_block_ok [OF 1(2,3)] by metis
  show ?thesis
  proof (rule that)
    show "segment_free k a nx seg = Some (l, nx', seg\<lparr>free_list := heads', pages_used := pages_used seg - 2 ^ l\<rparr>)"
      using 1(1) 2(1) by (simp add: segment_free_def)
    show "seg_ok nx' (seg\<lparr>free_list := heads', pages_used := pages_used seg - 2 ^ l\<rparr>) (F1(l := c # F1 l))"
      using ok 2(2) by (simp add: seg_ok_def)
    show "free_set (F1(l := c # F1 l)) = blk k a \<union> free_set F" using 1(4) by (simp add: free_set_add)
    show "\<forall>p. p \<notin> blk k a \<union> free_set F \<longrightarrow> nx' p = nx p"
      using 1(4,5) 2(3) in_blk [of c l] by (metis UnCI)
  qed (simp add: region_def)
qed

section \<open>All segments\<close>

definition segs_ok :: "store \<Rightarrow> pmm_segment list \<Rightarrow> lists list \<Rightarrow> bool" where
  "segs_ok nx segs Fs \<longleftrightarrow> list_all2 (seg_ok nx) segs Fs \<and> sorted_wrt (\<lambda>s t. region s \<inter> region t = {}) segs"

definition frees :: "lists list \<Rightarrow> nat set" where
  "frees Fs = (\<Union>F \<in> set Fs. free_set F)"

lemma frees_Cons [simp]: "frees (F # Fs) = free_set F \<union> frees Fs"
  by (simp add: frees_def)

lemma frees_regions: "list_all2 (seg_ok nx) segs Fs \<Longrightarrow> frees Fs \<subseteq> (\<Union>s \<in> set segs. region s)"
  by (induction rule: list_all2_induct) (use free_set_region in \<open>fastforce simp: frees_def\<close>)+

lemma segs_ok_Cons:
  "segs_ok nx (seg # segs) Fs' \<longleftrightarrow>
    (\<exists>F Fs. Fs' = F # Fs \<and> seg_ok nx seg F \<and> segs_ok nx segs Fs \<and> (\<forall>t \<in> set segs. region seg \<inter> region t = {}))"
  by (auto simp: segs_ok_def list_all2_Cons1)

lemma segs_ok_seg: "segs_ok nx segs Fs \<Longrightarrow> seg \<in> set segs \<Longrightarrow> \<exists>F \<in> set Fs. seg_ok nx seg F"
  by (induction segs arbitrary: Fs) (auto simp: segs_ok_Cons)

lemma segs_ok_lists: "segs_ok nx segs Fs \<Longrightarrow> F \<in> set Fs \<Longrightarrow> \<exists>seg \<in> set segs. seg_ok nx seg F"
proof (induction segs arbitrary: Fs)
  case Nil
  then show ?case by (simp add: segs_ok_def)
next
  case (Cons seg segs)
  then show ?case unfolding segs_ok_Cons by (metis list.set_intros set_ConsD)
qed

lemma segs_ok_frame:
  "segs_ok nx segs Fs \<Longrightarrow> (\<And>p. p \<in> frees Fs \<Longrightarrow> nx' p = nx p) \<Longrightarrow> segs_ok nx' segs Fs"
proof (induction segs arbitrary: Fs)
  case (Cons seg segs)
  then obtain F Gs where F: "Fs = F # Gs" "seg_ok nx seg F" "segs_ok nx segs Gs" "\<forall>t \<in> set segs. region seg \<inter> region t = {}"
    by (auto simp: segs_ok_Cons)
  have "seg_ok nx' seg F" using F(1) Cons.prems(2) by (intro seg_ok_frame [OF F(2)]) auto
  moreover have "segs_ok nx' segs Gs" using F Cons.prems(2) by (intro Cons.IH) auto
  ultimately show ?case using F by (auto simp: segs_ok_Cons)
qed (auto simp: segs_ok_def)

lemma regions_disjoint:
  assumes "segs_ok nx (seg # segs) (F # Fs)"
  shows "region seg \<inter> frees Fs = {}"
  using assms frees_regions [of nx segs Fs] by (auto simp: segs_ok_Cons segs_ok_def)

lemma region_set:
  assumes "map region segs' = map region segs"
  shows "(\<forall>t \<in> set segs'. R \<inter> region t = {}) = (\<forall>t \<in> set segs. R \<inter> region t = {})"
proof -
  have "region ` set segs' = region ` set segs" using arg_cong [OF assms, of set] by simp
  then have "(\<forall>x \<in> region ` set segs'. R \<inter> x = {}) = (\<forall>x \<in> region ` set segs. R \<inter> x = {})" by simp
  then show ?thesis by simp
qed

text \<open>What a successful allocation of a block of some order does to the segments.\<close>

definition takes :: "nat \<Rightarrow> store \<Rightarrow> pmm_segment list \<Rightarrow> lists list \<Rightarrow> nat \<Rightarrow> store \<Rightarrow> pmm_segment list \<Rightarrow> lists list \<Rightarrow> bool" where
  "takes order nx segs Fs b nx' segs' Fs' \<longleftrightarrow> segs_ok nx' segs' Fs' \<and>
     frees Fs = blk order b \<union> frees Fs' \<and> blk order b \<inter> frees Fs' = {} \<and> map region segs' = map region segs \<and>
     (\<exists>seg \<in> set segs'. seg_placed order b seg) \<and> (\<forall>p. p \<notin> frees Fs \<longrightarrow> nx' p = nx p)"

lemma takes_here:
  assumes ok: "segs_ok nx (seg # segs) (F # Fs)" and s: "seg_ok nx' seg' F'"
    "free_set F = blk order b \<union> free_set F'" "blk order b \<inter> free_set F' = {}" "region seg' = region seg"
    "seg_placed order b seg'" "\<forall>p. p \<notin> free_set F \<longrightarrow> nx' p = nx p"
  shows "takes order nx (seg # segs) (F # Fs) b nx' (seg' # segs) (F' # Fs)"
proof -
  have o: "segs_ok nx segs Fs" "seg_ok nx seg F" "\<forall>t \<in> set segs. region seg \<inter> region t = {}"
    using ok by (auto simp: segs_ok_Cons)
  have disj: "region seg \<inter> frees Fs = {}" using ok by (rule regions_disjoint)
  have reg: "free_set F \<subseteq> region seg" using o(2) by (rule free_set_region)
  have "segs_ok nx' segs Fs" using s(6) reg disj by (intro segs_ok_frame [OF o(1)]) blast
  then have "segs_ok nx' (seg' # segs) (F' # Fs)" using s(1,4) o(3) by (auto simp: segs_ok_Cons)
  moreover have "blk order b \<inter> frees (F' # Fs) = {}" using s(2,3) reg disj by auto
  ultimately show ?thesis using s(2,4,5,6) by (auto simp: takes_def)
qed

lemma takes_later:
  assumes ok: "segs_ok nx (seg # segs) (F # Fs)" and t: "takes order nx segs Fs b nx' segs' Fs'"
  shows "takes order nx (seg # segs) (F # Fs) b nx' (seg # segs') (F # Fs')"
proof -
  have o: "segs_ok nx segs Fs" "seg_ok nx seg F" "\<forall>t \<in> set segs. region seg \<inter> region t = {}"
    using ok by (auto simp: segs_ok_Cons)
  have disj: "region seg \<inter> frees Fs = {}" using ok by (rule regions_disjoint)
  have reg: "free_set F \<subseteq> region seg" using o(2) by (rule free_set_region)
  note t = t [unfolded takes_def]
  have "seg_ok nx' seg F" using t reg disj by (intro seg_ok_frame [OF o(2)]) blast
  moreover have "\<forall>t \<in> set segs'. region seg \<inter> region t = {}"
    using o(3) t region_set [of segs' segs] by simp
  ultimately have "segs_ok nx' (seg # segs') (F # Fs')"
    using t by (auto simp: segs_ok_Cons)
  moreover have "blk order b \<inter> frees (F # Fs') = {}" using t reg disj by auto
  ultimately show ?thesis using t by (auto simp: takes_def)
qed

lemma alloc_loop_ok:
  assumes "segs_ok nx segs Fs"
  shows "(alloc_loop order segs nx = Some None \<and> (\<forall>F \<in> set Fs. \<forall>k \<ge> order. F k = [])) \<or>
    (\<exists>b nx' segs' Fs'. alloc_loop order segs nx = Some (Some (b, nx', segs')) \<and> takes order nx segs Fs b nx' segs' Fs')"
  using assms
proof (induction segs arbitrary: Fs)
  case Nil
  then show ?case by (simp add: segs_ok_def)
next
  case (Cons seg segs)
  then obtain F Gs where F: "Fs = F # Gs" "seg_ok nx seg F" "segs_ok nx segs Gs"
    by (auto simp: segs_ok_Cons)
  from segment_alloc_ok [OF F(2), of order order]
  consider (none) "segment_alloc order order nx seg = Some None" "\<forall>k \<ge> order. F k = []"
    | (some) b nx' seg' F' where "segment_alloc order order nx seg = Some (Some (b, nx', seg'))" "seg_ok nx' seg' F'"
       "free_set F = blk order b \<union> free_set F'" "blk order b \<inter> free_set F' = {}" "region seg' = region seg"
       "seg_placed order b seg'" "\<forall>p. p \<notin> free_set F \<longrightarrow> nx' p = nx p"
    by blast
  then show ?case
  proof cases
    case some
    have "takes order nx (seg # segs) Fs b nx' (seg' # segs) (F' # Gs)"
      unfolding F(1) by (rule takes_here) (use some Cons.prems F in auto)
    with some(1) show ?thesis by auto
  next
    case none
    consider "alloc_loop order segs nx = Some None" "\<forall>F \<in> set Gs. \<forall>k \<ge> order. F k = []"
      | b nx' segs' Gs' where "alloc_loop order segs nx = Some (Some (b, nx', segs'))" "takes order nx segs Gs b nx' segs' Gs'"
      using Cons.IH [OF F(3)] by blast
    then show ?thesis
    proof cases
      case 1
      then show ?thesis using none F(1) by simp
    next
      case 2
      have "takes order nx (seg # segs) Fs b nx' (seg # segs') (F # Gs')"
        unfolding F(1) by (rule takes_later) (use 2 Cons.prems F in auto)
      with 2(1) none(1) show ?thesis by auto
    qed
  qed
qed

lemma free_loop_ok:
  assumes "segs_ok nx segs Fs" "seg0 \<in> set segs" "seg_placed k a seg0" "blk k a \<inter> frees Fs = {}"
  obtains l nx' segs' Fs' where "free_loop k a segs nx = Some (Some (l, nx', segs'))" "segs_ok nx' segs' Fs'"
    "frees Fs' = blk k a \<union> frees Fs" "map region segs' = map region segs"
    "\<forall>p. p \<notin> blk k a \<union> frees Fs \<longrightarrow> nx' p = nx p"
  using assms
proof (induction segs arbitrary: Fs thesis)
  case (Cons seg segs)
  then obtain F Gs where F: "Fs = F # Gs" "seg_ok nx seg F" "segs_ok nx segs Gs" "\<forall>t \<in> set segs. region seg \<inter> region t = {}"
    by (auto simp: segs_ok_Cons)
  have disj: "region seg \<inter> frees Gs = {}" using Cons.prems(2) F(1) regions_disjoint by blast
  have reg: "free_set F \<subseteq> region seg" using F(2) by (rule free_set_region)
  show ?case
  proof (cases "a \<in> region seg")
    case True
    have "seg0 = seg"
    proof (rule ccontr)
      assume "seg0 \<noteq> seg"
      then have "seg0 \<in> set segs" using Cons.prems(3) by simp
      then obtain G where "seg_ok nx seg0 G" using segs_ok_seg [OF F(3)] by blast
      then have "a \<in> region seg0" using blk_region Cons.prems(4) in_blk by blast
      then show False using True F(4) \<open>seg0 \<in> set segs\<close> by blast
    qed
    then have p: "seg_placed k a seg" "blk k a \<inter> free_set F = {}" using Cons.prems(4,5) F(1) by auto
    obtain l nx' seg' F' where s: "segment_free k a nx seg = Some (l, nx', seg')" "seg_ok nx' seg' F'"
      "free_set F' = blk k a \<union> free_set F" "region seg' = region seg"
      "\<forall>p. p \<notin> blk k a \<union> free_set F \<longrightarrow> nx' p = nx p"
      by (rule segment_free_ok [OF F(2) p])
    have b: "blk k a \<subseteq> region seg" using F(2) p(1) by (rule blk_region)
    have "segs_ok nx' segs Gs" using s(5) reg b disj by (intro segs_ok_frame [OF F(3)]) blast
    then have "segs_ok nx' (seg' # segs) (F' # Gs)" using s(2,4) F(4) by (auto simp: segs_ok_Cons)
    moreover have "free_loop k a (seg # segs) nx = Some (Some (l, nx', seg' # segs))"
      using True s(1) by (simp add: region_def)
    ultimately show ?thesis
      by (intro Cons.prems(1) [of l nx' "seg' # segs" "F' # Gs"]) (use s(3,4,5) F(1) in \<open>auto simp: Un_assoc\<close>)
  next
    case False
    then have "seg0 \<noteq> seg" using blk_region [OF F(2)] Cons.prems(4) in_blk by blast
    then have "seg0 \<in> set segs" "blk k a \<inter> frees Gs = {}" using Cons.prems(3,5) F(1) by auto
    then obtain l nx' segs' Gs' where r: "free_loop k a segs nx = Some (Some (l, nx', segs'))" "segs_ok nx' segs' Gs'"
      "frees Gs' = blk k a \<union> frees Gs" "map region segs' = map region segs"
      "\<forall>p. p \<notin> blk k a \<union> frees Gs \<longrightarrow> nx' p = nx p"
      using Cons.IH [OF _ F(3) _ Cons.prems(4)] by blast
    obtain G where "seg_ok nx seg0 G"
      using segs_ok_seg [OF F(3) \<open>seg0 \<in> set segs\<close>] by blast
    then have b: "blk k a \<inter> region seg = {}" using blk_region Cons.prems(4) F(4) \<open>seg0 \<in> set segs\<close> by blast
    have "seg_ok nx' seg F" using r(5) reg b disj by (intro seg_ok_frame [OF F(2)]) blast
    moreover have "\<forall>t \<in> set segs'. region seg \<inter> region t = {}" using F(4) r(4) region_set [of segs' segs] by simp
    ultimately have "segs_ok nx' (seg # segs') (F # Gs')" using r(2) by (auto simp: segs_ok_Cons)
    moreover have "free_loop k a (seg # segs) nx = Some (Some (l, nx', seg # segs'))"
      using False r(1) by (auto simp: region_def)
    ultimately show ?thesis
      by (intro Cons.prems(1) [of l nx' "seg # segs'" "F # Gs'"]) (use r(3,4,5) F(1) in \<open>auto simp: Un_left_commute\<close>)
  qed
qed simp

section \<open>The memory manager\<close>

text \<open>The invariant of the manager, and its free memory: the blocks that its lists reach.\<close>

definition pmm_inv :: "pmm \<Rightarrow> bool" where
  "pmm_inv s \<longleftrightarrow> (\<exists>Fs. segs_ok (nxt s) (segtab s) Fs)"

definition free_mem :: "pmm \<Rightarrow> nat set" where
  "free_mem s = {x. \<exists>seg \<in> set (segtab s). \<exists>k < FREE_LISTS. \<exists>as.
     list_at (nxt s) (free_list seg ! k) as \<and> (\<exists>a \<in> set as. x \<in> blk k a)}"

definition owns :: "pmm \<Rightarrow> nat \<Rightarrow> nat \<Rightarrow> bool" where
  "owns s n p \<longleftrightarrow> (\<exists>seg \<in> set (segtab s). seg_placed (alloc_order n) p seg) \<and> blk (alloc_order n) p \<inter> free_mem s = {}"

lemma free_mem_frees:
  assumes "segs_ok (nxt s) (segtab s) Fs"
  shows "free_mem s = frees Fs"
proof (intro set_eqI iffI)
  fix x
  assume "x \<in> free_mem s"
  then obtain seg k as a where x: "seg \<in> set (segtab s)" "k < FREE_LISTS" "list_at (nxt s) (free_list seg ! k) as" "a \<in> set as" "x \<in> blk k a"
    by (auto simp: free_mem_def)
  then obtain F where F: "F \<in> set Fs" "seg_ok (nxt s) seg F" using segs_ok_seg [OF assms] by blast
  then have "list_at (nxt s) (free_list seg ! k) (F k)" using x(2) by (auto simp: seg_ok_def intro: lists_ok_list)
  then have "as = F k" using x(3) list_at_unique by blast
  then show "x \<in> frees Fs" using x F(1) by (auto simp: frees_def free_set_iff)
next
  fix x
  assume "x \<in> frees Fs"
  then obtain F k a where x: "F \<in> set Fs" "a \<in> set (F k)" "x \<in> blk k a" by (auto simp: frees_def free_set_iff)
  then obtain seg where seg: "seg \<in> set (segtab s)" "seg_ok (nxt s) seg F"
    using segs_ok_lists [OF assms] by blast
  have l: "lists_ok (base_ptr seg) (max_order seg) (nxt s) (free_list seg) F" using seg(2) by (simp add: seg_ok_def)
  have "k \<le> max_order seg" using lists_ok_empty [OF l, of k] x(2) by (cases "k \<le> max_order seg") auto
  moreover have "max_order seg < FREE_LISTS" using l by (simp add: lists_ok_def)
  ultimately have k: "k < FREE_LISTS" by simp
  then show "x \<in> free_mem s" using seg(1) x lists_ok_list [OF l k] unfolding free_mem_def by blast
qed

lemma order_for_ge: "pages \<le> 2 ^ order_for pages k"
proof (induction pages k rule: order_for.induct)
  case (1 pages k)
  then show ?case by (subst order_for.simps) auto
qed

lemma alloc_order_size: "n \<le> SIZE_MAX - 0xFFF \<Longrightarrow> n \<le> bsize (alloc_order n)"
proof -
  assume "n \<le> SIZE_MAX - 0xFFF"
  then have "add64 n 0xFFF = n + 0xFFF" by (intro add64_le) (simp add: SIZE_MAX_def)
  moreover have "add64 n 0xFFF div 0x1000 \<le> 2 ^ alloc_order n" unfolding alloc_order_def by (rule order_for_ge)
  ultimately have "(n + 0xFFF) div 0x1000 * 0x1000 \<le> 2 ^ alloc_order n * 0x1000" by simp
  also have "\<dots> = bsize (alloc_order n)" by (simp add: bsize_def power_add)
  finally show ?thesis by linarith
qed

lemma pmm_alloc_ok:
  assumes "pmm_inv s"
  shows "\<exists>r s'. pmm_alloc n s = Some (r, s') \<and> pmm_inv s' \<and>
    (r = 0 \<longrightarrow> free_mem s' = free_mem s \<and>
       (\<forall>seg \<in> set (segtab s). \<forall>k. alloc_order n \<le> k \<and> k < FREE_LISTS \<longrightarrow> free_list seg ! k = 0)) \<and>
    (r \<noteq> 0 \<longrightarrow> blk (alloc_order n) r \<subseteq> free_mem s \<and> free_mem s' = free_mem s - blk (alloc_order n) r \<and> owns s' n r)"
proof -
  obtain Fs where ok: "segs_ok (nxt s) (segtab s) Fs" using assms by (auto simp: pmm_inv_def)
  have free: "free_mem s = frees Fs" using ok by (rule free_mem_frees)
  from alloc_loop_ok [OF ok, of "alloc_order n"] show ?thesis
  proof
    assume none: "alloc_loop (alloc_order n) (segtab s) (nxt s) = Some None \<and> (\<forall>F \<in> set Fs. \<forall>k \<ge> alloc_order n. F k = [])"
    let ?s = "s\<lparr>num_errors := num_errors s + 1\<rparr>"
    have "pmm_alloc n s = Some (0, ?s)" using none by (simp add: pmm_alloc_def)
    moreover have "pmm_inv ?s" "free_mem ?s = free_mem s" using assms by (simp_all add: pmm_inv_def free_mem_def)
    moreover have "free_list seg ! k = 0" if seg: "seg \<in> set (segtab s)" and k: "alloc_order n \<le> k" "k < FREE_LISTS" for seg k
    proof -
      obtain F where F: "F \<in> set Fs" "seg_ok (nxt s) seg F"
        using segs_ok_seg [OF ok seg] by blast
      then have "list_at (nxt s) (free_list seg ! k) (F k)" using k(2) by (auto simp: seg_ok_def intro: lists_ok_list)
      moreover have "F k = []" using none F(1) k(1) by blast
      ultimately show ?thesis by simp
    qed
    ultimately show ?thesis by blast
  next
    assume "\<exists>b nx' segs' Fs'. alloc_loop (alloc_order n) (segtab s) (nxt s) = Some (Some (b, nx', segs')) \<and>
      takes (alloc_order n) (nxt s) (segtab s) Fs b nx' segs' Fs'"
    then obtain b nx' segs' Fs' where a: "alloc_loop (alloc_order n) (segtab s) (nxt s) = Some (Some (b, nx', segs'))"
      and t: "takes (alloc_order n) (nxt s) (segtab s) Fs b nx' segs' Fs'" by blast
    define s' where "s' = s\<lparr>nxt := nx', segtab := segs', num_used := num_used s + 2 ^ alloc_order n\<rparr>"
    have s': "nxt s' = nx'" "segtab s' = segs'" by (simp_all add: s'_def)
    have ok': "segs_ok (nxt s') (segtab s') Fs'" using t by (simp add: s' takes_def)
    have free': "free_mem s' = frees Fs'" using ok' by (rule free_mem_frees)
    have "0 < b"
    proof -
      obtain seg where seg: "seg \<in> set segs'" "seg_placed (alloc_order n) b seg" using t by (auto simp: takes_def)
      then obtain F where "seg_ok nx' seg F" using segs_ok_seg [OF ok'] by (auto simp: s')
      then show ?thesis using seg(2) by (auto simp: seg_ok_def lists_ok_def seg_placed_def placed_def)
    qed
    moreover have "pmm_alloc n s = Some (b, s')" using a by (simp add: pmm_alloc_def s'_def)
    moreover have "blk (alloc_order n) b \<subseteq> free_mem s" "free_mem s' = free_mem s - blk (alloc_order n) b" "owns s' n b"
      using t free free' by (auto simp: takes_def owns_def s')
    moreover have "pmm_inv s'" using ok' by (auto simp: pmm_inv_def)
    ultimately show ?thesis by auto
  qed
qed

lemma pmm_free_ok:
  assumes "pmm_inv s" "owns s n p"
  obtains s' where "pmm_free p n s = Some s'" "pmm_inv s'" "free_mem s' = free_mem s \<union> blk (alloc_order n) p"
proof -
  obtain Fs where ok: "segs_ok (nxt s) (segtab s) Fs" using assms(1) by (auto simp: pmm_inv_def)
  have free: "free_mem s = frees Fs" using ok by (rule free_mem_frees)
  obtain seg where seg: "seg \<in> set (segtab s)" "seg_placed (alloc_order n) p seg" "blk (alloc_order n) p \<inter> frees Fs = {}"
    using assms(2) free by (auto simp: owns_def)
  obtain l nx' segs' Fs' where r: "free_loop (alloc_order n) p (segtab s) (nxt s) = Some (Some (l, nx', segs'))"
    "segs_ok nx' segs' Fs'" "frees Fs' = blk (alloc_order n) p \<union> frees Fs"
    "map region segs' = map region (segtab s)" "\<forall>q. q \<notin> blk (alloc_order n) p \<union> frees Fs \<longrightarrow> nx' q = nxt s q"
    by (rule free_loop_ok [OF ok seg])
  define s' where "s' = s\<lparr>nxt := nx', segtab := segs', num_used := num_used s - 2 ^ l\<rparr>"
  have ok': "segs_ok (nxt s') (segtab s') Fs'" using r(2) by (simp add: s'_def)
  show ?thesis
  proof (rule that)
    show "pmm_free p n s = Some s'" using r(1) by (simp add: pmm_free_def s'_def)
    show "pmm_inv s'" using ok' by (auto simp: pmm_inv_def)
    show "free_mem s' = free_mem s \<union> blk (alloc_order n) p"
      using free_mem_frees [OF ok'] r(3) free by auto
  qed
qed

section \<open>The contract of a page allocator\<close>

text \<open>A sequence of allocations.\<close>

fun allocs :: "(nat \<Rightarrow> 's \<Rightarrow> (nat \<times> 's) option) \<Rightarrow> nat list \<Rightarrow> 's \<Rightarrow> (nat list \<times> 's) option" where
  "allocs alloc [] s = Some ([], s)"
| "allocs alloc (n # ns) s =
     (case alloc n s of None \<Rightarrow> None
      | Some (r, s) \<Rightarrow> (case allocs alloc ns s of None \<Rightarrow> None | Some (rs, s) \<Rightarrow> Some (r # rs, s)))"

text \<open>
  What the clients of the physical memory manager rely on: \<open>span n p\<close> is the memory of a block for \<open>n\<close> bytes at
  \<open>p\<close>, \<open>own s n p\<close> that this block is in use, and zero is the failure value.
\<close>

locale page_allocator =
  fixes inv :: "'s \<Rightarrow> bool" and free :: "'s \<Rightarrow> nat set" and own :: "'s \<Rightarrow> nat \<Rightarrow> nat \<Rightarrow> bool"
    and span :: "nat \<Rightarrow> nat \<Rightarrow> nat set"
    and alloc :: "nat \<Rightarrow> 's \<Rightarrow> (nat \<times> 's) option" and release :: "nat \<Rightarrow> nat \<Rightarrow> 's \<Rightarrow> 's option"
  assumes alloc_spec: "inv s \<Longrightarrow> \<exists>r s'. alloc n s = Some (r, s') \<and> inv s' \<and> (r = 0 \<longrightarrow> free s' = free s) \<and>
      (r \<noteq> 0 \<longrightarrow> span n r \<subseteq> free s \<and> free s' = free s - span n r \<and> own s' n r)"
    and release_spec: "inv s \<Longrightarrow> own s n p \<Longrightarrow> \<exists>s'. release p n s = Some s' \<and> inv s' \<and> free s' = free s \<union> span n p"
begin

lemma alloc_release:
  assumes "inv s" "alloc n s = Some (r, s1)" "r \<noteq> 0"
  shows "\<exists>s2. release r n s1 = Some s2 \<and> inv s2 \<and> free s2 = free s"
proof -
  have 1: "inv s1" "span n r \<subseteq> free s" "free s1 = free s - span n r" "own s1 n r"
    using alloc_spec [OF assms(1), of n] assms(2,3) by auto
  from release_spec [OF 1(1,4)] show ?thesis using 1(2,3) by auto
qed

lemma allocs_disjoint:
  assumes "inv s"
  shows "\<exists>rs s'. allocs alloc ns s = Some (rs, s') \<and> inv s' \<and> length rs = length ns \<and>
    (\<forall>i < length rs. rs ! i \<noteq> 0 \<longrightarrow> span (ns ! i) (rs ! i) \<subseteq> free s - free s') \<and> free s' \<subseteq> free s \<and>
    (\<forall>j < length rs. \<forall>i < j. rs ! i \<noteq> 0 \<longrightarrow> rs ! j \<noteq> 0 \<longrightarrow> span (ns ! i) (rs ! i) \<inter> span (ns ! j) (rs ! j) = {})"
  using assms
proof (induction ns arbitrary: s)
  case (Cons n ns)
  obtain r s1 where 1: "alloc n s = Some (r, s1)" "inv s1" "r = 0 \<longrightarrow> free s1 = free s"
    "r \<noteq> 0 \<longrightarrow> span n r \<subseteq> free s \<and> free s1 = free s - span n r"
    using alloc_spec [OF Cons.prems, of n] by blast
  obtain rs s' where 2: "allocs alloc ns s1 = Some (rs, s')" "inv s'" "length rs = length ns"
    "\<forall>i < length rs. rs ! i \<noteq> 0 \<longrightarrow> span (ns ! i) (rs ! i) \<subseteq> free s1 - free s'" "free s' \<subseteq> free s1"
    "\<forall>j < length rs. \<forall>i < j. rs ! i \<noteq> 0 \<longrightarrow> rs ! j \<noteq> 0 \<longrightarrow> span (ns ! i) (rs ! i) \<inter> span (ns ! j) (rs ! j) = {}"
    using Cons.IH [OF 1(2)] by blast
  have sub: "free s1 \<subseteq> free s" using 1(3,4) by auto
  have "span ((n # ns) ! i) ((r # rs) ! i) \<subseteq> free s - free s'"
    if "i < length (r # rs)" "(r # rs) ! i \<noteq> 0" for i
    using that 1(4) 2(4,5) sub by (cases i) auto
  moreover have "span ((n # ns) ! i) ((r # rs) ! i) \<inter> span ((n # ns) ! j) ((r # rs) ! j) = {}"
    if j: "j < length (r # rs)" "i < j" and nz: "(r # rs) ! i \<noteq> 0" "(r # rs) ! j \<noteq> 0" for i j
  proof (cases i)
    case 0
    then obtain m where m: "j = Suc m" "m < length rs" using j by (cases j) auto
    then have "span (ns ! m) (rs ! m) \<subseteq> free s1" using 2(4) nz(2) by auto
    then show ?thesis using 1(4) nz(1) 0 m by auto
  next
    case (Suc k)
    then obtain m where m: "j = Suc m" "m < length rs" "k < m" using j by (cases j) auto
    then show ?thesis using 2(6) nz Suc by simp
  qed
  ultimately show ?case using 1(1) 2(1,2,3,5) sub by (intro exI [of _ "r # rs"] exI [of _ s']) simp
qed simp

end

interpretation pm: page_allocator pmm_inv free_mem owns "\<lambda>n p. blk (alloc_order n) p" pmm_alloc pmm_free
proof unfold_locales
  show "\<exists>r s'. pmm_alloc n s = Some (r, s') \<and> pmm_inv s' \<and> (r = 0 \<longrightarrow> free_mem s' = free_mem s) \<and>
      (r \<noteq> 0 \<longrightarrow> blk (alloc_order n) r \<subseteq> free_mem s \<and> free_mem s' = free_mem s - blk (alloc_order n) r \<and> owns s' n r)"
    if "pmm_inv s" for s n
    using pmm_alloc_ok [OF that, of n] by blast
  show "\<exists>s'. pmm_free p n s = Some s' \<and> pmm_inv s' \<and> free_mem s' = free_mem s \<union> blk (alloc_order n) p"
    if "pmm_inv s" "owns s n p" for s n p
    using pmm_free_ok [OF that] by blast
qed

end
