(* ===== verification/Pmm_Boot.thy ===== *)
theory Pmm_Boot
  imports Pmm_Buddy
begin

text \<open>
  The physical memory manager from the boot loader's memory map on: initialisation establishes the invariant of
  \<open>Pmm_Buddy\<close>, and the contract of a page allocator gives the behaviour of \<open>alloc\<close> and \<open>free\<close>.
\<close>

section \<open>Initialisation\<close>

lemma order_within_bounds:
  assumes "2 ^ k \<le> pages \<or> k = 0"
  shows "k \<le> order_within pages k \<and> (2 ^ order_within pages k \<le> pages \<or> order_within pages k = 0) \<and>
    pages < 2 ^ (order_within pages k + 1)"
  using assms
proof (induction pages k rule: order_within.induct)
  case (1 pages k)
  show ?case
  proof (cases "2 ^ (k + 1) \<le> pages")
    case True
    with 1 show ?thesis by (subst (1 2 3 4) order_within.simps) auto
  next
    case False
    with "1.prems" show ?thesis by (subst (1 2 3 4) order_within.simps) auto
  qed
qed

lemma segment_order:
  assumes "0x1000 \<le> len"
  defines "k \<equiv> order_within (len div 0x1000) 0"
  shows "bsize k \<le> len" "len < 2 * bsize k" "k < FREE_LISTS \<longleftrightarrow> len < 0x10000000"
proof -
  have "1 \<le> len div 0x1000" using assms(1) by (simp add: div_greater_zero_iff Suc_le_eq)
  then have b: "2 ^ k \<le> len div 0x1000" "len div 0x1000 < 2 ^ (k + 1)"
    using order_within_bounds [of 0 "len div 0x1000"] unfolding k_def by auto
  have s: "bsize k = 2 ^ k * 0x1000" by (simp add: bsize_def power_add)
  have b2: "len div 0x1000 < 2 * 2 ^ k" using b(2) by simp
  show l1: "bsize k \<le> len" using b(1) unfolding s by linarith
  show l2: "len < 2 * bsize k" using b2 unfolding s by linarith
  have "k < FREE_LISTS \<longleftrightarrow> (2::nat) ^ (k + 1) \<le> 2 ^ 16"
    unfolding FREE_LISTS_def by (subst power_increasing_iff) auto
  moreover have "FREE_LISTS \<le> k \<longleftrightarrow> (2::nat) ^ 16 \<le> 2 ^ k"
    unfolding FREE_LISTS_def by (subst power_increasing_iff) auto
  ultimately show "k < FREE_LISTS \<longleftrightarrow> len < 0x10000000" using l1 l2 unfolding s by (auto simp: not_less)
qed

lemma add_segment_ok:
  assumes ok: "segs_ok (nxt s) (segtab s) Fs" and base: "0 < base" and len: "0x1000 \<le> len" "len < 0x10000000"
    and disj: "\<forall>t \<in> set (segtab s). region t \<inter> {base ..< base + len} = {}"
  obtains s' seg F where "add_segment base len s = Some s'" "segtab s' = segtab s @ [seg]"
    "segs_ok (nxt s') (segtab s') (Fs @ [F])" "region seg = {base ..< base + len}"
    "free_set F = {base ..< base + bsize (max_order seg)}" "base_ptr seg = base" "seg_size seg = len"
    "bsize (max_order seg) \<le> len" "len < 2 * bsize (max_order seg)"
proof -
  define k where "k = order_within (len div 0x1000) 0"
  note k = segment_order [OF len(1), folded k_def]
  have kl: "k < FREE_LISTS" using k(3) len(2) by simp
  define seg where "seg = \<lparr>base_ptr = base, seg_size = len, pages_used = 0,
    free_list = (replicate FREE_LISTS 0)[k := base], max_order = k\<rparr>"
  define s' where "s' = s\<lparr>nxt := (nxt s)(base := 0), segtab := segtab s @ [seg]\<rparr>"
  define F :: lists where "F = (\<lambda>_. [])(k := [base])"
  have "add_segment base len s = Some s'"
    using kl by (simp add: add_segment_def add_block_def s'_def seg_def flip: k_def)
  moreover have seg: "seg_ok (nxt s') seg F"
    using base kl k(1) by (auto simp: seg_ok_def lists_ok_def s'_def seg_def F_def placed_def nth_upd)
  moreover have reg: "region seg = {base ..< base + len}" by (simp add: region_def seg_def)
  moreover have "base \<notin> frees Fs"
  proof
    assume "base \<in> frees Fs"
    then obtain t where "t \<in> set (segtab s)" "base \<in> region t"
      using frees_regions [of "nxt s" "segtab s" Fs] ok by (auto simp: segs_ok_def)
    then show False using disj len(1) by fastforce
  qed
  then have "segs_ok (nxt s') (segtab s) Fs" by (intro segs_ok_frame [OF ok]) (auto simp: s'_def)
  then have "segs_ok (nxt s') (segtab s') (Fs @ [F])"
    using seg disj reg by (auto simp: segs_ok_def s'_def sorted_wrt_append intro: list_all2_appendI)
  moreover have "free_set F = {base ..< base + bsize (max_order seg)}"
    by (auto simp: free_set_def F_def seg_def blk_def split: if_splits)
  ultimately show ?thesis using that k(1,2) by (auto simp: s'_def seg_def)
qed

text \<open>The memory of a map's entry that may be used: what lies above the first megabyte.\<close>

definition high :: "memmap_entry \<Rightarrow> nat set" where
  "high e = {max 0x100000 (mme_base e) ..< mme_base e + mme_length e}"

definition reaches_high :: "memmap_entry \<Rightarrow> bool" where
  "reaches_high e \<longleftrightarrow> 0x100000 < mme_base e + mme_length e"

lemma skip_low_high:
  assumes "mme_base e + mme_length e < 2 ^ 64"
  shows "skip_low e = None \<longleftrightarrow> \<not> reaches_high e"
    "skip_low e = Some (b, l) \<Longrightarrow> high e = {b ..< b + l} \<and> 0 < b"
  using assms by (auto simp: skip_low_def high_def reaches_high_def add64_def split: if_splits)

text \<open>An entry that the allocator can take: it does not wrap around, and has a page or more but less than 256 megabytes.\<close>

definition small_entry :: "(nat \<Rightarrow> bool) \<Rightarrow> memmap_entry \<Rightarrow> bool" where
  "small_entry usable e \<longleftrightarrow>
     (usable (mme_type e) \<longrightarrow> mme_base e + mme_length e < 2 ^ 64 \<and>
       (\<forall>b l. skip_low e = Some (b, l) \<longrightarrow> 0x1000 \<le> l \<and> l < 0x10000000))"

text \<open>A fresh segment: all of its largest power of two is one free block.\<close>

definition whole :: "pmm_segment \<Rightarrow> lists \<Rightarrow> bool" where
  "whole t F \<longleftrightarrow> free_set F = {base_ptr t ..< base_ptr t + bsize (max_order t)} \<and>
     bsize (max_order t) \<le> seg_size t \<and> seg_size t < 2 * bsize (max_order t)"

text \<open>The entries that become segments.\<close>

abbreviation segment_entries :: "(nat \<Rightarrow> bool) \<Rightarrow> memmap_entry list \<Rightarrow> memmap_entry list" where
  "segment_entries usable \<equiv> filter (\<lambda>e. usable (mme_type e) \<and> reaches_high e)"

lemma initialise_loop_ok:
  assumes "segs_ok (nxt s) (segtab s) Fs" "\<forall>t \<in> set (segtab s). \<forall>e \<in> set es. region t \<inter> high e = {}"
    and "sorted_wrt (\<lambda>d e. high d \<inter> high e = {}) es" "\<forall>e \<in> set es. small_entry usable e"
    and "list_all2 whole (segtab s) Fs"
  shows "\<exists>s' Fs'. initialise_loop usable es s = Some s' \<and> segs_ok (nxt s') (segtab s') Fs' \<and>
    list_all2 whole (segtab s') Fs' \<and>
    map region (segtab s') = map region (segtab s) @
      take (max_segtab - length (segtab s)) (map high (segment_entries usable es))"
  using assms
proof (induction es arbitrary: s Fs)
  case (Cons e es)
  have skip: ?case if "initialise_loop usable (e # es) s = initialise_loop usable es s" "\<not> (usable (mme_type e) \<and> reaches_high e)"
  proof -
    have "\<exists>s' Fs'. initialise_loop usable es s = Some s' \<and> segs_ok (nxt s') (segtab s') Fs' \<and>
      list_all2 whole (segtab s') Fs' \<and>
      map region (segtab s') = map region (segtab s) @
        take (max_segtab - length (segtab s)) (map high (segment_entries usable es))"
      by (rule Cons.IH) (use Cons.prems in auto)
    then show ?thesis unfolding that(1) using that(2) by auto
  qed
  show ?case
  proof (cases "usable (mme_type e)")
    case False
    then show ?thesis by (intro skip) simp_all
  next
    case usable: True
    then have nw: "mme_base e + mme_length e < 2 ^ 64" using Cons.prems(4) by (simp add: small_entry_def)
    show ?thesis
    proof (cases "skip_low e")
      case None
      then show ?thesis using usable skip_low_high(1) [OF nw] by (intro skip) simp_all
    next
      case (Some bl)
      obtain b l where bl: "skip_low e = Some (b, l)" using Some by (cases bl) auto
      have h: "high e = {b ..< b + l}" "0 < b" using skip_low_high(2) [OF nw bl] by auto
      have hi: "reaches_high e" using skip_low_high(1) [OF nw] Some by auto
      have l: "0x1000 \<le> l" "l < 0x10000000" using Cons.prems(4) usable bl by (auto simp: small_entry_def)
      show ?thesis
      proof (cases "length (segtab s) \<ge> max_segtab")
        case True
        then have "initialise_loop usable (e # es) s = Some s" using usable bl by simp
        then show ?thesis using Cons.prems(1,5) True by auto
      next
        case False
        have d: "\<forall>t \<in> set (segtab s). region t \<inter> {b ..< b + l} = {}" using Cons.prems(2) h by auto
        obtain s1 seg F where 1: "add_segment b l s = Some s1" "segtab s1 = segtab s @ [seg]"
          "segs_ok (nxt s1) (segtab s1) (Fs @ [F])" "region seg = {b ..< b + l}"
          "free_set F = {b ..< b + bsize (max_order seg)}" "base_ptr seg = b" "seg_size seg = l"
          "bsize (max_order seg) \<le> l" "l < 2 * bsize (max_order seg)"
          by (rule add_segment_ok [OF Cons.prems(1) h(2) l d])
        have "\<exists>s' Fs'. initialise_loop usable es s1 = Some s' \<and> segs_ok (nxt s') (segtab s') Fs' \<and>
          list_all2 whole (segtab s') Fs' \<and>
          map region (segtab s') = map region (segtab s1) @
            take (max_segtab - length (segtab s1)) (map high (segment_entries usable es))"
        proof (rule Cons.IH [OF 1(3)])
          show "\<forall>t \<in> set (segtab s1). \<forall>e \<in> set es. region t \<inter> high e = {}"
            using Cons.prems(2,3) 1(2,4) h(1) by auto
          show "list_all2 whole (segtab s1) (Fs @ [F])"
            unfolding 1(2) by (intro list_all2_appendI Cons.prems(5)) (use 1 in \<open>simp add: whole_def\<close>)
        qed (use Cons.prems in auto)
        moreover have "initialise_loop usable (e # es) s = initialise_loop usable es s1" using usable bl False 1(1) by simp
        moreover have "max_segtab - length (segtab s) = Suc (max_segtab - length (segtab s1))" using False 1(2) by simp
        ultimately show ?thesis using 1(2,4) h(1) hi usable by auto
      qed
    qed
  qed
qed auto

lemma whole_frees:
  "list_all2 whole segs Fs \<Longrightarrow> frees Fs = (\<Union>t \<in> set segs. {base_ptr t ..< base_ptr t + bsize (max_order t)}) \<and>
    (\<forall>t \<in> set segs. bsize (max_order t) \<le> seg_size t \<and> seg_size t < 2 * bsize (max_order t))"
  by (induction rule: list_all2_induct) (auto simp: whole_def frees_def)

lemma pmm_initialise_ok:
  assumes "sorted_wrt (\<lambda>d e. high d \<inter> high e = {}) entries" "\<forall>e \<in> set entries. small_entry usable e"
  shows "\<exists>s. pmm_initialise usable entries mem = Some s \<and> pmm_inv s \<and> num_used s = 0 \<and> num_errors s = 0 \<and>
    map region (segtab s) = take 128 (map high (segment_entries usable entries)) \<and>
    free_mem s = (\<Union>t \<in> set (segtab s). {base_ptr t ..< base_ptr t + bsize (max_order t)}) \<and>
    (\<forall>t \<in> set (segtab s). bsize (max_order t) \<le> seg_size t \<and> seg_size t < 2 * bsize (max_order t)) \<and>
    total_mem s = (sum_list (map seg_size (segtab s)) + 0xFFF) div 0x1000"
proof -
  let ?s = "\<lparr>nxt = mem, segtab = [], total_mem = 0, num_used = 0, num_errors = 0\<rparr>"
  obtain s Fs where s: "initialise_loop usable entries ?s = Some s" "segs_ok (nxt s) (segtab s) Fs" "list_all2 whole (segtab s) Fs"
    "map region (segtab s) = take 128 (map high (segment_entries usable entries))"
    using initialise_loop_ok [of ?s "[]" entries usable] assms by (auto simp: segs_ok_def max_segtab_def)
  define s' where "s' = s\<lparr>total_mem := (sum_list (map seg_size (segtab s)) + 0xFFF) div 0x1000, num_used := 0, num_errors := 0\<rparr>"
  have "segs_ok (nxt s') (segtab s') Fs" using s(2) by (simp add: s'_def)
  then have "pmm_inv s'" "free_mem s' = frees Fs" unfolding pmm_inv_def by (blast, rule free_mem_frees)
  moreover have "pmm_initialise usable entries mem = Some s'" using s(1) by (simp add: pmm_initialise_def s'_def)
  moreover have "segtab s' = segtab s" "num_used s' = 0" "num_errors s' = 0"
    "total_mem s' = (sum_list (map seg_size (segtab s')) + 0xFFF) div 0x1000" by (simp_all add: s'_def)
  ultimately show ?thesis using whole_frees [OF s(3)] s(4) by (intro exI [of _ s']) simp
qed

section \<open>Properties\<close>

text \<open>
  C10: the physical memory manager starts in a good state, with exactly the memory of the map. For a memory map whose usable
  entries do not overlap or wrap around and have between one page and 256 megabytes above the first megabyte, \<open>initialise\<close>
  succeeds whatever the memory contains, and its lists satisfy the invariant. Its segments are the usable entries that
  reach above the first megabyte, in the order of the map and without the part below, up to the 128 that the table
  holds; the memory they offer is, for each segment, one block at its beginning of the largest power of two of pages that fits.
\<close>

theorem pmm_boot:
  assumes "sorted_wrt (\<lambda>d e. high d \<inter> high e = {}) entries" "\<forall>e \<in> set entries. small_entry usable e"
  shows "\<exists>s. pmm_initialise usable entries mem = Some s \<and> pmm_inv s \<and> num_used s = 0 \<and> num_errors s = 0 \<and>
    map region (segtab s) = take 128 (map high (filter (\<lambda>e. usable (mme_type e) \<and> reaches_high e) entries)) \<and>
    free_mem s = (\<Union>t \<in> set (segtab s). {base_ptr t ..< base_ptr t + bsize (max_order t)}) \<and>
    (\<forall>t \<in> set (segtab s). bsize (max_order t) \<le> seg_size t \<and> seg_size t < 2 * bsize (max_order t)) \<and>
    total_mem s = (sum_list (map seg_size (segtab s)) + 0xFFF) div 0x1000"
  using assms by (rule pmm_initialise_ok)

text \<open>A small memory map for the witnesses: five pages at the first megabyte.\<close>

definition demo_map :: "memmap_entry list" where
  "demo_map = [\<lparr>mme_base = 0x1000, mme_length = 0x104000, mme_type = 0\<rparr>, \<lparr>mme_base = 0, mme_length = 0x1000, mme_type = 1\<rparr>]"

lemma demo_map_ok:
  "sorted_wrt (\<lambda>d e. high d \<inter> high e = {}) demo_map" "\<forall>e \<in> set demo_map. small_entry (\<lambda>t. t = 0) e"
  by (simp_all add: demo_map_def high_def small_entry_def skip_low_def add64_def)

theorem pmm_boot_witness:
  "\<exists>s. pmm_initialise (\<lambda>t. t = 0) demo_map (\<lambda>_. 7) = Some s \<and> pmm_inv s \<and> free_mem s = {0x100000 ..< 0x104000}"
proof -
  obtain s where s: "pmm_initialise (\<lambda>t. t = 0) demo_map (\<lambda>_. 7) = Some s" "pmm_inv s"
    "free_mem s = (\<Union>t \<in> set (segtab s). {base_ptr t ..< base_ptr t + bsize (max_order t)})"
    using pmm_boot [OF demo_map_ok, of "\<lambda>_. 7"] by blast
  moreover have "map (\<lambda>t. (base_ptr t, max_order t)) (segtab s) = [(0x100000, 2)]"
    using s(1) by (auto simp: pmm_initialise_def demo_map_def skip_low_def add64_def add_segment_def add_block_def
        order_within.simps FREE_LISTS_def max_segtab_def)
  ultimately show ?thesis by (auto simp: map_eq_Cons_conv bsize_def)
qed

text \<open>
  C11: allocation is exact. In every state that satisfies the invariant \<open>alloc\<close> returns, without touching a free list out
  of bounds. A block it returns was free, is as large as the request rounded up to a power of two of pages, is
  aligned to its size within its segment, and is the only memory that stops being free. It fails only when every list
  of sufficient order is empty, and then changes nothing but the error count.
\<close>

theorem pmm_alloc_exact:
  assumes "pmm_inv s" "n \<le> SIZE_MAX - 0xFFF"
  shows "\<exists>r s'. pmm_alloc n s = Some (r, s') \<and> pmm_inv s' \<and> n \<le> bsize (alloc_order n) \<and>
    (r = 0 \<longrightarrow> free_mem s' = free_mem s \<and>
       (\<forall>seg \<in> set (segtab s). \<forall>k. alloc_order n \<le> k \<and> k < FREE_LISTS \<longrightarrow> free_list seg ! k = 0)) \<and>
    (r \<noteq> 0 \<longrightarrow> {r ..< r + bsize (alloc_order n)} \<subseteq> free_mem s \<and>
       free_mem s' = free_mem s - {r ..< r + bsize (alloc_order n)} \<and>
       (\<exists>seg \<in> set (segtab s'). bsize (alloc_order n) dvd r - base_ptr seg))"
proof -
  have "\<exists>seg \<in> set (segtab s'). bsize (alloc_order n) dvd r - base_ptr seg" if "owns s' n r" for s' r
    using that by (auto simp: owns_def seg_placed_def placed_def)
  then show ?thesis
    using pmm_alloc_ok [OF assms(1), of n] alloc_order_size [OF assms(2)] unfolding blk_def by blast
qed

lemma demo_boot:
  obtains s where "pmm_initialise (\<lambda>t. t = 0) demo_map (\<lambda>_. 7) = Some s" "pmm_inv s"
    "s = \<lparr>nxt = (\<lambda>_. 7)(0x100000 := 0),
          segtab = [\<lparr>base_ptr = 0x100000, seg_size = 0x5000, pages_used = 0,
                     free_list = (replicate 16 0)[Suc (Suc 0) := 0x100000], max_order = Suc (Suc 0)\<rparr>],
          total_mem = 5, num_used = 0, num_errors = 0\<rparr>"
proof -
  obtain s where s: "pmm_initialise (\<lambda>t. t = 0) demo_map (\<lambda>_. 7) = Some s" "pmm_inv s"
    using pmm_initialise_ok [OF demo_map_ok, of "\<lambda>_. 7"] by blast
  have "s = \<lparr>nxt = (\<lambda>_. 7)(0x100000 := 0),
          segtab = [\<lparr>base_ptr = 0x100000, seg_size = 0x5000, pages_used = 0,
                     free_list = (replicate 16 0)[Suc (Suc 0) := 0x100000], max_order = Suc (Suc 0)\<rparr>],
          total_mem = 5, num_used = 0, num_errors = 0\<rparr>"
    using s(1) by (auto simp: pmm_initialise_def demo_map_def skip_low_def add64_def add_segment_def add_block_def
        order_within.simps FREE_LISTS_def max_segtab_def)
  with s that show ?thesis by blast
qed

theorem pmm_alloc_exact_witness:
  "\<exists>s r s'. pmm_initialise (\<lambda>t. t = 0) demo_map (\<lambda>_. 7) = Some s \<and> pmm_alloc 0x1800 s = Some (r, s') \<and> pmm_inv s' \<and>
     0x1800 \<le> bsize (alloc_order 0x1800)"
proof -
  obtain s where s: "pmm_initialise (\<lambda>t. t = 0) demo_map (\<lambda>_. 7) = Some s" "pmm_inv s" using demo_boot by blast
  have "(0x1800 :: nat) \<le> SIZE_MAX - 0xFFF" by (simp add: SIZE_MAX_def)
  from pmm_alloc_exact [OF s(2) this] s(1) show ?thesis by blast
qed

text \<open>
  allocations never overlap. From any good state, a sequence of allocations of any sizes runs to its end, and
  the blocks of any two that succeed are disjoint and were free at the beginning.
\<close>

theorem pmm_allocations_disjoint:
  assumes "pmm_inv s"
  shows "\<exists>rs s'. allocs pmm_alloc ns s = Some (rs, s') \<and> pmm_inv s' \<and> length rs = length ns \<and>
    (\<forall>i < length rs. rs ! i \<noteq> 0 \<longrightarrow> blk (alloc_order (ns ! i)) (rs ! i) \<subseteq> free_mem s) \<and>
    (\<forall>j < length rs. \<forall>i < j. rs ! i \<noteq> 0 \<longrightarrow> rs ! j \<noteq> 0 \<longrightarrow>
       blk (alloc_order (ns ! i)) (rs ! i) \<inter> blk (alloc_order (ns ! j)) (rs ! j) = {})"
proof -
  obtain rs s' where r: "allocs pmm_alloc ns s = Some (rs, s')" "pmm_inv s'" "length rs = length ns"
    "\<forall>i < length rs. rs ! i \<noteq> 0 \<longrightarrow> blk (alloc_order (ns ! i)) (rs ! i) \<subseteq> free_mem s - free_mem s'"
    "\<forall>j < length rs. \<forall>i < j. rs ! i \<noteq> 0 \<longrightarrow> rs ! j \<noteq> 0 \<longrightarrow>
       blk (alloc_order (ns ! i)) (rs ! i) \<inter> blk (alloc_order (ns ! j)) (rs ! j) = {}"
    using pm.allocs_disjoint [OF assms, of ns] by (elim exE conjE) (rule that)
  have "\<forall>i < length rs. rs ! i \<noteq> 0 \<longrightarrow> blk (alloc_order (ns ! i)) (rs ! i) \<subseteq> free_mem s"
    using r(4) by blast
  with r(1,2,3,5) show ?thesis by (intro exI [of _ rs] exI [of _ s'] conjI)
qed

theorem pmm_allocations_disjoint_witness:
  "\<exists>s rs s'. pmm_initialise (\<lambda>t. t = 0) demo_map (\<lambda>_. 7) = Some s \<and>
     allocs pmm_alloc [0x1000, 0x2000, 0x4000] s = Some (rs, s') \<and> length rs = 3"
proof -
  obtain s where s: "pmm_initialise (\<lambda>t. t = 0) demo_map (\<lambda>_. 7) = Some s" "pmm_inv s" using demo_boot by blast
  obtain rs s' where "allocs pmm_alloc [0x1000, 0x2000, 0x4000] s = Some (rs, s')" "length rs = length [0x1000, 0x2000, 0x4000 :: nat]"
    using pmm_allocations_disjoint [OF s(2), of "[0x1000, 0x2000, 0x4000]"] by (elim exE conjE) (rule that)
  with s(1) show ?thesis by (intro exI [of _ s] exI [of _ rs] exI [of _ s']) simp
qed

text \<open>
  C12: release undoes allocation. Giving back a block with the size it was requested with succeeds and restores exactly
  the free memory from before, whichever buddies are merged on the way; the invariant is kept.
\<close>

theorem pmm_alloc_free:
  assumes "pmm_inv s" "pmm_alloc n s = Some (r, s1)" "r \<noteq> 0"
  shows "\<exists>s2. pmm_free r n s1 = Some s2 \<and> pmm_inv s2 \<and> free_mem s2 = free_mem s"
  using assms by (rule pm.alloc_release)

lemma demo_order: "alloc_order 0x1000 = 0"
  by (simp add: alloc_order_def add64_def order_for.simps)

lemma demo_alloc:
  assumes "s = \<lparr>nxt = (\<lambda>_. 7)(0x100000 := 0),
          segtab = [\<lparr>base_ptr = 0x100000, seg_size = 0x5000, pages_used = 0,
                     free_list = (replicate 16 0)[Suc (Suc 0) := 0x100000], max_order = Suc (Suc 0)\<rparr>],
          total_mem = 5, num_used = 0, num_errors = 0\<rparr>"
  shows "pmm_alloc 0x1000 s = Some (0x100000, \<lparr>nxt = (\<lambda>_. 7)(0x100000 := 0, 0x102000 := 0, 0x101000 := 0 :: nat),
          segtab = [\<lparr>base_ptr = 0x100000, seg_size = 0x5000, pages_used = 1,
                     free_list = (replicate 16 0)[Suc (Suc 0) := 0, Suc 0 := 0x102000, 0 := 0x101000 :: nat],
                     max_order = Suc (Suc 0)\<rparr>],
          total_mem = 5, num_used = 1, num_errors = 0\<rparr>)"
  by (simp add: assms pmm_alloc_def demo_order segment_alloc.simps remove_block_def split_loop.simps
      add_block_def FREE_LISTS_def)

theorem pmm_alloc_free_witness:
  "\<exists>s r s1 s2. pmm_initialise (\<lambda>t. t = 0) demo_map (\<lambda>_. 7) = Some s \<and> pmm_alloc 0x1000 s = Some (r, s1) \<and> r = 0x100000 \<and>
     pmm_free r 0x1000 s1 = Some s2 \<and> free_mem s2 = free_mem s"
proof -
  obtain s where s: "pmm_initialise (\<lambda>t. t = 0) demo_map (\<lambda>_. 7) = Some s" "pmm_inv s"
    "\<exists>s1. pmm_alloc 0x1000 s = Some (0x100000, s1)" using demo_boot demo_alloc by metis
  then obtain s1 where a: "pmm_alloc 0x1000 s = Some (0x100000, s1)" by blast
  from pmm_alloc_free [OF s(2) a] s(1) a show ?thesis by auto
qed

text \<open>
  C13: two defects. \<open>free\<close> subtracts the size of the merged block from the usage counters, not the size of the block that was
  released: after an allocation of one of four pages and its release, the count of used pages is three below
  zero. And \<open>initialise\<close> does not limit the order of a segment to the 16 lists it has: for a map with one usable entry it
  writes out of bounds exactly when 256 megabytes or more of the entry lie above the first megabyte.
\<close>

theorem pmm_defects:
  "(\<exists>s s1 s2 r. pmm_initialise (\<lambda>t. t = 0) demo_map (\<lambda>_. 7) = Some s \<and> pmm_alloc 0x1000 s = Some (r, s1) \<and>
      pmm_free r 0x1000 s1 = Some s2 \<and> total_used s1 = 1 \<and> total_used s2 = - 3) \<and>
   (\<forall>e mem b l. skip_low e = Some (b, l) \<longrightarrow> 0x1000 \<le> l \<longrightarrow>
      (pmm_initialise (\<lambda>_. True) [e] mem = None \<longleftrightarrow> 0x10000000 \<le> l))"
proof (intro conjI allI impI)
  obtain s where s: "pmm_initialise (\<lambda>t. t = 0) demo_map (\<lambda>_. 7) = Some s"
    "s = \<lparr>nxt = (\<lambda>_. 7)(0x100000 := 0),
          segtab = [\<lparr>base_ptr = 0x100000, seg_size = 0x5000, pages_used = 0,
                     free_list = (replicate 16 0)[Suc (Suc 0) := 0x100000], max_order = Suc (Suc 0)\<rparr>],
          total_mem = 5, num_used = 0, num_errors = 0\<rparr>"
    using demo_boot by blast
  define heads where "heads = ((replicate 16 0)[Suc (Suc 0) := 0, Suc 0 := 0x102000, 0 := 0x101000 :: nat])"
  define s1 where "s1 = \<lparr>nxt = (\<lambda>_. 7)(0x100000 := 0, 0x102000 := 0, 0x101000 := 0 :: nat),
          segtab = [\<lparr>base_ptr = 0x100000, seg_size = 0x5000, pages_used = 1,
                     free_list = heads, max_order = Suc (Suc 0)\<rparr>],
          total_mem = 5, num_used = 1, num_errors = 0\<rparr>"
  have "pmm_alloc 0x1000 s = Some (0x100000, s1)" using demo_alloc [OF s(2)] by (simp add: s1_def heads_def)
  moreover have "\<exists>s2. pmm_free 0x100000 0x1000 s1 = Some s2 \<and> num_used s2 = - 3"
    by (simp add: s1_def heads_def pmm_free_def demo_order segment_free_def merge_loop.simps unlink_loop.simps
        add_block_def FREE_LISTS_def)
  ultimately show "\<exists>s s1 s2 r. pmm_initialise (\<lambda>t. t = 0) demo_map (\<lambda>_. 7) = Some s \<and> pmm_alloc 0x1000 s = Some (r, s1) \<and>
      pmm_free r 0x1000 s1 = Some s2 \<and> total_used s1 = 1 \<and> total_used s2 = - 3"
    using s(1) unfolding total_used_def by (metis s1_def pmm.select_convs(4))
next
  fix e mem b l
  assume e: "skip_low e = Some (b, l)" "0x1000 \<le> l"
  show "pmm_initialise (\<lambda>_. True) [e] mem = None \<longleftrightarrow> 0x10000000 \<le> l"
    using segment_order(3) [OF e(2)] e(1)
    by (auto simp: pmm_initialise_def max_segtab_def add_segment_def add_block_def Let_def split: option.splits)
qed

theorem pmm_defects_witness:
  "pmm_initialise (\<lambda>_. True) [\<lparr>mme_base = 0x200000, mme_length = 0x20000000, mme_type = 0\<rparr>] (\<lambda>_. 0) = None"
proof -
  have "skip_low \<lparr>mme_base = 0x200000, mme_length = 0x20000000, mme_type = 0\<rparr> = Some (0x200000, 0x20000000)"
    by (simp add: skip_low_def add64_def)
  then show ?thesis using pmm_defects by simp
qed

end
