(* ===== verification/Vmm.thy ===== *)
theory Vmm
  imports Pmm_Boot "HOL-Library.Monad_Syntax"
begin

text \<open>
  The virtual memory manager \<open>mm/vmm.cpp\<close>: page tables of four levels in pages of the physical memory manager.

  The memory is the store of the physical memory manager, a word for each address; the code reaches it through the
  boot loader's direct map, so a pointer is followed by \<open>va_to_pa\<close>. Addresses and table entries are 64-bit words. Reading and
  loading \<open>cr3\<close> and invalidating the TLB are the machine's. \<open>None\<close> is undefined behaviour in the allocator.
\<close>

section \<open>State\<close>

record vmm =
  phys :: pmm
  kernel_cr3 :: u64
  current_cr3 :: u64

definition va_to_pa :: "u64 \<Rightarrow> u64" where
  "va_to_pa va = (if va \<le> 0x800000000000 then va else va - 0xFFFF800000000000)"

definition pa_to_va :: "u64 \<Rightarrow> u64" where
  "pa_to_va pa = (if pa \<ge> 0xFFFF800000000000 then pa else pa + 0xFFFF800000000000)"

text \<open>Reading and writing the word that a pointer addresses.\<close>

definition load :: "u64 \<Rightarrow> vmm \<Rightarrow> u64" where
  "load p s = of_nat (nxt (phys s) (unat (va_to_pa p)))"

definition store :: "u64 \<Rightarrow> u64 \<Rightarrow> vmm \<Rightarrow> vmm" where
  "store p v s = s\<lparr>phys := (phys s)\<lparr>nxt := (nxt (phys s))(unat (va_to_pa p) := unat v)\<rparr>\<rparr>"

text \<open>\<^verbatim>\<open>memset(p, 0, PAGE_SIZE)\<close>, by words.\<close>

definition clear_page :: "u64 \<Rightarrow> vmm \<Rightarrow> vmm" where
  "clear_page p = for_up 0 512 (\<lambda>i. store (p + 8 * of_nat i) 0)"

section \<open>Allocation of pages\<close>

definition vmm_initialise :: "u64 \<Rightarrow> vmm \<Rightarrow> vmm" where
  "vmm_initialise cr3 s = s\<lparr>kernel_cr3 := cr3, current_cr3 := cr3\<rparr>"

definition vmm_alloc :: "nat \<Rightarrow> vmm \<Rightarrow> (u64 \<times> vmm) option" where
  "vmm_alloc n s = do {
     (p, ph) \<leftarrow> pmm_alloc n (phys s);
     Some (pa_to_va (of_nat p), s\<lparr>phys := ph\<rparr>)
   }"

definition vmm_free :: "u64 \<Rightarrow> nat \<Rightarrow> vmm \<Rightarrow> vmm option" where
  "vmm_free p n s = do {
     ph \<leftarrow> pmm_free (unat (va_to_pa p)) n (phys s);
     Some (s\<lparr>phys := ph\<rparr>)
   }"

section \<open>Page tables\<close>

definition PAGE_PRESENT :: u64 where "PAGE_PRESENT = 1"
definition PAGE_WRITE :: u64 where "PAGE_WRITE = 2"
definition PAGE_USER :: u64 where "PAGE_USER = 4"
definition PAGE_ADDR_MASK :: u64 where "PAGE_ADDR_MASK = 0x000FFFFFFFFFF000"
definition PAGE_SIZE :: u64 where "PAGE_SIZE = 0x1000"

definition PML4_IDX :: "u64 \<Rightarrow> u64" where "PML4_IDX va = drop_bit 39 va AND 0x1FF"
definition PDPT_IDX :: "u64 \<Rightarrow> u64" where "PDPT_IDX va = drop_bit 30 va AND 0x1FF"
definition PD_IDX :: "u64 \<Rightarrow> u64" where "PD_IDX va = drop_bit 21 va AND 0x1FF"
definition PT_IDX :: "u64 \<Rightarrow> u64" where "PT_IDX va = drop_bit 12 va AND 0x1FF"

text \<open>\<^verbatim>\<open>table[idx]\<close>.\<close>

definition entry :: "u64 \<Rightarrow> u64 \<Rightarrow> vmm \<Rightarrow> u64" where
  "entry table idx s = load (table + 8 * idx) s"

definition set_entry :: "u64 \<Rightarrow> u64 \<Rightarrow> u64 \<Rightarrow> vmm \<Rightarrow> vmm" where
  "set_entry table idx v s = store (table + 8 * idx) v s"

definition present :: "u64 \<Rightarrow> bool" where
  "present e \<longleftrightarrow> e AND PAGE_PRESENT \<noteq> 0"

text \<open>The result is the table's address, or the null pointer.\<close>

definition get_or_create_table :: "u64 \<Rightarrow> u64 \<Rightarrow> u64 \<Rightarrow> vmm \<Rightarrow> (u64 \<times> vmm) option" where
  "get_or_create_table parent idx flags s =
     (if \<not> present (entry parent idx s) then do {
        (p, ph) \<leftarrow> pmm_alloc 1 (phys s);
        let s = s\<lparr>phys := ph\<rparr>;
        let page = (of_nat p :: u64);
        if page = 0 then Some (0, s)
        else do {
          let s = clear_page (pa_to_va page) s;
          let s = set_entry parent idx (page OR PAGE_PRESENT OR PAGE_WRITE OR (flags AND PAGE_USER)) s;
          Some (pa_to_va (entry parent idx s AND PAGE_ADDR_MASK), s)
        }
      }
      else Some (pa_to_va (entry parent idx s AND PAGE_ADDR_MASK), s))"

text \<open>One iteration of \<open>mmap\<close>: whether it did not run out of memory.\<close>

definition map_page :: "u64 \<Rightarrow> u64 \<Rightarrow> u64 \<Rightarrow> u64 \<Rightarrow> vmm \<Rightarrow> (bool \<times> vmm) option" where
  "map_page pml4 pa va flags s = do {
     (pdpt, s) \<leftarrow> get_or_create_table pml4 (PML4_IDX va) flags s;
     if pdpt = 0 then Some (False, s) else do {
       (pd, s) \<leftarrow> get_or_create_table pdpt (PDPT_IDX va) flags s;
       if pd = 0 then Some (False, s) else do {
         (pt, s) \<leftarrow> get_or_create_table pd (PD_IDX va) flags s;
         if pt = 0 then Some (False, s)
         else Some (True, set_entry pt (PT_IDX va) (pa OR flags OR PAGE_PRESENT) s)
       }
     }
   }"

fun mmap_loop :: "nat \<Rightarrow> u64 \<Rightarrow> u64 \<Rightarrow> u64 \<Rightarrow> u64 \<Rightarrow> vmm \<Rightarrow> (bool \<times> vmm) option" where
  "mmap_loop 0 pml4 pa va flags s = Some (True, s)"
| "mmap_loop (Suc n) pml4 pa va flags s = do {
     (ok, s) \<leftarrow> map_page pml4 pa va flags s;
     if ok then mmap_loop n pml4 (pa + PAGE_SIZE) (va + PAGE_SIZE) flags s else Some (False, s)
   }"

definition mmap :: "u64 \<Rightarrow> u64 \<Rightarrow> nat \<Rightarrow> u64 \<Rightarrow> vmm \<Rightarrow> (u64 \<times> vmm) option" where
  "mmap paddr vaddr n flags s = do {
     let flags = (if vaddr < 0x800000000000 then flags OR PAGE_USER else flags);
     (ok, s) \<leftarrow> mmap_loop n (pa_to_va (current_cr3 s)) paddr vaddr flags s;
     Some (if ok then vaddr else 0, s)
   }"

text \<open>The body of \<open>munmap\<close>: nothing happens when a table on the way is missing.\<close>

definition unmap_page :: "u64 \<Rightarrow> vmm \<Rightarrow> vmm" where
  "unmap_page va s =
     (let pml4e = entry (pa_to_va (current_cr3 s)) (PML4_IDX va) s in
      if \<not> present pml4e then s
      else let pdpte = entry (pa_to_va (pml4e AND PAGE_ADDR_MASK)) (PDPT_IDX va) s in
      if \<not> present pdpte then s
      else let pde = entry (pa_to_va (pdpte AND PAGE_ADDR_MASK)) (PD_IDX va) s in
      if \<not> present pde then s
      else set_entry (pa_to_va (pde AND PAGE_ADDR_MASK)) (PT_IDX va) 0 s)"

text \<open>
  \<^verbatim>\<open>while (va < end)\<close> with steps of a page. The step may wrap around at the top of the address space, and the loop
  then does not end.
\<close>

partial_function (option) munmap_loop :: "u64 \<Rightarrow> u64 \<Rightarrow> vmm \<Rightarrow> vmm option" where
  "munmap_loop va end_va s =
     (if va < end_va then munmap_loop (va + PAGE_SIZE) end_va (unmap_page va s) else Some s)"

definition munmap :: "u64 \<Rightarrow> nat \<Rightarrow> vmm \<Rightarrow> vmm option" where
  "munmap vaddr n s = munmap_loop vaddr (vaddr + of_nat n) s"

section \<open>User memory and the current table\<close>

text \<open>
  Memory as bytes is a parameter here: \<open>memcpy dst src n\<close> is the C library's function on the caller's memory.
\<close>

definition copy_to_user :: "(u64 \<Rightarrow> u64 \<Rightarrow> nat \<Rightarrow> 'm \<Rightarrow> 'm) \<Rightarrow> u64 \<Rightarrow> u64 \<Rightarrow> nat \<Rightarrow> 'm \<Rightarrow> int \<times> 'm" where
  "copy_to_user memcpy data user_memory n m =
     (if data = 0 then (-1, m) else if user_memory = 0 then (-1, m)
      else (0, memcpy data user_memory n m))"

definition copy_from_user :: "(u64 \<Rightarrow> u64 \<Rightarrow> nat \<Rightarrow> 'm \<Rightarrow> 'm) \<Rightarrow> u64 \<Rightarrow> u64 \<Rightarrow> nat \<Rightarrow> 'm \<Rightarrow> int \<times> 'm" where
  "copy_from_user memcpy data kernel_memory n m =
     (if data = 0 then (-1, m) else if kernel_memory = 0 then (-1, m)
      else (0, memcpy kernel_memory data n m))"

definition get_cr3 :: "vmm \<Rightarrow> u64" where
  "get_cr3 s = kernel_cr3 s"

definition switch_to_new_table :: "u64 \<Rightarrow> vmm \<Rightarrow> vmm" where
  "switch_to_new_table cr3 s = s\<lparr>current_cr3 := (if cr3 = 0 then kernel_cr3 s else cr3)\<rparr>"

end
