(* ===== verification/Vmm_Tables.thy ===== *)
theory Vmm_Tables
  imports Vmm
begin

text \<open>
  The page tables as a tree. A function \<open>T\<close> gives the physical address of the table that a path of at most three
  indices leads to; tables are pages of their own, outside the free memory of the physical memory manager, and an entry is present
  exactly when it leads to a table. Mapping and unmapping pages keep the tree and change single leaves.
\<close>

section \<open>Memory\<close>

definition wd :: "vmm \<Rightarrow> nat \<Rightarrow> u64" where
  "wd s a = of_nat (nxt (phys s) a)"

abbreviation HIGH :: nat where "HIGH \<equiv> 0x400000000000"

lemma deref:
  assumes "t < HIGH" "i < 512"
  shows "unat (va_to_pa (pa_to_va (of_nat t) + 8 * of_nat i)) = t + 8 * i"
proof -
  let ?C = "0xFFFF800000000000 :: u64"
  have u: "unat (of_nat t :: u64) = t" using assms(1) by (simp add: unat_of_nat take_bit_nat_eq_self)
  have v: "unat (of_nat (t + 8 * i) :: u64) = t + 8 * i" using assms by (simp add: unat_of_nat take_bit_nat_eq_self del: of_nat_add of_nat_mult)
  have "(of_nat t :: u64) < ?C" using u assms(1) by (simp add: word_less_nat_alt)
  then have "pa_to_va (of_nat t) = of_nat t + ?C" unfolding pa_to_va_def not_le [symmetric] by (simp only: if_False)
  then have p: "pa_to_va (of_nat t) + 8 * of_nat i = of_nat (t + 8 * i) + ?C"
    by (simp only: of_nat_add of_nat_mult of_nat_numeral ac_simps)
  have "unat (of_nat (t + 8 * i) + ?C) = t + 8 * i + unat ?C"
    using v assms by (simp add: unat_plus_if' del: of_nat_add of_nat_mult)
  then have "\<not> of_nat (t + 8 * i) + ?C \<le> 0x800000000000"
    by (simp add: word_le_nat_alt del: of_nat_add of_nat_mult)
  then show ?thesis unfolding p va_to_pa_def using v by (simp del: of_nat_add of_nat_mult)
qed

lemma entry_wd: "t < HIGH \<Longrightarrow> i < 512 \<Longrightarrow> entry (pa_to_va (of_nat t)) (of_nat i) s = wd s (t + 8 * i)"
  by (simp add: entry_def load_def wd_def deref)

lemma set_entry_nxt:
  "t < HIGH \<Longrightarrow> i < 512 \<Longrightarrow> set_entry (pa_to_va (of_nat t)) (of_nat i) v s =
     s\<lparr>phys := (phys s)\<lparr>nxt := (nxt (phys s))(t + 8 * i := unat v)\<rparr>\<rparr>"
  by (simp add: set_entry_def store_def deref)

lemma clear_page_nxt:
  assumes "t < HIGH"
  shows "clear_page (pa_to_va (of_nat t)) s =
     s\<lparr>phys := (phys s)\<lparr>nxt := (\<lambda>a. if \<exists>j < 512. a = t + 8 * j then 0 else nxt (phys s) a)\<rparr>\<rparr>"
proof -
  have "for_up 0 m (\<lambda>i. store (pa_to_va (of_nat t) + 8 * of_nat i) 0) s =
      s\<lparr>phys := (phys s)\<lparr>nxt := (\<lambda>a. if \<exists>j < m. a = t + 8 * j then 0 else nxt (phys s) a)\<rparr>\<rparr>" if "m \<le> 512" for m
    using that
  proof (induction m)
    case (Suc m)
    have "(\<lambda>a. if \<exists>j < m. a = t + 8 * j then 0 else nxt (phys s) a)(t + 8 * m := 0) =
        (\<lambda>a. if \<exists>j < Suc m. a = t + 8 * j then 0 else nxt (phys s) a)"
      by (auto simp: fun_eq_iff less_Suc_eq)
    with Suc show ?case by (simp add: for_up_last store_def deref [OF assms])
  qed simp
  from this [of 512] show ?thesis by (simp add: clear_page_def)
qed

definition large :: "u64 \<Rightarrow> bool" where
  "large e \<longleftrightarrow> bit e 7"

lemma present_bit: "present e \<longleftrightarrow> bit e 0"
  by (simp add: present_def PAGE_PRESENT_def and_one_eq bit_0 odd_iff_mod_2_eq_one)

text \<open>The rights in an entry that leads to a table made by the code: writable, executable, and user as requested.\<close>

definition new_link :: "u64 \<Rightarrow> u64 \<Rightarrow> bool" where
  "new_link flags e \<longleftrightarrow> bit e 1 \<and> (bit e 2 \<longleftrightarrow> bit flags 2) \<and> \<not> bit e 63"

lemma mask_addr:
  assumes "0x1000 dvd r" "r < HIGH"
  shows "(of_nat r OR PAGE_PRESENT OR PAGE_WRITE OR (flags AND PAGE_USER)) AND PAGE_ADDR_MASK = of_nat r"
    "present (of_nat r OR PAGE_PRESENT OR PAGE_WRITE OR (flags AND PAGE_USER))"
    "\<not> large (of_nat r OR PAGE_PRESENT OR PAGE_WRITE OR (flags AND PAGE_USER))"
    "new_link flags (of_nat r OR PAGE_PRESENT OR PAGE_WRITE OR (flags AND PAGE_USER))"
proof -
  have m: "PAGE_ADDR_MASK = push_bit 12 (mask 40)" by (simp add: PAGE_ADDR_MASK_def mask_eq_exp_minus_1 push_bit_eq_mult)
  have lo: "\<not> bit r n" if "n < 12" for n
  proof -
    obtain q where "r = 0x1000 * q" using assms(1) by (auto elim: dvdE)
    then have "r = push_bit 12 q" by (simp add: push_bit_eq_mult)
    then show ?thesis using that by (simp add: bit_push_bit_iff)
  qed
  have hi: "\<not> bit r n" if "46 \<le> n" for n
  proof -
    have "r < 2 ^ 46" using assms(2) by simp
    also have "\<dots> \<le> 2 ^ n" using that by (intro power_increasing) auto
    finally have "r div 2 ^ n = 0" by (rule div_less)
    then show ?thesis unfolding bit_iff_odd by (simp only: even_zero not_True_eq_False not_False_eq_True)
  qed
  have r: "of_nat r AND PAGE_ADDR_MASK = (of_nat r :: u64)"
  proof (rule bit_word_eqI)
    fix n
    have "\<not> bit r n" if "\<not> (12 \<le> n \<and> n < 52)" using lo [of n] hi [of n] that by linarith
    then show "bit (of_nat r AND PAGE_ADDR_MASK) n = bit (of_nat r :: u64) n"
      by (cases "12 \<le> n \<and> n < 52") (auto simp: m bit_and_iff bit_push_bit_iff bit_mask_iff bit_of_nat_iff)
  qed
  have z: "(PAGE_PRESENT OR PAGE_WRITE OR (flags AND PAGE_USER)) AND PAGE_ADDR_MASK = 0"
    by (simp add: bit.conj_disj_distrib2 and.assoc PAGE_PRESENT_def PAGE_WRITE_def PAGE_USER_def PAGE_ADDR_MASK_def)
  show "(of_nat r OR PAGE_PRESENT OR PAGE_WRITE OR (flags AND PAGE_USER)) AND PAGE_ADDR_MASK = of_nat r"
    unfolding bit.conj_disj_distrib2 [of "of_nat r"] r z by simp
  show "present (of_nat r OR PAGE_PRESENT OR PAGE_WRITE OR (flags AND PAGE_USER))"
    by (simp add: present_bit bit_or_iff PAGE_PRESENT_def)
  show "\<not> large (of_nat r OR PAGE_PRESENT OR PAGE_WRITE OR (flags AND PAGE_USER))"
    using lo [of 7] by (simp add: large_def PAGE_PRESENT_def PAGE_WRITE_def PAGE_USER_def bit_or_iff bit_and_iff bit_of_nat_iff bit_numeral_rec bit_1_iff)
  show "new_link flags (of_nat r OR PAGE_PRESENT OR PAGE_WRITE OR (flags AND PAGE_USER))"
    using lo [of 2] hi [of 63]
    by (simp add: new_link_def PAGE_PRESENT_def PAGE_WRITE_def PAGE_USER_def bit_or_iff bit_and_iff bit_of_nat_iff bit_numeral_rec bit_1_iff)
qed

section \<open>The free memory is not touched\<close>

lemma pmm_poke:
  assumes "pmm_inv ph" "\<And>p. p \<in> free_mem ph \<Longrightarrow> nx p = nxt ph p"
  shows "pmm_inv (ph\<lparr>nxt := nx\<rparr>) \<and> free_mem (ph\<lparr>nxt := nx\<rparr>) = free_mem ph"
proof -
  obtain Fs where ok: "segs_ok (nxt ph) (segtab ph) Fs" using assms(1) by (auto simp: pmm_inv_def)
  have "segs_ok nx (segtab ph) Fs"
    by (rule segs_ok_frame [OF ok]) (use assms(2) free_mem_frees [OF ok] in auto)
  then have ok': "segs_ok (nxt (ph\<lparr>nxt := nx\<rparr>)) (segtab (ph\<lparr>nxt := nx\<rparr>)) Fs" by simp
  then show ?thesis using free_mem_frees [OF ok] free_mem_frees [OF ok'] by (auto simp: pmm_inv_def)
qed

lemma pmm_alloc_frame:
  assumes "pmm_inv s" "pmm_alloc n s = Some (r, s')" "p \<notin> free_mem s"
  shows "nxt s' p = nxt s p"
proof -
  obtain Fs where ok: "segs_ok (nxt s) (segtab s) Fs" using assms(1) by (auto simp: pmm_inv_def)
  then show ?thesis
    using alloc_loop_ok [OF ok, of "alloc_order n"] assms(2,3) free_mem_frees [OF ok]
    by (auto simp: pmm_alloc_def takes_def)
qed

lemma segment_alloc_base:
  "segment_alloc order cur nx seg = Some (Some (b, nx', seg')) \<Longrightarrow> base_ptr seg' = base_ptr seg"
proof (induction order cur nx seg rule: segment_alloc.induct)
  case (1 order cur nx seg)
  then show ?case
    by (subst (asm) (2) segment_alloc.simps) (auto split: if_splits option.splits prod.splits)
qed

lemma alloc_loop_base:
  "alloc_loop order segs nx = Some (Some (b, nx', segs')) \<Longrightarrow> map base_ptr segs' = map base_ptr segs"
  by (induction segs arbitrary: b nx' segs') (auto split: option.splits dest: segment_alloc_base)

lemma pmm_alloc_base: "pmm_alloc n s = Some (r, s') \<Longrightarrow> map base_ptr (segtab s') = map base_ptr (segtab s)"
  by (auto simp: pmm_alloc_def Let_def split: option.splits dest: alloc_loop_base)

section \<open>The tree\<close>

text \<open>
  \<open>H\<close> is the set of paths at which the tables that the boot loader left map a large page; there the entry's bit 7 is set and there
  is no further table.
\<close>

type_synonym tree = "nat list \<Rightarrow> nat option"

definition page :: "nat \<Rightarrow> nat set" where
  "page t = {t ..< t + 0x1000}"

definition links :: "nat list set \<Rightarrow> tree \<Rightarrow> nat list \<Rightarrow> u64 \<Rightarrow> bool" where
  "links H T p e \<longleftrightarrow>
     (if p \<in> H then T p = None \<and> present e \<and> large e
      else case T p of
        None \<Rightarrow> \<not> present e
      | Some u \<Rightarrow> present e \<and> \<not> large e \<and> e AND PAGE_ADDR_MASK = of_nat u)"

definition tree_ok :: "nat list set \<Rightarrow> nat set \<Rightarrow> tree \<Rightarrow> bool" where
  "tree_ok H F T \<longleftrightarrow> (\<forall>p \<in> H. length p = 2 \<or> length p = 3) \<and>
     (\<forall>p t. T p = Some t \<longrightarrow> length p \<le> 3 \<and> 0 < t \<and> t < HIGH \<and> 0x1000 dvd t \<and> page t \<inter> F = {}) \<and>
     (\<forall>p q t. T p = Some t \<longrightarrow> T q = Some t \<longrightarrow> p = q) \<and>
     (\<forall>p i. T (p @ [i]) \<noteq> None \<or> p @ [i] \<in> H \<longrightarrow> T p \<noteq> None)"

definition tables_ok :: "nat list set \<Rightarrow> vmm \<Rightarrow> tree \<Rightarrow> bool" where
  "tables_ok H s T \<longleftrightarrow> T [] = Some (unat (current_cr3 s)) \<and> tree_ok H (free_mem (phys s)) T \<and>
     (\<forall>p t i. T p = Some t \<longrightarrow> length p < 3 \<longrightarrow> i < 512 \<longrightarrow> links H T (p @ [i]) (wd s (t + 8 * i)))"

definition mem_ok :: "vmm \<Rightarrow> bool" where
  "mem_ok s \<longleftrightarrow> pmm_inv (phys s) \<and> free_mem (phys s) \<subseteq> {0 <..< HIGH} \<and>
     (\<forall>seg \<in> set (segtab (phys s)). 0x1000 dvd base_ptr seg)"

lemma page_disjoint: "0x1000 dvd t \<Longrightarrow> 0x1000 dvd u \<Longrightarrow> t \<noteq> u \<Longrightarrow> page t \<inter> page u = {}"
  by (auto simp: page_def elim!: dvdE)

lemma in_page: "i < 512 \<Longrightarrow> t + 8 * i \<in> page t"
  by (simp add: page_def)

lemma tree_okD:
  assumes "tree_ok H F T" "T p = Some t"
  shows "0 < t" "t < HIGH" "0x1000 dvd t" "page t \<inter> F = {}" "length p \<le> 3"
  using assms unfolding tree_ok_def by blast+

lemma tree_ok_slots:
  assumes "tree_ok H F T" "T p = Some t" "T q = Some u" "i < 512" "j < 512" "t + 8 * i = u + 8 * j"
  shows "p = q \<and> i = j"
proof -
  have "t + 8 * i \<in> page t" "t + 8 * i \<in> page u" using in_page [OF assms(4), of t] in_page [OF assms(5), of u] assms(6) by auto
  then have "t = u" using page_disjoint [of t u] tree_okD(3) [OF assms(1)] assms(2,3) by blast
  moreover from this have "p = q" using assms(1,2,3) unfolding tree_ok_def by blast
  ultimately show ?thesis using assms(6) by simp
qed

lemma tables_okD:
  assumes "tables_ok H s T"
  shows "tree_ok H (free_mem (phys s)) T" "T [] = Some (unat (current_cr3 s))"
    "\<And>p t i. T p = Some t \<Longrightarrow> length p < 3 \<Longrightarrow> i < 512 \<Longrightarrow> links H T (p @ [i]) (wd s (t + 8 * i))"
  using assms unfolding tables_ok_def by blast+

lemma tree_ok_None: "tree_ok H F T \<Longrightarrow> T p = None \<Longrightarrow> T (p @ [i]) = None \<and> p @ [i] \<notin> H"
  unfolding tree_ok_def by blast

text \<open>
  What an entry contributes to the translation: the entry itself when it is present and does not lead to a table, otherwise nothing.
\<close>

definition view :: "vmm \<Rightarrow> tree \<Rightarrow> nat list \<Rightarrow> nat \<Rightarrow> u64" where
  "view s T p i =
     (case T p of
        None \<Rightarrow> 0
      | Some t \<Rightarrow> if T (p @ [i]) = None \<and> present (wd s (t + 8 * i)) then wd s (t + 8 * i) else 0)"

text \<open>The entry that leads to a table.\<close>

definition link :: "vmm \<Rightarrow> tree \<Rightarrow> nat list \<Rightarrow> nat \<Rightarrow> u64" where
  "link s T p i =
     (case T p of
        None \<Rightarrow> 0
      | Some t \<Rightarrow> if T (p @ [i]) \<noteq> None then wd s (t + 8 * i) else 0)"

text \<open>Entries that lead to tables stay as they are, and those that are added have the rights of new tables.\<close>

definition links_kept :: "u64 \<Rightarrow> vmm \<Rightarrow> tree \<Rightarrow> vmm \<Rightarrow> tree \<Rightarrow> bool" where
  "links_kept flags s T s' T' \<longleftrightarrow> (\<forall>p. \<forall>i < 512. T' (p @ [i]) \<noteq> None \<longrightarrow>
     (if T (p @ [i]) \<noteq> None then link s' T' p i = link s T p i else new_link flags (link s' T' p i)))"

lemma links_kept_trans:
  assumes "links_kept flags s T s1 T1" "links_kept flags s1 T1 s2 T2" "T \<subseteq>\<^sub>m T1"
  shows "links_kept flags s T s2 T2"
  unfolding links_kept_def
proof (intro allI impI)
  fix p and i :: nat
  assume i: "i < 512" "T2 (p @ [i]) \<noteq> None"
  have "T (p @ [i]) \<noteq> None \<longrightarrow> T1 (p @ [i]) \<noteq> None" using assms(3) by (metis domIff map_le_implies_dom_le subsetD)
  then show "if T (p @ [i]) \<noteq> None then link s2 T2 p i = link s T p i else new_link flags (link s2 T2 p i)"
    using assms(1,2) i unfolding links_kept_def by (cases "T1 (p @ [i]) = None") auto
qed

section \<open>Getting a table\<close>

lemma list_at_null: "list_at nx 0 xs \<longleftrightarrow> xs = []"
  by (cases xs) auto

lemma alloc_page:
  assumes ok: "mem_ok s" and a: "pmm_alloc 1 (phys s) = Some (r, ph)"
  defines "s' \<equiv> s\<lparr>phys := ph\<rparr>"
  shows "mem_ok s'" "\<And>p. p \<notin> free_mem (phys s) \<Longrightarrow> wd s' p = wd s p" "free_mem ph \<subseteq> free_mem (phys s)"
    "r \<noteq> 0 \<Longrightarrow> page r \<subseteq> free_mem (phys s) \<and> page r \<inter> free_mem ph = {} \<and> r < HIGH \<and> 0x1000 dvd r"
    "r = 0 \<Longrightarrow> free_mem ph = {}"
proof -
  have inv: "pmm_inv (phys s)" using ok by (simp add: mem_ok_def)
  have order: "alloc_order 1 = 0" by (simp add: alloc_order_def add64_def order_for.simps)
  have spec: "pmm_inv ph" "r = 0 \<longrightarrow> free_mem ph = free_mem (phys s)"
    "r \<noteq> 0 \<longrightarrow> page r \<subseteq> free_mem (phys s) \<and> free_mem ph = free_mem (phys s) - page r \<and> owns ph 1 r"
    using pm.alloc_spec [OF inv, of 1] a unfolding order blk_def bsize_def page_def by auto
  show "free_mem ph = {}" if "r = 0"
  proof -
    have "\<forall>seg \<in> set (segtab (phys s)). \<forall>k < FREE_LISTS. free_list seg ! k = 0"
      using pmm_alloc_ok [OF inv, of 1] a that unfolding order by auto
    then have "free_mem (phys s) = {}" by (auto simp: free_mem_def list_at_null)
    then show ?thesis using spec(2) that by simp
  qed
  show sub: "free_mem ph \<subseteq> free_mem (phys s)" using spec(2,3) by (cases "r = 0") auto
  have base: "set (map base_ptr (segtab ph)) = set (map base_ptr (segtab (phys s)))" using pmm_alloc_base [OF a] by simp
  then have dvd: "\<forall>seg \<in> set (segtab ph). 0x1000 dvd base_ptr seg"
    using ok unfolding mem_ok_def set_map by (metis (no_types, lifting) image_eqI image_iff)
  show "mem_ok s'" using spec(1) sub dvd ok by (auto simp: mem_ok_def s'_def)
  show "wd s' p = wd s p" if "p \<notin> free_mem (phys s)" for p
    using pmm_alloc_frame [OF inv a that] by (simp add: wd_def s'_def)
  show "page r \<subseteq> free_mem (phys s) \<and> page r \<inter> free_mem ph = {} \<and> r < HIGH \<and> 0x1000 dvd r" if "r \<noteq> 0"
  proof -
    have p: "page r \<subseteq> free_mem (phys s)" "free_mem ph = free_mem (phys s) - page r" "owns ph 1 r" using spec(3) that by auto
    obtain seg where seg: "seg \<in> set (segtab ph)" "bsize 0 dvd r - base_ptr seg" "base_ptr seg \<le> r"
      using p(3) order by (auto simp: owns_def seg_placed_def placed_def)
    have "r \<in> page r" by (simp add: page_def)
    then have "r < HIGH" using p(1) ok by (auto simp: mem_ok_def)
    moreover have "0x1000 dvd r" using seg dvd dvd_diffD [of "0x1000" r "base_ptr seg"] by (simp add: bsize_def)
    ultimately show ?thesis using p by blast
  qed
qed

lemma alloc_tables:
  assumes ok: "mem_ok s" and tab: "tables_ok H s T" and a: "pmm_alloc 1 (phys s) = Some (r, ph)"
  shows "tables_ok H (s\<lparr>phys := ph\<rparr>) T" "j < 512 \<Longrightarrow> view (s\<lparr>phys := ph\<rparr>) T q j = view s T q j"
    "links_kept flags s T (s\<lparr>phys := ph\<rparr>) T"
proof -
  note tree = tables_okD(1) [OF tab]
  have same: "wd (s\<lparr>phys := ph\<rparr>) (t + 8 * i) = wd s (t + 8 * i)" if "T p = Some t" "i < 512" for p t i
    using alloc_page(2) [OF ok a] tree_okD(4) [OF tree that(1)] in_page [OF that(2), of t] by blast
  have "tree_ok H (free_mem ph) T" using tree alloc_page(3) [OF ok a] unfolding tree_ok_def by blast
  then show "tables_ok H (s\<lparr>phys := ph\<rparr>) T" using tab same unfolding tables_ok_def by simp
  show "view (s\<lparr>phys := ph\<rparr>) T q j = view s T q j" if "j < 512"
    using same [OF _ that] by (auto simp: view_def split: option.split)
  show "links_kept flags s T (s\<lparr>phys := ph\<rparr>) T"
    using same by (auto simp: links_kept_def link_def split: option.split)
qed

text \<open>Writing an entry of a table keeps the free memory and all other entries.\<close>

lemma set_entry_ok:
  fixes v :: u64
  assumes ok: "mem_ok s" and tree: "tree_ok H (free_mem (phys s)) T" and T: "T p = Some t" "i < 512"
  defines "s' \<equiv> set_entry (pa_to_va (of_nat t)) (of_nat i) v s"
  shows "mem_ok s'" "free_mem (phys s') = free_mem (phys s)" "current_cr3 s' = current_cr3 s"
    "wd s' a = (if a = t + 8 * i then v else wd s a)"
proof -
  have t: "t < HIGH" "page t \<inter> free_mem (phys s) = {}" using tree_okD [OF tree T(1)] by auto
  have s': "s' = s\<lparr>phys := (phys s)\<lparr>nxt := (nxt (phys s))(t + 8 * i := unat v)\<rparr>\<rparr>"
    unfolding s'_def by (rule set_entry_nxt [OF t(1) T(2)])
  have inv: "pmm_inv (phys s)" using ok by (simp add: mem_ok_def)
  have "t + 8 * i \<notin> free_mem (phys s)" using t(2) in_page [OF T(2)] by blast
  then have "pmm_inv ((phys s)\<lparr>nxt := (nxt (phys s))(t + 8 * i := unat v)\<rparr>) \<and>
      free_mem ((phys s)\<lparr>nxt := (nxt (phys s))(t + 8 * i := unat v)\<rparr>) = free_mem (phys s)"
    by (intro pmm_poke [OF inv]) auto
  then have "pmm_inv (phys s') \<and> free_mem (phys s') = free_mem (phys s)" by (simp add: s')
  then show "mem_ok s'" "free_mem (phys s') = free_mem (phys s)" using ok by (auto simp: mem_ok_def s')
  show "current_cr3 s' = current_cr3 s" "wd s' a = (if a = t + 8 * i then v else wd s a)" by (simp_all add: s' wd_def)
qed

lemma set_leaf:
  fixes v :: u64
  assumes ok: "mem_ok s" and tab: "tables_ok H s T" and T: "T p = Some t" "i < 512" and "length p = 3" "T (p @ [i]) = None"
  defines "s' \<equiv> set_entry (pa_to_va (of_nat t)) (of_nat i) v s"
  shows "mem_ok s'" "tables_ok H s' T" "current_cr3 s' = current_cr3 s"
    "j < 512 \<Longrightarrow> view s' T q j = (if q = p \<and> j = i then if present v then v else 0 else view s T q j)"
    "links_kept flags s T s' T"
proof -
  note tree = tables_okD(1) [OF tab]
  note w = set_entry_ok [OF ok tree T, of v, folded s'_def]
  show "mem_ok s'" by (rule w)
  show "current_cr3 s' = current_cr3 s" by (rule w)
  have other: "wd s' (u + 8 * j) = wd s (u + 8 * j)" if "T q = Some u" "j < 512" "q \<noteq> p \<or> j \<noteq> i" for q u j
    using tree_ok_slots [OF tree T(1) that(1) T(2) that(2)] that(3) unfolding w(4) by auto
  show "tables_ok H s' T"
    unfolding tables_ok_def w(2,3)
    using tables_okD [OF tab] assms(5) other by (metis less_irrefl)
  show "view s' T q j = (if q = p \<and> j = i then if present v then v else 0 else view s T q j)" if "j < 512"
    using other [of q _ j] that assms(4,6) T(1) by (auto simp: view_def w(4) split: option.splits)
  have "link s' T q j = link s T q j" if "j < 512" for q j
    using other [of q _ j] that assms(6) by (cases "q = p \<and> j = i") (auto simp: link_def split: option.splits)
  then show "links_kept flags s T s' T" by (simp add: links_kept_def)
qed

lemma zero_absent [simp]: "\<not> present 0"
  by (simp add: present_def)

text \<open>A new table below an entry that is not present.\<close>

lemma new_table:
  fixes flags :: u64
  assumes ok: "mem_ok s" and tab: "tables_ok H s T" and T: "T p = Some t" "i < 512" and "length p < 3"
    and new: "T (p @ [i]) = None" "p @ [i] \<notin> H"
    and a: "pmm_alloc 1 (phys s) = Some (r, ph)" "r \<noteq> 0"
  defines "s' \<equiv> set_entry (pa_to_va (of_nat t)) (of_nat i)
      (of_nat r OR PAGE_PRESENT OR PAGE_WRITE OR (flags AND PAGE_USER)) (clear_page (pa_to_va (of_nat r)) (s\<lparr>phys := ph\<rparr>))"
    and "T' \<equiv> T(p @ [i] \<mapsto> r)"
  shows "mem_ok s'" "tables_ok H s' T'" "current_cr3 s' = current_cr3 s" "wd s' (t + 8 * i) AND PAGE_ADDR_MASK = of_nat r"
    "j < 512 \<Longrightarrow> view s' T' q j = view s T q j" "links_kept flags s T s' T'"
proof -
  let ?s1 = "s\<lparr>phys := ph\<rparr>"
  let ?s2 = "clear_page (pa_to_va (of_nat r)) ?s1"
  let ?E = "of_nat r OR PAGE_PRESENT OR PAGE_WRITE OR (flags AND PAGE_USER)"
  note tree = tables_okD(1) [OF tab]
  note al = alloc_page [OF ok a(1)]
  have r: "page r \<subseteq> free_mem (phys s)" "page r \<inter> free_mem ph = {}" "r < HIGH" "0x1000 dvd r" using al(4) a(2) by auto
  have s2: "?s2 = ?s1\<lparr>phys := ph\<lparr>nxt := (\<lambda>a. if \<exists>j < 512. a = r + 8 * j then 0 else nxt ph a)\<rparr>\<rparr>"
    using clear_page_nxt [OF r(3), of ?s1] by (simp cong: if_cong)
  have zero: "pmm_inv (ph\<lparr>nxt := nx\<rparr>) \<and> free_mem (ph\<lparr>nxt := nx\<rparr>) = free_mem ph"
    if "nx = (\<lambda>a. if \<exists>j < 512. a = r + 8 * j then 0 else nxt ph a)" for nx
  proof (rule pmm_poke)
    show "pmm_inv ph" using al(1) by (simp add: mem_ok_def)
    fix p assume "p \<in> free_mem ph"
    then have "\<not> (\<exists>j < 512. p = r + 8 * j)" using r(2) in_page [of _ r] by blast
    then show "nx p = nxt ph p" unfolding that by (rule if_not_P)
  qed
  have "pmm_inv (phys ?s2) \<and> free_mem (phys ?s2) = free_mem ph"
    unfolding s2 using zero [OF refl] by simp
  then have s2ok: "mem_ok ?s2" and s2free: "free_mem (phys ?s2) = free_mem ph" using al(1) by (auto simp: mem_ok_def s2)
  have tree2: "tree_ok H (free_mem (phys ?s2)) T"
    using tree al(3) unfolding tree_ok_def s2free by blast
  note w = set_entry_ok [OF s2ok tree2 T, of ?E, folded s'_def]
  show "mem_ok s'" "current_cr3 s' = current_cr3 s" using w(1,3) by (simp_all add: s2)
  show E: "wd s' (t + 8 * i) AND PAGE_ADDR_MASK = of_nat r" using mask_addr(1) [OF r(4,3)] by (simp add: w(4))
  have apart: "page u \<inter> page r = {}" if "T q = Some u" for q u using tree_okD(4) [OF tree that] r(1) by blast
  have fresh: "wd s' (r + 8 * j) = 0" if "j < 512" for j
  proof -
    have "r + 8 * j \<noteq> t + 8 * i" using apart [OF T(1)] in_page [OF T(2), of t] in_page [OF that, of r] by auto
    then have "wd s' (r + 8 * j) = wd ?s2 (r + 8 * j)" by (simp add: w(4))
    also have "\<dots> = 0" using that by (simp add: s2 wd_def)
    finally show ?thesis .
  qed
  have old: "wd s' (u + 8 * j) = wd s (u + 8 * j)" if "T q = Some u" "j < 512" "q \<noteq> p \<or> j \<noteq> i" for q u j
  proof -
    have "u + 8 * j \<noteq> t + 8 * i" using tree_ok_slots [OF tree that(1) T(1) that(2) T(2)] that(3) by auto
    moreover have "u + 8 * j \<notin> free_mem (phys s)" "u + 8 * j \<notin> page r"
      using tree_okD(4) [OF tree that(1)] r(1) in_page [OF that(2), of u] by blast+
    then have "wd ?s1 (u + 8 * j) = wd s (u + 8 * j)" "\<forall>k < 512. u + 8 * j \<noteq> r + 8 * k"
      using al(2) in_page [of _ r] by auto
    ultimately have "wd s' (u + 8 * j) = wd ?s1 (u + 8 * j)" "wd ?s1 (u + 8 * j) = wd s (u + 8 * j)"
      unfolding w(4) by (auto simp: s2 wd_def)
    then show ?thesis by simp
  qed
  have p: "p \<noteq> p @ [i]" by simp
  show "tables_ok H s' T'"
    unfolding tables_ok_def
  proof (intro conjI allI impI)
    show "T' [] = Some (unat (current_cr3 s'))" using tables_okD(2) [OF tab] w(3) by (simp add: T'_def s2)
    have "r \<noteq> 0" "\<And>q u. T q = Some u \<Longrightarrow> u \<noteq> r"
      using a(2) apart [of _ r] by (auto simp: page_def)
    then show "tree_ok H (free_mem (phys s')) T'"
      using tree2 r T(1) new(1) assms(5) unfolding tree_ok_def w(2) s2free T'_def by (auto split: if_splits) blast
    fix q u j assume q: "T' q = Some u" "length q < 3" "(j :: nat) < 512"
    show "links H T' (q @ [j]) (wd s' (u + 8 * j))"
    proof (cases "q = p @ [i]")
      case True
      then have "T (q @ [j]) = None" "q @ [j] \<notin> H" using new(1) tree_ok_None [OF tree, of q j] by simp_all
      moreover have "u = r" using True q(1) by (simp add: T'_def)
      ultimately have "T' (q @ [j]) = None" "q @ [j] \<notin> H" "wd s' (u + 8 * j) = 0"
        using True fresh [OF q(3)] by (simp_all add: T'_def)
      then show ?thesis by (simp add: links_def)
    next
      case False
      then have u: "T q = Some u" using q by (simp add: T'_def)
      show ?thesis
      proof (cases "q = p \<and> j = i")
        case True
        then show ?thesis using mask_addr [OF r(4,3)] u T(1) new(2) by (simp add: links_def T'_def w(4))
      next
        case False
        then have "T' (q @ [j]) = T (q @ [j])" by (auto simp: T'_def)
        then show ?thesis using tables_okD(3) [OF tab u q(2,3)] old [OF u q(3)] False by (simp add: links_def)
      qed
    qed
  qed
  show "view s' T' q j = view s T q j" if "j < 512"
  proof (cases "q = p @ [i]")
    case True
    then show ?thesis using new(1) fresh [OF that] by (simp add: view_def T'_def)
  next
    case False
    have "\<not> present (wd s (t + 8 * i))" using tables_okD(3) [OF tab T(1) assms(5) T(2)] new by (simp add: links_def)
    then show ?thesis using False old [OF _ that] T(1) by (cases "T q") (auto simp: view_def T'_def)
  qed
  show "links_kept flags s T s' T'"
    unfolding links_kept_def
  proof (intro allI impI)
    fix q and j :: nat
    assume j: "j < 512" "T' (q @ [j]) \<noteq> None"
    show "if T (q @ [j]) \<noteq> None then link s' T' q j = link s T q j else new_link flags (link s' T' q j)"
    proof (cases "q @ [j] = p @ [i]")
      case True
      then show ?thesis using new(1) T(1) p mask_addr(4) [OF r(4,3)] by (simp add: link_def T'_def w(4))
    next
      case False
      then have Tq: "T (q @ [j]) \<noteq> None" using j(2) False by (auto simp: T'_def split: if_splits)
      then have "q \<noteq> p @ [i]" using new(1) tree_ok_None [OF tree, of q j] by auto
      then show ?thesis using Tq False old [OF _ j(1), of q] by (auto simp: link_def T'_def split: option.splits)
    qed
  qed
qed

end
