(* ===== verification/Vmm_Map.thy ===== *)
theory Vmm_Map
  imports Vmm_Tables
begin

text \<open>
  Mapping and unmapping pages, against the translation that the processor performs with the same tables.
\<close>

section \<open>Translation\<close>

text \<open>
  The access that a list of entries on a walk grants: writing and user access need the bit in every entry,
  and execution is forbidden by the bit in any of them.
\<close>

datatype access = Access (writable: bool) (user: bool) (executable: bool)

definition effective :: "u64 list \<Rightarrow> access" where
  "effective es = Access (list_all (\<lambda>e. bit e 1) es) (list_all (\<lambda>e. bit e 2) es) (list_all (\<lambda>e. \<not> bit e 63) es)"

text \<open>
  The processor's walk: the level at which it ends (1 and 2 for large pages), the entry found there, if it is present,
  and the access that all entries on the way grant together.
\<close>

definition translate :: "vmm \<Rightarrow> u64 \<Rightarrow> (nat \<times> u64 \<times> access) option" where
  "translate s va =
     (let e3 = wd s (unat (current_cr3 s) + 8 * unat (PML4_IDX va)) in
      if \<not> present e3 then None
      else let e2 = wd s (unat (e3 AND PAGE_ADDR_MASK) + 8 * unat (PDPT_IDX va)) in
      if \<not> present e2 then None
      else if large e2 then Some (2, e2, effective [e3, e2])
      else let e1 = wd s (unat (e2 AND PAGE_ADDR_MASK) + 8 * unat (PD_IDX va)) in
      if \<not> present e1 then None
      else if large e1 then Some (1, e1, effective [e3, e2, e1])
      else let e0 = wd s (unat (e1 AND PAGE_ADDR_MASK) + 8 * unat (PT_IDX va)) in
      if \<not> present e0 then None else Some (0, e0, effective [e3, e2, e1, e0]))"

text \<open>
  Whether the tables above the page of an address grant a right \<open>R\<close>; \<open>d\<close> counts for the tables that are missing.
\<close>

definition allowed_above :: "(u64 \<Rightarrow> bool) \<Rightarrow> bool \<Rightarrow> vmm \<Rightarrow> u64 \<Rightarrow> bool" where
  "allowed_above R d s va =
     (let e3 = wd s (unat (current_cr3 s) + 8 * unat (PML4_IDX va)) in
      if \<not> present e3 then d
      else R e3 \<and>
        (let e2 = wd s (unat (e3 AND PAGE_ADDR_MASK) + 8 * unat (PDPT_IDX va)) in
         if \<not> present e2 then d
         else R e2 \<and>
           (let e1 = wd s (unat (e2 AND PAGE_ADDR_MASK) + 8 * unat (PD_IDX va)) in
            if \<not> present e1 then d else R e1)))"

definition path :: "u64 \<Rightarrow> nat list" where
  "path va = [unat (PML4_IDX va), unat (PDPT_IDX va), unat (PD_IDX va)]"

definition leaf_no :: "u64 \<Rightarrow> nat" where
  "leaf_no va = unat (PT_IDX va)"

definition clear_of :: "nat list set \<Rightarrow> u64 \<Rightarrow> bool" where
  "clear_of H va \<longleftrightarrow> take 2 (path va) \<notin> H \<and> path va \<notin> H"

lemma mask_512: "unat ((w :: u64) AND 0x1FF) < 512"
proof -
  have "w AND 0x1FF \<le> 0x1FF" by (rule word_and_le1)
  then show ?thesis by (simp add: word_le_nat_alt)
qed

lemma indices [simp]: "unat (PML4_IDX va) < 512" "unat (PDPT_IDX va) < 512" "unat (PD_IDX va) < 512" "unat (PT_IDX va) < 512"
  by (simp_all add: PML4_IDX_def PDPT_IDX_def PD_IDX_def PT_IDX_def mask_512)

lemma view_link:
  assumes "tables_ok H s T" "T p = Some t" "length p < 3" "i < 512" "T (p @ [i]) = Some u"
  shows "present (wd s (t + 8 * i))" "\<not> large (wd s (t + 8 * i))" "unat (wd s (t + 8 * i) AND PAGE_ADDR_MASK) = u"
    "view s T p i = 0" "link s T p i = wd s (t + 8 * i)"
proof -
  have "links H T (p @ [i]) (wd s (t + 8 * i))" using tables_okD(3) assms by blast
  then have l: "present (wd s (t + 8 * i)) \<and> \<not> large (wd s (t + 8 * i)) \<and> wd s (t + 8 * i) AND PAGE_ADDR_MASK = of_nat u"
    using assms(5) by (auto simp: links_def split: if_splits)
  have "u < HIGH" using tree_okD(2) [OF tables_okD(1)] assms(1,5) by blast
  then show "unat (wd s (t + 8 * i) AND PAGE_ADDR_MASK) = u" using l by (simp add: unat_of_nat take_bit_nat_eq_self)
  show "present (wd s (t + 8 * i))" "\<not> large (wd s (t + 8 * i))" "view s T p i = 0" "link s T p i = wd s (t + 8 * i)"
    using l assms by (simp_all add: view_def link_def)
qed

lemma view_none: "T p = None \<Longrightarrow> view s T p i = 0"
  by (simp add: view_def)

lemma view_end:
  assumes "tables_ok H s T" "T p = Some t" "length p < 3" "i < 512" "T (p @ [i]) = None"
  shows "present (wd s (t + 8 * i)) \<longleftrightarrow> p @ [i] \<in> H" "p @ [i] \<in> H \<Longrightarrow> large (wd s (t + 8 * i))"
    "view s T p i = (if p @ [i] \<in> H then wd s (t + 8 * i) else 0)"
proof -
  have "links H T (p @ [i]) (wd s (t + 8 * i))" using tables_okD(3) assms by blast
  then show "present (wd s (t + 8 * i)) \<longleftrightarrow> p @ [i] \<in> H" "p @ [i] \<in> H \<Longrightarrow> large (wd s (t + 8 * i))"
    "view s T p i = (if p @ [i] \<in> H then wd s (t + 8 * i) else 0)"
    using assms(2,5) by (auto simp: links_def view_def split: if_splits)
qed

text \<open>The entries that lead to the tables of an address.\<close>

definition up :: "vmm \<Rightarrow> tree \<Rightarrow> u64 \<Rightarrow> nat \<Rightarrow> u64" where
  "up s T va n = link s T (take n (path va)) (path va ! n)"

lemma translate_view:
  fixes va :: u64
  assumes tab: "tables_ok H s T"
  defines "v n \<equiv> view s T (take n (path va)) ((path va @ [leaf_no va]) ! n)"
  shows "translate s va =
    (if present (v 1) then Some (2, v 1, effective [up s T va 0, v 1])
     else if present (v 2) then Some (1, v 2, effective [up s T va 0, up s T va 1, v 2])
     else if present (v 3) then Some (0, v 3, effective [up s T va 0, up s T va 1, up s T va 2, v 3]) else None)"
    "T (path va) = None \<longrightarrow> \<not> present (v 3)"
    "T (take 2 (path va)) = None \<longrightarrow> \<not> present (v 2)"
    "T (take 1 (path va)) = None \<longrightarrow> \<not> present (v 1)"
    "clear_of H va \<Longrightarrow> allowed_above R d s va \<longleftrightarrow>
       (if T (take 1 (path va)) = None then d else R (up s T va 0) \<and>
          (if T (take 2 (path va)) = None then d else R (up s T va 1) \<and>
             (if T (path va) = None then d else R (up s T va 2))))"
proof -
  obtain a b c d' where [simp]: "unat (PML4_IDX va) = a" "unat (PDPT_IDX va) = b" "unat (PD_IDX va) = c" "unat (PT_IDX va) = d'"
    and le: "a < 512" "b < 512" "c < 512" "d' < 512" using indices by blast
  have v: "v 1 = view s T [a] b" "v 2 = view s T [a, b] c" "v 3 = view s T [a, b, c] d'"
    and u: "up s T va 0 = link s T [] a" "up s T va 1 = link s T [a] b" "up s T va 2 = link s T [a, b] c"
    and pth: "path va = [a, b, c]" "take 1 (path va) = [a]" "take 2 (path va) = [a, b]"
    by (simp_all add: v_def path_def leaf_no_def up_def)
  let ?r = "unat (current_cr3 s)"
  have r: "T [] = Some ?r" by (rule tables_okD [OF tab])
  have H: "[a] \<notin> H" using tables_okD(1) [OF tab] by (auto simp: tree_ok_def)
  have cl: "[a, b] \<notin> H" "[a, b, c] \<notin> H" if "clear_of H va" using that by (simp_all add: clear_of_def pth)
  note none = tree_ok_None [OF tables_okD(1) [OF tab]]
  show "T (path va) = None \<longrightarrow> \<not> present (v 3)" "T (take 2 (path va)) = None \<longrightarrow> \<not> present (v 2)"
    "T (take 1 (path va)) = None \<longrightarrow> \<not> present (v 1)"
    unfolding pth v by (simp_all add: view_none)
  let ?T = "translate s va =
    (if present (v 1) then Some (2, v 1, effective [up s T va 0, v 1])
     else if present (v 2) then Some (1, v 2, effective [up s T va 0, up s T va 1, v 2])
     else if present (v 3) then Some (0, v 3, effective [up s T va 0, up s T va 1, up s T va 2, v 3]) else None)"
  let ?G = "allowed_above R d s va \<longleftrightarrow>
       (if T [a] = None then d else R (up s T va 0) \<and>
          (if T [a, b] = None then d else R (up s T va 1) \<and>
             (if T [a, b, c] = None then d else R (up s T va 2))))"
  have "?T \<and> (clear_of H va \<longrightarrow> ?G)"
  proof (cases "T [a]")
    case None
    then have "T [a, b] = None" "T [a, b, c] = None" using none [of "[a]" b] none [of "[a, b]" c] by auto
    then show ?thesis unfolding v using view_end [OF tab r _ le(1)] None H
      by (simp add: view_none translate_def allowed_above_def)
  next
    case (Some t1)
    note l1 = view_link [OF tab r _ le(1), simplified, OF Some]
    show ?thesis
    proof (cases "T [a, b]")
      case None
      then have "T [a, b, c] = None" using none [of "[a, b]" c] by auto
      then show ?thesis unfolding v u using view_end [OF tab Some _ le(2)] None l1 Some cl
        by (auto simp: view_none translate_def allowed_above_def Let_def)
    next
      case b: (Some t2)
      note l2 = view_link [OF tab Some _ le(2), simplified, OF b]
      show ?thesis
      proof (cases "T [a, b, c]")
        case None
        then show ?thesis unfolding v u using view_end [OF tab b _ le(3)] l1 l2 Some b cl
          by (auto simp: view_none translate_def allowed_above_def Let_def)
      next
        case c: (Some t3)
        note l3 = view_link [OF tab b _ le(3), simplified, OF c]
        have "T [a, b, c, d'] = None" using tree_okD(5) [OF tables_okD(1) [OF tab], of "[a, b, c, d']"] by fastforce
        then have v3: "view s T [a, b, c] d' = (if present (wd s (t3 + 8 * d')) then wd s (t3 + 8 * d') else 0)"
          using c by (simp add: view_def)
        show ?thesis unfolding v v3 u using l1 l2 l3 Some b c by (simp add: translate_def allowed_above_def Let_def)
      qed
    qed
  qed
  then show ?T "clear_of H va \<Longrightarrow> allowed_above R d s va \<longleftrightarrow>
       (if T (take 1 (path va)) = None then d else R (up s T va 0) \<and>
          (if T (take 2 (path va)) = None then d else R (up s T va 1) \<and>
             (if T (path va) = None then d else R (up s T va 2))))"
    unfolding pth(2,3) unfolding pth(1) by blast+
qed

section \<open>Mapping\<close>

text \<open>A step that may add tables and change no translation.\<close>

definition keeps :: "u64 \<Rightarrow> nat list set \<Rightarrow> vmm \<Rightarrow> tree \<Rightarrow> vmm \<Rightarrow> tree \<Rightarrow> bool" where
  "keeps flags H s T s' T' \<longleftrightarrow> mem_ok s' \<and> tables_ok H s' T' \<and> current_cr3 s' = current_cr3 s \<and> T \<subseteq>\<^sub>m T' \<and>
     links_kept flags s T s' T' \<and>
     (\<forall>q j. j < 512 \<longrightarrow> view s' T' q j = view s T q j)"

lemma links_kept_refl [simp]: "links_kept flags s T s T"
  by (simp add: links_kept_def)

lemma keeps_refl: "mem_ok s \<Longrightarrow> tables_ok H s T \<Longrightarrow> keeps flags H s T s T"
  by (simp add: keeps_def)

lemma keeps_trans: "keeps flags H s T s1 T1 \<Longrightarrow> keeps flags H s1 T1 s2 T2 \<Longrightarrow> keeps flags H s T s2 T2"
  unfolding keeps_def by (auto intro: map_le_trans links_kept_trans)

lemma high_va:
  assumes "0 < t" "t < HIGH"
  shows "pa_to_va (of_nat t) \<noteq> 0"
proof
  assume "pa_to_va (of_nat t) = 0"
  moreover have "unat (va_to_pa (pa_to_va (of_nat t))) = t" using deref [OF assms(2), of 0] by simp
  moreover have "va_to_pa 0 = 0" by (simp add: va_to_pa_def)
  ultimately show False using assms(1) by simp
qed

lemma get_or_create_ok:
  assumes ok: "mem_ok s" and tab: "tables_ok H s T" and T: "T p = Some t" and p: "length p < 3" "i < 512" "p @ [i] \<notin> H"
  shows "\<exists>r s' T'. get_or_create_table (pa_to_va (of_nat t)) (of_nat i) flags s = Some (r, s') \<and> keeps flags H s T s' T' \<and>
    (r = 0 \<longrightarrow> free_mem (phys s') = {}) \<and> (r \<noteq> 0 \<longrightarrow> (\<exists>u. T' (p @ [i]) = Some u \<and> r = pa_to_va (of_nat u)))"
proof -
  note tree = tables_okD(1) [OF tab]
  have e: "entry (pa_to_va (of_nat t)) (of_nat i) s = wd s (t + 8 * i)" by (rule entry_wd [OF tree_okD(2) [OF tree T] p(2)])
  show ?thesis
  proof (cases "T (p @ [i])")
    case (Some u)
    have "present (wd s (t + 8 * i))" "wd s (t + 8 * i) AND PAGE_ADDR_MASK = of_nat u"
      using tables_okD(3) [OF tab T p(1,2)] Some p(3) by (auto simp: links_def)
    then have "get_or_create_table (pa_to_va (of_nat t)) (of_nat i) flags s = Some (pa_to_va (of_nat u), s)"
      by (simp add: get_or_create_table_def e)
    moreover have "pa_to_va (of_nat u) \<noteq> 0" using high_va tree_okD(1,2) [OF tree Some] by blast
    ultimately show ?thesis using Some keeps_refl [OF ok tab] by (intro exI [of _ "pa_to_va (of_nat u)"] exI [of _ s] exI [of _ T]) simp
  next
    case None
    have np: "\<not> present (wd s (t + 8 * i))" using tables_okD(3) [OF tab T p(1,2)] None p(3) by (auto simp: links_def)
    obtain r ph where a: "pmm_alloc 1 (phys s) = Some (r, ph)"
      using pmm_alloc_ok [of "phys s" 1] ok by (auto simp: mem_ok_def)
    note al = alloc_page [OF ok a]
    show ?thesis
    proof (cases "r = 0")
      case True
      then have "get_or_create_table (pa_to_va (of_nat t)) (of_nat i) flags s = Some (0, s\<lparr>phys := ph\<rparr>)"
        using np a by (simp add: get_or_create_table_def e)
      moreover have "keeps flags H s T (s\<lparr>phys := ph\<rparr>) T"
        using al(1) alloc_tables [OF ok tab a] by (simp add: keeps_def)
      ultimately show ?thesis using al(5) True by (intro exI [of _ 0] exI [of _ "s\<lparr>phys := ph\<rparr>"] exI [of _ T]) simp
    next
      case False
      note n = new_table [OF ok tab T p(2,1) None p(3) a False, where flags = flags]
      have r: "r < HIGH" using al(4) False by blast
      then have "(of_nat r :: u64) \<noteq> 0" using False by (simp add: word_of_nat_eq_0_iff nat_dvd_not_less)
      then have "get_or_create_table (pa_to_va (of_nat t)) (of_nat i) flags s = Some (pa_to_va (of_nat r),
          set_entry (pa_to_va (of_nat t)) (of_nat i) (of_nat r OR PAGE_PRESENT OR PAGE_WRITE OR (flags AND PAGE_USER))
            (clear_page (pa_to_va (of_nat r)) (s\<lparr>phys := ph\<rparr>)))"
        using np a n(4) entry_wd [OF tree_okD(2) [OF tree T] p(2)] by (simp add: get_or_create_table_def e Let_def)
      moreover have "T \<subseteq>\<^sub>m T(p @ [i] \<mapsto> r)" using None by (auto simp: map_le_def)
      moreover have "pa_to_va (of_nat r) \<noteq> 0" using high_va False r by simp
      ultimately show ?thesis using n unfolding keeps_def by (intro exI conjI) (assumption | simp)+
    qed
  qed
qed


text \<open>A step that writes the single entry of the address \<open>va\<close>.\<close>

definition writes :: "u64 \<Rightarrow> nat list set \<Rightarrow> u64 \<Rightarrow> u64 \<Rightarrow> vmm \<Rightarrow> tree \<Rightarrow> vmm \<Rightarrow> tree \<Rightarrow> bool" where
  "writes flags H va v s T s' T' \<longleftrightarrow> mem_ok s' \<and> tables_ok H s' T' \<and> current_cr3 s' = current_cr3 s \<and> T \<subseteq>\<^sub>m T' \<and>
     links_kept flags s T s' T' \<and>
     (\<forall>q j. j < 512 \<longrightarrow> view s' T' q j = (if q = path va \<and> j = leaf_no va then v else view s T q j))"

lemma map_page_ok:
  assumes ok: "mem_ok s" and tab: "tables_ok H s T" and clear: "clear_of H va"
  shows "\<exists>b s' T'. map_page (pa_to_va (current_cr3 s)) pa va flags s = Some (b, s') \<and>
    (b \<longrightarrow> writes flags H va (pa OR flags OR PAGE_PRESENT) s T s' T') \<and> (\<not> b \<longrightarrow> free_mem (phys s') = {} \<and> keeps flags H s T s' T')"
proof -
  have "of_nat (unat w) = w" for w :: u64 by simp
  then obtain a b c d where i: "PML4_IDX va = of_nat a" "PDPT_IDX va = of_nat b" "PD_IDX va = of_nat c" "PT_IDX va = of_nat d"
    and le: "a < 512" "b < 512" "c < 512" "d < 512"
    using indices by metis
  have pth: "path va = [a, b, c]" "leaf_no va = d"
    using le by (simp_all add: path_def leaf_no_def i unat_of_nat take_bit_nat_eq_self)
  have H: "[a] \<notin> H" "[a, b] \<notin> H" "[a, b, c] \<notin> H"
    using clear tables_okD(1) [OF tab] by (auto simp: clear_of_def pth tree_ok_def)
  obtain r1 s1 T1 where g1: "get_or_create_table (pa_to_va (current_cr3 s)) (of_nat a) flags s = Some (r1, s1)" "keeps flags H s T s1 T1"
    "r1 = 0 \<longrightarrow> free_mem (phys s1) = {}" "r1 \<noteq> 0 \<longrightarrow> (\<exists>u. T1 [a] = Some u \<and> r1 = pa_to_va (of_nat u))"
    using get_or_create_ok [OF ok tab tables_okD(2) [OF tab] _ le(1), of flags] H by auto
  show ?thesis
  proof (cases "r1 = 0")
    case True
    then show ?thesis using g1 by (simp add: map_page_def i) blast
  next
    case False
    then obtain u1 where u1: "T1 [a] = Some u1" "r1 = pa_to_va (of_nat u1)" using g1(4) by auto
    have k1: "mem_ok s1" "tables_ok H s1 T1" using g1(2) by (simp_all add: keeps_def)
    obtain r2 s2 T2 where g2: "get_or_create_table r1 (of_nat b) flags s1 = Some (r2, s2)" "keeps flags H s1 T1 s2 T2"
      "r2 = 0 \<longrightarrow> free_mem (phys s2) = {}" "r2 \<noteq> 0 \<longrightarrow> (\<exists>u. T2 [a, b] = Some u \<and> r2 = pa_to_va (of_nat u))"
      using get_or_create_ok [OF k1 u1(1) _ le(2), of flags] H u1(2) by auto
    show ?thesis
    proof (cases "r2 = 0")
      case True
      then show ?thesis using False g1(1) g2 keeps_trans [OF g1(2) g2(2)] by (simp add: map_page_def i) blast
    next
      case n2: False
      then obtain u2 where u2: "T2 [a, b] = Some u2" "r2 = pa_to_va (of_nat u2)" using g2(4) by auto
      have k2: "mem_ok s2" "tables_ok H s2 T2" using g2(2) by (simp_all add: keeps_def)
      obtain r3 s3 T3 where g3: "get_or_create_table r2 (of_nat c) flags s2 = Some (r3, s3)" "keeps flags H s2 T2 s3 T3"
        "r3 = 0 \<longrightarrow> free_mem (phys s3) = {}" "r3 \<noteq> 0 \<longrightarrow> (\<exists>u. T3 [a, b, c] = Some u \<and> r3 = pa_to_va (of_nat u))"
        using get_or_create_ok [OF k2 u2(1) _ le(3), of flags] H u2(2) by auto
      have k: "keeps flags H s T s3 T3" using keeps_trans keeps_trans g1(2) g2(2) g3(2) by blast
      show ?thesis
      proof (cases "r3 = 0")
        case True
        then show ?thesis using False n2 g1(1) g2(1) g3 k by (simp add: map_page_def i) blast
      next
        case n3: False
        then obtain u3 where u3: "T3 [a, b, c] = Some u3" "r3 = pa_to_va (of_nat u3)" using g3(4) by auto
        have k3: "mem_ok s3" "tables_ok H s3 T3" using g3(2) by (simp_all add: keeps_def)
        let ?v = "pa OR flags OR PAGE_PRESENT"
        have p: "present ?v" by (simp add: present_bit bit_or_iff PAGE_PRESENT_def)
        have "T3 [a, b, c, d] = None" using tree_okD(5) [OF tables_okD(1) [OF k3(2)], of "[a, b, c, d]"] by fastforce
        then have "writes flags H va ?v s T (set_entry r3 (of_nat d) ?v s3) T3"
          using set_leaf [OF k3 u3(1) le(4), where v = ?v] k p unfolding u3(2) writes_def keeps_def pth
          by (auto intro: links_kept_trans)
        moreover have "map_page (pa_to_va (current_cr3 s)) pa va flags s = Some (True, set_entry r3 (of_nat d) ?v s3)"
          using False n2 n3 g1(1) g2(1) g3(1) by (simp add: map_page_def i)
        ultimately show ?thesis by (intro exI [of _ True]) auto
      qed
    qed
  qed
qed

section \<open>Pages\<close>

text \<open>The number of the page of an address, within the 48 bits that are translated.\<close>

definition page_no :: "u64 \<Rightarrow> nat" where
  "page_no va = unat va div 0x1000 mod 2 ^ 36"

lemma index_div: "unat (drop_bit k (va :: u64) AND 0x1FF) = unat va div 2 ^ k mod 512"
proof -
  have "(0x1FF :: u64) = mask 9" by (simp add: mask_eq_exp_minus_1)
  then have "drop_bit k va AND 0x1FF = take_bit 9 (drop_bit k va)" by (simp add: take_bit_eq_mask)
  then have "unat (drop_bit k va AND 0x1FF) = take_bit 9 (drop_bit k (unat va))"
    by (simp add: unat_drop_bit_eq nat_take_bit_eq unsigned_take_bit_eq)
  also have "\<dots> = unat va div 2 ^ k mod 512" by (simp only: take_bit_eq_mod drop_bit_eq_div) simp
  finally show ?thesis .
qed

lemma digits: "a < 512 \<Longrightarrow> b < 512 \<Longrightarrow> 512 * A + a = 512 * B + b \<longleftrightarrow> A = B \<and> a = (b :: nat)"
proof (intro iffI)
  assume le: "a < 512" "b < 512" and eq: "512 * A + a = 512 * B + b"
  have "(512 * A + a) mod 512 = a" "(512 * B + b) mod 512 = b" using le by simp_all
  then show "A = B \<and> a = b" using eq by simp
qed simp

lemma slot_page_no: "path va = path vb \<and> leaf_no va = leaf_no vb \<longleftrightarrow> page_no va = page_no vb"
proof -
  have eq: "page_no v = 512 * (512 * (512 * (x div 512 div 512 div 512 mod 512) + x div 512 div 512 mod 512) + x div 512 mod 512) + x mod 512"
    if "x = unat v div 0x1000" for v x
    unfolding page_no_def that [symmetric] using mod_mult2_eq [of x 512 "512 * (512 * 512)"]
      mod_mult2_eq [of "x div 512" 512 "512 * 512"] mod_mult2_eq [of "x div 512 div 512" 512 512] by simp
  have idx: "unat (PML4_IDX v) = x div 512 div 512 div 512 mod 512" "unat (PDPT_IDX v) = x div 512 div 512 mod 512"
    "unat (PD_IDX v) = x div 512 mod 512" "unat (PT_IDX v) = x mod 512" if "x = unat v div 0x1000" for v x
    by (simp_all add: PML4_IDX_def PDPT_IDX_def PD_IDX_def PT_IDX_def index_div that div_mult2_eq [symmetric])
  show ?thesis
    unfolding path_def leaf_no_def eq [OF refl, of va] eq [OF refl, of vb] idx [OF refl, of va] idx [OF refl, of vb]
    by (auto simp only: digits mod_less_divisor zero_less_numeral list.inject)
qed

lemma page_no_add: "page_no (va + of_nat i * PAGE_SIZE) = (unat va div 0x1000 + i) mod 2 ^ 36"
proof -
  have "unat (va + of_nat i * PAGE_SIZE) = (unat va + i * 0x1000) mod 2 ^ 64"
    by (simp add: PAGE_SIZE_def unat_word_ariths unat_of_nat take_bit_eq_mod mod_simps)
  also have "\<dots> div 0x1000 = (unat va + i * 0x1000) div 0x1000 mod 2 ^ 52"
    using mod_mult2_eq [of "unat va + i * 0x1000" "0x1000" "2 ^ 52"] by simp
  finally show ?thesis by (simp add: page_no_def mod_mod_cancel add.commute)
qed

lemma page_no_inj:
  assumes "page_no (va + of_nat i * PAGE_SIZE) = page_no (va + of_nat j * PAGE_SIZE)" "i < 2 ^ 36" "j < 2 ^ 36"
  shows "i = j"
proof -
  have eq: "(unat va div 0x1000 + i) mod 2 ^ 36 = (unat va div 0x1000 + j) mod 2 ^ 36" using assms(1) by (simp only: page_no_add)
  have "i - j = 0 \<and> j - i = 0"
  proof (cases "i \<le> j")
    case True
    then have "2 ^ 36 dvd j - i" using eq mod_eq_dvd_iff_nat [of "unat va div 0x1000 + i" "unat va div 0x1000 + j" "2 ^ 36"] by simp
    then show ?thesis using assms(3) True by (metis diff_is_0_eq dvd_imp_le le_less_trans less_imp_diff_less linorder_not_less not_gr_zero)
  next
    case False
    then have "2 ^ 36 dvd i - j" using eq mod_eq_dvd_iff_nat [of "unat va div 0x1000 + j" "unat va div 0x1000 + i" "2 ^ 36"] by simp
    then show ?thesis using assms(2) False by (metis diff_is_0_eq dvd_imp_le less_imp_diff_less linorder_not_less nat_le_linear not_gr_zero)
  qed
  then show ?thesis by simp
qed

lemma next_page: "va + PAGE_SIZE + of_nat i * PAGE_SIZE = va + of_nat (Suc i) * PAGE_SIZE"
  by (simp add: algebra_simps)

section \<open>Ranges of pages\<close>

text \<open>
  The effect of a loop over \<open>n\<close> pages from \<open>va\<close>: the entry of page \<open>i\<close> is \<open>f i\<close>, all others are as before.
\<close>

definition range_set :: "u64 \<Rightarrow> nat list set \<Rightarrow> nat \<Rightarrow> u64 \<Rightarrow> (nat \<Rightarrow> u64) \<Rightarrow> vmm \<Rightarrow> tree \<Rightarrow> vmm \<Rightarrow> tree \<Rightarrow> bool" where
  "range_set flags H n va f s T s' T' \<longleftrightarrow> mem_ok s' \<and> tables_ok H s' T' \<and> current_cr3 s' = current_cr3 s \<and> T \<subseteq>\<^sub>m T' \<and>
     links_kept flags s T s' T' \<and>
     (\<forall>i < n. view s' T' (path (va + of_nat i * PAGE_SIZE)) (leaf_no (va + of_nat i * PAGE_SIZE)) = f i) \<and>
     (\<forall>q j. j < 512 \<longrightarrow> (\<forall>i < n. q = path (va + of_nat i * PAGE_SIZE) \<longrightarrow> j \<noteq> leaf_no (va + of_nat i * PAGE_SIZE)) \<longrightarrow>
        view s' T' q j = view s T q j)"

lemma leaf_no_less [simp]: "leaf_no va < 512"
  by (simp add: leaf_no_def)

lemma range_set_0: "keeps flags H s T s' T' \<Longrightarrow> range_set flags H 0 va f s T s' T'"
  by (simp add: range_set_def keeps_def)

lemma range_set_Suc:
  assumes w: "writes flags H va (f 0) s T s1 T1" and r: "range_set flags H n (va + PAGE_SIZE) (\<lambda>i. f (Suc i)) s1 T1 s2 T2" and n: "Suc n \<le> 2 ^ 36"
  shows "range_set flags H (Suc n) va f s T s2 T2"
proof -
  have off: "\<not> (path va = path (va + of_nat (Suc i) * PAGE_SIZE) \<and> leaf_no va = leaf_no (va + of_nat (Suc i) * PAGE_SIZE))" if "i < n" for i
    using page_no_inj [of va 0 "Suc i"] that n unfolding slot_page_no by auto
  have v0: "view s2 T2 (path va) (leaf_no va) = f 0"
    using w r off unfolding range_set_def writes_def next_page by simp
  have "view s2 T2 (path (va + of_nat i * PAGE_SIZE)) (leaf_no (va + of_nat i * PAGE_SIZE)) = f i" if "i < Suc n" for i
    using that v0 r unfolding range_set_def next_page by (cases i) simp_all
  moreover have "view s2 T2 q j = view s T q j"
    if q: "j < 512" "\<forall>i < Suc n. q = path (va + of_nat i * PAGE_SIZE) \<longrightarrow> j \<noteq> leaf_no (va + of_nat i * PAGE_SIZE)" for q j
  proof -
    have "\<forall>i < n. q = path (va + of_nat (Suc i) * PAGE_SIZE) \<longrightarrow> j \<noteq> leaf_no (va + of_nat (Suc i) * PAGE_SIZE)" using q(2) by blast
    then have "view s2 T2 q j = view s1 T1 q j" using r q(1) unfolding range_set_def next_page by blast
    moreover have "\<not> (q = path va \<and> j = leaf_no va)" using q(2) [rule_format, of 0] by simp
    ultimately show ?thesis using w q(1) unfolding writes_def by auto
  qed
  ultimately show ?thesis using w r unfolding range_set_def writes_def by (auto intro: map_le_trans links_kept_trans)
qed

lemma mmap_loop_ok:
  assumes "mem_ok s" "tables_ok H s T" "\<forall>i < n. clear_of H (va + of_nat i * PAGE_SIZE)" "n \<le> 2 ^ 36" "cr = current_cr3 s"
  shows "\<exists>b s' T' k. mmap_loop n (pa_to_va cr) pa va flags s = Some (b, s') \<and> k \<le> n \<and>
    range_set flags H k va (\<lambda>i. (pa + of_nat i * PAGE_SIZE) OR flags OR PAGE_PRESENT) s T s' T' \<and>
    (if b then k = n else free_mem (phys s') = {})"
  using assms
proof (induction n arbitrary: pa va s T)
  case 0
  then show ?case using range_set_0 [OF keeps_refl] by fastforce
next
  case (Suc n)
  have clear: "clear_of H va" using Suc.prems(3) [rule_format, of 0] by simp
  obtain b s1 T1 where m: "map_page (pa_to_va cr) pa va flags s = Some (b, s1)"
    "b \<Longrightarrow> writes flags H va (pa OR flags OR PAGE_PRESENT) s T s1 T1" "\<not> b \<Longrightarrow> free_mem (phys s1) = {} \<and> keeps flags H s T s1 T1"
    using map_page_ok [OF Suc.prems(1,2) clear] Suc.prems(5) by blast
  show ?case
  proof (cases b)
    case False
    then show ?thesis using m(1) m(3) range_set_0 by fastforce
  next
    case True
    then have w: "mem_ok s1" "tables_ok H s1 T1" "cr = current_cr3 s1" using m(2) Suc.prems(5) unfolding writes_def by auto
    have "\<forall>i < n. clear_of H (va + PAGE_SIZE + of_nat i * PAGE_SIZE)" unfolding next_page using Suc.prems(3) by auto
    then obtain b' s2 T2 k where l: "mmap_loop n (pa_to_va cr) (pa + PAGE_SIZE) (va + PAGE_SIZE) flags s1 = Some (b', s2)" "k \<le> n"
      "range_set flags H k (va + PAGE_SIZE) (\<lambda>i. (pa + PAGE_SIZE + of_nat i * PAGE_SIZE) OR flags OR PAGE_PRESENT) s1 T1 s2 T2"
      "if b' then k = n else free_mem (phys s2) = {}"
      using Suc.IH [OF w(1,2) _ _ w(3), of "va + PAGE_SIZE" "pa + PAGE_SIZE"] Suc.prems(4) by fastforce
    have "range_set flags H (Suc k) va (\<lambda>i. (pa + of_nat i * PAGE_SIZE) OR flags OR PAGE_PRESENT) s T s2 T2"
      using range_set_Suc [of flags H va "\<lambda>i. (pa + of_nat i * PAGE_SIZE) OR flags OR PAGE_PRESENT" s T s1 T1 k s2 T2]
        m(2) True l(2,3) Suc.prems(4) unfolding next_page by simp
    moreover have "mmap_loop (Suc n) (pa_to_va cr) pa va flags s = Some (b', s2)" using m(1) True l(1) by simp
    ultimately show ?thesis using l(2,4) by (intro exI [of _ b'] exI [of _ s2] exI [of _ T2] exI [of _ "Suc k"]) auto
  qed
qed

section \<open>Unmapping\<close>

text \<open>What a look at an entry of a table says when no large page is there.\<close>

lemma entry_link:
  assumes "tables_ok H s T" "T p = Some t" "length p < 3" "i < 512" "p @ [i] \<notin> H"
  shows "present (entry (pa_to_va (of_nat t)) (of_nat i) s) \<longleftrightarrow> T (p @ [i]) \<noteq> None"
    "T (p @ [i]) = Some u \<Longrightarrow> entry (pa_to_va (of_nat t)) (of_nat i) s AND PAGE_ADDR_MASK = of_nat u"
proof -
  have "entry (pa_to_va (of_nat t)) (of_nat i) s = wd s (t + 8 * i)"
    using entry_wd [OF _ assms(4)] tree_okD(2) [OF tables_okD(1) [OF assms(1)] assms(2)] by blast
  then show "present (entry (pa_to_va (of_nat t)) (of_nat i) s) \<longleftrightarrow> T (p @ [i]) \<noteq> None"
    "T (p @ [i]) = Some u \<Longrightarrow> entry (pa_to_va (of_nat t)) (of_nat i) s AND PAGE_ADDR_MASK = of_nat u"
    using tables_okD(3) [OF assms(1-4)] assms(5) by (auto simp: links_def split: option.splits)
qed

lemma unmap_page_ok:
  assumes ok: "mem_ok s" and tab: "tables_ok H s T" and clear: "clear_of H va"
  shows "writes flags H va 0 s T (unmap_page va s) T"
proof -
  have "of_nat (unat w) = w" for w :: u64 by simp
  then obtain a b c d where i: "PML4_IDX va = of_nat a" "PDPT_IDX va = of_nat b" "PD_IDX va = of_nat c" "PT_IDX va = of_nat d"
    and le: "a < 512" "b < 512" "c < 512" "d < 512"
    using indices by metis
  have pth: "path va = [a, b, c]" "leaf_no va = d"
    using le by (simp_all add: path_def leaf_no_def i unat_of_nat take_bit_nat_eq_self)
  have H: "[a] \<notin> H" "[a, b] \<notin> H" "[a, b, c] \<notin> H"
    using clear tables_okD(1) [OF tab] by (auto simp: clear_of_def pth tree_ok_def)
  note none = tree_ok_None [OF tables_okD(1) [OF tab]]
  have absent: "writes flags H va 0 s T s T" if "T [a, b, c] = None"
    using ok tab that by (auto simp: writes_def pth view_none)
  note e1 = entry_link [OF tab tables_okD(2) [OF tab] _ le(1), simplified, OF H(1)]
  show ?thesis
  proof (cases "T [a]")
    case None
    then have "T [a, b, c] = None" using none [of "[a]" b] none [of "[a, b]" c] by simp
    moreover have "unmap_page va s = s" using e1 None by (simp add: unmap_page_def i)
        ultimately show ?thesis using absent by metis
  next
    case a: (Some t1)
    note e2 = entry_link [OF tab a _ le(2), simplified, OF H(2)]
    show ?thesis
    proof (cases "T [a, b]")
      case None
      then have "T [a, b, c] = None" using none [of "[a, b]" c] by simp
      moreover have "unmap_page va s = s" using e1 e2 a None by (simp add: unmap_page_def i)
        ultimately show ?thesis using absent by metis
    next
      case b: (Some t2)
      note e3 = entry_link [OF tab b _ le(3), simplified, OF H(3)]
      show ?thesis
      proof (cases "T [a, b, c]")
        case None
        then have "T [a, b, c] = None" .
        moreover have "unmap_page va s = s" using e1 e2 e3 a b None by (simp add: unmap_page_def i)
        ultimately show ?thesis using absent by metis
      next
        case c: (Some t3)
        have "T [a, b, c, d] = None" using tree_okD(5) [OF tables_okD(1) [OF tab], of "[a, b, c, d]"] by fastforce
        moreover have "unmap_page va s = set_entry (pa_to_va (of_nat t3)) (of_nat d) 0 s"
          using e1 e2 e3 a b c by (simp add: unmap_page_def i)
        ultimately show ?thesis using set_leaf [OF ok tab c le(4), where v = 0] unfolding writes_def pth by simp
      qed
    qed
  qed
qed

lemma munmap_loop_ok:
  assumes "mem_ok s" "tables_ok H s T" "\<forall>i < m. clear_of H (va + of_nat i * PAGE_SIZE)" "m \<le> 2 ^ 36"
    and "unat va + m * 0x1000 < 2 ^ 64" "unat e \<le> unat va + m * 0x1000" "m = 0 \<or> unat va + (m - 1) * 0x1000 < unat e"
  shows "\<exists>s'. munmap_loop va e s = Some s' \<and> range_set flags H m va (\<lambda>_. 0) s T s' T"
  using assms
proof (induction m arbitrary: va s)
  case 0
  then have "\<not> va < e" by (simp add: word_less_nat_alt)
  then show ?case using range_set_0 [OF keeps_refl] 0 by (simp add: munmap_loop.simps)
next
  case (Suc m)
  have clear: "clear_of H va" using Suc.prems(3) [rule_format, of 0] by simp
  note w = unmap_page_ok [OF Suc.prems(1,2) clear]
  have w': "mem_ok (unmap_page va s)" "tables_ok H (unmap_page va s) T" using w unfolding writes_def by auto
  have lt: "va < e" using Suc.prems(7) by (simp add: word_less_nat_alt)
  have u: "unat (va + PAGE_SIZE) = unat va + 0x1000"
    using Suc.prems(5) by (simp add: PAGE_SIZE_def unat_plus_if')
  have "\<forall>i < m. clear_of H (va + PAGE_SIZE + of_nat i * PAGE_SIZE)" unfolding next_page using Suc.prems(3) by auto
  then obtain s' where l: "munmap_loop (va + PAGE_SIZE) e (unmap_page va s) = Some s'"
    "range_set flags H m (va + PAGE_SIZE) (\<lambda>_. 0) (unmap_page va s) T s' T"
    using Suc.IH [OF w', of "va + PAGE_SIZE"] Suc.prems(4-7) unfolding u by (cases m) fastforce+
  then have "range_set flags H (Suc m) va (\<lambda>_. 0) s T s' T" using range_set_Suc [OF w l(2)] Suc.prems(4) by simp
  then show ?case using l(1) lt by (simp add: munmap_loop.simps [of va])
qed

section \<open>Translation after a loop\<close>

lemma view_clear:
  assumes "tables_ok H s T" "length p < 3" "i < 512" "p @ [i] \<notin> H"
  shows "view s T p i = 0"
proof (cases "T p")
  case (Some t)
  then show ?thesis using view_end(3) [OF assms(1) Some assms(2,3)] view_link(4) [OF assms(1) Some assms(2,3)] assms(4)
    by (cases "T (p @ [i])") auto
qed (simp add: view_none)

lemma up_kept:
  assumes "links_kept flags s T s' T'" "T (take (Suc k) (path v)) \<noteq> None" "T \<subseteq>\<^sub>m T'" "k < 3"
  shows "up s' T' v k = up s T v k"
proof -
  have "take (Suc k) (path v) = take k (path v) @ [path v ! k]" "path v ! k < 512"
    using assms(4) by (auto simp: path_def less_Suc_eq numeral_3_eq_3)
  moreover from this have "T' (take k (path v) @ [path v ! k]) \<noteq> None"
    using assms(2,3) by (metis domIff map_le_implies_dom_le subsetD)
  ultimately show ?thesis using assms(1,2) unfolding links_kept_def up_def by metis
qed

lemma up_new:
  assumes "links_kept flags s T s' T'" "T (take (Suc k) (path v)) = None" "T' (take (Suc k) (path v)) \<noteq> None" "k < 3"
  shows "new_link flags (up s' T' v k)"
proof -
  have "take (Suc k) (path v) = take k (path v) @ [path v ! k]" "path v ! k < 512"
    using assms(4) by (auto simp: path_def less_Suc_eq numeral_3_eq_3)
  then show ?thesis using assms(1-3) unfolding links_kept_def up_def by metis
qed

text \<open>The rights of the three entries above a page, old and new.\<close>

lemma rights_new:
  assumes k: "links_kept flags s T s' T'" "T \<subseteq>\<^sub>m T'" and tab: "tables_ok H s T" "tables_ok H s' T'" and clear: "clear_of H v"
    and leaf: "T' (path v) \<noteq> None" and R: "\<And>e. new_link flags e \<Longrightarrow> R e = d"
  shows "R (up s' T' v 0) \<and> R (up s' T' v 1) \<and> R (up s' T' v 2) \<longleftrightarrow> allowed_above R d s v"
proof -
  have p: "path v = take 2 (path v) @ [path v ! 2]" "take 2 (path v) = take 1 (path v) @ [path v ! 1]"
    by (simp_all add: path_def)
  have up': "T' (take 2 (path v)) \<noteq> None" "T' (take 1 (path v)) \<noteq> None"
    using leaf tree_ok_None [OF tables_okD(1) [OF tab(2)]] p by metis+
  have down: "T (take 1 (path v)) = None \<longrightarrow> T (take 2 (path v)) = None" "T (take 2 (path v)) = None \<longrightarrow> T (path v) = None"
    using tree_ok_None [OF tables_okD(1) [OF tab(1)]] p by metis+
  have t3: "take (Suc 2) (path v) = path v" "take (Suc 1) (path v) = take 2 (path v)" by (simp_all add: path_def)
  note old = up_kept [OF k(1) _ k(2), of 0 v] up_kept [OF k(1) _ k(2), of 1 v] up_kept [OF k(1) _ k(2), of 2 v]
  note new = up_new [OF k(1), of 0 v] up_new [OF k(1), of 1 v] up_new [OF k(1), of 2 v]
  have u: "R (up s' T' v 0) = (if T (take 1 (path v)) = None then d else R (up s T v 0))"
    "R (up s' T' v 1) = (if T (take 2 (path v)) = None then d else R (up s T v 1))"
    "R (up s' T' v 2) = (if T (path v) = None then d else R (up s T v 2))"
    using old new R up' leaf unfolding t3 by auto
  show ?thesis unfolding u translate_view(5) [OF tab(1) clear] using down by auto
qed

text \<open>The access of a page with the entry \<open>e\<close>, under the tables of \<open>s\<close> and those that \<open>mmap\<close> adds.\<close>

definition page_access :: "u64 \<Rightarrow> vmm \<Rightarrow> u64 \<Rightarrow> u64 \<Rightarrow> access" where
  "page_access flags s va e = Access (bit e 1 \<and> allowed_above (\<lambda>e. bit e 1) True s va)
     (bit e 2 \<and> allowed_above (\<lambda>e. bit e 2) (bit flags 2) s va) (\<not> bit e 63 \<and> allowed_above (\<lambda>e. \<not> bit e 63) True s va)"

lemma range_set_translate:
  assumes r: "range_set flags H n va f s T s' T'" and tab: "tables_ok H s T" and clear: "\<forall>i < n. clear_of H (va + of_nat i * PAGE_SIZE)"
  shows "i < n \<Longrightarrow> translate s' (va + of_nat i * PAGE_SIZE) =
      (if present (f i) then Some (0, f i, page_access flags s (va + of_nat i * PAGE_SIZE) (f i)) else None)"
    "(\<forall>i < n. page_no v \<noteq> page_no (va + of_nat i * PAGE_SIZE)) \<Longrightarrow> translate s' v = translate s v"
proof -
  have tab': "tables_ok H s' T'" and k: "links_kept flags s T s' T'" "T \<subseteq>\<^sub>m T'" using r by (simp_all add: range_set_def)
  {
    assume i: "i < n"
    let ?v = "va + of_nat i * PAGE_SIZE"
    have cl: "clear_of H ?v" using clear i by blast
    then have "view s' T' (take 1 (path ?v)) ((path ?v @ [leaf_no ?v]) ! 1) = 0" "view s' T' (take 2 (path ?v)) ((path ?v @ [leaf_no ?v]) ! 2) = 0"
      using view_clear [OF tab'] by (simp_all add: clear_of_def path_def)
    moreover have v3: "view s' T' (take 3 (path ?v)) ((path ?v @ [leaf_no ?v]) ! 3) = f i"
      using r i by (simp add: range_set_def path_def)
    ultimately have t: "translate s' ?v = (if present (f i) then
        Some (0, f i, effective [up s' T' ?v 0, up s' T' ?v 1, up s' T' ?v 2, f i]) else None)"
      using translate_view(1) [OF tab', of ?v] by simp
    have "effective [up s' T' ?v 0, up s' T' ?v 1, up s' T' ?v 2, f i] = page_access flags s ?v (f i)" if "present (f i)"
    proof -
      have "T' (path ?v) \<noteq> None" using translate_view(2) [OF tab', of ?v] v3 that by auto
      note rn = rights_new [OF k tab tab' cl this]
      show ?thesis
        unfolding effective_def page_access_def using rn [of "\<lambda>e. bit e 1" True]
          rn [of "\<lambda>e. bit e 2" "bit flags 2"] rn [of "\<lambda>e. \<not> bit e 63" True]
        by (auto simp: new_link_def)
    qed
    then show "translate s' ?v = (if present (f i) then Some (0, f i, page_access flags s ?v (f i)) else None)"
      using t by simp
  }
  assume v: "\<forall>i < n. page_no v \<noteq> page_no (va + of_nat i * PAGE_SIZE)"
  have same: "view s' T' q j = view s T q j" if "j < 512" "q = path v \<longrightarrow> j = leaf_no v" "length q < 3 \<or> q = path v" for q j
  proof -
    have "q = path (va + of_nat i * PAGE_SIZE) \<longrightarrow> j \<noteq> leaf_no (va + of_nat i * PAGE_SIZE)" if "i < n" for i
      using v that slot_page_no [of v "va + of_nat i * PAGE_SIZE"] \<open>q = path v \<longrightarrow> j = leaf_no v\<close> \<open>length q < 3 \<or> q = path v\<close>
      by (auto simp: path_def)
    then show ?thesis using r that(1) unfolding range_set_def by blast
  qed
  have w: "view s' T' (take k (path v)) ((path v @ [leaf_no v]) ! k) = view s T (take k (path v)) ((path v @ [leaf_no v]) ! k)"
    if "k = 1 \<or> k = 2 \<or> k = 3" for k
    using that by (intro same) (auto simp: path_def)
  have p: "path v = take 2 (path v) @ [path v ! 2]" "take 2 (path v) = take 1 (path v) @ [path v ! 1]"
    by (simp_all add: path_def)
  have down: "T (path v) \<noteq> None \<longrightarrow> T (take 2 (path v)) \<noteq> None" "T (take 2 (path v)) \<noteq> None \<longrightarrow> T (take 1 (path v)) \<noteq> None"
    using tree_ok_None [OF tables_okD(1) [OF tab]] p by metis+
  have t3: "take (Suc 2) (path v) = path v" "take (Suc 1) (path v) = take 2 (path v)" "take (Suc 0) (path v) = take 1 (path v)"
    by (simp_all add: path_def)
  note old = up_kept [OF k(1) _ k(2), of 0 v, unfolded t3] up_kept [OF k(1) _ k(2), of 1 v, unfolded t3] up_kept [OF k(1) _ k(2), of 2 v, unfolded t3]
  note wk = w [OF disjI1 [OF refl]] w [OF disjI2 [OF disjI1 [OF refl]]] w [OF disjI2 [OF disjI2 [OF refl]]]
  show "translate s' v = translate s v"
    unfolding translate_view(1) [OF tab'] translate_view(1) [OF tab] wk
    using translate_view(2-4) [OF tab, of v] old down by (intro if_cong refl) auto
qed

section \<open>Properties\<close>

text \<open>
  C14: \<open>mmap\<close> maps what it is asked to map and nothing else. In a state whose tables are a tree of pages outside the free memory, for
  a range of pages on whose walk there is no large page, \<open>mmap\<close> returns, with the tree and the allocator in order.
  When it does not run out of memory, the processor translates the page \<open>i\<close> of the range to the entry with the physical address
  \<open>paddr + i * PAGE_SIZE\<close> and the flags (with the user flag in the lower half), and grants the access that this
  entry asks for as far as the tables that were there before do: the tables that are added are writable,
  executable, and open to the user exactly when the flags are. When it gives up, no free memory is left.
  No address outside the range is translated differently, or with other rights, than before.
\<close>

theorem mmap_translates:
  assumes "mem_ok s" "tables_ok H s T" "\<forall>i < n. clear_of H (vaddr + of_nat i * PAGE_SIZE)" "n \<le> 2 ^ 36"
  shows "\<exists>r s' T'. mmap paddr vaddr n flags s = Some (r, s') \<and> mem_ok s' \<and> tables_ok H s' T' \<and> T \<subseteq>\<^sub>m T' \<and>
    (r = vaddr \<and>
       (\<forall>i < n. let va = vaddr + of_nat i * PAGE_SIZE;
                    fl = (if vaddr < 0x800000000000 then flags OR PAGE_USER else flags);
                    e = (paddr + of_nat i * PAGE_SIZE) OR fl OR PAGE_PRESENT
                in translate s' va = Some (0, e,
                     Access (bit e 1 \<and> allowed_above (\<lambda>e. bit e 1) True s va)
                       (bit e 2 \<and> allowed_above (\<lambda>e. bit e 2) (bit fl 2) s va)
                       (\<not> bit e 63 \<and> allowed_above (\<lambda>e. \<not> bit e 63) True s va))) \<or>
     r = 0 \<and> free_mem (phys s') = {}) \<and>
    (\<forall>v. (\<forall>i < n. page_no v \<noteq> page_no (vaddr + of_nat i * PAGE_SIZE)) \<longrightarrow> translate s' v = translate s v)"
proof -
  let ?flags = "if vaddr < 0x800000000000 then flags OR PAGE_USER else flags"
  let ?e = "\<lambda>i. (paddr + of_nat i * PAGE_SIZE) OR ?flags OR PAGE_PRESENT"
  obtain b s' T' k where l: "mmap_loop n (pa_to_va (current_cr3 s)) paddr vaddr ?flags s = Some (b, s')" "k \<le> n"
    "range_set ?flags H k vaddr ?e s T s' T'"
    "if b then k = n else free_mem (phys s') = {}"
    using mmap_loop_ok [OF assms refl] by blast
  have m: "mmap paddr vaddr n flags s = Some (if b then vaddr else 0, s')" using l(1) unfolding mmap_def Let_def by simp
  have clear: "\<forall>i < k. clear_of H (vaddr + of_nat i * PAGE_SIZE)" using assms(3) l(2) by auto
  have p: "present (?e i)" for i
    by (simp add: present_bit bit_or_iff PAGE_PRESENT_def)
  note t = range_set_translate [OF l(3) assms(2) clear]
  have "\<forall>i < n. translate s' (vaddr + of_nat i * PAGE_SIZE) =
      Some (0, ?e i, page_access ?flags s (vaddr + of_nat i * PAGE_SIZE) (?e i))" if b
    using t(1) p that l(4) by simp
  moreover have "\<forall>v. (\<forall>i < n. page_no v \<noteq> page_no (vaddr + of_nat i * PAGE_SIZE)) \<longrightarrow> translate s' v = translate s v"
    using t(2) l(2) by (meson less_le_trans)
  moreover have "mem_ok s'" "tables_ok H s' T'" "T \<subseteq>\<^sub>m T'" using l(3) by (simp_all add: range_set_def)
  ultimately show ?thesis using l(4) m unfolding Let_def page_access_def
    by (intro exI [of _ "if b then vaddr else 0"] exI [of _ s'] exI [of _ T']) auto
qed

lemma munmap_ok:
  assumes "mem_ok s" "tables_ok H s T" "\<forall>i < (n + 0xFFF) div 0x1000. clear_of H (vaddr + of_nat i * PAGE_SIZE)" "n \<le> 2 ^ 48"
    and "unat vaddr + n \<le> 2 ^ 64 - 0x1000"
  shows "\<exists>s'. munmap vaddr n s = Some s' \<and> mem_ok s' \<and> tables_ok H s' T \<and>
    (\<forall>i < (n + 0xFFF) div 0x1000. translate s' (vaddr + of_nat i * PAGE_SIZE) = None) \<and>
    (\<forall>v. (\<forall>i < (n + 0xFFF) div 0x1000. page_no v \<noteq> page_no (vaddr + of_nat i * PAGE_SIZE)) \<longrightarrow> translate s' v = translate s v)"
proof -
  let ?m = "(n + 0xFFF) div 0x1000"
  have m: "?m \<le> 2 ^ 36" "n \<le> ?m * 0x1000" "?m = 0 \<or> (?m - 1) * 0x1000 < n" "?m * 0x1000 \<le> n + 0xFFF" using assms(4) by (simp_all, linarith+)
  have "unat (of_nat n :: u64) = n" using assms(5) by (simp add: unat_of_nat take_bit_nat_eq_self)
  then have e: "unat (vaddr + of_nat n) = unat vaddr + n" using assms(5) by (simp add: unat_plus_if')
  obtain s' where l: "munmap_loop vaddr (vaddr + of_nat n) s = Some s'" "range_set 0 H ?m vaddr (\<lambda>_. 0) s T s' T"
    using munmap_loop_ok [OF assms(1-3) m(1), of "vaddr + of_nat n"] m assms(5) unfolding e by fastforce
  note t = range_set_translate [OF l(2) assms(2,3)]
  have "mem_ok s'" "tables_ok H s' T" using l(2) by (simp_all add: range_set_def)
  then show ?thesis using l(1) t by (intro exI [of _ s']) (simp add: munmap_def)
qed

text \<open>
  C15: \<open>munmap\<close> ends and unmaps. For a range that does not reach the last page of the address space, in such a state, the loop returns; the
  pages at \<open>vaddr\<close>, \<open>vaddr + PAGE_SIZE\<close>, ... below \<open>vaddr + n\<close> are no longer translated, every other address is
  translated as before, and tables and allocator are in order. The size counts bytes.
\<close>

theorem munmap_unmaps:
  assumes "mem_ok s" "tables_ok H s T" "\<forall>i < (n + 0xFFF) div 0x1000. clear_of H (vaddr + of_nat i * PAGE_SIZE)" "n \<le> 2 ^ 48"
    and "unat vaddr + n \<le> 2 ^ 64 - 0x1000"
  shows "\<exists>s'. munmap vaddr n s = Some s' \<and> mem_ok s' \<and> tables_ok H s' T \<and>
    (\<forall>i < (n + 0xFFF) div 0x1000. translate s' (vaddr + of_nat i * PAGE_SIZE) = None) \<and>
    (\<forall>v. (\<forall>i < (n + 0xFFF) div 0x1000. page_no v \<noteq> page_no (vaddr + of_nat i * PAGE_SIZE)) \<longrightarrow> translate s' v = translate s v)"
  using assms by (rule munmap_ok)

text \<open>A state for the witnesses: the tables consist of an empty root at \<open>0x10000\<close>.\<close>

definition demo_phys :: pmm where
  "demo_phys = \<lparr>nxt = (\<lambda>_. 0),
     segtab = [\<lparr>base_ptr = 0x100000, seg_size = 0x5000, pages_used = 0,
                free_list = (replicate 16 0)[Suc (Suc 0) := 0x100000], max_order = Suc (Suc 0)\<rparr>],
     total_mem = 5, num_used = 0, num_errors = 0\<rparr>"

definition demo_vmm :: vmm where
  "demo_vmm = vmm_initialise 0x10000 \<lparr>phys = demo_phys, kernel_cr3 = 0, current_cr3 = 0\<rparr>"

lemma demo_phys_boot: "pmm_initialise (\<lambda>t. t = 0) demo_map (\<lambda>_. 0) = Some demo_phys"
  by (simp add: demo_phys_def pmm_initialise_def demo_map_def skip_low_def add64_def add_segment_def add_block_def
      order_within.simps FREE_LISTS_def max_segtab_def fun_eq_iff)

lemma demo_vmm_ok:
  "mem_ok demo_vmm" "tables_ok {} demo_vmm [[] \<mapsto> 0x10000]" "free_mem (phys demo_vmm) = {0x100000 ..< 0x104000}"
proof -
  have p: "pmm_inv demo_phys" "free_mem demo_phys = {0x100000 ..< 0x104000}"
    using pmm_initialise_ok [OF demo_map_ok, of "\<lambda>_. 0"] demo_phys_boot by (auto simp: demo_phys_def bsize_def)
  then show "free_mem (phys demo_vmm) = {0x100000 ..< 0x104000}" "mem_ok demo_vmm"
    by (auto simp: demo_vmm_def vmm_initialise_def mem_ok_def) (simp_all add: demo_phys_def)
  show "tables_ok {} demo_vmm [[] \<mapsto> 0x10000]"
    using p(2) by (auto simp: tables_ok_def tree_ok_def links_def wd_def demo_vmm_def vmm_initialise_def page_def present_def demo_phys_def
        split: if_splits)
qed

lemma demo_allowed_above: "allowed_above R d demo_vmm va = d"
  by (simp add: allowed_above_def demo_vmm_def vmm_initialise_def demo_phys_def wd_def)

theorem mmap_translates_witness:
  "\<exists>r s'. mmap 0x7000 0x400000 1 PAGE_WRITE demo_vmm = Some (r, s') \<and>
     (r = 0x400000 \<and> translate s' 0x400000 = Some (0, 0x7007, Access True True True) \<or> r = 0 \<and> free_mem (phys s') = {}) \<and>
     translate s' 0x401000 = translate demo_vmm 0x401000"
proof -
  have c: "\<forall>i < 1. clear_of {} (0x400000 + of_nat i * PAGE_SIZE)" by (simp add: clear_of_def)
  have f: "PAGE_WRITE OR PAGE_USER OR PAGE_PRESENT = 7" "page_no 0x401000 \<noteq> page_no 0x400000"
    by (simp_all add: PAGE_WRITE_def PAGE_USER_def PAGE_PRESENT_def page_no_def)
  from mmap_translates [OF demo_vmm_ok(1,2) c, where paddr = "0x7000" and flags = PAGE_WRITE] f show ?thesis
    by (simp add: PAGE_WRITE_def PAGE_USER_def PAGE_PRESENT_def demo_allowed_above) blast
qed

theorem munmap_unmaps_witness:
  "\<exists>s'. munmap 0x400000 0x1001 demo_vmm = Some s' \<and> mem_ok s' \<and> translate s' 0x401000 = None"
proof -
  have c: "\<forall>i < (0x1001 + 0xFFF :: nat) div 0x1000. clear_of {} (0x400000 + of_nat i * PAGE_SIZE)" by (simp add: clear_of_def)
  obtain s' where s: "munmap 0x400000 0x1001 demo_vmm = Some s'" "mem_ok s'"
    "\<forall>i < (0x1001 + 0xFFF :: nat) div 0x1000. translate s' (0x400000 + of_nat i * PAGE_SIZE) = None"
    using munmap_unmaps [OF demo_vmm_ok(1,2) c] by auto
  from s(3) [rule_format, of 1] have "translate s' 0x401000 = None" by (simp add: PAGE_SIZE_def)
  with s(1,2) show ?thesis by blast
qed

text \<open>
  allocation of virtual pages. The block that \<open>vmm::alloc\<close> returns lies in the direct map and \<open>vmm::free\<close> with that pointer gives
  back exactly the memory that was taken. But the result is never the null pointer: when the physical memory manager fails, it
  is the address of the direct map of physical address 0.
\<close>

theorem vmm_alloc_free:
  assumes "mem_ok s"
  shows "\<exists>p s1. vmm_alloc n s = Some (p, s1) \<and> p \<noteq> 0 \<and> pmm_inv (phys s1) \<and>
    (p = 0xFFFF800000000000 \<longrightarrow> free_mem (phys s1) = free_mem (phys s)) \<and>
    (p \<noteq> 0xFFFF800000000000 \<longrightarrow> blk (alloc_order n) (unat (va_to_pa p)) \<subseteq> free_mem (phys s) \<and>
       (\<exists>s2. vmm_free p n s1 = Some s2 \<and> pmm_inv (phys s2) \<and> free_mem (phys s2) = free_mem (phys s)))"
proof -
  have inv: "pmm_inv (phys s)" using assms by (simp add: mem_ok_def)
  obtain r ph where a: "pmm_alloc n (phys s) = Some (r, ph)" "pmm_inv ph"
    "r = 0 \<longrightarrow> free_mem ph = free_mem (phys s)" "r \<noteq> 0 \<longrightarrow> blk (alloc_order n) r \<subseteq> free_mem (phys s)"
    using pmm_alloc_ok [OF inv, of n] by blast
  have v: "vmm_alloc n s = Some (pa_to_va (of_nat r), s\<lparr>phys := ph\<rparr>)" using a(1) by (simp add: vmm_alloc_def)
  show ?thesis
  proof (cases "r = 0")
    case True
    then have "pa_to_va (of_nat r) = 0xFFFF800000000000" by (simp add: pa_to_va_def)
    then show ?thesis using v a(2,3) True by simp
  next
    case False
    have "r \<in> free_mem (phys s)" using a(4) False in_blk by blast
    then have r: "0 < r" "r < HIGH" using assms by (auto simp: mem_ok_def)
    then have d: "unat (va_to_pa (pa_to_va (of_nat r))) = r" using deref [of r 0] by simp
    then have "pa_to_va (of_nat r) \<noteq> 0xFFFF800000000000" using r(1) by (auto simp: va_to_pa_def)
    moreover obtain ph2 where "pmm_free r n ph = Some ph2" "pmm_inv ph2" "free_mem ph2 = free_mem (phys s)"
      using pm.alloc_release [OF inv a(1) False] by blast
    then have "vmm_free (pa_to_va (of_nat r)) n (s\<lparr>phys := ph\<rparr>) = Some (s\<lparr>phys := ph2\<rparr>)" "pmm_inv ph2" "free_mem ph2 = free_mem (phys s)"
      using d by (simp_all add: vmm_free_def)
    ultimately show ?thesis using v a(2,4) False high_va [OF r] d by (intro exI conjI) (assumption | simp)+
  qed
qed

theorem vmm_alloc_free_witness:
  "\<exists>p s1. vmm_alloc 0x1000 demo_vmm = Some (p, s1) \<and> p \<noteq> 0 \<and> pmm_inv (phys s1)"
  using vmm_alloc_free [OF demo_vmm_ok(1), where n = "0x1000"] by blast

lemma below_top: "v < 2 ^ 64 \<Longrightarrow> v \<le> 2 ^ 64 - 0x1000 + v mod 0x1000" for v :: nat
proof -
  assume "v < 2 ^ 64"
  then have "v div 0x1000 < 2 ^ 52" by (simp add: less_mult_imp_div_less)
  then have "v div 0x1000 \<le> 2 ^ 52 - 1" by simp
  then have "v div 0x1000 * 0x1000 \<le> 2 ^ 64 - 0x1000" by simp
  then show ?thesis using div_mult_mod_eq [of v "0x1000"] by linarith
qed

lemma steps_to_top:
  "v < 2 ^ 64 \<Longrightarrow> v + (2 ^ 52 - 1 - v div 0x1000) * 0x1000 = 2 ^ 64 - 0x1000 + v mod 0x1000" for v :: nat
proof -
  assume "v < 2 ^ 64"
  then have "v div 0x1000 < 2 ^ 52" by (simp add: less_mult_imp_div_less)
  then have "(2 ^ 52 - 1 - v div 0x1000) * 0x1000 + v div 0x1000 * 0x1000 = 2 ^ 64 - 0x1000"
    unfolding add_mult_distrib [symmetric] by simp
  then show ?thesis using div_mult_mod_eq [of v "0x1000"] by linarith
qed

lemma munmap_loop_ends:
  "unat va + k * 0x1000 = 2 ^ 64 - 0x1000 + r \<Longrightarrow> r < 0x1000 \<Longrightarrow> unat e \<le> 2 ^ 64 - 0x1000 + r \<Longrightarrow> munmap_loop va e s \<noteq> None"
proof (induction k arbitrary: va s)
  case 0
  then have "\<not> va < e" by (simp add: word_less_nat_alt)
  then show ?case by (simp add: munmap_loop.simps [of va])
next
  case (Suc k)
  have "unat (va + PAGE_SIZE) = unat va + 0x1000" using Suc.prems(1,2) by (simp add: PAGE_SIZE_def unat_plus_if')
  then have "munmap_loop (va + PAGE_SIZE) e s' \<noteq> None" for s'
    using Suc.prems by (intro Suc.IH) simp_all
  then show ?case by (cases "va < e") (simp_all add: munmap_loop.simps [of va])
qed

lemma munmap_loop_diverges:
  assumes "2 ^ 64 - 0x1000 + unat va mod 0x1000 < unat e"
  shows "munmap_loop va e s = None"
proof -
  have "\<not> 2 ^ 64 - 0x1000 + unat va mod 0x1000 < unat e" if "munmap_loop va e s = Some s'" for va e s s'
  proof (rule munmap_loop.raw_induct [OF _ that, where P = "\<lambda>va e s s'. \<not> 2 ^ 64 - 0x1000 + unat va mod 0x1000 < unat e"])
    fix f va e s s'
    assume 1: "\<And>va e s s'. f va e s = Some s' \<Longrightarrow> \<not> 2 ^ 64 - 0x1000 + unat va mod 0x1000 < unat e"
      "(if va < e then f (va + PAGE_SIZE) e (unmap_page va s) else Some s) = Some s'"
    have "unat (va + PAGE_SIZE) = (unat va + 0x1000) mod (0x1000 * 2 ^ 52)"
      by (simp add: PAGE_SIZE_def unat_word_ariths)
    then have m: "unat (va + PAGE_SIZE) mod 0x1000 = unat va mod 0x1000"
      by (simp add: mod_mod_cancel)
    have "unat va < 2 ^ 64" using unsigned_less [of va] by simp
    then have "unat va \<le> 2 ^ 64 - 0x1000 + unat va mod 0x1000" by (rule below_top)
    then show "\<not> 2 ^ 64 - 0x1000 + unat va mod 0x1000 < unat e"
      using 1(1) [of "va + PAGE_SIZE" e "unmap_page va s" s'] 1(2) unfolding m
      by (auto simp: word_less_nat_alt split: if_splits)
  qed
  then show ?thesis using assms by (cases "munmap_loop va e s") auto
qed

text \<open>
  C16: when \<open>munmap\<close> never returns. The loop runs on exactly when the end \<open>vaddr + n\<close>, as the code computes it with wrap-around,
  lies beyond the last address of the address space that steps of a page from \<open>vaddr\<close> reach: for a page-aligned
  range, when it ends inside of the last page. The address then wraps around to 0 and the comparison with the end never
  fails. Every other call returns, one whose end wraps around to 0 at once and without unmapping anything.
\<close>

theorem munmap_top_diverges:
  "(munmap vaddr n s = None \<longleftrightarrow> 2 ^ 64 - 0x1000 + unat vaddr mod 0x1000 < (unat vaddr + n) mod 2 ^ 64) \<and>
   (unat vaddr + n = 2 ^ 64 \<longrightarrow> munmap vaddr n s = Some s)"
proof -
  let ?e = "vaddr + of_nat n"
  have e: "unat ?e = (unat vaddr + n) mod 2 ^ 64" by (simp add: unat_word_ariths unat_of_nat take_bit_eq_mod mod_simps)
  have lt: "unat vaddr < 2 ^ 64" using unsigned_less [of vaddr] by simp
  have "munmap_loop vaddr ?e s \<noteq> None" if "\<not> 2 ^ 64 - 0x1000 + unat vaddr mod 0x1000 < unat ?e"
  proof (rule munmap_loop_ends)
    show "unat vaddr + (2 ^ 52 - 1 - unat vaddr div 0x1000) * 0x1000 = 2 ^ 64 - 0x1000 + unat vaddr mod 0x1000"
      using lt by (rule steps_to_top)
  qed (use that in auto)
  then have "munmap vaddr n s = None \<longleftrightarrow> 2 ^ 64 - 0x1000 + unat vaddr mod 0x1000 < (unat vaddr + n) mod 2 ^ 64"
    unfolding munmap_def e [symmetric] using munmap_loop_diverges [of vaddr ?e s] by blast
  moreover have "munmap vaddr n s = Some s" if "unat vaddr + n = 2 ^ 64"
  proof -
    have "?e = 0" using e that by (simp add: unat_eq_zero)
    then show ?thesis by (simp add: munmap_def munmap_loop.simps)
  qed
  ultimately show ?thesis by blast
qed

theorem munmap_top_diverges_witness:
  "munmap 0xFFFFFFFFFFFFF000 0xFFF demo_vmm = None \<and> munmap 0xFFFFFFFFFFFFF000 0x1000 demo_vmm = Some demo_vmm"
  using munmap_top_diverges [of "0xFFFFFFFFFFFFF000" "0xFFF" demo_vmm] munmap_top_diverges [of "0xFFFFFFFFFFFFF000" "0x1000" demo_vmm]
  by simp

end
