(* ===== verification/Liballoc.thy ===== *)
theory Liballoc
  imports Prelude "HOL-Library.Monad_Syntax"
begin

text \<open>
  The heap allocator \<open>extra/liballoc/liballoc.c\<close>: blocks with boundary tags, cut from runs of pages.

  The memory that holds the tags is one map for each field of \<open>struct boundary_tag\<close>, from a tag's address; the payload is
  the map \<open>bytes\<close>. Addresses are natural numbers below 2 to the 64. The functions \<open>liballoc_alloc\<close> and \<open>liballoc_free\<close> that
  the allocator expects from its environment are the record \<open>hooks\<close>, over a state \<open>sys\<close> of theirs. Locking
  is the environment's, too, and has no effect here. \<open>None\<close> is undefined behaviour, an index out of bounds or a write to
  the null pointer, or a loop that does not end.
\<close>

section \<open>State\<close>

definition LIBALLOC_MAGIC :: nat where "LIBALLOC_MAGIC = 0xc001c0de"
definition MAXCOMPLETE :: int where "MAXCOMPLETE = 5"
definition MAXEXP :: nat where "MAXEXP = 32"
definition MINEXP :: nat where "MINEXP = 8"
definition l_pageSize :: nat where "l_pageSize = 4096"
definition l_pageCount :: nat where "l_pageCount = 16"

text \<open>\<^verbatim>\<open>sizeof(struct boundary_tag)\<close>: four words of 32 bits and four pointers.\<close>

definition TAG :: nat where "TAG = 48"

record 'w heap =
  magic :: "nat \<Rightarrow> nat"
  tsize :: "nat \<Rightarrow> nat"
  real_size :: "nat \<Rightarrow> nat"
  index :: "nat \<Rightarrow> int"
  split_left :: "nat \<Rightarrow> nat"
  split_right :: "nat \<Rightarrow> nat"
  tnext :: "nat \<Rightarrow> nat"
  tprev :: "nat \<Rightarrow> nat"
  bytes :: "nat \<Rightarrow> u8"
  l_freePages :: "nat list"
  l_completePages :: "int list"
  l_initialized :: bool
  sys :: 'w

record 'w hooks =
  liballoc_alloc :: "nat \<Rightarrow> 'w \<Rightarrow> (nat \<times> 'w) option"
  liballoc_free :: "nat \<Rightarrow> nat \<Rightarrow> 'w \<Rightarrow> 'w option"

text \<open>\<^verbatim>\<open>(unsigned int)\<close> of an unsigned value, and the difference of two such values.\<close>

definition cast32 :: "nat \<Rightarrow> nat" where
  "cast32 n = n mod 2 ^ 32"

definition sub32 :: "nat \<Rightarrow> nat \<Rightarrow> nat" where
  "sub32 a b = nat ((int a - int b) mod 2 ^ 32)"

section \<open>Helper functions\<close>

function getexp_loop :: "nat \<Rightarrow> nat \<Rightarrow> nat" where
  "getexp_loop n shift =
     (if shift < MAXEXP then if 2 ^ shift > n then shift else getexp_loop n (shift + 1) else shift)"
  by pat_completeness auto
termination
  by (relation "measure (\<lambda>(n, shift). MAXEXP - shift)") auto

declare getexp_loop.simps [simp del]

definition getexp :: "nat \<Rightarrow> int" where
  "getexp n = (if n < 2 ^ MINEXP then - 1 else int (getexp_loop n MINEXP) - 1)"

definition liballoc_memset :: "nat \<Rightarrow> u8 \<Rightarrow> nat \<Rightarrow> 'w heap \<Rightarrow> 'w heap" where
  "liballoc_memset s c n = for_up 0 n (\<lambda>i h. h\<lparr>bytes := (bytes h)(s + i := c)\<rparr>)"

text \<open>Words of four bytes first, then the rest. A word is read before it is written.\<close>

definition copy_word :: "nat \<Rightarrow> nat \<Rightarrow> 'w heap \<Rightarrow> 'w heap" where
  "copy_word d s h = h\<lparr>bytes := (bytes h)(d := bytes h s, d + 1 := bytes h (s + 1), d + 2 := bytes h (s + 2), d + 3 := bytes h (s + 3))\<rparr>"

fun copy_words :: "nat \<Rightarrow> nat \<Rightarrow> nat \<Rightarrow> 'w heap \<Rightarrow> nat \<times> nat \<times> nat \<times> 'w heap" where
  "copy_words d s n h =
     (if n \<ge> 4 then copy_words (d + 4) (s + 4) (n - 4) (copy_word d s h) else (d, s, n, h))"

declare copy_words.simps [simp del]

fun copy_bytes :: "nat \<Rightarrow> nat \<Rightarrow> nat \<Rightarrow> 'w heap \<Rightarrow> 'w heap" where
  "copy_bytes d s 0 h = h"
| "copy_bytes d s (Suc n) h = copy_bytes (d + 1) (s + 1) n (h\<lparr>bytes := (bytes h)(d := bytes h s)\<rparr>)"

definition liballoc_memcpy :: "nat \<Rightarrow> nat \<Rightarrow> nat \<Rightarrow> 'w heap \<Rightarrow> 'w heap" where
  "liballoc_memcpy s1 s2 n h = (let (d, s, n, h) = copy_words s1 s2 n h in copy_bytes d s n h)"

text \<open>The index at which a free tag of the given real size belongs.\<close>

definition list_index :: "nat \<Rightarrow> int" where
  "list_index r = (let e = getexp (sub32 r TAG) in if e < int MINEXP then int MINEXP else e)"

definition insert_tag :: "nat \<Rightarrow> int \<Rightarrow> 'w heap \<Rightarrow> 'w heap option" where
  "insert_tag tag idx h =
     (let real = (if idx < 0 then list_index (real_size h tag) else idx) in
      if real \<ge> int MAXEXP then None
      else
        let r = nat real;
            h = h\<lparr>index := (index h)(tag := real)\<rparr>;
            head = l_freePages h ! r;
            h = (if head \<noteq> 0 then h\<lparr>tprev := (tprev h)(head := tag), tnext := (tnext h)(tag := head)\<rparr> else h)
        in Some (h\<lparr>l_freePages := (l_freePages h)[r := tag]\<rparr>))"

definition remove_tag :: "nat \<Rightarrow> 'w heap \<Rightarrow> 'w heap option" where
  "remove_tag tag h =
     (if index h tag < 0 \<or> index h tag \<ge> int MAXEXP then None
      else
        let i = nat (index h tag);
            h = (if l_freePages h ! i = tag then h\<lparr>l_freePages := (l_freePages h)[i := tnext h tag]\<rparr> else h);
            h = (if tprev h tag \<noteq> 0 then h\<lparr>tnext := (tnext h)(tprev h tag := tnext h tag)\<rparr> else h);
            h = (if tnext h tag \<noteq> 0 then h\<lparr>tprev := (tprev h)(tnext h tag := tprev h tag)\<rparr> else h)
        in Some (h\<lparr>tnext := (tnext h)(tag := 0), tprev := (tprev h)(tag := 0), index := (index h)(tag := - 1)\<rparr>))"

definition melt_left :: "nat \<Rightarrow> 'w heap \<Rightarrow> nat \<times> 'w heap" where
  "melt_left tag h =
     (let left = split_left h tag;
          h = h\<lparr>real_size := (real_size h)(left := cast32 (real_size h left + real_size h tag))\<rparr>;
          h = h\<lparr>split_right := (split_right h)(left := split_right h tag)\<rparr>;
          h = (if split_right h tag \<noteq> 0 then h\<lparr>split_left := (split_left h)(split_right h tag := left)\<rparr> else h)
      in (left, h))"

definition absorb_right :: "nat \<Rightarrow> 'w heap \<Rightarrow> 'w heap option" where
  "absorb_right tag h = do {
     let right = split_right h tag;
     h \<leftarrow> remove_tag right h;
     let h = h\<lparr>real_size := (real_size h)(tag := cast32 (real_size h tag + real_size h right))\<rparr>;
     let h = h\<lparr>split_right := (split_right h)(tag := split_right h right)\<rparr>;
     Some (if split_right h right \<noteq> 0 then h\<lparr>split_left := (split_left h)(split_right h right := tag)\<rparr> else h)
   }"

definition split_tag :: "nat \<Rightarrow> 'w heap \<Rightarrow> 'w heap option" where
  "split_tag tag h =
     (let remainder = sub32 (real_size h tag) (TAG + tsize h tag);
          new_tag = cast32 tag + TAG + tsize h tag;
          h = h\<lparr>magic := (magic h)(new_tag := LIBALLOC_MAGIC)\<rparr>;
          h = h\<lparr>real_size := (real_size h)(new_tag := remainder)\<rparr>;
          h = h\<lparr>tnext := (tnext h)(new_tag := 0), tprev := (tprev h)(new_tag := 0)\<rparr>;
          h = h\<lparr>split_left := (split_left h)(new_tag := tag)\<rparr>;
          h = h\<lparr>split_right := (split_right h)(new_tag := split_right h tag)\<rparr>;
          h = (if split_right h new_tag \<noteq> 0 then h\<lparr>split_left := (split_left h)(split_right h new_tag := new_tag)\<rparr> else h);
          h = h\<lparr>split_right := (split_right h)(tag := new_tag)\<rparr>;
          h = h\<lparr>real_size := (real_size h)(tag := sub32 (real_size h tag) (real_size h new_tag))\<rparr>
      in insert_tag new_tag (- 1) h)"

section \<open>Allocation\<close>

text \<open>The number of pages for a size: rounded up, and at least the minimum.\<close>

definition pages_for :: "nat \<Rightarrow> nat" where
  "pages_for usage =
     (let pages = usage div l_pageSize + (if usage mod l_pageSize \<noteq> 0 then 1 else 0)
      in if pages < l_pageCount then l_pageCount else pages)"

definition allocate_new_tag :: "'w hooks \<Rightarrow> nat \<Rightarrow> 'w heap \<Rightarrow> (nat \<times> 'w heap) option" where
  "allocate_new_tag hk sz h = do {
     let pages = pages_for (cast32 (sz + TAG));
     (tag, w) \<leftarrow> liballoc_alloc hk pages (sys h);
     let h = h\<lparr>sys := w\<rparr>;
     Some (if tag = 0 then (0, h)
           else (tag, h\<lparr>magic := (magic h)(tag := LIBALLOC_MAGIC), tsize := (tsize h)(tag := sz),
                      real_size := (real_size h)(tag := cast32 (pages * l_pageSize)), index := (index h)(tag := - 1),
                      tnext := (tnext h)(tag := 0), tprev := (tprev h)(tag := 0),
                      split_left := (split_left h)(tag := 0), split_right := (split_right h)(tag := 0)\<rparr>))
   }"

text \<open>The search along a list for a tag with room for the size and another tag; 0 when there is none.\<close>

partial_function (option) find_tag :: "nat \<Rightarrow> 'w heap \<Rightarrow> nat \<Rightarrow> nat option" where
  "find_tag sz h tag =
     (if tag = 0 then Some 0
      else if sub64 (real_size h tag) TAG \<ge> add64 sz TAG then Some tag
      else find_tag sz h (tnext h tag))"

definition initialise :: "'w heap \<Rightarrow> 'w heap" where
  "initialise h =
     (if l_initialized h then h
      else h\<lparr>l_freePages := replicate MAXEXP 0, l_completePages := replicate MAXEXP 0, l_initialized := True\<rparr>)"

definition add_complete :: "nat \<Rightarrow> int \<Rightarrow> 'w heap \<Rightarrow> 'w heap" where
  "add_complete i d h = h\<lparr>l_completePages := (l_completePages h)[i := l_completePages h ! i + d]\<rparr>"

definition take_tag :: "nat \<Rightarrow> nat \<Rightarrow> 'w heap \<Rightarrow> 'w heap option" where
  "take_tag i tag h = do {
     h \<leftarrow> remove_tag tag h;
     Some (if split_left h tag = 0 \<and> split_right h tag = 0 then add_complete i (- 1) h else h)
   }"

text \<open>The end of \<open>malloc\<close>: the excess of the tag becomes a tag of its own when it is worth it.\<close>

definition carve :: "nat \<Rightarrow> nat \<Rightarrow> 'w heap \<Rightarrow> (nat \<times> 'w heap) option" where
  "carve sz tag h = do {
     let h = h\<lparr>tsize := (tsize h)(tag := cast32 sz)\<rparr>;
     let remainder = sub32 (real_size h tag) (sz + 2 * TAG);
     h \<leftarrow> (if 0 < remainder \<and> remainder < 2 ^ 31 \<and> getexp remainder \<ge> 0 then split_tag tag h else Some h);
     Some (cast32 tag + TAG, h)
   }"

definition malloc :: "'w hooks \<Rightarrow> nat \<Rightarrow> 'w heap \<Rightarrow> (nat \<times> 'w heap) option" where
  "malloc hk sz h = do {
     let h = initialise h;
     let i = (let e = getexp (cast32 sz) in if e < int MINEXP then MINEXP else nat e);
     tag \<leftarrow> find_tag sz h (l_freePages h ! i);
     if tag = 0 then do {
       (tag, h) \<leftarrow> allocate_new_tag hk (cast32 sz) h;
       if tag = 0 then Some (0, h) else carve sz tag h
     }
     else do {
       h \<leftarrow> take_tag i tag h;
       carve sz tag h
     }
   }"

section \<open>Release\<close>

partial_function (option) melt_left_loop :: "nat \<Rightarrow> 'w heap \<Rightarrow> (nat \<times> 'w heap) option" where
  "melt_left_loop tag h =
     (if split_left h tag \<noteq> 0 \<and> index h (split_left h tag) \<ge> 0 then do {
        let (tag, h) = melt_left tag h;
        h \<leftarrow> remove_tag tag h;
        melt_left_loop tag h
      }
      else Some (tag, h))"

partial_function (option) melt_right_loop :: "nat \<Rightarrow> 'w heap \<Rightarrow> 'w heap option" where
  "melt_right_loop tag h =
     (if split_right h tag \<noteq> 0 \<and> index h (split_right h tag) \<ge> 0 then do {
        h \<leftarrow> absorb_right tag h;
        melt_right_loop tag h
      }
      else Some h)"

definition release :: "'w hooks \<Rightarrow> nat \<Rightarrow> 'w heap \<Rightarrow> 'w heap option" where
  "release hk tag h =
     (let i = list_index (real_size h tag) in
      if i \<ge> int MAXEXP then None
      else if split_left h tag = 0 \<and> split_right h tag = 0 then
        if l_completePages h ! nat i = MAXCOMPLETE then do {
          w \<leftarrow> liballoc_free hk tag (pages_for (real_size h tag)) (sys h);
          Some (h\<lparr>sys := w\<rparr>)
        }
        else insert_tag tag i (add_complete (nat i) 1 h)
      else insert_tag tag i h)"

definition free :: "'w hooks \<Rightarrow> nat \<Rightarrow> 'w heap \<Rightarrow> 'w heap option" where
  "free hk ptr h =
     (if ptr = 0 then Some h
      else let tag = sub64 (cast32 ptr) TAG in
      if magic h tag \<noteq> LIBALLOC_MAGIC then Some h
      else do {
        (tag, h) \<leftarrow> melt_left_loop tag h;
        h \<leftarrow> melt_right_loop tag h;
        release hk tag h
      })"

section \<open>Clearing and resizing\<close>

text \<open>
  Sizes are kept in an \<open>int\<close> for a while; a negative one becomes a huge \<open>size_t\<close> again. Writing to the null pointer, and the loop of
  \<open>liballoc_memset\<close> whose counter is an \<open>int\<close>, are undefined then.
\<close>

definition int_size :: "nat \<Rightarrow> nat" where
  "int_size n = (let r = cast32 n in if r < 2 ^ 31 then r else r + 2 ^ 64 - 2 ^ 32)"

definition calloc :: "'w hooks \<Rightarrow> nat \<Rightarrow> nat \<Rightarrow> 'w heap \<Rightarrow> (nat \<times> 'w heap) option" where
  "calloc hk nobj sz h = do {
     let n = int_size (nobj * sz);
     (p, h) \<leftarrow> malloc hk n h;
     if (p = 0 \<and> 0 < n) \<or> n \<ge> 2 ^ 31 then None
     else Some (p, liballoc_memset p 0 n h)
   }"

definition realloc :: "'w hooks \<Rightarrow> nat \<Rightarrow> nat \<Rightarrow> 'w heap \<Rightarrow> (nat \<times> 'w heap) option" where
  "realloc hk p sz h =
     (if sz = 0 then do { h \<leftarrow> free hk p h; Some (0, h) }
      else if p = 0 then malloc hk sz h
      else do {
        let old = int_size (tsize h (sub64 (cast32 p) TAG));
        let n = (if old > sz then int_size sz else old);
        (ptr, h) \<leftarrow> malloc hk sz h;
        if ptr = 0 \<and> 0 < n then None
        else do {
          h \<leftarrow> free hk p (liballoc_memcpy ptr p n h);
          Some (ptr, h)
        }
      })"

end
