(* ===== verification/Liballoc_Heap.thy ===== *)
theory Liballoc_Heap
  imports Liballoc
begin

text \<open>
  The invariant of the heap allocator. Every run of pages is covered by tags that are linked from left to right, the free tags
  are in doubly linked lists by the exponent of their size, and no two free tags are neighbours.
\<close>

section \<open>Doubly linked lists\<close>

fun dlist :: "(nat \<Rightarrow> nat) \<Rightarrow> (nat \<Rightarrow> nat) \<Rightarrow> nat \<Rightarrow> nat \<Rightarrow> nat list \<Rightarrow> bool" where
  "dlist nx pv q p [] \<longleftrightarrow> p = 0"
| "dlist nx pv q p (a # as) \<longleftrightarrow> p = a \<and> a \<noteq> 0 \<and> pv a = q \<and> dlist nx pv a (nx a) as"

lemma dlist_cong:
  "(\<And>a. a \<in> set xs \<Longrightarrow> nx' a = nx a \<and> pv' a = pv a) \<Longrightarrow> dlist nx' pv' q p xs = dlist nx pv q p xs"
  by (induction xs arbitrary: p q) auto

lemma dlist_nonzero: "dlist nx pv q p xs \<Longrightarrow> 0 \<notin> set xs"
  by (induction xs arbitrary: p q) auto

lemma dlist_unique: "dlist nx pv q p xs \<Longrightarrow> dlist nx pv' q' p ys \<Longrightarrow> xs = ys"
proof (induction xs arbitrary: q p q' ys)
  case Nil
  then show ?case by (cases ys) auto
next
  case (Cons a as)
  then show ?case by (cases ys) auto
qed

lemma dlist_suffix: "dlist nx pv q p (as @ bs) \<Longrightarrow> \<exists>q' p'. dlist nx pv q' p' bs"
  by (induction as arbitrary: q p) auto

lemma dlist_distinct: "dlist nx pv q p xs \<Longrightarrow> distinct xs"
proof (induction xs arbitrary: q p)
  case (Cons a as)
  have "a \<notin> set as"
  proof
    assume "a \<in> set as"
    then obtain ys zs where as: "as = ys @ a # zs" by (meson split_list)
    have "dlist nx pv q p ((a # ys) @ a # zs)" using Cons.prems as by simp
    from dlist_suffix [OF this] obtain q' p' where "dlist nx pv q' p' (a # zs)" by blast
    then have "dlist nx pv q' a (a # zs)" by simp
    moreover have "dlist nx pv q a (a # as)" using Cons.prems by simp
    ultimately have "a # zs = a # as" by (rule dlist_unique)
    then show False using as by simp
  qed
  moreover have "dlist nx pv a (nx a) as" using Cons.prems by simp
  ultimately show ?case using Cons.IH by simp
qed simp

lemma dlist_at:
  assumes "dlist nx pv q p (as @ t # bs)"
  shows "pv t = (if as = [] then q else last as)" "nx t = (if bs = [] then 0 else hd bs)"
    "p = (if as = [] then t else hd as)" "t \<noteq> 0"
proof -
  have "pv t = last (q # as) \<and> t \<noteq> 0"
    using assms
  proof (induction as arbitrary: q p)
    case (Cons a as)
    then have "dlist nx pv a (nx a) (as @ t # bs)" by simp
    from Cons.IH [OF this] show ?case by simp
  qed simp
  then show "pv t = (if as = [] then q else last as)" "t \<noteq> 0" by simp_all
  obtain q' p' where "dlist nx pv q' p' (t # bs)" using dlist_suffix [OF assms] by blast
  then show "nx t = (if bs = [] then 0 else hd bs)" by (cases bs) auto
  show "p = (if as = [] then t else hd as)" using assms by (cases as) auto
qed

text \<open>Putting an element in front.\<close>

lemma dlist_push:
  assumes "dlist nx pv 0 p xs" "t \<notin> set xs" "t \<noteq> 0" "pv t = 0" "p = 0 \<Longrightarrow> nx t = 0"
  shows "dlist (if p \<noteq> 0 then nx(t := p) else nx) (if p \<noteq> 0 then pv(p := t) else pv) 0 t (t # xs)"
proof (cases xs)
  case Nil
  then show ?thesis using assms by auto
next
  case (Cons a as)
  then have "distinct xs" using dlist_distinct [OF assms(1)] by simp
  then have "dlist (nx(t := a)) (pv(a := t)) a (nx a) as = dlist nx pv a (nx a) as"
    using assms(2) Cons by (intro dlist_cong) auto
  then show ?thesis using assms Cons by auto
qed

text \<open>Taking one out, and putting one behind another.\<close>

lemma dlist_delete:
  assumes "dlist nx pv q p (as @ t # bs)" "q \<notin> set (as @ t # bs)" "0 \<notin> set (as @ t # bs)"
  shows "dlist (if pv t \<noteq> 0 then nx(pv t := nx t) else nx) (if nx t \<noteq> 0 then pv(nx t := pv t) else pv) q
    (if as = [] then nx t else p) (as @ bs)"
  using assms
proof (induction as arbitrary: q p)
  case Nil
  then show ?case
  proof (cases bs)
    case (Cons b bs')
    have "distinct (t # bs)" using dlist_distinct Nil.prems(1) by fastforce
    then have "dlist (if pv t \<noteq> 0 then nx(pv t := nx t) else nx) (pv(b := pv t)) b (nx b) bs' = dlist nx pv b (nx b) bs'"
      using Nil.prems Cons by (intro dlist_cong) auto
    moreover have "nx t = b" "b \<noteq> 0" "pv t = q" "b \<noteq> q" "dlist nx pv b (nx b) bs'" using Nil.prems Cons by auto
    ultimately show ?thesis using Cons by (simp del: fun_upd_apply add: fun_upd_same fun_upd_other split: if_splits)
  qed auto
next
  case (Cons a as)
  let ?nx = "if pv t \<noteq> 0 then nx(pv t := nx t) else nx"
  let ?pv = "if nx t \<noteq> 0 then pv(nx t := pv t) else pv"
  have d: "distinct (a # as @ t # bs)" using dlist_distinct [OF Cons.prems(1)] by simp
  have IH: "dlist ?nx ?pv a (if as = [] then nx t else nx a) (as @ bs)"
    using Cons.IH [of a "nx a"] Cons.prems d by auto
  have at: "pv t = last (a # as)" "nx t = (if bs = [] then 0 else hd bs)"
    using dlist_at [OF Cons.prems(1)] by auto
  have "?pv a = pv a" using d at(2) by (cases bs) auto
  moreover have "?nx a = (if as = [] then nx t else nx a)" using d at(1) Cons.prems(3) by (cases as rule: rev_cases) auto
  ultimately show ?case using IH Cons.prems(1) by simp
qed

lemma dlist_insert:
  assumes "dlist nx pv q p (as @ t # bs)" "n \<notin> set (as @ t # bs)" "n \<noteq> 0"
  shows "dlist (nx(n := nx t, t := n)) (if nx t \<noteq> 0 then pv(n := t, nx t := n) else pv(n := t)) q p (as @ t # n # bs)"
  using assms
proof (induction as arbitrary: q p)
  case Nil
  have d: "distinct (t # bs)" using dlist_distinct Nil.prems(1) by fastforce
  show ?case
  proof (cases bs)
    case (Cons b bs')
    have "dlist (nx(n := nx t, t := n)) (pv(n := t, b := n)) b (nx b) bs' = dlist nx pv b (nx b) bs'"
      using Nil.prems d Cons by (intro dlist_cong) auto
    moreover have "p = t" "t \<noteq> 0" "pv t = q" "nx t = b" "b \<noteq> 0" "b \<noteq> t" "n \<noteq> t" "n \<noteq> b" "n \<noteq> 0" "dlist nx pv b (nx b) bs'"
      using Nil.prems d Cons by auto
    ultimately show ?thesis using Cons by (simp del: fun_upd_apply add: fun_upd_same fun_upd_other)
  qed (use Nil d in auto)
next
  case (Cons a as)
  have "distinct (a # as @ t # bs)" using dlist_distinct [OF Cons.prems(1)] by simp
  moreover have "nx t = (if bs = [] then 0 else hd bs)" using dlist_at(2) [of nx pv q p "a # as" t bs] Cons.prems(1) by simp
  ultimately show ?case using Cons.IH [of a "nx a"] Cons.prems by (cases bs) auto
qed

section \<open>Tags that cover a run of memory\<close>

fun covers :: "(nat \<Rightarrow> nat) \<Rightarrow> nat \<Rightarrow> nat list \<Rightarrow> nat \<Rightarrow> bool" where
  "covers rs p [] e \<longleftrightarrow> p = e"
| "covers rs p (a # as) e \<longleftrightarrow> p = a \<and> TAG \<le> rs a \<and> covers rs (a + rs a) as e"

lemma covers_cong: "(\<And>a. a \<in> set xs \<Longrightarrow> rs' a = rs a) \<Longrightarrow> covers rs' p xs e = covers rs p xs e"
  by (induction xs arbitrary: p) auto

lemma covers_le: "covers rs p xs e \<Longrightarrow> p \<le> e"
  by (induction xs arbitrary: p) (auto, fastforce)

lemma covers_range: "covers rs p xs e \<Longrightarrow> a \<in> set xs \<Longrightarrow> p \<le> a \<and> a + rs a \<le> e \<and> TAG \<le> rs a"
proof (induction xs arbitrary: p)
  case (Cons b xs)
  then show ?case using covers_le [of rs "b + rs b" xs e] by fastforce
qed simp

lemma covers_append: "covers rs p (as @ bs) e \<longleftrightarrow> (\<exists>m. covers rs p as m \<and> covers rs m bs e)"
  by (induction as arbitrary: p) auto

lemma covers_disjoint:
  assumes "covers rs p xs e" "a \<in> set xs" "b \<in> set xs" "a \<noteq> b"
  shows "{a ..< a + rs a} \<inter> {b ..< b + rs b} = {}"
  using assms
proof (induction xs arbitrary: p)
  case (Cons c xs)
  have c: "covers rs (c + rs c) xs e" using Cons.prems(1) by simp
  show ?case
  proof (cases "a = c \<or> b = c")
    case True
    then show ?thesis using Cons.prems covers_range [OF c] by fastforce
  next
    case False
    then show ?thesis using Cons.IH [OF c] Cons.prems by auto
  qed
qed simp

lemma covers_merge:
  assumes "covers rs p (as @ l # t # bs) e" "distinct (as @ l # t # bs)"
  shows "covers (rs(l := rs l + rs t)) p (as @ l # bs) e"
proof -
  have eq: "covers (rs(l := rs l + rs t)) q ys m = covers rs q ys m" if "l \<notin> set ys" for q ys m
    using that by (intro covers_cong) auto
  show ?thesis using assms by (auto simp: covers_append eq add.assoc)
qed

lemma covers_split:
  assumes "covers rs p (as @ t # bs) e" "distinct (as @ t # bs)" "TAG \<le> k" "k + TAG \<le> rs t" "n = t + k" "n \<notin> set (as @ t # bs)"
  shows "covers (rs(n := rs t - k, t := k)) p (as @ t # n # bs) e"
proof -
  have eq: "covers (rs(t + k := rs t - k, t := k)) q ys m = covers rs q ys m" if "t \<notin> set ys" "t + k \<notin> set ys" for q ys m
    using that by (intro covers_cong) auto
  show ?thesis using assms unfolding assms(5) by (auto simp: covers_append eq)
qed

section \<open>Exponents\<close>

lemma getexp_loop_le: "shift \<le> 32 \<Longrightarrow> getexp_loop n shift \<le> 32 \<and> shift \<le> getexp_loop n shift"
proof (induction n shift rule: getexp_loop.induct)
  case (1 n shift)
  then show ?case by (subst (1 2) getexp_loop.simps) (auto simp: MAXEXP_def)
qed

lemma getexp_bounds: "- 1 \<le> getexp n" "getexp n \<le> 31"
  using getexp_loop_le [of 8 n] by (auto simp: getexp_def MINEXP_def)

lemma getexp_small: "getexp n < 0 \<longleftrightarrow> n < 256"
proof -
  have "getexp_loop n 8 > 8" if "n \<ge> 256"
    using that getexp_loop_le [of 9 n] by (subst getexp_loop.simps) (auto simp: MAXEXP_def)
  then show ?thesis by (auto simp: getexp_def MINEXP_def)
qed

lemma list_index_bounds: "8 \<le> list_index r" "list_index r < 32"
  using getexp_bounds(2) [of "sub32 r TAG"] by (auto simp: list_index_def MINEXP_def Let_def)

section \<open>The invariant\<close>

text \<open>
  A chunk is a run of pages, as the addresses of the tags that cover it and its end.
\<close>

type_synonym chunk = "nat list \<times> nat"

fun extent :: "chunk \<Rightarrow> nat set" where
  "extent (xs, e) = {hd xs ..< e}"

definition all_tags :: "chunk set \<Rightarrow> nat set" where
  "all_tags C = (\<Union>c \<in> C. set (fst c))"

fun chunk_ok :: "(nat \<Rightarrow> nat) \<Rightarrow> (nat \<Rightarrow> nat) \<Rightarrow> (nat \<Rightarrow> nat) \<Rightarrow> chunk \<Rightarrow> bool" where
  "chunk_ok sl sr rs (xs, e) \<longleftrightarrow> xs \<noteq> [] \<and> dlist sr sl 0 (hd xs) xs \<and> covers rs (hd xs) xs e \<and> 0 < hd xs \<and> e < 2 ^ 32 \<and>
     0x1000 dvd e - hd xs \<and> 0x10000 \<le> e - hd xs"

definition blocks_ok :: "(nat \<Rightarrow> nat) \<Rightarrow> (nat \<Rightarrow> nat) \<Rightarrow> (nat \<Rightarrow> nat) \<Rightarrow> chunk set \<Rightarrow> bool" where
  "blocks_ok sl sr rs C \<longleftrightarrow> (\<forall>c \<in> C. chunk_ok sl sr rs c) \<and> (\<forall>c \<in> C. \<forall>d \<in> C. c \<noteq> d \<longrightarrow> extent c \<inter> extent d = {})"

definition lists_ok :: "(nat \<Rightarrow> nat) \<Rightarrow> (nat \<Rightarrow> nat) \<Rightarrow> nat list \<Rightarrow> (nat \<Rightarrow> int) \<Rightarrow> nat set \<Rightarrow> bool" where
  "lists_ok nx pv fp ix T \<longleftrightarrow> length fp = MAXEXP \<and>
     (\<forall>i < MAXEXP. \<exists>xs. dlist nx pv 0 (fp ! i) xs \<and> set xs = {t \<in> T. ix t = int i})"

definition tags_ok ::
  "(nat \<Rightarrow> nat) \<Rightarrow> (nat \<Rightarrow> nat) \<Rightarrow> (nat \<Rightarrow> nat) \<Rightarrow> (nat \<Rightarrow> int) \<Rightarrow> (nat \<Rightarrow> nat) \<Rightarrow> (nat \<Rightarrow> nat) \<Rightarrow> nat set \<Rightarrow> bool" where
  "tags_ok mg nx pv ix rs sr T \<longleftrightarrow> (\<forall>t \<in> T. mg t = LIBALLOC_MAGIC \<and>
     (ix t = - 1 \<and> nx t = 0 \<and> pv t = 0 \<or> ix t = list_index (rs t) \<and> (sr t \<noteq> 0 \<longrightarrow> ix (sr t) = - 1)))"

definition heap_ok :: "'w heap \<Rightarrow> chunk set \<Rightarrow> bool" where
  "heap_ok h C \<longleftrightarrow> blocks_ok (split_left h) (split_right h) (real_size h) C \<and>
     lists_ok (tnext h) (tprev h) (l_freePages h) (index h) (all_tags C) \<and>
     tags_ok (magic h) (tnext h) (tprev h) (index h) (real_size h) (split_right h) (all_tags C) \<and>
     length (l_completePages h) = MAXEXP"

lemma chunk_tags:
  assumes "blocks_ok sl sr rs C" "(xs, e) \<in> C" "t \<in> set xs"
  shows "hd xs \<le> t" "t + rs t \<le> e" "TAG \<le> rs t" "0 < t" "e < 2 ^ 32" "t \<in> extent (xs, e)" "t \<in> all_tags C"
proof -
  have c: "covers rs (hd xs) xs e" "0 < hd xs" "e < 2 ^ 32" using assms(1,2) by (auto simp: blocks_ok_def)
  note r = covers_range [OF c(1) assms(3)]
  show "hd xs \<le> t" "t + rs t \<le> e" "TAG \<le> rs t" "0 < t" "e < 2 ^ 32" using r c by auto
  show "t \<in> extent (xs, e)" using r by (auto simp: TAG_def)
  show "t \<in> all_tags C" using assms(2,3) by (force simp: all_tags_def)
qed

lemma all_tagsE:
  assumes "t \<in> all_tags C"
  obtains as bs e where "(as @ t # bs, e) \<in> C"
  using assms by (auto simp: all_tags_def) (metis split_list)

lemma same_chunk:
  assumes "blocks_ok sl sr rs C" "(xs, e) \<in> C" "(ys, f) \<in> C" "t \<in> set xs" "t \<in> set ys"
  shows "(xs, e) = (ys, f)"
  using assms(1,2,3) chunk_tags(6) [OF assms(1,2,4)] chunk_tags(6) [OF assms(1,3,5)] unfolding blocks_ok_def by blast

lemma tags_disjoint:
  assumes "blocks_ok sl sr rs C" "t \<in> all_tags C" "u \<in> all_tags C" "t \<noteq> u"
  shows "{t ..< t + rs t} \<inter> {u ..< u + rs u} = {}"
proof -
  obtain xs e ys f where c: "(xs, e) \<in> C" "t \<in> set xs" "(ys, f) \<in> C" "u \<in> set ys" using assms(2,3) by (auto simp: all_tags_def)
  show ?thesis
  proof (cases "(xs, e) = (ys, f)")
    case True
    then have "covers rs (hd xs) xs e" "u \<in> set xs" using assms(1) c by (auto simp: blocks_ok_def)
    then show ?thesis using covers_disjoint assms(4) c(2) by blast
  next
    case False
    then have "extent (xs, e) \<inter> extent (ys, f) = {}" using assms(1) c(1,3) unfolding blocks_ok_def by blast
    then show ?thesis using chunk_tags(1,2) [OF assms(1) c(1,2)] chunk_tags(1,2) [OF assms(1) c(3,4)] by fastforce
  qed
qed

lemma neighbours:
  assumes "blocks_ok sl sr rs C" "(as @ t # bs, e) \<in> C"
  shows "sl t = (if as = [] then 0 else last as)" "sr t = (if bs = [] then 0 else hd bs)" "distinct (as @ t # bs)" "0 \<notin> set (as @ t # bs)"
proof -
  have d: "dlist sr sl 0 (hd (as @ t # bs)) (as @ t # bs)" using assms by (auto simp: blocks_ok_def)
  show "sl t = (if as = [] then 0 else last as)" "sr t = (if bs = [] then 0 else hd bs)" using dlist_at [OF d] by auto
  show "distinct (as @ t # bs)" "0 \<notin> set (as @ t # bs)" using dlist_distinct [OF d] dlist_nonzero [OF d] by auto
qed

lemma right_neighbour:
  assumes "blocks_ok sl sr rs C" "t \<in> all_tags C" "sr t \<noteq> 0"
  shows "sr t \<in> all_tags C" "sl (sr t) = t"
proof -
  obtain as bs e where c: "(as @ t # bs, e) \<in> C" using assms(2) all_tagsE by blast
  then obtain b bs' where b: "bs = b # bs'" "sr t = b" using neighbours(2) [OF assms(1) c] assms(3) by (cases bs) auto
  have c': "((as @ [t]) @ b # bs', e) \<in> C" using c b(1) by simp
  show "sl (sr t) = t" using neighbours(1) [OF assms(1) c'] b(2) by simp
  show "sr t \<in> all_tags C" using chunk_tags(7) [OF assms(1) c'] b(2) by simp
qed

lemma left_neighbour:
  assumes "blocks_ok sl sr rs C" "t \<in> all_tags C" "sl t \<noteq> 0"
  shows "sl t \<in> all_tags C" "sr (sl t) = t"
proof -
  obtain as bs e where c: "(as @ t # bs, e) \<in> C" using assms(2) all_tagsE by blast
  then have as: "as \<noteq> []" "sl t = last as" using neighbours(1) [OF assms(1) c] assms(3) by (auto split: if_splits)
  have "butlast as @ last as # t # bs = as @ t # bs" using as(1) by (metis append.assoc append_Cons append_Nil append_butlast_last_id)
  then have c': "(butlast as @ last as # t # bs, e) \<in> C" using c by (simp only:)
  show "sr (sl t) = t" using neighbours(2) [OF assms(1) c'] as(2) by simp
  show "sl t \<in> all_tags C" using chunk_tags(7) [OF assms(1) c'] as(2) by simp
qed

lemma tag_nonzero: "blocks_ok sl sr rs C \<Longrightarrow> t \<in> all_tags C \<Longrightarrow> 0 < t"
  by (auto simp: all_tags_def dest: chunk_tags(4))

lemma tag_size: "blocks_ok sl sr rs C \<Longrightarrow> t \<in> all_tags C \<Longrightarrow> TAG \<le> rs t"
  by (auto simp: all_tags_def dest: chunk_tags(3))

lemma right_not_self:
  assumes "blocks_ok sl sr rs C" "t \<in> all_tags C"
  shows "sr t \<noteq> t"
proof -
  obtain as bs e where "(as @ t # bs, e) \<in> C" using assms(2) all_tagsE by blast
  note n = neighbours [OF assms(1) this]
  then show ?thesis using hd_in_set [of bs] by (auto split: if_splits)
qed

lemma used_unlinked:
  assumes "tags_ok mg nx pv ix rs sr T" "t \<in> T" "ix t = - 1"
  shows "nx t = 0" "pv t = 0"
  using assms list_index_bounds(1) [of "rs t"] by (auto simp: tags_ok_def)

section \<open>Lists of free tags\<close>

lemma heap_okD:
  assumes "heap_ok h C"
  shows "blocks_ok (split_left h) (split_right h) (real_size h) C"
    "lists_ok (tnext h) (tprev h) (l_freePages h) (index h) (all_tags C)"
    "tags_ok (magic h) (tnext h) (tprev h) (index h) (real_size h) (split_right h) (all_tags C)"
    "length (l_completePages h) = MAXEXP"
  using assms by (simp_all add: heap_ok_def)

text \<open>An operation on the lists keeps everything but the lists and the tag's index.\<close>

definition relists :: "nat \<Rightarrow> int \<Rightarrow> 'w heap \<Rightarrow> 'w heap \<Rightarrow> bool" where
  "relists t i h h' \<longleftrightarrow> (\<exists>nx pv fp. h' = h\<lparr>tnext := nx, tprev := pv, l_freePages := fp, index := (index h)(t := i)\<rparr>)"

lemma other_list:
  assumes "lists_ok nx pv fp ix T" "i < MAXEXP" "dlist nx pv 0 (fp ! i) xs" "set xs = {t \<in> T. ix t = int i}"
    and "j < MAXEXP" "j \<noteq> i" "\<And>a. ix a \<noteq> int i \<Longrightarrow> nx' a = nx a \<and> pv' a = pv a"
  shows "\<exists>ys. dlist nx' pv' 0 (fp ! j) ys \<and> set ys = {t \<in> T. ix t = int j}"
proof -
  obtain ys where ys: "dlist nx pv 0 (fp ! j) ys" "set ys = {t \<in> T. ix t = int j}" using assms(1,5) unfolding lists_ok_def by blast
  have "dlist nx' pv' 0 (fp ! j) ys = dlist nx pv 0 (fp ! j) ys"
    by (rule dlist_cong) (use assms(6,7) ys(2) in auto)
  then show ?thesis using ys by blast
qed

lemma remove_tag_ok:
  assumes ok: "heap_ok h C" and t: "t \<in> all_tags C" "index h t \<ge> 0"
  shows "\<exists>h'. remove_tag t h = Some h' \<and> heap_ok h' C \<and> relists t (- 1) h h' \<and>
    (\<forall>r b c. remove_tag t (h\<lparr>real_size := r, split_right := b, split_left := c\<rparr>) =
       Some (h'\<lparr>real_size := r, split_right := b, split_left := c\<rparr>))"
proof -
  note b = heap_okD [OF ok]
  have ix: "index h t = list_index (real_size h t)" using b(3) t by (auto simp: tags_ok_def)
  define i where "i = nat (index h t)"
  have i: "index h t = int i" "i < MAXEXP" using ix list_index_bounds [of "real_size h t"] t(2) by (simp_all add: i_def MAXEXP_def)
  obtain xs where xs: "dlist (tnext h) (tprev h) 0 (l_freePages h ! i) xs" "set xs = {t \<in> all_tags C. index h t = int i}"
    using b(2) i(2) by (auto simp: lists_ok_def)
  then obtain as bs where s: "xs = as @ t # bs" using t(1) i(1) by (metis (mono_tags, lifting) mem_Collect_eq split_list)
  let ?nx = "if tprev h t \<noteq> 0 then (tnext h)(tprev h t := tnext h t) else tnext h"
  let ?pv = "if tnext h t \<noteq> 0 then (tprev h)(tnext h t := tprev h t) else tprev h"
  let ?fp = "(l_freePages h)[i := if as = [] then tnext h t else l_freePages h ! i]"
  note at = dlist_at [OF xs(1) [unfolded s]]
  note dist = dlist_distinct [OF xs(1)] dlist_nonzero [OF xs(1)]
  have len: "length (l_freePages h) = MAXEXP" using b(2) by (simp add: lists_ok_def)
  have head: "l_freePages h ! i = t \<longleftrightarrow> as = []" using at(3) dist(1) unfolding s by (cases as) auto
  define h' where "h' = h\<lparr>tnext := ?nx(t := 0), tprev := ?pv(t := 0), l_freePages := ?fp, index := (index h)(t := - 1)\<rparr>"
  have ends: "tprev h t \<noteq> t" "tnext h t \<noteq> t" "tprev h t \<noteq> 0 \<Longrightarrow> tprev h t \<in> set xs" "tnext h t \<noteq> 0 \<Longrightarrow> tnext h t \<in> set xs"
    using at(1,2,4) dist(1) unfolding s by (cases as rule: rev_cases; cases bs; simp)+
  have eq: "remove_tag t h = Some h'"
    using i ends(1,2) head by (simp add: remove_tag_def h'_def Let_def)
  have other: "remove_tag t (h\<lparr>real_size := r, split_right := b, split_left := c\<rparr>) = Some (h'\<lparr>real_size := r, split_right := b, split_left := c\<rparr>)" for r b c
    using i ends(1,2) head by (simp add: remove_tag_def h'_def Let_def)
  have fields: "blocks_ok (split_left h') (split_right h') (real_size h') C" "length (l_completePages h') = MAXEXP"
    using b by (simp_all add: h'_def)
  have frame: "(?nx(t := 0)) a = tnext h a \<and> (?pv(t := 0)) a = tprev h a" if "a \<notin> set xs" for a
    using that ends(3,4) unfolding s by auto
  have lists: "lists_ok (tnext h') (tprev h') (l_freePages h') (index h') (all_tags C)"
    unfolding lists_ok_def
  proof (intro conjI allI impI)
    show "length (l_freePages h') = MAXEXP" using len by (simp add: h'_def)
    fix j assume j: "j < MAXEXP"
    show "\<exists>ys. dlist (tnext h') (tprev h') 0 (l_freePages h' ! j) ys \<and> set ys = {t \<in> all_tags C. index h' t = int j}"
    proof (cases "j = i")
      case True
      have "dlist ?nx ?pv 0 (if as = [] then tnext h t else l_freePages h ! i) (as @ bs)"
        using dlist_delete [OF xs(1) [unfolded s]] dist unfolding s by simp
      moreover have "dlist (?nx(t := 0)) (?pv(t := 0)) 0 p (as @ bs) = dlist ?nx ?pv 0 p (as @ bs)" for p
        using dist(1) unfolding s by (intro dlist_cong) auto
      ultimately have "dlist (tnext h') (tprev h') 0 (l_freePages h' ! j) (as @ bs)"
        using True i(2) len by (simp add: h'_def)
      moreover have "set (as @ bs) = {u \<in> all_tags C. index h' u = int j}"
        using xs(2) dist(1) True unfolding s by (auto simp: h'_def)
      ultimately show ?thesis by blast
    next
      case False
      have "{t \<in> all_tags C. index h' t = int j} = {t \<in> all_tags C. index h t = int j}" using i(1) False by (auto simp: h'_def)
      moreover have "\<exists>ys. dlist (?nx(t := 0)) (?pv(t := 0)) 0 (l_freePages h ! j) ys \<and> set ys = {t \<in> all_tags C. index h t = int j}"
        by (rule other_list [OF b(2) i(2) xs j False]) (use frame xs(2) in auto)
      ultimately show ?thesis using False by (simp add: h'_def)
    qed
  qed
  have "tags_ok (magic h') (tnext h') (tprev h') (index h') (real_size h') (split_right h') (all_tags C)"
    unfolding tags_ok_def
  proof
    fix u assume u: "u \<in> all_tags C"
    have m: "magic h u = LIBALLOC_MAGIC"
      "index h u = - 1 \<and> tnext h u = 0 \<and> tprev h u = 0 \<or>
       index h u = list_index (real_size h u) \<and> (split_right h u \<noteq> 0 \<longrightarrow> index h (split_right h u) = - 1)"
      using b(3) u by (auto simp: tags_ok_def)
    have "index h u = - 1 \<Longrightarrow> u \<notin> set xs" using xs(2) by auto
    then show "magic h' u = LIBALLOC_MAGIC \<and> (index h' u = - 1 \<and> tnext h' u = 0 \<and> tprev h' u = 0 \<or>
        index h' u = list_index (real_size h' u) \<and> (split_right h' u \<noteq> 0 \<longrightarrow> index h' (split_right h' u) = - 1))"
      using m frame [of u] by (cases "u = t") (auto simp: h'_def)
  qed
  then have "heap_ok h' C" using fields lists by (simp add: heap_ok_def)
  moreover have "relists t (- 1) h h'" unfolding relists_def h'_def by blast
  ultimately show ?thesis using eq other by blast
qed

lemma insert_tag_ok:
  assumes ok: "heap_ok h C" and t: "t \<in> all_tags C" "index h t = - 1"
    and alone: "split_left h t \<noteq> 0 \<Longrightarrow> index h (split_left h t) = - 1" "split_right h t \<noteq> 0 \<Longrightarrow> index h (split_right h t) = - 1"
    and k: "k < 0 \<or> k = list_index (real_size h t)"
  shows "\<exists>h'. insert_tag t k h = Some h' \<and> heap_ok h' C \<and> relists t (list_index (real_size h t)) h h'"
proof -
  note b = heap_okD [OF ok]
  define i where "i = nat (list_index (real_size h t))"
  have i: "list_index (real_size h t) = int i" "i < MAXEXP" using list_index_bounds [of "real_size h t"] by (simp_all add: i_def MAXEXP_def)
  obtain xs where xs: "dlist (tnext h) (tprev h) 0 (l_freePages h ! i) xs" "set xs = {t \<in> all_tags C. index h t = int i}"
    using b(2) i(2) by (auto simp: lists_ok_def)
  have t0: "t \<noteq> 0" "tnext h t = 0" "tprev h t = 0" "t \<notin> set xs"
    using tag_nonzero [OF b(1) t(1)] used_unlinked [OF b(3) t] t(2) xs(2) by auto
  have len: "length (l_freePages h) = MAXEXP" using b(2) by (simp add: lists_ok_def)
  let ?p = "l_freePages h ! i"
  let ?nx = "if ?p \<noteq> 0 then (tnext h)(t := ?p) else tnext h"
  let ?pv = "if ?p \<noteq> 0 then (tprev h)(?p := t) else tprev h"
  define h' where "h' = h\<lparr>tnext := ?nx, tprev := ?pv, l_freePages := (l_freePages h)[i := t], index := (index h)(t := int i)\<rparr>"
  have eq: "insert_tag t k h = Some h'"
  proof -
    have "(if k < 0 then list_index (real_size h t) else k) = int i" using i k by auto
    then show ?thesis using i(2) by (simp add: insert_tag_def h'_def Let_def)
  qed
  have pxs: "?p \<noteq> 0 \<Longrightarrow> ?p \<in> set xs" using xs(1) by (cases xs) auto
  have frame: "?nx a = tnext h a \<and> ?pv a = tprev h a" if "a \<notin> set xs" "a \<noteq> t" for a
    using that pxs by auto
  have fields: "blocks_ok (split_left h') (split_right h') (real_size h') C" "length (l_completePages h') = MAXEXP"
    using b by (simp_all add: h'_def)
  have lists: "lists_ok (tnext h') (tprev h') (l_freePages h') (index h') (all_tags C)"
    unfolding lists_ok_def
  proof (intro conjI allI impI)
    show "length (l_freePages h') = MAXEXP" using len by (simp add: h'_def)
    fix j assume j: "j < MAXEXP"
    show "\<exists>ys. dlist (tnext h') (tprev h') 0 (l_freePages h' ! j) ys \<and> set ys = {t \<in> all_tags C. index h' t = int j}"
    proof (cases "j = i")
      case True
      have "dlist ?nx ?pv 0 t (t # xs)" by (rule dlist_push [OF xs(1)]) (use t0 in auto)
      moreover have "set (t # xs) = {u \<in> all_tags C. index h' u = int j}" using xs(2) t(1) True by (auto simp: h'_def)
      ultimately show ?thesis using True i(2) len by (intro exI [of _ "t # xs"]) (simp add: h'_def del: dlist.simps)
    next
      case False
      have "{t \<in> all_tags C. index h' t = int j} = {t \<in> all_tags C. index h t = int j}" using t(2) False by (auto simp: h'_def)
      moreover obtain ys where ys: "dlist (tnext h) (tprev h) 0 (l_freePages h ! j) ys" "set ys = {t \<in> all_tags C. index h t = int j}"
        using b(2) j by (auto simp: lists_ok_def)
      moreover have "dlist ?nx ?pv 0 (l_freePages h ! j) ys = dlist (tnext h) (tprev h) 0 (l_freePages h ! j) ys"
      proof (rule dlist_cong)
        fix a assume "a \<in> set ys"
        then have "a \<notin> set xs" "a \<noteq> t" using ys(2) xs(2) t(2) False by auto
        then show "?nx a = tnext h a \<and> ?pv a = tprev h a" by (rule frame)
      qed
      ultimately show ?thesis using False by (auto simp: h'_def)
    qed
  qed
  have "tags_ok (magic h') (tnext h') (tprev h') (index h') (real_size h') (split_right h') (all_tags C)"
    unfolding tags_ok_def
  proof
    fix u assume u: "u \<in> all_tags C"
    have m: "magic h u = LIBALLOC_MAGIC"
      "index h u = - 1 \<and> tnext h u = 0 \<and> tprev h u = 0 \<or>
       index h u = list_index (real_size h u) \<and> (split_right h u \<noteq> 0 \<longrightarrow> index h (split_right h u) = - 1)"
      using b(3) u by (auto simp: tags_ok_def)
    have ne: "split_right h u \<noteq> t" if "index h u \<noteq> - 1"
      using alone(1) right_neighbour(2) [OF b(1) u] that t0(1) tag_nonzero [OF b(1) u] by auto
    consider "u = t" | "u \<noteq> t" "index h u = - 1" | "u \<noteq> t" "index h u \<noteq> - 1" by blast
    then show "magic h' u = LIBALLOC_MAGIC \<and> (index h' u = - 1 \<and> tnext h' u = 0 \<and> tprev h' u = 0 \<or>
        index h' u = list_index (real_size h' u) \<and> (split_right h' u \<noteq> 0 \<longrightarrow> index h' (split_right h' u) = - 1))"
    proof cases
      case 1
      then show ?thesis using m(1) i(1) alone(2) right_not_self [OF b(1) t(1)] by (simp add: h'_def)
    next
      case 2
      then have "u \<notin> set xs" using xs(2) by auto
      then have "tnext h' u = tnext h u" "tprev h' u = tprev h u" using frame [OF _ 2(1)] by (simp_all add: h'_def)
      then show ?thesis using m(1) 2 used_unlinked [OF b(3) u 2(2)] by (simp add: h'_def)
    next
      case 3
      then show ?thesis using m ne by (simp add: h'_def)
    qed
  qed
  then have "heap_ok h' C" using fields lists by (simp add: heap_ok_def)
  moreover have "relists t (list_index (real_size h t)) h h'" unfolding relists_def i(1) h'_def by blast
  ultimately show ?thesis using eq by blast
qed

section \<open>Merging and splitting blocks\<close>

lemma replace_chunk:
  assumes ok: "blocks_ok sl sr rs C" and c: "c \<in> C" and c': "chunk_ok sl' sr' rs' c'" "extent c' = extent c"
    and frame: "\<And>a. a \<in> all_tags C \<Longrightarrow> a \<notin> set (fst c) \<Longrightarrow> sl' a = sl a \<and> sr' a = sr a \<and> rs' a = rs a"
  shows "blocks_ok sl' sr' rs' (insert c' (C - {c}))"
proof -
  have "chunk_ok sl' sr' rs' d" if d: "d \<in> C - {c}" for d
  proof -
    obtain xs e where xe: "d = (xs, e)" by fastforce
    have "a \<notin> set (fst c)" if "a \<in> set xs" for a
      using same_chunk [OF ok, of xs e "fst c" "snd c" a] that d c xe by auto
    moreover have "a \<in> all_tags C" if "a \<in> set xs" for a using that d xe by (force simp: all_tags_def)
    ultimately have same: "sl' a = sl a \<and> sr' a = sr a \<and> rs' a = rs a" if "a \<in> set xs" for a using that frame by blast
    have "chunk_ok sl sr rs (xs, e)" using ok d xe by (auto simp: blocks_ok_def)
    then show ?thesis
      using dlist_cong [of xs sr' sr sl' sl] covers_cong [of xs rs' rs] same unfolding xe chunk_ok.simps by metis
  qed
  moreover have "extent d \<inter> extent d' = {}" if "d \<in> insert c' (C - {c})" "d' \<in> insert c' (C - {c})" "d \<noteq> d'" for d d'
    using that ok c c'(2) unfolding blocks_ok_def by blast
  ultimately show ?thesis using c'(1) unfolding blocks_ok_def by blast
qed

lemma drop_tags:
  assumes ok: "blocks_ok sl sr rs C" and c: "(xs, e) \<in> C"
  shows "all_tags (C - {(xs, e)}) = all_tags C - set xs"
proof (intro set_eqI iffI)
  fix a assume "a \<in> all_tags (C - {(xs, e)})"
  then obtain d where d: "d \<in> C" "d \<noteq> (xs, e)" "a \<in> set (fst d)" unfolding all_tags_def by blast
  then have "a \<notin> set xs" using same_chunk [OF ok, of "fst d" "snd d" xs e a] c by auto
  then show "a \<in> all_tags C - set xs" using d unfolding all_tags_def by blast
next
  fix a assume "a \<in> all_tags C - set xs"
  then obtain d where "d \<in> C" "a \<in> set (fst d)" "a \<notin> set xs" unfolding all_tags_def by blast
  moreover from this have "d \<noteq> (xs, e)" by auto
  ultimately show "a \<in> all_tags (C - {(xs, e)})" unfolding all_tags_def by blast
qed

lemma replace_tags:
  assumes "blocks_ok sl sr rs C" "(xs, e) \<in> C"
  shows "all_tags (insert (ys, e) (C - {(xs, e)})) = (all_tags C - set xs) \<union> set ys"
proof -
  have "all_tags (insert (ys, e) (C - {(xs, e)})) = set ys \<union> all_tags (C - {(xs, e)})" by (simp add: all_tags_def)
  then show ?thesis using drop_tags [OF assms] by auto
qed

definition merged :: "nat \<Rightarrow> nat \<Rightarrow> 'w heap \<Rightarrow> 'w heap" where
  "merged l t h = h\<lparr>real_size := (real_size h)(l := real_size h l + real_size h t), split_right := (split_right h)(l := split_right h t),
     split_left := (if split_right h t \<noteq> 0 then (split_left h)(split_right h t := l) else split_left h)\<rparr>"

lemma merge_ok:
  assumes ok: "heap_ok h C" and c: "(as @ l # t # bs, e) \<in> C" and used: "index h l = - 1" "index h t = - 1"
  defines "C' \<equiv> insert (as @ l # bs, e) (C - {(as @ l # t # bs, e)})"
  shows "heap_ok (merged l t h) C'" "all_tags C' = all_tags C - {t}" "\<Union> (extent ` C') = \<Union> (extent ` C)"
proof -
  note b = heap_okD [OF ok]
  let ?xs = "as @ l # t # bs"
  have ch: "chunk_ok (split_left h) (split_right h) (real_size h) (?xs, e)" using b(1) c by (auto simp: blocks_ok_def)
  have c2: "((as @ [l]) @ t # bs, e) \<in> C" using c by simp
  note n = neighbours [OF b(1) c2]
  have lt: "split_left h t = l" "l \<noteq> 0" "l \<noteq> t" "t \<noteq> 0" using n by auto
  have lT: "l \<in> all_tags C" using chunk_tags(7) [OF b(1) c] by simp
  have hd: "hd (as @ l # bs) = hd ?xs" by (cases as) auto
  have "dlist (split_right (merged l t h)) (split_left (merged l t h)) 0 (hd ?xs) (as @ l # bs)"
    using dlist_delete [of "split_right h" "split_left h" 0 "hd ?xs" "as @ [l]" t bs] ch n(4) lt by (simp add: merged_def cong: if_cong)
  moreover have "covers (real_size (merged l t h)) (hd ?xs) (as @ l # bs) e"
    using covers_merge [of "real_size h" "hd ?xs" as l t bs e] ch n(3) by (simp add: merged_def)
  ultimately have ch': "chunk_ok (split_left (merged l t h)) (split_right (merged l t h)) (real_size (merged l t h)) (as @ l # bs, e)"
    using ch hd by simp
  have sr: "split_right h t \<noteq> 0 \<Longrightarrow> split_right h t \<in> set ?xs" using n(2) hd_in_set [of bs] by (auto split: if_splits)
  have "blocks_ok (split_left (merged l t h)) (split_right (merged l t h)) (real_size (merged l t h)) C'"
    unfolding C'_def by (rule replace_chunk [OF b(1) c ch']) (use hd sr in \<open>auto simp: merged_def\<close>)
  moreover show T: "all_tags C' = all_tags C - {t}"
  proof -
    have "set ?xs \<subseteq> all_tags C" using c by (force simp: all_tags_def)
    then show ?thesis using replace_tags [OF b(1) c, of "as @ l # bs"] n(3) unfolding C'_def by auto
  qed
  moreover have "{u \<in> all_tags C - {t}. index h u = int j} = {u \<in> all_tags C. index h u = int j}" for j using used by auto
  then have "lists_ok (tnext h) (tprev h) (l_freePages h) (index h) (all_tags C - {t})" using b(2) by (simp add: lists_ok_def)
  moreover have "tags_ok (magic h) (tnext h) (tprev h) (index h) (real_size (merged l t h)) (split_right (merged l t h)) (all_tags C - {t})"
    using b(3) used lt(3) used_unlinked [OF b(3) lT used(1)] by (auto simp: tags_ok_def merged_def)
  ultimately show "heap_ok (merged l t h) C'" using b(4) by (simp add: heap_ok_def) (simp add: merged_def)
  have "extent (as @ l # bs, e) = extent (?xs, e)" using hd by simp
  then show "\<Union> (extent ` C') = \<Union> (extent ` C)" using c unfolding C'_def by (auto simp del: extent.simps)
qed

lemma lists_new:
  assumes ok: "lists_ok nx pv fp ix T" and new: "n \<notin> T"
  shows "lists_ok (nx(n := 0)) (pv(n := 0)) fp (ix(n := - 1)) (insert n T)"
  unfolding lists_ok_def
proof (intro conjI allI impI)
  show "length fp = MAXEXP" using ok by (simp add: lists_ok_def)
  fix j assume "j < MAXEXP"
  then obtain ys where ys: "dlist nx pv 0 (fp ! j) ys" "set ys = {t \<in> T. ix t = int j}"
    using ok by (auto simp: lists_ok_def)
  have "dlist (nx(n := 0)) (pv(n := 0)) 0 (fp ! j) ys = dlist nx pv 0 (fp ! j) ys"
    by (rule dlist_cong) (use ys(2) new in auto)
  moreover have "{t \<in> insert n T. (ix(n := - 1)) t = int j} = {t \<in> T. ix t = int j}" using new by auto
  ultimately show "\<exists>ys. dlist (nx(n := 0)) (pv(n := 0)) 0 (fp ! j) ys \<and> set ys = {t \<in> insert n T. (ix(n := - 1)) t = int j}"
    using ys by (intro exI [of _ ys]) simp
qed

definition splitted :: "nat \<Rightarrow> nat \<Rightarrow> 'w heap \<Rightarrow> 'w heap" where
  "splitted t n h = h\<lparr>magic := (magic h)(n := LIBALLOC_MAGIC), real_size := (real_size h)(n := real_size h t - (n - t), t := n - t),
     tnext := (tnext h)(n := 0), tprev := (tprev h)(n := 0), index := (index h)(n := - 1),
     split_left := (if split_right h t \<noteq> 0 then (split_left h)(n := t, split_right h t := n) else (split_left h)(n := t)),
     split_right := (split_right h)(n := split_right h t, t := n)\<rparr>"

lemma split_ok:
  assumes ok: "heap_ok h C" and c: "(as @ t # bs, e) \<in> C" and used: "index h t = - 1"
    and n: "t + TAG \<le> n" "n + TAG \<le> t + real_size h t"
  defines "C' \<equiv> insert (as @ t # n # bs, e) (C - {(as @ t # bs, e)})"
  shows "heap_ok (splitted t n h) C'" "all_tags C' = insert n (all_tags C)" "n \<notin> all_tags C" "\<Union> (extent ` C') = \<Union> (extent ` C)"
proof -
  note b = heap_okD [OF ok]
  let ?xs = "as @ t # bs"
  let ?h = "splitted t n h"
  have ch: "chunk_ok (split_left h) (split_right h) (real_size h) (?xs, e)" using b(1) c by (auto simp: blocks_ok_def)
  note nb = neighbours [OF b(1) c]
  have tT: "t \<in> all_tags C" "TAG \<le> real_size h t" "0 < t" using chunk_tags [OF b(1) c, of t] by auto
  have pos: "0 < TAG" by (simp add: TAG_def)
  show new: "n \<notin> all_tags C"
  proof
    assume "n \<in> all_tags C"
    then have "{t ..< t + real_size h t} \<inter> {n ..< n + real_size h n} = {}" "0 < real_size h n"
      using tags_disjoint [OF b(1) tT(1)] tag_size [OF b(1)] n pos by fastforce+
    then show False using n pos by auto
  qed
  then have nx: "n \<notin> set ?xs" "n \<noteq> 0" "n \<noteq> t" using chunk_tags(7) [OF b(1) c] n pos by auto
  have hd: "hd (as @ t # n # bs) = hd ?xs" by (cases as) auto
  have "dlist (split_right ?h) (split_left ?h) 0 (hd ?xs) (as @ t # n # bs)"
    using dlist_insert [of "split_right h" "split_left h" 0 "hd ?xs" as t bs n] ch nx by (simp add: splitted_def cong: if_cong)
  moreover have "covers (real_size ?h) (hd ?xs) (as @ t # n # bs) e"
    using covers_split [of "real_size h" "hd ?xs" as t bs e "n - t" n] ch nb(3) n nx(1) by (simp add: splitted_def)
  ultimately have ch': "chunk_ok (split_left ?h) (split_right ?h) (real_size ?h) (as @ t # n # bs, e)" using ch hd by simp
  have sr: "split_right h t \<noteq> 0 \<Longrightarrow> split_right h t \<in> set ?xs" using nb(2) hd_in_set [of bs] by (auto split: if_splits)
  have "blocks_ok (split_left ?h) (split_right ?h) (real_size ?h) C'"
    unfolding C'_def by (rule replace_chunk [OF b(1) c ch']) (use hd sr new in \<open>auto simp: splitted_def\<close>)
  moreover show T: "all_tags C' = insert n (all_tags C)"
  proof -
    have "set ?xs \<subseteq> all_tags C" using chunk_tags(7) [OF b(1) c] by blast
    then show ?thesis using replace_tags [OF b(1) c, of "as @ t # n # bs"] unfolding C'_def by auto
  qed
  moreover have "lists_ok (tnext ?h) (tprev ?h) (l_freePages ?h) (index ?h) (insert n (all_tags C))"
    using lists_new [OF b(2) new] by (simp add: splitted_def)
  moreover have "tags_ok (magic ?h) (tnext ?h) (tprev ?h) (index ?h) (real_size ?h) (split_right ?h) (insert n (all_tags C))"
    unfolding tags_ok_def
  proof
    fix u assume u: "u \<in> insert n (all_tags C)"
    consider "u = n" | "u = t" | "u \<in> all_tags C" "u \<noteq> n" "u \<noteq> t" using u by blast
    then show "magic ?h u = LIBALLOC_MAGIC \<and> (index ?h u = - 1 \<and> tnext ?h u = 0 \<and> tprev ?h u = 0 \<or>
        index ?h u = list_index (real_size ?h u) \<and> (split_right ?h u \<noteq> 0 \<longrightarrow> index ?h (split_right ?h u) = - 1))"
    proof cases
      case 2
      then show ?thesis using b(3) tT(1) used used_unlinked [OF b(3) tT(1) used] nx(3) by (auto simp: splitted_def tags_ok_def)
    next
      case 3
      then show ?thesis using b(3) by (auto simp: splitted_def tags_ok_def)
    qed (simp add: splitted_def)
  qed
  ultimately show "heap_ok ?h C'" using b(4) by (simp add: heap_ok_def) (simp add: splitted_def)
  have "extent (as @ t # n # bs, e) = extent (?xs, e)" using hd by simp
  then show "\<Union> (extent ` C') = \<Union> (extent ` C)" using c unfolding C'_def by (auto simp del: extent.simps)
qed

text \<open>A new chunk with a single tag, and a chunk that is given back.\<close>

definition fresh :: "nat \<Rightarrow> nat \<Rightarrow> 'w heap \<Rightarrow> 'w heap" where
  "fresh t r h = h\<lparr>magic := (magic h)(t := LIBALLOC_MAGIC), real_size := (real_size h)(t := r), index := (index h)(t := - 1),
     tnext := (tnext h)(t := 0), tprev := (tprev h)(t := 0), split_left := (split_left h)(t := 0), split_right := (split_right h)(t := 0)\<rparr>"

lemma fresh_ok:
  assumes ok: "heap_ok h C" and e: "0 < t" "t + r < 2 ^ 32" "0x1000 dvd r" "0x10000 \<le> r" and new: "{t ..< t + r} \<inter> \<Union> (extent ` C) = {}"
  shows "heap_ok (fresh t r h) (insert ([t], t + r) C)" "t \<notin> all_tags C"
proof -
  note b = heap_okD [OF ok]
  show T: "t \<notin> all_tags C"
  proof
    assume "t \<in> all_tags C"
    then obtain xs f where "(xs, f) \<in> C" "t \<in> extent (xs, f)" using chunk_tags(6) [OF b(1)] by (auto elim!: all_tagsE simp del: extent.simps)
    then show False using new e by fastforce
  qed
  have frame: "chunk_ok (split_left (fresh t r h)) (split_right (fresh t r h)) (real_size (fresh t r h)) (xs, f)" if "(xs, f) \<in> C" for xs f
  proof -
    have "t \<notin> set xs" using T that by (force simp: all_tags_def)
    then have "dlist (split_right (fresh t r h)) (split_left (fresh t r h)) 0 p xs = dlist (split_right h) (split_left h) 0 p xs"
      "covers (real_size (fresh t r h)) p xs f = covers (real_size h) p xs f" for p
      by (intro dlist_cong covers_cong; auto simp: fresh_def)+
    then show ?thesis using b(1) that by (auto simp: blocks_ok_def)
  qed
  have "blocks_ok (split_left (fresh t r h)) (split_right (fresh t r h)) (real_size (fresh t r h)) (insert ([t], t + r) C)"
    unfolding blocks_ok_def
  proof (intro conjI ballI impI)
    fix c assume "c \<in> insert ([t], t + r) C"
    then show "chunk_ok (split_left (fresh t r h)) (split_right (fresh t r h)) (real_size (fresh t r h)) c"
      using frame e by (cases c) (auto simp: fresh_def TAG_def)
  next
    fix c d assume "c \<in> insert ([t], t + r) C" "d \<in> insert ([t], t + r) C" "c \<noteq> d"
    then show "extent c \<inter> extent d = {}" using new b(1) unfolding blocks_ok_def by fastforce
  qed
  moreover have T': "all_tags (insert ([t], t + r) C) = insert t (all_tags C)" by (simp add: all_tags_def)
  moreover have "lists_ok (tnext (fresh t r h)) (tprev (fresh t r h)) (l_freePages (fresh t r h)) (index (fresh t r h)) (insert t (all_tags C))"
    using lists_new [OF b(2) T] by (simp add: fresh_def)
  moreover have "tags_ok (magic (fresh t r h)) (tnext (fresh t r h)) (tprev (fresh t r h)) (index (fresh t r h)) (real_size (fresh t r h))
      (split_right (fresh t r h)) (insert t (all_tags C))"
    using b(3) T by (auto simp: tags_ok_def fresh_def)
  ultimately show "heap_ok (fresh t r h) (insert ([t], t + r) C)" using b(4) by (simp add: heap_ok_def) (simp add: fresh_def)
qed

lemma drop_chunk_ok:
  assumes ok: "heap_ok h C" and c: "([t], e) \<in> C" "index h t = - 1"
  shows "heap_ok h (C - {([t], e)})" "all_tags (C - {([t], e)}) = all_tags C - {t}"
proof -
  note b = heap_okD [OF ok]
  show T: "all_tags (C - {([t], e)}) = all_tags C - {t}" using drop_tags [OF b(1) c(1)] by simp
  have "blocks_ok (split_left h) (split_right h) (real_size h) (C - {([t], e)})" using b(1) unfolding blocks_ok_def by blast
  moreover have "{u \<in> all_tags C - {t}. index h u = int j} = {u \<in> all_tags C. index h u = int j}" for j using c(2) by auto
  then have "lists_ok (tnext h) (tprev h) (l_freePages h) (index h) (all_tags C - {t})" using b(2) by (simp add: lists_ok_def)
  moreover have "tags_ok (magic h) (tnext h) (tprev h) (index h) (real_size h) (split_right h) (all_tags C - {t})"
    using b(3) by (auto simp: tags_ok_def)
  ultimately show "heap_ok h (C - {([t], e)})" using b(4) T by (simp add: heap_ok_def)
qed

end
