(* ===== verification/Liballoc_Spec.thy ===== *)
theory Liballoc_Spec
  imports Liballoc_Heap
begin

text \<open>
  What the heap allocator promises: the blocks it hands out are disjoint, lie in the pages it was granted, and stay what they are
  until they are released.
\<close>

section \<open>The environment\<close>

text \<open>
  The contract of \<open>liballoc_alloc\<close> and \<open>liballoc_free\<close> as \<open>liballoc.h\<close> states it: the first takes a number of pages and returns
  that many pages that are not in use, or the null pointer; the second takes back what the first returned. \<open>granted\<close> is
  the memory that is in use. The addresses have 32 bits, since the allocator casts them to \<open>unsigned int\<close>.
\<close>

definition hooks_ok :: "('w \<Rightarrow> nat set) \<Rightarrow> 'w hooks \<Rightarrow> bool" where
  "hooks_ok granted hk \<longleftrightarrow>
     (\<forall>n w. 0 < n \<longrightarrow> (\<exists>p w'. liballoc_alloc hk n w = Some (p, w') \<and>
        (p = 0 \<longrightarrow> granted w' = granted w) \<and>
        (p \<noteq> 0 \<longrightarrow> p + n * l_pageSize < 2 ^ 32 \<and> {p ..< p + n * l_pageSize} \<inter> granted w = {} \<and>
           granted w' = granted w \<union> {p ..< p + n * l_pageSize}))) \<and>
     (\<forall>p n w. {p ..< p + n * l_pageSize} \<subseteq> granted w \<longrightarrow>
        (\<exists>w'. liballoc_free hk p n w = Some w' \<and> granted w' = granted w - {p ..< p + n * l_pageSize}))"

section \<open>The abstract heap\<close>

definition used :: "'w heap \<Rightarrow> chunk set \<Rightarrow> nat set" where
  "used h C = {t \<in> all_tags C. index h t = - 1}"

text \<open>The blocks that are handed out, with their sizes.\<close>

definition live :: "'w heap \<Rightarrow> chunk set \<Rightarrow> nat \<Rightarrow> nat option" where
  "live h C p = (if TAG \<le> p \<and> p - TAG \<in> used h C then Some (tsize h (p - TAG)) else None)"

definition heap_inv :: "('w \<Rightarrow> nat set) \<Rightarrow> 'w heap \<Rightarrow> chunk set \<Rightarrow> bool" where
  "heap_inv granted h C \<longleftrightarrow> (l_initialized h \<and> heap_ok h C \<or> \<not> l_initialized h \<and> C = {}) \<and>
     (\<forall>t \<in> used h C. tsize h t + TAG \<le> real_size h t) \<and> granted (sys h) = \<Union> (extent ` C)"

lemma relists_simps [simp]:
  assumes "relists t i h h'"
  shows "magic h' = magic h" "tsize h' = tsize h" "real_size h' = real_size h" "split_left h' = split_left h"
    "split_right h' = split_right h" "index h' = (index h)(t := i)" "bytes h' = bytes h" "l_completePages h' = l_completePages h"
    "l_initialized h' = l_initialized h" "sys h' = sys h"
  using assms by (auto simp: relists_def)

lemma u32_id: "n < 2 ^ 32 \<Longrightarrow> cast32 n = n" "b \<le> a \<Longrightarrow> a < 2 ^ 32 \<Longrightarrow> sub32 a b = a - b"
proof -
  show "cast32 n = n" if "n < 2 ^ 32" using that by (simp add: cast32_def)
  show "sub32 a b = a - b" if "b \<le> a" "a < 2 ^ 32"
  proof -
    have "(int a - int b) mod 2 ^ 32 = int a - int b" using that by (intro mod_pos_pos_trivial) auto
    then show ?thesis using that(1) by (simp add: sub32_def nat_diff_distrib)
  qed
qed

section \<open>The search\<close>

lemma find_tag_ok:
  assumes "dlist (tnext h) pv q p xs"
  shows "\<exists>t. find_tag sz h p = Some t \<and> (t = 0 \<or> t \<in> set xs \<and> add64 sz TAG \<le> sub64 (real_size h t) TAG)"
  using assms
proof (induction xs arbitrary: q p)
  case Nil
  then show ?case by (simp add: find_tag.simps)
next
  case (Cons a as)
  then have d: "p = a" "a \<noteq> 0" "dlist (tnext h) pv a (tnext h a) as" by auto
  from Cons.IH [OF d(3)] show ?case using d(1,2) by (subst find_tag.simps) auto
qed

section \<open>Carving\<close>

lemma insert_tag_index: "insert_tag t k (h\<lparr>index := (index h)(t := v)\<rparr>) = insert_tag t k h"
  by (simp add: insert_tag_def Let_def cong: if_cong)

lemma split_tag_eq:
  assumes n: "n = t + TAG + tsize h t" "n \<noteq> t" and c: "cast32 t = t"
    and r: "sub32 (real_size h t) (TAG + tsize h t) = real_size h t - (n - t)" "sub32 (real_size h t) (real_size h t - (n - t)) = n - t"
  shows "split_tag t h = insert_tag n (- 1) (splitted t n h)"
proof -
  define g where "g = h\<lparr>magic := (magic h)(n := LIBALLOC_MAGIC), tnext := (tnext h)(n := 0), tprev := (tprev h)(n := 0),
     split_left := (if split_right h t \<noteq> 0 then (split_left h)(n := t, split_right h t := n) else (split_left h)(n := t)),
     split_right := (split_right h)(n := split_right h t, t := n),
     real_size := (real_size h)(n := real_size h t - (n - t), t := n - t)\<rparr>"
  have "split_tag t h = insert_tag n (- 1) g"
    using n(2) by (cases "split_right h t = 0") (simp_all add: split_tag_def Let_def c n(1) [symmetric] r g_def)
  moreover have "splitted t n h = g\<lparr>index := (index g)(n := - 1)\<rparr>" by (simp add: splitted_def g_def)
  ultimately show ?thesis by (simp add: insert_tag_index)
qed

lemma carve_ok:
  assumes ok: "heap_ok h C" and t: "t \<in> all_tags C" "index h t = - 1"
    and alone: "split_right h t \<noteq> 0 \<longrightarrow> index h (split_right h t) = - 1" and sz: "sz + TAG \<le> real_size h t"
  shows "\<exists>h' C'. carve sz t h = Some (t + TAG, h') \<and> heap_ok h' C' \<and> \<Union> (extent ` C') = \<Union> (extent ` C) \<and>
    used h' C' = used h C \<and> tsize h' = (tsize h)(t := sz) \<and> (\<forall>u \<in> used h C - {t}. real_size h' u = real_size h u) \<and>
    sz + TAG \<le> real_size h' t \<and> sys h' = sys h \<and> l_initialized h' = l_initialized h \<and> bytes h' = bytes h"
proof -
  note b = heap_okD [OF ok]
  obtain as bs e where c: "(as @ t # bs, e) \<in> C" using t(1) all_tagsE by blast
  note ct = chunk_tags [OF b(1) c, of t]
  have lim: "t < 2 ^ 32" "real_size h t < 2 ^ 32" "sz < 2 ^ 32" using ct sz by auto
  have c32: "cast32 t = t" "cast32 sz = sz" using lim u32_id(1) by auto
  define h1 where "h1 = h\<lparr>tsize := (tsize h)(t := sz)\<rparr>"
  have ok1: "heap_ok h1 C" using ok by (simp add: heap_ok_def h1_def)
  let ?r = "sub32 (real_size h t) (sz + 2 * TAG)"
  have carve: "carve sz t h = (if 0 < ?r \<and> ?r < 2 ^ 31 \<and> getexp ?r \<ge> 0 then split_tag t h1 else Some h1) \<bind> (\<lambda>h. Some (t + TAG, h))"
    by (simp add: carve_def Let_def h1_def c32)
  show ?thesis
  proof (cases "0 < ?r \<and> ?r < 2 ^ 31 \<and> getexp ?r \<ge> 0")
    case False
    then have "carve sz t h = Some (t + TAG, h1)" unfolding carve by (simp only: if_False) simp
    moreover have "used h1 C = used h C" by (simp add: used_def h1_def)
    ultimately show ?thesis using ok1 sz by (intro exI [of _ h1] exI [of _ C]) (simp add: h1_def)
  next
    case True
    have big: "sz + 2 * TAG \<le> real_size h t"
    proof (rule ccontr)
      assume "\<not> sz + 2 * TAG \<le> real_size h t"
      then have "int (real_size h t) - int (sz + 2 * TAG) \<in> {- 48 ..< 0}" using sz by (auto simp: TAG_def)
      then have "(int (real_size h t) - int (sz + 2 * TAG)) mod 2 ^ 32 = int (real_size h t) - int (sz + 2 * TAG) + 2 ^ 32"
        by (subst mod_add_self2 [symmetric]) (rule mod_pos_pos_trivial, auto)
      then have "?r \<ge> 2 ^ 31" using sz by (simp add: sub32_def TAG_def)
      then show False using True by simp
    qed
    define n where "n = t + TAG + sz"
    have n: "t + TAG \<le> n" "n + TAG \<le> t + real_size h1 t" using big by (simp_all add: n_def h1_def)
    have i1: "index h1 t = - 1" using t(2) by (simp add: h1_def)
    note sp = split_ok [OF ok1 c i1 n]
    let ?C = "insert (as @ t # n # bs, e) (C - {(as @ t # bs, e)})"
    let ?s = "splitted t n h1"
    have nT: "n \<noteq> t" "n \<notin> all_tags C" using sp(3) t(1) by auto
    have rs: "sub32 (real_size h t) (TAG + sz) = real_size h t - (n - t)" "sub32 (real_size h t) (real_size h t - (n - t)) = n - t"
      using u32_id(2) lim(2) big by (simp_all add: n_def)
    have "split_tag t h1 = insert_tag n (- 1) ?s"
      by (rule split_tag_eq) (use nT(1) c32(1) rs in \<open>simp_all add: h1_def n_def\<close>)
    moreover have "\<exists>h'. insert_tag n (- 1) ?s = Some h' \<and> heap_ok h' ?C \<and> relists n (list_index (real_size ?s n)) ?s h'"
    proof (rule insert_tag_ok [OF sp(1)])
      show "n \<in> all_tags ?C" using sp(2) by simp
      show "index ?s n = - 1" by (simp add: splitted_def)
      show "index ?s (split_left ?s n) = - 1" using t(2) nT(1) by (auto simp: splitted_def h1_def)
      show "index ?s (split_right ?s n) = - 1" if "split_right ?s n \<noteq> 0" using that alone nT(1) by (auto simp: splitted_def h1_def)
    qed simp
    ultimately obtain h' where h': "split_tag t h1 = Some h'" "heap_ok h' ?C" "relists n (list_index (real_size ?s n)) ?s h'" by auto
    have "carve sz t h = Some (t + TAG, h')" using True h'(1) unfolding carve by (simp only: if_True) simp
    moreover have "used h' ?C = used h C"
      using h'(3) nT(2) list_index_bounds(1) [of "real_size ?s n"] sp(2) by (auto simp: used_def splitted_def h1_def)
    moreover have "\<forall>u \<in> used h C - {t}. real_size h' u = real_size h u" using h'(3) nT(2) by (auto simp: used_def splitted_def h1_def)
    moreover have "sz + TAG \<le> real_size h' t" "tsize h' = (tsize h)(t := sz)" "sys h' = sys h" "l_initialized h' = l_initialized h" "bytes h' = bytes h"
      using h'(3) nT(1) by (simp_all add: splitted_def h1_def n_def)
    ultimately show ?thesis using h'(2) sp(4) by blast
  qed
qed

section \<open>New pages\<close>

lemma pages_for_bounds: "16 \<le> pages_for n" "n \<le> pages_for n * l_pageSize"
proof -
  show "16 \<le> pages_for n" by (simp add: pages_for_def Let_def l_pageCount_def)
  have "n \<le> (n div 0x1000 + (if n mod 0x1000 \<noteq> 0 then 1 else 0)) * 0x1000"
  proof (cases "n mod 0x1000 = 0")
    case True
    then show ?thesis using div_mult_mod_eq [of n "0x1000"] by simp
  next
    case False
    obtain q r where q: "q = n div 0x1000" "r = n mod 0x1000" by blast
    have "q * 0x1000 + r = n" "r < 0x1000" unfolding q by simp_all
    then show ?thesis using False unfolding q [symmetric] by simp
  qed
  then show "n \<le> pages_for n * l_pageSize"
    unfolding pages_for_def Let_def l_pageSize_def l_pageCount_def
    by (rule order_trans) (intro mult_right_mono, simp_all)
qed

lemma pages_for_exact: "0x1000 dvd n \<Longrightarrow> 0x10000 \<le> n \<Longrightarrow> pages_for n * l_pageSize = n"
  by (auto simp: pages_for_def Let_def l_pageSize_def l_pageCount_def dvd_def)

lemma allocate_ok:
  assumes hk: "hooks_ok granted hk" and ok: "heap_ok h C" and g: "granted (sys h) = \<Union> (extent ` C)" and sz: "sz < 2 ^ 31"
  shows "\<exists>t h'. allocate_new_tag hk sz h = Some (t, h') \<and> l_initialized h' = l_initialized h \<and> bytes h' = bytes h \<and>
    (t = 0 \<longrightarrow> heap_ok h' C \<and> granted (sys h') = granted (sys h) \<and> tsize h' = tsize h \<and> real_size h' = real_size h \<and> index h' = index h) \<and>
    (t \<noteq> 0 \<longrightarrow> (\<exists>e. heap_ok h' (insert ([t], e) C) \<and> granted (sys h') = \<Union> (extent ` insert ([t], e) C) \<and> t \<notin> all_tags C \<and>
       tsize h' = (tsize h)(t := sz) \<and> index h' = (index h)(t := - 1) \<and> split_right h' t = 0 \<and>
       (\<forall>u. u \<noteq> t \<longrightarrow> real_size h' u = real_size h u) \<and> sz + TAG \<le> real_size h' t))"
proof -
  define n where "n = pages_for (sz + TAG)"
  have n: "16 \<le> n" "sz + TAG \<le> n * l_pageSize" using pages_for_bounds by (simp_all add: n_def)
  have c: "cast32 (sz + TAG) = sz + TAG" using sz by (simp add: cast32_def TAG_def)
  obtain t w where a: "liballoc_alloc hk n (sys h) = Some (t, w)" "t = 0 \<longrightarrow> granted w = granted (sys h)"
    "t \<noteq> 0 \<longrightarrow> t + n * l_pageSize < 2 ^ 32 \<and> {t ..< t + n * l_pageSize} \<inter> granted (sys h) = {} \<and>
       granted w = granted (sys h) \<union> {t ..< t + n * l_pageSize}"
  proof -
    have "0 < n" using n(1) by simp
    then show ?thesis using hk [unfolded hooks_ok_def, THEN conjunct1, rule_format, of n "sys h"] that by blast
  qed
  have alloc: "allocate_new_tag hk sz h = Some (if t = 0 then (0, h\<lparr>sys := w\<rparr>)
      else (t, (fresh t (cast32 (n * l_pageSize)) h)\<lparr>tsize := (tsize h)(t := sz), sys := w\<rparr>))"
    using a(1) by (simp add: allocate_new_tag_def c n_def [symmetric] fresh_def)
  show ?thesis
  proof (cases "t = 0")
    case True
    have "heap_ok (h\<lparr>sys := w\<rparr>) C" using ok by (simp add: heap_ok_def)
    then show ?thesis using alloc True a(2) by simp
  next
    case False
    let ?r = "n * l_pageSize"
    have t: "t + ?r < 2 ^ 32" "{t ..< t + ?r} \<inter> \<Union> (extent ` C) = {}" "granted w = granted (sys h) \<union> {t ..< t + ?r}" using a(3) False g by auto
    have r: "cast32 ?r = ?r" using t(1) by (intro u32_id) simp
    have ok': "heap_ok (fresh t ?r h) (insert ([t], t + ?r) C)" "t \<notin> all_tags C"
      using fresh_ok [OF ok _ t(1) _ _ t(2)] False n(1) by (auto simp: l_pageSize_def)
    let ?h = "(fresh t ?r h)\<lparr>tsize := (tsize h)(t := sz), sys := w\<rparr>"
    have "heap_ok ?h (insert ([t], t + ?r) C)" using ok'(1) by (simp add: heap_ok_def)
    moreover have "granted (sys ?h) = \<Union> (extent ` insert ([t], t + ?r) C)" using t(3) g by auto
    moreover have "tsize ?h = (tsize h)(t := sz)" "index ?h = (index h)(t := - 1)" "split_right ?h t = 0" "sz + TAG \<le> real_size ?h t"
      "\<forall>u. u \<noteq> t \<longrightarrow> real_size ?h u = real_size h u" "l_initialized ?h = l_initialized h" "bytes ?h = bytes h" using n(2) by (simp_all add: fresh_def)
    moreover have "allocate_new_tag hk sz h = Some (t, ?h)" using alloc False r by simp
    ultimately show ?thesis using ok'(2) False by (intro exI [of _ t] exI [of _ ?h]) blast
  qed
qed

section \<open>Allocation\<close>

lemma live_insert:
  assumes "used h' C' = insert t (used h C)" "tsize h' t = sz" "\<forall>u \<in> used h C. tsize h' u = tsize h u" "t \<notin> used h C"
  shows "live h C (t + TAG) = None" "live h' C' = (live h C)(t + TAG \<mapsto> sz)"
proof -
  show "live h C (t + TAG) = None" using assms(4) by (simp add: live_def)
  show "live h' C' = (live h C)(t + TAG \<mapsto> sz)" using assms by (auto simp: live_def fun_eq_iff)
qed

lemma carve_live:
  assumes ok: "heap_ok h1 C1" "granted (sys h1) = \<Union> (extent ` C1)" "l_initialized h1"
    and u: "used h1 C1 = insert t (used g C)" "t \<notin> used g C"
    and old: "\<forall>u \<in> used g C. tsize h1 u = tsize g u \<and> tsize g u + TAG \<le> real_size h1 u"
    and alone: "split_right h1 t \<noteq> 0 \<longrightarrow> index h1 (split_right h1 t) = - 1" and sz: "sz + TAG \<le> real_size h1 t"
  shows "\<exists>p h' C'. carve sz t h1 = Some (p, h') \<and> heap_inv granted h' C' \<and> bytes h' = bytes h1 \<and> p \<noteq> 0 \<and>
    live g C p = None \<and> live h' C' = (live g C)(p \<mapsto> sz)"
proof -
  have t: "t \<in> all_tags C1" "index h1 t = - 1" using u(1) by (auto simp: used_def)
  obtain h' C' where c: "carve sz t h1 = Some (t + TAG, h')" "heap_ok h' C'" "\<Union> (extent ` C') = \<Union> (extent ` C1)"
    "used h' C' = used h1 C1" "tsize h' = (tsize h1)(t := sz)" "\<forall>u \<in> used h1 C1 - {t}. real_size h' u = real_size h1 u"
    "sz + TAG \<le> real_size h' t" "sys h' = sys h1" "l_initialized h' = l_initialized h1" "bytes h' = bytes h1"
    using carve_ok [OF ok(1) t alone sz] by (elim exE conjE) (rule that)
  have "heap_inv granted h' C'" using c ok u old by (auto simp: heap_inv_def)
  moreover have "used h' C' = insert t (used g C)" "tsize h' t = sz" "\<forall>u \<in> used g C. tsize h' u = tsize g u"
    using c(4,5) u old by auto
  note live_insert [OF this u(2)]
  ultimately show ?thesis using c(1,10) by (intro exI [of _ "t + TAG"]) (auto simp: TAG_def)
qed

lemma take_tag_ok:
  assumes ok: "heap_ok h C" and t: "t \<in> all_tags C" "index h t \<ge> 0" and i: "i < MAXEXP"
  shows "\<exists>h'. take_tag i t h = Some h' \<and> heap_ok h' C \<and> index h' = (index h)(t := - 1) \<and> tsize h' = tsize h \<and> real_size h' = real_size h \<and>
    split_right h' = split_right h \<and> sys h' = sys h \<and> l_initialized h' = l_initialized h \<and> bytes h' = bytes h"
proof -
  obtain h1 where h1: "remove_tag t h = Some h1" "heap_ok h1 C" "relists t (- 1) h h1" using remove_tag_ok [OF ok t] by blast
  have "heap_ok (add_complete i (- 1) h1) C" using h1(2) by (simp add: heap_ok_def add_complete_def)
  then show ?thesis using h1 by (auto simp: take_tag_def add_complete_def)
qed

lemma initialise_ok:
  assumes "heap_inv granted h C"
  shows "heap_ok (initialise h) C" "l_initialized (initialise h)" "live (initialise h) C = live h C" "heap_inv granted (initialise h) C"
    "bytes (initialise h) = bytes h"
proof -
  have "heap_ok (initialise h) C"
    using assms by (auto simp: heap_inv_def initialise_def heap_ok_def blocks_ok_def lists_ok_def tags_ok_def all_tags_def)
  moreover have "l_initialized (initialise h)" "live (initialise h) C = live h C" "bytes (initialise h) = bytes h"
    by (auto simp: initialise_def live_def used_def fun_eq_iff)
  moreover have "sys (initialise h) = sys h" "used (initialise h) C = used h C" "tsize (initialise h) = tsize h" "real_size (initialise h) = real_size h"
    by (auto simp: initialise_def used_def)
  ultimately show "heap_ok (initialise h) C" "l_initialized (initialise h)" "live (initialise h) C = live h C" "heap_inv granted (initialise h) C"
    "bytes (initialise h) = bytes h"
    using assms by (simp_all add: heap_inv_def)
qed

lemma malloc_inv:
  assumes hk: "hooks_ok granted hk" and inv: "heap_inv granted h C" and sz: "sz < 2 ^ 31"
  shows "\<exists>p h' C'. malloc hk sz h = Some (p, h') \<and> heap_inv granted h' C' \<and> bytes h' = bytes h \<and>
    (p = 0 \<longrightarrow> live h' C' = live h C) \<and> (p \<noteq> 0 \<longrightarrow> live h C p = None \<and> live h' C' = (live h C)(p \<mapsto> sz))"
proof -
  define g where "g = initialise h"
  note in1 = initialise_ok [OF inv, folded g_def]
  have inv1: "granted (sys g) = \<Union> (extent ` C)" "\<forall>t \<in> used g C. tsize g t + TAG \<le> real_size g t" using in1(4) by (simp_all add: heap_inv_def)
  note b = heap_okD [OF in1(1)]
  define i where "i = (let e = getexp (cast32 sz) in if e < int MINEXP then MINEXP else nat e)"
  have i: "i < MAXEXP" using getexp_bounds(2) [of "cast32 sz"] by (auto simp: i_def Let_def MINEXP_def MAXEXP_def)
  obtain xs where xs: "dlist (tnext g) (tprev g) 0 (l_freePages g ! i) xs" "set xs = {t \<in> all_tags C. index g t = int i}"
    using b(2) i by (auto simp: lists_ok_def)
  obtain t where t: "find_tag sz g (l_freePages g ! i) = Some t" "t = 0 \<or> t \<in> set xs \<and> add64 sz TAG \<le> sub64 (real_size g t) TAG"
    using find_tag_ok [OF xs(1)] by blast
  have m: "malloc hk sz h = (if t = 0 then allocate_new_tag hk (cast32 sz) g \<bind> (\<lambda>(t, h). if t = 0 then Some (0, h) else carve sz t h)
      else take_tag i t g \<bind> carve sz t)"
    using t(1) by (simp add: malloc_def Let_def g_def [symmetric] i_def [unfolded Let_def, symmetric])
  have c: "cast32 sz = sz" using sz by (intro u32_id) simp
  show ?thesis
  proof (cases "t = 0")
    case True
    obtain t1 h1 where a: "allocate_new_tag hk sz g = Some (t1, h1)" "l_initialized h1" "bytes h1 = bytes g"
      "t1 = 0 \<longrightarrow> heap_ok h1 C \<and> granted (sys h1) = granted (sys g) \<and> tsize h1 = tsize g \<and> real_size h1 = real_size g \<and> index h1 = index g"
      "t1 \<noteq> 0 \<longrightarrow> (\<exists>e. heap_ok h1 (insert ([t1], e) C) \<and> granted (sys h1) = \<Union> (extent ` insert ([t1], e) C) \<and> t1 \<notin> all_tags C \<and>
         tsize h1 = (tsize g)(t1 := sz) \<and> index h1 = (index g)(t1 := - 1) \<and> split_right h1 t1 = 0 \<and>
         (\<forall>u. u \<noteq> t1 \<longrightarrow> real_size h1 u = real_size g u) \<and> sz + TAG \<le> real_size h1 t1)"
      using allocate_ok [OF hk in1(1) inv1(1) sz] in1(2) by auto
    show ?thesis
    proof (cases "t1 = 0")
      case fail: True
      then have "malloc hk sz h = Some (0, h1)" using m True a(1) c by simp
      moreover have "used h1 C = used g C" "live h1 C = live g C" using a(4) fail by (auto simp: used_def live_def fun_eq_iff)
      moreover from this have "heap_inv granted h1 C" using a(2,4) fail inv1 by (simp add: heap_inv_def)
      ultimately show ?thesis using a(3) in1(3,5) by (intro exI [of _ 0] exI [of _ h1] exI [of _ C]) simp
    next
      case succ: False
      then obtain e where e: "heap_ok h1 (insert ([t1], e) C)" "granted (sys h1) = \<Union> (extent ` insert ([t1], e) C)" "t1 \<notin> all_tags C"
        "tsize h1 = (tsize g)(t1 := sz)" "index h1 = (index g)(t1 := - 1)" "split_right h1 t1 = 0"
        "\<forall>u. u \<noteq> t1 \<longrightarrow> real_size h1 u = real_size g u" "sz + TAG \<le> real_size h1 t1" using a(5) by blast
      have u: "used h1 (insert ([t1], e) C) = insert t1 (used g C)" "t1 \<notin> used g C"
        using e(3,5) by (auto simp: used_def all_tags_def)
      have "\<forall>u \<in> used g C. tsize h1 u = tsize g u \<and> tsize g u + TAG \<le> real_size h1 u"
        using e(4,7) inv1(2) u(2) by auto
      then obtain p h' C' where "carve sz t1 h1 = Some (p, h')" "heap_inv granted h' C'" "bytes h' = bytes h1" "p \<noteq> 0"
        "live g C p = None" "live h' C' = (live g C)(p \<mapsto> sz)"
        using carve_live [where granted = granted, OF e(1,2) a(2) u _ _ e(8)] e(6) by auto
      moreover from this have "malloc hk sz h = Some (p, h')" using m True a(1) succ c by simp
      ultimately show ?thesis using a(3) in1(3,5) by (intro exI [of _ p] exI [of _ h'] exI [of _ C']) simp
    qed
  next
    case False
    then have t': "t \<in> all_tags C" "index g t = int i" "add64 sz TAG \<le> sub64 (real_size g t) TAG" using t(2) xs(2) by auto
    obtain h1 where h1: "take_tag i t g = Some h1" "heap_ok h1 C" "index h1 = (index g)(t := - 1)" "tsize h1 = tsize g" "real_size h1 = real_size g"
      "split_right h1 = split_right g" "sys h1 = sys g" "l_initialized h1 = l_initialized g" "bytes h1 = bytes g"
      using take_tag_ok [OF in1(1) t'(1) _ i] t'(2) by auto
    have u: "used h1 C = insert t (used g C)" "t \<notin> used g C" using h1(3) t'(1,2) by (auto simp: used_def)
    have "real_size g t < 2 ^ 32" "TAG \<le> real_size g t"
      using t'(1) chunk_tags(2,3,5) [OF b(1)] by (fastforce elim!: all_tagsE [of t])+
    then have "sub64 (real_size g t) TAG = real_size g t - TAG" by (intro sub64_le) (auto simp: SIZE_MAX_def)
    moreover have "add64 sz TAG = sz + TAG" using sz by (intro add64_le) (simp add: SIZE_MAX_def TAG_def)
    ultimately have s: "sz + TAG \<le> real_size h1 t" using t'(3) h1(5) by simp
    have "index g t \<noteq> - 1" using t'(2) by simp
    then have "split_right g t \<noteq> 0 \<longrightarrow> index g (split_right g t) = - 1" using b(3) t'(1) unfolding tags_ok_def by blast
    then have "split_right h1 t \<noteq> 0 \<longrightarrow> index h1 (split_right h1 t) = - 1" using h1(3,6) by simp
    moreover have "\<forall>u \<in> used g C. tsize h1 u = tsize g u \<and> tsize g u + TAG \<le> real_size h1 u" using h1(4,5) inv1(2) by simp
    moreover have "granted (sys h1) = \<Union> (extent ` C)" "l_initialized h1" using h1(7,8) inv1(1) in1(2) by simp_all
    ultimately obtain p h' C' where "carve sz t h1 = Some (p, h')" "heap_inv granted h' C'" "bytes h' = bytes h1" "p \<noteq> 0"
      "live g C p = None" "live h' C' = (live g C)(p \<mapsto> sz)"
      using carve_live [where granted = granted, OF h1(2) _ _ u _ _ s] by auto
    moreover from this have "malloc hk sz h = Some (p, h')" using m False h1(1) by simp
    ultimately show ?thesis using h1(9) in1(3,5) by (intro exI [of _ p] exI [of _ h'] exI [of _ C']) simp
  qed
qed

section \<open>Release\<close>

lemma index_cases: "tags_ok mg nx pv ix rs sr T \<Longrightarrow> t \<in> T \<Longrightarrow> ix t = - 1 \<or> 8 \<le> ix t"
  using list_index_bounds(1) [of "rs t"] by (auto simp: tags_ok_def)

lemma melt_left_eq:
  assumes "split_left h t = l" "l \<noteq> t" "real_size h l + real_size h t < 2 ^ 32"
  shows "melt_left t h = (l, merged l t h)"
  using assms by (simp add: melt_left_def merged_def Let_def u32_id)

lemma merged_simps [simp]:
  "magic (merged l t h) = magic h" "tsize (merged l t h) = tsize h" "index (merged l t h) = index h" "tnext (merged l t h) = tnext h"
  "tprev (merged l t h) = tprev h" "bytes (merged l t h) = bytes h" "l_initialized (merged l t h) = l_initialized h" "sys (merged l t h) = sys h"
  "real_size (merged l t h) = (real_size h)(l := real_size h l + real_size h t)"
  by (simp_all add: merged_def)

lemma merged_relists:
  assumes "relists u i h h'"
  shows "merged l t h' = h'\<lparr>real_size := real_size (merged l t h), split_right := split_right (merged l t h), split_left := split_left (merged l t h)\<rparr>"
  using assms by (simp add: merged_def)

text \<open>The state while a tag is being released: it is not in use any more, but on no list.\<close>

definition releasing :: "('w \<Rightarrow> nat set) \<Rightarrow> nat \<Rightarrow> 'w heap \<Rightarrow> chunk set \<Rightarrow> 'w heap \<Rightarrow> chunk set \<Rightarrow> nat \<Rightarrow> bool" where
  "releasing granted t h C h' C' t' \<longleftrightarrow> heap_ok h' C' \<and> t' \<in> used h' C' \<and> used h' C' - {t'} = used h C - {t} \<and> tsize h' = tsize h \<and>
     (\<forall>u \<in> used h C - {t}. real_size h' u = real_size h u) \<and> \<Union> (extent ` C') = \<Union> (extent ` C) \<and>
     sys h' = sys h \<and> l_initialized h' = l_initialized h \<and> bytes h' = bytes h"

lemma adjacent_sizes:
  assumes "blocks_ok sl sr rs C" "(as @ l # t # bs, e) \<in> C"
  shows "rs l + rs t < 2 ^ 32"
proof -
  have "covers rs (hd (as @ l # t # bs)) (as @ l # t # bs) e" "e < 2 ^ 32" using assms by (auto simp: blocks_ok_def)
  then obtain m where "covers rs m (l # t # bs) e" unfolding covers_append by blast
  then have "t = l + rs l" "t + rs t \<le> e" using covers_range [of rs m "l # t # bs" e t] by auto
  then show ?thesis using \<open>e < 2 ^ 32\<close> by linarith
qed

lemma melt_left_loop_ok:
  assumes ok: "heap_ok h C" and t: "t \<in> used h C"
  shows "\<exists>t' h' C'. melt_left_loop t h = Some (t', h') \<and> releasing granted t h C h' C' t' \<and>
    (split_left h' t' \<noteq> 0 \<longrightarrow> index h' (split_left h' t') = - 1)"
proof -
  note b = heap_okD [OF ok]
  have tT: "t \<in> all_tags C" "index h t = - 1" using t by (auto simp: used_def)
  show ?thesis
  proof (cases "split_left h t \<noteq> 0 \<and> index h (split_left h t) \<ge> 0")
    case False
    have "split_left h t \<noteq> 0 \<longrightarrow> index h (split_left h t) = - 1"
      using False left_neighbour(1) [OF b(1) tT(1)] index_cases [OF b(3)] by fastforce
    moreover have "melt_left_loop t h = Some (t, h)" using False by (subst melt_left_loop.simps) auto
    ultimately show ?thesis using ok t by (intro exI [of _ t] exI [of _ h] exI [of _ C]) (simp add: releasing_def)
  next
    case True
    define l where "l = split_left h t"
    have l: "l \<in> all_tags C" "split_right h l = t" "l \<noteq> 0" "index h l \<ge> 0" "l \<noteq> t"
      using left_neighbour [OF b(1) tT(1)] True tT(2) by (auto simp: l_def)
    obtain as bs e where c: "(as @ l # bs, e) \<in> C" using l(1) all_tagsE by blast
    then obtain bs' where bs: "bs = t # bs'" using neighbours(2) [OF b(1) c] l(2) tag_nonzero [OF b(1) tT(1)] by (cases bs) auto
    have c: "(as @ l # t # bs', e) \<in> C" using c bs by simp
    obtain h1 where h1: "remove_tag l h = Some h1" "heap_ok h1 C" "relists l (- 1) h h1"
      and other: "\<And>r b c. remove_tag l (h\<lparr>real_size := r, split_right := b, split_left := c\<rparr>) =
        Some (h1\<lparr>real_size := r, split_right := b, split_left := c\<rparr>)"
      using remove_tag_ok [OF ok l(1,4)] by blast
    let ?C = "insert (as @ l # bs', e) (C - {(as @ l # t # bs', e)})"
    have mg: "heap_ok (merged l t h1) ?C" "all_tags ?C = all_tags C - {t}" "\<Union> (extent ` ?C) = \<Union> (extent ` C)"
      using merge_ok [OF h1(2) c] h1(3) tT(2) l(5) by simp_all
    have "remove_tag l (merged l t h) = Some (merged l t h1)"
      unfolding merged_def [of l t h] other merged_relists [OF h1(3), of l t] by (simp add: merged_def)
    moreover have "melt_left t h = (l, merged l t h)"
      by (rule melt_left_eq) (use l(5) adjacent_sizes [OF b(1) c] in \<open>simp_all add: l_def\<close>)
    ultimately have loop: "melt_left_loop t h = melt_left_loop l (merged l t h1)"
      using True by (subst melt_left_loop.simps) simp
    have stop: "split_left (merged l t h1) l \<noteq> 0 \<longrightarrow> index (merged l t h1) (split_left (merged l t h1) l) = - 1"
    proof -
      have c2: "((as @ [l]) @ t # bs', e) \<in> C" using c by simp
      have "split_right h t \<noteq> l" using neighbours(2,3) [OF b(1) c2] l(3) by (cases bs') auto
      then have sl: "split_left (merged l t h1) l = split_left h l" using h1(3) by (simp add: merged_def)
      have "index h (split_left h l) = - 1" if "split_left h l \<noteq> 0"
        using left_neighbour [OF b(1) l(1) that] b(3) l(3,4) unfolding tags_ok_def by fastforce
      then show ?thesis using h1(3) unfolding sl by (simp add: merged_def)
    qed
    have "\<not> (split_left (merged l t h1) l \<noteq> 0 \<and> index (merged l t h1) (split_left (merged l t h1) l) \<ge> 0)" using stop by linarith
    then have "melt_left_loop l (merged l t h1) = Some (l, merged l t h1)" by (subst melt_left_loop.simps) (simp only: if_False)
    moreover have "used (merged l t h1) ?C = insert l (used h C - {t})" using mg(2) h1(3) l(1,5) by (auto simp: used_def)
    moreover have "l \<notin> used h C" using l(4) by (simp add: used_def)
    ultimately have "releasing granted t h C (merged l t h1) ?C l" using mg(1,3) h1(3) unfolding releasing_def by auto
    moreover note \<open>melt_left_loop l (merged l t h1) = Some (l, merged l t h1)\<close>
    ultimately show ?thesis using loop stop by (intro exI [of _ l] exI [of _ "merged l t h1"] exI [of _ ?C]) simp
  qed
qed

lemma absorb_right_eq:
  assumes "split_right h t = r" "remove_tag r h = Some h1" "relists r (- 1) h h1" "r \<noteq> t" "real_size h t + real_size h r < 2 ^ 32"
  shows "absorb_right t h = Some (merged t r h1)"
  using assms by (simp add: absorb_right_def merged_def Let_def u32_id)

lemma melt_right_loop_ok:
  assumes ok: "heap_ok h C" and t: "t \<in> used h C" and left: "split_left h t \<noteq> 0 \<longrightarrow> index h (split_left h t) = - 1"
  shows "\<exists>h' C'. melt_right_loop t h = Some h' \<and> releasing granted t h C h' C' t \<and>
    (split_left h' t \<noteq> 0 \<longrightarrow> index h' (split_left h' t) = - 1) \<and> (split_right h' t \<noteq> 0 \<longrightarrow> index h' (split_right h' t) = - 1)"
proof -
  note b = heap_okD [OF ok]
  have tT: "t \<in> all_tags C" "index h t = - 1" using t by (auto simp: used_def)
  show ?thesis
  proof (cases "split_right h t \<noteq> 0 \<and> index h (split_right h t) \<ge> 0")
    case False
    have "split_right h t \<noteq> 0 \<longrightarrow> index h (split_right h t) = - 1"
      using False right_neighbour(1) [OF b(1) tT(1)] index_cases [OF b(3)] by fastforce
    moreover have "melt_right_loop t h = Some h" using False by (subst melt_right_loop.simps) auto
    ultimately show ?thesis using ok t left by (intro exI [of _ h] exI [of _ C]) (simp add: releasing_def)
  next
    case True
    define r where "r = split_right h t"
    have r: "r \<in> all_tags C" "split_left h r = t" "r \<noteq> 0" "index h r \<ge> 0" "r \<noteq> t"
      using right_neighbour [OF b(1) tT(1)] True tT(2) by (auto simp: r_def)
    obtain as bs e where c: "(as @ t # bs, e) \<in> C" using tT(1) all_tagsE by blast
    then obtain bs' where bs: "bs = r # bs'" using neighbours(2) [OF b(1) c] r(3) r_def by (cases bs) auto
    have c: "(as @ t # r # bs', e) \<in> C" using c bs by simp
    obtain h1 where h1: "remove_tag r h = Some h1" "heap_ok h1 C" "relists r (- 1) h h1" using remove_tag_ok [OF ok r(1,4)] by blast
    let ?C = "insert (as @ t # bs', e) (C - {(as @ t # r # bs', e)})"
    have mg: "heap_ok (merged t r h1) ?C" "all_tags ?C = all_tags C - {r}" "\<Union> (extent ` ?C) = \<Union> (extent ` C)"
      using merge_ok [OF h1(2) c] h1(3) tT(2) r(5) by simp_all
    have "absorb_right t h = Some (merged t r h1)"
      by (rule absorb_right_eq) (use h1 r(5) adjacent_sizes [OF b(1) c] in \<open>simp_all add: r_def\<close>)
    then have loop: "melt_right_loop t h = melt_right_loop t (merged t r h1)"
      using True by (subst melt_right_loop.simps) simp
    have c2: "((as @ [t]) @ r # bs', e) \<in> C" using c by simp
    have ne: "split_right h r \<noteq> t" using neighbours(2,3) [OF b(1) c2] tag_nonzero [OF b(1) tT(1)] by (cases bs') auto
    have "index h (split_right h r) = - 1" if "split_right h r \<noteq> 0"
      using that b(3) r(1,3,4) unfolding tags_ok_def by fastforce
    then have right: "split_right (merged t r h1) t \<noteq> 0 \<longrightarrow> index (merged t r h1) (split_right (merged t r h1) t) = - 1"
      using h1(3) by (simp add: merged_def)
    have left': "split_left (merged t r h1) t \<noteq> 0 \<longrightarrow> index (merged t r h1) (split_left (merged t r h1) t) = - 1"
      using h1(3) left ne by (auto simp: merged_def)
    have "\<not> (split_right (merged t r h1) t \<noteq> 0 \<and> index (merged t r h1) (split_right (merged t r h1) t) \<ge> 0)" using right by linarith
    then have "melt_right_loop t (merged t r h1) = Some (merged t r h1)" by (subst melt_right_loop.simps) (simp only: if_False)
    moreover have ix: "index (merged t r h1) = (index h)(r := - 1)" using h1(3) by simp
    have "used (merged t r h1) ?C = used h C" unfolding used_def mg(2) ix using r(4) by fastforce
    then have "releasing granted t h C (merged t r h1) ?C t" using mg(1,3) h1(3) t unfolding releasing_def by auto
    ultimately show ?thesis using loop right left' by (intro exI [of _ "merged t r h1"] exI [of _ ?C]) simp
  qed
qed

lemma release_ok:
  assumes hk: "hooks_ok granted hk" and ok: "heap_ok h C" and g: "granted (sys h) = \<Union> (extent ` C)" and t: "t \<in> used h C"
    and alone: "split_left h t \<noteq> 0 \<longrightarrow> index h (split_left h t) = - 1" "split_right h t \<noteq> 0 \<longrightarrow> index h (split_right h t) = - 1"
  shows "\<exists>h' C'. release hk t h = Some h' \<and> heap_ok h' C' \<and> granted (sys h') = \<Union> (extent ` C') \<and> used h' C' = used h C - {t} \<and>
    tsize h' = tsize h \<and> real_size h' = real_size h \<and> l_initialized h' = l_initialized h \<and> bytes h' = bytes h"
proof -
  note b = heap_okD [OF ok]
  have tT: "t \<in> all_tags C" "index h t = - 1" using t by (auto simp: used_def)
  define i where "i = list_index (real_size h t)"
  have i: "8 \<le> i" "i < int MAXEXP" using list_index_bounds [of "real_size h t"] by (simp_all add: i_def MAXEXP_def)
  have ins: "\<exists>h'. insert_tag t i g = Some h' \<and> heap_ok h' C \<and> relists t i g h'" if "g = h \<or> g = add_complete (nat i) 1 h" for g
  proof -
    have same: "heap_ok g C" "index g = index h" "split_left g = split_left h" "split_right g = split_right h" "real_size g = real_size h"
      using that ok by (auto simp: heap_ok_def add_complete_def)
    show ?thesis using insert_tag_ok [OF same(1) tT(1)] same alone tT(2) unfolding i_def by auto
  qed
  have fin: ?thesis if g: "release hk t h = insert_tag t i g" "g = h \<or> g = add_complete (nat i) 1 h" for g
  proof -
    obtain h' where h': "insert_tag t i g = Some h'" "heap_ok h' C" "relists t i g h'" using ins [OF g(2)] by blast
    have same: "index g = index h" "tsize g = tsize h" "real_size g = real_size h" "sys g = sys h" "l_initialized g = l_initialized h" "bytes g = bytes h"
      using g(2) by (auto simp: add_complete_def)
    have "used h' C = used h C - {t}" using h'(3) same(1) i(1) by (auto simp: used_def)
    then show ?thesis using g(1) h' same \<open>granted (sys h) = _\<close> by (intro exI [of _ h'] exI [of _ C]) simp
  qed
  show ?thesis
  proof (cases "split_left h t = 0 \<and> split_right h t = 0")
    case False
    then have "release hk t h = insert_tag t i h" using i by (auto simp: release_def i_def [symmetric] Let_def)
    then show ?thesis using fin by blast
  next
    case whole: True
    show ?thesis
    proof (cases "l_completePages h ! nat i = MAXCOMPLETE")
      case False
      then have "release hk t h = insert_tag t i (add_complete (nat i) 1 h)" using whole i by (simp add: release_def i_def [symmetric] Let_def)
      then show ?thesis using fin by blast
    next
      case True
      obtain as bs e where c: "(as @ t # bs, e) \<in> C" using tT(1) all_tagsE by blast
      have "as = []" "bs = []" using neighbours [OF b(1) c] whole by (cases as rule: rev_cases; cases bs; auto)+
      then have c: "([t], e) \<in> C" using c by simp
      then have "chunk_ok (split_left h) (split_right h) (real_size h) ([t], e)" using b(1) by (auto simp: blocks_ok_def simp del: chunk_ok.simps)
      then have e: "e = t + real_size h t" "0x1000 dvd real_size h t" "0x10000 \<le> real_size h t" by auto
      then have pg: "pages_for (real_size h t) * l_pageSize = real_size h t" by (intro pages_for_exact)
      have "{t ..< e} \<subseteq> granted (sys h)" using c unfolding g by force
      then obtain w where w: "liballoc_free hk t (pages_for (real_size h t)) (sys h) = Some w" "granted w = granted (sys h) - {t ..< e}"
        using hk pg e(1) unfolding hooks_ok_def by metis
      have "release hk t h = Some (h\<lparr>sys := w\<rparr>)" using w(1) whole True i by (simp add: release_def i_def [symmetric] Let_def)
      moreover note dc = drop_chunk_ok [OF ok c tT(2)]
      have "granted w = \<Union> (extent ` (C - {([t], e)}))"
      proof -
        have "\<Union> (extent ` (C - {([t], e)})) = \<Union> (extent ` C) - extent ([t], e)"
          using b(1) c unfolding blocks_ok_def by blast
        then show ?thesis using w(2) g by simp
      qed
      moreover have "heap_ok (h\<lparr>sys := w\<rparr>) (C - {([t], e)})" using dc(1) by (simp add: heap_ok_def)
      moreover have "used (h\<lparr>sys := w\<rparr>) (C - {([t], e)}) = used h C - {t}" using dc(2) by (auto simp: used_def)
      ultimately show ?thesis by (intro exI [of _ "h\<lparr>sys := w\<rparr>"] exI [of _ "C - {([t], e)}"]) simp
    qed
  qed
qed

text \<open>Release of a block that is in use.\<close>

lemma free_inv:
  assumes hk: "hooks_ok granted hk" and inv: "heap_inv granted h C" and p: "live h C p = Some n"
  shows "\<exists>h' C'. free hk p h = Some h' \<and> heap_inv granted h' C' \<and> bytes h' = bytes h \<and> live h' C' = (live h C)(p := None)"
proof -
  define t where "t = p - TAG"
  have t: "t \<in> used h C" "p = t + TAG" using p by (auto simp: live_def t_def split: if_splits)
  then have init: "l_initialized h" "heap_ok h C" using inv by (auto simp: heap_inv_def used_def all_tags_def)
  note b = heap_okD [OF init(2)]
  have g: "granted (sys h) = \<Union> (extent ` C)" and sizes: "\<forall>t \<in> used h C. tsize h t + TAG \<le> real_size h t"
    using inv by (simp_all add: heap_inv_def)
  have tT: "t \<in> all_tags C" "magic h t = LIBALLOC_MAGIC" using t b(3) by (auto simp: used_def tags_ok_def)
  have "p < 2 ^ 32"
  proof -
    obtain as bs e where "(as @ t # bs, e) \<in> C" using tT(1) all_tagsE by blast
    from chunk_tags(2,3,5) [OF b(1) this, of t] show ?thesis using t(2) by simp
  qed
  then have tag: "sub64 (cast32 p) TAG = t"
    using t(2) by (simp add: u32_id) (simp add: sub64_le SIZE_MAX_def)
  obtain t1 h1 C1 where l: "melt_left_loop t h = Some (t1, h1)" "releasing granted t h C h1 C1 t1"
    "split_left h1 t1 \<noteq> 0 \<longrightarrow> index h1 (split_left h1 t1) = - 1"
    using melt_left_loop_ok [OF init(2) t(1)] by blast
  have l1: "heap_ok h1 C1" "t1 \<in> used h1 C1" using l(2) by (simp_all add: releasing_def)
  obtain h2 C2 where r: "melt_right_loop t1 h1 = Some h2" "releasing granted t1 h1 C1 h2 C2 t1"
    "split_left h2 t1 \<noteq> 0 \<longrightarrow> index h2 (split_left h2 t1) = - 1" "split_right h2 t1 \<noteq> 0 \<longrightarrow> index h2 (split_right h2 t1) = - 1"
    using melt_right_loop_ok [OF l1 l(3)] by blast
  have r1: "heap_ok h2 C2" "t1 \<in> used h2 C2" using r(2) by (simp_all add: releasing_def)
  have g2: "granted (sys h2) = \<Union> (extent ` C2)" using l(2) r(2) g by (simp add: releasing_def)
  obtain h3 C3 where f: "release hk t1 h2 = Some h3" "heap_ok h3 C3" "granted (sys h3) = \<Union> (extent ` C3)" "used h3 C3 = used h2 C2 - {t1}"
    "tsize h3 = tsize h2" "real_size h3 = real_size h2" "l_initialized h3 = l_initialized h2" "bytes h3 = bytes h2"
    using release_ok [OF hk r1(1) g2 r1(2) r(3,4)] by blast
  have u: "used h3 C3 = used h C - {t}" using f(4) l(2) r(2) by (simp add: releasing_def)
  have same: "tsize h3 = tsize h" "\<forall>u \<in> used h C - {t}. real_size h3 u = real_size h u" "l_initialized h3" "bytes h3 = bytes h"
    using f l(2) r(2) init(1) by (simp_all add: releasing_def)
  have "p \<noteq> 0" using t(2) by (simp add: TAG_def)
  then have "free hk p h = Some h3" using tT(2) l(1) r(1) f(1) by (simp add: free_def tag Let_def)
  moreover have "heap_inv granted h3 C3" using f(2,3) u same sizes by (auto simp: heap_inv_def)
  moreover have "live h3 C3 = (live h C)(p := None)" using u same(1) t(2) by (auto simp: live_def fun_eq_iff)
  ultimately show ?thesis using same(4) by blast
qed

section \<open>Contents\<close>

lemma copy_bytes_ok:
  assumes "{d ..< d + n} \<inter> {s ..< s + n} = {}"
  shows "copy_bytes d s n h = h\<lparr>bytes := \<lambda>a. if d \<le> a \<and> a < d + n then bytes h (s + (a - d)) else bytes h a\<rparr>"
  using assms
proof (induction n arbitrary: d s h)
  case 0
  have "(\<lambda>a. if d \<le> a \<and> a < d then bytes h (s + (a - d)) else bytes h a) = bytes h" by (rule ext) auto
  then show ?case by simp
next
  case (Suc n)
  have "{d + 1 ..< d + 1 + n} \<inter> {s + 1 ..< s + 1 + n} = {}" using Suc.prems by auto
  from Suc.IH [OF this] have "copy_bytes d s (Suc n) h = h\<lparr>bytes := \<lambda>a. if d + 1 \<le> a \<and> a < d + 1 + n
      then ((bytes h)(d := bytes h s)) (s + 1 + (a - (d + 1))) else ((bytes h)(d := bytes h s)) a\<rparr>" by (simp cong: if_cong)
  moreover have "(if d + 1 \<le> a \<and> a < d + 1 + n then ((bytes h)(d := bytes h s)) (s + 1 + (a - (d + 1))) else ((bytes h)(d := bytes h s)) a) =
      (if d \<le> a \<and> a < d + Suc n then bytes h (s + (a - d)) else bytes h a)" for a
  proof -
    have "d \<in> {d ..< d + Suc n}" by simp
    then have "d \<notin> {s ..< s + Suc n}" using Suc.prems by blast
    then have "s + 1 + (a - (d + 1)) \<noteq> d" if "d + 1 \<le> a" "a < d + 1 + n" using that by auto
    moreover have "s + 1 + (a - (d + 1)) = s + (a - d)" if "d + 1 \<le> a" using that by auto
    moreover have "d + 1 \<le> a \<or> a = d \<or> a < d" by linarith
    ultimately show ?thesis by auto
  qed
  ultimately show ?case by simp
qed

lemma memcpy_bytes:
  assumes "{d ..< d + n} \<inter> {s ..< s + n} = {}"
  shows "liballoc_memcpy d s n h = copy_bytes d s n h"
proof -
  have "(let (d, s, n, h) = copy_words d s n h in copy_bytes d s n h) = copy_bytes d s n h"
    using assms
  proof (induction d s n h rule: copy_words.induct)
    case (1 d s n h)
    show ?case
    proof (cases "n \<ge> 4")
      case False
      then show ?thesis by (simp add: copy_words.simps)
    next
      case True
      then obtain m where "n = 4 + m" using le_Suc_ex by blast
      then have m: "n = Suc (Suc (Suc (Suc m)))" by simp
      have "{d + 4 ..< d + 4 + m} \<inter> {s + 4 ..< s + 4 + m} = {}" using 1(2) m by auto
      then have IH: "(let (d, s, n, h) = copy_words (d + 4) (s + 4) m (copy_word d s h) in copy_bytes d s n h) = copy_bytes (d + 4) (s + 4) m (copy_word d s h)"
        using 1(1) [OF True] m by simp
      have far: "s + i \<noteq> d + j" if "i < 4" "j < 4" for i j
      proof -
        have "d + j \<in> {d ..< d + n}" "s + i \<in> {s ..< s + n}" using that m by auto
        then show ?thesis using 1(2) by force
      qed
      have ne: "Suc s \<noteq> d" "Suc (Suc s) \<noteq> d" "Suc (Suc (Suc s)) \<noteq> d"
        using far [of 1 0] far [of 2 0] far [of 3 0] by (simp_all add: eval_nat_numeral)
      have "copy_bytes d s n h = copy_bytes (d + 4) (s + 4) m (copy_word d s h)"
        unfolding m by (simp add: copy_word_def ne eval_nat_numeral)
      then show ?thesis using True IH m by (subst copy_words.simps) simp
    qed
  qed
  then show ?thesis by (simp add: liballoc_memcpy_def)
qed

section \<open>Properties\<close>

lemma live_block:
  assumes inv: "heap_inv granted h C" and p: "live h C p = Some n"
  shows "{p ..< p + n} \<subseteq> granted (sys h)" "p + n < 2 ^ 32" "0 < p"
    "live h C q = Some m \<Longrightarrow> q \<noteq> p \<Longrightarrow> {p ..< p + n} \<inter> {q ..< q + m} = {}"
proof -
  define t where "t = p - TAG"
  have t: "t \<in> used h C" "p = t + TAG" "n = tsize h t" using p by (auto simp: live_def t_def split: if_splits)
  then have ok: "heap_ok h C" using inv by (auto simp: heap_inv_def used_def all_tags_def)
  note b = heap_okD [OF ok]
  have g: "granted (sys h) = \<Union> (extent ` C)" and sizes: "\<forall>t \<in> used h C. tsize h t + TAG \<le> real_size h t"
    using inv by (simp_all add: heap_inv_def)
  have in_t: "{p ..< p + n} \<subseteq> {t ..< t + real_size h t}" using bspec [OF sizes t(1)] t(2,3) by auto
  have tT: "t \<in> all_tags C" using t(1) by (simp add: used_def)
  then obtain as bs e where c: "(as @ t # bs, e) \<in> C" using all_tagsE by blast
  note ct = chunk_tags(1,2,5) [OF b(1) c, of t]
  have "{t ..< t + real_size h t} \<subseteq> extent (as @ t # bs, e)" using ct by auto
  then show "{p ..< p + n} \<subseteq> granted (sys h)" using in_t c unfolding g by blast
  have "t + real_size h t < 2 ^ 32" using ct(2,3) by simp
  then show "p + n < 2 ^ 32" using t(2) bspec [OF sizes t(1)] t(3) by linarith
  show "0 < p" using t(2) by (simp add: TAG_def)
  show "{p ..< p + n} \<inter> {q ..< q + m} = {}" if q: "live h C q = Some m" "q \<noteq> p"
  proof -
    define u where "u = q - TAG"
    have u: "u \<in> used h C" "q = u + TAG" "m = tsize h u" using q(1) by (auto simp: live_def u_def split: if_splits)
    then have "{q ..< q + m} \<subseteq> {u ..< u + real_size h u}" using bspec [OF sizes u(1)] by auto
    moreover have "u \<in> all_tags C" "u \<noteq> t" using u(1,2) q(2) t(2) by (auto simp: used_def)
    ultimately show ?thesis using in_t tags_disjoint [OF b(1) tT, of u] by blast
  qed
qed

lemma heap_inv_bytes [simp]: "heap_inv granted (h\<lparr>bytes := b\<rparr>) C = heap_inv granted h C" "live (h\<lparr>bytes := b\<rparr>) C = live h C"
  by (simp_all add: heap_inv_def heap_ok_def used_def live_def fun_eq_iff)

lemma memset_bytes: "liballoc_memset p c n h = h\<lparr>bytes := \<lambda>a. if p \<le> a \<and> a < p + n then c else bytes h a\<rparr>"
proof (induction n)
  case 0
  have "(\<lambda>a. if p \<le> a \<and> a < p then c else bytes h a) = bytes h" by (rule ext) auto
  then show ?case by (simp add: liballoc_memset_def)
next
  case (Suc n)
  have "liballoc_memset p c (Suc n) h = (let h = liballoc_memset p c n h in h\<lparr>bytes := (bytes h)(p + n := c)\<rparr>)"
    by (simp add: liballoc_memset_def for_up_last Let_def)
  also have "\<dots> = h\<lparr>bytes := (\<lambda>a. if p \<le> a \<and> a < p + n then c else bytes h a)(p + n := c)\<rparr>" by (simp add: Suc.IH)
  also have "(\<lambda>a. if p \<le> a \<and> a < p + n then c else bytes h a)(p + n := c) = (\<lambda>a. if p \<le> a \<and> a < p + Suc n then c else bytes h a)"
    by (rule ext) auto
  finally show ?case .
qed

text \<open>\<open>malloc\<close> returns the null pointer only when there are no pages.\<close>

lemma carve_not_null: "carve sz tag h = Some (p, h') \<Longrightarrow> p \<noteq> 0"
  by (auto simp: carve_def TAG_def Let_def split: Option.bind_splits)

lemma malloc_null:
  assumes "malloc hk sz h = Some (0, h')" "sz < 2 ^ 31"
  shows "\<exists>w. liballoc_alloc hk (pages_for (sz + TAG)) (sys h) = Some (0, w)"
proof -
  have "sys (initialise h) = sys h" by (simp add: initialise_def)
  moreover have "cast32 (cast32 sz + TAG) = sz + TAG" using assms(2) by (simp add: cast32_def TAG_def)
  ultimately show ?thesis
    using assms(1) carve_not_null
    by (fastforce simp: malloc_def allocate_new_tag_def Let_def split: Option.bind_splits if_splits prod.splits)
qed

lemma int_size_small: "n < 2 ^ 31 \<Longrightarrow> int_size n = n"
  by (simp add: int_size_def cast32_def)

text \<open>A page source of 16 megabytes that serves one request at a time, the heap before its first use and a heap with one block, for the witnesses.\<close>

definition arena :: "nat set hooks" where
  "arena = \<lparr>liballoc_alloc = \<lambda>n w. let r = {0x100000 ..< 0x100000 + n * l_pageSize} in
       Some (if n < 0x1000 \<and> r \<inter> w = {} then (0x100000, w \<union> r) else (0, w)),
     liballoc_free = \<lambda>p n w. Some (w - {p ..< p + n * l_pageSize})\<rparr>"

definition boot_heap :: "nat set heap" where
  "boot_heap = \<lparr>magic = \<lambda>_. 0, tsize = \<lambda>_. 0, real_size = \<lambda>_. 0, index = \<lambda>_. 0, split_left = \<lambda>_. 0, split_right = \<lambda>_. 0,
     tnext = \<lambda>_. 0, tprev = \<lambda>_. 0, bytes = \<lambda>_. 0, l_freePages = replicate MAXEXP 0, l_completePages = replicate MAXEXP 0,
     l_initialized = False, sys = {}\<rparr>"

definition block_heap :: "nat set heap" where
  "block_heap = boot_heap\<lparr>magic := \<lambda>_. LIBALLOC_MAGIC, tsize := \<lambda>_. 0x8000, real_size := \<lambda>_. 0x10000, index := \<lambda>_. - 1,
     l_initialized := True, sys := {0x2000000 ..< 0x2010000}\<rparr>"

lemma arena_ok: "hooks_ok id arena"
  by (auto simp: hooks_ok_def arena_def Let_def l_pageSize_def)

lemma boot_heap_inv: "heap_inv id boot_heap {}"
  by (simp add: heap_inv_def boot_heap_def used_def all_tags_def)

lemma block_heap_inv: "heap_inv id block_heap {([0x2000000], 0x2010000)}" "live block_heap {([0x2000000], 0x2010000)} 0x2000030 = Some 0x8000"
proof -
  have "heap_ok block_heap {([0x2000000], 0x2010000)}"
    by (auto simp: heap_ok_def block_heap_def boot_heap_def blocks_ok_def lists_ok_def tags_ok_def all_tags_def TAG_def MAXEXP_def intro!: exI [of _ "[]"])
  then show "heap_inv id block_heap {([0x2000000], 0x2010000)}"
    by (simp add: heap_inv_def block_heap_def boot_heap_def TAG_def)
  show "live block_heap {([0x2000000], 0x2010000)} 0x2000030 = Some 0x8000"
    by (simp add: live_def used_def all_tags_def block_heap_def boot_heap_def TAG_def)
qed

text \<open>The page source of the instance has pages left.\<close>

lemma arena_grants:
  assumes "n < 0x10000" "W = {} \<or> W = {0x2000000 ..< 0x2010000}"
  shows "\<nexists>w. liballoc_alloc arena (pages_for n) W = Some (0, w)"
proof -
  have "pages_for n = 16" using assms(1) by (auto simp: pages_for_def Let_def l_pageSize_def l_pageCount_def)
  then show ?thesis using assms(2) by (auto simp: arena_def Let_def l_pageSize_def)
qed

text \<open>
  C17: \<open>malloc\<close> hands out fresh memory. In any state of the heap that satisfies the invariant and for any size below two gigabytes it
  returns. When it returns a block, the block was not in use, lies inside the pages that the heap was granted and overlaps no
  other block; it is recorded with its size, and nothing else about the blocks in use or their contents changes. When it
  returns the null pointer, no block changes, and the reason is that there were no pages to be had. The invariant is kept; it says, among other things, that the tags cover
  the pages without gaps and that no two free neighbours are left unmerged.
\<close>

theorem malloc_fresh_block:
  assumes "hooks_ok granted hk" "heap_inv granted h C" "sz < 2 ^ 31"
  shows "\<exists>p h' C'. malloc hk sz h = Some (p, h') \<and> heap_inv granted h' C' \<and> bytes h' = bytes h \<and>
    (p = 0 \<longrightarrow> live h' C' = live h C \<and> (\<exists>w. liballoc_alloc hk (pages_for (sz + TAG)) (sys h) = Some (0, w))) \<and>
    (p \<noteq> 0 \<longrightarrow> live h C p = None \<and> live h' C' = (live h C)(p \<mapsto> sz) \<and> {p ..< p + sz} \<subseteq> granted (sys h') \<and>
       (\<forall>q n. live h C q = Some n \<longrightarrow> {p ..< p + sz} \<inter> {q ..< q + n} = {}))"
proof -
  obtain p h' C' where m: "malloc hk sz h = Some (p, h')" "heap_inv granted h' C'" "bytes h' = bytes h" "p = 0 \<longrightarrow> live h' C' = live h C"
    "p \<noteq> 0 \<longrightarrow> live h C p = None \<and> live h' C' = (live h C)(p \<mapsto> sz)"
    using malloc_inv [OF assms] by blast
  have "{p ..< p + sz} \<subseteq> granted (sys h') \<and> (\<forall>q n. live h C q = Some n \<longrightarrow> {p ..< p + sz} \<inter> {q ..< q + n} = {})" if "p \<noteq> 0"
  proof -
    have l: "live h' C' p = Some sz" "live h C p = None" "live h' C' = (live h C)(p \<mapsto> sz)" using m(5) that by auto
    have "{p ..< p + sz} \<inter> {q ..< q + n} = {}" if "live h C q = Some n" for q n
    proof -
      have "q \<noteq> p" using that l(2) by auto
      then show ?thesis using live_block(4) [OF m(2) l(1), of q n] that l(3) by simp
    qed
    then show ?thesis using live_block(1) [OF m(2) l(1)] by blast
  qed
  moreover have "\<exists>w. liballoc_alloc hk (pages_for (sz + TAG)) (sys h) = Some (0, w)" if "p = 0"
    using malloc_null [OF m(1) [unfolded that] assms(3)] .
  ultimately show ?thesis using m by (intro exI [of _ p] exI [of _ h'] exI [of _ C']) simp
qed

theorem malloc_fresh_block_witness:
  "\<exists>p h' C'. malloc arena 100 boot_heap = Some (p, h') \<and> heap_inv id h' C' \<and> live h' C' p = Some 100"
proof -
  have "(100 :: nat) < 2 ^ 31" by simp
  from malloc_fresh_block [OF arena_ok boot_heap_inv this] obtain p h' C' where
    m: "malloc arena 100 boot_heap = Some (p, h')" "heap_inv id h' C'"
    "p = 0 \<longrightarrow> (\<exists>w. liballoc_alloc arena (pages_for (100 + TAG)) (sys boot_heap) = Some (0, w))"
    "p \<noteq> 0 \<longrightarrow> live h' C' = (live boot_heap {})(p \<mapsto> 100)"
    by blast
  have "p \<noteq> 0" using m(3) arena_grants [of "100 + TAG" "sys boot_heap"] by (auto simp: boot_heap_def TAG_def)
  then show ?thesis using m by auto
qed


text \<open>
  C18: \<open>free\<close> takes back exactly one block. For a pointer that is in use it returns, whichever neighbours it merges and whether or not it
  gives pages back; the block is not in use any more, all other blocks and their contents are as before, and the
  invariant is kept.
\<close>

theorem free_takes_block:
  assumes "hooks_ok granted hk" "heap_inv granted h C" "live h C p = Some n"
  shows "\<exists>h' C'. free hk p h = Some h' \<and> heap_inv granted h' C' \<and> bytes h' = bytes h \<and> live h' C' = (live h C)(p := None)"
  using assms by (rule free_inv)

theorem free_takes_block_witness:
  "\<exists>h' C'. free arena 0x2000030 block_heap = Some h' \<and> heap_inv id h' C' \<and> live h' C' 0x2000030 = None"
proof -
  from free_takes_block [OF arena_ok block_heap_inv] obtain h' C' where
    "free arena 0x2000030 block_heap = Some h'" "heap_inv id h' C'" "live h' C' = (live block_heap {([0x2000000], 0x2010000)})(0x2000030 := None)"
    by blast
  then show ?thesis by auto
qed

text \<open>
  C19: \<open>realloc\<close> moves a block. For a block in use and a new size it ends with the bytes of the old block, as many as fit, in a block of the new size; no other byte and no other block
  changes, and the old block is released. When there is no memory for the new block, it copies to the null pointer instead of
  returning it.
\<close>

theorem realloc_moves_block:
  assumes "hooks_ok granted hk" "heap_inv granted h C" "live h C p = Some n" "n < 2 ^ 31" "0 < sz" "sz < 2 ^ 31"
  shows "(\<exists>q h' C'. realloc hk p sz h = Some (q, h') \<and> heap_inv granted h' C' \<and>
            live h C q = None \<and> live h' C' = (live h C)(q \<mapsto> sz, p := None) \<and>
            (\<forall>i < min n sz. bytes h' (q + i) = bytes h (p + i)) \<and> (\<forall>a. a \<notin> {q ..< q + min n sz} \<longrightarrow> bytes h' a = bytes h a))
       \<or> (\<exists>w. liballoc_alloc hk (pages_for (sz + TAG)) (sys h) = Some (0, w)) \<and> (0 < n \<longrightarrow> realloc hk p sz h = None)"
proof -
  obtain q h1 C1 where m: "malloc hk sz h = Some (q, h1)" "heap_inv granted h1 C1" "bytes h1 = bytes h"
    "q \<noteq> 0 \<longrightarrow> live h C q = None \<and> live h1 C1 = (live h C)(q \<mapsto> sz)"
    using malloc_inv [OF assms(1,2,6)] by blast
  have p: "p \<noteq> 0" "TAG \<le> p" "tsize h (p - TAG) = n" "p < 2 ^ 32"
    using live_block(3) [OF assms(2,3)] live_block(2) [OF assms(2,3)] assms(3) by (auto simp: live_def split: if_splits)
  then have tag: "sub64 (cast32 p) TAG = p - TAG" by (simp add: u32_id sub64_le SIZE_MAX_def)
  have n: "(if int_size n > sz then int_size sz else int_size n) = min n sz" using assms(4,6) by (simp add: int_size_small)
  show ?thesis
  proof (cases "q = 0")
    case True
    have "realloc hk p sz h = None" if "0 < n"
      using assms(5) p(1) m(1) n True that by (simp add: realloc_def tag p(3) Let_def)
    then show ?thesis using malloc_null [OF m(1) [unfolded True] assms(6)] by blast
  next
    case False
    then have l: "live h C q = None" "live h1 C1 = (live h C)(q \<mapsto> sz)" "q \<noteq> p" using m(4) assms(3) by auto
    then have l1: "live h1 C1 p = Some n" "live h1 C1 q = Some sz" using assms(3) by auto
    have "{q ..< q + sz} \<inter> {p ..< p + n} = {}" using live_block(4) [OF m(2) l1(2) l1(1)] l(3) by simp
    then have dis: "{q ..< q + min n sz} \<inter> {p ..< p + min n sz} = {}" by auto
    define h2 where "h2 = liballoc_memcpy q p (min n sz) h1"
    have h2: "h2 = h1\<lparr>bytes := \<lambda>a. if q \<le> a \<and> a < q + min n sz then bytes h (p + (a - q)) else bytes h a\<rparr>"
      unfolding h2_def memcpy_bytes [OF dis] copy_bytes_ok [OF dis] m(3) ..
    then have "heap_inv granted h2 C1" "live h2 C1 = live h1 C1" using m(2) by simp_all
    then obtain h' C' where f: "free hk p h2 = Some h'" "heap_inv granted h' C'" "bytes h' = bytes h2" "live h' C' = (live h1 C1)(p := None)"
      using free_inv [OF assms(1), of h2 C1 p n] l1(1) by auto
    have "realloc hk p sz h = Some (q, h')"
      using assms(5) p(1) m(1) n False f(1) by (simp add: realloc_def tag p(3) Let_def h2_def)
    moreover have "live h' C' = (live h C)(q \<mapsto> sz, p := None)" using f(4) l(2) by simp
    moreover have "\<forall>i < min n sz. bytes h' (q + i) = bytes h (p + i)" "\<forall>a. a \<notin> {q ..< q + min n sz} \<longrightarrow> bytes h' a = bytes h a"
      using f(3) h2 by auto
    ultimately show ?thesis using f(2) l(1) by blast
  qed
qed

theorem realloc_moves_block_witness:
  "\<exists>q h' C'. realloc arena 0x2000030 100 block_heap = Some (q, h') \<and> heap_inv id h' C' \<and> live h' C' 0x2000030 = None"
proof -
  have "\<nexists>w. liballoc_alloc arena (pages_for (100 + TAG)) (sys block_heap) = Some (0, w)"
    using arena_grants [of "100 + TAG" "sys block_heap"] by (simp add: block_heap_def boot_heap_def TAG_def)
  moreover have "(0x8000 :: nat) < 2 ^ 31" "(0 :: nat) < 100" "(100 :: nat) < 2 ^ 31" by simp_all
  note realloc_moves_block [OF arena_ok block_heap_inv this]
  ultimately obtain q h' C' where "realloc arena 0x2000030 100 block_heap = Some (q, h')" "heap_inv id h' C'"
    "live h' C' = (live block_heap {([0x2000000], 0x2010000)})(q \<mapsto> 100, 0x2000030 := None)" by blast
  then show ?thesis by auto
qed

text \<open>
  \<open>calloc\<close> returns a cleared block: when the product of the two sizes stays below two gigabytes and there is memory, the new block
  has that many zero bytes, and no other byte or block changes. When there is none, it clears memory at the null
  pointer.
\<close>

theorem calloc_clears_block:
  assumes "hooks_ok granted hk" "heap_inv granted h C" "nobj * sz < 2 ^ 31"
  shows "(\<exists>p h' C'. calloc hk nobj sz h = Some (p, h') \<and> heap_inv granted h' C' \<and> live h C p = None \<and> live h' C' = (live h C)(p \<mapsto> nobj * sz) \<and>
            (\<forall>a. bytes h' a = (if a \<in> {p ..< p + nobj * sz} then 0 else bytes h a)))
       \<or> (\<exists>w. liballoc_alloc hk (pages_for (nobj * sz + TAG)) (sys h) = Some (0, w)) \<and> (0 < nobj * sz \<longrightarrow> calloc hk nobj sz h = None)"
proof -
  obtain p h1 C1 where m: "malloc hk (nobj * sz) h = Some (p, h1)" "heap_inv granted h1 C1" "bytes h1 = bytes h"
    "p \<noteq> 0 \<longrightarrow> live h C p = None \<and> live h1 C1 = (live h C)(p \<mapsto> nobj * sz)"
    using malloc_inv [OF assms] by blast
  show ?thesis
  proof (cases "p = 0")
    case True
    have "calloc hk nobj sz h = None" if "0 < nobj * sz"
      using True m(1) assms(3) that by (simp add: calloc_def int_size_small Let_def)
    then show ?thesis using malloc_null [OF m(1) [unfolded True] assms(3)] by blast
  next
    case False
    let ?h = "liballoc_memset p 0 (nobj * sz) h1"
    have "calloc hk nobj sz h = Some (p, ?h)" using m(1) assms(3) False by (simp add: calloc_def int_size_small Let_def)
    moreover have "heap_inv granted ?h C1" "live ?h C1 = (live h C)(p \<mapsto> nobj * sz)" "live h C p = None" using m(2,4) False by (simp_all add: memset_bytes)
    moreover have "\<forall>a. bytes ?h a = (if a \<in> {p ..< p + nobj * sz} then 0 else bytes h a)" by (simp add: memset_bytes m(3))
    ultimately show ?thesis by blast
  qed
qed

theorem calloc_clears_block_witness:
  "\<exists>p h' C'. calloc arena 10 20 boot_heap = Some (p, h') \<and> heap_inv id h' C'"
proof -
  have "\<nexists>w. liballoc_alloc arena (pages_for (10 * 20 + TAG)) (sys boot_heap) = Some (0, w)"
    using arena_grants [of "10 * 20 + TAG" "sys boot_heap"] by (simp add: boot_heap_def TAG_def)
  moreover have "(10 * 20 :: nat) < 2 ^ 31" by simp
  note calloc_clears_block [OF arena_ok boot_heap_inv this]
  ultimately show ?thesis by blast
qed

end
