(* ===== verification/Liballoc_Kernel.thy ===== *)
theory Liballoc_Kernel
  imports Liballoc_Spec Vmm_Map
begin

text \<open>
  The heap of the kernel: the allocator on top of the virtual memory manager, joined by \<open>extra/liballoc/liballoc_wrapper.cpp\<close>.
  The two do not agree on their interface, and the results of this theory say how.
\<close>

section \<open>The wrapper\<close>

text \<open>\<open>mm::vmm::alloc\<close> and \<open>mm::vmm::free\<close> take a size in bytes; the wrapper passes on the number of pages.\<close>

definition kernel_hooks :: "vmm hooks" where
  "kernel_hooks =
     \<lparr>liballoc_alloc = \<lambda>npages s. map_option (\<lambda>(p, s). (unat p, s)) (vmm_alloc npages s),
      liballoc_free = \<lambda>p hint s. vmm_free (of_nat p) hint s\<rparr>"

section \<open>Properties\<close>

lemma insert_tag_total: "\<exists>h'. insert_tag tag (- 1) h = Some h'"
  using list_index_bounds(2) [of "real_size h tag"] by (simp add: insert_tag_def Let_def MAXEXP_def)

lemma carve_total:
  fixes h :: "'w heap"
  shows "\<exists>h'. carve sz tag h = Some (cast32 tag + TAG, h')"
proof -
  have "\<exists>h'. split_tag tag h = Some h'" for h :: "'w heap"
    unfolding split_tag_def Let_def by (rule insert_tag_total)
  from this [of "h\<lparr>tsize := (tsize h)(tag := cast32 sz)\<rparr>"] show ?thesis by (auto simp: carve_def Let_def)
qed

lemma malloc_first:
  assumes "\<not> l_initialized h" "sz < 2 ^ 31" "liballoc_alloc hk (pages_for (sz + TAG)) (sys h) = Some (t, w)" "t \<noteq> 0"
  shows "\<exists>h'. malloc hk sz h = Some (cast32 t + TAG, h')"
proof -
  have "cast32 sz = sz" "cast32 (sz + TAG) = sz + TAG" using assms(2) by (simp_all add: cast32_def TAG_def)
  moreover have "nat (getexp sz) < MAXEXP" using getexp_bounds [of sz] by (simp add: MAXEXP_def)
  then have "l_freePages (initialise h) ! (let e = getexp sz in if e < int MINEXP then MINEXP else nat e) = 0"
    using assms(1) by (simp add: initialise_def MAXEXP_def MINEXP_def Let_def)
  moreover have "sys (initialise h) = sys h" by (simp add: initialise_def)
  ultimately show ?thesis
    using assms(3,4) carve_total by (simp add: malloc_def Let_def find_tag.simps allocate_new_tag_def)
qed

text \<open>The virtual memory manager's blocks are all in the upper half, the one for no memory too.\<close>

lemma vmm_alloc_high:
  assumes "mem_ok s"
  shows "\<exists>q s'. vmm_alloc n s = Some (q, s') \<and> 0xFFFF800000000000 \<le> q"
proof -
  have inv: "pmm_inv (phys s)" using assms by (simp add: mem_ok_def)
  obtain r ph where a: "pmm_alloc n (phys s) = Some (r, ph)" "r \<noteq> 0 \<longrightarrow> blk (alloc_order n) r \<subseteq> free_mem (phys s)"
    using pmm_alloc_ok [OF inv, of n] by blast
  have "r < HIGH"
  proof (cases "r = 0")
    case False
    then have "r \<in> free_mem (phys s)" using a(2) in_blk by blast
    then show ?thesis using assms by (auto simp: mem_ok_def)
  qed simp
  then have "0xFFFF800000000000 \<le> pa_to_va (of_nat r)" by (simp add: pa_to_va_def word_le_nat_alt unat_word_ariths unat_of_nat)
  then show ?thesis using a(1) by (simp add: vmm_alloc_def)
qed

text \<open>
  C20: the kernel's first \<open>malloc\<close> returns a pointer to memory that was never allocated. The virtual memory manager returns a block \<open>q\<close> in the
  upper half of the address space; the pointer that \<open>malloc\<close> returns is computed from the lower 32 bits of its address, so that
  the caller's bytes all lie below the block. It is not the null pointer even when memory is exhausted.
\<close>

theorem kernel_malloc_outside:
  assumes "mem_ok (sys h)" "\<not> l_initialized h" "sz < 2 ^ 31"
  shows "\<exists>p h' q s'. malloc kernel_hooks sz h = Some (p, h') \<and> vmm_alloc (pages_for (sz + TAG)) (sys h) = Some (q, s') \<and>
    p = unat q mod 2 ^ 32 + TAG \<and> p \<noteq> 0 \<and> p + sz < unat q"
proof -
  obtain q s' where q: "vmm_alloc (pages_for (sz + TAG)) (sys h) = Some (q, s')" "0xFFFF800000000000 \<le> q"
    using vmm_alloc_high [OF assms(1)] by blast
  have "unat q \<ge> 0xFFFF800000000000" using q(2) by (simp add: word_le_nat_alt)
  moreover have "unat q mod 2 ^ 32 < 0x100000000" "sz < 0x80000000" using assms(3) by simp_all
  ultimately have "unat q mod 2 ^ 32 + TAG + sz < unat q" "unat q \<noteq> 0" unfolding TAG_def by linarith+
  then show ?thesis
    using malloc_first [OF assms(2,3), of kernel_hooks "unat q" s'] q(1)
    by (auto simp: kernel_hooks_def cast32_def TAG_def)
qed

text \<open>The kernel's heap before its first use, on the memory of the demonstration.\<close>

definition kernel_heap :: "vmm heap" where
  "kernel_heap = \<lparr>magic = \<lambda>_. 0, tsize = \<lambda>_. 0, real_size = \<lambda>_. 0, index = \<lambda>_. 0, split_left = \<lambda>_. 0, split_right = \<lambda>_. 0,
     tnext = \<lambda>_. 0, tprev = \<lambda>_. 0, bytes = \<lambda>_. 0, l_freePages = replicate MAXEXP 0, l_completePages = replicate MAXEXP 0,
     l_initialized = False, sys = demo_vmm\<rparr>"

theorem kernel_malloc_outside_witness:
  "\<exists>p h' q s'. malloc kernel_hooks 100 kernel_heap = Some (p, h') \<and> vmm_alloc (pages_for (100 + TAG)) demo_vmm = Some (q, s') \<and>
     p \<noteq> 0 \<and> p + 100 < unat q"
proof -
  have "mem_ok (sys kernel_heap)" "\<not> l_initialized kernel_heap" "(100 :: nat) < 2 ^ 31" "sys kernel_heap = demo_vmm"
    using demo_vmm_ok(1) by (simp_all add: kernel_heap_def)
  with kernel_malloc_outside [OF this(1-3)] show ?thesis by auto
qed

text \<open>
  the kernel's heap takes one page and believes to have sixteen. For every request below sixteen megabytes the wrapper asks the virtual memory manager for
  as much as a request of 4096 bytes would, but the new tag records at least 65536 bytes, so that the allocator hands out
  memory that belongs to others.
\<close>

theorem kernel_heap_overcommits:
  assumes "mem_ok (sys h)" "sz < 0xFFFF00"
  shows "\<exists>t h' q s'. allocate_new_tag kernel_hooks sz h = Some (t, h') \<and> vmm_alloc 0x1000 (sys h) = Some (q, s') \<and>
    t = unat q \<and> sys h' = s' \<and> 0x10000 \<le> real_size h' t"
proof -
  have c: "cast32 (sz + TAG) = sz + TAG" using assms(2) by (simp add: cast32_def TAG_def)
  have n: "16 \<le> pages_for (sz + TAG)" "pages_for (sz + TAG) \<le> 0x1000"
    using assms(2) pages_for_bounds(1) by (auto simp: pages_for_def Let_def l_pageSize_def l_pageCount_def TAG_def)
  have "alloc_order (pages_for (sz + TAG)) = 0" "alloc_order 0x1000 = 0"
    using n by (simp_all add: alloc_order_def order_for.simps add64_def)
  then have e: "vmm_alloc (pages_for (sz + TAG)) (sys h) = vmm_alloc 0x1000 (sys h)" by (simp add: vmm_alloc_def pmm_alloc_def Let_def)
  obtain q s' where q: "vmm_alloc 0x1000 (sys h) = Some (q, s')" "0xFFFF800000000000 \<le> q"
    using vmm_alloc_high [OF assms(1)] by blast
  then have "unat q \<noteq> 0" by (auto simp: word_le_nat_alt)
  moreover have "cast32 (pages_for (sz + TAG) * l_pageSize) = pages_for (sz + TAG) * l_pageSize" "0x10000 \<le> pages_for (sz + TAG) * l_pageSize"
    using n by (simp_all add: cast32_def l_pageSize_def)
  ultimately show ?thesis using q(1) e by (simp add: allocate_new_tag_def Let_def c kernel_hooks_def)
qed

theorem kernel_heap_overcommits_witness:
  "\<exists>t h'. allocate_new_tag kernel_hooks 100 kernel_heap = Some (t, h') \<and> 0x10000 \<le> real_size h' t"
proof -
  have "mem_ok (sys kernel_heap)" "(100 :: nat) < 0xFFFF00" using demo_vmm_ok(1) by (simp_all add: kernel_heap_def)
  from kernel_heap_overcommits [OF this] show ?thesis by blast
qed

text \<open>
  the product of the sizes in \<open>calloc\<close> is cut to 32 bits: clearing 65536 objects of 65536 bytes each returns a block of no bytes.
\<close>

theorem calloc_overflow: "calloc hk 0x10000 0x10000 h = malloc hk 0 h \<bind> (\<lambda>(p, h). Some (p, liballoc_memset p 0 0 h))"
  by (simp add: calloc_def int_size_def cast32_def Let_def)

end
