(* ===== verification/Klibc.thy ===== *)
theory Klibc
  imports Prelude "HOL-Library.Monad_Syntax" "HOL-Library.Sublist"
begin

text \<open>
  The kernel's C library: \<open>klibc/cctype.cpp\<close> and the functions of \<open>klibc/cstring.cpp\<close> that allocate nothing.

  Memory is a function from addresses, natural numbers, to bytes; the null pointer is 0. A \<open>char\<close> is its byte. The comparisons of
  characters in the source are signed, but they are all with characters below 128 on both sides and come out the same. \<open>None\<close> is a loop that does
  not end or a signed overflow.
\<close>

section \<open>Characters\<close>

type_synonym mem = "nat \<Rightarrow> u8"

definition isspace :: "u8 \<Rightarrow> bool" where
  "isspace c \<longleftrightarrow> c = 32 \<or> c = 9 \<or> c = 10 \<or> c = 11 \<or> c = 12 \<or> c = 13"

definition isdigit :: "u8 \<Rightarrow> bool" where
  "isdigit c \<longleftrightarrow> c \<ge> 48 \<and> c \<le> 57"

definition isalpha :: "u8 \<Rightarrow> bool" where
  "isalpha c = (if c \<ge> 97 \<and> c \<le> 122 then True else if c \<ge> 65 \<and> c \<le> 90 then True else False)"

definition isalnum :: "u8 \<Rightarrow> bool" where
  "isalnum c \<longleftrightarrow> isalpha c \<or> isdigit c"

definition toupper :: "u8 \<Rightarrow> u8" where
  "toupper c = (if c \<ge> 97 \<and> c \<le> 122 then c + 0x20 else c)"

definition tolower :: "u8 \<Rightarrow> u8" where
  "tolower c = toupper c - 0x20"

section \<open>Memory\<close>

definition memcpy :: "nat \<Rightarrow> nat \<Rightarrow> nat \<Rightarrow> mem \<Rightarrow> mem" where
  "memcpy dest src n = for_up 0 n (\<lambda>i m. m(dest + i := m (src + i)))"

definition memset :: "nat \<Rightarrow> int \<Rightarrow> nat \<Rightarrow> mem \<Rightarrow> mem" where
  "memset s c n = for_up 0 n (\<lambda>i m. m(s + i := word_of_int c))"

definition memmove :: "nat \<Rightarrow> nat \<Rightarrow> nat \<Rightarrow> mem \<Rightarrow> mem" where
  "memmove dest src n m =
     (if src > dest then for_up 0 n (\<lambda>i m. m(dest + i := m (src + i))) m
      else if src < dest then for_down n 1 (\<lambda>i m. m(dest + (i - 1) := m (src + (i - 1)))) m
      else m)"

function memcmp_loop :: "mem \<Rightarrow> nat \<Rightarrow> nat \<Rightarrow> nat \<Rightarrow> nat \<Rightarrow> int" where
  "memcmp_loop m p1 p2 n i =
     (if i < n then
        if m (p1 + i) \<noteq> m (p2 + i) then if m (p1 + i) < m (p2 + i) then - 1 else 1
        else memcmp_loop m p1 p2 n (i + 1)
      else 0)"
  by pat_completeness auto
termination
  by (relation "measure (\<lambda>(m, p1, p2, n, i). n - i)") auto

declare memcmp_loop.simps [simp del]

definition memcmp :: "nat \<Rightarrow> nat \<Rightarrow> nat \<Rightarrow> mem \<Rightarrow> int" where
  "memcmp s1 s2 n m = memcmp_loop m s1 s2 n 0"

section \<open>Strings\<close>

text \<open>A loop that moves a pointer forward as long as a condition holds for the character there.\<close>

partial_function (option) scan :: "(u8 \<Rightarrow> bool option) \<Rightarrow> mem \<Rightarrow> nat \<Rightarrow> nat option" where
  "scan cond m p = do {
     b \<leftarrow> cond (m p);
     if b then scan cond m (p + 1) else Some p
   }"

text \<open>\<^verbatim>\<open>while ((*ptr++ = *src++))\<close>.\<close>

partial_function (option) copy_string :: "nat \<Rightarrow> nat \<Rightarrow> mem \<Rightarrow> mem option" where
  "copy_string ptr src m =
     (let c = m src; m = m(ptr := c) in if c \<noteq> 0 then copy_string (ptr + 1) (src + 1) m else Some m)"

definition strcpy :: "nat \<Rightarrow> nat \<Rightarrow> mem \<Rightarrow> mem option" where
  "strcpy dest src m = copy_string dest src m"

function strncpy_copy :: "nat \<Rightarrow> nat \<Rightarrow> nat \<Rightarrow> nat \<Rightarrow> mem \<Rightarrow> nat \<times> mem" where
  "strncpy_copy dest src n i m =
     (if i < n \<and> m (src + i) \<noteq> 0 then strncpy_copy dest src n (i + 1) (m(dest + i := m (src + i))) else (i, m))"
  by pat_completeness auto
termination
  by (relation "measure (\<lambda>(dest, src, n, i, m). n - i)") auto

declare strncpy_copy.simps [simp del]

definition strncpy :: "nat \<Rightarrow> nat \<Rightarrow> nat \<Rightarrow> mem \<Rightarrow> mem" where
  "strncpy dest src n m =
     (let (i, m) = strncpy_copy dest src n 0 m in for_up i n (\<lambda>i m. m(dest + i := 0)) m)"

text \<open>The length is an \<open>unsigned int\<close>.\<close>

partial_function (option) strlen_loop :: "mem \<Rightarrow> nat \<Rightarrow> nat \<Rightarrow> nat option" where
  "strlen_loop m str len =
     (if m (str + len) \<noteq> 0 then strlen_loop m str ((len + 1) mod 2 ^ 32) else Some len)"

definition strlen :: "nat \<Rightarrow> mem \<Rightarrow> nat option" where
  "strlen str m = strlen_loop m str 0"

partial_function (option) strcmp_loop :: "mem \<Rightarrow> nat \<Rightarrow> nat \<Rightarrow> int option" where
  "strcmp_loop m s1 s2 =
     (if m s1 \<noteq> 0 \<and> m s1 = m s2 then strcmp_loop m (s1 + 1) (s2 + 1) else Some (uint (m s1) - uint (m s2)))"

definition strcmp :: "nat \<Rightarrow> nat \<Rightarrow> mem \<Rightarrow> int option" where
  "strcmp s1 s2 m = strcmp_loop m s1 s2"

function strncmp_loop :: "mem \<Rightarrow> nat \<Rightarrow> nat \<Rightarrow> nat \<Rightarrow> nat \<Rightarrow> nat" where
  "strncmp_loop m s1 s2 n i =
     (if i < n \<and> m (s1 + i) \<noteq> 0 \<and> m (s1 + i) = m (s2 + i) then strncmp_loop m s1 s2 n (i + 1) else i)"
  by pat_completeness auto
termination
  by (relation "measure (\<lambda>(m, s1, s2, n, i). n - i)") auto

declare strncmp_loop.simps [simp del]

definition strncmp :: "nat \<Rightarrow> nat \<Rightarrow> nat \<Rightarrow> mem \<Rightarrow> int" where
  "strncmp s1 s2 n m =
     (let i = strncmp_loop m s1 s2 n 0 in if i = n then 0 else uint (m (s1 + i)) - uint (m (s2 + i)))"

definition strcat :: "nat \<Rightarrow> nat \<Rightarrow> mem \<Rightarrow> mem option" where
  "strcat dest src m = do {
     ptr \<leftarrow> scan (\<lambda>c. Some (c \<noteq> 0)) m dest;
     copy_string ptr src m
   }"

function strncat_copy :: "nat \<Rightarrow> nat \<Rightarrow> nat \<Rightarrow> nat \<Rightarrow> mem \<Rightarrow> nat \<times> mem" where
  "strncat_copy ptr src n i m =
     (if i < n \<and> m (src + i) \<noteq> 0 then strncat_copy (ptr + 1) src n (i + 1) (m(ptr := m (src + i))) else (ptr, m))"
  by pat_completeness auto
termination
  by (relation "measure (\<lambda>(ptr, src, n, i, m). n - i)") auto

declare strncat_copy.simps [simp del]

definition strncat :: "nat \<Rightarrow> nat \<Rightarrow> nat \<Rightarrow> mem \<Rightarrow> mem option" where
  "strncat dest src n m = do {
     ptr \<leftarrow> scan (\<lambda>c. Some (c \<noteq> 0)) m dest;
     let (ptr, m) = strncat_copy ptr src n 0 m;
     Some (m(ptr := 0))
   }"

section \<open>Searching\<close>

partial_function (option) strchr :: "mem \<Rightarrow> nat \<Rightarrow> u8 \<Rightarrow> nat option" where
  "strchr m str c =
     (if m str \<noteq> 0 then if m str = c then Some str else strchr m (str + 1) c else Some 0)"

partial_function (option) strrchr_loop :: "mem \<Rightarrow> nat \<Rightarrow> u8 \<Rightarrow> nat \<Rightarrow> nat option" where
  "strrchr_loop m s c found =
     (if m s \<noteq> 0 then strrchr_loop m (s + 1) c (if m s = c then s else found) else Some found)"

definition strrchr :: "mem \<Rightarrow> nat \<Rightarrow> u8 \<Rightarrow> nat option" where
  "strrchr m s c = strrchr_loop m s c 0"

text \<open>The inner loop of \<open>strstr\<close>: the pointer into the needle in the end.\<close>

partial_function (option) match_loop :: "mem \<Rightarrow> nat \<Rightarrow> nat \<Rightarrow> nat option" where
  "match_loop m h n =
     (if m h \<noteq> 0 \<and> m n \<noteq> 0 \<and> m h = m n then match_loop m (h + 1) (n + 1) else Some n)"

partial_function (option) strstr_loop :: "mem \<Rightarrow> nat \<Rightarrow> nat \<Rightarrow> nat option" where
  "strstr_loop m haystack needle =
     (if m haystack \<noteq> 0 then do {
        n \<leftarrow> match_loop m haystack needle;
        if m n = 0 then Some haystack else strstr_loop m (haystack + 1) needle
      }
      else Some 0)"

definition strstr :: "mem \<Rightarrow> nat \<Rightarrow> nat \<Rightarrow> nat option" where
  "strstr m haystack needle = (if m needle = 0 then Some haystack else strstr_loop m haystack needle)"

section \<open>Tokens\<close>

definition is_delim :: "mem \<Rightarrow> nat \<Rightarrow> u8 \<Rightarrow> bool option" where
  "is_delim m delim c = do { q \<leftarrow> strchr m delim c; Some (q \<noteq> 0) }"

definition skip_delims :: "mem \<Rightarrow> nat \<Rightarrow> nat \<Rightarrow> nat option" where
  "skip_delims m delim = scan (\<lambda>c. if c = 0 then Some False else is_delim m delim c) m"

definition to_delim :: "mem \<Rightarrow> nat \<Rightarrow> nat \<Rightarrow> nat option" where
  "to_delim m delim = scan (\<lambda>c. if c = 0 then Some False else map_option Not (is_delim m delim c)) m"

text \<open>The token, the pointer to go on with and the memory.\<close>

definition strtok_r :: "nat \<Rightarrow> nat \<Rightarrow> nat \<Rightarrow> mem \<Rightarrow> (nat \<times> nat \<times> mem) option" where
  "strtok_r str delim saveptr m =
     (let saveptr = (if str \<noteq> 0 then str else saveptr) in
      if saveptr = 0 then Some (0, saveptr, m)
      else do {
        s \<leftarrow> skip_delims m delim saveptr;
        if m s = 0 then Some (0, 0, m)
        else do {
          let token = s;
          s \<leftarrow> to_delim m delim s;
          if m s = 0 then Some (token, 0, m)
          else Some (token, s + 1, m(s := 0))
        }
      })"

text \<open>\<open>strtok\<close> keeps the pointer in its static variable \<open>next\<close>.\<close>

definition strtok :: "nat \<Rightarrow> nat \<Rightarrow> nat \<Rightarrow> mem \<Rightarrow> (nat \<times> nat \<times> mem) option" where
  "strtok str delim nxt m =
     (let nxt = (if str \<noteq> 0 then str else nxt) in
      if nxt = 0 then Some (0, nxt, m)
      else do {
        start \<leftarrow> skip_delims m delim nxt;
        if m start = 0 then Some (0, 0, m)
        else do {
          end' \<leftarrow> to_delim m delim start;
          if m end' \<noteq> 0 then Some (start, end' + 1, m(end' := 0))
          else Some (start, 0, m)
        }
      })"

section \<open>Numbers\<close>

text \<open>Both return the value and what is stored to \<open>endptr\<close>.\<close>

partial_function (option) strtod_loop :: "mem \<Rightarrow> nat \<Rightarrow> u64 \<Rightarrow> (u64 \<times> nat) option" where
  "strtod_loop m s result =
     (if isdigit (m s) then strtod_loop m (s + 1) (result * 10 + (ucast (m s) - 48)) else Some (result, s))"

definition strtod :: "mem \<Rightarrow> nat \<Rightarrow> (u64 \<times> nat) option" where
  "strtod m nptr = do {
     s \<leftarrow> scan (\<lambda>c. Some (c = 32 \<or> c = 9 \<or> c = 10)) m nptr;
     let (neg, s) = (if m s = 43 then (False, s + 1) else if m s = 45 then (True, s + 1) else (False, s));
     (result, s) \<leftarrow> strtod_loop m s 0;
     Some (if neg then - result else result, s)
   }"

definition strtol_digit :: "u8 \<Rightarrow> int option" where
  "strtol_digit c =
     (if c \<ge> 48 \<and> c \<le> 57 then Some (uint c - 48)
      else if c \<ge> 97 \<and> c \<le> 122 then Some (uint c - 97 + 10)
      else if c \<ge> 65 \<and> c \<le> 90 then Some (uint c - 65 + 10)
      else None)"

partial_function (option) strtol_loop :: "mem \<Rightarrow> int \<Rightarrow> nat \<Rightarrow> int \<Rightarrow> (int \<times> nat) option" where
  "strtol_loop m base s result =
     (if m s \<noteq> 0 then
        (case strtol_digit (m s) of
           None \<Rightarrow> Some (result, s)
         | Some digit \<Rightarrow>
             if digit \<ge> base then Some (result, s)
             else if result * base + digit \<ge> 2 ^ 63 then None
             else strtol_loop m base (s + 1) (result * base + digit))
      else Some (result, s))"

text \<open>The base and the start of the digits after a prefix.\<close>

definition strtol_prefix :: "mem \<Rightarrow> int \<Rightarrow> nat \<Rightarrow> int \<times> nat" where
  "strtol_prefix m base s =
     (if base = 0 then
        if m s = 48 then if m (s + 1) = 120 \<or> m (s + 1) = 88 then (16, s + 2) else (8, s + 1)
        else (10, s)
      else if base = 16 \<and> m s = 48 \<and> (m (s + 1) = 120 \<or> m (s + 1) = 88) then (base, s + 2)
      else (base, s))"

definition strtol :: "mem \<Rightarrow> nat \<Rightarrow> int \<Rightarrow> (int \<times> nat) option" where
  "strtol m nptr base = do {
     s \<leftarrow> scan (\<lambda>c. Some (c = 32 \<or> c = 9 \<or> c = 10 \<or> c = 13 \<or> c = 12 \<or> c = 11)) m nptr;
     let (neg, s) = (if m s = 45 then (True, s + 1) else if m s = 43 then (False, s + 1) else (False, s));
     let (base, start) = strtol_prefix m base s;
     (result, s) \<leftarrow> strtol_loop m base start 0;
     Some (if s = start then (0, nptr) else (if neg then - result else result, s))
   }"

end
