(* ===== verification/Klibc_Spec.thy ===== *)
theory Klibc_Spec
  imports Klibc
begin

text \<open>
  What the functions of the kernel's C library compute: copies between ranges that overlap, strings as lists of bytes, tokens,
  and numbers in text.
\<close>

section \<open>Memory\<close>

text \<open>Copying upward is right when the destination is below the source, copying downward when it is above.\<close>

lemma copy_up:
  assumes "d < s \<or> s + n \<le> d"
  shows "for_up 0 n (\<lambda>i m. m(d + i := m (s + i))) m = (\<lambda>a. if d \<le> a \<and> a < d + n then m (s + (a - d)) else m a)"
  using assms
proof (induction n)
  case 0
  show ?case by (rule ext) auto
next
  case (Suc n)
  have IH: "for_up 0 n (\<lambda>i m. m(d + i := m (s + i))) m = (\<lambda>a. if d \<le> a \<and> a < d + n then m (s + (a - d)) else m a)"
    using Suc.prems by (intro Suc.IH) linarith
  have "\<not> (d \<le> s + n \<and> s + n < d + n)" using Suc.prems by linarith
  then show ?case unfolding for_up_last [OF le0] IH by (intro ext) auto
qed

lemma copy_down:
  assumes "s < d"
  shows "for_down n 1 (\<lambda>i m. m(d + (i - 1) := m (s + (i - 1)))) m = (\<lambda>a. if d \<le> a \<and> a < d + n then m (s + (a - d)) else m a)"
proof (induction n arbitrary: m)
  case 0
  show ?case by (rule ext) auto
next
  case (Suc n)
  have "for_down (Suc n) 1 (\<lambda>i m. m(d + (i - 1) := m (s + (i - 1)))) m =
    for_down n 1 (\<lambda>i m. m(d + (i - 1) := m (s + (i - 1)))) (m(d + n := m (s + n)))"
    by (subst for_down_step) simp_all
  also have "\<dots> = (\<lambda>a. if d \<le> a \<and> a < d + n then (m(d + n := m (s + n))) (s + (a - d)) else (m(d + n := m (s + n))) a)" by (rule Suc.IH)
  also have "\<dots> = (\<lambda>a. if d \<le> a \<and> a < d + Suc n then m (s + (a - d)) else m a)"
  proof
    fix a
    have "s + (a - d) \<noteq> d + n" if "d \<le> a" "a < d + n" using assms that by linarith
    then show "(if d \<le> a \<and> a < d + n then (m(d + n := m (s + n))) (s + (a - d)) else (m(d + n := m (s + n))) a) =
      (if d \<le> a \<and> a < d + Suc n then m (s + (a - d)) else m a)" by auto
  qed
  finally show ?case .
qed

lemma memcpy_ok:
  assumes "d + n \<le> s \<or> s + n \<le> d"
  shows "memcpy d s n m = (\<lambda>a. if d \<le> a \<and> a < d + n then m (s + (a - d)) else m a)"
proof (cases "n = 0")
  case True
  then show ?thesis by (auto simp: memcpy_def fun_eq_iff)
next
  case False
  then show ?thesis unfolding memcpy_def using assms by (intro copy_up) linarith
qed

text \<open>
  \<open>memmove\<close> copies a range of bytes as if through a temporary buffer, however the source and the destination overlap, and touches
  nothing else.
\<close>

theorem memmove_copies:
  "memmove d s n m = (\<lambda>a. if a \<in> {d ..< d + n} then m (s + (a - d)) else m a)"
proof -
  consider "d < s" | "s < d" | "d = s" by linarith
  then show ?thesis
  proof cases
    case 1
    then show ?thesis using copy_up [of d s n m] by (simp add: memmove_def)
  next
    case 2
    then show ?thesis using copy_down [OF 2, of n m] by (simp add: memmove_def)
  next
    case 3
    then show ?thesis by (auto simp: memmove_def)
  qed
qed

section \<open>Strings\<close>

fun cstr :: "mem \<Rightarrow> nat \<Rightarrow> u8 list \<Rightarrow> bool" where
  "cstr m p [] \<longleftrightarrow> m p = 0"
| "cstr m p (c # cs) \<longleftrightarrow> m p = c \<and> c \<noteq> 0 \<and> cstr m (p + 1) cs"

lemma cstr_nth: "cstr m p s \<longleftrightarrow> (\<forall>i < length s. m (p + i) = s ! i \<and> s ! i \<noteq> 0) \<and> m (p + length s) = 0"
proof (induction s arbitrary: p)
  case Nil
  show ?case by simp
next
  case (Cons c cs)
  show ?case unfolding cstr.simps Cons.IH by (auto simp: less_Suc_eq_0_disj)
qed

lemma cstr_drop: "cstr m p s \<Longrightarrow> i \<le> length s \<Longrightarrow> cstr m (p + i) (drop i s)"
proof (induction s arbitrary: p i)
  case (Cons c cs)
  then show ?case using Cons.IH [of "p + 1" "i - 1"] by (cases i) auto
qed simp

lemma cstr_cong: "cstr m p s \<Longrightarrow> (\<And>i. i \<le> length s \<Longrightarrow> m' (p + i) = m (p + i)) \<Longrightarrow> cstr m' p s"
  by (simp add: cstr_nth)

lemma cstr_at: "cstr m p s \<Longrightarrow> i < length s \<Longrightarrow> m (p + i) = s ! i" "cstr m p s \<Longrightarrow> m (p + length s) = 0"
  by (simp_all add: cstr_nth)

lemma scan_ok:
  assumes "cstr m p s" "\<And>c. c = 0 \<or> c \<in> set s \<Longrightarrow> cond c = Some (P c)" "\<not> P 0"
  shows "scan cond m p = Some (p + length (takeWhile P s))"
  using assms
proof (induction s arbitrary: p)
  case Nil
  then show ?case by (subst scan.simps) auto
next
  case (Cons c cs)
  have "scan cond m (p + 1) = Some (p + 1 + length (takeWhile P cs))" using Cons.prems by (intro Cons.IH) auto
  then show ?case using Cons.prems by (subst scan.simps) auto
qed

lemma scan_end: "cstr m p s \<Longrightarrow> scan (\<lambda>c. Some (c \<noteq> 0)) m p = Some (p + length s)"
proof -
  assume c: "cstr m p s"
  then have "takeWhile (\<lambda>c. c \<noteq> 0) s = s" unfolding takeWhile_eq_all_conv by (metis cstr_nth in_set_conv_nth)
  moreover have "scan (\<lambda>c. Some (c \<noteq> 0)) m p = Some (p + length (takeWhile (\<lambda>c. c \<noteq> 0) s))" by (rule scan_ok [OF c]) simp_all
  ultimately show ?thesis by (simp only:)
qed

lemma strlen_loop_ok: "cstr m (p + k) s \<Longrightarrow> k + length s < 2 ^ 32 \<Longrightarrow> strlen_loop m p k = Some (k + length s)"
proof (induction s arbitrary: k)
  case Nil
  then show ?case by (subst strlen_loop.simps) simp
next
  case (Cons c cs)
  then have "strlen_loop m p (k + 1) = Some (k + 1 + length cs)" by (intro Cons.IH) simp_all
  moreover have "(k + 1) mod 2 ^ 32 = k + 1" using Cons.prems by simp
  ultimately show ?case using Cons.prems by (subst strlen_loop.simps) simp
qed

lemma copy_string_ok:
  "cstr m p s \<Longrightarrow> d + length s < p \<or> p + length s < d \<Longrightarrow>
   copy_string d p m = Some (\<lambda>a. if d \<le> a \<and> a \<le> d + length s then m (p + (a - d)) else m a)"
proof (induction s arbitrary: d p m)
  case Nil
  have "m(d := m p) = (\<lambda>a. if d \<le> a \<and> a \<le> d then m (p + (a - d)) else m a)" by (auto simp: fun_eq_iff)
  then show ?case using Nil by (subst copy_string.simps) simp
next
  case (Cons c cs)
  have d: "d < p \<or> p + length (c # cs) < d" using Cons.prems(2) by auto
  have "cstr (m(d := m p)) (p + 1) cs"
  proof (rule cstr_cong)
    show "cstr m (p + 1) cs" using Cons.prems(1) by simp
    show "(m(d := m p)) (p + 1 + i) = m (p + 1 + i)" if "i \<le> length cs" for i using d that by (simp add: fun_upd_def) linarith
  qed
  moreover have "d + 1 + length cs < p + 1 \<or> p + 1 + length cs < d + 1" using Cons.prems(2) by auto
  ultimately have "copy_string (d + 1) (p + 1) (m(d := m p)) =
      Some (\<lambda>a. if d + 1 \<le> a \<and> a \<le> d + 1 + length cs then (m(d := m p)) (p + 1 + (a - (d + 1))) else (m(d := m p)) a)" by (rule Cons.IH)
  moreover have "(if d + 1 \<le> a \<and> a \<le> d + 1 + length cs then (m(d := m p)) (p + 1 + (a - (d + 1))) else (m(d := m p)) a) =
      (if d \<le> a \<and> a \<le> d + length (c # cs) then m (p + (a - d)) else m a)" for a
  proof -
    have "p + 1 + (a - (d + 1)) \<noteq> d \<and> p + 1 + (a - (d + 1)) = p + (a - d)" if "d + 1 \<le> a" "a \<le> d + 1 + length cs" using that d by auto
    then show ?thesis by auto
  qed
  ultimately show ?case using Cons.prems(1) by (subst copy_string.simps) (simp add: Let_def)
qed


lemma cstr_append: "cstr m p s \<Longrightarrow> cstr m' (p + length s) t \<Longrightarrow> (\<And>i. i < length s \<Longrightarrow> m' (p + i) = m (p + i)) \<Longrightarrow> cstr m' p (s @ t)"
proof (induction s arbitrary: p)
  case (Cons c cs)
  have "cstr m' (p + 1) (cs @ t)"
  proof (rule Cons.IH)
    show "cstr m (p + 1) cs" "cstr m' (p + 1 + length cs) t" using Cons.prems(1,2) by simp_all
    show "m' (p + 1 + i) = m (p + 1 + i)" if "i < length cs" for i using Cons.prems(3) [of "Suc i"] that by simp
  qed
  then show ?case using Cons.prems(1) Cons.prems(3) [of 0] by simp
qed simp

lemma copied_cstr:
  "cstr m p s \<Longrightarrow> cstr (\<lambda>a. if d \<le> a \<and> a \<le> d + length s then m (p + (a - d)) else m a) d s"
  by (simp add: cstr_nth)

text \<open>
  strings. \<open>strlen\<close> returns the length, \<open>strcpy\<close> leaves a copy at its destination and \<open>strcat\<close> the concatenation of its arguments, when the destination
  does not overlap the source; they end and write nothing outside.
\<close>

theorem string_functions:
  assumes "cstr m p s" "cstr m q t" "length s < 2 ^ 32" "q + length s + length t < p \<or> p + length s < q"
  shows "strlen p m = Some (length s) \<and>
    (\<exists>m'. strcpy q p m = Some m' \<and> cstr m' q s \<and> (\<forall>a. a \<notin> {q .. q + length s} \<longrightarrow> m' a = m a)) \<and>
    (\<exists>m'. strcat q p m = Some m' \<and> cstr m' q (t @ s) \<and> (\<forall>a. a \<notin> {q .. q + length t + length s} \<longrightarrow> m' a = m a))"
proof (intro conjI)
  show "strlen p m = Some (length s)" using strlen_loop_ok [of m p 0 s] assms(1,3) by (simp add: strlen_def)
  have "q + length s < p \<or> p + length s < q" using assms(4) by linarith
  from copy_string_ok [OF assms(1) this]
  show "\<exists>m'. strcpy q p m = Some m' \<and> cstr m' q s \<and> (\<forall>a. a \<notin> {q .. q + length s} \<longrightarrow> m' a = m a)"
    using copied_cstr [OF assms(1)] unfolding strcpy_def by (intro exI conjI) (assumption | simp)+
  let ?e = "q + length t"
  have "?e + length s < p \<or> p + length s < ?e" using assms(4) by linarith
  note c = copy_string_ok [OF assms(1) this]
  define m' where "m' = (\<lambda>a. if ?e \<le> a \<and> a \<le> ?e + length s then m (p + (a - ?e)) else m a)"
  have "strcat q p m = Some m'" using c scan_end [OF assms(2)] by (simp add: strcat_def m'_def)
  moreover have "cstr m' q (t @ s)"
    by (rule cstr_append [OF assms(2)]) (use copied_cstr [OF assms(1), of ?e] in \<open>simp_all add: m'_def\<close>)
  ultimately show "\<exists>m'. strcat q p m = Some m' \<and> cstr m' q (t @ s) \<and> (\<forall>a. a \<notin> {q .. q + length t + length s} \<longrightarrow> m' a = m a)"
    by (intro exI [of _ m']) (auto simp: m'_def)
qed

section \<open>Comparison and search\<close>

text \<open>The order of strings as lists of unsigned bytes.\<close>

fun compare :: "u8 list \<Rightarrow> u8 list \<Rightarrow> int" where
  "compare [] [] = 0"
| "compare [] (d # ds) = - uint d"
| "compare (c # cs) [] = uint c"
| "compare (c # cs) (d # ds) = (if c = d then compare cs ds else uint c - uint d)"

lemma strcmp_compare: "cstr m p s \<Longrightarrow> cstr m q t \<Longrightarrow> strcmp p q m = Some (compare s t)"
  unfolding strcmp_def
proof (induction s t arbitrary: p q rule: compare.induct)
  case (4 c cs d ds)
  then show ?case by (subst strcmp_loop.simps) auto
qed (subst strcmp_loop.simps, auto)+

lemma uint_pos: "(c :: u8) \<noteq> 0 \<Longrightarrow> 0 < uint c"
  using uint_ge_0 [of c] by (simp add: order_less_le uint_0_iff)

lemma uint_inj: "uint (c :: u8) = uint d \<Longrightarrow> c = d"
  by (rule word_uint_eqI)

lemma compare_eq: "0 \<notin> set s \<Longrightarrow> 0 \<notin> set t \<Longrightarrow> compare s t = 0 \<longleftrightarrow> s = t"
  by (induction s t rule: compare.induct) (auto simp: uint_0_iff dest: uint_inj)

lemma compare_less: "0 \<notin> set s \<Longrightarrow> 0 \<notin> set t \<Longrightarrow> compare s t < 0 \<longleftrightarrow> ord_class.lexordp s t"
  by (induction s t rule: compare.induct) (auto simp: uint_pos word_less_def order_less_le word_uint_eq_iff)

lemma cstr_no_zero: "cstr m p s \<Longrightarrow> 0 \<notin> set s"
  by (metis cstr_nth in_set_conv_nth)

text \<open>
  \<open>strcmp\<close> compares in the order of lists of unsigned bytes: the result is zero exactly for equal strings and negative exactly when the
  first one comes first.
\<close>

theorem strcmp_order:
  assumes "cstr m p s" "cstr m q t"
  shows "\<exists>r. strcmp p q m = Some r \<and> (r = 0 \<longleftrightarrow> s = t) \<and> (r < 0 \<longleftrightarrow> ord_class.lexordp s t)"
  using strcmp_compare [OF assms] compare_eq compare_less cstr_no_zero assms by blast

lemma strchr_ok:
  "cstr m p s \<Longrightarrow> c \<noteq> 0 \<Longrightarrow> strchr m p c = Some (if c \<in> set s then p + length (takeWhile (\<lambda>x. x \<noteq> c) s) else 0)"
proof (induction s arbitrary: p)
  case Nil
  then show ?case by (subst strchr.simps) simp
next
  case (Cons a as)
  then show ?case using Cons.IH [of "p + 1"] by (subst strchr.simps) auto
qed

lemma match_loop_ok:
  "cstr m h s \<Longrightarrow> cstr m n t \<Longrightarrow> \<exists>i \<le> length t. match_loop m h n = Some (n + i) \<and> (i = length t \<longleftrightarrow> prefix t s)"
proof (induction t arbitrary: h n s)
  case Nil
  then show ?case by (subst match_loop.simps) simp
next
  case (Cons c cs)
  show ?case
  proof (cases "s \<noteq> [] \<and> hd s = c")
    case True
    then obtain ss where s: "s = c # ss" by (cases s) auto
    with Cons.prems obtain i where "i \<le> length cs" "match_loop m (h + 1) (n + 1) = Some (n + 1 + i)" "i = length cs \<longleftrightarrow> prefix cs ss"
      using Cons.IH [of "h + 1" ss "n + 1"] by auto
    then show ?thesis using Cons.prems s by (intro exI [of _ "Suc i"]) (subst match_loop.simps, auto)
  next
    case False
    then have "\<not> prefix (c # cs) s" "m h = 0 \<or> m h \<noteq> m n" using Cons.prems by (cases s; auto)+
    then show ?thesis by (intro exI [of _ 0]) (subst match_loop.simps, auto)
  qed
qed

text \<open>The first position at which \<open>t\<close> occurs in \<open>s\<close>.\<close>

definition first_at :: "u8 list \<Rightarrow> u8 list \<Rightarrow> nat \<Rightarrow> bool" where
  "first_at t s i \<longleftrightarrow> i \<le> length s \<and> prefix t (drop i s) \<and> (\<forall>j < i. \<not> prefix t (drop j s))"

lemma first_at_0: "prefix t s \<Longrightarrow> first_at t s 0"
  by (simp add: first_at_def)

lemma first_at_Suc: "\<not> prefix t (c # cs) \<Longrightarrow> first_at t cs k \<Longrightarrow> first_at t (c # cs) (Suc k)"
  unfolding first_at_def by (auto simp: less_Suc_eq_0_disj simp del: prefix_Cons)

lemma first_at_sublist: "first_at t s i \<Longrightarrow> sublist t s"
  unfolding first_at_def using sublist_order.order_trans [OF prefix_imp_sublist sublist_drop] by metis

lemma strstr_loop_ok:
  "cstr m h s \<Longrightarrow> cstr m n t \<Longrightarrow> t \<noteq> [] \<Longrightarrow> h \<noteq> 0 \<Longrightarrow>
   (strstr_loop m h n = Some 0 \<and> \<not> sublist t s) \<or> (\<exists>i. strstr_loop m h n = Some (h + i) \<and> first_at t s i)"
proof (induction s arbitrary: h)
  case Nil
  then show ?case by (subst strstr_loop.simps) simp
next
  case (Cons c cs)
  obtain i where i: "i \<le> length t" "match_loop m h n = Some (n + i)" "i = length t \<longleftrightarrow> prefix t (c # cs)"
    using match_loop_ok [OF Cons.prems(1,2)] by blast
  have z: "m (n + i) = 0 \<longleftrightarrow> prefix t (c # cs)"
    using i(1,3) Cons.prems(2) by (metis cstr_nth order_le_less)
  have h: "m h \<noteq> 0" "cstr m (h + 1) cs" "h + 1 \<noteq> 0" using Cons.prems(1) by simp_all
  show ?case
  proof (cases "prefix t (c # cs)")
    case True
    then have "strstr_loop m h n = Some (h + 0)" using h(1) i(2) z by (subst strstr_loop.simps) (simp del: prefix_Cons)
    then show ?thesis using first_at_0 [OF True] by blast
  next
    case False
    then have e: "strstr_loop m h n = strstr_loop m (h + 1) n" using h(1) i(2) z by (subst strstr_loop.simps) (simp del: prefix_Cons)
    from Cons.IH [OF h(2) Cons.prems(2,3) h(3)] show ?thesis
    proof
      assume "strstr_loop m (h + 1) n = Some 0 \<and> \<not> sublist t cs"
      then show ?thesis using e False by (simp add: sublist_Cons_right)
    next
      assume "\<exists>i. strstr_loop m (h + 1) n = Some (h + 1 + i) \<and> first_at t cs i"
      then obtain k where "strstr_loop m h n = Some (h + Suc k)" "first_at t cs k" unfolding e by auto
      then show ?thesis using first_at_Suc [OF False] by blast
    qed
  qed
qed

text \<open>
  C21: \<open>strstr\<close> finds the first occurrence of the needle; it returns the null pointer exactly when there is none.
\<close>

theorem strstr_first:
  assumes "cstr m h s" "cstr m n t" "h \<noteq> 0"
  shows "if sublist t s then \<exists>i. strstr m h n = Some (h + i) \<and> first_at t s i else strstr m h n = Some 0"
proof (cases "t = []")
  case True
  then have "strstr m h n = Some (h + 0)" using assms(2) by (simp add: strstr_def)
  moreover have "first_at t s 0" "sublist t s" using True by (simp_all add: first_at_0)
  ultimately show ?thesis by (simp only: if_True) blast
next
  case False
  then have "m n \<noteq> 0" using assms(2) by (cases t) auto
  then have "strstr m h n = strstr_loop m h n" by (simp add: strstr_def)
  with strstr_loop_ok [OF assms(1,2) False assms(3)] first_at_sublist [of t s] show ?thesis by auto
qed

section \<open>Tokens\<close>

lemma is_delim_ok: "cstr m q ds \<Longrightarrow> c \<noteq> 0 \<Longrightarrow> q \<noteq> 0 \<Longrightarrow> is_delim m q c = Some (c \<in> set ds)"
  by (simp add: is_delim_def strchr_ok)

lemma skip_delims_ok:
  assumes "cstr m p s" "cstr m q ds" "q \<noteq> 0"
  shows "skip_delims m q p = Some (p + length (takeWhile (\<lambda>c. c \<noteq> 0 \<and> c \<in> set ds) s))"
  unfolding skip_delims_def by (rule scan_ok [OF assms(1)]) (use is_delim_ok [OF assms(2)] assms(3) in auto)

lemma to_delim_ok:
  assumes "cstr m p s" "cstr m q ds" "q \<noteq> 0"
  shows "to_delim m q p = Some (p + length (takeWhile (\<lambda>c. c \<noteq> 0 \<and> c \<notin> set ds) s))"
  unfolding to_delim_def by (rule scan_ok [OF assms(1)]) (use is_delim_ok [OF assms(2)] assms(3) in auto)

text \<open>The tokens of a string.\<close>

function tokens :: "u8 set \<Rightarrow> u8 list \<Rightarrow> u8 list list" where
  "tokens D s =
     (let r = dropWhile (\<lambda>c. c \<in> D) s
      in if r = [] then [] else takeWhile (\<lambda>c. c \<notin> D) r # tokens D (drop 1 (dropWhile (\<lambda>c. c \<notin> D) r)))"
  by pat_completeness auto
termination
proof (relation "measure (\<lambda>(D, s). length s)")
  fix D :: "u8 set" and s r
  assume r: "r = dropWhile (\<lambda>c. c \<in> D) s" "r \<noteq> []"
  have "length (dropWhile (\<lambda>c. c \<notin> D) r) \<le> length r" by (rule length_dropWhile_le)
  moreover have "length r \<le> length s" unfolding r(1) by (rule length_dropWhile_le)
  moreover have "0 < length r" using r(2) by simp
  ultimately have "length (dropWhile (\<lambda>c. c \<notin> D) r) - 1 < length s" by linarith
  then show "((D, drop 1 (dropWhile (\<lambda>c. c \<notin> D) r)), (D, s)) \<in> measure (\<lambda>(D, s). length s)" by simp
qed simp

declare tokens.simps [simp del]

lemma takeWhile_cstr:
  assumes "cstr m p s"
  shows "takeWhile (\<lambda>c. c \<noteq> 0 \<and> P c) s = takeWhile P s"
  by (rule takeWhile_cong) (use cstr_no_zero [OF assms] in auto)

lemma cstr_dropWhile: "cstr m p s \<Longrightarrow> cstr m (p + length (takeWhile P s)) (dropWhile P s)"
  using cstr_drop [of m p s "length (takeWhile P s)"] by (simp add: dropWhile_eq_drop length_takeWhile_le)

lemma cstr_take:
  assumes "cstr m p s" "k < length s"
  shows "cstr (m(p + k := 0)) p (take k s)"
  using assms by (simp add: cstr_nth)

lemma cstr_end: "cstr m p s \<Longrightarrow> m p = 0 \<longleftrightarrow> s = []"
  by (cases s) auto

lemma strtok_r_step:
  assumes "cstr m p s" "cstr m q ds" "p \<noteq> 0" "q \<noteq> 0"
  defines "D \<equiv> set ds" and "r \<equiv> dropWhile (\<lambda>c. c \<in> set ds) s"
  defines "t \<equiv> p + length (takeWhile (\<lambda>c. c \<in> set ds) s)" and "tok \<equiv> takeWhile (\<lambda>c. c \<notin> set ds) r"
  shows "r = [] \<Longrightarrow> strtok_r 0 q p m = Some (0, 0, m)"
    and "r \<noteq> [] \<Longrightarrow> length tok = length r \<Longrightarrow> strtok_r 0 q p m = Some (t, 0, m)"
    and "r \<noteq> [] \<Longrightarrow> length tok < length r \<Longrightarrow> strtok_r 0 q p m = Some (t, t + length tok + 1, m(t + length tok := 0))"
proof -
  have r: "cstr m t r" unfolding t_def r_def by (rule cstr_dropWhile [OF assms(1)])
  have sk: "skip_delims m q p = Some t"
    using skip_delims_ok [OF assms(1,2,4)] unfolding takeWhile_cstr [OF assms(1)] t_def .
  have td: "to_delim m q t = Some (t + length tok)"
    using to_delim_ok [OF r assms(2,4)] unfolding takeWhile_cstr [OF r] tok_def .
  show "r = [] \<Longrightarrow> strtok_r 0 q p m = Some (0, 0, m)"
    using sk cstr_end [OF r] assms(3) by (simp add: strtok_r_def Let_def)
  show "r \<noteq> [] \<Longrightarrow> length tok = length r \<Longrightarrow> strtok_r 0 q p m = Some (t, 0, m)"
    using sk td cstr_end [OF r] cstr_at(2) [OF r] assms(3) by (simp add: strtok_r_def Let_def)
  show "strtok_r 0 q p m = Some (t, t + length tok + 1, m(t + length tok := 0))" if "r \<noteq> []" "length tok < length r"
  proof -
    have "m (t + length tok) \<noteq> 0" using r that(2) by (auto simp: cstr_nth)
    then show ?thesis using sk td cstr_end [OF r] that(1) assms(3) by (simp add: strtok_r_def Let_def)
  qed
qed

lemma strtok_r_first: "str \<noteq> 0 \<Longrightarrow> strtok_r str q sv m = strtok_r 0 q str m"
  by (simp add: strtok_r_def)

text \<open>Calls of \<open>strtok_r\<close> until it returns the null pointer, at most as many as given.\<close>

fun strtok_all :: "nat \<Rightarrow> nat \<Rightarrow> nat \<Rightarrow> mem \<Rightarrow> (nat list \<times> mem) option" where
  "strtok_all 0 delim saveptr m = None"
| "strtok_all (Suc k) delim saveptr m = do {
     (token, saveptr, m) \<leftarrow> strtok_r 0 delim saveptr m;
     if token = 0 then Some ([], m)
     else do {
       (ts, m) \<leftarrow> strtok_all k delim saveptr m;
       Some (token # ts, m)
     }
   }"

lemma strtok_all_null: "strtok_all (Suc k) q 0 m = Some ([], m)"
  by (simp add: strtok_r_def)

lemma strtok_all_ok:
  assumes "cstr m p s" "cstr m q ds" "p \<noteq> 0" "q \<noteq> 0" "q + length ds < p \<or> p + length s < q" "length s < k"
  shows "\<exists>ts m'. strtok_all (Suc k) q p m = Some (ts, m') \<and> list_all2 (cstr m') ts (tokens (set ds) s) \<and>
    (\<forall>a. a \<notin> {p ..< p + length s} \<longrightarrow> m' a = m a)"
  using assms
proof (induction k arbitrary: p s m)
  case 0
  then show ?case by simp
next
  case (Suc k)
  define D where "D = set ds"
  define r where "r = dropWhile (\<lambda>c. c \<in> D) s"
  define t where "t = p + length (takeWhile (\<lambda>c. c \<in> D) s)"
  define tok where "tok = takeWhile (\<lambda>c. c \<notin> D) r"
  note step = strtok_r_step [OF Suc.prems(1-4), folded D_def, folded r_def, folded t_def, folded tok_def]
  have r: "cstr m t r" unfolding t_def r_def by (rule cstr_dropWhile [OF Suc.prems(1)])
  have len: "t + length r = p + length s" "t \<noteq> 0"
    using arg_cong [OF takeWhile_dropWhile_id [of "\<lambda>c. c \<in> D" s], of length] Suc.prems(3) by (auto simp: t_def r_def simp del: takeWhile_dropWhile_id)
  show ?case
  proof (cases "r = []")
    case True
    then have "tokens D s = []" by (subst tokens.simps) (simp add: r_def Let_def)
    then show ?thesis using step(1) [OF True] by (intro exI [of _ "[]"] exI [of _ m]) (simp add: D_def)
  next
    case False
    define rest where "rest = drop 1 (dropWhile (\<lambda>c. c \<notin> D) r)"
    have toks: "tokens D s = tok # tokens D rest" using False by (subst tokens.simps) (simp add: r_def [symmetric] tok_def rest_def Let_def)
    have split: "r = tok @ dropWhile (\<lambda>c. c \<notin> D) r" by (simp add: tok_def)
    show ?thesis
    proof (cases "length tok = length r")
      case True
      then have "rest = []" "tok = r" using split by (metis append_eq_conv_conj length_append drop_Nil rest_def drop_eq_Nil append_Nil2 le_refl, metis append_eq_conv_conj take_all le_refl split)
      then have "tokens D rest = []" by (subst tokens.simps) simp
      moreover have "strtok_all (Suc (Suc k)) q p m = Some ([t], m)"
        using step(2) [OF False True] len(2) by (simp del: strtok_all.simps add: strtok_all.simps(2) [of "Suc k"] strtok_all_null)
      ultimately show ?thesis using r \<open>tok = r\<close> toks by (intro exI [of _ "[t]"] exI [of _ m]) (simp add: D_def)
    next
      case neq: False
      then have lt: "length tok < length r" using split by (metis le_add1 length_append order_le_less)
      let ?p = "t + length tok + 1" and ?m = "m(t + length tok := 0)"
      have rest: "rest = drop (length tok + 1) r" unfolding rest_def tok_def by (simp add: dropWhile_eq_drop)
      have c1: "cstr ?m ?p rest"
      proof (rule cstr_cong)
        show "cstr m ?p rest" using cstr_drop [OF r, of "length tok + 1"] lt by (simp add: rest add.assoc)
      qed simp
      have c2: "cstr ?m q ds"
      proof (rule cstr_cong [OF Suc.prems(2)])
        have "p \<le> t" by (simp add: t_def)
        then show "?m (q + i) = m (q + i)" if "i \<le> length ds" for i using Suc.prems(5) lt len(1) that by auto
      qed
      have len2: "?p + length rest = p + length s" "length rest < k"
      proof -
        have "length rest = length r - (length tok + 1)" "p \<le> t" by (simp_all add: rest t_def)
        then show "?p + length rest = p + length s" "length rest < k" using lt len(1) Suc.prems(6) by linarith+
      qed
      have dis: "q + length ds < ?p \<or> ?p + length rest < q" using Suc.prems(5) len2(1) by (auto simp: t_def)
      have nz: "?p \<noteq> 0" by simp
      have "\<exists>ts m'. strtok_all (Suc k) q ?p ?m = Some (ts, m') \<and> list_all2 (cstr m') ts (tokens D rest) \<and>
          (\<forall>a. a \<notin> {?p ..< ?p + length rest} \<longrightarrow> m' a = ?m a)"
        unfolding D_def by (rule Suc.IH [OF c1 c2 nz Suc.prems(4) dis len2(2)])
      then obtain ts m' where ih: "strtok_all (Suc k) q ?p ?m = Some (ts, m')"
        "list_all2 (cstr m') ts (tokens D rest)" "\<forall>a. a \<notin> {?p ..< ?p + length rest} \<longrightarrow> m' a = ?m a" by blast
      have "take (length tok) r = tok" unfolding tok_def by (rule takeWhile_eq_take [symmetric])
      then have "cstr ?m t tok" using cstr_take [OF r lt] by simp
      then have "cstr m' t tok" by (rule cstr_cong) (use ih(3) in auto)
      moreover have "strtok_all (Suc (Suc k)) q p m = Some (t # ts, m')"
        using step(3) [OF False lt] ih(1) len(2) by (simp del: strtok_all.simps add: strtok_all.simps(2) [of "Suc k"])
      moreover have "\<forall>a. a \<notin> {p ..< p + length s} \<longrightarrow> m' a = m a"
        using ih(3) len2(1) lt len(1) by (auto simp: t_def)
      ultimately show ?thesis using ih(2) toks by (intro exI [of _ "t # ts"] exI [of _ m']) (simp add: D_def)
    qed
  qed
qed

lemma strtok_same: "strtok str q nxt m = strtok_r str q nxt m"
  by (simp add: strtok_def strtok_r_def Let_def split: Option.bind_split)

text \<open>
  C22: \<open>strtok_r\<close>, called until it returns the null pointer, yields the tokens of the string one after the other, and in the end every token is a
  string of its own at the address that was returned. Only the string is changed. \<open>strtok\<close> is the
  same function.
\<close>

theorem strtok_tokens:
  assumes "cstr m p s" "cstr m q ds" "p \<noteq> 0" "q \<noteq> 0" "q + length ds < p \<or> p + length s < q"
  shows "\<exists>ts m'. strtok_all (length s + 2) q p m = Some (ts, m') \<and> list_all2 (cstr m') ts (tokens (set ds) s) \<and>
    (\<forall>a. a \<notin> {p ..< p + length s} \<longrightarrow> m' a = m a)"
  using strtok_all_ok [OF assms, of "length s + 1"] by simp

section \<open>Witnesses\<close>

definition demo_mem :: mem where
  "demo_mem = (\<lambda>_. 0)(0x100 := 97, 0x101 := 32, 0x102 := 98, 0x200 := 32)"

lemma demo_strings: "cstr demo_mem 0x100 [97, 32, 98]" "cstr demo_mem 0x200 [32]"
  by (simp_all add: demo_mem_def)

theorem string_functions_witness:
  "strlen 0x100 demo_mem = Some 3 \<and> (\<exists>m'. strcat 0x200 0x100 demo_mem = Some m' \<and> cstr m' 0x200 [32, 97, 32, 98])"
  using string_functions [OF demo_strings] by auto

theorem strcmp_order_witness: "\<exists>r. strcmp 0x100 0x200 demo_mem = Some r \<and> r \<noteq> 0"
  using strcmp_order [OF demo_strings] by auto

theorem strstr_first_witness: "\<exists>i. strstr demo_mem 0x100 0x200 = Some (0x100 + i)"
proof -
  have "sublist [32 :: u8] [97, 32, 98]" by (simp add: sublist_Cons_right)
  then show ?thesis using strstr_first [OF demo_strings] by auto
qed

theorem strtok_tokens_witness:
  "\<exists>t u m'. strtok_all 5 0x200 0x100 demo_mem = Some ([t, u], m') \<and> cstr m' t [97] \<and> cstr m' u [98]"
proof -
  have "tokens (set [32]) [97, 32, 98] = [[97], [98]]" by (simp add: tokens.simps)
  then show ?thesis using strtok_tokens [OF demo_strings] by (auto simp: list_all2_Cons2 numeral_eq_Suc)
qed

end
