(* ===== verification/Klibc_Number.thy ===== *)
theory Klibc_Number
  imports Klibc_Spec Printf
begin

text \<open>
  Numbers in text: \<open>strtol\<close> of the kernel's C library, and its agreement with what the formatted output prints.
\<close>

section \<open>Digits\<close>

lemma foldl_mono:
  assumes "0 < (base :: int)" "\<forall>d \<in> set ds. 0 \<le> d" "0 \<le> a"
  shows "a \<le> foldl (\<lambda>a d. a * base + d) a ds"
  using assms(2,3)
proof (induction ds arbitrary: a)
  case (Cons d ds)
  have "a * 1 \<le> a * base" using assms(1) Cons.prems(2) by (intro mult_left_mono) auto
  then have "a \<le> a * base + d" "0 \<le> a * base + d" using Cons.prems by auto
  then show ?case using Cons.IH [of "a * base + d"] Cons.prems(1) by simp
qed simp

lemma strtol_loop_ok:
  assumes "list_all2 (\<lambda>c d. strtol_digit c = Some d \<and> 0 \<le> d \<and> d < base) cs ds" "cstr m p (cs @ rest)"
    "rest = [] \<or> (\<forall>d. strtol_digit (hd rest) = Some d \<longrightarrow> base \<le> d)" "0 \<le> a" "0 < base"
    "foldl (\<lambda>a d. a * base + d) a ds < 2 ^ 63"
  shows "strtol_loop m base p a = Some (foldl (\<lambda>a d. a * base + d) a ds, p + length cs)"
  using assms(1,2,4,6)
proof (induction cs ds arbitrary: p a rule: list_all2_induct)
  case Nil
  then show ?case using assms(3) by (subst strtol_loop.simps) (cases rest; auto split: option.splits)
next
  case (Cons c cs d ds)
  have "\<forall>d \<in> set ds. 0 \<le> d" using Cons.hyps(2) by (auto simp: list_all2_conv_all_nth in_set_conv_nth)
  moreover have a: "0 \<le> a * base + d" using Cons.hyps(1) Cons.prems(2) assms(5) by simp
  ultimately have "a * base + d \<le> foldl (\<lambda>a d. a * base + d) (a * base + d) ds" by (intro foldl_mono [OF assms(5)])
  then have "\<not> 2 ^ 63 \<le> a * base + d" using Cons.prems(3) by simp
  moreover have "strtol_loop m base (p + 1) (a * base + d) = Some (foldl (\<lambda>a d. a * base + d) (a * base + d) ds, p + 1 + length cs)"
    using Cons.IH [of "p + 1" "a * base + d"] Cons.prems a by simp
  ultimately show ?case using Cons.prems(1) Cons.hyps(1) by (subst strtol_loop.simps) simp
qed

lemma cstr_hd: "cstr m p s \<Longrightarrow> m p = hd (s @ [0])"
  by (cases s) auto

definition blank :: "u8 \<Rightarrow> bool" where
  "blank c \<longleftrightarrow> c = 32 \<or> c = 9 \<or> c = 10 \<or> c = 13 \<or> c = 12 \<or> c = 11"

lemma strtol_reads:
  assumes "cstr m p (ws @ sign @ cs @ rest)" "list_all blank ws" "sign \<in> {[], [43], [45]}" "2 \<le> base" "cs \<noteq> []"
    "list_all2 (\<lambda>c d. strtol_digit c = Some d \<and> d < base) cs ds"
    "rest = [] \<or> (\<forall>d. strtol_digit (hd rest) = Some d \<longrightarrow> base \<le> d)" "base = 16 \<longrightarrow> \<not> (hd cs = 48 \<and> hd (tl cs @ rest @ [0]) \<in> {120, 88})"
    "foldl (\<lambda>a d. a * base + d) 0 ds < 2 ^ 63"
  shows "strtol m p base = Some ((if sign = [45] then - 1 else 1) * foldl (\<lambda>a d. a * base + d) 0 ds, p + length (ws @ sign @ cs))"
proof -
  define s where "s = p + length ws"
  define b where "b = s + length sign"
  obtain c cs' where c: "cs = c # cs'" using assms(5) by (cases cs) auto
  obtain d where d: "strtol_digit c = Some d" using assms(6) c by (cases ds) auto
  have nb: "\<not> blank c" "c \<noteq> 43" "c \<noteq> 45" using d by (auto simp: strtol_digit_def blank_def split: if_splits)
  have "cstr m s (sign @ cs @ rest)" using cstr_drop [OF assms(1), of "length ws"] by (simp add: s_def)
  then have sgn: "(if m s = 45 then (True, s + 1) else if m s = 43 then (False, s + 1) else (False, s)) = (sign = [45], b)"
    using assms(3) nb c by (auto simp: b_def)
  have cb: "cstr m b (cs @ rest)" using cstr_drop [OF assms(1), of "length ws + length sign"] by (simp add: s_def b_def add.assoc)
  have "takeWhile blank (sign @ cs @ rest) = []"
    using assms(3) nb(1) c by (auto simp: blank_def [of 43] blank_def [of 45])
  then have "takeWhile blank (ws @ sign @ cs @ rest) = ws"
    using assms(2) by (simp add: takeWhile_append2 list_all_iff)
  moreover have "scan (\<lambda>c. Some (c = 32 \<or> c = 9 \<or> c = 10 \<or> c = 13 \<or> c = 12 \<or> c = 11)) m p = Some (p + length (takeWhile blank (ws @ sign @ cs @ rest)))"
    by (rule scan_ok [OF assms(1)]) (simp_all add: blank_def)
  ultimately have sc: "scan (\<lambda>c. Some (c = 32 \<or> c = 9 \<or> c = 10 \<or> c = 13 \<or> c = 12 \<or> c = 11)) m p = Some s" by (simp add: s_def)
  have "m b = hd cs" "m (b + 1) = hd (tl cs @ rest @ [0])"
    using cstr_hd [of m b "cs @ rest"] cstr_hd [of m "b + 1" "cs' @ rest"] cb c by simp_all
  then have pre: "strtol_prefix m base b = (base, b)" using assms(4,8) by (auto simp: strtol_prefix_def)
  have nn: "0 \<le> d" if "strtol_digit x = Some d" for x d using that by (auto simp: strtol_digit_def word_le_def split: if_splits)
  have "list_all2 (\<lambda>c d. strtol_digit c = Some d \<and> 0 \<le> d \<and> d < base) cs ds" using assms(6) nn by (auto intro: list_all2_mono)
  from strtol_loop_ok [OF this cb assms(7) _ _ assms(9)] assms(4)
  have lp: "strtol_loop m base b 0 = Some (foldl (\<lambda>a d. a * base + d) 0 ds, b + length cs)" by simp
  show ?thesis unfolding strtol_def sc Option.bind.bind_lunit Let_def sgn case_prod_conv pre lp
    using c by (simp add: b_def s_def)
qed


lemma magnitude_value: "(if sint n < 0 then - 1 else 1) * int (unat (magnitude n)) = sint (n :: u32)"
proof -
  have r: "- (2 ^ 31) \<le> sint n" "sint n < 2 ^ 31" using sint_ge [of n] sint_lt [of n] by simp_all
  have e: "uint (word_of_int k :: u32) = k" if "0 \<le> k" "k < 2 ^ 32" for k using that by (simp add: uint_word_of_int)
  have n: "n = word_of_int (sint n)" "- n = word_of_int (- sint n)" by simp_all
  show ?thesis
  proof (cases "sint n < 0")
    case True
    then have "uint (- n) = - sint n" unfolding n(2) using r by (intro e) simp_all
    then show ?thesis using True by (simp add: magnitude_neg)
  next
    case False
    then have "uint (word_of_int (sint n) :: u32) = sint n" using r by (intro e) simp_all
    then show ?thesis using False by (simp add: magnitude_neg)
  qed
qed

text \<open>The digits that the formatted output writes.\<close>

lemma digit_char_strtol: "d < 10 \<Longrightarrow> strtol_digit (digit_char fl d) = Some (int d)"
proof -
  assume "d < 10"
  then have "d = 0 \<or> d = 1 \<or> d = 2 \<or> d = 3 \<or> d = 4 \<or> d = 5 \<or> d = 6 \<or> d = 7 \<or> d = 8 \<or> d = 9" by presburger
  then show ?thesis by (elim disjE; simp add: strtol_digit_def digit_char_def)
qed

lemma foldl_int: "foldl (\<lambda>a d. a * int base + d) (int a) (map int ds) = int (foldl (\<lambda>a d. a * base + d) a ds)"
proof (induction ds arbitrary: a)
  case (Cons d ds)
  then show ?case using Cons [of "a * base + d"] by simp
qed simp

lemma strtol_decimal:
  assumes "cstr m p (sign @ map (digit_char 0) (to_digits 10 n))" "sign \<in> {[], [43], [45]}" "n < 2 ^ 63"
  shows "strtol m p 10 = Some ((if sign = [45] then - 1 else 1) * int n, p + length sign + length (to_digits 10 n))"
proof -
  let ?ds = "to_digits 10 n"
  have lt: "d < 10" if "d \<in> set ?ds" for d using to_digits_less [OF _ that] by simp
  have v: "foldl (\<lambda>a d. a * 10 + d) 0 (map int ?ds) = int n"
    using foldl_int [of 10 0 ?ds] to_digits_value [of 10 n] by simp
  have "strtol m p 10 = Some ((if sign = [45] then - 1 else 1) * foldl (\<lambda>a d. a * 10 + d) 0 (map int ?ds),
      p + length ([] @ sign @ map (digit_char 0) ?ds))"
  proof (rule strtol_reads [where rest = "[]"])
    show "list_all2 (\<lambda>c d. strtol_digit c = Some d \<and> d < 10) (map (digit_char 0) ?ds) (map int ?ds)"
      using lt by (auto simp: list_all2_map1 list_all2_map2 digit_char_strtol intro: list.rel_refl_strong)
    show "map (digit_char 0) ?ds \<noteq> []" by (subst to_digits.simps) simp
    show "foldl (\<lambda>a d. a * 10 + d) 0 (map int ?ds) < 2 ^ 63" using v assms(3) by simp
  qed (use assms in simp_all)
  then show ?thesis by (simp add: v)
qed

section \<open>Properties\<close>

text \<open>
  \<open>strtol\<close> reads numbers. Text that consists of white space, an optional sign, digits of the base and something else is read up to the end of
  the digits, and the value is that of the digits as long as it fits into a \<open>long\<close>. A number that does not fit is a signed overflow
  in the source.
\<close>

theorem strtol_value:
  assumes "cstr m p (ws @ sign @ cs @ rest)" "list_all blank ws" "sign \<in> {[], [43], [45]}" "2 \<le> base" "cs \<noteq> []"
    "list_all2 (\<lambda>c d. strtol_digit c = Some d \<and> d < base) cs ds"
    "rest = [] \<or> (\<forall>d. strtol_digit (hd rest) = Some d \<longrightarrow> base \<le> d)" "base = 16 \<longrightarrow> \<not> (hd cs = 48 \<and> hd (tl cs @ rest @ [0]) \<in> {120, 88})"
    "foldl (\<lambda>a d. a * base + d) 0 ds < 2 ^ 63"
  shows "strtol m p base = Some ((if sign = [45] then - 1 else 1) * foldl (\<lambda>a d. a * base + d) 0 ds, p + length (ws @ sign @ cs))"
  using assms by (rule strtol_reads)

theorem strtol_value_witness:
  "strtol ((\<lambda>_. 0)(0x100 := 32, 0x101 := 45, 0x102 := 55, 0x103 := 102, 0x104 := 103)) 0x100 16 = Some (- 127, 0x104)"
  using strtol_value [of "(\<lambda>_. 0)(0x100 := 32, 0x101 := 45, 0x102 := 55, 0x103 := 102, 0x104 := 103)" "0x100" "[32]" "[45]" "[55, 102]" "[103]" 16 "[7, 15]"]
  by (simp add: blank_def strtol_digit_def)

text \<open>
  C23: \<open>strtol\<close> reads back what the formatted output writes: the text of \<open>%d\<close> for any 32-bit value, as a string in memory, is read as that value
  and to its end.
\<close>

theorem strtol_printf_roundtrip:
  assumes "fctprintf (\<lambda>c s. s @ [c]) (map byte ''%d'' @ [0]) [VInt n] [] = Some (k, t)" "cstr m p t"
  shows "strtol m p 10 = Some (sint n, p + length t)"
proof -
  let ?ds = "map (digit_char 0) (to_digits 10 (unat (magnitude n)))" and ?sign = "if sint n < 0 then [45] else []"
  have t: "t = ?sign @ ?ds"
    using assms(1) digits_nonzero [of "unat (magnitude n)"] render_d [of n] by (auto simp: fctprintf_text fold_append nonzero_text)
  have v: "(if sint n < 0 then - 1 else 1) * int (unat (magnitude n)) = sint n"
    by (rule magnitude_value)
  have "unat (magnitude n) < 2 ^ LENGTH(32)" by (rule unsigned_less)
  then have "unat (magnitude n) < 2 ^ 63" by simp
  from strtol_decimal [OF assms(2) [unfolded t] _ this] v show ?thesis by (cases "sint n < 0") (simp_all add: t)
qed

theorem strtol_printf_roundtrip_witness:
  "\<exists>k t. fctprintf (\<lambda>c s. s @ [c]) (map byte ''%d'' @ [0]) [VInt (- 42)] [] = Some (k, t) \<and>
     strtol ((\<lambda>_. 0)(0x100 := 45, 0x101 := 52, 0x102 := 50)) 0x100 10 = Some (- 42, 0x100 + length t)"
proof -
  have f: "fctprintf (\<lambda>c s. s @ [c]) (map byte ''%d'' @ [0]) [VInt (- 42)] [] = Some (3, [45, 52, 50])"
    using render_d [of "- 42"] by (simp add: fctprintf_text fold_append magnitude_def to_digits.simps digit_char_def)
  have c: "cstr ((\<lambda>_. 0)(0x100 := 45, 0x101 := 52, 0x102 := 50)) 0x100 [45, 52, 50]" by simp
  show ?thesis using strtol_printf_roundtrip [OF f c] f by auto
qed

text \<open>
  deviations from the C standard. \<open>toupper\<close> turns a small letter into a character that is not a letter, \<open>tolower\<close> moves every character that
  is not a small letter, a digit too, and \<open>strtol\<close> with base 0 does not recognise the number 0: it
  reports that nothing was read.
\<close>

theorem klibc_deviations:
  "(c \<ge> 97 \<and> c \<le> 122 \<longrightarrow> \<not> isalpha (toupper c) \<and> tolower c = c) \<and>
   (\<not> (c \<ge> 97 \<and> c \<le> 122) \<longrightarrow> toupper c = c \<and> tolower c = c - 0x20) \<and>
   (cstr m p [48] \<longrightarrow> strtol m p 0 = Some (0, p))"
proof (intro conjI impI)
  assume "c \<ge> 97 \<and> c \<le> 122"
  then have "uint c \<ge> 97" "uint c \<le> 122" "uint (c + 0x20) = uint c + 32"
    by (simp_all add: word_le_def uint_word_ariths)
  then show "\<not> isalpha (toupper c)" "tolower c = c" by (simp_all add: isalpha_def toupper_def tolower_def word_le_def)
next
  assume "\<not> (c \<ge> 97 \<and> c \<le> 122)"
  then show "toupper c = c" "tolower c = c - 0x20" by (simp_all add: toupper_def tolower_def)
next
  assume "cstr m p [48]"
  then have m: "m p = 48" "m (p + 1) = 0" by simp_all
  have "scan (\<lambda>c. Some (c = 32 \<or> c = 9 \<or> c = 10 \<or> c = 13 \<or> c = 12 \<or> c = 11)) m p = Some p" by (subst scan.simps) (simp add: m)
  moreover have "strtol_prefix m 0 p = (8, p + 1)" using m by (simp add: strtol_prefix_def)
  moreover have "strtol_loop m 8 (p + 1) 0 = Some (0, p + 1)" using m(2) by (subst strtol_loop.simps) simp
  ultimately show "strtol m p 0 = Some (0, p)" using m(1) by (simp add: strtol_def)
qed

theorem klibc_deviations_witness: "tolower 65 = 33 \<and> strtol ((\<lambda>_. 0)(0x100 := 48)) 0x100 0 = Some (0, 0x100)"
  using klibc_deviations [of 65 "(\<lambda>_. 0)(0x100 := 48)" "0x100"] by simp

end
