(* ===== verification/Klibc_Heap.thy ===== *)
theory Klibc_Heap
  imports Klibc_Spec Liballoc_Spec
begin

text \<open>
  The functions of \<open>klibc/cstring.cpp\<close> that allocate their result, \<open>strdup\<close> and \<open>strndup\<close>, over the heap allocator. \<open>None\<close> is
  undefined behaviour, here a write to the null pointer, or a loop that does not end.
\<close>

section \<open>Model\<close>

definition strdup :: "'w hooks \<Rightarrow> nat \<Rightarrow> 'w heap \<Rightarrow> (nat \<times> 'w heap) option" where
  "strdup hk s h = do {
     szs \<leftarrow> strlen s (bytes h);
     (new_str, h) \<leftarrow> malloc hk (szs + 1) h;
     if new_str = 0 then None
     else do {
       let h = h\<lparr>bytes := memcpy new_str s szs (bytes h)\<rparr>;
       let h = h\<lparr>bytes := (bytes h)(new_str + szs := 0)\<rparr>;
       Some (new_str, h)
     }
   }"

definition strndup :: "'w hooks \<Rightarrow> nat \<Rightarrow> nat \<Rightarrow> 'w heap \<Rightarrow> (nat \<times> 'w heap) option" where
  "strndup hk s n h = do {
     szs \<leftarrow> strlen s (bytes h);
     let szs = (if szs > n then n else szs);
     (new_str, h) \<leftarrow> malloc hk szs h;
     if new_str = 0 \<and> 0 < szs then None
     else Some (new_str, h\<lparr>bytes := memcpy new_str s szs (bytes h)\<rparr>)
   }"

section \<open>Properties\<close>

lemma strlen_cstr: "cstr m p s \<Longrightarrow> length s < 2 ^ 32 \<Longrightarrow> strlen p m = Some (length s)"
  using strlen_loop_ok [of m p 0 s] by (simp add: strlen_def)

lemma apart: "{a ..< a + Suc n} \<inter> {b ..< b + Suc n} = {} \<Longrightarrow> a + Suc n \<le> b \<or> b + Suc n \<le> (a :: nat)"
proof (rule ccontr)
  assume d: "{a ..< a + Suc n} \<inter> {b ..< b + Suc n} = {}" and "\<not> (a + Suc n \<le> b \<or> b + Suc n \<le> a)"
  then have "max a b \<in> {a ..< a + Suc n} \<inter> {b ..< b + Suc n}" by auto
  then show False using d by blast
qed

text \<open>
  Memory that \<open>malloc\<close> does not hand out: it belongs to a block in use, or it is outside of the heap and the source of pages never grants
  it, like the kernel's constants.
\<close>

definition stays :: "('w \<Rightarrow> nat set) \<Rightarrow> 'w hooks \<Rightarrow> 'w heap \<Rightarrow> chunk set \<Rightarrow> nat set \<Rightarrow> bool" where
  "stays granted hk h C R \<longleftrightarrow> (\<exists>b n. live h C b = Some n \<and> R \<subseteq> {b ..< b + n}) \<or>
     R \<inter> granted (sys h) = {} \<and>
     (\<forall>n w q w'. liballoc_alloc hk n w = Some (q, w') \<longrightarrow> q \<noteq> 0 \<longrightarrow> {q ..< q + n * l_pageSize} \<inter> R = {})"

text \<open>A chain of updates of the heap that all keep the state of the environment.\<close>

lemma let_keeps: "(let x = a in f x) = Some y \<Longrightarrow> sys a = w \<Longrightarrow> (\<And>x. sys x = w \<Longrightarrow> f x = Some y \<Longrightarrow> P) \<Longrightarrow> P"
  by (simp add: Let_def)

lemma let_any: "(let x = a in f x) = Some y \<Longrightarrow> (\<And>x. f x = Some y \<Longrightarrow> P) \<Longrightarrow> P"
  by (simp add: Let_def)

lemma if_Some: "(if b then None else x) = Some y \<Longrightarrow> (x = Some y \<Longrightarrow> P) \<Longrightarrow> P"
  by (simp split: if_split_asm)

lemma insert_tag_sys: "insert_tag t i h = Some h' \<Longrightarrow> sys h' = sys h"
  unfolding insert_tag_def
  by ((erule if_Some | (erule let_keeps [where w = "sys h"], simp) | erule let_any)+, force)

lemma remove_tag_sys: "remove_tag t h = Some h' \<Longrightarrow> sys h' = sys h"
  unfolding remove_tag_def
  by ((erule if_Some | (erule let_keeps [where w = "sys h"], simp) | erule let_any)+, force)

lemma split_tag_sys: "split_tag t h = Some h' \<Longrightarrow> sys h' = sys h"
  unfolding split_tag_def
  by (((erule let_keeps [where w = "sys h"], simp) | erule let_any)+, drule insert_tag_sys, simp)

lemma carve_sys: "carve sz tag h = Some (p, h') \<Longrightarrow> sys h' = sys h"
  unfolding carve_def Let_def by (auto simp: Option.bind_eq_Some_conv dest!: split_tag_sys split: if_split_asm)

lemma take_tag_sys:
  assumes "take_tag i tag h = Some h'"
  shows "sys h' = sys h"
proof -
  obtain h1 where h1: "remove_tag tag h = Some h1" "h' = (if split_left h1 tag = 0 \<and> split_right h1 tag = 0 then add_complete i (- 1) h1 else h1)"
    using assms unfolding take_tag_def Option.bind_eq_Some_conv option.inject by (elim exE conjE) simp
  then show ?thesis using remove_tag_sys [OF h1(1)] by (simp add: add_complete_def)
qed

lemma allocate_sys:
  assumes "allocate_new_tag hk sz h = Some (t, h')"
  shows "\<exists>n q. 0 < n \<and> liballoc_alloc hk n (sys h) = Some (q, sys h')"
proof -
  let ?n = "pages_for (cast32 (sz + TAG))"
  have "0 < ?n" using pages_for_bounds(1) [of "cast32 (sz + TAG)"] by simp
  moreover obtain q w where "liballoc_alloc hk ?n (sys h) = Some (q, w)" "sys h' = w"
    using assms unfolding allocate_new_tag_def Let_def Option.bind_eq_Some_conv by (auto split: if_split_asm)
  ultimately show ?thesis by blast
qed

lemma malloc_sys:
  assumes "malloc hk sz h = Some (p, h')"
  shows "sys h' = sys h \<or> (\<exists>n q. 0 < n \<and> liballoc_alloc hk n (sys h) = Some (q, sys h'))"
proof -
  define g where "g = initialise h"
  have g: "sys g = sys h" by (simp add: g_def initialise_def)
  obtain i t where m: "(if t = 0 then allocate_new_tag hk (cast32 sz) g \<bind> (\<lambda>(t, h). if t = 0 then Some (0, h) else carve sz t h)
      else take_tag i t g \<bind> carve sz t) = Some (p, h')"
    using assms unfolding malloc_def Let_def Option.bind_eq_Some_conv g_def [symmetric] by (elim exE conjE) (simp only:)
  show ?thesis
  proof (cases "t = 0")
    case True
    then obtain t1 h1 where a: "allocate_new_tag hk (cast32 sz) g = Some (t1, h1)" "(if t1 = 0 then Some (0, h1) else carve sz t1 h1) = Some (p, h')"
      using m by (auto simp: Option.bind_eq_Some_conv)
    have "sys h' = sys h1" using a(2) carve_sys [of sz t1 h1 p h'] by (auto split: if_split_asm)
    then show ?thesis using allocate_sys [OF a(1)] g by simp
  next
    case False
    then obtain h1 where "take_tag i t g = Some h1" "carve sz t h1 = Some (p, h')" using m by (auto simp: Option.bind_eq_Some_conv)
    then show ?thesis using take_tag_sys carve_sys g by metis
  qed
qed

lemma malloc_granted:
  assumes "hooks_ok granted hk" "malloc hk sz h = Some (p, h')"
    "R \<inter> granted (sys h) = {}" "\<forall>n w q w'. liballoc_alloc hk n w = Some (q, w') \<longrightarrow> q \<noteq> 0 \<longrightarrow> {q ..< q + n * l_pageSize} \<inter> R = {}"
  shows "R \<inter> granted (sys h') = {}"
  using malloc_sys [OF assms(2)]
proof
  assume "\<exists>n q. 0 < n \<and> liballoc_alloc hk n (sys h) = Some (q, sys h')"
  then obtain n r where n: "0 < n" "liballoc_alloc hk n (sys h) = Some (r, sys h')" by blast
  have "(r = 0 \<longrightarrow> granted (sys h') = granted (sys h)) \<and> (r \<noteq> 0 \<longrightarrow> granted (sys h') = granted (sys h) \<union> {r ..< r + n * l_pageSize})"
    using assms(1) [unfolded hooks_ok_def, THEN conjunct1, rule_format, OF n(1), of "sys h"] n(2) by auto
  moreover have "r \<noteq> 0 \<longrightarrow> {r ..< r + n * l_pageSize} \<inter> R = {}" using assms(4) n(2) by blast
  ultimately show ?thesis using assms(3) by (cases "r = 0") auto
qed (use assms(3) in simp)

lemma malloc_apart:
  assumes "hooks_ok granted hk" "heap_inv granted h C" "sz < 2 ^ 31" "malloc hk sz h = Some (q, h')" "q \<noteq> 0" "stays granted hk h C R"
  shows "{q ..< q + sz} \<inter> R = {}"
proof -
  obtain C' where m: "heap_inv granted h' C'" "live h C q = None" "live h' C' = (live h C)(q \<mapsto> sz)"
    using malloc_inv [OF assms(1-3)] assms(4,5) by auto
  then have l: "live h' C' q = Some sz" by simp
  show ?thesis
  proof (cases "\<exists>b n. live h C b = Some n \<and> R \<subseteq> {b ..< b + n}")
    case True
    then obtain b n where b: "live h C b = Some n" "R \<subseteq> {b ..< b + n}" by blast
    then have "b \<noteq> q" "live h' C' b = Some n" using m(2,3) by auto
    then show ?thesis using live_block(4) [OF m(1) l, of b n] b(2) by blast
  next
    case False
    then have "R \<inter> granted (sys h') = {}"
      using assms(6) unfolding stays_def by (intro malloc_granted [OF assms(1,4)]) blast+
    then show ?thesis using live_block(1) [OF m(1) l] by blast
  qed
qed

lemma strdup_ok:
  assumes "hooks_ok granted hk" "heap_inv granted h C" "cstr (bytes h) p s" "length s < 2 ^ 30"
    "stays granted hk h C {p ..< p + Suc (length s)}"
  shows "(\<exists>q h' C'. strdup hk p h = Some (q, h') \<and> heap_inv granted h' C' \<and> live h C q = None \<and> live h' C' = (live h C)(q \<mapsto> length s + 1) \<and>
            cstr (bytes h') q s \<and> (\<forall>a. a \<notin> {q .. q + length s} \<longrightarrow> bytes h' a = bytes h a))
       \<or> (\<exists>w. liballoc_alloc hk (pages_for (length s + 1 + TAG)) (sys h) = Some (0, w)) \<and> strdup hk p h = None"
proof -
  have sz: "length s + 1 < 2 ^ 31" "length s < 2 ^ 32" using assms(4) by simp_all
  obtain q h1 C1 where m: "malloc hk (length s + 1) h = Some (q, h1)" "heap_inv granted h1 C1" "bytes h1 = bytes h"
    "q \<noteq> 0 \<longrightarrow> live h C q = None \<and> live h1 C1 = (live h C)(q \<mapsto> length s + 1)"
    using malloc_inv [OF assms(1,2) sz(1)] by blast
  note len = strlen_cstr [OF assms(3) sz(2)]
  show ?thesis
  proof (cases "q = 0")
    case True
    then have "strdup hk p h = None" using m(1) by (simp add: strdup_def len)
    then show ?thesis using malloc_null [OF m(1) [unfolded True] sz(1)] by blast
  next
    case False
    from malloc_apart [OF assms(1,2) sz(1) m(1) False assms(5)] have "q + Suc (length s) \<le> p \<or> p + Suc (length s) \<le> q" by (intro apart) simp
    then have dis: "q + length s \<le> p \<or> p + length s \<le> q" by linarith
    define b where "b = (memcpy q p (length s) (bytes h))(q + length s := 0)"
    have b: "b = (\<lambda>a. if q \<le> a \<and> a < q + length s then bytes h (p + (a - q)) else bytes h a)(q + length s := 0)"
      by (simp only: b_def memcpy_ok [OF dis])
    have "strdup hk p h = Some (q, h1\<lparr>bytes := b\<rparr>)" using m(1,3) False by (simp add: strdup_def len b_def)
    moreover have "heap_inv granted (h1\<lparr>bytes := b\<rparr>) C1" "live (h1\<lparr>bytes := b\<rparr>) C1 = (live h C)(q \<mapsto> length s + 1)" "live h C q = None"
      using m(2,4) False by simp_all
    moreover have "cstr b q s" using assms(3) by (simp add: b cstr_nth)
    moreover have "\<forall>a. a \<notin> {q .. q + length s} \<longrightarrow> b a = bytes h a" by (simp add: b)
    ultimately show ?thesis by (intro disjI1 exI [of _ q] exI [of _ "h1\<lparr>bytes := b\<rparr>"] exI [of _ C1]) simp
  qed
qed

text \<open>
  \<open>strdup\<close> returns a copy of the string in a new block of exactly its size, when there is memory; nothing else changes. When there is none, it writes
  to the null pointer. The string may be in a block of the heap or in memory that is never given to it.
\<close>

theorem strdup_copies:
  assumes "hooks_ok granted hk" "heap_inv granted h C" "cstr (bytes h) p s" "length s < 2 ^ 30"
    "stays granted hk h C {p ..< p + Suc (length s)}"
  shows "(\<exists>q h' C'. strdup hk p h = Some (q, h') \<and> heap_inv granted h' C' \<and> live h C q = None \<and> live h' C' = (live h C)(q \<mapsto> length s + 1) \<and>
            cstr (bytes h') q s \<and> (\<forall>a. a \<notin> {q .. q + length s} \<longrightarrow> bytes h' a = bytes h a))
       \<or> (\<exists>w. liballoc_alloc hk (pages_for (length s + 1 + TAG)) (sys h) = Some (0, w)) \<and> strdup hk p h = None"
  using assms by (rule strdup_ok)

theorem strdup_copies_witness:
  "\<exists>q h' C'. strdup arena 0x100 (boot_heap\<lparr>bytes := demo_mem\<rparr>) = Some (q, h') \<and> heap_inv id h' C' \<and> cstr (bytes h') q [97, 32, 98]"
proof -
  let ?h = "boot_heap\<lparr>bytes := demo_mem\<rparr>"
  have c: "heap_inv id ?h {}" "cstr (bytes ?h) 0x100 [97, 32, 98]" using boot_heap_inv demo_strings(1) by simp_all
  have "stays id arena ?h {} {0x100 ..< 0x100 + Suc (length [97 :: u8, 32, 98])}"
    by (auto simp: stays_def boot_heap_def arena_def Let_def l_pageSize_def split: if_splits)
  moreover have "\<nexists>w. liballoc_alloc arena (pages_for (length [97 :: u8, 32, 98] + 1 + TAG)) (sys ?h) = Some (0, w)"
    using arena_grants [of "length [97 :: u8, 32, 98] + 1 + TAG" "sys ?h"] by (simp add: boot_heap_def TAG_def)
  moreover have "length [97 :: u8, 32, 98] < 2 ^ 30" by simp
  ultimately show ?thesis using strdup_copies [OF arena_ok c] by blast
qed

text \<open>
  \<open>strndup\<close> does not end its result with a zero. The new block has room for the characters only: the bytes of the block are the
  first \<open>n\<close> characters, and what follows in memory is whatever was there.
\<close>

theorem strndup_unterminated:
  assumes "hooks_ok granted hk" "heap_inv granted h C" "cstr (bytes h) p s" "length s < 2 ^ 30" "0 < n" "n \<le> length s"
    "stays granted hk h C {p ..< p + Suc (length s)}" "strndup hk p n h = Some (q, h')"
  shows "\<exists>C'. heap_inv granted h' C' \<and> live h' C' q = Some n \<and> (\<forall>i < n. bytes h' (q + i) = s ! i \<and> s ! i \<noteq> 0) \<and>
    bytes h' (q + n) = bytes h (q + n)"
proof -
  have sz: "n < 2 ^ 31" "length s < 2 ^ 32" using assms(4,6) by simp_all
  obtain q1 h1 C1 where m: "malloc hk n h = Some (q1, h1)" "heap_inv granted h1 C1" "bytes h1 = bytes h"
    "q1 \<noteq> 0 \<longrightarrow> live h1 C1 = (live h C)(q1 \<mapsto> n)"
    using malloc_inv [OF assms(1,2) sz(1)] by blast
  have e: "(if n < length s then n else length s) = n" using assms(6) by simp
  have q: "q1 \<noteq> 0" "q = q1" "h' = h1\<lparr>bytes := memcpy q p n (bytes h)\<rparr>"
    using assms(5,8) m(1,3) by (auto simp: strndup_def strlen_cstr [OF assms(3) sz(2)] Let_def e split: if_splits)
  have "{q ..< q + n} \<inter> {p ..< p + n} = {}"
    using malloc_apart [OF assms(1,2) sz(1) m(1) q(1) assms(7)] assms(6) q(2) by auto
  then have dis: "q + n \<le> p \<or> p + n \<le> q" using assms(5) apart [of q "n - 1" p] by simp
  have b: "bytes h' = (\<lambda>a. if q \<le> a \<and> a < q + n then bytes h (p + (a - q)) else bytes h a)"
    using q(3) by (simp add: memcpy_ok [OF dis])
  then have "\<forall>i < n. bytes h' (q + i) = s ! i \<and> s ! i \<noteq> 0" "bytes h' (q + n) = bytes h (q + n)"
    using assms(3,6) by (simp_all add: cstr_nth)
  moreover have "heap_inv granted h' C1" "live h' C1 q = Some n" using m(2,4) q by simp_all
  ultimately show ?thesis by blast
qed

end
