(* ===== verification/Hlec.thy ===== *)
theory Hlec
  imports Klibc_Heap
begin

text \<open>
  The event bus \<open>hlec/hlec.cpp\<close>: a list of events in the heap, each with an identifier, a name, a callback and a flag that keeps it quiet.

  The memory that holds the events is the map \<open>evs\<close>, from an event's address; blocks come from the heap allocator. A callback is a pointer to
  code; what a call of it does is the parameter \<open>call\<close>. \<open>None\<close> is undefined behaviour, an access to the null pointer or a
  signed overflow, or a loop that does not end.
\<close>

section \<open>Model\<close>

record event =
  ev_id :: int
  ev_name :: nat
  event_callback :: nat
  quiet :: bool
  ev_next :: nat

record 'w hlec =
  evs :: "nat \<Rightarrow> event"
  first_event :: nat
  last_event :: nat
  last_id :: int
  hheap :: "'w heap"

text \<open>\<^verbatim>\<open>sizeof(__private_event_context)\<close>.\<close>

definition EVENT_SIZE :: nat where "EVENT_SIZE = 40"

definition alloc_event :: "'w hooks \<Rightarrow> 'w hlec \<Rightarrow> (nat \<times> 'w hlec) option" where
  "alloc_event hk s = do {
     (new_ev, h) \<leftarrow> malloc hk EVENT_SIZE (hheap s);
     let s = s\<lparr>hheap := h\<rparr>;
     if new_ev = 0 then Some (0, s)
     else do {
       let s = s\<lparr>evs := (evs s)(new_ev := (evs s new_ev)\<lparr>ev_next := 0, ev_name := 0, event_callback := 0, quiet := True\<rparr>)\<rparr>;
       if first_event s = 0 then Some (new_ev, s\<lparr>first_event := new_ev, last_event := new_ev\<rparr>)
       else if last_event s = 0 then None
       else Some (new_ev, s\<lparr>evs := (evs s)(last_event s := (evs s (last_event s))\<lparr>ev_next := new_ev\<rparr>), last_event := new_ev\<rparr>)
     }
   }"

partial_function (option) prev_loop :: "(nat \<Rightarrow> event) \<Rightarrow> int \<Rightarrow> nat \<Rightarrow> nat option" where
  "prev_loop e event_id cur =
     (if cur \<noteq> 0 \<and> ev_next (e cur) \<noteq> 0 then
        if ev_id (e (ev_next (e cur))) = event_id then Some cur else prev_loop e event_id (ev_next (e cur))
      else Some 0)"

definition get_prev_event_for_id :: "int \<Rightarrow> 'w hlec \<Rightarrow> nat option" where
  "get_prev_event_for_id event_id s = prev_loop (evs s) event_id (first_event s)"

partial_function (option) event_loop :: "(nat \<Rightarrow> event) \<Rightarrow> int \<Rightarrow> nat \<Rightarrow> nat option" where
  "event_loop e event_id cur =
     (if cur \<noteq> 0 then if ev_id (e cur) = event_id then Some cur else event_loop e event_id (ev_next (e cur))
      else Some 0)"

definition get_event_for_id :: "int \<Rightarrow> 'w hlec \<Rightarrow> nat option" where
  "get_event_for_id event_id s = event_loop (evs s) event_id (first_event s)"

definition new_event :: "'w hooks \<Rightarrow> nat \<Rightarrow> 'w hlec \<Rightarrow> (nat \<times> 'w hlec) option" where
  "new_event hk name s = do {
     (ev, s) \<leftarrow> alloc_event hk s;
     if ev = 0 then Some (0, s)
     else if last_id s \<ge> 2 ^ 63 - 1 then None
     else do {
       let s = s\<lparr>evs := (evs s)(ev := (evs s ev)\<lparr>ev_id := last_id s\<rparr>), last_id := last_id s + 1\<rparr>;
       (n, h) \<leftarrow> strdup hk name (hheap s);
       let s = s\<lparr>hheap := h, evs := (evs s)(ev := (evs s ev)\<lparr>ev_name := n, quiet := True\<rparr>)\<rparr>;
       Some (ev, s)
     }
   }"

definition remove_event_id :: "'w hooks \<Rightarrow> int \<Rightarrow> 'w hlec \<Rightarrow> 'w hlec option" where
  "remove_event_id hk event_id s = do {
     prev \<leftarrow> get_prev_event_for_id event_id s;
     node \<leftarrow> get_event_for_id event_id s;
     if node = 0 then Some s
     else do {
       let s = (if prev \<noteq> 0 then s\<lparr>evs := (evs s)(prev := (evs s prev)\<lparr>ev_next := ev_next (evs s node)\<rparr>)\<rparr>
                else s\<lparr>first_event := ev_next (evs s node)\<rparr>);
       let s = s\<lparr>evs := (evs s)(node := (evs s node)\<lparr>ev_next := 0\<rparr>)\<rparr>;
       h \<leftarrow> free hk (ev_name (evs s node)) (hheap s);
       h \<leftarrow> free hk node h;
       Some (s\<lparr>hheap := h\<rparr>)
     }
   }"

text \<open>The overload that takes a pointer looks the event up by its identifier again.\<close>

definition remove_event :: "'w hooks \<Rightarrow> nat \<Rightarrow> 'w hlec \<Rightarrow> 'w hlec option" where
  "remove_event hk ev s = (if ev = 0 then Some s else remove_event_id hk (ev_id (evs s ev)) s)"

definition register_event_callback :: "nat \<Rightarrow> nat \<Rightarrow> 'w hlec \<Rightarrow> bool \<times> 'w hlec" where
  "register_event_callback ev cb s =
     (if ev = 0 then (False, s) else (True, s\<lparr>evs := (evs s)(ev := (evs s ev)\<lparr>event_callback := cb\<rparr>)\<rparr>))"

definition register_event_callback_id :: "int \<Rightarrow> nat \<Rightarrow> 'w hlec \<Rightarrow> (bool \<times> 'w hlec) option" where
  "register_event_callback_id event_id cb s = do {
     ev \<leftarrow> get_event_for_id event_id s;
     Some (register_event_callback ev cb s)
   }"

definition obtain_event_id :: "nat \<Rightarrow> 'w hlec \<Rightarrow> int" where
  "obtain_event_id ev s = (if ev = 0 then - 1 else ev_id (evs s ev))"

definition raise_event :: "(nat \<Rightarrow> 'a \<Rightarrow> 'w hlec \<Rightarrow> (int \<times> 'w hlec) option) \<Rightarrow> nat \<Rightarrow> 'a \<Rightarrow> 'w hlec \<Rightarrow> (int \<times> 'w hlec) option" where
  "raise_event call ev args s =
     (if ev = 0 then Some (- 1, s)
      else if quiet (evs s ev) then Some (- 1, s)
      else if event_callback (evs s ev) = 0 then Some (- 1, s)
      else call (event_callback (evs s ev)) args s)"

definition raise_event_id :: "(nat \<Rightarrow> 'a \<Rightarrow> 'w hlec \<Rightarrow> (int \<times> 'w hlec) option) \<Rightarrow> int \<Rightarrow> 'a \<Rightarrow> 'w hlec \<Rightarrow> (int \<times> 'w hlec) option" where
  "raise_event_id call event_id args s = do {
     ev \<leftarrow> get_event_for_id event_id s;
     raise_event call ev args s
   }"

text \<open>\<open>set_event_quiet\<close> and \<open>unset_event_quiet\<close>.\<close>

definition set_quiet :: "bool \<Rightarrow> nat \<Rightarrow> 'w hlec \<Rightarrow> 'w hlec" where
  "set_quiet q ev s = (if ev = 0 then s else s\<lparr>evs := (evs s)(ev := (evs s ev)\<lparr>quiet := q\<rparr>)\<rparr>)"

definition set_quiet_id :: "bool \<Rightarrow> int \<Rightarrow> 'w hlec \<Rightarrow> 'w hlec option" where
  "set_quiet_id q event_id s = do {
     ev \<leftarrow> get_event_for_id event_id s;
     Some (set_quiet q ev s)
   }"

section \<open>The list of events\<close>

fun evlist :: "(nat \<Rightarrow> event) \<Rightarrow> nat \<Rightarrow> nat list \<Rightarrow> bool" where
  "evlist e p [] \<longleftrightarrow> p = 0"
| "evlist e p (x # xs) \<longleftrightarrow> p = x \<and> x \<noteq> 0 \<and> evlist e (ev_next (e x)) xs"

lemma evlist_cong: "(\<And>x. x \<in> set xs \<Longrightarrow> ev_next (e' x) = ev_next (e x)) \<Longrightarrow> evlist e' p xs = evlist e p xs"
  by (induction xs arbitrary: p) auto

lemma evlist_nonzero: "evlist e p xs \<Longrightarrow> 0 \<notin> set xs"
  by (induction xs arbitrary: p) auto

lemma evlist_append: "evlist e p (xs @ y # ys) \<Longrightarrow> evlist e y (y # ys)"
  by (induction xs arbitrary: p) auto

text \<open>Appending a node, and taking one out that has a predecessor.\<close>

lemma evlist_snoc:
  assumes "evlist e p (xs @ [l])" "x \<notin> set (xs @ [l])" "x \<noteq> 0" "distinct (xs @ [l])" "ev_next (e' l) = x" "ev_next (e' x) = 0"
    "\<And>y. y \<in> set xs \<Longrightarrow> ev_next (e' y) = ev_next (e y)"
  shows "evlist e' p (xs @ [l, x])"
  using assms by (induction xs arbitrary: p) auto

lemma evlist_delete:
  assumes "evlist e p (xs @ y # x # ys)" "distinct (xs @ y # x # ys)" "ev_next (e' y) = ev_next (e x)"
    "\<And>z. z \<in> set (xs @ ys) \<Longrightarrow> ev_next (e' z) = ev_next (e z)"
  shows "evlist e' p (xs @ y # ys)"
  using assms
proof (induction xs arbitrary: p)
  case Nil
  then show ?case using evlist_cong [of ys e' e] by auto
qed auto

lemma event_loop_ok:
  "evlist e p xs \<Longrightarrow> event_loop e i p = Some (case find (\<lambda>x. ev_id (e x) = i) xs of None \<Rightarrow> 0 | Some x \<Rightarrow> x)"
  by (induction xs arbitrary: p) (subst event_loop.simps, auto)+

lemma prev_loop_none:
  "evlist e p xs \<Longrightarrow> i \<notin> (\<lambda>x. ev_id (e x)) ` set (tl xs) \<Longrightarrow> prev_loop e i p = Some 0"
proof (induction xs arbitrary: p)
  case Nil
  then show ?case by (subst prev_loop.simps) simp
next
  case (Cons x xs)
  then show ?case by (cases xs) (subst prev_loop.simps, auto)+
qed

lemma prev_loop_found:
  "evlist e p (xs @ y # x # ys) \<Longrightarrow> i \<notin> (\<lambda>x. ev_id (e x)) ` set (tl (xs @ [y])) \<Longrightarrow> ev_id (e x) = i \<Longrightarrow> prev_loop e i p = Some y"
proof (induction xs arbitrary: p)
  case Nil
  then show ?case by (subst prev_loop.simps) auto
next
  case (Cons a as)
  have "set (tl (as @ [y])) \<subseteq> set (tl ((a # as) @ [y]))" by (cases as) auto
  then have "prev_loop e i (ev_next (e a)) = Some y" using Cons.prems by (intro Cons.IH) auto
  then show ?case using Cons.prems by (subst prev_loop.simps) (cases as; auto)
qed

end
