(* ===== verification/Hlec_Spec.thy ===== *)
theory Hlec_Spec
  imports Hlec
begin

text \<open>
  What the event bus promises: it is a table from identifiers to callbacks, with a flag for each. The table is kept by every operation but one: removing the
  last of several events.
\<close>

section \<open>The invariant\<close>

text \<open>The events are a list of blocks of the heap, with different identifiers below the next one and with names in blocks of their own.\<close>

definition list_inv :: "('w \<Rightarrow> nat set) \<Rightarrow> 'w hlec \<Rightarrow> chunk set \<Rightarrow> nat list \<Rightarrow> bool" where
  "list_inv granted s C xs \<longleftrightarrow> evlist (evs s) (first_event s) xs \<and>
     distinct (xs @ map (\<lambda>x. ev_name (evs s x)) xs) \<and> distinct (map (\<lambda>x. ev_id (evs s x)) xs) \<and>
     (\<forall>x \<in> set xs. ev_id (evs s x) < last_id s) \<and> heap_inv granted (hheap s) C \<and>
     (\<forall>x \<in> set xs. live (hheap s) C x = Some EVENT_SIZE \<and> live (hheap s) C (ev_name (evs s x)) \<noteq> None)"

text \<open>And \<open>last_event\<close> points to the last one.\<close>

definition hlec_inv :: "('w \<Rightarrow> nat set) \<Rightarrow> 'w hlec \<Rightarrow> chunk set \<Rightarrow> nat list \<Rightarrow> bool" where
  "hlec_inv granted s C xs \<longleftrightarrow> list_inv granted s C xs \<and> (xs \<noteq> [] \<longrightarrow> last_event s = last xs)"

text \<open>The table: identifier, callback and flag of every event, the oldest first.\<close>

definition events :: "'w hlec \<Rightarrow> nat list \<Rightarrow> (int \<times> nat \<times> bool) list" where
  "events s xs = map (\<lambda>x. (ev_id (evs s x), event_callback (evs s x), quiet (evs s x))) xs"

lemma hlec_invD:
  assumes "hlec_inv granted s C xs"
  shows "evlist (evs s) (first_event s) xs" "xs \<noteq> [] \<Longrightarrow> last_event s = last xs" "distinct (xs @ map (\<lambda>x. ev_name (evs s x)) xs)"
    "distinct (map (\<lambda>x. ev_id (evs s x)) xs)" "\<forall>x \<in> set xs. ev_id (evs s x) < last_id s" "heap_inv granted (hheap s) C"
    "\<forall>x \<in> set xs. live (hheap s) C x = Some EVENT_SIZE \<and> live (hheap s) C (ev_name (evs s x)) \<noteq> None"
  using assms by (simp_all add: hlec_inv_def list_inv_def)

section \<open>New events\<close>

text \<open>Two events that agree in all but the link.\<close>

definition same_event :: "event \<Rightarrow> event \<Rightarrow> bool" where
  "same_event a b \<longleftrightarrow> ev_id a = ev_id b \<and> ev_name a = ev_name b \<and> event_callback a = event_callback b \<and> quiet a = quiet b"

lemma alloc_event_ok:
  assumes ev: "evlist (evs s) (first_event s) xs" "xs \<noteq> [] \<Longrightarrow> last_event s = last xs" "distinct xs"
    and m: "malloc hk EVENT_SIZE (hheap s) = Some (q, h)" "q \<noteq> 0" "q \<notin> set xs"
  shows "\<exists>s'. alloc_event hk s = Some (q, s') \<and> evlist (evs s') (first_event s') (xs @ [q]) \<and> last_event s' = q \<and> last_id s' = last_id s \<and>
    hheap s' = h \<and> (\<forall>x \<in> set xs. same_event (evs s' x) (evs s x)) \<and> event_callback (evs s' q) = 0 \<and> quiet (evs s' q)"
proof (cases xs rule: rev_cases)
  case Nil
  then show ?thesis using ev(1) m by (simp add: alloc_event_def)
next
  case (snoc ys l)
  have f: "first_event s \<noteq> 0" "last_event s = l" "l \<noteq> 0" "l \<noteq> q" using ev(1,2) snoc evlist_nonzero [OF ev(1)] m(3) by (cases ys; auto)+
  let ?e = "(evs s)(q := (evs s q)\<lparr>ev_next := 0, ev_name := 0, event_callback := 0, quiet := True\<rparr>, l := (evs s l)\<lparr>ev_next := q\<rparr>)"
  have "alloc_event hk s = Some (q, s\<lparr>hheap := h, evs := ?e, last_event := q\<rparr>)"
    using m(1,2) f by (simp add: alloc_event_def Let_def)
  moreover have "evlist ?e (first_event s) (ys @ [l, q])"
    by (rule evlist_snoc [of "evs s"]) (use ev(1,3) m snoc f in auto)
  moreover have "\<forall>x \<in> set xs. same_event (?e x) (evs s x)" "event_callback (?e q) = 0" "quiet (?e q)"
    using m(3) f(4) by (auto simp: same_event_def)
  ultimately show ?thesis using snoc by simp
qed

lemma malloc_stays:
  assumes "hooks_ok granted hk" "heap_inv granted h C" "malloc hk sz h = Some (q, h')" "stays granted hk h C R"
    "\<And>b n. live h C b = Some n \<Longrightarrow> live h' C' b = Some n"
  shows "stays granted hk h' C' R"
proof (cases "\<exists>b n. live h C b = Some n \<and> R \<subseteq> {b ..< b + n}")
  case True
  then show ?thesis using assms(5) unfolding stays_def by blast
next
  case False
  then have R: "R \<inter> granted (sys h) = {}"
    "\<forall>n w q w'. liballoc_alloc hk n w = Some (q, w') \<longrightarrow> q \<noteq> 0 \<longrightarrow> {q ..< q + n * l_pageSize} \<inter> R = {}"
    using assms(4) unfolding stays_def by blast+
  have "R \<inter> granted (sys h') = {}" by (rule malloc_granted [OF assms(1,3) R])
  then show ?thesis using R(2) unfolding stays_def by blast
qed


lemma events_cong: "(\<And>x. x \<in> set xs \<Longrightarrow> same_event (evs s' x) (evs s x)) \<Longrightarrow> events s' xs = events s xs"
  by (auto simp: events_def same_event_def)

text \<open>The table after the new event, which is the last of its list, has its identifier and its name.\<close>

lemma named_event:
  assumes inv: "hlec_inv granted s C xs"
    and s1: "evlist (evs s1) (first_event s1) (xs @ [q])" "last_event s1 = q" "\<forall>x \<in> set xs. same_event (evs s1 x) (evs s x)"
      "event_callback (evs s1 q) = 0"
    and q: "live (hheap s) C q = None" "live h1 C1 = (live (hheap s) C)(q \<mapsto> EVENT_SIZE)"
    and n: "heap_inv granted h2 C2" "live h1 C1 n = None" "live h2 C2 = (live h1 C1)(n \<mapsto> m)"
    and s2: "s2 = s1\<lparr>evs := (evs s1)(q := (evs s1 q)\<lparr>ev_id := last_id s, ev_name := n, quiet := True\<rparr>), last_id := last_id s + 1, hheap := h2\<rparr>"
  shows "hlec_inv granted s2 C2 (xs @ [q])" "events s2 (xs @ [q]) = events s xs @ [(last_id s, 0, True)]"
proof -
  note i = hlec_invD [OF inv]
  let ?e = "evs s2"
  have nq: "q \<notin> set xs" "\<forall>x \<in> set xs. ev_name (evs s x) \<noteq> q" "n \<noteq> q" "n \<notin> set xs" "\<forall>x \<in> set xs. ev_name (evs s x) \<noteq> n"
    using i(7) q n(2) by (auto split: if_splits)
  have old: "same_event (?e x) (evs s x)" if "x \<in> set xs" for x using s1(3) nq(1) that by (auto simp: s2 same_event_def)
  have lv: "live h2 C2 x = live (hheap s) C x" if "live (hheap s) C x \<noteq> None" for x using n(2,3) q that by auto
  have names: "map (\<lambda>x. ev_name (?e x)) xs = map (\<lambda>x. ev_name (evs s x)) xs" "map (\<lambda>x. ev_id (?e x)) xs = map (\<lambda>x. ev_id (evs s x)) xs"
    using old by (auto simp: same_event_def)
  have eq: "ev_name (?e q) = n" "ev_id (?e q) = last_id s" by (simp_all add: s2)
  have "evlist ?e (first_event s1) (xs @ [q])" using s1(1) evlist_cong [of "xs @ [q]" ?e "evs s1"] by (simp add: s2)
  moreover have "distinct ((xs @ [q]) @ map (\<lambda>x. ev_name (?e x)) (xs @ [q]))"
    unfolding map_append names list.map eq using i(3) nq by auto
  moreover have "distinct (map (\<lambda>x. ev_id (?e x)) (xs @ [q]))" unfolding map_append names list.map eq using i(4,5) by auto
  moreover have "\<forall>x \<in> set (xs @ [q]). ev_id (?e x) < last_id s + 1" using i(5) old eq(2) by (auto simp: same_event_def)
  moreover have "\<forall>x \<in> set (xs @ [q]). live h2 C2 x = Some EVENT_SIZE \<and> live h2 C2 (ev_name (?e x)) \<noteq> None"
    using i(7) lv old n(3) q(2) nq eq(1) by (auto simp: same_event_def)
  ultimately show "hlec_inv granted s2 C2 (xs @ [q])" using n(1) s1(2) by (simp add: hlec_inv_def list_inv_def s2)
  show "events s2 (xs @ [q]) = events s xs @ [(last_id s, 0, True)]"
    using events_cong [of xs s2 s] old s1(4) by (simp add: events_def s2)
qed

text \<open>The copy is what its \<open>malloc\<close> returned, and the call fails only with it.\<close>

lemma strdup_malloc:
  assumes "cstr (bytes h) p s" "length s < 2 ^ 32" "malloc hk (length s + 1) h = Some (q, h1)"
  shows "if q = 0 then strdup hk p h = None else \<exists>h'. strdup hk p h = Some (q, h')"
  using assms(3) by (simp add: strdup_def strlen_cstr [OF assms(1,2)])

text \<open>
  C24: \<open>new_event\<close> adds an event at the end of the table, with the next identifier, no callback and quiet; its name is a copy of the argument.
  It asks \<open>malloc\<close> for the event and for the copy of the name. When both calls return a block, the event is in the first and its
  name in the second. When the first fails, which it does only when there are no pages for it, the result is the null pointer and the table
  is as before; when the second fails, again only for want of pages, the code writes to the null pointer.
\<close>

theorem new_event_appends:
  assumes "hooks_ok granted hk" "hlec_inv granted s C xs" "cstr (bytes (hheap s)) name nm" "length nm < 2 ^ 30"
    "stays granted hk (hheap s) C {name ..< name + Suc (length nm)}" "last_id s < 2 ^ 63 - 1"
  shows "\<exists>q h1. malloc hk EVENT_SIZE (hheap s) = Some (q, h1) \<and>
    (q = 0 \<longrightarrow> (\<exists>w. liballoc_alloc hk (pages_for (EVENT_SIZE + TAG)) (sys (hheap s)) = Some (0, w)) \<and>
       (\<exists>s' C'. new_event hk name s = Some (0, s') \<and> hlec_inv granted s' C' xs \<and> events s' xs = events s xs)) \<and>
    (q \<noteq> 0 \<longrightarrow> (\<exists>n h2. malloc hk (length nm + 1) h1 = Some (n, h2) \<and>
       (n = 0 \<longrightarrow> (\<exists>w. liballoc_alloc hk (pages_for (length nm + 1 + TAG)) (sys h1) = Some (0, w)) \<and>
          new_event hk name s = None) \<and>
       (n \<noteq> 0 \<longrightarrow> (\<exists>s' C'. new_event hk name s = Some (q, s') \<and> hlec_inv granted s' C' (xs @ [q]) \<and>
          events s' (xs @ [q]) = events s xs @ [(last_id s, 0, True)] \<and> last_id s' = last_id s + 1 \<and>
          ev_name (evs s' q) = n \<and> cstr (bytes (hheap s')) n nm))))"
proof -
  note i = hlec_invD [OF assms(2)]
  have sz: "EVENT_SIZE < 2 ^ 31" "length nm + 1 < 2 ^ 31" "length nm < 2 ^ 32" using assms(4) by (simp_all add: EVENT_SIZE_def)
  obtain q h1 C1 where m: "malloc hk EVENT_SIZE (hheap s) = Some (q, h1)" "heap_inv granted h1 C1" "bytes h1 = bytes (hheap s)"
    "q = 0 \<longrightarrow> live h1 C1 = live (hheap s) C" "q \<noteq> 0 \<longrightarrow> live (hheap s) C q = None \<and> live h1 C1 = (live (hheap s) C)(q \<mapsto> EVENT_SIZE)"
    using malloc_inv [OF assms(1) i(6) sz(1)] by blast
  show ?thesis
  proof (cases "q = 0")
    case True
    have "new_event hk name s = Some (0, s\<lparr>hheap := h1\<rparr>)" using m(1) True by (simp add: new_event_def alloc_event_def)
    moreover have "hlec_inv granted (s\<lparr>hheap := h1\<rparr>) C1 xs" using i m(2,4) True by (simp add: hlec_inv_def list_inv_def)
    moreover have "events (s\<lparr>hheap := h1\<rparr>) xs = events s xs" by (simp add: events_def)
    ultimately show ?thesis using malloc_null [OF m(1) [unfolded True] sz(1)] m(1) True by blast
  next
    case False
    then have l1: "live (hheap s) C q = None" "live h1 C1 = (live (hheap s) C)(q \<mapsto> EVENT_SIZE)" using m(5) by simp_all
    have q: "q \<notin> set xs" using i(7) l1(1) by auto
    obtain s1 where s1: "alloc_event hk s = Some (q, s1)" "evlist (evs s1) (first_event s1) (xs @ [q])" "last_event s1 = q" "last_id s1 = last_id s"
      "hheap s1 = h1" "\<forall>x \<in> set xs. same_event (evs s1 x) (evs s x)" "event_callback (evs s1 q) = 0" "quiet (evs s1 q)"
      using alloc_event_ok [OF i(1,2) _ m(1) False q] i(3) by auto
    have st: "stays granted hk h1 C1 {name ..< name + Suc (length nm)}"
      using l1 by (intro malloc_stays [OF assms(1) i(6) m(1) assms(5)]) auto
    have c1: "cstr (bytes h1) name nm" using assms(3) m(3) by simp
    obtain n h2 where n: "malloc hk (length nm + 1) h1 = Some (n, h2)" using malloc_inv [OF assms(1) m(2) sz(2)] by blast
    note sd = strdup_malloc [OF c1 sz(3) n]
    show ?thesis
    proof (cases "n = 0")
      case n0: True
      then have "new_event hk name s = None" using s1(1,4,5) False sd by (simp add: new_event_def)
      then show ?thesis using m(1) n n0 False malloc_null [OF n [unfolded n0] sz(2)] by blast
    next
      case n0: False
      then obtain h3 C3 where d: "strdup hk name h1 = Some (n, h3)" "heap_inv granted h3 C3" "live h1 C1 n = None"
        "live h3 C3 = (live h1 C1)(n \<mapsto> length nm + 1)" "cstr (bytes h3) n nm"
        using strdup_ok [OF assms(1) m(2) c1 assms(4) st] sd by auto
      define s2 where "s2 = s1\<lparr>evs := (evs s1)(q := (evs s1 q)\<lparr>ev_id := last_id s, ev_name := n, quiet := True\<rparr>), last_id := last_id s + 1, hheap := h3\<rparr>"
      have "new_event hk name s = Some (q, s2)"
        using s1(1,4,5) False d(1) assms(6) by (simp add: new_event_def Let_def s2_def)
      moreover note named_event [OF assms(2) s1(2,3,6,7) l1 d(2-4) s2_def]
      moreover have "last_id s2 = last_id s + 1" "ev_name (evs s2 q) = n" "cstr (bytes (hheap s2)) n nm" using d(5) by (simp_all add: s2_def)
      ultimately have "\<exists>s' C'. new_event hk name s = Some (q, s') \<and> hlec_inv granted s' C' (xs @ [q]) \<and>
          events s' (xs @ [q]) = events s xs @ [(last_id s, 0, True)] \<and> last_id s' = last_id s + 1 \<and>
          ev_name (evs s' q) = n \<and> cstr (bytes (hheap s')) n nm" by (intro exI [of _ s2] exI [of _ C3] conjI)
      then show ?thesis using m(1) n False n0 by (intro exI [of _ q] exI [of _ h1]) simp
    qed
  qed
qed

section \<open>Removal\<close>

text \<open>Two blocks are released, which leaves all others as they are.\<close>

lemma free_two:
  assumes "hooks_ok granted hk" "heap_inv granted h C" "live h C a \<noteq> None" "live h C b \<noteq> None" "a \<noteq> b"
  shows "\<exists>h' C'. free hk a h \<bind> free hk b = Some h' \<and> heap_inv granted h' C' \<and> bytes h' = bytes h \<and> live h' C' = (live h C)(a := None, b := None)"
proof -
  obtain n k where l: "live h C a = Some n" "live h C b = Some k" using assms(3,4) by auto
  obtain h1 C1 where f: "free hk a h = Some h1" "heap_inv granted h1 C1" "bytes h1 = bytes h" "live h1 C1 = (live h C)(a := None)"
    using free_inv [OF assms(1,2) l(1)] by blast
  have "live h1 C1 b = Some k" using f(4) l(2) assms(5) by simp
  from free_inv [OF assms(1) f(2) this] f show ?thesis by auto
qed

text \<open>The list without a node that is the first one or has a predecessor.\<close>

definition unlink :: "nat \<Rightarrow> nat \<Rightarrow> 'w hlec \<Rightarrow> 'w hlec" where
  "unlink prev node s =
     (let s = (if prev \<noteq> 0 then s\<lparr>evs := (evs s)(prev := (evs s prev)\<lparr>ev_next := ev_next (evs s node)\<rparr>)\<rparr>
               else s\<lparr>first_event := ev_next (evs s node)\<rparr>)
      in s\<lparr>evs := (evs s)(node := (evs s node)\<lparr>ev_next := 0\<rparr>)\<rparr>)"

lemma remove_unlink:
  "remove_event_id hk i s = do {
     prev \<leftarrow> get_prev_event_for_id i s;
     node \<leftarrow> get_event_for_id i s;
     if node = 0 then Some s
     else do {
       h \<leftarrow> free hk (ev_name (evs (unlink prev node s) node)) (hheap (unlink prev node s)) \<bind> free hk node;
       Some ((unlink prev node s)\<lparr>hheap := h\<rparr>)
     }
   }"
  by (simp add: remove_event_id_def unlink_def Let_def cong: if_cong)

lemma unlink_same:
  "same_event (evs (unlink prev node s) x) (evs s x)" "hheap (unlink prev node s) = hheap s" "last_event (unlink prev node s) = last_event s"
  "last_id (unlink prev node s) = last_id s"
  by (auto simp: unlink_def same_event_def Let_def)

lemma find_split:
  assumes "distinct (map f (as @ x # bs))"
  shows "find (\<lambda>y. f y = f x) (as @ x # bs) = Some x"
  using assms by (induction as) auto

lemma remove_event_list:
  assumes "evlist (evs s) (first_event s) (as @ x # bs)" "distinct (as @ x # bs)" "distinct (map (\<lambda>x. ev_id (evs s x)) (as @ x # bs))"
  shows "\<exists>prev. get_prev_event_for_id (ev_id (evs s x)) s = Some prev \<and> get_event_for_id (ev_id (evs s x)) s = Some x \<and> x \<noteq> 0 \<and>
    evlist (evs (unlink prev x s)) (first_event (unlink prev x s)) (as @ bs)"
proof -
  have g: "get_event_for_id (ev_id (evs s x)) s = Some x"
    using event_loop_ok [OF assms(1)] find_split [of "\<lambda>x. ev_id (evs s x)" as x bs] assms(3) by (simp add: get_event_for_id_def)
  have nz: "x \<noteq> 0" using evlist_nonzero [OF assms(1)] by auto
  show ?thesis
  proof (cases as rule: rev_cases)
    case Nil
    then have "get_prev_event_for_id (ev_id (evs s x)) s = Some 0"
      using prev_loop_none [OF assms(1)] assms(3) by (auto simp: get_prev_event_for_id_def)
    moreover have "ev_next (evs (unlink 0 x s) y) = ev_next (evs s y)" if "y \<in> set bs" for y using assms(2) that by (auto simp: unlink_def)
    then have "evlist (evs (unlink 0 x s)) p bs = evlist (evs s) p bs" for p by (rule evlist_cong)
    then have "evlist (evs (unlink 0 x s)) (first_event (unlink 0 x s)) bs" using assms(1) Nil by (simp add: unlink_def)
    ultimately show ?thesis using g nz Nil by auto
  next
    case (snoc cs y)
    then have l: "evlist (evs s) (first_event s) (cs @ y # x # bs)" using assms(1) by simp
    have y: "y \<noteq> 0" "y \<noteq> x" using evlist_nonzero [OF l] assms(2) snoc by auto
    have "set (tl (cs @ [y])) \<subseteq> set (cs @ [y])" by (cases cs) auto
    then have "get_prev_event_for_id (ev_id (evs s x)) s = Some y"
      unfolding get_prev_event_for_id_def using assms(3) snoc by (intro prev_loop_found [OF l]) auto
    moreover have "evlist (evs (unlink y x s)) (first_event s) (cs @ y # bs)"
      by (rule evlist_delete [OF l]) (use assms(2) snoc y in \<open>auto simp: unlink_def\<close>)
    ultimately show ?thesis using g nz snoc y by (intro exI [of _ y]) (simp add: unlink_def)
  qed
qed


lemma remove_event_ok:
  assumes "hooks_ok granted hk" "list_inv granted s C (as @ x # bs)"
  shows "\<exists>s' C'. remove_event_id hk (ev_id (evs s x)) s = Some s' \<and> x \<noteq> 0 \<and> list_inv granted s' C' (as @ bs) \<and>
    events s' (as @ bs) = events s (as @ bs) \<and> last_event s' = last_event s \<and> last_id s' = last_id s"
proof -
  let ?xs = "as @ x # bs"
  have i: "evlist (evs s) (first_event s) ?xs" "distinct (?xs @ map (\<lambda>x. ev_name (evs s x)) ?xs)" "distinct (map (\<lambda>x. ev_id (evs s x)) ?xs)"
    "\<forall>x \<in> set ?xs. ev_id (evs s x) < last_id s" "heap_inv granted (hheap s) C"
    "\<forall>x \<in> set ?xs. live (hheap s) C x = Some EVENT_SIZE \<and> live (hheap s) C (ev_name (evs s x)) \<noteq> None"
    using assms(2) by (simp_all add: list_inv_def)
  have dx: "distinct ?xs" using i(2) unfolding distinct_append by blast
  obtain prev where r: "get_prev_event_for_id (ev_id (evs s x)) s = Some prev" "get_event_for_id (ev_id (evs s x)) s = Some x" "x \<noteq> 0"
    "evlist (evs (unlink prev x s)) (first_event (unlink prev x s)) (as @ bs)"
    using remove_event_list [OF i(1) dx i(3)] by blast
  define t where "t = unlink prev x s"
  have same: "same_event (evs t y) (evs s y)" "hheap t = hheap s" "last_event t = last_event s" "last_id t = last_id s" for y
    unfolding t_def by (rule unlink_same)+
  define n where "n = ev_name (evs s x)"
  have n: "ev_name (evs t x) = n" using same(1) by (simp add: n_def same_event_def)
  have lx: "live (hheap s) C n \<noteq> None" "live (hheap s) C x \<noteq> None" "n \<noteq> x" using i(2,6) by (auto simp: n_def)
  obtain h C' where f: "free hk n (hheap s) \<bind> free hk x = Some h" "heap_inv granted h C'" "live h C' = (live (hheap s) C)(n := None, x := None)"
    using free_two [OF assms(1) i(5) lx] by blast
  have "remove_event_id hk (ev_id (evs s x)) s = Some (t\<lparr>hheap := h\<rparr>)"
    unfolding remove_unlink r Option.bind.bind_lunit t_def [symmetric] n same(2) f(1) using r(3) by simp
  moreover have e: "ev_name (evs t y) = ev_name (evs s y)" "ev_id (evs t y) = ev_id (evs s y)" for y using same(1) by (simp_all add: same_event_def)
  have "live h C' y = live (hheap s) C y" if "y \<noteq> n" "y \<noteq> x" for y using f(3) that by simp
  moreover have "y \<noteq> n" "y \<noteq> x" "ev_name (evs s y) \<noteq> n" "ev_name (evs s y) \<noteq> x" if y: "y \<in> set (as @ bs)" for y
  proof -
    let ?N = "\<lambda>x. ev_name (evs s x)"
    have in_N: "?N y \<in> ?N ` set (as @ bs)" using y by (rule imageI)
    have "n \<notin> ?N ` set (as @ bs)" using i(2) by (simp add: n_def image_Un)
    then show "?N y \<noteq> n" using in_N by metis
    have d: "set ?xs \<inter> ?N ` set ?xs = {}" using i(2) unfolding distinct_append set_map by blast
    have sub: "set (as @ bs) \<subseteq> set ?xs" by auto
    have "n \<in> ?N ` set ?xs" unfolding n_def by (rule imageI) simp
    then show "y \<noteq> n" using d sub y by blast
    have "?N y \<in> ?N ` set ?xs" using in_N sub by blast
    moreover have "x \<in> set ?xs" by simp
    ultimately show "?N y \<noteq> x" using d by blast
    show "y \<noteq> x" using dx y by auto
  qed
  ultimately have "list_inv granted (t\<lparr>hheap := h\<rparr>) C' (as @ bs)"
    using r(4) i(2,3,4,6) f(2) same(4) by (auto simp: list_inv_def e t_def [symmetric])
  moreover have "events (t\<lparr>hheap := h\<rparr>) (as @ bs) = events s (as @ bs)" using same(1) by (intro events_cong) simp
  ultimately show ?thesis using \<open>remove_event_id hk (ev_id (evs s x)) s = Some (t\<lparr>hheap := h\<rparr>)\<close> r(3) same(3,4) by auto
qed

text \<open>
  \<open>remove_event\<close>, by pointer or by identifier, takes exactly that event out of the table, with its two blocks, and keeps the invariant, for the
  only event and for every event that is not the last one.
\<close>

theorem remove_event_removes:
  assumes "hooks_ok granted hk" "hlec_inv granted s C (as @ x # bs)" "bs \<noteq> [] \<or> as = []"
  shows "\<exists>s' C'. remove_event_id hk (ev_id (evs s x)) s = Some s' \<and> remove_event hk x s = Some s' \<and> hlec_inv granted s' C' (as @ bs) \<and>
    events s' (as @ bs) = events s (as @ bs)"
proof -
  have i: "list_inv granted s C (as @ x # bs)" "last_event s = last (as @ x # bs)" using assms(2) by (auto simp: hlec_inv_def)
  obtain s' C' where r: "remove_event_id hk (ev_id (evs s x)) s = Some s'" "x \<noteq> 0"
    "list_inv granted s' C' (as @ bs)" "events s' (as @ bs) = events s (as @ bs)" "last_event s' = last_event s"
    using remove_event_ok [OF assms(1) i(1)] by (elim exE conjE) (rule that)
  have "as @ bs \<noteq> [] \<longrightarrow> last (as @ x # bs) = last (as @ bs)" using assms(3) by (cases bs) simp_all
  then have "hlec_inv granted s' C' (as @ bs)" using r(3,5) i(2) by (simp add: hlec_inv_def)
  moreover have "remove_event hk x s = Some s'" using r(1,2) by (simp add: remove_event_def)
  ultimately show ?thesis using r(1,4) by (intro exI [of _ s'] exI [of _ C']) simp
qed

lemma lost_event:
  assumes "hooks_ok granted hk" "hlec_inv granted s C (as @ [x])" "as \<noteq> []"
    "remove_event hk x s = Some s1" "new_event hk name s1 = Some (ev, s2)" "ev \<noteq> 0"
  shows "last_event s1 = x" "get_event_for_id (obtain_event_id ev s2) s2 = Some 0"
    "raise_event_id call (obtain_event_id ev s2) args s2 = Some (- 1, s2)"
proof -
  have li: "list_inv granted s C (as @ x # [])" "last_event s = x" using assms(2) by (simp_all add: hlec_inv_def)
  from remove_event_ok [OF assms(1) li(1)] obtain C1 where s1: "x \<noteq> 0" "list_inv granted s1 C1 as" "last_event s1 = x" "last_id s1 = last_id s"
    using assms(4) li(2) by (auto simp: remove_event_def)
  show "last_event s1 = x" by (rule s1(3))
  have x: "x \<notin> set as" using li(1) by (simp add: list_inv_def)
  have i: "evlist (evs s1) (first_event s1) as" "\<forall>x \<in> set as. ev_id (evs s1 x) < last_id s1" "heap_inv granted (hheap s1) C1"
    "\<forall>x \<in> set as. live (hheap s1) C1 x = Some EVENT_SIZE" using s1(2) by (simp_all add: list_inv_def)
  have f: "first_event s1 \<noteq> 0" using i(1) assms(3) by (cases as) auto
  have sz: "EVENT_SIZE < 2 ^ 31" by (simp add: EVENT_SIZE_def)
  obtain q h where m: "malloc hk EVENT_SIZE (hheap s1) = Some (q, h)" "q \<noteq> 0 \<longrightarrow> live (hheap s1) C1 q = None"
    using malloc_inv [OF assms(1) i(3) sz] by blast
  have q: "q = ev" using assms(5,6) m(1) f s1(1,3) by (auto simp: new_event_def alloc_event_def Let_def Option.bind_eq_Some_conv split: if_splits)
  then have "ev \<notin> set as" using i(4) m(2) assms(6) by auto
  have s2: "first_event s2 = first_event s1" "ev_id (evs s2 ev) = last_id s1" "\<forall>y. y \<noteq> ev \<longrightarrow> y \<noteq> x \<longrightarrow> evs s2 y = evs s1 y"
    using assms(5,6) m(1) q f s1(1,3) by (auto simp: new_event_def alloc_event_def Let_def Option.bind_eq_Some_conv split: if_splits)
  have "evs s2 y = evs s1 y" if "y \<in> set as" for y
  proof -
    have "y \<noteq> ev" "y \<noteq> x" using x \<open>ev \<notin> set as\<close> that by auto
    then show ?thesis using s2(3) by simp
  qed
  then have e2: "evlist (evs s2) (first_event s2) as" "\<forall>y \<in> set as. ev_id (evs s2 y) < last_id s1"
    using i(1,2) evlist_cong [of as "evs s2" "evs s1"] s2(1) by auto
  have "find (\<lambda>y. ev_id (evs s2 y) = last_id s1) as = None" using e2(2) by (auto simp: find_None_iff)
  then show g: "get_event_for_id (obtain_event_id ev s2) s2 = Some 0"
    using event_loop_ok [OF e2(1), of "last_id s1"] s2(2) assms(6) by (simp add: get_event_for_id_def obtain_event_id_def)
  show "raise_event_id call (obtain_event_id ev s2) args s2 = Some (- 1, s2)" by (simp add: raise_event_id_def g raise_event_def)
qed

text \<open>
  C25: an event that is created after the last of several events was removed is lost. \<open>last_event\<close> still points to the removed event, in memory that was
  released; the new event is linked from there and is not found by its identifier, so that raising it by identifier never runs its callback.
\<close>

theorem removed_last_loses_events:
  assumes "hooks_ok granted hk" "hlec_inv granted s C (as @ [x])" "as \<noteq> []"
  shows "\<exists>s1. remove_event hk x s = Some s1 \<and> last_event s1 = x \<and>
    (\<forall>name ev s2. new_event hk name s1 = Some (ev, s2) \<longrightarrow> ev \<noteq> 0 \<longrightarrow>
       get_event_for_id (obtain_event_id ev s2) s2 = Some 0 \<and> raise_event_id call (obtain_event_id ev s2) args s2 = Some (- 1, s2))"
proof -
  have "list_inv granted s C (as @ x # [])" "last_event s = x" using assms(2) by (simp_all add: hlec_inv_def)
  with remove_event_ok [OF assms(1) this(1)] obtain s1 where "remove_event hk x s = Some s1" "last_event s1 = x"
    by (auto simp: remove_event_def)
  then show ?thesis by (intro exI [of _ s1] conjI allI impI) (assumption | rule lost_event(2,3) [OF assms])+
qed

text \<open>
  raising by identifier looks the identifier up in the table: the callback is called exactly when the event is there, has a callback and is not quiet; otherwise the
  result is -1 and nothing happens.
\<close>

theorem raise_event_lookup:
  assumes "hlec_inv granted s C xs"
  shows "raise_event_id call i args s =
    (case map_of (events s xs) i of
       Some (cb, q) \<Rightarrow> if q \<or> cb = 0 then Some (- 1, s) else call cb args s
     | None \<Rightarrow> Some (- 1, s))"
proof -
  note ev = hlec_invD(1) [OF assms]
  have nz: "0 \<notin> set xs" by (rule evlist_nonzero [OF ev])
  have "map_of (events s xs) i = map_option (\<lambda>x. (event_callback (evs s x), quiet (evs s x))) (find (\<lambda>x. ev_id (evs s x) = i) xs)"
    unfolding events_def by (induction xs) auto
  moreover have "x \<noteq> 0" if "find (\<lambda>x. ev_id (evs s x) = i) xs = Some x" for x using that nz by (metis find_Some_iff nth_mem)
  ultimately show ?thesis
    by (auto simp: raise_event_id_def get_event_for_id_def event_loop_ok [OF ev] raise_event_def split: option.splits)
qed


section \<open>Witnesses\<close>

text \<open>Two events, in four blocks of the heap.\<close>

definition demo_chunks :: "chunk set" where
  "demo_chunks = {([0x2000000], 0x2010000), ([0x3000000], 0x3010000), ([0x4000000], 0x4010000), ([0x5000000], 0x5010000)}"

definition demo_heap :: "nat set heap" where
  "demo_heap = block_heap\<lparr>tsize := \<lambda>_. 40, bytes := demo_mem, sys := \<Union> (extent ` demo_chunks)\<rparr>"

definition demo_hlec :: "nat set hlec" where
  "demo_hlec = \<lparr>evs = \<lambda>a. if a = 0x2000030 then \<lparr>ev_id = 0, ev_name = 0x3000030, event_callback = 7, quiet = False, ev_next = 0x4000030\<rparr>
       else \<lparr>ev_id = 1, ev_name = 0x5000030, event_callback = 0, quiet = True, ev_next = 0\<rparr>,
     first_event = 0x2000030, last_event = 0x4000030, last_id = 2, hheap = demo_heap\<rparr>"

lemma demo_heap_inv: "heap_inv id demo_heap demo_chunks"
proof -
  have "blocks_ok (\<lambda>_. 0) (\<lambda>_. 0) (\<lambda>_. 0x10000) demo_chunks" by (simp add: blocks_ok_def demo_chunks_def TAG_def)
  then have "heap_ok demo_heap demo_chunks"
    by (auto simp: heap_ok_def demo_heap_def block_heap_def boot_heap_def lists_ok_def tags_ok_def MAXEXP_def intro!: exI [of _ "[]"])
  then show ?thesis by (simp add: heap_inv_def demo_heap_def block_heap_def boot_heap_def TAG_def)
qed

lemma demo_live: "p \<in> {0x2000030, 0x3000030, 0x4000030, 0x5000030} \<Longrightarrow> live demo_heap demo_chunks p = Some 40"
  by (auto simp: live_def used_def all_tags_def demo_chunks_def demo_heap_def block_heap_def boot_heap_def TAG_def)

lemma demo_hlec_inv: "hlec_inv id demo_hlec demo_chunks [0x2000030, 0x4000030]"
  using demo_heap_inv demo_live by (simp add: hlec_inv_def list_inv_def demo_hlec_def EVENT_SIZE_def)

text \<open>A source of pages that hands them out one after the other, above the first megabyte, and an empty table on it.\<close>

definition shelf :: "(nat \<times> nat set) hooks" where
  "shelf = \<lparr>liballoc_alloc = \<lambda>n (b, g). let r = {b ..< b + n * l_pageSize} in
       Some (if 0x100000 \<le> b \<and> b + n * l_pageSize < 2 ^ 32 \<and> r \<inter> g = {} then (b, b + n * l_pageSize, g \<union> r) else (0, b, g)),
     liballoc_free = \<lambda>p n (b, g). Some (b, g - {p ..< p + n * l_pageSize})\<rparr>"

definition empty_heap :: "(nat \<times> nat set) heap" where
  "empty_heap = \<lparr>magic = \<lambda>_. 0, tsize = \<lambda>_. 0, real_size = \<lambda>_. 0, index = \<lambda>_. 0, split_left = \<lambda>_. 0, split_right = \<lambda>_. 0,
     tnext = \<lambda>_. 0, tprev = \<lambda>_. 0, bytes = demo_mem, l_freePages = replicate MAXEXP 0, l_completePages = replicate MAXEXP 0,
     l_initialized = False, sys = (0x100000, {})\<rparr>"

definition empty_hlec :: "(nat \<times> nat set) hlec" where
  "empty_hlec = \<lparr>evs = \<lambda>_. \<lparr>ev_id = 0, ev_name = 0, event_callback = 0, quiet = False, ev_next = 0\<rparr>,
     first_event = 0, last_event = 0, last_id = 5, hheap = empty_heap\<rparr>"

lemma shelf_ok: "hooks_ok snd shelf"
  by (auto simp: hooks_ok_def shelf_def Let_def l_pageSize_def)

lemma empty_inv: "hlec_inv snd empty_hlec {} []"
  by (simp add: hlec_inv_def list_inv_def empty_hlec_def heap_inv_def empty_heap_def used_def all_tags_def)

lemma shelf_grants: "n < 0x10000 \<Longrightarrow> 0x100000 \<le> b \<Longrightarrow> b < 0x1000000 \<Longrightarrow> g \<subseteq> {..< b} \<Longrightarrow>
    liballoc_alloc shelf (pages_for n) (b, g) = Some (b, b + 0x10000, g \<union> {b ..< b + 0x10000})"
proof -
  assume a: "n < 0x10000" "0x100000 \<le> b" "b < 0x1000000" "g \<subseteq> {..< b}"
  have "pages_for n = 16" using a(1) by (auto simp: pages_for_def Let_def l_pageSize_def l_pageCount_def)
  moreover have "{b ..< b + 0x10000} \<inter> g = {}" using a(4) by auto
  ultimately show ?thesis using a(2,3) by (simp add: shelf_def Let_def l_pageSize_def)
qed

lemma first_malloc:
  assumes "malloc shelf EVENT_SIZE empty_heap = Some (q, h1)"
  shows "q \<noteq> 0" "sys h1 = (0x110000, {0x100000 ..< 0x110000})"
proof -
  have c: "cast32 EVENT_SIZE = EVENT_SIZE" "cast32 (EVENT_SIZE + TAG) = EVENT_SIZE + TAG" "EVENT_SIZE + TAG < 0x10000"
    by (simp_all add: EVENT_SIZE_def TAG_def cast32_def)
  note g = shelf_grants [OF c(3), of "0x100000" "{}", simplified]
  obtain h where h: "malloc shelf EVENT_SIZE empty_heap = carve EVENT_SIZE 0x100000 h" "sys h = (0x110000, {0x100000 ..< 0x110000})"
  proof -
    define g0 where "g0 = initialise empty_heap"
    have l: "l_freePages g0 = replicate MAXEXP 0" "sys g0 = (0x100000, {})" by (simp_all add: g0_def initialise_def empty_heap_def)
    have "getexp EVENT_SIZE < int MINEXP" by (simp add: getexp_def EVENT_SIZE_def MINEXP_def)
    then have "malloc shelf EVENT_SIZE empty_heap = allocate_new_tag shelf EVENT_SIZE g0 \<bind>
        (\<lambda>(tag, h). if tag = 0 then Some (0, h) else carve EVENT_SIZE tag h)"
      by (simp add: malloc_def Let_def c(1) l(1) g0_def [symmetric] MINEXP_def MAXEXP_def find_tag.simps [of _ _ 0])
    moreover obtain h where "allocate_new_tag shelf EVENT_SIZE g0 = Some (0x100000, h)" "sys h = (0x110000, {0x100000 ..< 0x110000})"
      by (simp add: allocate_new_tag_def c(2) l(2) g Let_def)
    ultimately show ?thesis using that by simp
  qed
  show "q \<noteq> 0" using malloc_null [of shelf EVENT_SIZE empty_heap h1] assms g
    by (auto simp: EVENT_SIZE_def empty_heap_def)
  show "sys h1 = (0x110000, {0x100000 ..< 0x110000})" using carve_sys [of EVENT_SIZE "0x100000" h q h1] h assms by simp
qed

theorem new_event_appends_witness:
  "\<exists>ev s' C'. new_event shelf 0x100 empty_hlec = Some (ev, s') \<and> hlec_inv snd s' C' [ev] \<and> events s' [ev] = [(5, 0, True)] \<and>
     cstr (bytes (hheap s')) (ev_name (evs s' ev)) [97, 32, 98]"
proof -
  let ?nm = "[97 :: u8, 32, 98]"
  have h: "hheap empty_hlec = empty_heap" "last_id empty_hlec < 2 ^ 63 - 1" "length ?nm < 2 ^ 30" "events empty_hlec [] = []"
    by (simp_all add: empty_hlec_def events_def)
  have c: "cstr (bytes (hheap empty_hlec)) 0x100 ?nm" using demo_strings(1) by (simp add: h(1) empty_heap_def)
  have st: "stays snd shelf (hheap empty_hlec) {} {0x100 ..< 0x100 + Suc (length ?nm)}"
    by (auto simp: stays_def h(1) empty_heap_def shelf_def Let_def split: if_splits)
  obtain q h1 where m: "malloc shelf EVENT_SIZE empty_heap = Some (q, h1)"
    "q \<noteq> 0 \<longrightarrow> (\<exists>n h2. malloc shelf (length ?nm + 1) h1 = Some (n, h2) \<and>
       (n = 0 \<longrightarrow> (\<exists>w. liballoc_alloc shelf (pages_for (length ?nm + 1 + TAG)) (sys h1) = Some (0, w)) \<and>
          new_event shelf 0x100 empty_hlec = None) \<and>
       (n \<noteq> 0 \<longrightarrow> (\<exists>s' C'. new_event shelf 0x100 empty_hlec = Some (q, s') \<and> hlec_inv snd s' C' ([] @ [q]) \<and>
          events s' ([] @ [q]) = events empty_hlec [] @ [(last_id empty_hlec, 0, True)] \<and> last_id s' = last_id empty_hlec + 1 \<and>
          ev_name (evs s' q) = n \<and> cstr (bytes (hheap s')) n ?nm)))"
    using new_event_appends [OF shelf_ok empty_inv c h(3) st h(2)] unfolding h(1) by (elim exE conjE)
  note f = first_malloc [OF m(1)]
  have "liballoc_alloc shelf (pages_for (length ?nm + 1 + TAG)) (sys h1) \<noteq> Some (0, w)" for w
    unfolding f(2) by (subst shelf_grants) (auto simp: TAG_def)
  then obtain s' C' n where "new_event shelf 0x100 empty_hlec = Some (q, s')" "hlec_inv snd s' C' ([] @ [q])"
    "events s' ([] @ [q]) = events empty_hlec [] @ [(last_id empty_hlec, 0, True)]" "ev_name (evs s' q) = n" "cstr (bytes (hheap s')) n ?nm"
    using m(2) f(1) by fast
  then show ?thesis by (intro exI [of _ q] exI [of _ s'] exI [of _ C']) (simp add: h(4), simp add: empty_hlec_def)
qed

theorem remove_event_removes_witness:
  "\<exists>s' C'. remove_event arena 0x2000030 demo_hlec = Some s' \<and> hlec_inv id s' C' [0x4000030] \<and> events s' [0x4000030] = [(1, 0, True)]"
proof -
  have "events demo_hlec [0x4000030] = [(1, 0, True)]" by (simp add: events_def demo_hlec_def)
  then show ?thesis using remove_event_removes [OF arena_ok, of demo_hlec demo_chunks "[]" "0x2000030" "[0x4000030]"] demo_hlec_inv by auto
qed

theorem removed_last_loses_events_witness:
  "\<exists>s1. remove_event arena 0x4000030 demo_hlec = Some s1 \<and> last_event s1 = 0x4000030"
  using removed_last_loses_events [OF arena_ok, of demo_hlec demo_chunks "[0x2000030]" "0x4000030" "\<lambda>cb a s. Some (0, s)" "0 :: int"] demo_hlec_inv by auto

theorem raise_event_lookup_witness:
  "raise_event_id (\<lambda>cb (a :: int) s. Some (a + int cb, s)) 0 35 demo_hlec = Some (42, demo_hlec)"
  using raise_event_lookup [OF demo_hlec_inv, of "\<lambda>cb a s. Some (a + int cb, s)" 0 "35 :: int"]
  by (simp add: events_def demo_hlec_def)

end
