(* ===== verification/Mutex.thy ===== *)
theory Mutex
  imports Liballoc_Spec
begin

text \<open>
  The spin lock \<open>mutex/mutex.cpp\<close>: the four functions as one thread runs them, and the accesses to the lock as several threads interleave
  them.

  The memory that holds the locks is the map \<open>locked\<close>, from a lock's address. \<open>None\<close> is a write to the null pointer or a loop that does not end.
\<close>

section \<open>One thread\<close>

record 'w mutexes =
  locked :: "nat \<Rightarrow> bool"
  mheap :: "'w heap"

text \<open>\<^verbatim>\<open>sizeof(internal_mutex)\<close>.\<close>

definition MUTEX_SIZE :: nat where "MUTEX_SIZE = 1"

definition create_mutex :: "'w hooks \<Rightarrow> 'w mutexes \<Rightarrow> (nat \<times> 'w mutexes) option" where
  "create_mutex hk s = do {
     (mtx, h) \<leftarrow> malloc hk MUTEX_SIZE (mheap s);
     if mtx = 0 then None
     else Some (mtx, s\<lparr>mheap := h, locked := (locked s)(mtx := False)\<rparr>)
   }"

text \<open>\<^verbatim>\<open>while (mtx_intrl->locked);\<close>.\<close>

partial_function (option) spin :: "nat \<Rightarrow> 'w mutexes \<Rightarrow> 'w mutexes option" where
  "spin mtx s = (if locked s mtx then spin mtx s else Some s)"

definition mutex_lock :: "nat \<Rightarrow> 'w mutexes \<Rightarrow> 'w mutexes option" where
  "mutex_lock mtx s = do {
     s \<leftarrow> spin mtx s;
     Some (s\<lparr>locked := (locked s)(mtx := True)\<rparr>)
   }"

definition mutex_unlock :: "nat \<Rightarrow> 'w mutexes \<Rightarrow> 'w mutexes" where
  "mutex_unlock mtx s = s\<lparr>locked := (locked s)(mtx := False)\<rparr>"

definition destroy_mutex :: "'w hooks \<Rightarrow> nat \<Rightarrow> 'w mutexes \<Rightarrow> 'w mutexes option" where
  "destroy_mutex hk mtx s = do {
     s \<leftarrow> mutex_lock mtx s;
     h \<leftarrow> free hk mtx (mheap s);
     Some (s\<lparr>mheap := h\<rparr>)
   }"

section \<open>Several threads\<close>

text \<open>
  Where a thread is with respect to one lock: outside; in the loop of \<open>mutex_lock\<close>, before it reads the lock; after it has read it as free and
  before it writes it; or in the critical section. Every read and every write is a step of its own.
\<close>

datatype pc = Outside | Testing | Claiming | Inside

type_synonym 't system = "bool \<times> ('t \<Rightarrow> pc)"

inductive step :: "'t system \<Rightarrow> 't system \<Rightarrow> bool" where
  enter: "p t = Outside \<Longrightarrow> step (l, p) (l, p(t := Testing))"
| test_taken: "p t = Testing \<Longrightarrow> step (True, p) (True, p)"
| test_free: "p t = Testing \<Longrightarrow> step (False, p) (False, p(t := Claiming))"
| claim: "p t = Claiming \<Longrightarrow> step (l, p) (True, p(t := Inside))"
| unlock: "p t = Inside \<Longrightarrow> step (l, p) (False, p(t := Outside))"

inductive_simps step_iff: "step (l, p) (l', p')"

text \<open>The same when nothing comes between the last read and the write of one thread, as on one processor without interrupts.\<close>

inductive calm_step :: "'t system \<Rightarrow> 't system \<Rightarrow> bool" where
  enter: "p t = Outside \<Longrightarrow> calm_step (l, p) (l, p(t := Testing))"
| test_taken: "p t = Testing \<Longrightarrow> calm_step (True, p) (True, p)"
| take_free: "p t = Testing \<Longrightarrow> calm_step (False, p) (True, p(t := Inside))"
| unlock: "p t = Inside \<Longrightarrow> calm_step (l, p) (False, p(t := Outside))"

definition start :: "'t system" where
  "start = (False, \<lambda>_. Outside)"

lemma calm_step_steps: "calm_step s s' \<Longrightarrow> step\<^sup>*\<^sup>* s s'"
proof (induction rule: calm_step.induct)
  case (take_free p t)
  have "step (False, p) (False, p(t := Claiming))" by (rule step.test_free [where t = t]) (rule take_free)
  moreover have "step (False, p(t := Claiming)) (True, (p(t := Claiming))(t := Inside))" by (rule step.claim) simp
  ultimately show ?case by (metis converse_rtranclp_into_rtranclp r_into_rtranclp fun_upd_upd)
qed (blast intro: step.intros)+

section \<open>Properties\<close>

text \<open>
  the lock excludes as long as nobody is interrupted between the test and the claim: then in every reachable state the lock is set exactly when
  some thread is in its critical section, and there is only one; and every state reached so is reached by the real steps.
\<close>

theorem mutex_excludes:
  assumes "calm_step\<^sup>*\<^sup>* start (l, p)"
  shows "(l \<longleftrightarrow> (\<exists>t. p t = Inside)) \<and> (\<forall>t u. p t = Inside \<longrightarrow> p u = Inside \<longrightarrow> t = u) \<and> step\<^sup>*\<^sup>* start (l, p)"
proof -
  have "(fst s \<longleftrightarrow> (\<exists>t. snd s t = Inside)) \<and> (\<forall>t u. snd s t = Inside \<longrightarrow> snd s u = Inside \<longrightarrow> t = u) \<and> step\<^sup>*\<^sup>* start s"
    if "calm_step\<^sup>*\<^sup>* start s" for s :: "'a system"
    using that
  proof (induction rule: rtranclp_induct)
    case base
    show ?case by (simp add: start_def)
  next
    case (step s s')
    have "(fst s' \<longleftrightarrow> (\<exists>t. snd s' t = Inside)) \<and> (\<forall>t u. snd s' t = Inside \<longrightarrow> snd s' u = Inside \<longrightarrow> t = u)"
      using step.hyps(2) step.IH by (cases rule: calm_step.cases) (auto split: if_splits, metis pc.distinct(5))
    moreover have "step\<^sup>*\<^sup>* start s'" using rtranclp_trans [OF _ calm_step_steps [OF step.hyps(2)]] step.IH by blast
    ultimately show ?case by blast
  qed
  from this [OF assms] show ?thesis unfolding fst_conv snd_conv .
qed

theorem mutex_excludes_witness: "step\<^sup>*\<^sup>* start (True, (\<lambda>_. Outside)(0 := Inside :: pc, Suc 0 := Testing))"
proof -
  have "calm_step start (False, (\<lambda>_. Outside)(0 :: nat := Testing))" unfolding start_def by (rule calm_step.enter) simp
  moreover have "calm_step (False, (\<lambda>_. Outside)(0 :: nat := Testing)) (True, ((\<lambda>_. Outside)(0 := Testing))(0 := Inside))"
    by (rule calm_step.take_free) simp
  moreover have "calm_step (True, ((\<lambda>_. Outside)(0 := Testing))(0 := Inside))
      (True, ((\<lambda>_. Outside)(0 := Testing))(0 := Inside, Suc 0 := Testing))" by (rule calm_step.enter) simp
  ultimately have "calm_step\<^sup>*\<^sup>* start (True, (\<lambda>_. Outside)(0 := Inside, Suc 0 := Testing))"
    by (metis converse_rtranclp_into_rtranclp r_into_rtranclp fun_upd_upd)
  then show ?thesis using mutex_excludes by blast
qed

text \<open>
  C26: in general the lock does not exclude. Any two threads can be in their critical sections at the same time: both read the lock as free
  before either of them writes it.
\<close>

theorem mutex_race:
  assumes "t \<noteq> u"
  shows "\<exists>l p. step\<^sup>*\<^sup>* start (l, p) \<and> p t = Inside \<and> p u = Inside"
proof -
  let ?p1 = "(\<lambda>_. Outside)(t := Testing)"
  let ?p2 = "?p1(u := Testing)"
  let ?p3 = "?p2(t := Claiming)"
  let ?p4 = "?p3(u := Claiming)"
  let ?p5 = "?p4(t := Inside)"
  note more = rtranclp.rtrancl_into_rtrancl [where r = step]
  have "step\<^sup>*\<^sup>* start (False, ?p1)" unfolding start_def by (intro r_into_rtranclp step.enter) simp
  then have "step\<^sup>*\<^sup>* start (False, ?p2)" by (rule more) (rule step.enter, use assms in simp)
  then have "step\<^sup>*\<^sup>* start (False, ?p3)" by (rule more) (rule step.test_free, use assms in simp)
  then have "step\<^sup>*\<^sup>* start (False, ?p4)" by (rule more) (rule step.test_free, use assms in simp)
  then have "step\<^sup>*\<^sup>* start (True, ?p5)" by (rule more) (rule step.claim, use assms in simp)
  then have "step\<^sup>*\<^sup>* start (True, ?p5(u := Inside))" by (rule more) (rule step.claim, use assms in simp)
  then show ?thesis using assms by (intro exI conjI) (assumption, auto)
qed

theorem mutex_race_witness: "\<exists>l p. step\<^sup>*\<^sup>* start (l, p) \<and> p False = Inside \<and> p True = Inside"
  by (rule mutex_race) simp

lemma spin_taken: "locked s mtx \<Longrightarrow> spin mtx s = None"
proof (rule ccontr)
  assume l: "locked s mtx" and "spin mtx s \<noteq> None"
  then obtain r where r: "spin mtx s = Some r" by blast
  have "\<not> locked s mtx"
    by (rule spin.raw_induct [OF _ r, where P = "\<lambda>mtx s r. \<not> locked s mtx"]) (auto split: if_splits)
  then show False using l by simp
qed

text \<open>
  one thread. A lock that is free is taken at once and is free again after \<open>mutex_unlock\<close>; \<open>mutex_lock\<close> and \<open>destroy_mutex\<close> do not return when the
  lock is taken, also by the caller itself.
\<close>

theorem mutex_single:
  "(\<not> locked s mtx \<longrightarrow> (\<exists>s'. mutex_lock mtx s = Some s' \<and> locked s' = (locked s)(mtx := True) \<and> mutex_unlock mtx s' = s)) \<and>
   (locked s mtx \<longrightarrow> mutex_lock mtx s = None \<and> destroy_mutex hk mtx s = None)"
proof (intro conjI impI)
  assume "\<not> locked s mtx"
  then have "mutex_lock mtx s = Some (s\<lparr>locked := (locked s)(mtx := True)\<rparr>)" by (simp add: mutex_lock_def spin.simps)
  moreover have "(locked s)(mtx := False) = locked s" using \<open>\<not> locked s mtx\<close> by (auto simp: fun_eq_iff)
  ultimately show "\<exists>s'. mutex_lock mtx s = Some s' \<and> locked s' = (locked s)(mtx := True) \<and> mutex_unlock mtx s' = s"
    by (simp add: mutex_unlock_def)
qed (simp_all add: mutex_lock_def destroy_mutex_def spin_taken)

theorem mutex_single_witness: "mutex_lock 7 \<lparr>locked = \<lambda>_. True, mheap = boot_heap\<rparr> = None"
  using mutex_single [of "\<lparr>locked = \<lambda>_. True, mheap = boot_heap\<rparr>" 7 arena] by simp

end
