(* ===== verification/Kernel_Entry.thy ===== *)
theory Kernel_Entry
  imports Klibc_Spec
begin

text \<open>
  The entry of the kernel, \<open>entry.cpp\<close>: the command line of the boot loader is cut into the arguments of \<open>main\<close>, in place.
\<close>

section \<open>Model\<close>

text \<open>The length of the command line.\<close>

partial_function (option) cmdline_length :: "mem \<Rightarrow> nat \<Rightarrow> nat \<Rightarrow> nat option" where
  "cmdline_length m cmdline len = (if m (cmdline + len) \<noteq> 0 then cmdline_length m cmdline (len + 1) else Some len)"

text \<open>Spaces become zeros and are counted.\<close>

definition cut_spaces :: "nat \<Rightarrow> nat \<Rightarrow> mem \<Rightarrow> nat \<times> mem" where
  "cut_spaces cmdline len m =
     for_up 0 len (\<lambda>i (argc, m). if m (cmdline + i) = 32 then (argc + 1, m(cmdline + i := 0)) else (argc, m)) (1, m)"

text \<open>
  The array of pointers has \<open>argc\<close> elements; a write behind it is undefined behaviour and gives \<open>None\<close>. The elements are the
  list of those written so far.
\<close>

definition put_arg :: "nat \<Rightarrow> nat \<Rightarrow> nat list option \<Rightarrow> nat list option" where
  "put_arg argc p args = (case args of None \<Rightarrow> None | Some ps \<Rightarrow> if length ps < argc then Some (ps @ [p]) else None)"

definition arg_ptrs :: "nat \<Rightarrow> nat \<Rightarrow> nat \<Rightarrow> mem \<Rightarrow> nat list option" where
  "arg_ptrs argc cmdline len m =
     for_up 0 len (\<lambda>i args. if m (cmdline + i) = 0 then put_arg argc (cmdline + i + 1) args else args)
       (put_arg argc cmdline (Some []))"

definition split_cmdline :: "nat \<Rightarrow> mem \<Rightarrow> (nat \<times> nat list \<times> mem) option" where
  "split_cmdline cmdline m = do {
     len \<leftarrow> cmdline_length m cmdline 0;
     let (argc, m) = cut_spaces cmdline len m;
     args \<leftarrow> arg_ptrs argc cmdline len m;
     Some (argc, args, m)
   }"

text \<open>What becomes of the processor: halted with interrupts disabled, or idle.\<close>

datatype fate = Halted | Idle

text \<open>
  The whole function. The response of the boot loader is \<open>None\<close> when there is no command line; after the first \<^verbatim>\<open>cli;hlt\<close> nothing is
  executed any more. The constructors and \<open>main\<close> are parameters, over a state of theirs beside the memory.
\<close>

definition kernel_entry ::
  "(mem \<times> 's \<Rightarrow> (mem \<times> 's) option) list \<Rightarrow> (nat \<Rightarrow> nat list \<Rightarrow> mem \<times> 's \<Rightarrow> (int \<times> mem \<times> 's) option) \<Rightarrow>
   nat option \<Rightarrow> mem \<times> 's \<Rightarrow> (fate \<times> mem \<times> 's) option" where
  "kernel_entry ctors main response st =
     (case response of
        None \<Rightarrow> Some (Halted, st)
      | Some cmdline \<Rightarrow> do {
          (m, s) \<leftarrow> fold (\<lambda>f st. st \<bind> f) ctors (Some st);
          (argc, argv, m) \<leftarrow> split_cmdline cmdline m;
          (ret, st) \<leftarrow> main argc argv (m, s);
          Some (if ret = 0 then Idle else Halted, st)
        })"

section \<open>The arguments\<close>

text \<open>The parts of a text between its spaces; empty ones count.\<close>

fun split_spaces :: "u8 list \<Rightarrow> u8 list list" where
  "split_spaces [] = [[]]"
| "split_spaces (c # cs) = (if c = 32 then [] # split_spaces cs else (c # hd (split_spaces cs)) # tl (split_spaces cs))"

text \<open>Where they start.\<close>

fun starts :: "nat \<Rightarrow> u8 list \<Rightarrow> nat list" where
  "starts p [] = []"
| "starts p (c # cs) = (if c = 32 then (p + 1) # starts (p + 1) cs else starts (p + 1) cs)"

text \<open>The memory in which the first \<open>k\<close> characters have been treated.\<close>

definition cut :: "nat \<Rightarrow> u8 list \<Rightarrow> nat \<Rightarrow> mem \<Rightarrow> mem" where
  "cut p s k m = (\<lambda>a. if p \<le> a \<and> a < p + k \<and> s ! (a - p) = 32 then 0 else m a)"

lemma cmdline_length_ok: "cstr m (p + k) s \<Longrightarrow> cmdline_length m p k = Some (k + length s)"
proof (induction s arbitrary: k)
  case Nil
  then show ?case by (subst cmdline_length.simps) simp
next
  case (Cons c cs)
  then show ?case using Cons.IH [of "k + 1"] by (subst cmdline_length.simps) simp
qed

lemma cut_spaces_ok:
  assumes "cstr m p s" "k \<le> length s"
  shows "cut_spaces p k m = (1 + count_list (take k s) 32, cut p s k m)"
  using assms(2)
proof (induction k)
  case 0
  have "cut p s 0 m = m" by (rule ext) (auto simp: cut_def)
  then show ?case by (simp add: cut_spaces_def)
next
  case (Suc k)
  have t: "take (Suc k) s = take k s @ [s ! k]" using Suc.prems by (simp add: take_Suc_conv_app_nth)
  have "cut p s k m (p + k) = s ! k" using cstr_at(1) [OF assms(1)] Suc.prems by (simp add: cut_def)
  moreover have "cut p s (Suc k) m = (if s ! k = 32 then (cut p s k m)(p + k := 0) else cut p s k m)"
    by (rule ext) (auto simp: cut_def less_Suc_eq)
  ultimately show ?case using Suc by (simp add: cut_spaces_def for_up_last t fun_upd_def)
qed

lemma starts_length: "length (starts p s) = count_list s 32"
  by (induction s arbitrary: p) auto

lemma starts_append: "starts p (s @ t) = starts p s @ starts (p + length s) t"
  by (induction s arbitrary: p) auto

lemma arg_ptrs_ok:
  assumes "cstr m p s" "k \<le> length s" "argc = 1 + count_list s 32"
  shows "for_up 0 k (\<lambda>i args. if cut p s (length s) m (p + i) = 0 then put_arg argc (p + i + 1) args else args) (Some [p]) =
    Some (p # starts p (take k s))"
  using assms(2)
proof (induction k)
  case 0
  then show ?case by simp
next
  case (Suc k)
  have t: "take (Suc k) s = take k s @ [s ! k]" using Suc.prems by (simp add: take_Suc_conv_app_nth)
  have z: "cut p s (length s) m (p + k) = 0 \<longleftrightarrow> s ! k = 32" using assms(1) Suc.prems by (simp add: cut_def cstr_nth)
  have "s = take k s @ s ! k # drop (Suc k) s" using Suc.prems by (simp add: id_take_nth_drop)
  then have "count_list s 32 = count_list (take k s) 32 + count_list (s ! k # drop (Suc k) s) 32" by (metis count_list_append)
  then have "s ! k = 32 \<Longrightarrow> length (p # starts p (take k s)) < argc" using assms(3) by (simp add: starts_length)
  then show ?case using Suc z by (simp add: for_up_last t starts_append put_arg_def)
qed

lemma split_spaces_nonempty: "split_spaces s \<noteq> []"
  by (cases s) auto

lemma split_spaces_cut:
  assumes "cstr m p s"
  shows "list_all2 (cstr (cut p s (length s) m)) (p # starts p s) (split_spaces s)"
proof -
  have "list_all2 (cstr m') (p # starts p s) (split_spaces s)"
    if "\<forall>i < length s. m' (p + i) = (if s ! i = 32 then 0 else s ! i) \<and> s ! i \<noteq> 0" "m' (p + length s) = 0" for m' p
    using that
  proof (induction s arbitrary: p)
    case Nil
    then show ?case by simp
  next
    case (Cons c cs)
    have IH: "list_all2 (cstr m') ((p + 1) # starts (p + 1) cs) (split_spaces cs)"
    proof (rule Cons.IH)
      show "\<forall>i < length cs. m' (p + 1 + i) = (if cs ! i = 32 then 0 else cs ! i) \<and> cs ! i \<noteq> 0"
        using Cons.prems(1) by (auto dest: spec [of _ "Suc _"])
      show "m' (p + 1 + length cs) = 0" using Cons.prems(2) by simp
    qed
    have c: "m' p = (if c = 32 then 0 else c)" "c \<noteq> 0" using Cons.prems(1) by (auto dest: spec [of _ 0])
    obtain x xs where "split_spaces cs = x # xs" using split_spaces_nonempty by (metis list.exhaust)
    then show ?case using IH c by auto
  qed
  then show ?thesis using assms by (auto simp: cut_def cstr_nth)
qed

text \<open>
  the arguments of \<open>main\<close>. For a command line of any form the arguments are exactly the parts between its spaces, each a string of its own in the
  memory of the command line; \<open>argc\<close> is their number, no pointer is written outside of the array, and nothing else in memory changes.
\<close>

theorem cmdline_arguments:
  assumes "cstr m p s"
  shows "\<exists>argv m'. split_cmdline p m = Some (length argv, argv, m') \<and> list_all2 (cstr m') argv (split_spaces s) \<and>
    (\<forall>a. a \<notin> {p ..< p + length s} \<longrightarrow> m' a = m a)"
proof -
  let ?m = "cut p s (length s) m" and ?argc = "1 + count_list s 32"
  have len: "cmdline_length m p 0 = Some (length s)" using cmdline_length_ok [of m p 0 s] assms by simp
  have "cut_spaces p (length s) m = (?argc, ?m)" using cut_spaces_ok [OF assms order_refl] by simp
  moreover have put: "put_arg ?argc p (Some []) = Some [p]" by (simp add: put_arg_def)
  have "arg_ptrs ?argc p (length s) ?m = Some (p # starts p s)"
    unfolding arg_ptrs_def put by (rule arg_ptrs_ok [OF assms order_refl refl, unfolded take_all [OF order_refl]])
  ultimately have "split_cmdline p m = Some (?argc, p # starts p s, ?m)" by (simp add: split_cmdline_def len)
  moreover have "?argc = length (p # starts p s)" by (simp add: starts_length)
  ultimately show ?thesis using split_spaces_cut [OF assms] by (intro exI [of _ "p # starts p s"] exI [of _ ?m]) (auto simp: cut_def)
qed

theorem cmdline_arguments_witness:
  "\<exists>a b m'. split_cmdline 0x100 demo_mem = Some (2, [a, b], m') \<and> cstr m' a [97] \<and> cstr m' b [98]"
proof -
  have "split_spaces [97, 32, 98] = [[97], [98]]" by simp
  then show ?thesis using cmdline_arguments [OF demo_strings(1)] by (auto simp: list_all2_Cons2)
qed

end
