(* ===== verification/Descriptors.thy ===== *)
theory Descriptors
  imports Prelude "HOL-Library.Monad_Syntax"
begin

text \<open>
  The descriptor tables of the processor, \<open>arch/x86_64/gdt/gdt.cpp\<close> and the gates of \<open>arch/x86_64/idt/idt.cpp\<close>. The tables are packed
  structures that the processor reads from memory byte by byte; their layout is part of the model. The addresses of the static objects
  are parameters. Loading the registers of the processor is recorded, not carried out.
\<close>

unbundle bit_operations_syntax

section \<open>Segments\<close>

record gdt_entry =
  g_limit_low :: u16
  g_base_low :: u16
  g_base_mid :: u8
  g_access :: u8
  g_granularity :: u8
  g_base_high :: u8

record tss_entry =
  t_limit_low :: u16
  t_base_low :: u16
  t_base_mid1 :: u8
  t_access :: u8
  t_granularity :: u8
  t_base_mid2 :: u8
  t_base_high :: u32
  t_reserved :: u32

record gdt =
  gdt_null :: gdt_entry
  kcode :: gdt_entry
  kdata :: gdt_entry
  udata :: gdt_entry
  ucode :: gdt_entry
  tss :: tss_entry

record tss_data =
  rsp :: "u64 list"
  ist :: "u64 list"
  iopb_offset :: u16

text \<open>Where the static objects are, and what the processor has been told.\<close>

record addresses =
  gdt_addr :: u64
  tss_addr :: u64
  kernel_stack :: u64
  idt_addr :: u64

record tables =
  s_gdt :: gdt
  s_tss :: tss_data
  gdtr :: "u16 \<times> u64"
  loaded_gdt :: "(u16 \<times> u64) option"
  loaded_task :: "u16 option"

definition SIZEOF_TSS :: nat where "SIZEOF_TSS = 104"
definition SIZEOF_GDT :: nat where "SIZEOF_GDT = 56"
definition KERNEL_STACK_SIZE :: nat where "KERNEL_STACK_SIZE = 8192"

definition plain_entry :: "u8 \<Rightarrow> u8 \<Rightarrow> gdt_entry" where
  "plain_entry a g = \<lparr>g_limit_low = 0, g_base_low = 0, g_base_mid = 0, g_access = a, g_granularity = g, g_base_high = 0\<rparr>"

definition default_gdt :: gdt where
  "default_gdt =
     \<lparr>gdt_null = plain_entry 0x00 0x00,
      kcode = plain_entry 0x9A 0xA0,
      kdata = plain_entry 0x92 0xA0,
      udata = plain_entry 0xF2 0xA0,
      ucode = plain_entry 0xFA 0xA0,
      tss = \<lparr>t_limit_low = 0, t_base_low = 0, t_base_mid1 = 0, t_access = 0x89, t_granularity = 0x00, t_base_mid2 = 0,
             t_base_high = 0, t_reserved = 0\<rparr>\<rparr>"

definition install_tss :: "addresses \<Rightarrow> tables \<Rightarrow> tables" where
  "install_tss ad s =
     (let base = tss_addr ad;
          limit = of_nat (SIZEOF_TSS - 1) :: u16
      in s\<lparr>s_gdt := (s_gdt s)\<lparr>tss :=
           \<lparr>t_limit_low = limit AND 0xFFFF,
            t_base_low = ucast (base AND 0xFFFF),
            t_base_mid1 = ucast (drop_bit 16 base AND 0xFF),
            t_access = 0x89,
            t_granularity = 0x00,
            t_base_mid2 = ucast (drop_bit 24 base AND 0xFF),
            t_base_high = ucast (drop_bit 32 base AND 0xFFFFFFFF),
            t_reserved = 0\<rparr>\<rparr>\<rparr>)"

text \<open>
  \<open>gdt_load\<close> loads the register of the table, and \<open>tss_load\<close> the task register with the selector of the last descriptor.
\<close>

definition gdt_reload :: "tables \<Rightarrow> tables" where
  "gdt_reload s = s\<lparr>loaded_gdt := Some (gdtr s), loaded_task := Some 0x28\<rparr>"

definition gdt_initialise :: "addresses \<Rightarrow> tables \<Rightarrow> tables" where
  "gdt_initialise ad s =
     (let s = s\<lparr>s_gdt := default_gdt\<rparr>;
          top = kernel_stack ad + of_nat KERNEL_STACK_SIZE;
          s = s\<lparr>s_tss := \<lparr>rsp = (replicate 3 0)[0 := top], ist = (replicate 7 0)[0 := top], iopb_offset = of_nat SIZEOF_TSS\<rparr>\<rparr>;
          s = install_tss ad s;
          s = s\<lparr>gdtr := (of_nat (SIZEOF_GDT - 1), gdt_addr ad)\<rparr>
      in gdt_reload s)"

text \<open>A value of zero stands for the stack pointer of the caller, \<open>cur\<close>.\<close>

definition update_stack :: "u64 \<Rightarrow> u64 \<Rightarrow> tables \<Rightarrow> tables" where
  "update_stack cur v s =
     (let v = (if v = 0 then cur else v)
      in s\<lparr>s_tss := (s_tss s)\<lparr>rsp := (rsp (s_tss s))[0 := v], ist := (ist (s_tss s))[0 := v]\<rparr>\<rparr>)"

definition set_rsp :: "int \<Rightarrow> u64 \<Rightarrow> tables \<Rightarrow> tables" where
  "set_rsp level v s =
     (if 0 \<le> level \<and> level \<le> 2 then s\<lparr>s_tss := (s_tss s)\<lparr>rsp := (rsp (s_tss s))[nat level := v]\<rparr>\<rparr> else s)"

definition set_ist :: "int \<Rightarrow> u64 \<Rightarrow> tables \<Rightarrow> tables" where
  "set_ist i v s =
     (if 1 \<le> i \<and> i \<le> 7 then s\<lparr>s_tss := (s_tss s)\<lparr>ist := (ist (s_tss s))[nat (i - 1) := v]\<rparr>\<rparr> else s)"

section \<open>Gates\<close>

record idt_entry =
  isr_offset_low :: u16
  gdt_selector :: u16
  gate_ist :: u8
  gate_flags :: u8
  isr_offset_middle :: u16
  isr_offset_high :: u32
  always_zero :: u32

record idt =
  entries :: "idt_entry list"
  idt_set_vectors :: "bool list"
  loaded_idt :: "(u16 \<times> u64) option"

definition SIZEOF_IDT :: nat where "SIZEOF_IDT = 4096"

definition register_isr :: "u8 \<Rightarrow> u64 \<Rightarrow> bool \<Rightarrow> idt \<Rightarrow> idt" where
  "register_isr vector isr_handler user_interrupt s =
     s\<lparr>entries := (entries s)[unat vector :=
         \<lparr>isr_offset_low = ucast (isr_handler AND 0xFFFF),
          gdt_selector = 0x08,
          gate_ist = 1,
          gate_flags = (if user_interrupt then 0xEE else 0x8E),
          isr_offset_middle = ucast (drop_bit 16 isr_handler AND 0xFFFF),
          isr_offset_high = ucast (drop_bit 32 isr_handler AND 0xFFFFFFFF),
          always_zero = 0\<rparr>],
       idt_set_vectors := (idt_set_vectors s)[unat vector := True]\<rparr>"

text \<open>The stubs of the exceptions and of the interrupt requests are written in assembler; their addresses are parameters.\<close>

definition idt_initialise :: "addresses \<Rightarrow> (nat \<Rightarrow> u64) \<Rightarrow> (nat \<Rightarrow> u64) \<Rightarrow> idt \<Rightarrow> idt" where
  "idt_initialise ad exception_stub_table irq_stub_table s =
     (let s = for_up 0 0x20 (\<lambda>i. register_isr (of_nat i) (exception_stub_table i) False) s;
          s = for_up 0x20 0x30 (\<lambda>i. register_isr (of_nat i) (irq_stub_table (i - 0x20)) False) s
      in s\<lparr>loaded_idt := Some (of_nat (SIZEOF_IDT - 1), idt_addr ad)\<rparr>)"

section \<open>What the processor reads\<close>

text \<open>The packed structures in memory, the least significant byte first.\<close>

definition bytes16 :: "u16 \<Rightarrow> u8 list" where
  "bytes16 w = [ucast w, ucast (drop_bit 8 w)]"

definition bytes32 :: "u32 \<Rightarrow> u8 list" where
  "bytes32 w = [ucast w, ucast (drop_bit 8 w), ucast (drop_bit 16 w), ucast (drop_bit 24 w)]"

definition tss_entry_bytes :: "tss_entry \<Rightarrow> u8 list" where
  "tss_entry_bytes e = bytes16 (t_limit_low e) @ bytes16 (t_base_low e) @ [t_base_mid1 e, t_access e, t_granularity e, t_base_mid2 e] @
     bytes32 (t_base_high e) @ bytes32 (t_reserved e)"

definition gdt_entry_bytes :: "gdt_entry \<Rightarrow> u8 list" where
  "gdt_entry_bytes e = bytes16 (g_limit_low e) @ bytes16 (g_base_low e) @ [g_base_mid e, g_access e, g_granularity e, g_base_high e]"

definition gdt_bytes :: "gdt \<Rightarrow> u8 list" where
  "gdt_bytes g = gdt_entry_bytes (gdt_null g) @ gdt_entry_bytes (kcode g) @ gdt_entry_bytes (kdata g) @ gdt_entry_bytes (udata g) @
     gdt_entry_bytes (ucode g) @ tss_entry_bytes (tss g)"

definition idt_entry_bytes :: "idt_entry \<Rightarrow> u8 list" where
  "idt_entry_bytes e = bytes16 (isr_offset_low e) @ bytes16 (gdt_selector e) @ [gate_ist e, gate_flags e] @ bytes16 (isr_offset_middle e) @
     bytes32 (isr_offset_high e) @ bytes32 (always_zero e)"

text \<open>
  The fields of a system descriptor and of an interrupt gate as the processor's manual places them: base and limit of the one, the address
  of the handler in the other.
\<close>

definition le_word :: "u8 list \<Rightarrow> u64" where
  "le_word bs = of_nat (foldr (\<lambda>b n. unat b + 256 * n) bs 0)"

definition descriptor_base :: "u8 list \<Rightarrow> u64" where
  "descriptor_base bs = le_word [bs ! 2, bs ! 3, bs ! 4, bs ! 7, bs ! 8, bs ! 9, bs ! 10, bs ! 11]"

definition descriptor_limit :: "u8 list \<Rightarrow> u64" where
  "descriptor_limit bs = le_word [bs ! 0, bs ! 1, bs ! 6 AND 0x0F]"

definition gate_offset :: "u8 list \<Rightarrow> u64" where
  "gate_offset bs = le_word [bs ! 0, bs ! 1, bs ! 6, bs ! 7, bs ! 8, bs ! 9, bs ! 10, bs ! 11]"

section \<open>Properties\<close>

definition byte_of :: "nat \<Rightarrow> u64 \<Rightarrow> u8" where
  "byte_of i w = ucast (drop_bit (8 * i) w)"

lemma div_next_byte: "n div 2 ^ k mod 256 + 256 * (n div 2 ^ (k + 8)) = n div 2 ^ k" for n :: nat
proof -
  have "n div 2 ^ (k + 8) = n div 2 ^ k div 256" by (simp add: power_add div_mult2_eq)
  then show ?thesis by simp
qed
lemma bytes_sum:
  fixes n :: nat assumes "n < 256 ^ 8" 
  shows "n mod 256 + 256 * (n div 2 ^ 8 mod 256 + 256 * (n div 2 ^ 16 mod 256 + 256 * (n div 2 ^ 24 mod 256 +
      256 * (n div 2 ^ 32 mod 256 + 256 * (n div 2 ^ 40 mod 256 + 256 * (n div 2 ^ 48 mod 256 + 256 * (n div 2 ^ 56 mod 256))))))) = n"
proof -
  have "n div 2 ^ 56 < 256" using assms by (simp add: less_mult_imp_div_less)
  then have l: "n div 2 ^ 56 mod 256 = n div 2 ^ 56" by (rule mod_less)
  note d = div_next_byte [of n 0, simplified add_0 power_0 div_by_1] div_next_byte [of n 8] div_next_byte [of n 16] div_next_byte [of n 24] div_next_byte [of n 32]
    div_next_byte [of n 40] div_next_byte [of n 48]
  show ?thesis unfolding l using d by (simp only: numeral_plus_numeral Num.add_num_simps)
qed

lemma le_word_bytes: "le_word [byte_of 0 w, byte_of 1 w, byte_of 2 w, byte_of 3 w, byte_of 4 w, byte_of 5 w, byte_of 6 w, byte_of 7 w] = w"
proof -
  have w0: "unat w < 2 ^ 64" using unsigned_less [of w, where ?'a = nat] by simp
  have b: "unat (byte_of i w) = unat w div 2 ^ (8 * i) mod 256" for i
    using w0 by (simp add: byte_of_def unsigned_ucast_eq unsigned_drop_bit_eq take_bit_eq_mod) (simp add: drop_bit_eq_div)
  have w: "unat w < 256 ^ 8" using w0 by simp
  have "foldr (\<lambda>b n. unat b + 256 * n) [byte_of 0 w, byte_of 1 w, byte_of 2 w, byte_of 3 w, byte_of 4 w, byte_of 5 w, byte_of 6 w, byte_of 7 w] 0 = unat w"
    using bytes_sum [OF w] by (simp add: b)
  then show ?thesis by (simp only: le_word_def) simp
qed

lemma masks: "(0xFF :: u64) = mask 8" "(0xFFFF :: u64) = mask 16" "(0xFFFFFFFF :: u64) = mask 32" "(0xFFFF :: u16) = mask 16"
  by (simp_all add: mask_eq_exp_minus_1)

lemma tss_bytes:
  "tss_entry_bytes (tss (s_gdt (install_tss ad s))) =
     [103, 0, byte_of 0 (tss_addr ad), byte_of 1 (tss_addr ad), byte_of 2 (tss_addr ad), 0x89, 0, byte_of 3 (tss_addr ad),
      byte_of 4 (tss_addr ad), byte_of 5 (tss_addr ad), byte_of 6 (tss_addr ad), byte_of 7 (tss_addr ad), 0, 0, 0, 0]"
  unfolding install_tss_def masks
  by (auto simp: tss_entry_bytes_def bytes16_def bytes32_def byte_of_def SIZEOF_TSS_def Let_def bit_simps intro!: bit_word_eqI)


lemma gate_bytes:
  assumes "unat v < length (entries s)"
  shows "idt_entry_bytes (entries (register_isr v h u s) ! unat v) =
     [byte_of 0 h, byte_of 1 h, 8, 0, 1, if u then 0xEE else 0x8E, byte_of 2 h, byte_of 3 h, byte_of 4 h, byte_of 5 h, byte_of 6 h, byte_of 7 h, 0, 0, 0, 0]"
  unfolding register_isr_def masks using assms
  by (auto simp: idt_entry_bytes_def bytes16_def bytes32_def byte_of_def bit_simps intro!: bit_word_eqI)

text \<open>
  C28: the task state segment is found where it is. After \<open>initialise\<close> the table that was loaded has exactly the size of the limit, and the descriptor that the task register was loaded with, as the
  processor decodes its bytes, is a present 64-bit task state segment with the address and the size of the kernel's; its stack for entering the kernel is
  the top of the kernel's stack.
\<close>

theorem gdt_describes_tss:
  fixes ad :: addresses and s :: tables
  defines "s' \<equiv> gdt_initialise ad s"
  defines "d \<equiv> drop 0x28 (gdt_bytes (s_gdt s'))"
  shows "loaded_task s' = Some 0x28 \<and> descriptor_base d = tss_addr ad \<and> descriptor_limit d = of_nat SIZEOF_TSS - 1 \<and> d ! 5 = 0x89 \<and>
    loaded_gdt s' = Some (of_nat (length (gdt_bytes (s_gdt s')) - 1), gdt_addr ad) \<and>
    rsp (s_tss s') ! 0 = kernel_stack ad + of_nat KERNEL_STACK_SIZE"
proof -
  let ?g = "s_gdt (install_tss ad (s\<lparr>s_gdt := default_gdt\<rparr>))"
  have d: "d = tss_entry_bytes (tss ?g)"
    by (simp add: d_def s'_def gdt_initialise_def gdt_reload_def gdt_bytes_def gdt_entry_bytes_def bytes16_def install_tss_def Let_def)
  have len: "length (gdt_bytes g) = 56" for g by (simp add: gdt_bytes_def gdt_entry_bytes_def tss_entry_bytes_def bytes16_def bytes32_def)
  have "descriptor_base d = tss_addr ad" unfolding d tss_bytes descriptor_base_def using le_word_bytes [of "tss_addr ad"] by simp
  moreover have "descriptor_limit d = of_nat SIZEOF_TSS - 1" "d ! 5 = 0x89"
    unfolding d tss_bytes by (simp_all add: descriptor_limit_def le_word_def SIZEOF_TSS_def)
  ultimately show ?thesis
    by (simp add: len) (simp add: s'_def gdt_initialise_def gdt_reload_def install_tss_def Let_def SIZEOF_GDT_def)
qed

text \<open>
  C40: interrupt gates. A gate set by \<open>register_isr\<close>, as the processor decodes its bytes, leads to the handler, in the kernel's code segment and on the first
  interrupt stack; it is open to user mode exactly when asked for, and no other gate changes.
\<close>

theorem register_isr_gate:
  assumes "length (entries s) = 256"
  shows "let s' = register_isr v h u s; d = idt_entry_bytes (entries s' ! unat v) in
    gate_offset d = h \<and> le_word [d ! 2, d ! 3] = 8 \<and> d ! 4 = 1 \<and> d ! 5 AND 0x8F = 0x8E \<and> (drop_bit 5 (d ! 5) AND 3 = (if u then 3 else 0)) \<and>
    (\<forall>i. i \<noteq> unat v \<longrightarrow> entries s' ! i = entries s ! i)"
proof -
  have v: "unat v < length (entries s)" using assms unsigned_less [of v, where ?'a = nat] by simp
  have "gate_offset [byte_of 0 h, byte_of 1 h, 8, 0, 1, if u then 0xEE else 0x8E, byte_of 2 h, byte_of 3 h, byte_of 4 h, byte_of 5 h, byte_of 6 h, byte_of 7 h, 0, 0, 0, 0] = h"
    using le_word_bytes [of h] by (simp add: gate_offset_def)
  then show ?thesis unfolding Let_def gate_bytes [OF v] by (simp add: le_word_def) (simp add: register_isr_def)
qed

theorem register_isr_gate_witness:
  "gate_offset (idt_entry_bytes (entries (register_isr 14 0xFFFFFFFF80001234 False
      \<lparr>entries = replicate 256 undefined, idt_set_vectors = [], loaded_idt = None\<rparr>) ! 14)) = 0xFFFFFFFF80001234"
  using register_isr_gate [of "\<lparr>entries = replicate 256 undefined, idt_set_vectors = [], loaded_idt = None\<rparr>" 14 "0xFFFFFFFF80001234" False]
  by (simp add: Let_def)

end
