(* ===== verification/Vector.thy ===== *)
theory Vector
  imports Liballoc_Spec
begin

text \<open>
  The container \<open>klibc/vector\<close> over the heap allocator, for elements that are copied byte by byte and need no destructor, like those of the
  kernel's only instance. The memory that holds elements is the map \<open>elems\<close>, from an element's address; an iterator is such an address. \<open>None\<close> is
  undefined behaviour, a write to the null pointer, or the endless loop of \<open>at\<close>. The size of an element, \<^verbatim>\<open>sizeof(T)\<close>,
  is the argument \<open>sz\<close>.
\<close>

section \<open>Model\<close>

record vec =
  vdata :: nat
  vsize :: nat
  vcapacity :: nat

record ('a, 'w) vmem =
  elems :: "nat \<Rightarrow> 'a"
  vheap :: "'w heap"

definition empty_vec :: vec where
  "empty_vec = \<lparr>vdata = 0, vsize = 0, vcapacity = 0\<rparr>"

text \<open>\<open>memmove\<close> of \<open>n\<close> elements.\<close>

definition move_elems :: "nat \<Rightarrow> nat \<Rightarrow> nat \<Rightarrow> nat \<Rightarrow> (nat \<Rightarrow> 'a) \<Rightarrow> nat \<Rightarrow> 'a" where
  "move_elems sz d s n m = (\<lambda>a. if d \<le> a \<and> a < d + sz * n \<and> (a - d) mod sz = 0 then m (s + (a - d)) else m a)"

definition grow :: "'w hooks \<Rightarrow> nat \<Rightarrow> nat \<Rightarrow> vec \<Rightarrow> ('a, 'w) vmem \<Rightarrow> (vec \<times> ('a, 'w) vmem) option" where
  "grow hk sz min_cap v s = do {
     let new_cap = (if vcapacity v \<noteq> 0 then mul64 (vcapacity v) 2 else 4);
     let new_cap = (if new_cap < min_cap then min_cap else new_cap);
     (new_data, h) \<leftarrow> malloc hk (mul64 sz new_cap) (vheap s);
     s \<leftarrow> (if vdata v \<noteq> 0 then
             if new_data = 0 \<and> vsize v \<noteq> 0 then None
             else do {
               h \<leftarrow> free hk (vdata v) h;
               Some (s\<lparr>elems := move_elems sz new_data (vdata v) (vsize v) (elems s), vheap := h\<rparr>)
             }
           else Some (s\<lparr>vheap := h\<rparr>));
     Some (v\<lparr>vdata := new_data, vcapacity := new_cap\<rparr>, s)
   }"

definition shift_right :: "'w hooks \<Rightarrow> nat \<Rightarrow> nat \<Rightarrow> nat \<Rightarrow> vec \<Rightarrow> ('a, 'w) vmem \<Rightarrow> (vec \<times> ('a, 'w) vmem) option" where
  "shift_right hk sz pos count v s = do {
     (v, s) \<leftarrow> (if add64 (vsize v) count > vcapacity v then grow hk sz (add64 (vsize v) count) v s else Some (v, s));
     if vdata v = 0 \<and> sub64 (vsize v) pos \<noteq> 0 then None
     else Some (v, s\<lparr>elems := move_elems sz (vdata v + sz * (pos + count)) (vdata v + sz * pos) (sub64 (vsize v) pos) (elems s)\<rparr>)
   }"

definition shift_left :: "nat \<Rightarrow> nat \<Rightarrow> nat \<Rightarrow> vec \<Rightarrow> ('a, 'w) vmem \<Rightarrow> ('a, 'w) vmem" where
  "shift_left sz pos count v s =
     s\<lparr>elems := move_elems sz (vdata v + sz * pos) (vdata v + sz * (pos + count)) (sub64 (sub64 (vsize v) pos) count) (elems s)\<rparr>"

definition vec_at :: "nat \<Rightarrow> nat \<Rightarrow> vec \<Rightarrow> nat option" where
  "vec_at sz i v = (if i \<ge> vsize v then None else Some (vdata v + sz * i))"

definition reserve :: "'w hooks \<Rightarrow> nat \<Rightarrow> nat \<Rightarrow> vec \<Rightarrow> ('a, 'w) vmem \<Rightarrow> (vec \<times> ('a, 'w) vmem) option" where
  "reserve hk sz new_cap v s = (if new_cap > vcapacity v then grow hk sz new_cap v s else Some (v, s))"

definition shrink_to_fit :: "'w hooks \<Rightarrow> nat \<Rightarrow> vec \<Rightarrow> ('a, 'w) vmem \<Rightarrow> (vec \<times> ('a, 'w) vmem) option" where
  "shrink_to_fit hk sz v s =
     (if vcapacity v \<le> vsize v then Some (v, s)
      else if vsize v = 0 then do {
        h \<leftarrow> free hk (vdata v) (vheap s);
        Some (v\<lparr>vdata := 0, vcapacity := 0\<rparr>, s\<lparr>vheap := h\<rparr>)
      }
      else do {
        (new_data, h) \<leftarrow> malloc hk (mul64 sz (vsize v)) (vheap s);
        if new_data = 0 then None
        else do {
          h \<leftarrow> free hk (vdata v) h;
          Some (v\<lparr>vdata := new_data, vcapacity := vsize v\<rparr>,
            s\<lparr>elems := move_elems sz new_data (vdata v) (vsize v) (elems s), vheap := h\<rparr>)
        }
      })"

definition clear :: "vec \<Rightarrow> vec" where
  "clear v = v\<lparr>vsize := 0\<rparr>"

text \<open>The index of an iterator.\<close>

definition idx_of :: "nat \<Rightarrow> nat \<Rightarrow> vec \<Rightarrow> nat" where
  "idx_of sz pos v = (pos - vdata v) div sz"

text \<open>A placement \<^verbatim>\<open>new (vdata + i) T(x)\<close>, and a row of them.\<close>

definition place :: "nat \<Rightarrow> nat \<Rightarrow> 'a \<Rightarrow> vec \<Rightarrow> ('a, 'w) vmem \<Rightarrow> ('a, 'w) vmem option" where
  "place sz i x v s = (if vdata v = 0 then None else Some (s\<lparr>elems := (elems s)(vdata v + sz * i := x)\<rparr>))"

fun place_all :: "nat \<Rightarrow> nat \<Rightarrow> 'a list \<Rightarrow> vec \<Rightarrow> ('a, 'w) vmem \<Rightarrow> ('a, 'w) vmem option" where
  "place_all sz i [] v s = Some s"
| "place_all sz i (x # xs) v s = place sz i x v s \<bind> place_all sz (Suc i) xs v"

text \<open>\<open>insert\<close> of one value, also \<open>emplace\<close>, and of a range of values, also of \<open>count\<close> copies.\<close>

definition insert_one :: "'w hooks \<Rightarrow> nat \<Rightarrow> nat \<Rightarrow> 'a \<Rightarrow> vec \<Rightarrow> ('a, 'w) vmem \<Rightarrow> (nat \<times> vec \<times> ('a, 'w) vmem) option" where
  "insert_one hk sz pos value v s = do {
     let idx = idx_of sz pos v;
     (v, s) \<leftarrow> shift_right hk sz idx 1 v s;
     s \<leftarrow> place sz idx value v s;
     let v = v\<lparr>vsize := add64 (vsize v) 1\<rparr>;
     Some (vdata v + sz * idx, v, s)
   }"

definition insert_range :: "'w hooks \<Rightarrow> nat \<Rightarrow> nat \<Rightarrow> 'a list \<Rightarrow> vec \<Rightarrow> ('a, 'w) vmem \<Rightarrow> (nat \<times> vec \<times> ('a, 'w) vmem) option" where
  "insert_range hk sz pos values v s = do {
     let idx = idx_of sz pos v;
     if values = [] then Some (vdata v + sz * idx, v, s)
     else do {
       (v, s) \<leftarrow> shift_right hk sz idx (length values) v s;
       s \<leftarrow> place_all sz idx values v s;
       let v = v\<lparr>vsize := add64 (vsize v) (length values)\<rparr>;
       Some (vdata v + sz * idx, v, s)
     }
   }"

definition erase :: "nat \<Rightarrow> nat \<Rightarrow> vec \<Rightarrow> ('a, 'w) vmem \<Rightarrow> nat \<times> vec \<times> ('a, 'w) vmem" where
  "erase sz pos v s =
     (let idx = idx_of sz pos v;
          s = shift_left sz idx 1 v s;
          v = v\<lparr>vsize := sub64 (vsize v) 1\<rparr>
      in (vdata v + sz * idx, v, s))"

definition erase_range :: "nat \<Rightarrow> nat \<Rightarrow> nat \<Rightarrow> vec \<Rightarrow> ('a, 'w) vmem \<Rightarrow> nat \<times> vec \<times> ('a, 'w) vmem" where
  "erase_range sz fst_pos end_pos v s =
     (let idx = idx_of sz fst_pos v; count = (end_pos - fst_pos) div sz in
      if count = 0 then (vdata v + sz * idx, v, s)
      else let s = shift_left sz idx count v s; v = v\<lparr>vsize := sub64 (vsize v) count\<rparr> in (vdata v + sz * idx, v, s))"

definition push_back :: "'w hooks \<Rightarrow> nat \<Rightarrow> 'a \<Rightarrow> vec \<Rightarrow> ('a, 'w) vmem \<Rightarrow> (vec \<times> ('a, 'w) vmem) option" where
  "push_back hk sz value v s = do {
     (v, s) \<leftarrow> (if vsize v \<ge> vcapacity v then grow hk sz (add64 (vsize v) 1) v s else Some (v, s));
     s \<leftarrow> place sz (vsize v) value v s;
     Some (v\<lparr>vsize := add64 (vsize v) 1\<rparr>, s)
   }"

definition pop_back :: "vec \<Rightarrow> vec" where
  "pop_back v = (if vsize v > 0 then v\<lparr>vsize := vsize v - 1\<rparr> else v)"

definition resize :: "'w hooks \<Rightarrow> nat \<Rightarrow> nat \<Rightarrow> 'a \<Rightarrow> vec \<Rightarrow> ('a, 'w) vmem \<Rightarrow> (vec \<times> ('a, 'w) vmem) option" where
  "resize hk sz count value v s =
     (if count < vsize v then Some (v\<lparr>vsize := count\<rparr>, s)
      else if count > vsize v then do {
        (v, s) \<leftarrow> reserve hk sz count v s;
        s \<leftarrow> place_all sz (vsize v) (replicate (count - vsize v) value) v s;
        Some (v\<lparr>vsize := count\<rparr>, s)
      }
      else Some (v, s))"

section \<open>The abstract sequence\<close>

text \<open>The values that a vector holds, and its invariant: the block is in use with the size of the capacity.\<close>

definition items :: "nat \<Rightarrow> vec \<Rightarrow> ('a, 'w) vmem \<Rightarrow> 'a list" where
  "items sz v s = map (\<lambda>i. elems s (vdata v + sz * i)) [0 ..< vsize v]"

definition vec_inv :: "('w \<Rightarrow> nat set) \<Rightarrow> 'w hooks \<Rightarrow> nat \<Rightarrow> vec \<Rightarrow> ('a, 'w) vmem \<Rightarrow> chunk set \<Rightarrow> bool" where
  "vec_inv granted hk sz v s C \<longleftrightarrow> hooks_ok granted hk \<and> heap_inv granted (vheap s) C \<and> 0 < sz \<and> vsize v \<le> vcapacity v \<and>
     (if vdata v = 0 then vcapacity v = 0 else live (vheap s) C (vdata v) = Some (sz * vcapacity v))"

text \<open>Everything but the vector's own block is as before.\<close>

definition others_kept :: "vec \<Rightarrow> ('a, 'w) vmem \<Rightarrow> chunk set \<Rightarrow> ('a, 'w) vmem \<Rightarrow> chunk set \<Rightarrow> bool" where
  "others_kept v s C s' C' \<longleftrightarrow> (\<forall>q n. q \<noteq> vdata v \<longrightarrow> live (vheap s) C q = Some n \<longrightarrow>
     live (vheap s') C' q = Some n \<and> (\<forall>a. q \<le> a \<longrightarrow> a < q + n \<longrightarrow> elems s' a = elems s a))"

lemma length_items [simp]: "length (items sz v s) = vsize v"
  by (simp add: items_def)

lemma nth_items: "i < vsize v \<Longrightarrow> items sz v s ! i = elems s (vdata v + sz * i)"
  by (simp add: items_def)

lemma vec_inv_data: "vec_inv granted hk sz v s C \<Longrightarrow> i < vcapacity v \<Longrightarrow> vdata v \<noteq> 0"
  by (cases "vdata v = 0") (simp_all add: vec_inv_def)

lemma move_elems_hit: "0 < sz \<Longrightarrow> i < n \<Longrightarrow> move_elems sz d s n m (d + sz * i) = m (s + sz * i)"
  by (simp add: move_elems_def)

lemma move_elems_slot: "0 < sz \<Longrightarrow> move_elems sz (d + sz * k) s n m (d + sz * i) = (if k \<le> i \<and> i < k + n then m (s + sz * (i - k)) else m (d + sz * i))"
proof -
  assume sz: "0 < sz"
  have "d + sz * i - (d + sz * k) = sz * (i - k)" if "k \<le> i" by (simp add: that diff_mult_distrib2)
  moreover have "sz * i < sz * k + sz * n \<longleftrightarrow> i < k + n" using sz by (metis distrib_left mult_less_cancel1)
  ultimately show ?thesis using sz by (auto simp: move_elems_def)
qed

lemma move_elems_else: "a < d \<or> d + sz * n \<le> a \<Longrightarrow> move_elems sz d s n m a = m a"
  by (auto simp: move_elems_def)

text \<open>The capacity after \<open>grow\<close>; the sizes of the sources do not overflow.\<close>

definition grown :: "vec \<Rightarrow> nat \<Rightarrow> nat" where
  "grown v m = max m (if vcapacity v = 0 then 4 else 2 * vcapacity v)"

lemma grown_small:
  assumes "0 < sz" "sz * grown v m < 2 ^ 31"
  shows "grown v m < 2 ^ 31" "mul64 sz (grown v m) = sz * grown v m"
    "(let n = (if vcapacity v \<noteq> 0 then mul64 (vcapacity v) 2 else 4) in if n < m then m else n) = grown v m"
proof -
  have "grown v m \<le> sz * grown v m" using assms(1) by simp
  then show g: "grown v m < 2 ^ 31" using assms(2) by (rule le_less_trans)
  show "mul64 sz (grown v m) = sz * grown v m" using assms(2) by (simp add: mul64_le SIZE_MAX_def)
  show "(let n = (if vcapacity v \<noteq> 0 then mul64 (vcapacity v) 2 else 4) in if n < m then m else n) = grown v m"
    using g by (auto simp: grown_def mul64_le SIZE_MAX_def max_def Let_def split: if_splits)
qed

text \<open>\<open>grow\<close> in terms of what \<open>malloc\<close> returned.\<close>

lemma grow_eq:
  assumes "0 < sz" "sz * grown v m < 2 ^ 31" "malloc hk (sz * grown v m) (vheap s) = Some (p, h)"
  shows "grow hk sz m v s =
     (if vdata v \<noteq> 0 then
        if p = 0 \<and> vsize v \<noteq> 0 then None
        else free hk (vdata v) h \<bind> (\<lambda>h. Some (v\<lparr>vdata := p, vcapacity := grown v m\<rparr>,
          s\<lparr>elems := move_elems sz p (vdata v) (vsize v) (elems s), vheap := h\<rparr>))
      else Some (v\<lparr>vdata := p, vcapacity := grown v m\<rparr>, s\<lparr>vheap := h\<rparr>))"
  using grown_small [OF assms(1,2)] assms(3) by (simp add: grow_def Let_def cong: if_cong)

text \<open>The move to a new block.\<close>

lemma moved_kept:
  assumes "others_kept v s C s1 C1" "elems s1 = elems s" "live (vheap s) C p = None" "vsize v \<le> n"
    "\<And>q k. live (vheap s) C q = Some k \<Longrightarrow> {p ..< p + sz * n} \<inter> {q ..< q + k} = {}"
    "live h C2 = (live (vheap s1) C1)(vdata v := None)"
  shows "others_kept v s C (s1\<lparr>elems := move_elems sz p (vdata v) (vsize v) (elems s), vheap := h\<rparr>) C2"
proof -
  have "move_elems sz p (vdata v) (vsize v) (elems s) a = elems s a" if "live (vheap s) C q = Some k" "q \<le> a" "a < q + k" for q k a
  proof (rule move_elems_else)
    have "a \<notin> {p ..< p + sz * n}" using assms(5) [OF that(1)] that(2,3) by auto
    moreover have "sz * vsize v \<le> sz * n" using assms(4) by (rule mult_le_mono2)
    ultimately show "a < p \<or> p + sz * vsize v \<le> a" unfolding atLeastLessThan_iff by linarith
  qed
  then show ?thesis using assms(1,2,6) by (simp add: others_kept_def)
qed

lemma grow_ok:
  assumes inv: "vec_inv granted hk sz v s C" and small: "sz * grown v m < 2 ^ 31"
  shows "(\<exists>v' s' C'. grow hk sz m v s = Some (v', s') \<and> vec_inv granted hk sz v' s' C' \<and> vdata v' \<noteq> 0 \<and> live (vheap s) C (vdata v') = None \<and>
            vcapacity v' = grown v m \<and> vsize v' = vsize v \<and> items sz v' s' = items sz v s \<and> others_kept v s C s' C' \<and>
            (vdata v \<noteq> 0 \<longrightarrow> live (vheap s') C' (vdata v) = None))
       \<or> (\<exists>w. liballoc_alloc hk (pages_for (sz * grown v m + TAG)) (sys (vheap s)) = Some (0, w)) \<and>
         (case grow hk sz m v s of None \<Rightarrow> True | Some (v', s') \<Rightarrow> vdata v' = 0 \<and> vsize v' = 0)"
proof -
  note i = inv [unfolded vec_inv_def]
  have sz: "0 < sz" and hk: "hooks_ok granted hk" and h: "heap_inv granted (vheap s) C" using i by auto
  obtain p h1 C1 where m1: "malloc hk (sz * grown v m) (vheap s) = Some (p, h1)" "heap_inv granted h1 C1"
    "p = 0 \<longrightarrow> live h1 C1 = live (vheap s) C"
    "p \<noteq> 0 \<longrightarrow> live (vheap s) C p = None \<and> live h1 C1 = (live (vheap s) C)(p \<mapsto> sz * grown v m)"
    using malloc_inv [OF hk h small] by blast
  note g = grow_eq [OF sz small m1(1)]
  have cap: "vsize v \<le> grown v m" using i by (auto simp: grown_def)
  consider (none) "p = 0" | (first) "p \<noteq> 0" "vdata v = 0" | (move) "p \<noteq> 0" "vdata v \<noteq> 0" by blast
  then show ?thesis
  proof cases
    case none
    have "\<exists>w. liballoc_alloc hk (pages_for (sz * grown v m + TAG)) (sys (vheap s)) = Some (0, w)"
      using malloc_null [OF m1(1) [unfolded none] small] .
    moreover have "vsize v = 0" if "vdata v = 0" using that i by simp
    ultimately show ?thesis using none by (auto simp: g split: Option.bind_splits)
  next
    case first
    let ?v = "v\<lparr>vdata := p, vcapacity := grown v m\<rparr>" and ?s = "s\<lparr>vheap := h1\<rparr>"
    have "vsize v = 0" using first i by simp
    then have "vec_inv granted hk sz ?v ?s C1" "items sz ?v ?s = items sz v s" "others_kept v s C ?s C1"
      using m1(2,4) hk sz first by (auto simp: vec_inv_def items_def others_kept_def)
    then show ?thesis using g first m1(4) by (intro disjI1 exI [of _ ?v] exI [of _ ?s] exI [of _ C1]) simp
  next
    case move
    then have l: "live (vheap s) C p = None" "live h1 C1 = (live (vheap s) C)(p \<mapsto> sz * grown v m)" using m1(4) by auto
    have apart: "{p ..< p + sz * grown v m} \<inter> {q ..< q + k} = {}" if "live (vheap s) C q = Some k" for q k
    proof -
      have "q \<noteq> p" using that l(1) by auto
      then show ?thesis using live_block(4) [OF m1(2), of p "sz * grown v m" q k] that l(2) by simp
    qed
    have d: "live h1 C1 (vdata v) = Some (sz * vcapacity v)" "p \<noteq> vdata v" using move i l by auto
    obtain h2 C2 where f: "free hk (vdata v) h1 = Some h2" "heap_inv granted h2 C2" "live h2 C2 = (live h1 C1)(vdata v := None)"
      using free_inv [OF hk m1(2) d(1)] by blast
    let ?v = "v\<lparr>vdata := p, vcapacity := grown v m\<rparr>"
    let ?s = "s\<lparr>elems := move_elems sz p (vdata v) (vsize v) (elems s), vheap := h2\<rparr>"
    have "others_kept v s C (s\<lparr>vheap := h1\<rparr>) C1" using l by (auto simp: others_kept_def)
    then have "others_kept v s C ?s C2" using moved_kept [OF _ _ l(1) cap apart, of "s\<lparr>vheap := h1\<rparr>" C1 h2 C2] f(3) by simp
    moreover have "vec_inv granted hk sz ?v ?s C2" using f l hk sz move cap d(2) by (simp add: vec_inv_def)
    moreover have "items sz ?v ?s = items sz v s" by (simp add: items_def move_elems_hit [OF sz])
    ultimately show ?thesis using g move l(1) f by (intro disjI1 exI [of _ ?v] exI [of _ ?s] exI [of _ C2]) simp
  qed
qed

section \<open>Properties\<close>

text \<open>Writing inside the vector's block.\<close>

lemma own_write_kept:
  assumes "vec_inv granted hk sz v s C" "vdata v \<noteq> 0"
    "\<And>a. a < vdata v \<or> vdata v + sz * vcapacity v \<le> a \<Longrightarrow> e a = elems s a"
  shows "others_kept v s C (s\<lparr>elems := e\<rparr>) C"
proof -
  have l: "live (vheap s) C (vdata v) = Some (sz * vcapacity v)" "heap_inv granted (vheap s) C" using assms(1,2) by (auto simp: vec_inv_def)
  have "e a = elems s a" if "q \<noteq> vdata v" "live (vheap s) C q = Some n" "q \<le> a" "a < q + n" for q n a
  proof -
    have "a \<notin> {vdata v ..< vdata v + sz * vcapacity v}" using live_block(4) [OF l(2,1) that(2,1)] that(3,4) by auto
    then show ?thesis using assms(3) by auto
  qed
  then show ?thesis by (simp add: others_kept_def)
qed

lemma others_kept_trans:
  assumes "others_kept v s C s1 C1" "others_kept v1 s1 C1 s2 C2" "live (vheap s) C (vdata v1) = None \<or> vdata v1 = vdata v"
  shows "others_kept v s C s2 C2"
  using assms unfolding others_kept_def by (metis option.distinct(1))

lemma slot_in: "(i :: nat) < c \<Longrightarrow> 0 < sz \<Longrightarrow> d + sz * i < d + sz * c"
  by simp

lemma append_item:
  fixes x :: 'a and s :: "('a, 'w) vmem"
  assumes "vec_inv granted hk sz v s C" "vsize v < vcapacity v"
  defines "v' \<equiv> v\<lparr>vsize := Suc (vsize v)\<rparr>" and "s' \<equiv> s\<lparr>elems := (elems s)(vdata v + sz * vsize v := x)\<rparr>"
  shows "vec_inv granted hk sz v' s' C" "items sz v' s' = items sz v s @ [x]" "others_kept v s C s' C"
proof -
  have d: "vdata v \<noteq> 0" "0 < sz" using assms(1) vec_inv_data [OF assms(1,2)] by (simp_all add: vec_inv_def)
  show "vec_inv granted hk sz v' s' C" using assms(1,2) by (auto simp: vec_inv_def v'_def s'_def)
  show "items sz v' s' = items sz v s @ [x]" using d(2) by (auto simp: items_def v'_def s'_def)
  have "vdata v + sz * vsize v < vdata v + sz * vcapacity v" using slot_in [OF assms(2) d(2)] .
  then show "others_kept v s C s' C" unfolding s'_def by (intro own_write_kept [OF assms(1) d(1)]) auto
qed

text \<open>
  \<open>push_back\<close> appends. It ends with the values of the vector and the new one at the end; when the block is full, the values have moved to a
  new block of at least twice the size and the old one is free again. The invariant is kept, and no other block of the heap or its
  contents change. When there is no memory it writes to the null pointer.
\<close>

theorem push_back_appends:
  assumes "vec_inv granted hk sz v s C" "sz * grown v (vsize v + 1) < 2 ^ 31"
  shows "(\<exists>v' s' C'. push_back hk sz x v s = Some (v', s') \<and> vec_inv granted hk sz v' s' C' \<and> items sz v' s' = items sz v s @ [x] \<and>
            others_kept v s C s' C' \<and>
            (if vsize v < vcapacity v then vdata v' = vdata v else vdata v' \<noteq> vdata v \<and> (vdata v \<noteq> 0 \<longrightarrow> live (vheap s') C' (vdata v) = None)))
       \<or> (\<exists>w. liballoc_alloc hk (pages_for (sz * grown v (vsize v + 1) + TAG)) (sys (vheap s)) = Some (0, w)) \<and> push_back hk sz x v s = None"
proof -
  have i: "0 < sz" "vsize v \<le> vcapacity v" using assms(1) by (auto simp: vec_inv_def)
  have "vsize v + 1 \<le> grown v (vsize v + 1)" by (simp add: grown_def)
  then have add: "add64 (vsize v) 1 = Suc (vsize v)" using grown_small(1) [OF i(1) assms(2)] by (simp add: add64_le SIZE_MAX_def)
  show ?thesis
  proof (cases "vsize v < vcapacity v")
    case True
    then have "vdata v \<noteq> 0" by (rule vec_inv_data [OF assms(1)])
    then show ?thesis using append_item [OF assms(1) True, of x] True add by (simp add: push_back_def place_def) blast
  next
    case full: False
    from grow_ok [OF assms] show ?thesis
    proof (elim disjE exE conjE)
      fix v1 s1 C1
      assume g: "grow hk sz (vsize v + 1) v s = Some (v1, s1)" "vec_inv granted hk sz v1 s1 C1" "vdata v1 \<noteq> 0" "live (vheap s) C (vdata v1) = None"
        "vcapacity v1 = grown v (vsize v + 1)" "vsize v1 = vsize v" "items sz v1 s1 = items sz v s" "others_kept v s C s1 C1"
        "vdata v \<noteq> 0 \<longrightarrow> live (vheap s1) C1 (vdata v) = None"
      have room: "vsize v1 < vcapacity v1" using g(5,6) by (simp add: grown_def)
      note a = append_item [OF g(2) room, of x]
      have ne: "vdata v1 \<noteq> vdata v" using g(3,4) assms(1) by (auto simp: vec_inv_def split: if_splits)
      have "others_kept v s C (s1\<lparr>elems := (elems s1)(vdata v1 + sz * vsize v1 := x)\<rparr>) C1"
        using others_kept_trans [OF g(8) a(3)] g(4) by blast
      moreover have "push_back hk sz x v s = Some (v1\<lparr>vsize := Suc (vsize v1)\<rparr>, s1\<lparr>elems := (elems s1)(vdata v1 + sz * vsize v1 := x)\<rparr>)"
        using g(1,3,6) full add by (simp add: push_back_def place_def)
      ultimately show ?thesis using a(1,2) g(7,9) ne full by (intro disjI1 exI conjI) (assumption | simp)+
    qed (use full add in \<open>auto simp: push_back_def place_def split: option.splits\<close>)
  qed
qed

lemma idx_of_slot [simp]: "0 < sz \<Longrightarrow> idx_of sz (vdata v + sz * i) v = i"
  by (simp add: idx_of_def)

text \<open>
  \<open>erase\<close> removes one value: the later ones move down by one place, so that what was at the next address is now at this one. The block stays
  where it is, and nothing else in memory changes.
\<close>

theorem erase_removes:
  assumes "vec_inv granted hk sz v s C" "i < vsize v" "vsize v < 2 ^ 32"
  shows "\<exists>v' s'. erase sz (vdata v + sz * i) v s = (vdata v + sz * i, v', s') \<and> vec_inv granted hk sz v' s' C \<and> vdata v' = vdata v \<and>
    items sz v' s' = take i (items sz v s) @ drop (Suc i) (items sz v s) \<and> vheap s' = vheap s \<and> others_kept v s C s' C"
proof -
  have sz: "0 < sz" "vdata v \<noteq> 0" "vsize v \<le> vcapacity v"
    using assms(1,2) vec_inv_data [OF assms(1), of i] by (simp_all add: vec_inv_def)
  let ?v = "v\<lparr>vsize := vsize v - 1\<rparr>"
  let ?e = "move_elems sz (vdata v + sz * i) (vdata v + sz * Suc i) (vsize v - i - 1) (elems s)"
  let ?s = "s\<lparr>elems := ?e\<rparr>"
  have "sub64 (vsize v) 1 = vsize v - 1" "sub64 (sub64 (vsize v) i) 1 = vsize v - i - 1"
    using assms(2,3) by (simp_all add: sub64_le SIZE_MAX_def)
  then have e: "erase sz (vdata v + sz * i) v s = (vdata v + sz * i, ?v, ?s)" using sz by (simp add: erase_def shift_left_def Let_def)
  have slot: "?e (vdata v + sz * k) = (if i \<le> k \<and> k < vsize v - 1 then elems s (vdata v + sz * Suc k) else elems s (vdata v + sz * k))" for k
  proof -
    have "vdata v + sz * Suc i + sz * (k - i) = vdata v + sz * Suc k" if "i \<le> k"
      using that by (simp flip: distrib_left)
    then show ?thesis using assms(2) by (auto simp: move_elems_slot [OF sz(1)] add.assoc simp del: mult_Suc_right)
  qed
  have "items sz ?v ?s = take i (items sz v s) @ drop (Suc i) (items sz v s)"
  proof (rule nth_equalityI)
    show "length (items sz ?v ?s) = length (take i (items sz v s) @ drop (Suc i) (items sz v s))" using assms(2) by simp
  next
    fix k
    assume "k < length (items sz ?v ?s)"
    then show "items sz ?v ?s ! k = (take i (items sz v s) @ drop (Suc i) (items sz v s)) ! k"
      using assms(2) slot [of k] by (auto simp: nth_items nth_append min_def)
  qed
  moreover have "others_kept v s C ?s C"
  proof (rule own_write_kept [OF assms(1) sz(2)])
    fix a
    assume "a < vdata v \<or> vdata v + sz * vcapacity v \<le> a"
    moreover have "vdata v + sz * i + sz * (vsize v - i - 1) \<le> vdata v + sz * vcapacity v"
      using assms(2) sz(3) by (simp flip: distrib_left) arith
    ultimately show "?e a = elems s a" by (intro move_elems_else) auto
  qed
  moreover have "vec_inv granted hk sz ?v ?s C" using assms(1) by (auto simp: vec_inv_def)
  ultimately show ?thesis using e by simp
qed

text \<open>A value put into a block that has room.\<close>

lemma insert_item:
  fixes x :: 'a and s :: "('a, 'w) vmem"
  assumes "vec_inv granted hk sz v s C" "vsize v < vcapacity v" "i \<le> vsize v"
  defines "v' \<equiv> v\<lparr>vsize := Suc (vsize v)\<rparr>"
    and "e \<equiv> (move_elems sz (vdata v + sz * Suc i) (vdata v + sz * i) (vsize v - i) (elems s))(vdata v + sz * i := x)"
  shows "vec_inv granted hk sz v' (s\<lparr>elems := e\<rparr>) C" "others_kept v s C (s\<lparr>elems := e\<rparr>) C"
    "items sz v' (s\<lparr>elems := e\<rparr>) = take i (items sz v s) @ x # drop i (items sz v s)"
proof -
  have d: "vdata v \<noteq> 0" "0 < sz" using assms(1) vec_inv_data [OF assms(1,2)] by (simp_all add: vec_inv_def)
  show "vec_inv granted hk sz v' (s\<lparr>elems := e\<rparr>) C" using assms(1,2) by (auto simp: vec_inv_def v'_def)
  have slot: "e (vdata v + sz * k) = (if k < i then elems s (vdata v + sz * k) else if k = i then x else elems s (vdata v + sz * (k - 1)))"
    if "k \<le> vsize v" for k
  proof -
    have "vdata v + sz * i + sz * (k - Suc i) = vdata v + sz * (k - 1)" if "i < k" using that by (simp flip: distrib_left)
    then show ?thesis using that d(2) assms(3) by (auto simp: e_def move_elems_slot [OF d(2)] add.assoc simp del: mult_Suc_right)
  qed
  show "items sz v' (s\<lparr>elems := e\<rparr>) = take i (items sz v s) @ x # drop i (items sz v s)"
  proof (rule nth_equalityI)
    fix k
    assume "k < length (items sz v' (s\<lparr>elems := e\<rparr>))"
    then show "items sz v' (s\<lparr>elems := e\<rparr>) ! k = (take i (items sz v s) @ x # drop i (items sz v s)) ! k"
      using assms(3) slot [of k] by (auto simp: v'_def nth_items nth_append nth_Cons' min_def)
  qed (use assms(3) in \<open>simp add: v'_def\<close>)
  have reach: "vdata v + sz * Suc i + sz * (vsize v - i) = vdata v + sz * Suc (vsize v)" using assms(3) by (simp flip: distrib_left)
  have "sz * Suc (vsize v) \<le> sz * vcapacity v" "sz * Suc i \<le> sz * vcapacity v" using assms(2,3) by (intro mult_le_mono2; simp)+
  then show "others_kept v s C (s\<lparr>elems := e\<rparr>) C"
    using d(2) reach unfolding e_def by (intro own_write_kept [OF assms(1) d(1)]) (auto intro!: move_elems_else)
qed

text \<open>
  \<open>insert\<close> puts a value in front of the place it is given, at the beginning, in the middle or at the end, with a move to a larger
  block when the vector is full. It returns the place of the new value.
\<close>

theorem insert_inserts:
  assumes "vec_inv granted hk sz v s C" "sz * grown v (vsize v + 1) < 2 ^ 31" "i \<le> vsize v"
  shows "(\<exists>v' s' C'. insert_one hk sz (vdata v + sz * i) x v s = Some (vdata v' + sz * i, v', s') \<and> vec_inv granted hk sz v' s' C' \<and>
            items sz v' s' = take i (items sz v s) @ x # drop i (items sz v s) \<and> others_kept v s C s' C')
       \<or> (\<exists>w. liballoc_alloc hk (pages_for (sz * grown v (vsize v + 1) + TAG)) (sys (vheap s)) = Some (0, w)) \<and>
         insert_one hk sz (vdata v + sz * i) x v s = None"
proof -
  have i: "0 < sz" "vsize v \<le> vcapacity v" using assms(1) by (auto simp: vec_inv_def)
  have "vsize v + 1 \<le> grown v (vsize v + 1)" by (simp add: grown_def)
  then have add: "add64 (vsize v) 1 = Suc (vsize v)" "sub64 (vsize v) i = vsize v - i"
    using grown_small(1) [OF i(1) assms(2)] assms(3) by (simp_all add: add64_le sub64_le SIZE_MAX_def)
  show ?thesis
  proof (cases "vsize v < vcapacity v")
    case True
    then have "vdata v \<noteq> 0" by (rule vec_inv_data [OF assms(1)])
    then have "insert_one hk sz (vdata v + sz * i) x v s = Some (vdata v + sz * i, v\<lparr>vsize := Suc (vsize v)\<rparr>,
        s\<lparr>elems := (move_elems sz (vdata v + sz * Suc i) (vdata v + sz * i) (vsize v - i) (elems s))(vdata v + sz * i := x)\<rparr>)"
      using True add i(1) by (simp add: insert_one_def shift_right_def place_def)
    then show ?thesis using insert_item [OF assms(1) True assms(3), of x]
      by (intro disjI1 exI [of _ "v\<lparr>vsize := Suc (vsize v)\<rparr>"] exI conjI) (assumption | simp)+
  next
    case full: False
    from grow_ok [OF assms(1,2)] show ?thesis
    proof (elim disjE exE conjE)
      fix v1 s1 C1
      assume g: "grow hk sz (vsize v + 1) v s = Some (v1, s1)" "vec_inv granted hk sz v1 s1 C1" "vdata v1 \<noteq> 0" "live (vheap s) C (vdata v1) = None"
        "vcapacity v1 = grown v (vsize v + 1)" "vsize v1 = vsize v" "items sz v1 s1 = items sz v s" "others_kept v s C s1 C1"
      have room: "vsize v1 < vcapacity v1" "i \<le> vsize v1" using g(5,6) assms(3) by (simp_all add: grown_def)
      note a = insert_item [OF g(2) room, of x]
      have "insert_one hk sz (vdata v + sz * i) x v s = Some (vdata v1 + sz * i, v1\<lparr>vsize := Suc (vsize v1)\<rparr>,
          s1\<lparr>elems := (move_elems sz (vdata v1 + sz * Suc i) (vdata v1 + sz * i) (vsize v1 - i) (elems s1))(vdata v1 + sz * i := x)\<rparr>)"
        using full g(1,3,6) add i(1) by (simp add: insert_one_def shift_right_def place_def)
      moreover have "others_kept v s C (s1\<lparr>elems :=
          (move_elems sz (vdata v1 + sz * Suc i) (vdata v1 + sz * i) (vsize v1 - i) (elems s1))(vdata v1 + sz * i := x)\<rparr>) C1"
        using others_kept_trans [OF g(8) a(2)] g(4) by blast
      ultimately show ?thesis using a(1,3) g(7)
        by (intro disjI1 exI [of _ "v1\<lparr>vsize := Suc (vsize v1)\<rparr>"] exI conjI) (assumption | simp)+
    qed (use full add i(1) in \<open>auto simp: insert_one_def shift_right_def place_def split: option.splits if_splits\<close>)
  qed
qed

end
