(* ===== verification/Pci.thy ===== *)
theory Pci
  imports Prelude "HOL-Library.Monad_Syntax"
begin

text \<open>
  Port I/O (\<open>arch/x86_64/port_io.hpp\<close>) and the access to PCI configuration space (\<open>pcie/pcie.cpp\<close>).

  The devices behind the ports are not part of the kernel. What an access does to them is the parameter \<open>ports\<close>; the properties of this
  theory assume of it what the PCI specification says about configuration mechanism 1, as \<open>config_mechanism\<close>.
\<close>

section \<open>Model\<close>

record 'd ports =
  outb :: "u16 \<Rightarrow> u8 \<Rightarrow> 'd \<Rightarrow> 'd"
  outw :: "u16 \<Rightarrow> u16 \<Rightarrow> 'd \<Rightarrow> 'd"
  outl :: "u16 \<Rightarrow> u32 \<Rightarrow> 'd \<Rightarrow> 'd"
  inb :: "u16 \<Rightarrow> 'd \<Rightarrow> u8 \<times> 'd"
  inw :: "u16 \<Rightarrow> 'd \<Rightarrow> u16 \<times> 'd"
  inl :: "u16 \<Rightarrow> 'd \<Rightarrow> u32 \<times> 'd"

definition pci_address :: "u8 \<Rightarrow> u8 \<Rightarrow> u8 \<Rightarrow> u8 \<Rightarrow> u32" where
  "pci_address b d f offset =
     (let lbus = ucast b; lslot = ucast d; lfunc = ucast f in
      0x80000000 OR push_bit 16 lbus OR push_bit 11 lslot OR push_bit 8 lfunc OR ucast (offset AND 0xFC))"

definition pci_read :: "'d ports \<Rightarrow> u8 \<Rightarrow> u8 \<Rightarrow> u8 \<Rightarrow> u8 \<Rightarrow> 'd \<Rightarrow> u32 \<times> 'd" where
  "pci_read io b d f offset s =
     (let s = outl io 0xCF8 (pci_address b d f offset) s;
          (v, s) = inl io 0xCFC s
      in (drop_bit (unat (offset AND 2) * 8) v AND 0xFFFF, s))"

definition pci_write :: "'d ports \<Rightarrow> u8 \<Rightarrow> u8 \<Rightarrow> u8 \<Rightarrow> u32 \<Rightarrow> u8 \<Rightarrow> u8 \<Rightarrow> 'd \<Rightarrow> 'd" where
  "pci_write io b d f data bytes offset s =
     (let s = outl io 0xCF8 (pci_address b d f offset) s in
      if bytes = 1 then outb io (0xCFC + ucast (offset AND 3)) (ucast data) s
      else if bytes = 2 then outw io (0xCFC + ucast (offset AND 2)) (ucast data) s
      else if bytes = 4 then outl io 0xCFC data s
      else s)"

section \<open>Configuration mechanism 1\<close>

text \<open>The address in the address register: bus, slot, function and the number of the register of 32 bits.\<close>

definition selected :: "u32 \<Rightarrow> nat \<times> nat \<times> nat \<times> nat" where
  "selected a = (unat (take_bit 8 (drop_bit 16 a)), unat (take_bit 5 (drop_bit 11 a)), unat (take_bit 3 (drop_bit 8 a)), unat (take_bit 6 (drop_bit 2 a)))"

definition config_reg :: "u8 \<Rightarrow> u8 \<Rightarrow> u8 \<Rightarrow> u8 \<Rightarrow> nat \<times> nat \<times> nat \<times> nat" where
  "config_reg b d f off = (unat b, unat d, unat f, unat off div 4)"

text \<open>A word with \<open>n\<close> of its bytes from byte \<open>k\<close> on replaced.\<close>

definition put_bytes :: "nat \<Rightarrow> nat \<Rightarrow> u32 \<Rightarrow> u32 \<Rightarrow> u32" where
  "put_bytes k n v w = (w AND NOT (push_bit (8 * k) (mask (8 * n)))) OR push_bit (8 * k) (take_bit (8 * n) v)"

text \<open>
  Of the devices, \<open>addr\<close> is the address register and \<open>config\<close> the configuration space. A write of 32 bits to port \<open>0xCF8\<close> sets the register. While its bit 31 is
  set, an access to the ports from \<open>0xCFC\<close> on is an access to the bytes of the selected register.
\<close>

definition config_mechanism :: "'d ports \<Rightarrow> ('d \<Rightarrow> u32) \<Rightarrow> ('d \<Rightarrow> nat \<times> nat \<times> nat \<times> nat \<Rightarrow> u32) \<Rightarrow> bool" where
  "config_mechanism io addr config \<longleftrightarrow>
     (\<forall>a s. addr (outl io 0xCF8 a s) = a \<and> config (outl io 0xCF8 a s) = config s) \<and>
     (\<forall>s. bit (addr s) 31 \<longrightarrow>
        fst (inl io 0xCFC s) = config s (selected (addr s)) \<and> addr (snd (inl io 0xCFC s)) = addr s \<and> config (snd (inl io 0xCFC s)) = config s \<and>
        (\<forall>v. config (outl io 0xCFC v s) = (config s)(selected (addr s) := v)) \<and>
        (\<forall>v k. k \<in> {0, 2} \<longrightarrow> config (outw io (0xCFC + of_nat k) v s) =
            (config s)(selected (addr s) := put_bytes k 2 (ucast v) (config s (selected (addr s))))) \<and>
        (\<forall>v k. k < 4 \<longrightarrow> config (outb io (0xCFC + of_nat k) v s) =
            (config s)(selected (addr s) := put_bytes k 1 (ucast v) (config s (selected (addr s))))))"

section \<open>Properties\<close>

lemma FC_bits: "bit (0xFC :: u8) n \<longleftrightarrow> 2 \<le> n \<and> n < 8"
proof (cases "n < 8")
  case True
  then have "n \<in> {0, 1, 2, 3, 4, 5, 6, 7}" by auto
  then show ?thesis by auto
qed (auto dest: bit_imp_le_length)

lemma off_bits: "bit (off AND 0xFC :: u8) n \<longleftrightarrow> 2 \<le> n \<and> bit off n"
  unfolding bit_and_iff FC_bits using bit_imp_le_length [of off n] by auto

lemma address_bit: "bit (pci_address b d f off) n \<longleftrightarrow> n = 31 \<or> (16 \<le> n \<and> n < 32 \<and> bit b (n - 16)) \<or> (11 \<le> n \<and> n < 32 \<and> bit d (n - 11)) \<or>
    (8 \<le> n \<and> n < 32 \<and> bit f (n - 8)) \<or> (n < 32 \<and> 2 \<le> n \<and> bit off n)"
proof -
  have "bit (0x80000000 :: u32) n \<longleftrightarrow> n = 31"
    using bit_exp_iff [where ?'a = u32, of 31 n] by auto
  then show ?thesis
    unfolding pci_address_def Let_def bit_or_iff bit_push_bit_iff bit_ucast_iff off_bits by (auto dest: bit_imp_le_length)
qed

lemma small_bit:
  assumes "unat (w :: u8) < 2 ^ k" "k < 8" "bit w n"
  shows "n < k"
proof (rule ccontr)
  assume n: "\<not> n < k"
  have "unat (take_bit k w) = take_bit k (unat w)" by (rule unsigned_take_bit_eq)
  then have "unat (take_bit k w) = unat w" using assms(1) by (simp only: take_bit_nat_eq_self)
  then have "take_bit k w = w" by (rule unsigned_word_eqI)
  then show False using assms(3) n bit_take_bit_iff [of k w n] by simp
qed

lemma low16: "w AND 0xFFFF = take_bit 16 w" for w :: u32
  using take_bit_eq_mask [of 16 w] by (simp add: mask_eq_exp_minus_1)

lemma config_mechanismD:
  assumes "config_mechanism io addr config"
  shows "addr (outl io 0xCF8 a s) = a" "config (outl io 0xCF8 a s) = config s"
    "bit (addr s) 31 \<Longrightarrow> fst (inl io 0xCFC s) = config s (selected (addr s))"
    "bit (addr s) 31 \<Longrightarrow> config (snd (inl io 0xCFC s)) = config s"
    "bit (addr s) 31 \<Longrightarrow> config (outl io 0xCFC v s) = (config s)(selected (addr s) := v)"
    "bit (addr s) 31 \<Longrightarrow> k \<in> {0, 2} \<Longrightarrow>
       config (outw io (0xCFC + of_nat k) x s) = (config s)(selected (addr s) := put_bytes k 2 (ucast x) (config s (selected (addr s))))"
    "bit (addr s) 31 \<Longrightarrow> k < 4 \<Longrightarrow>
       config (outb io (0xCFC + of_nat k) y s) = (config s)(selected (addr s) := put_bytes k 1 (ucast y) (config s (selected (addr s))))"
  using assms unfolding config_mechanism_def by blast+

lemma selected_address:
  assumes "d < 32" "f < 8"
  shows "selected (pci_address b d f off) = config_reg b d f off"
proof -
  have s: "bit d n \<Longrightarrow> n < 5" "bit f n \<Longrightarrow> n < 3" for n using small_bit [of d 5 n] small_bit [of f 3 n] assms
    by (simp_all add: word_less_nat_alt)
  note bits = bit_and_iff bit_drop_bit_eq bit_mask_iff address_bit bit_ucast_iff bit_take_bit_iff
  have "take_bit 8 (drop_bit 16 (pci_address b d f off)) = ucast b" 
    by (rule bit_word_eqI) (auto simp: bits dest: s bit_imp_le_length)
  moreover have "take_bit 5 (drop_bit 11 (pci_address b d f off)) = ucast d"
    by (rule bit_word_eqI) (auto simp: bits dest: s bit_imp_le_length)
  moreover have "take_bit 3 (drop_bit 8 (pci_address b d f off)) = ucast f"
    by (rule bit_word_eqI) (auto simp: bits dest: s bit_imp_le_length)
  moreover have "take_bit 6 (drop_bit 2 (pci_address b d f off)) = ucast (drop_bit 2 off)"
    by (rule bit_word_eqI) (auto simp: bits dest: s bit_imp_le_length)
  moreover have "unat (drop_bit 2 off) = unat off div 4"
    using unsigned_less [of off, where ?'a = nat] by (simp only: unsigned_drop_bit_eq) (simp add: take_bit_nat_eq_self drop_bit_eq_div)
  moreover have "unat (ucast w :: u32) = unat w" for w :: u8
    using unsigned_less [of w, where ?'a = nat] by (simp add: unsigned_ucast_eq take_bit_nat_eq_self)
  ultimately show ?thesis by (simp add: selected_def config_reg_def)
qed

lemma address_enabled: "bit (pci_address b d f off) 31"
  by (simp add: address_bit)

lemma half_back: "k \<in> {0, 2} \<Longrightarrow> drop_bit (8 * k) (put_bytes k 2 v w) AND 0xFFFF = v AND 0xFFFF"
  by (rule bit_word_eqI) (auto simp: put_bytes_def low16 bit_and_iff bit_or_iff bit_not_iff bit_drop_bit_eq bit_push_bit_iff bit_mask_iff bit_take_bit_iff)

lemma low_bits: "unat (off AND 2 :: u8) \<in> {0, 2}" "unat (off AND 3 :: u8) < 4"
proof -
  have "off AND 2 = (if bit off 1 then 2 else 0)" by (rule bit_word_eqI) (auto simp: bit_and_iff bit_2_iff)
  then show "unat (off AND 2 :: u8) \<in> {0, 2}" by simp
  have "off AND 3 = take_bit 2 off" using take_bit_eq_mask [of 2 off] by (simp add: mask_eq_exp_minus_1)
  then have "unat (off AND 3) = take_bit 2 (unat off)" by (simp only: unsigned_take_bit_eq)
  then show "unat (off AND 3 :: u8) < 4" by (simp add: take_bit_eq_mod)
qed

lemma pci_ops:
  assumes "config_mechanism io addr config" "d < 32" "f < 8" "r = config_reg b d f off"
  shows "fst (pci_read io b d f off s) = drop_bit (unat (off AND 2) * 8) (config s r) AND 0xFFFF"
    "config (snd (pci_read io b d f off s)) = config s"
    "config (pci_write io b d f v 1 off s) = (config s)(r := put_bytes (unat (off AND 3)) 1 v (config s r))"
    "config (pci_write io b d f v 2 off s) = (config s)(r := put_bytes (unat (off AND 2)) 2 v (config s r))"
    "config (pci_write io b d f v 4 off s) = (config s)(r := v)"
    "fst (pci_read io b d f off (pci_write io b d f v 2 off s)) = v AND 0xFFFF"
proof -
  let ?a = "pci_address b d f off"
  let ?s = "outl io 0xCF8 ?a s"
  have sel: "selected ?a = r" using selected_address [OF assms(2,3)] assms(4) by simp
  have m: "fst (inl io 0xCFC (outl io 0xCF8 ?a s)) = config s r" "config (snd (inl io 0xCFC (outl io 0xCF8 ?a s))) = config s"
    "config (outl io 0xCFC v (outl io 0xCF8 ?a s)) = (config s)(r := v)"
    "k \<in> {0, 2} \<Longrightarrow> config (outw io (0xCFC + of_nat k) x (outl io 0xCF8 ?a s)) = (config s)(r := put_bytes k 2 (ucast x) (config s r))"
    "k < 4 \<Longrightarrow> config (outb io (0xCFC + of_nat k) y (outl io 0xCF8 ?a s)) = (config s)(r := put_bytes k 1 (ucast y) (config s r))" for s k x y
    using config_mechanismD(3-) [OF assms(1), of "outl io 0xCF8 ?a s"] address_enabled [of b d f off]
    by (simp_all add: config_mechanismD(1,2) [OF assms(1)] sel)
  have t: "put_bytes k 1 (ucast (ucast v :: u8)) w = put_bytes k 1 v w" "put_bytes k 2 (ucast (ucast v :: u16)) w = put_bytes k 2 v w" for k w
    by (simp_all add: put_bytes_def unsigned_ucast_eq)
  show "fst (pci_read io b d f off s) = drop_bit (unat (off AND 2) * 8) (config s r) AND 0xFFFF"
    "config (snd (pci_read io b d f off s)) = config s"
    by (simp_all only: pci_read_def Let_def split_beta fst_conv snd_conv m(1,2))
  show "config (pci_write io b d f v 1 off s) = (config s)(r := put_bytes (unat (off AND 3)) 1 v (config s r))"
    using m(5) [OF low_bits(2) [of off]] by (simp add: pci_write_def t [simplified])
  show w: "config (pci_write io b d f v 2 off s) = (config s)(r := put_bytes (unat (off AND 2)) 2 v (config s r))"
    using m(4) [OF low_bits(1) [of off]] by (simp add: pci_write_def t)
  show "config (pci_write io b d f v 4 off s) = (config s)(r := v)" using m(3) by (simp add: pci_write_def)
  have "fst (pci_read io b d f off s') = drop_bit (8 * unat (off AND 2)) (config s' r) AND 0xFFFF" for s'
    by (simp only: pci_read_def Let_def split_beta fst_conv m(1) mult.commute)
  then show "fst (pci_read io b d f off (pci_write io b d f v 2 off s)) = v AND 0xFFFF" using half_back [OF low_bits(1)] by (simp add: w)
qed

text \<open>
  C29: The configuration space. For a device and a function in range, \<open>pci_read\<close> returns the half of the addressed register that the offset selects, in
  the low 16 bits, and changes no register; \<open>pci_write\<close> changes the addressed bytes of the register and nothing else; and what was
  written as 16 bits is read back.
\<close>

theorem pci_access:
  assumes "config_mechanism io addr config" "d < 32" "f < 8"
  shows "fst (pci_read io b d f off s) = drop_bit (unat (off AND 2) * 8) (config s (config_reg b d f off)) AND 0xFFFF \<and>
    config (snd (pci_read io b d f off s)) = config s \<and>
    config (pci_write io b d f v 1 off s) =
      (config s)(config_reg b d f off := put_bytes (unat (off AND 3)) 1 v (config s (config_reg b d f off))) \<and>
    config (pci_write io b d f v 2 off s) =
      (config s)(config_reg b d f off := put_bytes (unat (off AND 2)) 2 v (config s (config_reg b d f off))) \<and>
    config (pci_write io b d f v 4 off s) = (config s)(config_reg b d f off := v) \<and>
    fst (pci_read io b d f off (pci_write io b d f v 2 off s)) = v AND 0xFFFF"
  using pci_ops [OF assms refl] by (intro conjI)

text \<open>A machine with the address register and the configuration space, for the witnesses.\<close>

definition pci_machine :: "(u32 \<times> (nat \<times> nat \<times> nat \<times> nat \<Rightarrow> u32)) ports" where
  "pci_machine = \<lparr>
     outb = \<lambda>p v (a, c). (a, c(selected a := put_bytes (unat (p - 0xCFC)) 1 (ucast v) (c (selected a)))),
     outw = \<lambda>p v (a, c). (a, c(selected a := put_bytes (unat (p - 0xCFC)) 2 (ucast v) (c (selected a)))),
     outl = \<lambda>p v (a, c). if p = 0xCF8 then (v, c) else (a, c(selected a := v)),
     inb = \<lambda>p s. (0, s), inw = \<lambda>p s. (0, s), inl = \<lambda>p (a, c). (c (selected a), (a, c))\<rparr>"

lemma pci_machine_ok: "config_mechanism pci_machine fst snd"
proof -
  have "unat (of_nat k :: u16) = k" if "k < 4" for k using that by (simp add: unsigned_of_nat take_bit_eq_mod)
  then show ?thesis by (auto simp: config_mechanism_def pci_machine_def)
qed

theorem pci_access_witness:
  "fst (pci_read pci_machine 1 2 3 6 (pci_write pci_machine 1 2 3 0xABCD1234 2 6 (0, \<lambda>_. 0))) = 0x1234"
  using pci_access [OF pci_machine_ok, of 2 3 1 6 "(0, \<lambda>_. 0)" "0xABCD1234"] by simp

end
