(* ===== verification/Interrupts.thy ===== *)
theory Interrupts
  imports Liballoc_Spec
begin

text \<open>
  The registration of interrupt handlers in \<open>arch/x86_64/idt/idt.cpp\<close>: a table of sixteen entries, each guarded by a key that the kernel gives to
  the driver that registers a handler. A key is the address of a block of the heap allocator, so that it is unique as long as the heap is sound.

  A handler is a pointer to code. \<open>None\<close> is undefined behaviour in the heap allocator.
\<close>

section \<open>Model\<close>

record irq_entry =
  protection_key :: nat
  irq_number :: nat
  irq_handler :: nat
  irq_used :: bool
  masked :: bool

record 'w irqs =
  irq_table :: "irq_entry list"
  iheap :: "'w heap"

text \<open>The initialiser of the table names one entry; the others are filled with zeros, and so are not masked.\<close>

definition irq_table_init :: "irq_entry list" where
  "irq_table_init =
     \<lparr>protection_key = 0, irq_number = 0, irq_handler = 0, irq_used = False, masked = True\<rparr> #
     replicate 15 \<lparr>protection_key = 0, irq_number = 0, irq_handler = 0, irq_used = False, masked = False\<rparr>"

definition register_irq :: "'w hooks \<Rightarrow> nat \<Rightarrow> nat \<Rightarrow> 'w irqs \<Rightarrow> (nat \<times> 'w irqs) option" where
  "register_irq hk irq handler s =
     (if irq \<ge> 16 then Some (0, s)
      else if handler = 0 then Some (0, s)
      else if irq_used (irq_table s ! irq) then Some (0, s)
      else do {
        let e = (irq_table s ! irq)\<lparr>irq_used := True, irq_number := irq, irq_handler := handler\<rparr>;
        (key, h) \<leftarrow> malloc hk 1 (iheap s);
        let e = e\<lparr>protection_key := key, masked := True\<rparr>;
        Some (key, s\<lparr>irq_table := (irq_table s)[irq := e], iheap := h\<rparr>)
      })"

definition remove_irq :: "'w hooks \<Rightarrow> nat \<Rightarrow> nat \<Rightarrow> 'w irqs \<Rightarrow> 'w irqs option" where
  "remove_irq hk irq key s =
     (if irq \<ge> 16 then Some s
      else if key = 0 then Some s
      else if \<not> irq_used (irq_table s ! irq) then Some s
      else if protection_key (irq_table s ! irq) = key then do {
        let e = (irq_table s ! irq)\<lparr>irq_used := False, irq_number := 0, irq_handler := 0\<rparr>;
        h \<leftarrow> free hk (protection_key e) (iheap s);
        let e = e\<lparr>protection_key := 0, masked := True\<rparr>;
        Some (s\<lparr>irq_table := (irq_table s)[irq := e], iheap := h\<rparr>)
      }
      else Some s)"

definition unmask_irq :: "nat \<Rightarrow> nat \<Rightarrow> 'w irqs \<Rightarrow> 'w irqs" where
  "unmask_irq irq key s =
     (if irq \<ge> 16 then s
      else if protection_key (irq_table s ! irq) \<noteq> key then s
      else s\<lparr>irq_table := (irq_table s)[irq := (irq_table s ! irq)\<lparr>masked := False\<rparr>]\<rparr>)"

definition mask_irq :: "nat \<Rightarrow> nat \<Rightarrow> 'w irqs \<Rightarrow> 'w irqs" where
  "mask_irq irq key s =
     (if irq \<ge> 16 then s
      else if protection_key (irq_table s ! irq) \<noteq> key then s
      else s\<lparr>irq_table := (irq_table s)[irq := (irq_table s ! irq)\<lparr>masked := True\<rparr>]\<rparr>)"

text \<open>\<^verbatim>\<open>IRQ_STUB(num)\<close>: the handler that it calls, if any.\<close>

definition irq_stub_handler :: "nat \<Rightarrow> 'w irqs \<Rightarrow> nat option" where
  "irq_stub_handler num s =
     (if \<not> irq_used (irq_table s ! num) then None
      else if masked (irq_table s ! num) then None
      else Some (irq_handler (irq_table s ! num)))"

text \<open>The calls that drivers make, in any order.\<close>

datatype driver_call = Register nat nat | Remove nat nat | Unmask nat nat | Mask nat nat

fun irq_call :: "'w hooks \<Rightarrow> driver_call \<Rightarrow> 'w irqs \<Rightarrow> 'w irqs option" where
  "irq_call hk (Register i f) s = map_option snd (register_irq hk i f s)"
| "irq_call hk (Remove i k) s = remove_irq hk i k s"
| "irq_call hk (Unmask i k) s = Some (unmask_irq i k s)"
| "irq_call hk (Mask i k) s = Some (mask_irq i k s)"

fun irq_calls :: "'w hooks \<Rightarrow> driver_call list \<Rightarrow> 'w irqs \<Rightarrow> 'w irqs option" where
  "irq_calls hk [] s = Some s"
| "irq_calls hk (c # cs) s = irq_call hk c s \<bind> irq_calls hk cs"

text \<open>The call is made for this interrupt with this key.\<close>

fun uses_key :: "nat \<Rightarrow> nat \<Rightarrow> driver_call \<Rightarrow> bool" where
  "uses_key i k (Register j f) = False"
| "uses_key i k (Remove j l) = (j = i \<and> l = k)"
| "uses_key i k (Unmask j l) = (j = i \<and> l = k)"
| "uses_key i k (Mask j l) = (j = i \<and> l = k)"

section \<open>A source of keys\<close>

text \<open>What the table relies on: a new key differs from all that are out, and a key that is out can be given back.\<close>

locale key_store =
  fixes issue :: "'h \<Rightarrow> (nat \<times> 'h) option"
    and revoke :: "nat \<Rightarrow> 'h \<Rightarrow> 'h option"
    and out :: "'h \<Rightarrow> nat set \<Rightarrow> bool"
  assumes issue: "out h K \<Longrightarrow> \<exists>k h'. issue h = Some (k, h') \<and> (if k = 0 then out h' K else k \<notin> K \<and> out h' (insert k K))"
    and revoke: "out h K \<Longrightarrow> k \<in> K \<Longrightarrow> \<exists>h'. revoke k h = Some h' \<and> out h' (K - {k})"
begin

text \<open>A table of keys, zero for none, in which no key stands twice and all keys are out.\<close>

definition keyed :: "'h \<Rightarrow> nat list \<Rightarrow> bool" where
  "keyed h ks \<longleftrightarrow> (\<exists>K. out h K \<and> set ks - {0} \<subseteq> K) \<and> (\<forall>i < length ks. \<forall>j < length ks. ks ! i = ks ! j \<longrightarrow> ks ! i \<noteq> 0 \<longrightarrow> i = j)"

lemma keyed_unique: "keyed h ks \<Longrightarrow> i < length ks \<Longrightarrow> j < length ks \<Longrightarrow> ks ! i = ks ! j \<Longrightarrow> ks ! i \<noteq> 0 \<Longrightarrow> i = j"
  by (simp add: keyed_def)

lemma keyed_issue:
  assumes "keyed h ks" "i < length ks"
  obtains k h' where "issue h = Some (k, h')" "keyed h' (ks[i := k])" "k = 0 \<or> k \<notin> set ks"
proof -
  obtain K where K: "out h K" "set ks - {0} \<subseteq> K" using assms(1) by (auto simp: keyed_def)
  obtain k h' where k: "issue h = Some (k, h')" "if k = 0 then out h' K else k \<notin> K \<and> out h' (insert k K)" using issue [OF K(1)] by blast
  have fresh: "k = 0 \<or> k \<notin> set ks" using k(2) K(2) by (auto split: if_splits)
  have "\<exists>K. out h' K \<and> set (ks[i := k]) - {0} \<subseteq> K"
    using k(2) K(2) set_update_subset_insert [of ks i k] by (cases "k = 0") (fastforce, fastforce)
  moreover have "a = b" if "a < length ks" "b < length ks" "ks[i := k] ! a = ks[i := k] ! b" "ks[i := k] ! a \<noteq> 0" for a b
  proof (cases "a = i \<or> b = i")
    case True
    then show ?thesis using that fresh assms(2) by (auto simp: nth_list_update split: if_splits)
  next
    case False
    then show ?thesis using that assms(1) by (simp add: keyed_def)
  qed
  ultimately have "keyed h' (ks[i := k])" unfolding keyed_def by auto
  then show ?thesis using that k(1) fresh by blast
qed

lemma keyed_revoke:
  assumes "keyed h ks" "i < length ks" "ks ! i \<noteq> 0"
  obtains h' where "revoke (ks ! i) h = Some h'" "keyed h' (ks[i := 0])"
proof -
  obtain K where K: "out h K" "set ks - {0} \<subseteq> K" using assms(1) by (auto simp: keyed_def)
  then have "ks ! i \<in> K" using assms(2,3) by auto
  with revoke [OF K(1)] obtain h' where h': "revoke (ks ! i) h = Some h'" "out h' (K - {ks ! i})" by blast
  have "ks[i := 0] ! j \<in> K - {ks ! i}" if "j < length ks" "ks[i := 0] ! j \<noteq> 0" for j
    using that assms K(2) by (cases "j = i") (auto simp: keyed_def)
  then have "x \<in> K - {ks ! i}" if "x \<in> set (ks[i := 0]) - {0}" for x using that by (metis Diff_iff in_set_conv_nth length_list_update singletonI)
  then have "set (ks[i := 0]) - {0} \<subseteq> K - {ks ! i}" by blast
  moreover have "a = b" if "a < length ks" "b < length ks" "ks[i := 0] ! a = ks[i := 0] ! b" "ks[i := 0] ! a \<noteq> 0" for a b
  proof -
    have "a \<noteq> i" "b \<noteq> i" using that by auto
    then show ?thesis using that assms(1) by (simp add: keyed_def)
  qed
  ultimately have "keyed h' (ks[i := 0])" using h'(2) unfolding keyed_def by auto
  then show ?thesis using that h'(1) by blast
qed

end

text \<open>The heap allocator is such a source: the keys that are out are the blocks in use.\<close>

definition blocks_out :: "('w \<Rightarrow> nat set) \<Rightarrow> 'w hooks \<Rightarrow> 'w heap \<Rightarrow> nat set \<Rightarrow> bool" where
  "blocks_out granted hk h K \<longleftrightarrow> hooks_ok granted hk \<and> (\<exists>C. heap_inv granted h C \<and> dom (live h C) = K)"

interpretation irq_keys: key_store "malloc hk 1" "free hk" "blocks_out granted hk" for granted :: "'w \<Rightarrow> nat set" and hk
proof
  fix h :: "'w heap" and K
  assume o: "blocks_out granted hk h K"
  then obtain C where C: "hooks_ok granted hk" "heap_inv granted h C" "dom (live h C) = K" by (auto simp: blocks_out_def)
  obtain p h' C' where m: "malloc hk 1 h = Some (p, h')" "heap_inv granted h' C'" "p = 0 \<longrightarrow> live h' C' = live h C"
    "p \<noteq> 0 \<longrightarrow> live h C p = None \<and> live h' C' = (live h C)(p \<mapsto> 1)"
    using malloc_inv [OF C(1,2), of 1] by auto
  then show "\<exists>k h'. malloc hk 1 h = Some (k, h') \<and> (if k = 0 then blocks_out granted hk h' K else k \<notin> K \<and> blocks_out granted hk h' (insert k K))"
    using C by (cases "p = 0") (auto simp: blocks_out_def simp del: One_nat_def)
next
  fix h :: "'w heap" and K k
  assume o: "blocks_out granted hk h K" "k \<in> K"
  then obtain C n where C: "hooks_ok granted hk" "heap_inv granted h C" "dom (live h C) = K" "live h C k = Some n" by (auto simp: blocks_out_def)
  obtain h' C' where "free hk k h = Some h'" "heap_inv granted h' C'" "live h' C' = (live h C)(k := None)"
    using free_inv [OF C(1,2,4)] by blast
  then show "\<exists>h'. free hk k h = Some h' \<and> blocks_out granted hk h' (K - {k})"
    using C unfolding blocks_out_def by (intro exI [of _ h'] conjI exI [of _ C']) simp_all
qed

section \<open>The invariant of the table\<close>

definition entry_ok :: "irq_entry \<Rightarrow> bool" where
  "entry_ok e \<longleftrightarrow> (if irq_used e then irq_handler e \<noteq> 0 else protection_key e = 0)"

lemma entry_full [simp]:
  "e\<lparr>irq_used := u, irq_number := n, irq_handler := f, protection_key := k, masked := m\<rparr> =
     \<lparr>protection_key = k, irq_number = n, irq_handler = f, irq_used = u, masked = m\<rparr>"
  by (cases e) simp

definition irq_inv :: "('w \<Rightarrow> nat set) \<Rightarrow> 'w hooks \<Rightarrow> 'w irqs \<Rightarrow> bool" where
  "irq_inv granted hk s \<longleftrightarrow> length (irq_table s) = 16 \<and> irq_keys.keyed granted hk (iheap s) (map protection_key (irq_table s)) \<and>
     (\<forall>e \<in> set (irq_table s). entry_ok e)"

lemma irq_inv_update:
  assumes "irq_inv granted hk s" "irq_keys.keyed granted hk h ((map protection_key (irq_table s))[i := protection_key e])"
    "entry_ok e"
  shows "irq_inv granted hk (s\<lparr>irq_table := (irq_table s)[i := e], iheap := h\<rparr>)"
proof -
  have "\<forall>x \<in> set ((irq_table s)[i := e]). entry_ok x"
    using assms(1,3) set_update_subset_insert [of "irq_table s" i e] unfolding irq_inv_def by blast
  then show ?thesis using assms(1,2) by (simp add: irq_inv_def map_update)
qed

lemma register_irq_refused: "16 \<le> i \<or> f = 0 \<or> irq_used (irq_table s ! i) \<Longrightarrow> register_irq hk i f s = Some (0, s)"
  by (auto simp: register_irq_def)

lemma register_irq_ok:
  assumes "irq_inv granted hk s" "i < 16" "f \<noteq> 0" "\<not> irq_used (irq_table s ! i)"
  obtains k s' where "register_irq hk i f s = Some (k, s')" "irq_inv granted hk s'" "malloc hk 1 (iheap s) = Some (k, iheap s')"
      "irq_table s' = (irq_table s)[i := \<lparr>protection_key = k, irq_number = i, irq_handler = f, irq_used = True, masked = True\<rparr>]"
proof -
  let ?ks = "map protection_key (irq_table s)"
  obtain k h where k: "malloc hk 1 (iheap s) = Some (k, h)" "irq_keys.keyed granted hk h (?ks[i := k])"
    by (rule irq_keys.keyed_issue [of granted hk "iheap s" ?ks i]) (use assms in \<open>auto simp: irq_inv_def\<close>)
  let ?e = "\<lparr>protection_key = k, irq_number = i, irq_handler = f, irq_used = True, masked = True\<rparr>"
  have "irq_inv granted hk (s\<lparr>irq_table := (irq_table s)[i := ?e], iheap := h\<rparr>)"
    using irq_inv_update [OF assms(1), of h i ?e] k(2) assms(3) by (simp add: entry_ok_def)
  moreover have "register_irq hk i f s = Some (k, s\<lparr>irq_table := (irq_table s)[i := ?e], iheap := h\<rparr>)"
    using assms k(1) by (simp add: register_irq_def Let_def)
  ultimately show ?thesis using that [of k "s\<lparr>irq_table := (irq_table s)[i := ?e], iheap := h\<rparr>"] k(1) by simp
qed

lemma remove_irq_cases:
  assumes "irq_inv granted hk s"
  obtains "remove_irq hk i k s = Some s"
  | s' where "remove_irq hk i k s = Some s'" "i < 16" "k \<noteq> 0" "protection_key (irq_table s ! i) = k" "irq_inv granted hk s'"
      "irq_table s' = (irq_table s)[i := \<lparr>protection_key = 0, irq_number = 0, irq_handler = 0, irq_used = False, masked = True\<rparr>]"
proof (cases "16 \<le> i \<or> k = 0 \<or> \<not> irq_used (irq_table s ! i) \<or> protection_key (irq_table s ! i) \<noteq> k")
  case True
  then show ?thesis using that(1) by (auto simp: remove_irq_def)
next
  case False
  let ?ks = "map protection_key (irq_table s)"
  have i: "i < length (irq_table s)" "?ks ! i = k" using False assms by (auto simp: irq_inv_def)
  obtain h where h: "free hk k (iheap s) = Some h" "irq_keys.keyed granted hk h (?ks[i := 0])"
    using irq_keys.keyed_revoke [of granted hk "iheap s" ?ks i] assms False i by (auto simp: irq_inv_def)
  let ?e = "\<lparr>protection_key = 0, irq_number = 0, irq_handler = 0, irq_used = False, masked = True\<rparr>"
  have "irq_inv granted hk (s\<lparr>irq_table := (irq_table s)[i := ?e], iheap := h\<rparr>)"
    using irq_inv_update [OF assms, of h i ?e] h(2) by (simp add: entry_ok_def)
  moreover have "remove_irq hk i k s = Some (s\<lparr>irq_table := (irq_table s)[i := ?e], iheap := h\<rparr>)"
    using False h(1) by (simp add: remove_irq_def Let_def)
  ultimately show ?thesis using that(2) [of "s\<lparr>irq_table := (irq_table s)[i := ?e], iheap := h\<rparr>"] False by simp
qed

lemma mask_inv:
  assumes "irq_inv granted hk s"
  shows "irq_inv granted hk (mask_irq i k s)" "irq_inv granted hk (unmask_irq i k s)"
proof -
  have "irq_inv granted hk (s\<lparr>irq_table := (irq_table s)[i := (irq_table s ! i)\<lparr>masked := m\<rparr>], iheap := iheap s\<rparr>)" if "i < 16" for m
  proof (rule irq_inv_update [OF assms])
    have "(map protection_key (irq_table s))[i := protection_key (irq_table s ! i)] = map protection_key (irq_table s)"
      using that assms by (metis irq_inv_def length_map list_update_id map_update)
    then show "irq_keys.keyed granted hk (iheap s) ((map protection_key (irq_table s))[i := protection_key ((irq_table s ! i)\<lparr>masked := m\<rparr>)])"
      using assms by (simp add: irq_inv_def)
  qed (use that assms in \<open>auto simp: irq_inv_def entry_ok_def\<close>)
  then show "irq_inv granted hk (mask_irq i k s)" "irq_inv granted hk (unmask_irq i k s)" using assms by (simp_all add: mask_irq_def unmask_irq_def)
qed

text \<open>What one call does to an entry whose key it does not present.\<close>

lemma irq_call_ok:
  assumes "irq_inv granted hk s"
  obtains s' where "irq_call hk c s = Some s'" "irq_inv granted hk s'"
    "\<And>i. i < 16 \<Longrightarrow> irq_used (irq_table s ! i) \<Longrightarrow> \<not> uses_key i (protection_key (irq_table s ! i)) c \<Longrightarrow> irq_table s' ! i = irq_table s ! i"
proof (cases c)
  case (Register j f)
  show ?thesis
  proof (cases "16 \<le> j \<or> f = 0 \<or> irq_used (irq_table s ! j)")
    case True
    then show ?thesis using that [of s] Register assms by (simp add: register_irq_refused)
  next
    case False
    then obtain k s' where "register_irq hk j f s = Some (k, s')" "irq_inv granted hk s'"
      "irq_table s' = (irq_table s)[j := \<lparr>protection_key = k, irq_number = j, irq_handler = f, irq_used = True, masked = True\<rparr>]"
      by (metis register_irq_ok [OF assms, of j f] not_less)
    then show ?thesis using that [of s'] Register False by (metis irq_call.simps(1) nth_list_update_neq option.simps(9) snd_conv)
  qed
next
  case (Remove j k)
  show ?thesis
  proof (rule remove_irq_cases [OF assms, of j k])
    assume "remove_irq hk j k s = Some s"
    then show ?thesis using that [of s] Remove assms by simp
  next
    fix s'
    assume "remove_irq hk j k s = Some s'" "protection_key (irq_table s ! j) = k" "irq_inv granted hk s'"
      "irq_table s' = (irq_table s)[j := \<lparr>protection_key = 0, irq_number = 0, irq_handler = 0, irq_used = False, masked = True\<rparr>]"
    then show ?thesis using that [of s'] Remove by (metis irq_call.simps(2) nth_list_update_neq uses_key.simps(2))
  qed
next
  case (Unmask j k)
  have "length (irq_table s) = 16" using assms by (simp add: irq_inv_def)
  then show ?thesis using mask_inv [OF assms, of j k] Unmask by (intro that [of "unmask_irq j k s"]) (auto simp: unmask_irq_def nth_list_update)
next
  case (Mask j k)
  have "length (irq_table s) = 16" using assms by (simp add: irq_inv_def)
  then show ?thesis using mask_inv [OF assms, of j k] Mask by (intro that [of "mask_irq j k s"]) (auto simp: mask_irq_def nth_list_update)
qed

lemma irq_calls_ok:
  assumes "irq_inv granted hk s" "i < 16" "irq_used (irq_table s ! i)" "protection_key (irq_table s ! i) = k" "\<forall>c \<in> set cs. \<not> uses_key i k c"
  shows "\<exists>s'. irq_calls hk cs s = Some s' \<and> irq_inv granted hk s' \<and> irq_table s' ! i = irq_table s ! i"
  using assms
proof (induction cs arbitrary: s)
  case (Cons c cs)
  from Cons.prems(1) obtain s' where s': "irq_call hk c s = Some s'" "irq_inv granted hk s'" "irq_table s' ! i = irq_table s ! i"
    by (rule irq_call_ok [where c = c]) (use Cons.prems in auto)
  then show ?case using Cons.IH [of s'] Cons.prems by simp
qed simp

text \<open>The holder of a block that was never obtained: the entry of a registration that ran out of memory.\<close>

lemma irq_call_keyless:
  assumes "irq_inv granted hk s" "i < 16" "irq_used (irq_table s ! i)" "protection_key (irq_table s ! i) = 0"
  obtains s' where "irq_call hk c s = Some s'" "irq_inv granted hk s'" "irq_used (irq_table s' ! i)"
    "protection_key (irq_table s' ! i) = 0" "irq_handler (irq_table s' ! i) = irq_handler (irq_table s ! i)"
proof (cases "uses_key i 0 c")
  case False
  from assms(1) obtain s' where "irq_call hk c s = Some s'" "irq_inv granted hk s'" "irq_table s' ! i = irq_table s ! i"
    by (rule irq_call_ok [where c = c]) (use assms False in auto)
  then show ?thesis using that assms by simp
next
  case True
  have "length (irq_table s) = 16" using assms by (simp add: irq_inv_def)
  then show ?thesis using True assms mask_inv [OF assms(1), of i 0]
    by (cases c) (auto intro: that simp: remove_irq_def mask_irq_def unmask_irq_def)
qed

lemma irq_calls_keyless:
  assumes "irq_inv granted hk s" "i < 16" "irq_used (irq_table s ! i)" "protection_key (irq_table s ! i) = 0"
  shows "\<exists>s'. irq_calls hk cs s = Some s' \<and> irq_used (irq_table s' ! i) \<and> irq_handler (irq_table s' ! i) = irq_handler (irq_table s ! i)"
  using assms
proof (induction cs arbitrary: s)
  case (Cons c cs)
  from Cons.prems obtain s' where s': "irq_call hk c s = Some s'" "irq_inv granted hk s'" "irq_used (irq_table s' ! i)"
    "protection_key (irq_table s' ! i) = 0" "irq_handler (irq_table s' ! i) = irq_handler (irq_table s ! i)"
    by (rule irq_call_keyless [where c = c])
  then show ?case using Cons.IH [of s'] Cons.prems by simp
qed simp

text \<open>What is in the table after a registration and any calls by others.\<close>

lemma registered_stays:
  assumes "irq_inv granted hk s" "register_irq hk i f s = Some (k, s1)" "k \<noteq> 0" "\<forall>c \<in> set cs. \<not> uses_key i k c"
  obtains s2 where "i < 16" "irq_calls hk cs s1 = Some s2" "irq_inv granted hk s2"
    "irq_table s1 ! i = \<lparr>protection_key = k, irq_number = i, irq_handler = f, irq_used = True, masked = True\<rparr>"
    "irq_table s2 ! i = \<lparr>protection_key = k, irq_number = i, irq_handler = f, irq_used = True, masked = True\<rparr>"
proof -
  have g: "i < 16" "f \<noteq> 0" "\<not> irq_used (irq_table s ! i)" using register_irq_refused [of i f s hk] assms(2,3) by fastforce+
  obtain k' s' where "register_irq hk i f s = Some (k', s')" "irq_inv granted hk s'"
    "irq_table s' = (irq_table s)[i := \<lparr>protection_key = k', irq_number = i, irq_handler = f, irq_used = True, masked = True\<rparr>]"
    by (rule register_irq_ok [OF assms(1) g])
  then have r: "irq_inv granted hk s1"
    "irq_table s1 ! i = \<lparr>protection_key = k, irq_number = i, irq_handler = f, irq_used = True, masked = True\<rparr>"
    using assms(1,2) g(1) by (simp_all add: irq_inv_def)
  then have "irq_used (irq_table s1 ! i)" "protection_key (irq_table s1 ! i) = k" by simp_all
  from irq_calls_ok [OF r(1) g(1) this assms(4)] obtain s2 where
    "irq_calls hk cs s1 = Some s2" "irq_inv granted hk s2" "irq_table s2 ! i = irq_table s1 ! i"
    by blast
  then show ?thesis using that g(1) r(2) by metis
qed

section \<open>Properties\<close>

text \<open>
  C27: The key protects a registration. After \<open>register_irq\<close> has returned a key, that key guards no other entry, and any sequence of calls by
  other drivers, which may register, remove, mask and unmask with whatever keys they like but this one for this interrupt, ends normally, keeps the invariant and
  leaves the entry as it is: the interrupt is masked until the holder of the key unmasks it, and from then on the stub calls the
  registered handler.
\<close>

theorem irq_protected:
  assumes "irq_inv granted hk s" "register_irq hk i f s = Some (k, s1)" "k \<noteq> 0" "\<forall>c \<in> set cs. \<not> uses_key i k c"
  shows "\<exists>s2. irq_calls hk cs s1 = Some s2 \<and> irq_inv granted hk s2 \<and> irq_table s2 ! i = irq_table s1 ! i \<and>
    (\<forall>j < 16. protection_key (irq_table s2 ! j) = k \<longrightarrow> j = i) \<and>
    irq_stub_handler i s2 = None \<and> irq_stub_handler i (unmask_irq i k s2) = Some f"
proof -
  let ?e = "\<lparr>protection_key = k, irq_number = i, irq_handler = f, irq_used = True, masked = True\<rparr>"
  obtain s2 where s2: "i < 16" "irq_calls hk cs s1 = Some s2" "irq_inv granted hk s2" "irq_table s1 ! i = ?e" "irq_table s2 ! i = ?e"
    by (rule registered_stays [OF assms])
  have l: "length (irq_table s2) = 16" using s2(3) by (simp add: irq_inv_def)
  have u: "j = i" if "j < 16" "protection_key (irq_table s2 ! j) = k" for j
    using irq_keys.keyed_unique [of granted hk "iheap s2" "map protection_key (irq_table s2)" j i] s2(1,3,5) that l assms(3)
    by (simp add: irq_inv_def)
  have "irq_stub_handler i s2 = None" "irq_stub_handler i (unmask_irq i k s2) = Some f"
    using s2(1,5) l by (simp_all add: irq_stub_handler_def unmask_irq_def)
  then show ?thesis using s2 u by (intro exI [of _ s2]) (metis (no_types))
qed

definition demo_irqs :: "nat set irqs" where
  "demo_irqs = \<lparr>irq_table = irq_table_init, iheap = boot_heap\<rparr>"

lemma demo_irqs_inv: "irq_inv id arena demo_irqs"
proof -
  have "blocks_out id arena boot_heap {}"
    using arena_ok boot_heap_inv by (auto simp: blocks_out_def live_def used_def all_tags_def fun_eq_iff intro!: exI [of _ "{}"])
  then show ?thesis by (auto simp: irq_inv_def entry_ok_def irq_keys.keyed_def demo_irqs_def irq_table_init_def nth_Cons split: nat.splits)
qed

theorem irq_protected_witness:
  "\<exists>k s1 s2. register_irq arena 3 0x1000 demo_irqs = Some (k, s1) \<and> k \<noteq> 0 \<and>
     irq_calls arena [Register 3 0x2000, Remove 3 0, Unmask 3 0, Register 4 0x3000] s1 = Some s2 \<and>
     irq_stub_handler 3 s2 = None \<and> irq_stub_handler 3 (unmask_irq 3 k s2) = Some 0x1000"
proof -
  have u: "\<not> irq_used (irq_table demo_irqs ! 3)" by (simp add: demo_irqs_def irq_table_init_def)
  obtain k s1 where r: "register_irq arena 3 0x1000 demo_irqs = Some (k, s1)" "malloc arena 1 (iheap demo_irqs) = Some (k, iheap s1)"
    by (rule register_irq_ok [OF demo_irqs_inv _ _ u, where f = "0x1000"]) simp_all
  have "k \<noteq> 0"
    using malloc_null [of arena 1 "iheap demo_irqs" "iheap s1"] r(2) arena_grants [of "1 + TAG" "{}"]
    by (auto simp: demo_irqs_def boot_heap_def TAG_def)
  then show ?thesis using irq_protected [OF demo_irqs_inv r(1), of "[Register 3 0x2000, Remove 3 0, Unmask 3 0, Register 4 0x3000]"] r(1) by auto
qed

text \<open>
  A registration that runs out of memory blocks the interrupt for good. \<open>register_irq\<close> reports failure with the null pointer but has marked
  the entry as used; after any further calls whatsoever the entry is still used, with the handler of the failed registration, every later registration is refused, and
  anybody can unmask it with the null pointer as key.
\<close>

theorem irq_lost:
  assumes "irq_inv granted hk s" "i < 16" "f \<noteq> 0" "\<not> irq_used (irq_table s ! i)" "malloc hk 1 (iheap s) = Some (0, h)"
  shows "\<exists>s1. register_irq hk i f s = Some (0, s1) \<and> irq_stub_handler i (unmask_irq i 0 s1) = Some f \<and>
    (\<forall>cs. \<exists>s2. irq_calls hk cs s1 = Some s2 \<and> irq_used (irq_table s2 ! i) \<and> irq_handler (irq_table s2 ! i) = f \<and>
       (\<forall>g. register_irq hk i g s2 = Some (0, s2)))"
proof -
  let ?e = "\<lparr>protection_key = 0, irq_number = i, irq_handler = f, irq_used = True, masked = True\<rparr>"
  obtain s1 where r: "register_irq hk i f s = Some (0, s1)" "irq_inv granted hk s1" "irq_table s1 = (irq_table s)[i := ?e]"
    by (rule register_irq_ok [OF assms(1-4)]) (use assms(5) in simp)
  have e: "irq_table s1 ! i = ?e" "length (irq_table s1) = 16" using r assms(1,2) by (simp_all add: irq_inv_def)
  have "\<exists>s2. irq_calls hk cs s1 = Some s2 \<and> irq_used (irq_table s2 ! i) \<and> irq_handler (irq_table s2 ! i) = f" for cs
    using irq_calls_keyless [OF r(2) assms(2), of cs] e by simp
  then have "\<exists>s2. irq_calls hk cs s1 = Some s2 \<and> irq_used (irq_table s2 ! i) \<and> irq_handler (irq_table s2 ! i) = f \<and>
      (\<forall>g. register_irq hk i g s2 = Some (0, s2))" for cs
    by (meson register_irq_refused)
  then show ?thesis using r(1) e assms(2) by (simp add: irq_stub_handler_def unmask_irq_def)
qed

definition no_pages :: "nat set hooks" where
  "no_pages = \<lparr>liballoc_alloc = \<lambda>n w. Some (0, w), liballoc_free = \<lambda>p n w. Some (w - {p ..< p + n * l_pageSize})\<rparr>"

theorem irq_lost_witness:
  "\<exists>s1. register_irq no_pages 3 0x1000 demo_irqs = Some (0, s1) \<and> (\<exists>s2. irq_calls no_pages [Remove 3 0] s1 = Some s2 \<and> irq_used (irq_table s2 ! 3))"
proof -
  have ok: "hooks_ok id no_pages" by (auto simp: hooks_ok_def no_pages_def)
  have "blocks_out id no_pages boot_heap {}"
    using ok boot_heap_inv by (auto simp: blocks_out_def live_def used_def all_tags_def fun_eq_iff intro!: exI [of _ "{}"])
  then have inv: "irq_inv id no_pages demo_irqs"
    by (auto simp: irq_inv_def entry_ok_def irq_keys.keyed_def demo_irqs_def irq_table_init_def nth_Cons split: nat.splits)
  obtain h where h: "malloc no_pages 1 (iheap demo_irqs) = Some (0, h)"
    by (simp add: malloc_def demo_irqs_def boot_heap_def initialise_def find_tag.simps [of _ _ 0] allocate_new_tag_def no_pages_def
      getexp_def Let_def cast32_def MINEXP_def MAXEXP_def)
  have "\<not> irq_used (irq_table demo_irqs ! 3)" by (simp add: demo_irqs_def irq_table_init_def)
  from irq_lost [OF inv _ _ this h, of "0x1000"] show ?thesis by (simp del: irq_calls.simps) blast
qed

end
