(* ===== verification/Uacpi_Status.thy ===== *)
theory Uacpi_Status
  imports Prelude
begin

text \<open>
  The status codes of the ACPI library (\<open>uacpi/status.h\<close>) with their numbers, ordered by them.
\<close>

datatype uacpi_status =
  UACPI_STATUS_OK
| UACPI_STATUS_MAPPING_FAILED
| UACPI_STATUS_OUT_OF_MEMORY
| UACPI_STATUS_BAD_CHECKSUM
| UACPI_STATUS_INVALID_SIGNATURE
| UACPI_STATUS_INVALID_TABLE_LENGTH
| UACPI_STATUS_NOT_FOUND
| UACPI_STATUS_INVALID_ARGUMENT
| UACPI_STATUS_UNIMPLEMENTED
| UACPI_STATUS_ALREADY_EXISTS
| UACPI_STATUS_INTERNAL_ERROR
| UACPI_STATUS_TYPE_MISMATCH
| UACPI_STATUS_INIT_LEVEL_MISMATCH
| UACPI_STATUS_NAMESPACE_NODE_DANGLING
| UACPI_STATUS_NO_HANDLER
| UACPI_STATUS_NO_RESOURCE_END_TAG
| UACPI_STATUS_COMPILED_OUT
| UACPI_STATUS_HARDWARE_TIMEOUT
| UACPI_STATUS_TIMEOUT
| UACPI_STATUS_OVERRIDDEN
| UACPI_STATUS_DENIED
| UACPI_STATUS_AML_UNDEFINED_REFERENCE
| UACPI_STATUS_AML_INVALID_NAMESTRING
| UACPI_STATUS_AML_OBJECT_ALREADY_EXISTS
| UACPI_STATUS_AML_INVALID_OPCODE
| UACPI_STATUS_AML_INCOMPATIBLE_OBJECT_TYPE
| UACPI_STATUS_AML_BAD_ENCODING
| UACPI_STATUS_AML_OUT_OF_BOUNDS_INDEX
| UACPI_STATUS_AML_SYNC_LEVEL_TOO_HIGH
| UACPI_STATUS_AML_INVALID_RESOURCE
| UACPI_STATUS_AML_LOOP_TIMEOUT
| UACPI_STATUS_AML_CALL_STACK_DEPTH_LIMIT

fun status_code :: "uacpi_status \<Rightarrow> nat" where
  "status_code UACPI_STATUS_OK = 0"
| "status_code UACPI_STATUS_MAPPING_FAILED = 1"
| "status_code UACPI_STATUS_OUT_OF_MEMORY = 2"
| "status_code UACPI_STATUS_BAD_CHECKSUM = 3"
| "status_code UACPI_STATUS_INVALID_SIGNATURE = 4"
| "status_code UACPI_STATUS_INVALID_TABLE_LENGTH = 5"
| "status_code UACPI_STATUS_NOT_FOUND = 6"
| "status_code UACPI_STATUS_INVALID_ARGUMENT = 7"
| "status_code UACPI_STATUS_UNIMPLEMENTED = 8"
| "status_code UACPI_STATUS_ALREADY_EXISTS = 9"
| "status_code UACPI_STATUS_INTERNAL_ERROR = 10"
| "status_code UACPI_STATUS_TYPE_MISMATCH = 11"
| "status_code UACPI_STATUS_INIT_LEVEL_MISMATCH = 12"
| "status_code UACPI_STATUS_NAMESPACE_NODE_DANGLING = 13"
| "status_code UACPI_STATUS_NO_HANDLER = 14"
| "status_code UACPI_STATUS_NO_RESOURCE_END_TAG = 15"
| "status_code UACPI_STATUS_COMPILED_OUT = 16"
| "status_code UACPI_STATUS_HARDWARE_TIMEOUT = 17"
| "status_code UACPI_STATUS_TIMEOUT = 18"
| "status_code UACPI_STATUS_OVERRIDDEN = 19"
| "status_code UACPI_STATUS_DENIED = 20"
| "status_code UACPI_STATUS_AML_UNDEFINED_REFERENCE = 0x0EFF0000"
| "status_code UACPI_STATUS_AML_INVALID_NAMESTRING = 0x0EFF0001"
| "status_code UACPI_STATUS_AML_OBJECT_ALREADY_EXISTS = 0x0EFF0002"
| "status_code UACPI_STATUS_AML_INVALID_OPCODE = 0x0EFF0003"
| "status_code UACPI_STATUS_AML_INCOMPATIBLE_OBJECT_TYPE = 0x0EFF0004"
| "status_code UACPI_STATUS_AML_BAD_ENCODING = 0x0EFF0005"
| "status_code UACPI_STATUS_AML_OUT_OF_BOUNDS_INDEX = 0x0EFF0006"
| "status_code UACPI_STATUS_AML_SYNC_LEVEL_TOO_HIGH = 0x0EFF0007"
| "status_code UACPI_STATUS_AML_INVALID_RESOURCE = 0x0EFF0008"
| "status_code UACPI_STATUS_AML_LOOP_TIMEOUT = 0x0EFF0009"
| "status_code UACPI_STATUS_AML_CALL_STACK_DEPTH_LIMIT = 0x0EFF000A"

lemma status_code_inj: "inj status_code"
proof (rule injI)
  fix x y
  assume "status_code x = status_code y"
  then show "x = y" by (cases x; cases y) simp_all
qed

lemmas status_code_eq [simp] = inj_eq [OF status_code_inj]

instantiation uacpi_status :: linorder
begin

definition less_eq_uacpi_status :: "uacpi_status \<Rightarrow> uacpi_status \<Rightarrow> bool" where
  "less_eq_uacpi_status a b \<longleftrightarrow> status_code a \<le> status_code b"

definition less_uacpi_status :: "uacpi_status \<Rightarrow> uacpi_status \<Rightarrow> bool" where
  "less_uacpi_status a b \<longleftrightarrow> status_code a < status_code b"

instance
  by standard (auto simp: less_eq_uacpi_status_def less_uacpi_status_def antisym)

end

text \<open>\<^verbatim>\<open>uacpi_unlikely_error\<close> and its like.\<close>

abbreviation error :: "uacpi_status \<Rightarrow> bool" where
  "error st \<equiv> st \<noteq> UACPI_STATUS_OK"

text \<open>Errors that come from the bytecode are above all others.\<close>

lemma aml_errors_last:
  "status_code st \<ge> 0x0EFF0000 \<longleftrightarrow> UACPI_STATUS_DENIED < st"
  by (cases st) (simp_all add: less_uacpi_status_def)

end
