(* ===== verification/Acpi_Host.thy ===== *)
theory Acpi_Host
  imports Vector Pci Interrupts Mutex Vmm_Map Uacpi_Status
begin

text \<open>
  The services that the kernel gives to the ACPI library: the list of I/O ranges (\<open>resources/io.cpp\<close>) and the functions of
  \<open>extra/uacpi/uacpi_kernel_wrapper.cpp\<close> over the page tables, PCI configuration space, ports, heap, locks and interrupts.

  A handle is an address. \<open>None\<close> is undefined behaviour or a loop that does not end; the machine behind the ports is the parameter of the theory
  \<open>Pci\<close>.
\<close>

section \<open>I/O ranges\<close>

record io_mapping =
  base_port :: u16
  len_ports :: u16
  owner :: nat

text \<open>\<^verbatim>\<open>sizeof(io_mapping)\<close>.\<close>

definition IO_SIZE :: nat where "IO_SIZE = 16"

record 'w resources =
  io_mappings :: vec
  rmem :: "(io_mapping, 'w) vmem"

definition map_io :: "'w hooks \<Rightarrow> u16 \<Rightarrow> u16 \<Rightarrow> nat \<Rightarrow> 'w resources \<Rightarrow> (nat \<times> 'w resources) option" where
  "map_io hk base len own s = do {
     let mapping = \<lparr>base_port = base, len_ports = len, owner = own\<rparr>;
     (v, m) \<leftarrow> push_back hk IO_SIZE mapping (io_mappings s) (rmem s);
     p \<leftarrow> vec_at IO_SIZE (sub64 (vsize v) 1) v;
     Some (p, s\<lparr>io_mappings := v, rmem := m\<rparr>)
   }"

function unmap_loop :: "nat \<Rightarrow> nat \<Rightarrow> 'w resources \<Rightarrow> 'w resources" where
  "unmap_loop i mapping s =
     (if i < vsize (io_mappings s) then
        if vdata (io_mappings s) + IO_SIZE * i = mapping then
          case erase IO_SIZE (vdata (io_mappings s) + IO_SIZE * i) (io_mappings s) (rmem s) of (_, v, m) \<Rightarrow> s\<lparr>io_mappings := v, rmem := m\<rparr>
        else unmap_loop (Suc i) mapping s
      else s)"
  by pat_completeness auto
termination by (relation "measure (\<lambda>(i, mapping, s). vsize (io_mappings s) - i)") auto

declare unmap_loop.simps [simp del]

definition unmap_io :: "nat \<Rightarrow> 'w resources \<Rightarrow> 'w resources" where
  "unmap_io mapping s = unmap_loop 0 mapping s"

section \<open>The functions of the library's host\<close>


text \<open>Memory.\<close>

definition uacpi_kernel_map :: "u64 \<Rightarrow> nat \<Rightarrow> vmm \<Rightarrow> (u64 \<times> vmm) option" where
  "uacpi_kernel_map addr len s = mmap addr (pa_to_va addr) (add64 len 0xFFF div 0x1000) (PAGE_PRESENT OR PAGE_WRITE) s"

definition uacpi_kernel_unmap :: "u64 \<Rightarrow> nat \<Rightarrow> vmm \<Rightarrow> vmm option" where
  "uacpi_kernel_unmap addr len s = munmap addr (add64 len 0xFFF div 0x1000) s"

text \<open>PCI configuration space. A device is a structure of three bytes in the heap.\<close>

record uacpi_pci_dev =
  pd_b :: u8
  pd_d :: u8
  pd_f :: u8

definition uacpi_kernel_pci_device_open ::
    "'w hooks \<Rightarrow> u8 \<Rightarrow> u8 \<Rightarrow> u8 \<Rightarrow> (nat \<Rightarrow> uacpi_pci_dev) \<Rightarrow> 'w heap \<Rightarrow> (uacpi_status \<times> nat \<times> (nat \<Rightarrow> uacpi_pci_dev) \<times> 'w heap) option" where
  "uacpi_kernel_pci_device_open hk bus device func devs h = do {
     (dev, h) \<leftarrow> malloc hk 3 h;
     if dev = 0 then None
     else Some (UACPI_STATUS_OK, dev, devs(dev := \<lparr>pd_b = bus, pd_d = device, pd_f = func\<rparr>), h)
   }"

definition uacpi_kernel_pci_device_close :: "'w hooks \<Rightarrow> nat \<Rightarrow> 'w heap \<Rightarrow> 'w heap option" where
  "uacpi_kernel_pci_device_close hk handle h = free hk handle h"

definition uacpi_kernel_pci_read8 :: "'d ports \<Rightarrow> uacpi_pci_dev \<Rightarrow> nat \<Rightarrow> 'd \<Rightarrow> uacpi_status \<times> u8 \<times> 'd" where
  "uacpi_kernel_pci_read8 io dev offset s =
     (let (val, s) = pci_read io (pd_b dev) (pd_d dev) (pd_f dev) (of_nat offset) s in (UACPI_STATUS_OK, ucast val, s))"

definition uacpi_kernel_pci_read16 :: "'d ports \<Rightarrow> uacpi_pci_dev \<Rightarrow> nat \<Rightarrow> 'd \<Rightarrow> uacpi_status \<times> u16 \<times> 'd" where
  "uacpi_kernel_pci_read16 io dev offset s =
     (let (val, s) = pci_read io (pd_b dev) (pd_d dev) (pd_f dev) (of_nat offset) s in (UACPI_STATUS_OK, ucast val, s))"

definition uacpi_kernel_pci_read32 :: "'d ports \<Rightarrow> uacpi_pci_dev \<Rightarrow> nat \<Rightarrow> 'd \<Rightarrow> uacpi_status \<times> u32 \<times> 'd" where
  "uacpi_kernel_pci_read32 io dev offset s =
     (let (val, s) = pci_read io (pd_b dev) (pd_d dev) (pd_f dev) (of_nat offset) s in (UACPI_STATUS_OK, val, s))"

definition uacpi_kernel_pci_write8 :: "'d ports \<Rightarrow> uacpi_pci_dev \<Rightarrow> nat \<Rightarrow> u8 \<Rightarrow> 'd \<Rightarrow> uacpi_status \<times> 'd" where
  "uacpi_kernel_pci_write8 io dev offset val s =
     (UACPI_STATUS_OK, pci_write io (pd_b dev) (pd_d dev) (pd_f dev) (of_nat offset) 1 val s)"

definition uacpi_kernel_pci_write16 :: "'d ports \<Rightarrow> uacpi_pci_dev \<Rightarrow> nat \<Rightarrow> u16 \<Rightarrow> 'd \<Rightarrow> uacpi_status \<times> 'd" where
  "uacpi_kernel_pci_write16 io dev offset val s =
     (UACPI_STATUS_OK, pci_write io (pd_b dev) (pd_d dev) (pd_f dev) (of_nat offset) 2 (ucast val) s)"

definition uacpi_kernel_pci_write32 :: "'d ports \<Rightarrow> uacpi_pci_dev \<Rightarrow> nat \<Rightarrow> u32 \<Rightarrow> 'd \<Rightarrow> uacpi_status \<times> 'd" where
  "uacpi_kernel_pci_write32 io dev offset val s =
     (UACPI_STATUS_OK, pci_write io (pd_b dev) (pd_d dev) (pd_f dev) (of_nat offset) 4 (ucast val) s)"

text \<open>I/O ports. The mapping is what the handle points to.\<close>

definition uacpi_kernel_io_map :: "'w hooks \<Rightarrow> nat \<Rightarrow> u64 \<Rightarrow> nat \<Rightarrow> 'w resources \<Rightarrow> (uacpi_status \<times> nat \<times> 'w resources) option" where
  "uacpi_kernel_io_map hk name base len s = do {
     (handle, s) \<leftarrow> map_io hk (ucast base) (of_nat len) name s;
     Some (UACPI_STATUS_OK, handle, s)
   }"

definition uacpi_kernel_io_unmap :: "nat \<Rightarrow> 'w resources \<Rightarrow> 'w resources" where
  "uacpi_kernel_io_unmap handle s = unmap_io handle s"

definition io_port :: "nat \<Rightarrow> nat \<Rightarrow> 'w resources \<Rightarrow> u16" where
  "io_port handle offset s = base_port (elems (rmem s) handle) + of_nat offset"

definition uacpi_kernel_io_read8 :: "'d ports \<Rightarrow> nat \<Rightarrow> nat \<Rightarrow> 'w resources \<Rightarrow> 'd \<Rightarrow> uacpi_status \<times> u8 \<times> 'd" where
  "uacpi_kernel_io_read8 io handle offset s d = (UACPI_STATUS_OK, inb io (io_port handle offset s) d)"

definition uacpi_kernel_io_read16 :: "'d ports \<Rightarrow> nat \<Rightarrow> nat \<Rightarrow> 'w resources \<Rightarrow> 'd \<Rightarrow> uacpi_status \<times> u16 \<times> 'd" where
  "uacpi_kernel_io_read16 io handle offset s d = (UACPI_STATUS_OK, inw io (io_port handle offset s) d)"

definition uacpi_kernel_io_read32 :: "'d ports \<Rightarrow> nat \<Rightarrow> nat \<Rightarrow> 'w resources \<Rightarrow> 'd \<Rightarrow> uacpi_status \<times> u32 \<times> 'd" where
  "uacpi_kernel_io_read32 io handle offset s d = (UACPI_STATUS_OK, inl io (io_port handle offset s) d)"

definition uacpi_kernel_io_write8 :: "'d ports \<Rightarrow> nat \<Rightarrow> nat \<Rightarrow> u8 \<Rightarrow> 'w resources \<Rightarrow> 'd \<Rightarrow> uacpi_status \<times> 'd" where
  "uacpi_kernel_io_write8 io handle offset val s d = (UACPI_STATUS_OK, outb io (io_port handle offset s) val d)"

definition uacpi_kernel_io_write16 :: "'d ports \<Rightarrow> nat \<Rightarrow> nat \<Rightarrow> u16 \<Rightarrow> 'w resources \<Rightarrow> 'd \<Rightarrow> uacpi_status \<times> 'd" where
  "uacpi_kernel_io_write16 io handle offset val s d = (UACPI_STATUS_OK, outw io (io_port handle offset s) val d)"

definition uacpi_kernel_io_write32 :: "'d ports \<Rightarrow> nat \<Rightarrow> nat \<Rightarrow> u32 \<Rightarrow> 'w resources \<Rightarrow> 'd \<Rightarrow> uacpi_status \<times> 'd" where
  "uacpi_kernel_io_write32 io handle offset val s d = (UACPI_STATUS_OK, outl io (io_port handle offset s) val d)"

text \<open>The heap.\<close>

definition uacpi_kernel_alloc :: "'w hooks \<Rightarrow> nat \<Rightarrow> 'w heap \<Rightarrow> (nat \<times> 'w heap) option" where
  "uacpi_kernel_alloc hk sz h = malloc hk sz h"

definition uacpi_kernel_free :: "'w hooks \<Rightarrow> nat \<Rightarrow> 'w heap \<Rightarrow> 'w heap option" where
  "uacpi_kernel_free hk p h = free hk p h"

text \<open>Locks. A spin lock is a mutex too.\<close>

definition uacpi_kernel_create_mutex :: "'w hooks \<Rightarrow> 'w mutexes \<Rightarrow> (nat \<times> 'w mutexes) option" where
  "uacpi_kernel_create_mutex hk s = create_mutex hk s"

definition uacpi_kernel_free_mutex :: "'w hooks \<Rightarrow> nat \<Rightarrow> 'w mutexes \<Rightarrow> 'w mutexes option" where
  "uacpi_kernel_free_mutex hk mutex s = destroy_mutex hk mutex s"

definition uacpi_kernel_acquire_mutex :: "nat \<Rightarrow> u16 \<Rightarrow> 'w mutexes \<Rightarrow> (uacpi_status \<times> 'w mutexes) option" where
  "uacpi_kernel_acquire_mutex mutex timeout s = do {
     s \<leftarrow> mutex_lock mutex s;
     Some (UACPI_STATUS_OK, s)
   }"

definition uacpi_kernel_release_mutex :: "nat \<Rightarrow> 'w mutexes \<Rightarrow> 'w mutexes" where
  "uacpi_kernel_release_mutex mutex s = mutex_unlock mutex s"

definition uacpi_kernel_lock_spinlock :: "nat \<Rightarrow> 'w mutexes \<Rightarrow> (u64 \<times> 'w mutexes) option" where
  "uacpi_kernel_lock_spinlock spinlock s = do {
     (_, s) \<leftarrow> uacpi_kernel_acquire_mutex spinlock 0xFFFF s;
     Some (0, s)
   }"

definition uacpi_kernel_unlock_spinlock :: "nat \<Rightarrow> u64 \<Rightarrow> 'w mutexes \<Rightarrow> 'w mutexes" where
  "uacpi_kernel_unlock_spinlock spinlock flags s = uacpi_kernel_release_mutex spinlock s"

text \<open>Events. A flag in the heap.\<close>

record 'w acpi_events =
  signaled :: "nat \<Rightarrow> bool"
  eheap :: "'w heap"

definition uacpi_kernel_create_event :: "'w hooks \<Rightarrow> 'w acpi_events \<Rightarrow> (nat \<times> 'w acpi_events) option" where
  "uacpi_kernel_create_event hk s = do {
     (e, h) \<leftarrow> malloc hk 1 (eheap s);
     if e = 0 then None else Some (e, s\<lparr>signaled := (signaled s)(e := False), eheap := h\<rparr>)
   }"

definition uacpi_kernel_free_event :: "'w hooks \<Rightarrow> nat \<Rightarrow> 'w acpi_events \<Rightarrow> 'w acpi_events option" where
  "uacpi_kernel_free_event hk handle s = do {
     h \<leftarrow> free hk handle (eheap s);
     Some (s\<lparr>eheap := h\<rparr>)
   }"

text \<open>\<^verbatim>\<open>while (!e->signaled) pause\<close>.\<close>

partial_function (option) wait_signal :: "nat \<Rightarrow> 'w acpi_events \<Rightarrow> bool option" where
  "wait_signal e s = (if \<not> signaled s e then wait_signal e s else Some True)"

definition uacpi_kernel_wait_for_event :: "nat \<Rightarrow> u16 \<Rightarrow> 'w acpi_events \<Rightarrow> bool option" where
  "uacpi_kernel_wait_for_event handle timeout s =
     (if handle = 0 then Some False
      else if timeout = 0 then Some (signaled s handle)
      else if timeout = 0xFFFF then wait_signal handle s
      else wait_signal handle s)"

definition uacpi_kernel_signal_event :: "nat \<Rightarrow> 'w acpi_events \<Rightarrow> 'w acpi_events" where
  "uacpi_kernel_signal_event handle s = (if handle \<noteq> 0 then s\<lparr>signaled := (signaled s)(handle := True)\<rparr> else s)"

definition uacpi_kernel_reset_event :: "nat \<Rightarrow> 'w acpi_events \<Rightarrow> 'w acpi_events" where
  "uacpi_kernel_reset_event handle s = (if handle \<noteq> 0 then s\<lparr>signaled := (signaled s)(handle := False)\<rparr> else s)"

text \<open>Interrupts: a table of the library's handlers with their contexts, and one trampoline that the kernel calls.\<close>

record 'w acpi_irqs =
  acpi_handlers :: "(nat \<times> nat) list"
  irqs_of :: "'w irqs"

definition irq_trampoline :: "nat \<Rightarrow> 'w acpi_irqs \<Rightarrow> (nat \<times> nat) option" where
  "irq_trampoline irq s = (if fst (acpi_handlers s ! irq) \<noteq> 0 then Some (acpi_handlers s ! irq) else None)"

definition uacpi_kernel_install_interrupt_handler ::
    "'w hooks \<Rightarrow> nat \<Rightarrow> nat \<Rightarrow> nat \<Rightarrow> nat \<Rightarrow> 'w acpi_irqs \<Rightarrow> (uacpi_status \<times> nat \<times> 'w acpi_irqs) option" where
  "uacpi_kernel_install_interrupt_handler hk trampoline irq handler ctx s =
     (if irq \<ge> 256 then None
      else do {
        let s = s\<lparr>acpi_handlers := (acpi_handlers s)[irq := (handler, ctx)]\<rparr>;
        (key, t) \<leftarrow> register_irq hk (irq mod 256) trampoline (irqs_of s);
        Some (UACPI_STATUS_OK, key, s\<lparr>irqs_of := t\<rparr>)
      })"

definition uacpi_kernel_uninstall_interrupt_handler :: "nat \<Rightarrow> nat \<Rightarrow> uacpi_status" where
  "uacpi_kernel_uninstall_interrupt_handler handler irq_handle = UACPI_STATUS_INTERNAL_ERROR"

definition uacpi_kernel_schedule_work :: "nat \<Rightarrow> nat \<Rightarrow> uacpi_status" where
  "uacpi_kernel_schedule_work handler ctx = UACPI_STATUS_UNIMPLEMENTED"

section \<open>Properties\<close>

definition mappings :: "'w resources \<Rightarrow> io_mapping list" where
  "mappings s = items IO_SIZE (io_mappings s) (rmem s)"

text \<open>The address of a mapping, which is its handle.\<close>

definition handle_of :: "nat \<Rightarrow> 'w resources \<Rightarrow> nat" where
  "handle_of i s = vdata (io_mappings s) + IO_SIZE * i"

abbreviation res_inv :: "('w \<Rightarrow> nat set) \<Rightarrow> 'w hooks \<Rightarrow> 'w resources \<Rightarrow> chunk set \<Rightarrow> bool" where
  "res_inv granted hk s C \<equiv> vec_inv granted hk IO_SIZE (io_mappings s) (rmem s) C"

lemma IO_SIZE_pos [simp]: "0 < IO_SIZE"
  by (simp add: IO_SIZE_def)

lemma length_mappings [simp]: "length (mappings s) = vsize (io_mappings s)"
  by (simp add: mappings_def)

lemma mapping_at: "i < vsize (io_mappings s) \<Longrightarrow> elems (rmem s) (handle_of i s) = mappings s ! i"
  by (simp add: mappings_def handle_of_def nth_items)

lemma unmap_loop_found:
  assumes "i \<le> j" "j < vsize (io_mappings s)"
  shows "unmap_loop i (handle_of j s) s =
    (case erase IO_SIZE (handle_of j s) (io_mappings s) (rmem s) of (_, v, m) \<Rightarrow> s\<lparr>io_mappings := v, rmem := m\<rparr>)"
  using assms
proof (induction i rule: inc_induct)
  case base
  then show ?case by (subst unmap_loop.simps) (simp add: handle_of_def)
next
  case (step n)
  then show ?case by (subst unmap_loop.simps) (simp add: handle_of_def)
qed

lemma unmap_io_ok:
  assumes "res_inv granted hk s C" "i < vsize (io_mappings s)" "vsize (io_mappings s) < 2 ^ 32"
  shows "res_inv granted hk (unmap_io (handle_of i s) s) C" "vdata (io_mappings (unmap_io (handle_of i s) s)) = vdata (io_mappings s)"
    "mappings (unmap_io (handle_of i s) s) = take i (mappings s) @ drop (Suc i) (mappings s)"
proof -
  obtain v' m' where e: "erase IO_SIZE (handle_of i s) (io_mappings s) (rmem s) = (handle_of i s, v', m')" "vec_inv granted hk IO_SIZE v' m' C"
    "vdata v' = vdata (io_mappings s)" "items IO_SIZE v' m' = take i (mappings s) @ drop (Suc i) (mappings s)"
    using erase_removes [OF assms] by (auto simp: handle_of_def mappings_def)
  have "unmap_io (handle_of i s) s = s\<lparr>io_mappings := v', rmem := m'\<rparr>"
    using unmap_loop_found [of 0 i s] assms(2) e(1) by (simp add: unmap_io_def)
  then show "res_inv granted hk (unmap_io (handle_of i s) s) C" "vdata (io_mappings (unmap_io (handle_of i s) s)) = vdata (io_mappings s)"
    "mappings (unmap_io (handle_of i s) s) = take i (mappings s) @ drop (Suc i) (mappings s)"
    using e(2-4) by (simp_all add: mappings_def)
qed

text \<open>
  Mapping a range of ports and unmapping it again. \<open>map_io\<close> appends the range and returns the address of its entry, through which the library reads the
  range it asked for; unmapping that handle removes exactly this range, so that the list is what it was before. The invariant of
  list and heap is kept.
\<close>

theorem io_map_unmap:
  assumes "res_inv granted hk s C" "IO_SIZE * grown (io_mappings s) (vsize (io_mappings s) + 1) < 2 ^ 31" "map_io hk base len own s = Some (p, s1)"
  shows "\<exists>C1. res_inv granted hk s1 C1 \<and> mappings s1 = mappings s @ [\<lparr>base_port = base, len_ports = len, owner = own\<rparr>] \<and>
    io_port p off s1 = base + of_nat off \<and> res_inv granted hk (unmap_io p s1) C1 \<and> mappings (unmap_io p s1) = mappings s"
proof -
  let ?m = "\<lparr>base_port = base, len_ports = len, owner = own\<rparr>" and ?n = "vsize (io_mappings s)"
  obtain v1 m1 where b: "push_back hk IO_SIZE ?m (io_mappings s) (rmem s) = Some (v1, m1)" "s1 = s\<lparr>io_mappings := v1, rmem := m1\<rparr>"
    "vec_at IO_SIZE (sub64 (vsize v1) 1) v1 = Some p"
    using assms(3) by (auto simp: map_io_def split: Option.bind_splits)
  then obtain C1 where inv: "res_inv granted hk s1 C1" and it: "mappings s1 = mappings s @ [?m]"
    using push_back_appends [OF assms(1,2), of ?m] by (auto simp: mappings_def)
  have n: "vsize (io_mappings s1) = Suc ?n" using arg_cong [OF it, of length] by simp
  have "?n + 1 \<le> grown (io_mappings s) (?n + 1)" by (simp add: grown_def)
  then have small: "Suc ?n < 2 ^ 31" using grown_small(1) [OF IO_SIZE_pos assms(2)] by simp
  then have p: "p = handle_of ?n s1" using b n by (simp add: vec_at_def handle_of_def sub64_le SIZE_MAX_def)
  have "io_port p off s1 = base + of_nat off" using mapping_at [of ?n s1] n it p by (simp add: io_port_def nth_append)
  moreover have "res_inv granted hk (unmap_io p s1) C1" "mappings (unmap_io p s1) = mappings s"
    using unmap_io_ok(1,3) [OF inv, of ?n] n small it p by simp_all
  ultimately show ?thesis using inv it by blast
qed

text \<open>
  A handle does not stay valid. When a range that was mapped earlier is unmapped, the entries behind it move down, and the handle of a later
  range, which the library still holds, names the range after it: the library then reads and writes other ports than it asked for.
\<close>

theorem io_unmap_moves_handles:
  assumes "res_inv granted hk s C" "i < j" "Suc j < vsize (io_mappings s)" "vsize (io_mappings s) < 2 ^ 32"
  shows "uacpi_kernel_io_read8 io (handle_of j s) off (uacpi_kernel_io_unmap (handle_of i s) s) d =
    (UACPI_STATUS_OK, inb io (base_port (mappings s ! Suc j) + of_nat off) d)"
proof -
  let ?s = "unmap_io (handle_of i s) s"
  have i: "i < vsize (io_mappings s)" using assms(2,3) by simp
  note u = unmap_io_ok [OF assms(1) i assms(4)]
  have n: "vsize (io_mappings ?s) = vsize (io_mappings s) - 1" using arg_cong [OF u(3), of length] i by simp
  have "elems (rmem ?s) (handle_of j s) = mappings ?s ! j" using mapping_at [of j ?s] n assms(3) u(2) by (simp add: handle_of_def)
  also have "\<dots> = mappings s ! Suc j" using u(3) assms(2,3) by (simp add: nth_append min_def)
  finally show ?thesis by (simp add: uacpi_kernel_io_read8_def uacpi_kernel_io_unmap_def io_port_def)
qed

text \<open>
  C30: Configuration space as the ACPI library sees it. A read of 32 bits returns only the half of the register that the offset selects, with zeros above;
  a read of 8 bits returns the low byte of that half also for an odd offset;
  and the writes of all three widths confuse the offset with the value: a write of the value \<open>v\<close> at an offset changes the register that \<open>v\<close>
  names, of which it sets the bytes that \<open>v\<close> selects to the offset, and leaves the register at the offset as it is unless \<open>v\<close> names it.
\<close>

theorem acpi_pci_defects:
  fixes v8 :: u8 and v16 :: u16 and v32 :: u32
  assumes "config_mechanism io addr config" "pd_d dev < 32" "pd_f dev < 8"
  defines "reg \<equiv> config_reg (pd_b dev) (pd_d dev) (pd_f dev)"
  shows "fst (snd (uacpi_kernel_pci_read32 io dev off s)) = take_bit 16 (drop_bit (unat (of_nat off AND 2 :: u8) * 8) (config s (reg (of_nat off)))) \<and>
    fst (snd (uacpi_kernel_pci_read8 io dev off s)) = ucast (drop_bit (unat (of_nat off AND 2 :: u8) * 8) (config s (reg (of_nat off)))) \<and>
    config (snd (uacpi_kernel_pci_write8 io dev off v8 s)) =
      (config s)(reg v8 := put_bytes (unat (v8 AND 3)) 1 (of_nat off) (config s (reg v8))) \<and>
    config (snd (uacpi_kernel_pci_write16 io dev off v16 s)) =
      (config s)(reg (ucast v16) := put_bytes (unat (ucast v16 AND 2 :: u8)) 2 (of_nat off) (config s (reg (ucast v16)))) \<and>
    config (snd (uacpi_kernel_pci_write32 io dev off v32 s)) = (config s)(reg (ucast v32) := of_nat off)"
proof -
  have b: "ucast (w AND 0xFFFF) = (ucast w :: u8)" for w :: u32
    unfolding low16 by (rule bit_word_eqI) (auto simp: bit_ucast_iff bit_take_bit_iff)
  show ?thesis
    using pci_ops(1,3-5) [OF assms(1-3) refl] unfolding reg_def
    by (simp add: uacpi_kernel_pci_read32_def uacpi_kernel_pci_read8_def uacpi_kernel_pci_write8_def uacpi_kernel_pci_write16_def
        uacpi_kernel_pci_write32_def split_beta b) (simp add: low16)
qed

theorem acpi_pci_defects_witness:
  "snd (snd (uacpi_kernel_pci_write32 pci_machine \<lparr>pd_b = 0, pd_d = 3, pd_f = 0\<rparr> 0x10 0x40 (0, \<lambda>_. 0))) (0, 3, 0, 0x10) = 0x10 \<and>
   snd (snd (uacpi_kernel_pci_write8 pci_machine \<lparr>pd_b = 0, pd_d = 3, pd_f = 0\<rparr> 0x10 0x40 (0, \<lambda>_. 0))) (0, 3, 0, 4) = 0"
  using acpi_pci_defects [OF pci_machine_ok, of "\<lparr>pd_b = 0, pd_d = 3, pd_f = 0\<rparr>" "0x10" "(0, \<lambda>_. 0)" "0x40" 0 "0x40"]
  by (simp add: config_reg_def)

text \<open>
  C31: An interrupt of the ACPI library is never delivered. Installing a handler reports success even when the interrupt belongs to another driver, and then
  changes nothing; when the registration succeeds, the interrupt stays masked whatever the drivers do that do not hold the key, and the
  host has no function that unmasks it.
\<close>

theorem acpi_irq_masked:
  assumes "irq_inv granted hk (irqs_of s)" "irq < 16"
    "uacpi_kernel_install_interrupt_handler hk trampoline irq handler ctx s = Some (st, key, s1)" "\<forall>c \<in> set cs. \<not> uses_key irq key c"
  shows "st = UACPI_STATUS_OK \<and> (irq_used (irq_table (irqs_of s) ! irq) \<longrightarrow> key = 0 \<and> irqs_of s1 = irqs_of s) \<and>
    (key \<noteq> 0 \<longrightarrow> (\<exists>t. irq_calls hk cs (irqs_of s1) = Some t \<and> irq_stub_handler irq t = None))"
proof -
  obtain t1 where r: "register_irq hk irq trampoline (irqs_of s) = Some (key, t1)" "st = UACPI_STATUS_OK" "irqs_of s1 = t1"
    using assms(2,3) by (auto simp: uacpi_kernel_install_interrupt_handler_def split: Option.bind_splits)
  have "\<exists>t. irq_calls hk cs t1 = Some t \<and> irq_stub_handler irq t = None" if k: "key \<noteq> 0"
    by (rule registered_stays [OF assms(1) r(1) k assms(4)]) (simp add: irq_stub_handler_def)
  then show ?thesis using r register_irq_refused [of irq trampoline "irqs_of s" hk] by auto
qed

theorem acpi_irq_masked_witness:
  "\<exists>key s1. uacpi_kernel_install_interrupt_handler arena 0x1000 9 0x2000 0 \<lparr>acpi_handlers = replicate 256 (0, 0), irqs_of = demo_irqs\<rparr> =
     Some (UACPI_STATUS_OK, key, s1) \<and> key \<noteq> 0 \<and> (\<exists>t. irq_calls arena [Unmask 9 0] (irqs_of s1) = Some t \<and> irq_stub_handler 9 t = None)"
proof -
  let ?s = "\<lparr>acpi_handlers = replicate 256 (0, 0), irqs_of = demo_irqs\<rparr>"
  have u: "\<not> irq_used (irq_table demo_irqs ! 9)" by (simp add: demo_irqs_def irq_table_init_def)
  obtain k t1 where r: "register_irq arena 9 0x1000 demo_irqs = Some (k, t1)" "malloc arena 1 (iheap demo_irqs) = Some (k, iheap t1)"
    by (rule register_irq_ok [OF demo_irqs_inv _ _ u, where f = "0x1000"]) simp_all
  have k: "k \<noteq> 0"
    using malloc_null [of arena 1 "iheap demo_irqs" "iheap t1"] r(2) arena_grants [of "1 + TAG" "{}"]
    by (auto simp: demo_irqs_def boot_heap_def TAG_def)
  obtain s1 where i: "uacpi_kernel_install_interrupt_handler arena 0x1000 9 0x2000 0 ?s = Some (UACPI_STATUS_OK, k, s1)"
    using r(1) by (simp add: uacpi_kernel_install_interrupt_handler_def)
  have "irq_inv id arena (irqs_of ?s)" using demo_irqs_inv by simp
  from acpi_irq_masked [OF this _ i, of "[Unmask 9 0]"] k i show ?thesis by auto
qed

text \<open>
  Unmapping memory of the ACPI library releases one page only. The host passes the number of pages where the size in bytes is expected, so
  that for a range of up to 16 megabytes the first page is unmapped and all others stay translated as before.
\<close>

theorem acpi_unmap_leaves_pages:
  assumes "mem_ok s" "tables_ok H s T" "clear_of H addr" "0x1000 < len" "len \<le> 0x1000000" "unat addr + 0x1000000 \<le> 2 ^ 64 - 0x1000"
  shows "\<exists>s'. uacpi_kernel_unmap addr len s = Some s' \<and> translate s' addr = None \<and>
    (\<forall>i. 0 < i \<longrightarrow> i < (len + 0xFFF) div 0x1000 \<longrightarrow> translate s' (addr + of_nat i * PAGE_SIZE) = translate s (addr + of_nat i * PAGE_SIZE))"
proof -
  let ?n = "(len + 0xFFF) div 0x1000"
  have n: "0 < ?n" "?n \<le> 0x1000" using assms(4,5) by simp_all
  then have one: "(?n + 0xFFF) div 0x1000 = 1" by linarith
  have c: "\<forall>i < (?n + 0xFFF) div 0x1000. clear_of H (addr + of_nat i * PAGE_SIZE)" using assms(3) unfolding one by simp
  have b: "?n \<le> 2 ^ 48" "unat addr + ?n \<le> 2 ^ 64 - 0x1000" using n(2) assms(6) by simp_all
  obtain s' where s': "munmap addr ?n s = Some s'" "\<forall>i < 1. translate s' (addr + of_nat i * PAGE_SIZE) = None"
    "\<forall>v. (\<forall>i < 1. page_no v \<noteq> page_no (addr + of_nat i * PAGE_SIZE)) \<longrightarrow> translate s' v = translate s v"
    using munmap_ok [OF assms(1,2) c b] unfolding one by blast
  have "translate s' (addr + of_nat i * PAGE_SIZE) = translate s (addr + of_nat i * PAGE_SIZE)" if "0 < i" "i < ?n" for i
  proof -
    have "i < 2 ^ 36" using that(2) n(2) by simp
    then have "page_no (addr + of_nat i * PAGE_SIZE) \<noteq> page_no (addr + of_nat 0 * PAGE_SIZE)"
      using page_no_inj [of addr i 0] that(1) by auto
    then show ?thesis using s'(3) by simp
  qed
  moreover have "uacpi_kernel_unmap addr len s = Some s'"
    using s'(1) assms(5) by (simp add: uacpi_kernel_unmap_def add64_le SIZE_MAX_def)
  ultimately show ?thesis using s'(2) by (intro exI [of _ s']) simp
qed

theorem acpi_unmap_leaves_pages_witness:
  "\<exists>s'. uacpi_kernel_unmap 0x400000 0x2000 demo_vmm = Some s' \<and> translate s' 0x401000 = translate demo_vmm 0x401000"
proof -
  have c: "clear_of {} 0x400000" by (simp add: clear_of_def)
  from acpi_unmap_leaves_pages [OF demo_vmm_ok(1,2) c, of "0x2000"] obtain s' where
    s: "uacpi_kernel_unmap 0x400000 0x2000 demo_vmm = Some s'"
    "\<forall>i. 0 < i \<longrightarrow> i < (0x2000 + 0xFFF :: nat) div 0x1000 \<longrightarrow>
       translate s' (0x400000 + of_nat i * PAGE_SIZE) = translate demo_vmm (0x400000 + of_nat i * PAGE_SIZE)"
    by auto
  from s(2) [rule_format, of 1] have "translate s' 0x401000 = translate demo_vmm 0x401000" by (simp add: PAGE_SIZE_def)
  with s(1) show ?thesis by blast
qed

text \<open>Two lists of ranges for the witnesses: an empty one, and one with three ranges.\<close>

definition no_ranges :: "nat set resources" where
  "no_ranges = \<lparr>io_mappings = empty_vec, rmem = \<lparr>elems = \<lambda>_. \<lparr>base_port = 0, len_ports = 0, owner = 0\<rparr>, vheap = boot_heap\<rparr>\<rparr>"

definition three_ranges :: "nat set resources" where
  "three_ranges = \<lparr>io_mappings = \<lparr>vdata = 0x2000030, vsize = 3, vcapacity = 0x800\<rparr>,
     rmem = \<lparr>elems = \<lambda>a. \<lparr>base_port = of_nat (a - 0x2000000), len_ports = 8, owner = 0\<rparr>, vheap = block_heap\<rparr>\<rparr>"

theorem io_map_unmap_witness:
  "\<exists>p s1. map_io arena 0x60 5 0x100 no_ranges = Some (p, s1) \<and> io_port p 4 s1 = 0x64 \<and> mappings (unmap_io p s1) = []"
proof -
  have inv: "res_inv id arena no_ranges {}" using arena_ok boot_heap_inv by (simp add: vec_inv_def no_ranges_def empty_vec_def)
  have g: "grown (io_mappings no_ranges) (vsize (io_mappings no_ranges) + 1) = 4" by (simp add: grown_def no_ranges_def empty_vec_def)
  have small: "IO_SIZE * grown (io_mappings no_ranges) (vsize (io_mappings no_ranges) + 1) < 2 ^ 31" unfolding g by (simp add: IO_SIZE_def)
  have "\<nexists>w. liballoc_alloc arena (pages_for (IO_SIZE * 4 + TAG)) (sys (vheap (rmem no_ranges))) = Some (0, w)"
    using arena_grants [of "IO_SIZE * 4 + TAG" "{}"] by (simp add: no_ranges_def boot_heap_def IO_SIZE_def TAG_def)
  with push_back_appends [OF inv small] obtain v m C where
    b: "push_back arena IO_SIZE \<lparr>base_port = 0x60, len_ports = 5, owner = 0x100\<rparr> (io_mappings no_ranges) (rmem no_ranges) = Some (v, m)"
    "items IO_SIZE v m = items IO_SIZE (io_mappings no_ranges) (rmem no_ranges) @ [\<lparr>base_port = 0x60, len_ports = 5, owner = 0x100\<rparr>]"
    unfolding g by blast
  have "vsize v = 1" using arg_cong [OF b(2), of length] by (simp add: no_ranges_def empty_vec_def)
  then obtain p s1 where m: "map_io arena 0x60 5 0x100 no_ranges = Some (p, s1)"
    using b(1) by (simp add: map_io_def vec_at_def sub64_le SIZE_MAX_def)
  have "mappings no_ranges = []" by (simp add: mappings_def items_def no_ranges_def empty_vec_def)
  with io_map_unmap [OF inv small m, of 4] m show ?thesis by auto
qed

theorem io_unmap_moves_handles_witness:
  "uacpi_kernel_io_read8 pci_machine (handle_of 1 three_ranges) 0 (uacpi_kernel_io_unmap (handle_of 0 three_ranges) three_ranges) (0, \<lambda>_. 0) =
     (UACPI_STATUS_OK, inb pci_machine (base_port (mappings three_ranges ! 2)) (0, \<lambda>_. 0)) \<and>
   base_port (mappings three_ranges ! 2) \<noteq> base_port (mappings three_ranges ! 1)"
proof -
  have "res_inv id arena three_ranges {([0x2000000], 0x2010000)}"
    using arena_ok block_heap_inv by (simp add: vec_inv_def three_ranges_def IO_SIZE_def)
  moreover have "vsize (io_mappings three_ranges) = 3" by (simp add: three_ranges_def)
  moreover have "base_port (mappings three_ranges ! 2) = 0x50" "base_port (mappings three_ranges ! 1) = 0x40"
    by (simp_all add: mappings_def items_def three_ranges_def IO_SIZE_def)
  ultimately show ?thesis
    using io_unmap_moves_handles [of id arena three_ranges "{([0x2000000], 0x2010000)}" 0 1 pci_machine 0 "(0, \<lambda>_. 0)"]
    by (simp flip: numeral_2_eq_2)
qed

end
