(* ===== verification/Uacpi_Bits.thy ===== *)
theory Uacpi_Bits
  imports Prelude
begin

text \<open>
  The bit copies of \<open>extra/uacpi/io.c\<close>: \<open>bit_copy\<close>, which moves a run of bits between two byte arrays at arbitrary bit positions, and the
  access to the fields of a buffer that rests on it.

  Source and destination are different objects in every call, so each is a memory of its own, a map from the byte's
  position to the byte.
\<close>

section \<open>Model\<close>

type_synonym bytes = "nat \<Rightarrow> u8"

definition uacpi_round_up_bits_to_bytes :: "nat \<Rightarrow> nat" where
  "uacpi_round_up_bits_to_bytes bit_length = (bit_length + 7) div 8"

definition cut_misaligned_tail :: "bytes \<Rightarrow> nat \<Rightarrow> nat \<Rightarrow> bytes" where
  "cut_misaligned_tail data offset bit_length =
     (let remainder = bit_length mod 8 in
      if remainder = 0 then data else data(offset := data offset AND mask remainder))"

record bit_span =
  span_data :: bytes
  span_index :: nat
  span_length :: nat

definition bit_span_offset :: "bit_span \<Rightarrow> nat \<Rightarrow> bit_span" where
  "bit_span_offset span bits =
     (let delta = min (span_length span) bits in
      span\<lparr>span_index := span_index span + delta, span_length := span_length span - delta\<rparr>)"

text \<open>One round of the loop: the next byte of the source, and its place in the destination.\<close>

definition take_bits :: "bytes \<Rightarrow> nat \<Rightarrow> nat \<Rightarrow> nat \<Rightarrow> u8" where
  "take_bits src src_shift src_count src_ptr =
     (if src_count = 0 then 0
      else let bits = drop_bit src_shift (src src_ptr);
               bits = (if src_shift \<noteq> 0 \<and> src_count > 8 - src_shift then bits OR push_bit (8 - src_shift) (src (src_ptr + 1)) else bits)
           in if src_count < 8 then bits AND mask src_count else bits)"

definition put_bits :: "u8 \<Rightarrow> nat \<Rightarrow> nat \<Rightarrow> nat \<Rightarrow> bytes \<Rightarrow> bytes" where
  "put_bits bits dst_shift dst_count dst_ptr dst =
     (let dst_mask = push_bit dst_shift (if dst_count < 8 then mask dst_count else 0xFF) :: u16;
          dst = dst(dst_ptr := (dst dst_ptr AND NOT (ucast dst_mask)) OR (push_bit dst_shift bits AND ucast dst_mask))
      in if dst_shift \<noteq> 0 \<and> dst_count > 8 - dst_shift then
           let dst_mask = drop_bit 8 dst_mask;
               dst = dst(dst_ptr + 1 := dst (dst_ptr + 1) AND NOT (ucast dst_mask))
           in dst(dst_ptr + 1 := dst (dst_ptr + 1) OR (drop_bit (8 - dst_shift) bits AND ucast dst_mask))
         else dst)"

function bit_copy_loop :: "bytes \<Rightarrow> nat \<Rightarrow> nat \<Rightarrow> nat \<Rightarrow> nat \<Rightarrow> nat \<Rightarrow> nat \<Rightarrow> bytes \<Rightarrow> bytes" where
  "bit_copy_loop src src_shift dst_shift src_count src_ptr dst_count dst_ptr dst =
     (if dst_count = 0 then dst
      else let bits = take_bits src src_shift src_count src_ptr;
               (src_count, src_ptr) = (if src_count = 0 then (0, src_ptr) else if src_count < 8 then (0, src_ptr) else (src_count - 8, src_ptr + 1));
               dst = put_bits bits dst_shift dst_count dst_ptr dst
           in bit_copy_loop src src_shift dst_shift src_count src_ptr (if dst_count > 8 then dst_count - 8 else 0) (dst_ptr + 1) dst)"
  by pat_completeness auto
termination by (relation "measure (\<lambda>(_, _, _, _, _, dst_count, _). dst_count)") (auto split: if_splits)

declare bit_copy_loop.simps [simp del]

definition bit_copy :: "bit_span \<Rightarrow> bit_span \<Rightarrow> bytes" where
  "bit_copy dst src =
     bit_copy_loop (span_data src) (span_index src mod 8) (span_index dst mod 8) (span_length src) (span_index src div 8)
       (span_length dst) (span_index dst div 8) (span_data dst)"

text \<open>\<open>uacpi_memcpy\<close> and \<open>uacpi_memcpy_zerout\<close> of the library's own C functions.\<close>

definition uacpi_memcpy :: "bytes \<Rightarrow> nat \<Rightarrow> bytes \<Rightarrow> nat \<Rightarrow> nat \<Rightarrow> bytes" where
  "uacpi_memcpy dst d src s count = for_up 0 count (\<lambda>i m. m(d + i := src (s + i))) dst"

definition uacpi_memcpy_zerout :: "bytes \<Rightarrow> nat \<Rightarrow> bytes \<Rightarrow> nat \<Rightarrow> nat \<Rightarrow> bytes" where
  "uacpi_memcpy_zerout dst d src dst_size src_size =
     (let bytes_to_copy = min src_size dst_size;
          dst = (if bytes_to_copy \<noteq> 0 then uacpi_memcpy dst d src 0 bytes_to_copy else dst)
      in if dst_size > bytes_to_copy then for_up bytes_to_copy dst_size (\<lambda>i m. m(d + i := 0)) dst else dst)"

record buffer_field =
  backing :: bytes
  bit_index :: nat
  bit_length :: nat
  force_buffer :: bool

definition do_misaligned_buffer_read :: "buffer_field \<Rightarrow> bytes \<Rightarrow> bytes" where
  "do_misaligned_buffer_read field dst =
     bit_copy \<lparr>span_data = dst, span_index = 0, span_length = uacpi_round_up_bits_to_bytes (bit_length field) * 8\<rparr>
       \<lparr>span_data = backing field, span_index = bit_index field, span_length = bit_length field\<rparr>"

definition uacpi_read_buffer_field :: "buffer_field \<Rightarrow> bytes \<Rightarrow> bytes" where
  "uacpi_read_buffer_field field dst =
     (if bit_index field mod 8 = 0 then
        let count = uacpi_round_up_bits_to_bytes (bit_length field);
            dst = uacpi_memcpy dst 0 (backing field) (bit_index field div 8) count
        in cut_misaligned_tail dst (count - 1) (bit_length field)
      else do_misaligned_buffer_read field dst)"

definition do_write_misaligned_buffer_field :: "buffer_field \<Rightarrow> bytes \<Rightarrow> nat \<Rightarrow> buffer_field" where
  "do_write_misaligned_buffer_field field src sz =
     field\<lparr>backing := bit_copy \<lparr>span_data = backing field, span_index = bit_index field, span_length = bit_length field\<rparr>
       \<lparr>span_data = src, span_index = 0, span_length = sz * 8\<rparr>\<rparr>"

definition uacpi_write_buffer_field :: "buffer_field \<Rightarrow> bytes \<Rightarrow> nat \<Rightarrow> buffer_field" where
  "uacpi_write_buffer_field field src sz =
     (if bit_index field mod 8 = 0 then
        let dst = bit_index field div 8;
            count = uacpi_round_up_bits_to_bytes (bit_length field);
            last_byte = backing field (dst + (count - 1));
            tail_shift = bit_length field mod 8;
            m = uacpi_memcpy_zerout (backing field) dst src count sz
        in if tail_shift \<noteq> 0 then
             let last_shift = 8 - tail_shift;
                 m = m(dst + (count - 1) := push_bit last_shift (m (dst + (count - 1))));
                 m = m(dst + (count - 1) := drop_bit last_shift (m (dst + (count - 1))));
                 m = m(dst + (count - 1) := m (dst + (count - 1)) OR push_bit tail_shift (drop_bit tail_shift last_byte))
             in field\<lparr>backing := m\<rparr>
           else field\<lparr>backing := m\<rparr>
      else do_write_misaligned_buffer_field field src sz)"

section \<open>Memories as runs of bits\<close>

definition mbit :: "bytes \<Rightarrow> nat \<Rightarrow> bool" where
  "mbit m p = bit (m (p div 8)) (p mod 8)"

lemma mbit_at: "k < 8 \<Longrightarrow> mbit m (8 * a + k) = bit (m a) k"
  by (simp add: mbit_def)

lemma mbit_eqI: "(\<And>p. mbit m p = mbit m' p) \<Longrightarrow> m = m'"
  by (rule ext, rule bit_word_eqI) (simp add: mbit_at [symmetric])

lemma take_bits_bit:
  assumes "s < 8" "k < 8"
  shows "bit (take_bits src s n ptr) k \<longleftrightarrow> k < n \<and> mbit src (8 * ptr + s + k)"
proof (cases "s + k < 8")
  case True
  then have "mbit src (8 * ptr + s + k) = bit (src ptr) (s + k)" using mbit_at [of "s + k" src ptr] by (simp add: add.assoc)
  then show ?thesis using True assms
    by (auto simp: take_bits_def Let_def bit_and_iff bit_or_iff bit_mask_iff bit_drop_bit_eq bit_push_bit_iff)
next
  case False
  have "8 * ptr + s + k = 8 * (ptr + 1) + (k + s - 8)" using False by simp
  then have "mbit src (8 * ptr + s + k) = bit (src (ptr + 1)) (k + s - 8)" using assms by (simp only: mbit_at)
  then show ?thesis using False assms
    by (auto simp: take_bits_def Let_def bit_and_iff bit_or_iff bit_mask_iff bit_drop_bit_eq bit_push_bit_iff dest: bit_imp_le_length)
qed

lemma mask_bit: "bit (ucast (push_bit s (if n < 8 then mask n else 0xFF) :: u16) :: u8) k \<longleftrightarrow> k < 8 \<and> s \<le> k \<and> k < s + n"
  "bit (ucast (drop_bit 8 (push_bit s (if n < 8 then mask n else 0xFF) :: u16)) :: u8) k \<longleftrightarrow> k < 8 \<and> s \<le> k + 8 \<and> k + 8 < s + min n 8"
proof -
  have "(if n < 8 then mask n else 0xFF :: u16) = mask (min n 8)" by (simp add: min_def mask_eq_exp_minus_1)
  then show "bit (ucast (push_bit s (if n < 8 then mask n else 0xFF) :: u16) :: u8) k \<longleftrightarrow> k < 8 \<and> s \<le> k \<and> k < s + n"
    "bit (ucast (drop_bit 8 (push_bit s (if n < 8 then mask n else 0xFF) :: u16)) :: u8) k \<longleftrightarrow> k < 8 \<and> s \<le> k + 8 \<and> k + 8 < s + min n 8"
    by (auto simp: bit_ucast_iff bit_push_bit_iff bit_drop_bit_eq bit_mask_iff simp del: mask_numeral)
qed

lemma put_bits_at:
  assumes "s < 8" "k < 8"
  shows "bit (put_bits w s n ptr d a) k \<longleftrightarrow>
    (if 8 * ptr + s \<le> 8 * a + k \<and> 8 * a + k < 8 * ptr + s + min n 8 then bit w (8 * a + k - (8 * ptr + s)) else bit (d a) k)"
proof -
  consider "a = ptr" | "a = Suc ptr" | "a \<noteq> ptr" "a \<noteq> Suc ptr" by linarith
  then show ?thesis
  proof cases
    case 1
    then show ?thesis using assms
      by (auto simp: put_bits_def Let_def bit_and_iff bit_or_iff bit_not_iff mask_bit bit_push_bit_iff)
  next
    case 2
    then show ?thesis using assms
      by (auto simp: put_bits_def Let_def bit_and_iff bit_or_iff bit_not_iff mask_bit bit_drop_bit_eq)
  next
    case 3
    then show ?thesis using assms by (auto simp: put_bits_def Let_def)
  qed
qed

lemma put_bits_bit:
  assumes "s < 8"
  shows "mbit (put_bits w s n ptr d) p \<longleftrightarrow> (if 8 * ptr + s \<le> p \<and> p < 8 * ptr + s + min n 8 then bit w (p - (8 * ptr + s)) else mbit d p)"
  using put_bits_at [OF assms, of "p mod 8" w n ptr d "p div 8"] by (simp add: mbit_def)

text \<open>The loop, with the counters as the source has them. After a round in which fewer than eight bits were left, the source is exhausted.\<close>

lemma bit_copy_loop_bit:
  assumes "s < 8" "t < 8"
  shows "mbit (bit_copy_loop src s t sn sp dn dp d) p \<longleftrightarrow>
    (if 8 * dp + t \<le> p \<and> p < 8 * dp + t + dn
     then p - (8 * dp + t) < sn \<and> mbit src (8 * sp + s + (p - (8 * dp + t)))
     else mbit d p)"
proof (induction dn arbitrary: sn sp dp d rule: less_induct)
  case (less dn)
  show ?case
  proof (cases "dn = 0")
    case True
    then show ?thesis by (subst bit_copy_loop.simps) auto
  next
    case False
    let ?sn = "if sn < 8 then 0 else sn - 8" and ?sp = "if sn < 8 then sp else sp + 1" and ?dn = "if 8 < dn then dn - 8 else 0"
    let ?d = "put_bits (take_bits src s sn sp) t dn dp d"
    have step: "bit_copy_loop src s t sn sp dn dp d = bit_copy_loop src s t ?sn ?sp ?dn (dp + 1) ?d"
      using False by (subst bit_copy_loop.simps) (simp add: Let_def)
    have w: "mbit ?d p \<longleftrightarrow> (if 8 * dp + t \<le> p \<and> p < 8 * dp + t + min dn 8
        then p - (8 * dp + t) < sn \<and> mbit src (8 * sp + s + (p - (8 * dp + t))) else mbit d p)"
      using assms by (auto simp: put_bits_bit take_bits_bit)
    have "?dn < dn" using False by simp
    note IH = less.IH [OF this, of ?sn ?sp "dp + 1" ?d]
    show ?thesis
    proof (cases "8 * (dp + 1) + t \<le> p \<and> p < 8 * (dp + 1) + t + ?dn")
      case True
      then obtain r where r: "p = 8 * (dp + 1) + t + r" using le_Suc_ex by blast
      have q: "p - (8 * (dp + 1) + t) = r" "p - (8 * dp + t) = r + 8" using r by simp_all
      have inside: "8 * dp + t \<le> p \<and> p < 8 * dp + t + dn" using True by (auto split: if_splits)
      have "mbit (bit_copy_loop src s t sn sp dn dp d) p \<longleftrightarrow> r < ?sn \<and> mbit src (8 * ?sp + s + r)"
        unfolding step IH q(1) if_P [OF True] ..
      also have "\<dots> \<longleftrightarrow> r + 8 < sn \<and> mbit src (8 * sp + s + (r + 8))" by (cases "sn < 8") (auto simp: ac_simps)
      finally show ?thesis unfolding q(2) if_P [OF inside] .
    next
      case outside: False
      then have r: "8 * dp + t \<le> p \<and> p < 8 * dp + t + min dn 8 \<longleftrightarrow> 8 * dp + t \<le> p \<and> p < 8 * dp + t + dn" by (auto split: if_splits)
      show ?thesis unfolding step IH if_not_P [OF outside] w r ..
    qed
  qed
qed

lemma bit_copy_bit:
  "mbit (bit_copy dst src) p \<longleftrightarrow>
    (if span_index dst \<le> p \<and> p < span_index dst + span_length dst
     then p - span_index dst < span_length src \<and> mbit (span_data src) (span_index src + (p - span_index dst))
     else mbit (span_data dst) p)"
  by (simp add: bit_copy_def bit_copy_loop_bit)

section \<open>Buffer fields\<close>

lemma memcpy_byte: "uacpi_memcpy dst d src s n a = (if d \<le> a \<and> a < d + n then src (s + (a - d)) else dst a)"
proof (induction n)
  case (Suc n)
  then show ?case by (auto simp: uacpi_memcpy_def for_up_last le_less_Suc_eq)
qed (auto simp: uacpi_memcpy_def)

lemma zero_fill: "for_up k n (\<lambda>i m. m(d + i := 0)) m a = (if d + k \<le> a \<and> a < d + n then 0 else m a)" for m :: bytes
proof (induction n)
  case (Suc n)
  then show ?case by (cases "k \<le> n") (auto simp: for_up_last le_less_Suc_eq)
qed auto

lemma memcpy_zerout_byte:
  "uacpi_memcpy_zerout dst d src n sz a = (if d \<le> a \<and> a < d + n then if a - d < sz then src (a - d) else 0 else dst a)"
  by (auto simp: uacpi_memcpy_zerout_def memcpy_byte zero_fill Let_def min_def)

lemma byte_range: "8 * a + k < 8 * n \<longleftrightarrow> a < n" if "k < 8" for a k n :: nat
  using that by auto

lemma count_bounds:
  assumes "0 < n"
  shows "n \<le> 8 * uacpi_round_up_bits_to_bytes n" "8 * (uacpi_round_up_bits_to_bytes n - 1) < n" "0 < uacpi_round_up_bits_to_bytes n"
    "n mod 8 \<noteq> 0 \<Longrightarrow> n = 8 * (uacpi_round_up_bits_to_bytes n - 1) + n mod 8" "n mod 8 = 0 \<Longrightarrow> n = 8 * uacpi_round_up_bits_to_bytes n"
proof -
  have n: "n = 8 * (n div 8) + n mod 8" "n mod 8 < 8" by simp_all
  have c: "uacpi_round_up_bits_to_bytes n = (if n mod 8 = 0 then n div 8 else n div 8 + 1)"
    unfolding uacpi_round_up_bits_to_bytes_def by presburger
  show "n \<le> 8 * uacpi_round_up_bits_to_bytes n" "8 * (uacpi_round_up_bits_to_bytes n - 1) < n" "0 < uacpi_round_up_bits_to_bytes n"
    "n mod 8 \<noteq> 0 \<Longrightarrow> n = 8 * (uacpi_round_up_bits_to_bytes n - 1) + n mod 8" "n mod 8 = 0 \<Longrightarrow> n = 8 * uacpi_round_up_bits_to_bytes n"
    using assms n by (auto simp: c split: if_splits) presburger
qed

lemma read_buffer_field_bit:
  assumes "0 < bit_length field"
  shows "mbit (uacpi_read_buffer_field field dst) p \<longleftrightarrow>
    (if p < 8 * uacpi_round_up_bits_to_bytes (bit_length field) then p < bit_length field \<and> mbit (backing field) (bit_index field + p)
     else mbit dst p)"
proof (cases "bit_index field mod 8 = 0")
  case False
  then show ?thesis
    by (auto simp: uacpi_read_buffer_field_def do_misaligned_buffer_read_def bit_copy_bit mult.commute)
next
  case True
  define n where "n = bit_length field"
  define c where "c = uacpi_round_up_bits_to_bytes n"
  note b = count_bounds [OF assms, folded n_def c_def]
  obtain a k where p: "p = 8 * a + k" "k < 8" by (metis mult_div_mod_eq mod_less_divisor zero_less_numeral)
  have i: "bit_index field = 8 * (bit_index field div 8)" using True by presburger
  have src: "mbit (backing field) (bit_index field + p) = bit (backing field (bit_index field div 8 + a)) k"
    using mbit_at [OF p(2), of "backing field" "bit_index field div 8 + a"] i p(1) by (simp add: distrib_left add.assoc)
  have r: "uacpi_read_buffer_field field dst = cut_misaligned_tail (uacpi_memcpy dst 0 (backing field) (bit_index field div 8) c) (c - 1) n"
    using True by (simp add: uacpi_read_buffer_field_def n_def c_def Let_def)
  have lim: "p < 8 * c \<longleftrightarrow> a < c" using p by auto
  have tail: "p < n" if "a < c" "n mod 8 = 0 \<or> a \<noteq> c - 1" using that p b by (cases "n mod 8 = 0") auto
  have last: "p < n \<longleftrightarrow> k < n mod 8" if "a = c - 1" "n mod 8 \<noteq> 0" using b(4) [OF that(2)] that(1) p(1) by linarith
  have "mbit (uacpi_read_buffer_field field dst) p \<longleftrightarrow> (if a < c then p < n \<and> bit (backing field (bit_index field div 8 + a)) k else bit (dst a) k)"
  proof (cases "n mod 8 = 0 \<or> a \<noteq> c - 1")
    case True
    then show ?thesis using tail p b(3) by (auto simp: r cut_misaligned_tail_def Let_def mbit_at memcpy_byte)
  next
    case False
    then show ?thesis using last p b(3) by (auto simp: r cut_misaligned_tail_def Let_def mbit_at memcpy_byte bit_and_iff bit_mask_iff)
  qed
  then show ?thesis using lim src mbit_at [OF p(2)] p(1) by (simp add: n_def c_def)
qed

text \<open>The last byte of an aligned write keeps the bits above the field.\<close>

lemma tail_bit:
  assumes "0 < t" "t < 8" "k < 8"
  shows "bit (drop_bit (8 - t) (push_bit (8 - t) b) OR push_bit t (drop_bit t l) :: u8) k \<longleftrightarrow> (if k < t then bit b k else bit l k)"
  using assms by (auto simp: bit_or_iff bit_drop_bit_eq bit_push_bit_iff)

lemma write_buffer_field_bit:
  assumes "0 < bit_length field"
  shows "mbit (backing (uacpi_write_buffer_field field src sz)) p \<longleftrightarrow>
    (if bit_index field \<le> p \<and> p < bit_index field + bit_length field
     then p - bit_index field < 8 * sz \<and> mbit src (p - bit_index field)
     else mbit (backing field) p)"
proof (cases "bit_index field mod 8 = 0")
  case False
  then show ?thesis
    by (auto simp: uacpi_write_buffer_field_def do_write_misaligned_buffer_field_def bit_copy_bit mult.commute)
next
  case True
  define n where "n = bit_length field"
  define c where "c = uacpi_round_up_bits_to_bytes n"
  define d where "d = bit_index field div 8"
  define m where "m = uacpi_memcpy_zerout (backing field) d src c sz"
  note b = count_bounds [OF assms, folded n_def c_def]
  obtain a k where p: "p = 8 * a + k" "k < 8" by (metis mult_div_mod_eq mod_less_divisor zero_less_numeral)
  have i: "bit_index field = 8 * d" using True by (simp add: d_def) presburger
  have byte: "m a = (if d \<le> a \<and> a < d + c then if a - d < sz then src (a - d) else 0 else backing field a)"
    by (simp add: m_def memcpy_zerout_byte)
  have w: "backing (uacpi_write_buffer_field field src sz) a =
      (if n mod 8 \<noteq> 0 \<and> a = d + (c - 1)
       then drop_bit (8 - n mod 8) (push_bit (8 - n mod 8) (m a)) OR push_bit (n mod 8) (drop_bit (n mod 8) (backing field a))
       else m a)"
    using True by (simp add: uacpi_write_buffer_field_def n_def c_def d_def m_def Let_def)
  have src: "mbit src (p - bit_index field) = bit (src (a - d)) k" "p - bit_index field < 8 * sz \<longleftrightarrow> a - d < sz" if "d \<le> a"
  proof -
    have "p - bit_index field = 8 * (a - d) + k" using that p(1) i by simp
    then show "mbit src (p - bit_index field) = bit (src (a - d)) k" "p - bit_index field < 8 * sz \<longleftrightarrow> a - d < sz"
      using mbit_at [OF p(2), of src "a - d"] p(2) by auto
  qed
  have low: "bit_index field \<le> p \<longleftrightarrow> d \<le> a" using p i by auto
  have at: "mbit (backing (uacpi_write_buffer_field field src sz)) p = bit (backing (uacpi_write_buffer_field field src sz) a) k"
    "mbit (backing field) p = bit (backing field a) k"
    using p by (simp_all add: mbit_at)
  show ?thesis
  proof (cases "n mod 8 \<noteq> 0 \<and> a = d + (c - 1)")
    case tail: True
    have da: "d \<le> a" "a < d + c" using tail b(3) by simp_all
    have "p < bit_index field + n \<longleftrightarrow> k < n mod 8" using tail b(4) i p(1) by linarith
    moreover have "bit (backing (uacpi_write_buffer_field field src sz) a) k = (if k < n mod 8 then bit (m a) k else bit (backing field a) k)"
      unfolding w if_P [OF tail] by (rule tail_bit) (use tail p(2) in simp_all)
    ultimately show ?thesis unfolding at low n_def [symmetric] using src [OF da(1)] byte da by simp
  next
    case False
    have "p < bit_index field + n \<longleftrightarrow> a < d + c" if "d \<le> a"
    proof (cases "n mod 8 = 0")
      case True
      then show ?thesis using b(5) i p by linarith
    next
      case rest: False
      then have "a \<noteq> d + (c - 1)" using False by simp
      then show ?thesis using b(3) b(4) [OF rest] i p by linarith
    qed
    then show ?thesis unfolding at low n_def [symmetric] w if_not_P [OF False] byte using src by auto
  qed
qed

section \<open>Properties\<close>

text \<open>
  \<open>bit_copy\<close> copies bits. For spans at any bit position and of any length, bit \<open>i\<close> of the destination span becomes bit \<open>i\<close> of the source
  span, or zero behind its end, and every bit outside of the destination span is unchanged. The loop ends. In particular the copy depends on no bit
  outside of the source span.
\<close>

theorem bit_copy_copies:
  "mbit (bit_copy dst src) p \<longleftrightarrow>
    (if span_index dst \<le> p \<and> p < span_index dst + span_length dst
     then p - span_index dst < span_length src \<and> mbit (span_data src) (span_index src + (p - span_index dst))
     else mbit (span_data dst) p)"
  by (rule bit_copy_bit)

text \<open>
  C32: A field of a buffer holds what was written to it, whether it starts at a byte boundary or not. A write changes exactly the bits of the field; a read
  afterwards yields the bits that were written, with zeros where the source was shorter than the field and in the rest of the last byte, and
  does not touch the memory behind the result.
\<close>

theorem buffer_field_roundtrip:
  assumes "0 < bit_length field"
  shows "(\<forall>p. mbit (uacpi_read_buffer_field (uacpi_write_buffer_field field src sz) dst) p \<longleftrightarrow>
      (if p < 8 * uacpi_round_up_bits_to_bytes (bit_length field) then p < bit_length field \<and> p < 8 * sz \<and> mbit src p else mbit dst p)) \<and>
    (\<forall>q. q < bit_index field \<or> bit_index field + bit_length field \<le> q \<longrightarrow>
      mbit (backing (uacpi_write_buffer_field field src sz)) q = mbit (backing field) q)"
proof -
  have k: "bit_length (uacpi_write_buffer_field field src sz) = bit_length field" "bit_index (uacpi_write_buffer_field field src sz) = bit_index field"
    by (simp_all add: uacpi_write_buffer_field_def do_write_misaligned_buffer_field_def Let_def)
  show ?thesis using assms by (auto simp: read_buffer_field_bit k write_buffer_field_bit)
qed

theorem buffer_field_roundtrip_witness:
  "uacpi_read_buffer_field (uacpi_write_buffer_field \<lparr>backing = \<lambda>_. 0xFF, bit_index = 3, bit_length = 12, force_buffer = False\<rparr>
     (\<lambda>i. if i = 0 then 0x5A else 0x0C) 2) (\<lambda>_. 0) = (\<lambda>i. if i = 0 then 0x5A else if i = 1 then 0x0C else 0)"
proof (rule mbit_eqI)
  fix p
  let ?f = "\<lparr>backing = \<lambda>_. 0xFF, bit_index = 3, bit_length = 12, force_buffer = False\<rparr>"
  have c: "uacpi_round_up_bits_to_bytes 12 = 2" by (simp add: uacpi_round_up_bits_to_bytes_def)
  have r: "mbit (uacpi_read_buffer_field (uacpi_write_buffer_field ?f (\<lambda>i. if i = 0 then 0x5A else 0x0C) 2) (\<lambda>_. 0)) p \<longleftrightarrow>
      p < 12 \<and> mbit (\<lambda>i. if i = 0 then 0x5A else 0x0C) p"
    using buffer_field_roundtrip [of ?f "\<lambda>i. if i = 0 then 0x5A else 0x0C" 2 "\<lambda>_. 0"] by (auto simp: c mbit_def)
  have "\<not> bit (0x0C :: u8) (p mod 8)" if "12 \<le> p" "p < 16"
  proof -
    have "p \<in> {12, 13, 14, 15}" using that by auto
    then show ?thesis by auto
  qed
  moreover have "p div 8 \<noteq> 0" "p div 8 = 1 \<longleftrightarrow> p < 16" if "8 \<le> p" using that by auto
  ultimately show "mbit (uacpi_read_buffer_field (uacpi_write_buffer_field ?f (\<lambda>i. if i = 0 then 0x5A else 0x0C) 2) (\<lambda>_. 0)) p =
      mbit (\<lambda>i. if i = 0 then 0x5A else if i = 1 then 0x0C else 0) p"
    unfolding r by (cases "p < 8"; cases "p < 12"; cases "p < 16") (auto simp: mbit_def)
qed

end
