(* ===== verification/Kernel_Api.thy ===== *)
theory Kernel_Api
  imports Uacpi_Status "HOL-Library.Monad_Syntax"
begin

text \<open>
  What the ACPI library asks of the kernel that hosts it (\<open>uacpi/kernel_api.h\<close>): a record of functions over the host's state, the parameter of
  all theories about the library. The volatile accesses to memory, which are the machine's, are two more functions of it.

  A handle or a virtual address is a number. \<open>None\<close> is undefined behaviour in the host, or a call of it that does not return. The kernel's own functions
  are those of the theory \<open>Acpi_Host\<close>.
\<close>

record 's kernel_api =
  k_map :: "u64 \<Rightarrow> nat \<Rightarrow> 's \<Rightarrow> (nat \<times> 's) option"
  k_unmap :: "nat \<Rightarrow> nat \<Rightarrow> 's \<Rightarrow> 's option"
  k_io_map :: "u64 \<Rightarrow> nat \<Rightarrow> 's \<Rightarrow> (uacpi_status \<times> nat \<times> 's) option"
  k_io_unmap :: "nat \<Rightarrow> 's \<Rightarrow> 's option"
  k_io_read8 :: "nat \<Rightarrow> nat \<Rightarrow> 's \<Rightarrow> (uacpi_status \<times> u8 \<times> 's) option"
  k_io_read16 :: "nat \<Rightarrow> nat \<Rightarrow> 's \<Rightarrow> (uacpi_status \<times> u16 \<times> 's) option"
  k_io_read32 :: "nat \<Rightarrow> nat \<Rightarrow> 's \<Rightarrow> (uacpi_status \<times> u32 \<times> 's) option"
  k_io_write8 :: "nat \<Rightarrow> nat \<Rightarrow> u8 \<Rightarrow> 's \<Rightarrow> (uacpi_status \<times> 's) option"
  k_io_write16 :: "nat \<Rightarrow> nat \<Rightarrow> u16 \<Rightarrow> 's \<Rightarrow> (uacpi_status \<times> 's) option"
  k_io_write32 :: "nat \<Rightarrow> nat \<Rightarrow> u32 \<Rightarrow> 's \<Rightarrow> (uacpi_status \<times> 's) option"
  k_create_mutex :: "'s \<Rightarrow> (nat \<times> 's) option"
  k_free_mutex :: "nat \<Rightarrow> 's \<Rightarrow> 's option"
  k_acquire_mutex :: "nat \<Rightarrow> u16 \<Rightarrow> 's \<Rightarrow> (uacpi_status \<times> 's) option"
  k_release_mutex :: "nat \<Rightarrow> 's \<Rightarrow> 's option"
  k_create_spinlock :: "'s \<Rightarrow> (nat \<times> 's) option"
  k_free_spinlock :: "nat \<Rightarrow> 's \<Rightarrow> 's option"
  k_lock_spinlock :: "nat \<Rightarrow> 's \<Rightarrow> (u64 \<times> 's) option"
  k_unlock_spinlock :: "nat \<Rightarrow> u64 \<Rightarrow> 's \<Rightarrow> 's option"
  k_wait_for_event :: "nat \<Rightarrow> u16 \<Rightarrow> 's \<Rightarrow> (bool \<times> 's) option"
  bus_read :: "nat \<Rightarrow> nat \<Rightarrow> 's \<Rightarrow> (u64 \<times> 's) option"
  bus_write :: "nat \<Rightarrow> nat \<Rightarrow> u64 \<Rightarrow> 's \<Rightarrow> 's option"

text \<open>A host that has nothing to map, whose locks are free and whose events never come: the base of the hosts in the witnesses.\<close>

definition idle_host :: "'s kernel_api" where
  "idle_host = \<lparr>k_map = \<lambda>addr len s. Some (0, s), k_unmap = \<lambda>p len s. None,
     k_io_map = \<lambda>base len s. Some (UACPI_STATUS_UNIMPLEMENTED, 0, s), k_io_unmap = \<lambda>h s. None,
     k_io_read8 = \<lambda>h off s. None, k_io_read16 = \<lambda>h off s. None, k_io_read32 = \<lambda>h off s. None,
     k_io_write8 = \<lambda>h off v s. None, k_io_write16 = \<lambda>h off v s. None, k_io_write32 = \<lambda>h off v s. None,
     k_create_mutex = \<lambda>s. Some (1, s), k_free_mutex = \<lambda>m s. Some s,
     k_acquire_mutex = \<lambda>m t s. Some (UACPI_STATUS_OK, s), k_release_mutex = \<lambda>m s. Some s,
     k_create_spinlock = \<lambda>s. Some (1, s), k_free_spinlock = \<lambda>l s. Some s,
     k_lock_spinlock = \<lambda>l s. Some (0, s), k_unlock_spinlock = \<lambda>l f s. Some s,
     k_wait_for_event = \<lambda>e t s. Some (False, s),
     bus_read = \<lambda>w a s. None, bus_write = \<lambda>w a v s. None\<rparr>"

end
