(* ===== verification/Uacpi_Gas.thy ===== *)
theory Uacpi_Gas
  imports Uacpi_Bits Kernel_Api
begin

text \<open>
  Generic address structures: the second half of \<open>extra/uacpi/io.c\<close>, which reads and writes registers that firmware describes by an address space, an
  address and a width.

  The host is the parameter of the theory \<open>Kernel_Api\<close>.
\<close>

section \<open>Accesses of one width\<close>

text \<open>
  A read function takes handle, offset, width in bytes and the old value of its out parameter, which it leaves alone when it fails.
\<close>

type_synonym 's read_fn = "nat \<Rightarrow> nat \<Rightarrow> nat \<Rightarrow> u64 \<Rightarrow> 's \<Rightarrow> (uacpi_status \<times> u64 \<times> 's) option"
type_synonym 's write_fn = "nat \<Rightarrow> nat \<Rightarrow> nat \<Rightarrow> u64 \<Rightarrow> 's \<Rightarrow> (uacpi_status \<times> 's) option"

definition uacpi_system_memory_read :: "'s kernel_api \<Rightarrow> 's read_fn" where
  "uacpi_system_memory_read api ptr offset width out s =
     (let ptr = add64 ptr offset in
      if width = 1 then do { (v, s) \<leftarrow> bus_read api 1 ptr s; Some (UACPI_STATUS_OK, ucast (ucast v :: u8), s) }
      else if width = 2 then do { (v, s) \<leftarrow> bus_read api 2 ptr s; Some (UACPI_STATUS_OK, ucast (ucast v :: u16), s) }
      else if width = 4 then do { (v, s) \<leftarrow> bus_read api 4 ptr s; Some (UACPI_STATUS_OK, ucast (ucast v :: u32), s) }
      else if width = 8 then do { (v, s) \<leftarrow> bus_read api 8 ptr s; Some (UACPI_STATUS_OK, v, s) }
      else Some (UACPI_STATUS_INVALID_ARGUMENT, out, s))"

definition uacpi_system_memory_write :: "'s kernel_api \<Rightarrow> 's write_fn" where
  "uacpi_system_memory_write api ptr offset width val s =
     (let ptr = add64 ptr offset in
      if width = 1 then do { s \<leftarrow> bus_write api 1 ptr (ucast (ucast val :: u8)) s; Some (UACPI_STATUS_OK, s) }
      else if width = 2 then do { s \<leftarrow> bus_write api 2 ptr (ucast (ucast val :: u16)) s; Some (UACPI_STATUS_OK, s) }
      else if width = 4 then do { s \<leftarrow> bus_write api 4 ptr (ucast (ucast val :: u32)) s; Some (UACPI_STATUS_OK, s) }
      else if width = 8 then do { s \<leftarrow> bus_write api 8 ptr val s; Some (UACPI_STATUS_OK, s) }
      else Some (UACPI_STATUS_INVALID_ARGUMENT, s))"

definition uacpi_system_io_read :: "'s kernel_api \<Rightarrow> 's read_fn" where
  "uacpi_system_io_read api handle offset width out s =
     (if width = 1 then do { (ret, v, s) \<leftarrow> k_io_read8 api handle offset s; Some (ret, if \<not> error ret then ucast v else out, s) }
      else if width = 2 then do { (ret, v, s) \<leftarrow> k_io_read16 api handle offset s; Some (ret, if \<not> error ret then ucast v else out, s) }
      else if width = 4 then do { (ret, v, s) \<leftarrow> k_io_read32 api handle offset s; Some (ret, if \<not> error ret then ucast v else out, s) }
      else Some (UACPI_STATUS_INVALID_ARGUMENT, out, s))"

definition uacpi_system_io_write :: "'s kernel_api \<Rightarrow> 's write_fn" where
  "uacpi_system_io_write api handle offset width val s =
     (if width = 1 then k_io_write8 api handle offset (ucast val) s
      else if width = 2 then k_io_write16 api handle offset (ucast val) s
      else if width = 4 then k_io_write32 api handle offset (ucast val) s
      else Some (UACPI_STATUS_INVALID_ARGUMENT, s))"

section \<open>Address structures\<close>

record acpi_gas =
  address_space_id :: u8
  register_bit_width :: u8
  register_bit_offset :: u8
  access_size :: u8
  address :: u64

record 's mapped_gas =
  mapping :: nat
  access_bit_width :: nat
  total_bit_width :: nat
  bit_offset :: nat
  g_read :: "'s read_fn"
  g_write :: "'s write_fn"
  g_unmap :: "nat \<Rightarrow> nat \<Rightarrow> 's \<Rightarrow> 's option"

definition UACPI_ADDRESS_SPACE_SYSTEM_MEMORY :: u8 where "UACPI_ADDRESS_SPACE_SYSTEM_MEMORY = 0"
definition UACPI_ADDRESS_SPACE_SYSTEM_IO :: u8 where "UACPI_ADDRESS_SPACE_SYSTEM_IO = 1"

definition is_aligned :: "'a::len word \<Rightarrow> 'a word \<Rightarrow> bool" where
  "is_aligned x val \<longleftrightarrow> x AND (val - 1) = 0"

definition align_up :: "'a::len word \<Rightarrow> 'a word \<Rightarrow> 'a word" where
  "align_up x val = (x + (val - 1)) AND NOT (val - 1)"

definition is_power_of_two :: "'a::len word \<Rightarrow> bool" where
  "is_power_of_two x \<longleftrightarrow> is_aligned x x"

text \<open>One more than the number of the highest set bit.\<close>

definition uacpi_bit_scan_backward :: "u64 \<Rightarrow> nat" where
  "uacpi_bit_scan_backward value = for_up 0 64 (\<lambda>i n. if bit value i then Suc i else n) 0"

text \<open>\<^verbatim>\<open>while (!UACPI_IS_ALIGNED(gas->address, access_bit_width / 8, uacpi_u64)) access_bit_width /= 2\<close>.\<close>

partial_function (option) back_off :: "u64 \<Rightarrow> u8 \<Rightarrow> u8 option" where
  "back_off addr w = (if \<not> is_aligned addr (ucast (w div 8)) then back_off addr (w div 2) else Some w)"

text \<open>The shift of the \<open>int\<close> 1 is undefined from 31 on, which is None; the branch is never taken (\<open>scan_small\<close>).\<close>

definition gas_get_access_bit_width :: "acpi_gas \<Rightarrow> u8 option" where
  "gas_get_access_bit_width gas = do {
     w \<leftarrow> (if register_bit_offset gas = 0 \<and> is_power_of_two (register_bit_width gas) \<and> is_aligned (register_bit_width gas) 8
           then Some (register_bit_width gas)
           else if access_size gas \<noteq> 0 then Some (access_size gas * 8)
           else let msb = uacpi_bit_scan_backward (of_int (uint (register_bit_offset gas) + uint (register_bit_width gas) - 1))
                in if 31 \<le> msb then None else let w = of_nat (2 ^ msb)
                in if w \<le> 8 then Some 8 else back_off (address gas) w);
     Some (min w (if address_space_id gas = UACPI_ADDRESS_SPACE_SYSTEM_IO then 32 else 64))
   }"

text \<open>The structure is given as an option, for the null pointer. The results are the access width and the total width.\<close>

definition gas_validate :: "acpi_gas option \<Rightarrow> (uacpi_status \<times> u8 \<times> u8) option" where
  "gas_validate g =
     (case g of None \<Rightarrow> Some (UACPI_STATUS_INVALID_ARGUMENT, 0, 0)
      | Some gas \<Rightarrow>
          if address gas = 0 then Some (UACPI_STATUS_NOT_FOUND, 0, 0)
          else if address_space_id gas \<noteq> UACPI_ADDRESS_SPACE_SYSTEM_IO \<and> address_space_id gas \<noteq> UACPI_ADDRESS_SPACE_SYSTEM_MEMORY
          then Some (UACPI_STATUS_UNIMPLEMENTED, 0, 0)
          else if access_size gas > 4 then Some (UACPI_STATUS_UNIMPLEMENTED, 0, 0)
          else do {
            w \<leftarrow> gas_get_access_bit_width gas;
            let total_width = (ucast (register_bit_offset gas) + ucast (register_bit_width gas) :: u64);
            let aligned_width = align_up total_width (ucast w);
            if aligned_width > 64 then Some (UACPI_STATUS_UNIMPLEMENTED, w, 0)
            else Some (UACPI_STATUS_OK, w, ucast total_width)
          })"

text \<open>The mask for the values of one access.\<close>

definition gas_mask :: "'s mapped_gas \<Rightarrow> u64" where
  "gas_mask gas = (if access_bit_width gas div 8 < 8 then NOT (push_bit (access_bit_width gas) 0xFFFFFFFFFFFFFFFF) else 0xFFFFFFFFFFFFFFFF)"

partial_function (option) gas_read_loop ::
    "'s mapped_gas \<Rightarrow> nat \<Rightarrow> nat \<Rightarrow> nat \<Rightarrow> nat \<Rightarrow> u64 \<Rightarrow> u64 \<Rightarrow> 's \<Rightarrow> (uacpi_status \<times> u64 \<times> 's) option" where
  "gas_read_loop gas boff bits_left index offset data out s =
     (if bits_left = 0 then Some (UACPI_STATUS_OK, out, s)
      else do {
        (ret, data, boff, s) \<leftarrow>
          (if boff \<ge> access_bit_width gas then Some (UACPI_STATUS_OK, 0, boff - access_bit_width gas, s)
           else do {
             (ret, data, s) \<leftarrow> g_read gas (mapping gas) offset (access_bit_width gas div 8) data s;
             Some (ret, data, boff, s)
           });
        if error ret then Some (ret, out, s)
        else gas_read_loop gas boff (bits_left - min bits_left (access_bit_width gas)) (index + 1) (offset + access_bit_width gas div 8)
               data (out OR push_bit (index * access_bit_width gas) (data AND gas_mask gas)) s
      })"

definition uacpi_gas_read_mapped :: "'s mapped_gas \<Rightarrow> 's \<Rightarrow> (uacpi_status \<times> u64 \<times> 's) option" where
  "uacpi_gas_read_mapped gas s = gas_read_loop gas (bit_offset gas) (total_bit_width gas) 0 0 0 0 s"

partial_function (option) gas_write_loop ::
    "'s mapped_gas \<Rightarrow> u64 \<Rightarrow> nat \<Rightarrow> nat \<Rightarrow> nat \<Rightarrow> nat \<Rightarrow> 's \<Rightarrow> (uacpi_status \<times> 's) option" where
  "gas_write_loop gas in_value boff bits_left index offset s =
     (if bits_left = 0 then Some (UACPI_STATUS_OK, s)
      else do {
        let data = drop_bit (index * access_bit_width gas) in_value AND gas_mask gas;
        (ret, boff, s) \<leftarrow>
          (if boff \<ge> access_bit_width gas then Some (UACPI_STATUS_OK, boff - access_bit_width gas, s)
           else do {
             (ret, s) \<leftarrow> g_write gas (mapping gas) offset (access_bit_width gas div 8) data s;
             Some (ret, boff, s)
           });
        if error ret then Some (ret, s)
        else gas_write_loop gas in_value boff (bits_left - min bits_left (access_bit_width gas)) (index + 1)
               (offset + access_bit_width gas div 8) s
      })"

definition uacpi_gas_write_mapped :: "'s mapped_gas \<Rightarrow> u64 \<Rightarrow> 's \<Rightarrow> (uacpi_status \<times> 's) option" where
  "uacpi_gas_write_mapped gas in_value s = gas_write_loop gas in_value (bit_offset gas) (total_bit_width gas) 0 0 s"

definition unmap_gas_io :: "'s kernel_api \<Rightarrow> nat \<Rightarrow> nat \<Rightarrow> 's \<Rightarrow> 's option" where
  "unmap_gas_io api io_handle sz s = k_io_unmap api io_handle s"

text \<open>The structure that \<open>out_mapped\<close> points to is an argument, too: a failure leaves it as it was or with a new handle only.\<close>

definition uacpi_map_gas_noalloc ::
    "'s kernel_api \<Rightarrow> acpi_gas option \<Rightarrow> 's mapped_gas \<Rightarrow> 's \<Rightarrow> (uacpi_status \<times> 's mapped_gas \<times> 's) option" where
  "uacpi_map_gas_noalloc api g out s = do {
     (ret, w, total_width) \<leftarrow> gas_validate g;
     if error ret then Some (ret, out, s)
     else do {
       gas \<leftarrow> g;
       if address_space_id gas = UACPI_ADDRESS_SPACE_SYSTEM_MEMORY then do {
         (p, s) \<leftarrow> k_map api (address gas) (unat total_width div 8) s;
         let out = out\<lparr>mapping := p\<rparr>;
         if p = 0 then Some (UACPI_STATUS_MAPPING_FAILED, out, s)
         else Some (UACPI_STATUS_OK, out\<lparr>g_read := uacpi_system_memory_read api, g_write := uacpi_system_memory_write api, g_unmap := k_unmap api,
                access_bit_width := unat w, total_bit_width := unat total_width, bit_offset := unat (register_bit_offset gas)\<rparr>, s)
       } else do {
         (ret, h, s) \<leftarrow> k_io_map api (address gas) (unat total_width div 8) s;
         let out = out\<lparr>mapping := h\<rparr>;
         if error ret then Some (ret, out, s)
         else Some (UACPI_STATUS_OK, out\<lparr>g_read := uacpi_system_io_read api, g_write := uacpi_system_io_write api, g_unmap := unmap_gas_io api,
                access_bit_width := unat w, total_bit_width := unat total_width, bit_offset := unat (register_bit_offset gas)\<rparr>, s)
       }
     }
   }"

definition uacpi_unmap_gas_nofree :: "'s mapped_gas \<Rightarrow> 's \<Rightarrow> 's option" where
  "uacpi_unmap_gas_nofree gas s = g_unmap gas (mapping gas) (access_bit_width gas div 8) s"

text \<open>A structure on the stack that nothing was written to yet.\<close>

definition fresh_gas :: "'s mapped_gas" where
  "fresh_gas = \<lparr>mapping = 0, access_bit_width = 0, total_bit_width = 0, bit_offset = 0,
     g_read = \<lambda>_ _ _ _ _. None, g_write = \<lambda>_ _ _ _ _. None, g_unmap = \<lambda>_ _ _. None\<rparr>"

definition uacpi_gas_read :: "'s kernel_api \<Rightarrow> acpi_gas option \<Rightarrow> u64 \<Rightarrow> 's \<Rightarrow> (uacpi_status \<times> u64 \<times> 's) option" where
  "uacpi_gas_read api g out s = do {
     (ret, m, s) \<leftarrow> uacpi_map_gas_noalloc api g fresh_gas s;
     if error ret then Some (ret, out, s)
     else do {
       (ret, out, s) \<leftarrow> uacpi_gas_read_mapped m s;
       s \<leftarrow> uacpi_unmap_gas_nofree m s;
       Some (ret, out, s)
     }
   }"

definition uacpi_gas_write :: "'s kernel_api \<Rightarrow> acpi_gas option \<Rightarrow> u64 \<Rightarrow> 's \<Rightarrow> (uacpi_status \<times> 's) option" where
  "uacpi_gas_write api g in_value s = do {
     (ret, m, s) \<leftarrow> uacpi_map_gas_noalloc api g fresh_gas s;
     if error ret then Some (ret, s)
     else do {
       (ret, s) \<leftarrow> uacpi_gas_write_mapped m in_value s;
       s \<leftarrow> uacpi_unmap_gas_nofree m s;
       Some (ret, s)
     }
   }"


section \<open>Words in memory\<close>

text \<open>The little-endian number in \<open>w\<close> bytes, and its replacement.\<close>

fun word_at :: "bytes \<Rightarrow> nat \<Rightarrow> nat \<Rightarrow> u64" where
  "word_at m off 0 = 0"
| "word_at m off (Suc w) = ucast (m off) OR push_bit 8 (word_at m (off + 1) w)"

definition put_word :: "bytes \<Rightarrow> nat \<Rightarrow> nat \<Rightarrow> u64 \<Rightarrow> bytes" where
  "put_word m off w v = (\<lambda>a. if off \<le> a \<and> a < off + w then ucast (drop_bit (8 * (a - off)) v) else m a)"

lemma word_at_bit: "w \<le> 8 \<Longrightarrow> bit (word_at m off w) p \<longleftrightarrow> p < 8 * w \<and> mbit m (8 * off + p)"
proof (induction w arbitrary: off p)
  case 0
  then show ?case by simp
next
  case (Suc w)
  show ?case
  proof (cases "p < 8")
    case True
    then show ?thesis by (simp add: bit_or_iff bit_ucast_iff bit_push_bit_iff mbit_at)
  next
    case False
    then have "8 * (off + 1) + (p - 8) = 8 * off + p" by simp
    then show ?thesis using False Suc.IH [of "off + 1" "p - 8"] Suc.prems
      by (auto simp: bit_or_iff bit_ucast_iff bit_push_bit_iff dest: bit_imp_le_length)
  qed
qed

lemma put_word_bit: "mbit (put_word m off w v) p \<longleftrightarrow> (if 8 * off \<le> p \<and> p < 8 * (off + w) then bit v (p - 8 * off) else mbit m p)"
proof -
  obtain a k where p: "p = 8 * a + k" "k < 8" by (metis mult_div_mod_eq mod_less_divisor zero_less_numeral)
  have "off \<le> a \<longleftrightarrow> 8 * off \<le> p" "a < off + w \<longleftrightarrow> p < 8 * (off + w)" using p by auto
  moreover have "8 * (a - off) + k = p - 8 * off" if "off \<le> a" using that p by simp
  ultimately show ?thesis using p by (auto simp: mbit_at put_word_def bit_ucast_iff bit_drop_bit_eq)
qed

text \<open>The number of accesses of \<open>w\<close> bytes for a width in bits, and those that remain after one.\<close>

definition accesses :: "nat \<Rightarrow> nat \<Rightarrow> nat" where
  "accesses n w = (n + (8 * w - 1)) div (8 * w)"

lemma chunks_left:
  assumes "0 < w" "Suc n = (left + (8 * w - 1)) div (8 * w)"
  shows "n = (left - min left (8 * w) + (8 * w - 1)) div (8 * w)"
proof (cases "8 * w \<le> left")
  case True
  then have "left + (8 * w - 1) = (left - 8 * w + (8 * w - 1)) + 8 * w" by simp
  then have "Suc n = Suc ((left - 8 * w + (8 * w - 1)) div (8 * w))" using assms by (simp only: div_add_self2)
  then show ?thesis using True by simp
next
  case False
  then have "left + (8 * w - 1) < 2 * (8 * w)" by simp
  then have "Suc n < 2" using assms by (simp add: less_mult_imp_div_less)
  then show ?thesis using False assms(1) by simp
qed

section \<open>Registers that behave like memory\<close>

text \<open>
  The contract between \<open>uacpi_gas_read_mapped\<close> and its like and the access functions of a space: in every good state an access of a supported
  width inside of the register succeeds, and the content is a run of bytes.
\<close>

locale register_space =
  fixes rd :: "nat \<Rightarrow> nat \<Rightarrow> u64 \<Rightarrow> 's \<Rightarrow> (uacpi_status \<times> u64 \<times> 's) option"
    and wr :: "nat \<Rightarrow> nat \<Rightarrow> u64 \<Rightarrow> 's \<Rightarrow> (uacpi_status \<times> 's) option"
    and content :: "'s \<Rightarrow> bytes"
    and good :: "'s \<Rightarrow> bool"
    and widths :: "nat set"
    and size_of :: nat
  assumes rd_ok: "good s \<Longrightarrow> w \<in> widths \<Longrightarrow> off + w \<le> size_of \<Longrightarrow>
      \<exists>s'. rd off w d s = Some (UACPI_STATUS_OK, word_at (content s) off w, s') \<and> good s' \<and> content s' = content s"
    and wr_ok: "good s \<Longrightarrow> w \<in> widths \<Longrightarrow> off + w \<le> size_of \<Longrightarrow>
      \<exists>s'. wr off w v s = Some (UACPI_STATUS_OK, s') \<and> good s' \<and> content s' = put_word (content s) off w v"
    and widths: "widths \<subseteq> {1, 2, 4, 8}"
begin

text \<open>A mapped structure over this space, from the access with number \<open>i\<close> on.\<close>

definition over :: "'s mapped_gas \<Rightarrow> nat \<Rightarrow> bool" where
  "over g w \<longleftrightarrow> g_read g (mapping g) = rd \<and> g_write g (mapping g) = wr \<and> w \<in> widths \<and> access_bit_width g = 8 * w"

lemma mask_bit_gas: "over g w \<Longrightarrow> bit (gas_mask g) p \<longleftrightarrow> p < 64 \<and> p < 8 * w"
proof -
  assume o: "over g w"
  have ones: "(0xFFFFFFFFFFFFFFFF :: u64) = mask 64" by (simp add: mask_eq_exp_minus_1)
  have "w \<in> {1, 2, 4, 8}" using o widths by (auto simp: over_def)
  then show ?thesis using o unfolding over_def gas_mask_def ones
    by (auto simp: bit_not_iff bit_push_bit_iff bit_mask_iff)
qed

lemma over_width: "over g w \<Longrightarrow> 0 < w \<and> w \<le> 8"
  using widths by (auto simp: over_def)

lemma chunk_bit:
  assumes "over g w" "b + 8 * w \<le> 64"
  shows "bit (push_bit b (word_at c off w AND gas_mask g)) p \<longleftrightarrow> b \<le> p \<and> p < b + 8 * w \<and> mbit c (8 * off + (p - b))"
proof (cases "b \<le> p \<and> p < b + 8 * w")
  case True
  then have "p - b < 8 * w" "p - b < 64" using assms(2) by linarith+
  then show ?thesis using True assms over_width [OF assms(1)] by (simp add: bit_push_bit_iff bit_and_iff word_at_bit mask_bit_gas del: push_bit_and)
next
  case False
  then have "p < b \<or> 64 \<le> p \<or> \<not> p - b < 8 * w" using assms(2) by linarith
  then show ?thesis using False over_width [OF assms(1)] by (auto simp: bit_push_bit_iff bit_and_iff word_at_bit simp del: push_bit_and)
qed

lemma read_loop_ok:
  assumes "over g w" "good s" "n = (bits_left + (8 * w - 1)) div (8 * w)" "8 * w * (index + n) \<le> 64" "w * (index + n) \<le> size_of"
  shows "\<exists>v s'. gas_read_loop g boff bits_left index (w * index) d out s = Some (UACPI_STATUS_OK, v, s') \<and> good s' \<and> content s' = content s \<and>
    (\<forall>p. bit v p \<longleftrightarrow> bit out p \<or> 8 * w * (index + boff div (8 * w)) \<le> p \<and> p < 8 * w * (index + n) \<and> mbit (content s) p)"
  using assms(2-)
proof (induction n arbitrary: boff bits_left index d out s)
  case 0
  then have "bits_left = 0" using over_width [OF assms(1)] by (simp add: div_eq_0_iff)
  moreover have "\<not> (8 * w * (index + boff div (8 * w)) \<le> p \<and> p < 8 * w * (index + 0))" for p
    using mult_le_mono2 [OF le_add1, of "8 * w" index "boff div (8 * w)"] by (simp only: add_0_right not_le [symmetric]) (meson le_trans)
  ultimately show ?case using 0 by (subst gas_read_loop.simps) auto
next
  case (Suc n)
  note w = over_width [OF assms(1)] and ab = assms(1) [unfolded over_def]
  have left: "bits_left \<noteq> 0" using Suc.prems(2) w by (intro notI) simp
  note n = chunks_left [OF w [THEN conjunct1] Suc.prems(2)]
  have room: "8 * w * (Suc index + n) \<le> 64" "w * (Suc index + n) \<le> size_of" using Suc.prems(3,4) by simp_all
  have off: "w * index + w = w * Suc index" by simp
  show ?case
  proof (cases "8 * w \<le> boff")
    case True
    obtain v s' where r: "gas_read_loop g (boff - 8 * w) (bits_left - min bits_left (8 * w)) (Suc index) (w * Suc index) 0
        (out OR push_bit (index * (8 * w)) (0 AND gas_mask g)) s = Some (UACPI_STATUS_OK, v, s')"
      "good s'" "content s' = content s"
      "\<forall>p. bit v p \<longleftrightarrow> bit (out OR push_bit (index * (8 * w)) (0 AND gas_mask g)) p \<or>
         8 * w * (Suc index + (boff - 8 * w) div (8 * w)) \<le> p \<and> p < 8 * w * (Suc index + n) \<and> mbit (content s) p"
      using Suc.IH [OF Suc.prems(1) n room, of "boff - 8 * w" 0 "out OR push_bit (index * (8 * w)) (0 AND gas_mask g)"] by blast
    have e: "Suc index + (boff - 8 * w) div (8 * w) = index + boff div (8 * w)" "Suc index + n = index + Suc n"
      using True w div_add_self2 [of "8 * w" "boff - 8 * w"] by simp_all
    have "gas_read_loop g boff bits_left index (w * index) d out s = Some (UACPI_STATUS_OK, v, s')"
      using r(1) ab left True by (subst gas_read_loop.simps) (simp add: off)
    then show ?thesis using r(2,3) r(4) [unfolded e] by auto
  next
    case False
    obtain s1 where rd: "rd (w * index) w d s = Some (UACPI_STATUS_OK, word_at (content s) (w * index) w, s1)" "good s1" "content s1 = content s"
      using rd_ok [OF Suc.prems(1), of w "w * index" d] ab room(2) by (auto simp: distrib_left)
    let ?out = "out OR push_bit (index * (8 * w)) (word_at (content s) (w * index) w AND gas_mask g)"
    obtain v s' where r: "gas_read_loop g boff (bits_left - min bits_left (8 * w)) (Suc index) (w * Suc index) (word_at (content s) (w * index) w) ?out s1
        = Some (UACPI_STATUS_OK, v, s')" "good s'" "content s' = content s"
      "\<forall>p. bit v p \<longleftrightarrow> bit ?out p \<or>
         8 * w * (Suc index + boff div (8 * w)) \<le> p \<and> p < 8 * w * (Suc index + n) \<and> mbit (content s) p"
      using Suc.IH [OF rd(2) n room, of boff "word_at (content s) (w * index) w" ?out] unfolding rd(3) by blast
    define b where "b = 8 * w * index"
    have b: "index * (8 * w) = b" "8 * (w * index) = b" "8 * w * (Suc index + boff div (8 * w)) = b + 8 * w" "8 * w * (index + boff div (8 * w)) = b"
      using False w by (simp_all add: b_def distrib_left)
    have le: "b + 8 * w \<le> 8 * w * (Suc index + n)" by (simp add: b_def distrib_left)
    then have "b + 8 * w \<le> 64" using room(1) by simp
    then have ob: "bit ?out p \<longleftrightarrow> bit out p \<or> b \<le> p \<and> p < b + 8 * w \<and> mbit (content s) p" for p
      by (auto simp: b bit_or_iff chunk_bit [OF assms(1)] simp del: push_bit_and)
    have "bit v p \<longleftrightarrow> bit out p \<or> 8 * w * (index + boff div (8 * w)) \<le> p \<and> p < 8 * w * (index + Suc n) \<and> mbit (content s) p" for p
      unfolding r(4) [THEN spec] ob unfolding b add_Suc_shift [symmetric] using le by auto
    moreover have "gas_read_loop g boff bits_left index (w * index) d out s = Some (UACPI_STATUS_OK, v, s')"
      using r(1) rd(1) ab left False by (subst gas_read_loop.simps) (simp add: off)
    ultimately show ?thesis using r(2,3) by blast
  qed
qed

lemma write_loop_ok:
  assumes "over g w" "good s" "n = (bits_left + (8 * w - 1)) div (8 * w)" "8 * w * (index + n) \<le> 64" "w * (index + n) \<le> size_of"
  shows "\<exists>s'. gas_write_loop g v boff bits_left index (w * index) s = Some (UACPI_STATUS_OK, s') \<and> good s' \<and>
    (\<forall>p. mbit (content s') p \<longleftrightarrow>
       (if 8 * w * (index + boff div (8 * w)) \<le> p \<and> p < 8 * w * (index + n) then bit v p else mbit (content s) p))"
  using assms(2-)
proof (induction n arbitrary: boff bits_left index s)
  case 0
  then have "bits_left = 0" using over_width [OF assms(1)] by (simp add: div_eq_0_iff)
  moreover have "\<not> (8 * w * (index + boff div (8 * w)) \<le> p \<and> p < 8 * w * (index + 0))" for p
    using mult_le_mono2 [OF le_add1, of "8 * w" index "boff div (8 * w)"] by (simp only: add_0_right not_le [symmetric]) (meson le_trans)
  ultimately show ?case using 0 by (subst gas_write_loop.simps) auto
next
  case (Suc n)
  note w = over_width [OF assms(1)] and ab = assms(1) [unfolded over_def]
  have left: "bits_left \<noteq> 0" using Suc.prems(2) w by (intro notI) simp
  note n = chunks_left [OF w [THEN conjunct1] Suc.prems(2)]
  have room: "8 * w * (Suc index + n) \<le> 64" "w * (Suc index + n) \<le> size_of" using Suc.prems(3,4) by simp_all
  have off: "w * index + w = w * Suc index" by simp
  show ?case
  proof (cases "8 * w \<le> boff")
    case True
    obtain s' where r: "gas_write_loop g v (boff - 8 * w) (bits_left - min bits_left (8 * w)) (Suc index) (w * Suc index) s = Some (UACPI_STATUS_OK, s')"
      "good s'" "\<forall>p. mbit (content s') p \<longleftrightarrow>
         (if 8 * w * (Suc index + (boff - 8 * w) div (8 * w)) \<le> p \<and> p < 8 * w * (Suc index + n) then bit v p else mbit (content s) p)"
      using Suc.IH [OF Suc.prems(1) n room] by blast
    have e: "Suc index + (boff - 8 * w) div (8 * w) = index + boff div (8 * w)" "Suc index + n = index + Suc n"
      using True w div_add_self2 [of "8 * w" "boff - 8 * w"] by simp_all
    have "gas_write_loop g v boff bits_left index (w * index) s = Some (UACPI_STATUS_OK, s')"
      using r(1) ab left True by (subst gas_write_loop.simps) (simp add: off Let_def)
    then show ?thesis using r(2) r(3) [unfolded e] by blast
  next
    case False
    let ?d = "drop_bit (index * (8 * w)) v AND gas_mask g"
    obtain s1 where wr: "wr (w * index) w ?d s = Some (UACPI_STATUS_OK, s1)" "good s1" "content s1 = put_word (content s) (w * index) w ?d"
      using wr_ok [OF Suc.prems(1), of w "w * index" ?d] ab room(2) by (auto simp: distrib_left)
    obtain s' where r: "gas_write_loop g v boff (bits_left - min bits_left (8 * w)) (Suc index) (w * Suc index) s1 = Some (UACPI_STATUS_OK, s')"
      "good s'" "\<forall>p. mbit (content s') p \<longleftrightarrow>
         (if 8 * w * (Suc index + boff div (8 * w)) \<le> p \<and> p < 8 * w * (Suc index + n) then bit v p else mbit (content s1) p)"
      using Suc.IH [OF wr(2) n room] by blast
    define b where "b = 8 * w * index"
    have b: "index * (8 * w) = b" "8 * (w * index) = b" "8 * (w * index + w) = b + 8 * w"
      "8 * w * (Suc index + boff div (8 * w)) = b + 8 * w" "8 * w * (index + boff div (8 * w)) = b"
      using False w by (simp_all add: b_def distrib_left)
    have le: "b + 8 * w \<le> 8 * w * (Suc index + n)" by (simp add: b_def distrib_left)
    then have "b + 8 * w \<le> 64" using room(1) by simp
    then have ob: "mbit (content s1) p \<longleftrightarrow> (if b \<le> p \<and> p < b + 8 * w then bit v p else mbit (content s) p)" for p
      by (auto simp: wr(3) put_word_bit bit_drop_bit_eq bit_and_iff mask_bit_gas [OF assms(1)] b)
    have "mbit (content s') p \<longleftrightarrow>
        (if 8 * w * (index + boff div (8 * w)) \<le> p \<and> p < 8 * w * (index + Suc n) then bit v p else mbit (content s) p)" for p
      unfolding r(3) [THEN spec] ob unfolding b add_Suc_shift [symmetric] using le by simp
    moreover have "gas_write_loop g v boff bits_left index (w * index) s = Some (UACPI_STATUS_OK, s')"
      using r(1) wr(1) ab left False by (subst gas_write_loop.simps) (simp add: off Let_def)
    ultimately show ?thesis using r(2) by blast
  qed
qed

text \<open>Writing and reading back, for the accesses behind the bit offset.\<close>

lemma mapped_write:
  assumes "over g w" "good s" "8 * w * accesses (total_bit_width g) w \<le> 64" "w * accesses (total_bit_width g) w \<le> size_of"
  obtains s' where "uacpi_gas_write_mapped g v s = Some (UACPI_STATUS_OK, s')" "good s'"
    "\<And>p. mbit (content s') p \<longleftrightarrow>
       (if 8 * w * (bit_offset g div (8 * w)) \<le> p \<and> p < 8 * w * accesses (total_bit_width g) w then bit v p else mbit (content s) p)"
  using write_loop_ok [OF assms(1,2) refl, where bits_left = "total_bit_width g" and index = 0 and v = v and boff = "bit_offset g"] assms(3,4)
  by (auto simp: uacpi_gas_write_mapped_def accesses_def)

lemma mapped_read:
  assumes "over g w" "good s" "8 * w * accesses (total_bit_width g) w \<le> 64" "w * accesses (total_bit_width g) w \<le> size_of"
  obtains v s' where "uacpi_gas_read_mapped g s = Some (UACPI_STATUS_OK, v, s')" "good s'" "content s' = content s"
    "\<And>p. bit v p \<longleftrightarrow> 8 * w * (bit_offset g div (8 * w)) \<le> p \<and> p < 8 * w * accesses (total_bit_width g) w \<and> mbit (content s) p"
  using read_loop_ok [OF assms(1,2) refl, where bits_left = "total_bit_width g" and index = 0 and boff = "bit_offset g" and d = 0 and out = 0] assms(3,4)
  by (auto simp: uacpi_gas_read_mapped_def accesses_def)

lemma mapped_roundtrip:
  assumes "over g w" "good s" "8 * w * accesses (total_bit_width g) w \<le> 64" "w * accesses (total_bit_width g) w \<le> size_of"
  shows "\<exists>s1 s2 v'. uacpi_gas_write_mapped g v s = Some (UACPI_STATUS_OK, s1) \<and> uacpi_gas_read_mapped g s1 = Some (UACPI_STATUS_OK, v', s2) \<and>
    content s2 = content s1 \<and>
    (\<forall>p. mbit (content s1) p \<longleftrightarrow>
       (if 8 * w * (bit_offset g div (8 * w)) \<le> p \<and> p < 8 * w * accesses (total_bit_width g) w then bit v p else mbit (content s) p)) \<and>
    (\<forall>p. bit v' p \<longleftrightarrow> 8 * w * (bit_offset g div (8 * w)) \<le> p \<and> p < 8 * w * accesses (total_bit_width g) w \<and> bit v p)"
proof -
  obtain s1 where w: "uacpi_gas_write_mapped g v s = Some (UACPI_STATUS_OK, s1)" "good s1"
    "\<And>p. mbit (content s1) p \<longleftrightarrow>
       (if 8 * w * (bit_offset g div (8 * w)) \<le> p \<and> p < 8 * w * accesses (total_bit_width g) w then bit v p else mbit (content s) p)"
    by (rule mapped_write [OF assms]) blast
  obtain v' s2 where "uacpi_gas_read_mapped g s1 = Some (UACPI_STATUS_OK, v', s2)" "content s2 = content s1"
    "\<And>p. bit v' p \<longleftrightarrow> 8 * w * (bit_offset g div (8 * w)) \<le> p \<and> p < 8 * w * accesses (total_bit_width g) w \<and> mbit (content s1) p"
    by (rule mapped_read [OF assms(1) w(2) assms(3,4)]) blast
  then show ?thesis using w(1,3) by (intro exI [of _ s1] exI [of _ s2] exI [of _ v'] conjI allI) auto
qed

end

text \<open>
  The two spaces. Memory: the bytes from the virtual address \<open>p\<close> on are plain memory for the machine. Ports: the handle \<open>h\<close> of the host names ports
  that behave so, in accesses of up to four bytes.
\<close>

definition ram :: "'s kernel_api \<Rightarrow> ('s \<Rightarrow> bytes) \<Rightarrow> nat \<Rightarrow> nat \<Rightarrow> bool" where
  "ram api content p n \<longleftrightarrow> p + n \<le> SIZE_MAX \<and>
     (\<forall>s w off. w \<in> {1, 2, 4, 8} \<longrightarrow> off + w \<le> n \<longrightarrow>
        (\<exists>s'. bus_read api w (p + off) s = Some (word_at (content s) off w, s') \<and> content s' = content s) \<and>
        (\<forall>v. \<exists>s'. bus_write api w (p + off) v s = Some s' \<and> content s' = put_word (content s) off w v))"

definition port_range :: "'s kernel_api \<Rightarrow> ('s \<Rightarrow> bytes) \<Rightarrow> nat \<Rightarrow> nat \<Rightarrow> bool" where
  "port_range api content h n \<longleftrightarrow>
     (\<forall>s off. (off + 1 \<le> n \<longrightarrow>
        (\<exists>s'. k_io_read8 api h off s = Some (UACPI_STATUS_OK, ucast (word_at (content s) off 1), s') \<and> content s' = content s) \<and>
        (\<forall>v. \<exists>s'. k_io_write8 api h off v s = Some (UACPI_STATUS_OK, s') \<and> content s' = put_word (content s) off 1 (ucast v))) \<and>
      (off + 2 \<le> n \<longrightarrow>
        (\<exists>s'. k_io_read16 api h off s = Some (UACPI_STATUS_OK, ucast (word_at (content s) off 2), s') \<and> content s' = content s) \<and>
        (\<forall>v. \<exists>s'. k_io_write16 api h off v s = Some (UACPI_STATUS_OK, s') \<and> content s' = put_word (content s) off 2 (ucast v))) \<and>
      (off + 4 \<le> n \<longrightarrow>
        (\<exists>s'. k_io_read32 api h off s = Some (UACPI_STATUS_OK, ucast (word_at (content s) off 4), s') \<and> content s' = content s) \<and>
        (\<forall>v. \<exists>s'. k_io_write32 api h off v s = Some (UACPI_STATUS_OK, s') \<and> content s' = put_word (content s) off 4 (ucast v))))"

lemma word_at_small:
  "ucast (ucast (word_at m off 1) :: u8) = word_at m off 1"
  "ucast (ucast (word_at m off 2) :: u16) = word_at m off 2"
  "ucast (ucast (word_at m off 4) :: u32) = word_at m off 4"
  by (rule bit_word_eqI, auto simp: bit_ucast_iff word_at_bit simp del: word_at.simps)+

lemma put_word_small:
  "put_word m off 1 (ucast (ucast v :: u8)) = put_word m off 1 v"
  "put_word m off 2 (ucast (ucast v :: u16)) = put_word m off 2 v"
  "put_word m off 4 (ucast (ucast v :: u32)) = put_word m off 4 v"
  by (rule mbit_eqI, auto simp: put_word_bit bit_ucast_iff)+

interpretation memory: register_space "uacpi_system_memory_read api p" "uacpi_system_memory_write api p" content "\<lambda>s. ram api content p n" "{1, 2, 4, 8}" n
  for api :: "'s kernel_api" and content p n
proof unfold_locales
  fix s :: 's and w off d v
  assume r: "ram api content p n" and w: "w \<in> {1, 2, 4, 8}" and off: "off + w \<le> n"
  have a: "add64 p off = p + off" using r off by (simp add: ram_def add64_le)
  have acc: "\<exists>s'. bus_read api w (p + off) s = Some (word_at (content s) off w, s') \<and> content s' = content s"
    "\<exists>s'. bus_write api w (p + off) v s = Some s' \<and> content s' = put_word (content s) off w v" for v
    using r w off unfolding ram_def by blast+
  show "\<exists>s'. uacpi_system_memory_read api p off w d s = Some (UACPI_STATUS_OK, word_at (content s) off w, s') \<and>
      ram api content p n \<and> content s' = content s"
    using acc(1) w r word_at_small by (auto simp: uacpi_system_memory_read_def a)
  show "\<exists>s'. uacpi_system_memory_write api p off w v s = Some (UACPI_STATUS_OK, s') \<and>
      ram api content p n \<and> content s' = put_word (content s) off w v"
  proof -
    have put: "put_word m off w (if w = 1 then ucast (ucast v :: u8) else if w = 2 then ucast (ucast v :: u16) else
        if w = 4 then ucast (ucast v :: u32) else v) = put_word m off w v" for m
      using put_word_small [of m off v] by simp
    show ?thesis
      using acc(2) [of "if w = 1 then ucast (ucast v :: u8) else if w = 2 then ucast (ucast v :: u16) else if w = 4 then ucast (ucast v :: u32) else v"] w r
      unfolding put by (auto simp: uacpi_system_memory_write_def a)
  qed
qed simp

interpretation ports: register_space "uacpi_system_io_read api h" "uacpi_system_io_write api h" content "\<lambda>s. port_range api content h n" "{1, 2, 4}" n
  for api :: "'s kernel_api" and content h n
proof unfold_locales
  fix s :: 's and w off d v
  assume r: "port_range api content h n" and w: "w \<in> {1, 2, 4}" and off: "off + w \<le> n"
  note acc = r [unfolded port_range_def, THEN spec, of s, THEN spec, of off]
  show "\<exists>s'. uacpi_system_io_read api h off w d s = Some (UACPI_STATUS_OK, word_at (content s) off w, s') \<and>
      port_range api content h n \<and> content s' = content s"
    using acc w r off word_at_small by (auto simp: uacpi_system_io_read_def)
  show "\<exists>s'. uacpi_system_io_write api h off w v s = Some (UACPI_STATUS_OK, s') \<and>
      port_range api content h n \<and> content s' = put_word (content s) off w v"
  proof -
    consider "w = 1" | "w = 2" | "w = 4" using w by auto
    then show ?thesis
    proof cases
      case 1
      then show ?thesis using acc off r put_word_small(1) by (fastforce simp: uacpi_system_io_write_def)
    next
      case 2
      then show ?thesis using acc off r put_word_small(2) by (fastforce simp: uacpi_system_io_write_def)
    next
      case 3
      then show ?thesis using acc off r put_word_small(3) by (fastforce simp: uacpi_system_io_write_def)
    qed
  qed
qed simp

section \<open>Validation\<close>

lemma bit_scan_backward:
  "(\<forall>i. uacpi_bit_scan_backward x \<le> i \<longrightarrow> \<not> bit x i) \<and> (uacpi_bit_scan_backward x = 0 \<or> bit x (uacpi_bit_scan_backward x - 1))"
proof -
  have "(\<forall>i. for_up 0 k (\<lambda>i n. if bit x i then Suc i else n) 0 \<le> i \<longrightarrow> i < k \<longrightarrow> \<not> bit x i) \<and>
     (let n = for_up 0 k (\<lambda>i n. if bit x i then Suc i else n) 0 in n = 0 \<or> bit x (n - 1))" for k
  proof (induction k)
    case (Suc k)
    then show ?case by (auto simp: for_up_last Let_def less_Suc_eq)
  qed simp
  moreover have "i < 64" if "bit x i" for i using bit_imp_le_length [OF that] by simp
  ultimately show ?thesis unfolding uacpi_bit_scan_backward_def Let_def by blast
qed

lemma bit_scan_small:
  assumes "unat x < 2 ^ k"
  shows "uacpi_bit_scan_backward x \<le> k"
proof (rule ccontr)
  assume "\<not> ?thesis"
  then have n: "k \<le> uacpi_bit_scan_backward x - 1" "bit (unat x) (uacpi_bit_scan_backward x - 1)"
    using bit_scan_backward [of x] by (auto simp: bit_unsigned_iff)
  have "unat x < 2 ^ (uacpi_bit_scan_backward x - 1)" using less_le_trans [OF assms power_increasing [OF n(1)]] by simp
  then show False using n(2) by (simp add: bit_iff_odd)
qed

lemma aligned_width:
  assumes "k < 10" "t < 1024"
  shows "align_up (of_nat t :: u64) (of_nat (2 ^ k)) = of_nat (2 ^ k * ((t + (2 ^ k - 1)) div 2 ^ k))"
proof -
  have p: "(2::nat) ^ k \<le> 512" using power_increasing [of k 9 "2::nat"] assms(1) by simp
  have m: "(of_nat (2 ^ k) - 1 :: u64) = mask k" by (simp add: mask_eq_exp_minus_1)
  have a: "x AND NOT (mask k) = push_bit k (drop_bit k x)" for x :: u64
    by (rule bit_word_eqI) (auto simp: bit_and_iff bit_not_iff bit_mask_iff bit_push_bit_iff bit_drop_bit_eq)
  have "(mask k :: u64) = of_nat (2 ^ k - 1)" by (simp add: mask_eq_exp_minus_1 of_nat_diff)
  then have "of_nat t + mask k = (of_nat (t + (2 ^ k - 1)) :: u64)" by (simp only: of_nat_add)
  moreover have "drop_bit k (of_nat n :: u64) = of_nat (n div 2 ^ k)" if n: "n < 2 ^ 64" for n
  proof -
    have u: "unat (of_nat j :: u64) = j" if "j \<le> n" for j using that n by (simp add: unsigned_of_nat take_bit_nat_eq_self)
    have "unat (drop_bit k (of_nat n :: u64)) = drop_bit k n" using n by (simp add: unsigned_drop_bit_eq unsigned_of_nat take_bit_nat_eq_self)
    also have "\<dots> = n div 2 ^ k" by (simp add: drop_bit_eq_div)
    finally have "unat (drop_bit k (of_nat n :: u64)) = n div 2 ^ k" .
    then show ?thesis using u [of "n div 2 ^ k"] by (simp add: word_unat_eq_iff)
  qed
  ultimately show ?thesis using p assms(2) unfolding align_up_def m a by (simp add: push_bit_eq_mult mult.commute)
qed

text \<open>The widths that \<open>gas_get_access_bit_width\<close> chooses. The loop that backs off ends, because every address is aligned to single bytes.\<close>

lemma back_off_ends:
  assumes "3 \<le> k" "k \<le> 7"
  shows "\<exists>j. 3 \<le> j \<and> j \<le> k \<and> back_off addr (2 ^ k) = Some (2 ^ j)"
  using assms
proof (induction k rule: dec_induct)
  case base
  have "is_aligned addr 1" by (simp add: is_aligned_def)
  then show ?case by (subst back_off.simps) (auto intro: exI [of _ 3])
next
  case (step n)
  have "n \<in> {3, 4, 5, 6}" using step.hyps(1) step.prems by auto
  then have "(2 ^ Suc n :: u8) div 2 = 2 ^ n" by auto
  then show ?case using step.IH step.prems by (subst back_off.simps) (force intro: exI [of _ "Suc n"])
qed

lemma power_widths: "\<forall>n\<in>set [0..<256]. is_power_of_two (of_nat n :: u8) \<and> is_aligned (of_nat n :: u8) 8 \<longrightarrow> n \<in> {0, 8, 16, 32, 64, 128}"
  by code_simp

lemma power_width: "is_power_of_two w \<Longrightarrow> is_aligned w 8 \<Longrightarrow> w \<in> {0, 8, 16, 32, 64, 128 :: u8}"
  by (cases w rule: word_nat_cases) (use power_widths in auto)

lemma scan_small:
  assumes "\<not> (register_bit_offset gas = 0 \<and> is_power_of_two (register_bit_width gas) \<and> is_aligned (register_bit_width gas) 8)"
  shows "uacpi_bit_scan_backward (of_int (uint (register_bit_offset gas) + uint (register_bit_width gas) - 1)) \<le> 9"
proof -
  define i where "i = uint (register_bit_offset gas) + uint (register_bit_width gas) - 1"
  have "register_bit_width gas \<noteq> 0 \<or> register_bit_offset gas \<noteq> 0" using assms by (auto simp: is_power_of_two_def is_aligned_def)
  then have "0 < uint (register_bit_width gas) \<or> 0 < uint (register_bit_offset gas)" by (simp add: word_neq_0_conv word_less_def)
  then have i: "0 \<le> i" "i < 512" unfolding i_def
    using uint_ge_0 [of "register_bit_offset gas"] uint_ge_0 [of "register_bit_width gas"]
      uint_lt2p [of "register_bit_offset gas", simplified] uint_lt2p [of "register_bit_width gas", simplified]
    by linarith+
  then have "uint (of_int i :: u64) = i" by (simp add: uint_word_of_int take_bit_int_eq_self)
  then have "unat (of_int i :: u64) < 2 ^ 9" using i by (simp add: unat_eq_nat_uint)
  then show ?thesis unfolding i_def by (rule bit_scan_small)
qed

lemma access_width:
  assumes "register_bit_width gas \<noteq> 0" "access_size gas \<noteq> 3" "access_size gas \<le> 4"
  shows "\<exists>k. k \<in> {3, 4, 5, 6} \<and> (address_space_id gas = UACPI_ADDRESS_SPACE_SYSTEM_IO \<longrightarrow> k < 6) \<and> gas_get_access_bit_width gas = Some (2 ^ k)"
proof -
  let ?lim = "if address_space_id gas = UACPI_ADDRESS_SPACE_SYSTEM_IO then 32 else 64 :: u8"
  let ?x = "of_int (uint (register_bit_offset gas) + uint (register_bit_width gas) - 1) :: u64"
  let ?msb = "uacpi_bit_scan_backward ?x"
  have lim: "\<exists>k. k \<in> {3, 4, 5, 6} \<and> (address_space_id gas = UACPI_ADDRESS_SPACE_SYSTEM_IO \<longrightarrow> k < 6) \<and> min (2 ^ j) ?lim = 2 ^ k"
    if "3 \<le> j" "j \<le> 7" for j
  proof (cases "address_space_id gas = UACPI_ADDRESS_SPACE_SYSTEM_IO")
    case True
    have "j \<in> {3, 4, 5, 6, 7}" using that by auto
    then have "min (2 ^ j) 32 = (2 ^ min j 5 :: u8)" "min j 5 \<in> {3, 4, 5}" by auto
    then show ?thesis using True by (intro exI [of _ "min j 5"]) auto
  next
    case False
    have "j \<in> {3, 4, 5, 6, 7}" using that by auto
    then have "min (2 ^ j) 64 = (2 ^ min j 6 :: u8)" "min j 6 \<in> {3, 4, 5, 6}" by auto
    then show ?thesis using False by (intro exI [of _ "min j 6"]) auto
  qed
  have w: "\<exists>j. 3 \<le> j \<and> j \<le> 7 \<and>
     (if register_bit_offset gas = 0 \<and> is_power_of_two (register_bit_width gas) \<and> is_aligned (register_bit_width gas) 8
           then Some (register_bit_width gas)
           else if access_size gas \<noteq> 0 then Some (access_size gas * 8)
           else if 31 \<le> ?msb then None else let w = of_nat (2 ^ ?msb) in if w \<le> 8 then Some 8 else back_off (address gas) w) = Some (2 ^ j)"
  proof -
    consider (plain) "register_bit_offset gas = 0" "is_power_of_two (register_bit_width gas)" "is_aligned (register_bit_width gas) 8"
      | (given) "\<not> (register_bit_offset gas = 0 \<and> is_power_of_two (register_bit_width gas) \<and> is_aligned (register_bit_width gas) 8)" "access_size gas \<noteq> 0"
      | (scan) "\<not> (register_bit_offset gas = 0 \<and> is_power_of_two (register_bit_width gas) \<and> is_aligned (register_bit_width gas) 8)" "access_size gas = 0"
      by blast
    then show ?thesis
    proof cases
      case plain
      then have "register_bit_width gas \<in> {8, 16, 32, 64, 128}" using power_width assms(1) by blast
      then show ?thesis using plain by (auto intro: exI [of _ 3] exI [of _ 4] exI [of _ 5] exI [of _ 6] exI [of _ 7])
    next
      case given
      have "unat (access_size gas) \<in> {1, 2, 4}"
        using given(2) assms(2,3) by (auto simp: word_le_nat_alt word_unat_eq_iff)
      then have "access_size gas \<in> {1, 2, 4}" by (auto simp: word_unat_eq_iff)
      then show ?thesis unfolding if_not_P [OF given(1)] by (auto intro: exI [of _ 3] exI [of _ 4] exI [of _ 5])
    next
      case scan
      have m: "?msb \<le> 9" using scan_small [OF scan(1)] .
      show ?thesis
      proof (cases "3 < ?msb \<and> ?msb < 8")
        case True
        then have "?msb \<in> {4, 5, 6, 7}" by auto
        then have "\<not> (of_nat (2 ^ ?msb) :: u8) \<le> 8" by auto
        then show ?thesis using back_off_ends [of ?msb "address gas"] True scan by (auto simp: Let_def)
      next
        case False
        then have "?msb \<in> {0, 1, 2, 3, 8, 9}" using m by auto
        then have "(of_nat (2 ^ ?msb) :: u8) \<le> 8" by auto
        then show ?thesis using scan m by (auto simp: Let_def intro: exI [of _ 3])
      qed
    qed
  qed
  then obtain j where j: "3 \<le> j" "j \<le> 7" and e: "(if register_bit_offset gas = 0 \<and> is_power_of_two (register_bit_width gas) \<and> is_aligned (register_bit_width gas) 8
           then Some (register_bit_width gas)
           else if access_size gas \<noteq> 0 then Some (access_size gas * 8)
           else if 31 \<le> ?msb then None else let w = of_nat (2 ^ ?msb) in if w \<le> 8 then Some 8 else back_off (address gas) w) = Some (2 ^ j)" by blast
  have "gas_get_access_bit_width gas = Some (min (2 ^ j) ?lim)"
    unfolding gas_get_access_bit_width_def Let_def e [unfolded Let_def] by simp
  then show ?thesis using lim [OF j] by auto
qed

text \<open>What validation guarantees of the two widths.\<close>

lemma validated:
  assumes "gas_validate (Some gas) = Some (UACPI_STATUS_OK, w, t)" "register_bit_width gas \<noteq> 0" "access_size gas \<noteq> 3"
  obtains b where "b \<in> {1, 2, 4, 8}" "unat w = 8 * b" "unat t = unat (register_bit_offset gas) + unat (register_bit_width gas)"
    "8 * b * accesses (unat t) b \<le> 64" "address_space_id gas = UACPI_ADDRESS_SPACE_SYSTEM_IO \<Longrightarrow> b \<noteq> 8"
    "address_space_id gas \<in> {UACPI_ADDRESS_SPACE_SYSTEM_IO, UACPI_ADDRESS_SPACE_SYSTEM_MEMORY}"
proof -
  define n where "n = unat (register_bit_offset gas) + unat (register_bit_width gas)"
  have sz: "access_size gas \<le> 4" using assms(1) by (auto simp: gas_validate_def split: if_splits)
  obtain k where k: "k \<in> {3, 4, 5, 6}" "address_space_id gas = UACPI_ADDRESS_SPACE_SYSTEM_IO \<longrightarrow> k < 6" "gas_get_access_bit_width gas = Some (2 ^ k)"
    using access_width [OF assms(2,3) sz] by blast
  have tb: "n < 1024" using unsigned_less [of "register_bit_offset gas", where ?'a = nat] unsigned_less [of "register_bit_width gas", where ?'a = nat] by (simp add: n_def)
  have te: "ucast (register_bit_offset gas) + ucast (register_bit_width gas) = (of_nat n :: u64)"
    by (simp add: n_def)
  have we: "ucast (2 ^ k :: u8) = (of_nat (2 ^ k) :: u64)" using k(1) by auto
  have al: "align_up (of_nat n :: u64) (of_nat (2 ^ k)) = of_nat (2 ^ k * ((n + (2 ^ k - 1)) div 2 ^ k))"
    by (rule aligned_width) (use k(1) tb in auto)
  have v: "w = 2 ^ k" "\<not> 64 < align_up (of_nat n :: u64) (of_nat (2 ^ k))" "t = ucast (of_nat n :: u64)"
    "address_space_id gas \<in> {UACPI_ADDRESS_SPACE_SYSTEM_IO, UACPI_ADDRESS_SPACE_SYSTEM_MEMORY}"
    using assms(1) by (auto simp: gas_validate_def k(3) te we Let_def split: if_splits)
  define q where "q = 2 ^ k * ((n + (2 ^ k - 1)) div 2 ^ k)"
  have "q \<le> n + (2 ^ k - 1)" "(2::nat) ^ k \<le> 64" using k(1) unfolding q_def by auto
  then have "unat (of_nat q :: u64) = q" using tb by (simp add: unsigned_of_nat take_bit_nat_eq_self)
  then have lim: "q \<le> 64" using v(2) [unfolded al, folded q_def] by (simp add: word_less_nat_alt)
  have p8: "2 ^ k = (8 * 2 ^ (k - 3) :: nat)" "2 ^ (k - 3) \<in> {1, 2, 4, 8 :: nat}" using k(1) by auto
  have "n \<le> q" using k(1) unfolding q_def by auto
  then have t64: "n \<le> 64" using lim by simp
  then have ut: "unat t = n" by (simp add: v(3) unsigned_ucast_eq unsigned_of_nat take_bit_nat_eq_self)
  show thesis
  proof (rule that [of "2 ^ (k - 3)"])
    show "unat w = 8 * 2 ^ (k - 3)" using k(1) by (auto simp: v(1))
    show "8 * 2 ^ (k - 3) * accesses (unat t) (2 ^ (k - 3)) \<le> 64" using lim unfolding accesses_def ut p8(1) [symmetric] q_def .
    show "2 ^ (k - 3) \<noteq> (8 :: nat)" if "address_space_id gas = UACPI_ADDRESS_SPACE_SYSTEM_IO" using that k(1,2) by auto
  qed (use p8 ut v(4) n_def in auto)
qed

section \<open>Properties\<close>

text \<open>
  C33: A register that an address structure describes can be written and read back. When the structure is valid and mapped, and the space behind the mapping
  behaves like memory, a write stores the value in the accesses from the one with the bit offset on to the last one of the register and changes no
  other byte, and a read yields these bits in their places. Validation chooses the access width such that this holds for every structure
  but those that ask for accesses of 32 bits (access size 3) themselves.
\<close>

theorem gas_roundtrip:
  fixes api :: "'s kernel_api"
  assumes "gas_validate (Some gas) = Some (UACPI_STATUS_OK, w, t)" "register_bit_width gas \<noteq> 0" "access_size gas \<noteq> 3"
    "uacpi_map_gas_noalloc api (Some gas) m0 s0 = Some (UACPI_STATUS_OK, m, s)"
    "if address_space_id gas = UACPI_ADDRESS_SPACE_SYSTEM_MEMORY then ram api content (mapping m) n else port_range api content (mapping m) n"
    "unat w div 8 * accesses (unat t) (unat w div 8) \<le> n"
  shows "let lo = unat w * (unat (register_bit_offset gas) div unat w); hi = unat w * accesses (unat t) (unat w div 8) in
    unat (register_bit_offset gas) + unat (register_bit_width gas) \<le> hi \<and> hi \<le> 64 \<and>
    (\<exists>s1 s2 v'. uacpi_gas_write_mapped m v s = Some (UACPI_STATUS_OK, s1) \<and> uacpi_gas_read_mapped m s1 = Some (UACPI_STATUS_OK, v', s2) \<and>
       content s2 = content s1 \<and>
       (\<forall>p. mbit (content s1) p \<longleftrightarrow> (if lo \<le> p \<and> p < hi then bit v p else mbit (content s) p)) \<and>
       (\<forall>p. bit v' p \<longleftrightarrow> lo \<le> p \<and> p < hi \<and> bit v p))"
proof -
  obtain b where b: "b \<in> {1, 2, 4, 8}" "unat w = 8 * b" "unat t = unat (register_bit_offset gas) + unat (register_bit_width gas)"
    "8 * b * accesses (unat t) b \<le> 64" "address_space_id gas = UACPI_ADDRESS_SPACE_SYSTEM_IO \<Longrightarrow> b \<noteq> 8"
    "address_space_id gas \<in> {UACPI_ADDRESS_SPACE_SYSTEM_IO, UACPI_ADDRESS_SPACE_SYSTEM_MEMORY}"
    by (rule validated [OF assms(1-3)]) (rule that)
  have hi: "unat t \<le> 8 * b * accesses (unat t) b" using b(1) by (auto simp: accesses_def)
  have ns: "UACPI_ADDRESS_SPACE_SYSTEM_IO \<noteq> UACPI_ADDRESS_SPACE_SYSTEM_MEMORY"
    by (simp add: UACPI_ADDRESS_SPACE_SYSTEM_IO_def UACPI_ADDRESS_SPACE_SYSTEM_MEMORY_def)
  have m: "access_bit_width m = 8 * b" "total_bit_width m = unat t" "bit_offset m = unat (register_bit_offset gas)"
    "address_space_id gas = UACPI_ADDRESS_SPACE_SYSTEM_MEMORY \<Longrightarrow> g_read m = uacpi_system_memory_read api \<and> g_write m = uacpi_system_memory_write api"
    "address_space_id gas \<noteq> UACPI_ADDRESS_SPACE_SYSTEM_MEMORY \<Longrightarrow> g_read m = uacpi_system_io_read api \<and> g_write m = uacpi_system_io_write api"
    using assms(1,4) b(2) by (auto simp: uacpi_map_gas_noalloc_def Let_def split: Option.bind_splits if_splits)
  have w: "unat w div 8 = b" using b(2) by simp
  show ?thesis
  proof (cases "address_space_id gas = UACPI_ADDRESS_SPACE_SYSTEM_MEMORY")
    case True
    then have o: "memory.over api (mapping m) m b" and r: "ram api content (mapping m) n"
      unfolding memory.over_def using m b(1) assms(5) by auto
    show ?thesis
      using memory.mapped_roundtrip [OF o r, of v s] b(2-4) hi assms(6) unfolding Let_def w m(2,3) by simp
  next
    case False
    then have o: "ports.over api (mapping m) m b" and r: "port_range api content (mapping m) n"
      unfolding ports.over_def using m b(1,5,6) assms(5) by auto
    show ?thesis
      using ports.mapped_roundtrip [OF o r, of v s] b(2-4) hi assms(6) unfolding Let_def w m(2,3) by simp
  qed
qed

text \<open>
  A structure that asks for accesses of 32 bits fails. Its access size 3 stands for 32 bits in the ACPI specification, but the code multiplies it by eight and
  makes accesses of three bytes, which no space supports: a register at a bit offset can be neither read nor written.
\<close>

lemma aligned_24: "\<forall>n\<in>set [0..<49]. align_up (of_nat n :: u64) 24 \<le> 64"
  by code_simp

theorem gas_dword_refused:
  assumes "address gas \<noteq> 0" "address_space_id gas = UACPI_ADDRESS_SPACE_SYSTEM_MEMORY" "access_size gas = 3"
    "0 < unat (register_bit_offset gas)" "unat (register_bit_offset gas) < 24" "unat (register_bit_offset gas) + unat (register_bit_width gas) \<le> 48"
    "k_map api (address gas) ((unat (register_bit_offset gas) + unat (register_bit_width gas)) div 8) s = Some (p, s1)" "p \<noteq> 0"
    "k_unmap api p 3 s1 = Some s2"
  shows "uacpi_gas_read api (Some gas) out s = Some (UACPI_STATUS_INVALID_ARGUMENT, 0, s2) \<and>
    uacpi_gas_write api (Some gas) v s = Some (UACPI_STATUS_INVALID_ARGUMENT, s2)"
proof -
  define n where "n = unat (register_bit_offset gas) + unat (register_bit_width gas)"
  have off: "register_bit_offset gas \<noteq> 0" using assms(4) by auto
  have w: "gas_get_access_bit_width gas = Some 24"
    using off assms(2,3) by (simp add: gas_get_access_bit_width_def UACPI_ADDRESS_SPACE_SYSTEM_MEMORY_def UACPI_ADDRESS_SPACE_SYSTEM_IO_def min_def)
  have te: "ucast (register_bit_offset gas) + ucast (register_bit_width gas) = (of_nat n :: u64)" by (simp add: n_def)
  have "align_up (of_nat n :: u64) 24 \<le> 64" using aligned_24 assms(6) by (auto simp: n_def [symmetric])
  then have v: "gas_validate (Some gas) = Some (UACPI_STATUS_OK, 24, ucast (of_nat n :: u64))"
    using assms(1-3) by (simp add: gas_validate_def w te Let_def not_less)
  have t: "unat (ucast (of_nat n :: u64) :: u8) = n"
    using assms(6) by (simp add: n_def [symmetric] unsigned_ucast_eq unsigned_of_nat take_bit_nat_eq_self)
  obtain m where m: "uacpi_map_gas_noalloc api (Some gas) fresh_gas s = Some (UACPI_STATUS_OK, m, s1)" "mapping m = p" "access_bit_width m = 24"
    "total_bit_width m = n" "bit_offset m = unat (register_bit_offset gas)" "g_read m = uacpi_system_memory_read api"
    "g_write m = uacpi_system_memory_write api" "g_unmap m = k_unmap api"
  proof
    show "uacpi_map_gas_noalloc api (Some gas) fresh_gas s = Some (UACPI_STATUS_OK, fresh_gas\<lparr>mapping := p, g_read := uacpi_system_memory_read api,
        g_write := uacpi_system_memory_write api, g_unmap := k_unmap api, access_bit_width := 24, total_bit_width := n,
        bit_offset := unat (register_bit_offset gas)\<rparr>, s1)"
      using assms(2,7,8) by (simp add: uacpi_map_gas_noalloc_def v t n_def [symmetric] Let_def)
  qed simp_all
  have n: "n \<noteq> 0" using assms(4) by (simp add: n_def)
  have "uacpi_gas_read_mapped m s1 = Some (UACPI_STATUS_INVALID_ARGUMENT, 0, s1)"
    unfolding uacpi_gas_read_mapped_def using n assms(5) m by (subst gas_read_loop.simps) (simp add: uacpi_system_memory_read_def Let_def)
  moreover have "uacpi_gas_write_mapped m v s1 = Some (UACPI_STATUS_INVALID_ARGUMENT, s1)"
    unfolding uacpi_gas_write_mapped_def using n assms(5) m by (subst gas_write_loop.simps) (simp add: uacpi_system_memory_write_def Let_def)
  ultimately show ?thesis using m assms(9) by (simp add: uacpi_gas_read_def uacpi_gas_write_def uacpi_unmap_gas_nofree_def)
qed

text \<open>A host with plain memory from the address \<open>0x1000\<close> on, for the witnesses.\<close>

definition ram_host :: "bytes kernel_api" where
  "ram_host = idle_host\<lparr>k_map := \<lambda>addr len m. Some (unat addr, m), k_unmap := \<lambda>p len m. Some m,
     bus_read := \<lambda>w a m. Some (word_at m (a - 0x1000) w, m), bus_write := \<lambda>w a v m. Some (put_word m (a - 0x1000) w v)\<rparr>"

lemma ram_host_ok: "ram ram_host id 0x1000 8"
  by (auto simp: ram_def ram_host_def SIZE_MAX_def)

theorem gas_roundtrip_witness:
  "\<exists>m s1 s2. uacpi_map_gas_noalloc ram_host
       (Some \<lparr>address_space_id = 0, register_bit_width = 32, register_bit_offset = 0, access_size = 0, address = 0x1000\<rparr>) fresh_gas (\<lambda>_. 0) =
       Some (UACPI_STATUS_OK, m, \<lambda>_. 0) \<and>
     uacpi_gas_write_mapped m 0x12DEADBEEF (\<lambda>_. 0) = Some (UACPI_STATUS_OK, s1) \<and> uacpi_gas_read_mapped m s1 = Some (UACPI_STATUS_OK, 0xDEADBEEF, s2)"
proof -
  let ?g = "\<lparr>address_space_id = 0, register_bit_width = 32, register_bit_offset = 0, access_size = 0, address = 0x1000\<rparr>"
  have v: "gas_validate (Some ?g) = Some (UACPI_STATUS_OK, 32, 32)"
    by (simp add: gas_validate_def gas_get_access_bit_width_def is_power_of_two_def is_aligned_def align_up_def
        UACPI_ADDRESS_SPACE_SYSTEM_MEMORY_def UACPI_ADDRESS_SPACE_SYSTEM_IO_def Let_def min_def)
  obtain m where m: "uacpi_map_gas_noalloc ram_host (Some ?g) fresh_gas (\<lambda>_. 0) = Some (UACPI_STATUS_OK, m, \<lambda>_. 0)" "mapping m = 0x1000"
  proof
    show "uacpi_map_gas_noalloc ram_host (Some ?g) fresh_gas (\<lambda>_. 0) = Some (UACPI_STATUS_OK, fresh_gas\<lparr>mapping := 0x1000,
        g_read := uacpi_system_memory_read ram_host, g_write := uacpi_system_memory_write ram_host, g_unmap := k_unmap ram_host,
        access_bit_width := 32, total_bit_width := 32, bit_offset := 0\<rparr>, \<lambda>_. 0)"
      by (simp add: uacpi_map_gas_noalloc_def v Let_def UACPI_ADDRESS_SPACE_SYSTEM_MEMORY_def) (simp add: ram_host_def)
  qed simp
  have a: "accesses 32 4 = 1" by (simp add: accesses_def)
  have "unat (32 :: u8) div 8 * accesses (unat (32 :: u8)) (unat (32 :: u8) div 8) \<le> 8" by (simp add: accesses_def)
  moreover have "if address_space_id ?g = UACPI_ADDRESS_SPACE_SYSTEM_MEMORY then ram ram_host id (mapping m) 8 else port_range ram_host id (mapping m) 8"
    by (simp add: ram_host_ok m(2) UACPI_ADDRESS_SPACE_SYSTEM_MEMORY_def)
  ultimately have "\<exists>s1 s2 v'. uacpi_gas_write_mapped m 0x12DEADBEEF (\<lambda>_. 0) = Some (UACPI_STATUS_OK, s1) \<and>
      uacpi_gas_read_mapped m s1 = Some (UACPI_STATUS_OK, v', s2) \<and> (\<forall>p. bit v' p \<longleftrightarrow> p < 32 \<and> bit (0x12DEADBEEF :: u64) p)"
    using gas_roundtrip [OF v _ _ m(1), of id 8 "0x12DEADBEEF"] by (simp add: Let_def a del: bit_numeral_iff) blast
  then obtain s1 s2 v' where
    r: "uacpi_gas_write_mapped m 0x12DEADBEEF (\<lambda>_. 0) = Some (UACPI_STATUS_OK, s1)" "uacpi_gas_read_mapped m s1 = Some (UACPI_STATUS_OK, v', s2)"
      "\<And>p. bit v' p \<longleftrightarrow> p < 32 \<and> bit (0x12DEADBEEF :: u64) p"
    by blast
  have "v' = take_bit 32 0x12DEADBEEF" by (rule bit_word_eqI) (simp only: r(3) bit_take_bit_iff)
  then show ?thesis using m(1) r(1,2) by auto
qed

theorem gas_dword_refused_witness:
  "uacpi_gas_read ram_host (Some \<lparr>address_space_id = 0, register_bit_width = 16, register_bit_offset = 8, access_size = 3, address = 0x1000\<rparr>) 7 (\<lambda>_. 0) =
     Some (UACPI_STATUS_INVALID_ARGUMENT, 0, \<lambda>_. 0)"
proof -
  let ?g = "\<lparr>address_space_id = 0, register_bit_width = 16, register_bit_offset = 8, access_size = 3, address = 0x1000\<rparr>"
  have "k_map ram_host (address ?g) ((unat (register_bit_offset ?g) + unat (register_bit_width ?g)) div 8) (\<lambda>_. 0) = Some (0x1000, \<lambda>_. 0)"
    "k_unmap ram_host 0x1000 3 (\<lambda>_. 0) = Some (\<lambda>_. 0)" by (simp_all add: ram_host_def)
  from gas_dword_refused [OF _ _ _ _ _ _ this(1) _ this(2)] show ?thesis by (simp add: UACPI_ADDRESS_SPACE_SYSTEM_MEMORY_def)
qed
end
