(* ===== verification/Uacpi_Registers.thy ===== *)
theory Uacpi_Registers
  imports Uacpi_Gas
begin

text \<open>
  The fixed hardware registers (\<open>extra/uacpi/registers.c\<close>): their table, the lazy mapping of their blocks, whole registers and fields of them.

  The numbers of \<open>uacpi/acpi.h\<close> and of the enumerations in \<open>uacpi/registers.h\<close> are used as they are. The parts of the runtime context that the
  module reads are the record \<open>runtime_context\<close>; its own variables are the record \<open>regs\<close> with the host's state. \<open>None\<close> is undefined behaviour
  of the host.
\<close>

section \<open>State\<close>

record runtime_context =
  pm1a_status_blk :: acpi_gas
  pm1b_status_blk :: acpi_gas
  pm1a_enable_blk :: acpi_gas
  pm1b_enable_blk :: acpi_gas
  x_pm1a_cnt_blk :: acpi_gas
  x_pm1b_cnt_blk :: acpi_gas
  x_pm_tmr_blk :: acpi_gas
  x_pm2_cnt_blk :: acpi_gas
  sleep_control_reg :: acpi_gas
  sleep_status_reg :: acpi_gas
  reset_reg :: acpi_gas
  smi_cmd :: u32
  init_level :: nat

definition UACPI_INIT_LEVEL_SUBSYSTEM_INITIALIZED :: nat where "UACPI_INIT_LEVEL_SUBSYSTEM_INITIALIZED = 1"

text \<open>The enumerations \<^verbatim>\<open>register_kind\<close> and \<^verbatim>\<open>register_access_kind\<close>; the code compares members of one with the other.\<close>

definition REGISTER_KIND_GAS :: nat where "REGISTER_KIND_GAS = 0"
definition REGISTER_KIND_IO :: nat where "REGISTER_KIND_IO = 1"
definition REGISTER_ACCESS_KIND_PRESERVE :: nat where "REGISTER_ACCESS_KIND_PRESERVE = 0"
definition REGISTER_ACCESS_KIND_WRITE_TO_CLEAR :: nat where "REGISTER_ACCESS_KIND_WRITE_TO_CLEAR = 1"
definition REGISTER_ACCESS_KIND_NORMAL :: nat where "REGISTER_ACCESS_KIND_NORMAL = 2"

text \<open>What the pointers of a table entry lead to in the context: an address structure or the number of a port.\<close>

datatype accessor = No_accessor | To_gas "runtime_context \<Rightarrow> acpi_gas" | To_port "runtime_context \<Rightarrow> u32"

record register_spec =
  kind :: nat
  access_kind :: nat
  access_width :: nat
  accessors :: "accessor list"
  write_only_mask :: u64
  preserve_mask :: u64

definition UACPI_REGISTER_PM1_STS :: nat where "UACPI_REGISTER_PM1_STS = 0"
definition UACPI_REGISTER_PM1_EN :: nat where "UACPI_REGISTER_PM1_EN = 1"
definition UACPI_REGISTER_PM1_CNT :: nat where "UACPI_REGISTER_PM1_CNT = 2"
definition UACPI_REGISTER_PM_TMR :: nat where "UACPI_REGISTER_PM_TMR = 3"
definition UACPI_REGISTER_PM2_CNT :: nat where "UACPI_REGISTER_PM2_CNT = 4"
definition UACPI_REGISTER_SLP_CNT :: nat where "UACPI_REGISTER_SLP_CNT = 5"
definition UACPI_REGISTER_SLP_STS :: nat where "UACPI_REGISTER_SLP_STS = 6"
definition UACPI_REGISTER_RESET :: nat where "UACPI_REGISTER_RESET = 7"
definition UACPI_REGISTER_SMI_CMD :: nat where "UACPI_REGISTER_SMI_CMD = 8"
definition UACPI_REGISTER_MAX :: nat where "UACPI_REGISTER_MAX = 8"

text \<open>The masks of \<open>uacpi/acpi.h\<close>: bits 3 to 9, 14 and 15 of the control register are preserved, and all bits but one of three others.\<close>

definition ACPI_PM1_STS_IGN0_MASK :: u64 where "ACPI_PM1_STS_IGN0_MASK = push_bit 11 1"
definition ACPI_PM1_CNT_SLP_EN_MASK :: u64 where "ACPI_PM1_CNT_SLP_EN_MASK = push_bit 13 1"
definition ACPI_PM1_CNT_GBL_RLS_MASK :: u64 where "ACPI_PM1_CNT_GBL_RLS_MASK = push_bit 2 1"
definition ACPI_PM1_CNT_PRESERVE_MASK :: u64 where
  "ACPI_PM1_CNT_PRESERVE_MASK = push_bit 3 1 OR push_bit 4 1 OR push_bit 5 1 OR push_bit 6 1 OR push_bit 7 1 OR push_bit 8 1 OR push_bit 9 1 OR
     push_bit 14 1 OR push_bit 15 1"
definition ACPI_PM2_CNT_PRESERVE_MASK :: u64 where "ACPI_PM2_CNT_PRESERVE_MASK = NOT 1"
definition ACPI_SLP_CNT_SLP_EN_MASK :: u64 where "ACPI_SLP_CNT_SLP_EN_MASK = push_bit 5 1"
definition ACPI_SLP_CNT_PRESERVE_MASK :: u64 where "ACPI_SLP_CNT_PRESERVE_MASK = push_bit 0 1 OR push_bit 1 1 OR push_bit 6 1 OR push_bit 7 1"
definition ACPI_SLP_STS_PRESERVE_MASK :: u64 where "ACPI_SLP_STS_PRESERVE_MASK = NOT (push_bit 7 1)"

definition g_registers :: "register_spec list" where
  "g_registers =
    [\<comment> \<open>PM1_STS\<close> \<lparr>kind = REGISTER_KIND_GAS, access_kind = REGISTER_ACCESS_KIND_WRITE_TO_CLEAR, access_width = 0,
       accessors = [To_gas pm1a_status_blk, To_gas pm1b_status_blk], write_only_mask = 0, preserve_mask = ACPI_PM1_STS_IGN0_MASK\<rparr>,
     \<comment> \<open>PM1_EN\<close> \<lparr>kind = REGISTER_KIND_GAS, access_kind = REGISTER_ACCESS_KIND_PRESERVE, access_width = 0,
       accessors = [To_gas pm1a_enable_blk, To_gas pm1b_enable_blk], write_only_mask = 0, preserve_mask = 0\<rparr>,
     \<comment> \<open>PM1_CNT\<close> \<lparr>kind = REGISTER_KIND_GAS, access_kind = REGISTER_ACCESS_KIND_PRESERVE, access_width = 0,
       accessors = [To_gas x_pm1a_cnt_blk, To_gas x_pm1b_cnt_blk], write_only_mask = ACPI_PM1_CNT_SLP_EN_MASK OR ACPI_PM1_CNT_GBL_RLS_MASK,
       preserve_mask = ACPI_PM1_CNT_PRESERVE_MASK\<rparr>,
     \<comment> \<open>PM_TMR\<close> \<lparr>kind = REGISTER_KIND_GAS, access_kind = REGISTER_ACCESS_KIND_PRESERVE, access_width = 0,
       accessors = [To_gas x_pm_tmr_blk, No_accessor], write_only_mask = 0, preserve_mask = 0\<rparr>,
     \<comment> \<open>PM2_CNT\<close> \<lparr>kind = REGISTER_KIND_GAS, access_kind = REGISTER_ACCESS_KIND_PRESERVE, access_width = 0,
       accessors = [To_gas x_pm2_cnt_blk, No_accessor], write_only_mask = 0, preserve_mask = ACPI_PM2_CNT_PRESERVE_MASK\<rparr>,
     \<comment> \<open>SLP_CNT\<close> \<lparr>kind = REGISTER_KIND_GAS, access_kind = REGISTER_ACCESS_KIND_PRESERVE, access_width = 0,
       accessors = [To_gas sleep_control_reg, No_accessor], write_only_mask = ACPI_SLP_CNT_SLP_EN_MASK, preserve_mask = ACPI_SLP_CNT_PRESERVE_MASK\<rparr>,
     \<comment> \<open>SLP_STS\<close> \<lparr>kind = REGISTER_KIND_GAS, access_kind = REGISTER_ACCESS_KIND_WRITE_TO_CLEAR, access_width = 0,
       accessors = [To_gas sleep_status_reg, No_accessor], write_only_mask = 0, preserve_mask = ACPI_SLP_STS_PRESERVE_MASK\<rparr>,
     \<comment> \<open>RESET\<close> \<lparr>kind = REGISTER_KIND_GAS, access_kind = REGISTER_ACCESS_KIND_NORMAL, access_width = 0,
       accessors = [To_gas reset_reg, No_accessor], write_only_mask = 0, preserve_mask = 0\<rparr>,
     \<comment> \<open>SMI_CMD\<close> \<lparr>kind = REGISTER_KIND_IO, access_kind = REGISTER_ACCESS_KIND_NORMAL, access_width = 1,
       accessors = [To_port smi_cmd, No_accessor], write_only_mask = 0, preserve_mask = 0\<rparr>]"

datatype mapping_state = REGISTER_MAPPING_STATE_NONE | REGISTER_MAPPING_STATE_NOT_NEEDED | REGISTER_MAPPING_STATE_MAPPED

record 's register_mapping =
  blocks :: "'s mapped_gas list"
  states :: "mapping_state list"

record 's regs =
  reg_lock :: nat
  register_mappings :: "'s register_mapping list"
  host :: 's

section \<open>Mapping\<close>

definition map_one :: "'s kernel_api \<Rightarrow> runtime_context \<Rightarrow> register_spec \<Rightarrow> 's register_mapping \<Rightarrow> nat \<Rightarrow> 's \<Rightarrow> (uacpi_status \<times> 's register_mapping \<times> 's) option" where
  "map_one api ctx spec m idx s =
     (if states m ! idx \<noteq> REGISTER_MAPPING_STATE_NONE then Some (UACPI_STATUS_OK, m, s)
      else let mapped = (\<lambda>(ret, g, s). let m = m\<lparr>blocks := (blocks m)[idx := g]\<rparr> in
                 (ret, if \<not> error ret then m\<lparr>states := (states m)[idx := REGISTER_MAPPING_STATE_MAPPED]\<rparr> else m, s));
               not_needed = (UACPI_STATUS_OK, m\<lparr>states := (states m)[idx := REGISTER_MAPPING_STATE_NOT_NEEDED]\<rparr>, s)
      in if kind spec = REGISTER_KIND_GAS then
           (case accessors spec ! idx of
              To_gas f \<Rightarrow>
                if address (f ctx) = 0 then Some not_needed
                else map_option mapped (uacpi_map_gas_noalloc api (Some (f ctx)) (blocks m ! idx) s)
            | _ \<Rightarrow> Some not_needed)
         else if idx \<noteq> 0 then Some not_needed
         else (case accessors spec ! 0 of
              To_port f \<Rightarrow>
                map_option mapped (uacpi_map_gas_noalloc api
                  (Some \<lparr>address_space_id = UACPI_ADDRESS_SPACE_SYSTEM_IO, register_bit_width = of_nat (access_width spec * 8), register_bit_offset = 0,
                     access_size = 0, address = ucast (f ctx)\<rparr>) (blocks m ! 0) s)
            | _ \<Rightarrow> None))"

definition ensure_register_mapped :: "'s kernel_api \<Rightarrow> runtime_context \<Rightarrow> nat \<Rightarrow> 's regs \<Rightarrow> (uacpi_status \<times> 's regs) option" where
  "ensure_register_mapped api ctx r rs =
     (let spec = g_registers ! r;
          m = register_mappings rs ! r;
          needs_mapping = (states m ! 0 = REGISTER_MAPPING_STATE_NONE \<or> states m ! 1 = REGISTER_MAPPING_STATE_NONE)
      in if \<not> needs_mapping then Some (UACPI_STATUS_OK, rs)
         else do {
           (flags, s) \<leftarrow> k_lock_spinlock api (reg_lock rs) (host rs);
           (ret, m, s) \<leftarrow> map_one api ctx spec m 0 s;
           (ret, m, s) \<leftarrow> (if error ret then Some (ret, m, s) else map_one api ctx spec m 1 s);
           s \<leftarrow> k_unlock_spinlock api (reg_lock rs) flags s;
           Some (ret, rs\<lparr>register_mappings := (register_mappings rs)[r := m], host := s\<rparr>)
         })"

text \<open>The index of the table entry and of the mapping, or none.\<close>

definition get_reg :: "nat \<Rightarrow> uacpi_status \<times> nat" where
  "get_reg idx = (if idx mod 256 > UACPI_REGISTER_MAX then (UACPI_STATUS_INVALID_ARGUMENT, 0) else (UACPI_STATUS_OK, idx mod 256))"

section \<open>Whole registers\<close>

definition do_read_one :: "'s register_mapping \<Rightarrow> nat \<Rightarrow> u64 \<Rightarrow> 's \<Rightarrow> (uacpi_status \<times> u64 \<times> 's) option" where
  "do_read_one m idx out s =
     (if states m ! idx \<noteq> REGISTER_MAPPING_STATE_MAPPED then Some (UACPI_STATUS_OK, out, s)
      else uacpi_gas_read_mapped (blocks m ! idx) s)"

definition do_read_register :: "register_spec \<Rightarrow> 's register_mapping \<Rightarrow> u64 \<Rightarrow> 's \<Rightarrow> (uacpi_status \<times> u64 \<times> 's) option" where
  "do_read_register reg m out s = do {
     (ret, value0, s) \<leftarrow> do_read_one m 0 0 s;
     if error ret then Some (ret, out, s)
     else do {
       (ret, value1, s) \<leftarrow> do_read_one m 1 0 s;
       if error ret then Some (ret, out, s)
       else let out = value0 OR value1;
                out = (if write_only_mask reg \<noteq> 0 then out AND NOT (write_only_mask reg) else out)
            in Some (UACPI_STATUS_OK, out, s)
     }
   }"

definition uacpi_read_register :: "'s kernel_api \<Rightarrow> runtime_context \<Rightarrow> nat \<Rightarrow> u64 \<Rightarrow> 's regs \<Rightarrow> (uacpi_status \<times> u64 \<times> 's regs) option" where
  "uacpi_read_register api ctx reg_enum out rs =
     (if init_level ctx < UACPI_INIT_LEVEL_SUBSYSTEM_INITIALIZED then Some (UACPI_STATUS_INIT_LEVEL_MISMATCH, out, rs)
      else case get_reg reg_enum of (ret, r) \<Rightarrow>
        if error ret then Some (ret, out, rs)
        else do {
          (ret, rs) \<leftarrow> ensure_register_mapped api ctx r rs;
          if error ret then Some (ret, out, rs)
          else do {
            (ret, out, s) \<leftarrow> do_read_register (g_registers ! r) (register_mappings rs ! r) out (host rs);
            Some (ret, out, rs\<lparr>host := s\<rparr>)
          }
        })"

definition do_write_one :: "'s register_mapping \<Rightarrow> nat \<Rightarrow> u64 \<Rightarrow> 's \<Rightarrow> (uacpi_status \<times> 's) option" where
  "do_write_one m idx in_value s =
     (if states m ! idx \<noteq> REGISTER_MAPPING_STATE_MAPPED then Some (UACPI_STATUS_OK, s)
      else uacpi_gas_write_mapped (blocks m ! idx) in_value s)"

text \<open>Both blocks of a register, with the values for them.\<close>

definition do_write_both :: "'s register_mapping \<Rightarrow> u64 \<Rightarrow> u64 \<Rightarrow> 's \<Rightarrow> (uacpi_status \<times> 's) option" where
  "do_write_both m in_value0 in_value1 s = do {
     (ret, s) \<leftarrow> do_write_one m 0 in_value0 s;
     if error ret then Some (ret, s) else do_write_one m 1 in_value1 s
   }"

definition do_write_register :: "register_spec \<Rightarrow> 's register_mapping \<Rightarrow> u64 \<Rightarrow> 's \<Rightarrow> (uacpi_status \<times> 's) option" where
  "do_write_register reg m in_value s =
     (if preserve_mask reg \<noteq> 0 then
        let in_value = in_value AND NOT (preserve_mask reg) in
        if access_kind reg = REGISTER_ACCESS_KIND_PRESERVE then do {
          (ret, data, s) \<leftarrow> do_read_register reg m 0 s;
          if error ret then Some (ret, s)
          else do_write_both m (in_value OR (data AND preserve_mask reg)) (in_value OR (data AND preserve_mask reg)) s
        } else do_write_both m in_value in_value s
      else do_write_both m in_value in_value s)"

definition uacpi_write_register :: "'s kernel_api \<Rightarrow> runtime_context \<Rightarrow> nat \<Rightarrow> u64 \<Rightarrow> 's regs \<Rightarrow> (uacpi_status \<times> 's regs) option" where
  "uacpi_write_register api ctx reg_enum in_value rs =
     (if init_level ctx < UACPI_INIT_LEVEL_SUBSYSTEM_INITIALIZED then Some (UACPI_STATUS_INIT_LEVEL_MISMATCH, rs)
      else case get_reg reg_enum of (ret, r) \<Rightarrow>
        if error ret then Some (ret, rs)
        else do {
          (ret, rs) \<leftarrow> ensure_register_mapped api ctx r rs;
          if error ret then Some (ret, rs)
          else do {
            (ret, s) \<leftarrow> do_write_register (g_registers ! r) (register_mappings rs ! r) in_value (host rs);
            Some (ret, rs\<lparr>host := s\<rparr>)
          }
        })"

definition uacpi_write_registers :: "'s kernel_api \<Rightarrow> runtime_context \<Rightarrow> nat \<Rightarrow> u64 \<Rightarrow> u64 \<Rightarrow> 's regs \<Rightarrow> (uacpi_status \<times> 's regs) option" where
  "uacpi_write_registers api ctx reg_enum in_value0 in_value1 rs =
     (if init_level ctx < UACPI_INIT_LEVEL_SUBSYSTEM_INITIALIZED then Some (UACPI_STATUS_INIT_LEVEL_MISMATCH, rs)
      else case get_reg reg_enum of (ret, r) \<Rightarrow>
        if error ret then Some (ret, rs)
        else do {
          (ret, rs) \<leftarrow> ensure_register_mapped api ctx r rs;
          if error ret then Some (ret, rs)
          else do {
            (ret, s) \<leftarrow> do_write_both (register_mappings rs ! r) in_value0 in_value1 (host rs);
            Some (ret, rs\<lparr>host := s\<rparr>)
          }
        })"

section \<open>Fields\<close>

record register_field =
  field_reg :: nat
  field_offset :: nat
  field_mask :: u16

text \<open>The table in the order of the enumeration \<^verbatim>\<open>uacpi_register_field\<close>.\<close>

definition g_fields :: "register_field list" where
  "g_fields =
    [\<comment> \<open>TMR_STS\<close> \<lparr>field_reg = UACPI_REGISTER_PM1_STS, field_offset = 0, field_mask = push_bit 0 1\<rparr>,
     \<comment> \<open>BM_STS\<close> \<lparr>field_reg = UACPI_REGISTER_PM1_STS, field_offset = 4, field_mask = push_bit 4 1\<rparr>,
     \<comment> \<open>GBL_STS\<close> \<lparr>field_reg = UACPI_REGISTER_PM1_STS, field_offset = 5, field_mask = push_bit 5 1\<rparr>,
     \<comment> \<open>PWRBTN_STS\<close> \<lparr>field_reg = UACPI_REGISTER_PM1_STS, field_offset = 8, field_mask = push_bit 8 1\<rparr>,
     \<comment> \<open>SLPBTN_STS\<close> \<lparr>field_reg = UACPI_REGISTER_PM1_STS, field_offset = 9, field_mask = push_bit 9 1\<rparr>,
     \<comment> \<open>RTC_STS\<close> \<lparr>field_reg = UACPI_REGISTER_PM1_STS, field_offset = 10, field_mask = push_bit 10 1\<rparr>,
     \<comment> \<open>PCIEX_WAKE_STS\<close> \<lparr>field_reg = UACPI_REGISTER_PM1_STS, field_offset = 14, field_mask = push_bit 14 1\<rparr>,
     \<comment> \<open>HWR_WAK_STS\<close> \<lparr>field_reg = UACPI_REGISTER_SLP_STS, field_offset = 7, field_mask = push_bit 7 1\<rparr>,
     \<comment> \<open>WAK_STS\<close> \<lparr>field_reg = UACPI_REGISTER_PM1_STS, field_offset = 15, field_mask = push_bit 15 1\<rparr>,
     \<comment> \<open>TMR_EN\<close> \<lparr>field_reg = UACPI_REGISTER_PM1_EN, field_offset = 0, field_mask = push_bit 0 1\<rparr>,
     \<comment> \<open>GBL_EN\<close> \<lparr>field_reg = UACPI_REGISTER_PM1_EN, field_offset = 5, field_mask = push_bit 5 1\<rparr>,
     \<comment> \<open>PWRBTN_EN\<close> \<lparr>field_reg = UACPI_REGISTER_PM1_EN, field_offset = 8, field_mask = push_bit 8 1\<rparr>,
     \<comment> \<open>SLPBTN_EN\<close> \<lparr>field_reg = UACPI_REGISTER_PM1_EN, field_offset = 9, field_mask = push_bit 9 1\<rparr>,
     \<comment> \<open>RTC_EN\<close> \<lparr>field_reg = UACPI_REGISTER_PM1_EN, field_offset = 10, field_mask = push_bit 10 1\<rparr>,
     \<comment> \<open>PCIEXP_WAKE_DIS\<close> \<lparr>field_reg = UACPI_REGISTER_PM1_EN, field_offset = 14, field_mask = push_bit 14 1\<rparr>,
     \<comment> \<open>SCI_EN\<close> \<lparr>field_reg = UACPI_REGISTER_PM1_CNT, field_offset = 0, field_mask = push_bit 0 1\<rparr>,
     \<comment> \<open>BM_RLD\<close> \<lparr>field_reg = UACPI_REGISTER_PM1_CNT, field_offset = 1, field_mask = push_bit 1 1\<rparr>,
     \<comment> \<open>GBL_RLS\<close> \<lparr>field_reg = UACPI_REGISTER_PM1_CNT, field_offset = 2, field_mask = push_bit 2 1\<rparr>,
     \<comment> \<open>SLP_TYP\<close> \<lparr>field_reg = UACPI_REGISTER_PM1_CNT, field_offset = 10, field_mask = push_bit 10 7\<rparr>,
     \<comment> \<open>HWR_SLP_TYP\<close> \<lparr>field_reg = UACPI_REGISTER_SLP_CNT, field_offset = 2, field_mask = push_bit 2 7\<rparr>,
     \<comment> \<open>SLP_EN\<close> \<lparr>field_reg = UACPI_REGISTER_PM1_CNT, field_offset = 13, field_mask = push_bit 13 1\<rparr>,
     \<comment> \<open>HWR_SLP_EN\<close> \<lparr>field_reg = UACPI_REGISTER_SLP_CNT, field_offset = 5, field_mask = push_bit 5 1\<rparr>,
     \<comment> \<open>ARB_DIS\<close> \<lparr>field_reg = UACPI_REGISTER_PM2_CNT, field_offset = 0, field_mask = push_bit 0 1\<rparr>]"

definition UACPI_REGISTER_FIELD_MAX :: nat where "UACPI_REGISTER_FIELD_MAX = 22"

definition uacpi_initialize_registers :: "'s kernel_api \<Rightarrow> 's regs \<Rightarrow> (uacpi_status \<times> 's regs) option" where
  "uacpi_initialize_registers api rs = do {
     (l, s) \<leftarrow> k_create_spinlock api (host rs);
     let rs = rs\<lparr>reg_lock := l, host := s\<rparr>;
     if l = 0 then Some (UACPI_STATUS_OUT_OF_MEMORY, rs) else Some (UACPI_STATUS_OK, rs)
   }"

definition unmap_block :: "'s register_mapping \<Rightarrow> nat \<Rightarrow> 's \<Rightarrow> 's option" where
  "unmap_block m idx s = (if states m ! idx = REGISTER_MAPPING_STATE_MAPPED then uacpi_unmap_gas_nofree (blocks m ! idx) s else Some s)"

definition no_mapping :: "'s register_mapping" where
  "no_mapping = \<lparr>blocks = replicate 2 fresh_gas, states = replicate 2 REGISTER_MAPPING_STATE_NONE\<rparr>"

definition uacpi_deinitialize_registers :: "'s kernel_api \<Rightarrow> 's regs \<Rightarrow> 's regs option" where
  "uacpi_deinitialize_registers api rs = do {
     rs \<leftarrow> (if reg_lock rs \<noteq> 0 then do { s \<leftarrow> k_free_spinlock api (reg_lock rs) (host rs); Some (rs\<lparr>reg_lock := 0, host := s\<rparr>) } else Some rs);
     s \<leftarrow> fold (\<lambda>m s. do { s \<leftarrow> s; s \<leftarrow> unmap_block m 0 s; unmap_block m 1 s }) (register_mappings rs) (Some (host rs));
     Some (rs\<lparr>register_mappings := replicate (UACPI_REGISTER_MAX + 1) no_mapping, host := s\<rparr>)
   }"

definition uacpi_read_register_field :: "'s kernel_api \<Rightarrow> runtime_context \<Rightarrow> nat \<Rightarrow> u64 \<Rightarrow> 's regs \<Rightarrow> (uacpi_status \<times> u64 \<times> 's regs) option" where
  "uacpi_read_register_field api ctx field_enum out rs =
     (if init_level ctx < UACPI_INIT_LEVEL_SUBSYSTEM_INITIALIZED then Some (UACPI_STATUS_INIT_LEVEL_MISMATCH, out, rs)
      else let field_idx = field_enum mod 256 in
      if field_idx > UACPI_REGISTER_FIELD_MAX then Some (UACPI_STATUS_INVALID_ARGUMENT, out, rs)
      else let field = g_fields ! field_idx; r = field_reg field in do {
        (ret, rs) \<leftarrow> ensure_register_mapped api ctx r rs;
        if error ret then Some (ret, out, rs)
        else do {
          (ret, out, s) \<leftarrow> do_read_register (g_registers ! r) (register_mappings rs ! r) out (host rs);
          if error ret then Some (ret, out, rs\<lparr>host := s\<rparr>)
          else Some (UACPI_STATUS_OK, drop_bit (field_offset field) (out AND ucast (field_mask field)), rs\<lparr>host := s\<rparr>)
        }
      })"

definition uacpi_write_register_field :: "'s kernel_api \<Rightarrow> runtime_context \<Rightarrow> nat \<Rightarrow> u64 \<Rightarrow> 's regs \<Rightarrow> (uacpi_status \<times> 's regs) option" where
  "uacpi_write_register_field api ctx field_enum in_value rs =
     (if init_level ctx < UACPI_INIT_LEVEL_SUBSYSTEM_INITIALIZED then Some (UACPI_STATUS_INIT_LEVEL_MISMATCH, rs)
      else let field_idx = field_enum mod 256 in
      if field_idx > UACPI_REGISTER_FIELD_MAX then Some (UACPI_STATUS_INVALID_ARGUMENT, rs)
      else let field = g_fields ! field_idx; r = field_reg field; reg = g_registers ! r in do {
        (ret, rs) \<leftarrow> ensure_register_mapped api ctx r rs;
        if error ret then Some (ret, rs)
        else do {
          let in_value = push_bit (field_offset field) in_value AND ucast (field_mask field);
          let m = register_mappings rs ! r;
          (flags, s) \<leftarrow> k_lock_spinlock api (reg_lock rs) (host rs);
          (ret, s) \<leftarrow>
            (if kind reg = REGISTER_ACCESS_KIND_WRITE_TO_CLEAR then
               if in_value = 0 then Some (UACPI_STATUS_OK, s) else do_write_register reg m in_value s
             else do {
               (ret, data, s) \<leftarrow> do_read_register reg m 0 s;
               if error ret then Some (ret, s)
               else do_write_register reg m ((data AND NOT (ucast (field_mask field))) OR in_value) s
             });
          s \<leftarrow> k_unlock_spinlock api (reg_lock rs) flags s;
          Some (ret, rs\<lparr>host := s\<rparr>)
        }
      })"

section \<open>Properties\<close>

text \<open>The tables: every field lies in a register of the address-structure kind, its mask is a run of one or three bits from its offset on, and of a register that is
  preserved it belongs to the part that is not; the fields of a register are disjoint.\<close>

definition field_ok :: "register_field \<Rightarrow> bool" where
  "field_ok fd \<longleftrightarrow> field_reg fd \<le> UACPI_REGISTER_MAX \<and> kind (g_registers ! field_reg fd) = REGISTER_KIND_GAS \<and>
     drop_bit (field_offset fd) (field_mask fd) \<in> {1, 7} \<and> push_bit (field_offset fd) (drop_bit (field_offset fd) (field_mask fd)) = field_mask fd \<and>
     ucast (field_mask fd) AND preserve_mask (g_registers ! field_reg fd) = 0"

lemmas register_numbers = UACPI_REGISTER_PM1_STS_def UACPI_REGISTER_PM1_EN_def UACPI_REGISTER_PM1_CNT_def UACPI_REGISTER_PM_TMR_def
  UACPI_REGISTER_PM2_CNT_def UACPI_REGISTER_SLP_CNT_def UACPI_REGISTER_SLP_STS_def UACPI_REGISTER_RESET_def UACPI_REGISTER_SMI_CMD_def UACPI_REGISTER_MAX_def

lemmas register_masks = ACPI_PM1_STS_IGN0_MASK_def ACPI_PM1_CNT_SLP_EN_MASK_def ACPI_PM1_CNT_GBL_RLS_MASK_def ACPI_PM1_CNT_PRESERVE_MASK_def
  ACPI_PM2_CNT_PRESERVE_MASK_def ACPI_SLP_CNT_SLP_EN_MASK_def ACPI_SLP_CNT_PRESERVE_MASK_def ACPI_SLP_STS_PRESERVE_MASK_def

lemma fields_ok: "list_all field_ok g_fields"
  by (simp add: g_fields_def field_ok_def g_registers_def register_numbers register_masks)

lemma fields_distinct: "distinct g_fields"
  by (simp add: g_fields_def register_numbers)

lemma fields_disjoint:
  "list_all (\<lambda>f. list_all (\<lambda>g. field_reg f = field_reg g \<longrightarrow> f \<noteq> g \<longrightarrow> field_mask f AND field_mask g = 0) g_fields) g_fields"
  by (simp add: g_fields_def register_numbers)

lemma field_at: "f \<le> UACPI_REGISTER_FIELD_MAX \<Longrightarrow> field_ok (g_fields ! f)"
  and fields_apart: "f \<le> UACPI_REGISTER_FIELD_MAX \<Longrightarrow> g \<le> UACPI_REGISTER_FIELD_MAX \<Longrightarrow> f \<noteq> g \<Longrightarrow>
    field_reg (g_fields ! f) = field_reg (g_fields ! g) \<Longrightarrow> field_mask (g_fields ! f) AND field_mask (g_fields ! g) = 0"
proof -
  have l: "length g_fields = Suc UACPI_REGISTER_FIELD_MAX" by (simp add: g_fields_def UACPI_REGISTER_FIELD_MAX_def)
  show "f \<le> UACPI_REGISTER_FIELD_MAX \<Longrightarrow> field_ok (g_fields ! f)" using fields_ok by (simp add: list_all_length l)
  show "field_mask (g_fields ! f) AND field_mask (g_fields ! g) = 0"
    if "f \<le> UACPI_REGISTER_FIELD_MAX" "g \<le> UACPI_REGISTER_FIELD_MAX" "f \<noteq> g" "field_reg (g_fields ! f) = field_reg (g_fields ! g)"
  proof -
    have "g_fields ! f \<noteq> g_fields ! g" using that(1-3) fields_distinct by (simp add: nth_eq_iff_index_eq l)
    then show ?thesis using fields_disjoint that(1,2,4) by (simp add: list_all_length l)
  qed
qed

text \<open>
  One block of hardware behind a mapping. \<open>get\<close> is what a read of the block yields, and a write of \<open>v\<close> turns the content \<open>old\<close> to \<open>eff v old\<close>. Taking and
  releasing the module's lock does not touch it.
\<close>

definition register_cell :: "'s kernel_api \<Rightarrow> nat \<Rightarrow> 's mapped_gas \<Rightarrow> ('s \<Rightarrow> u64) \<Rightarrow> (u64 \<Rightarrow> u64 \<Rightarrow> u64) \<Rightarrow> bool" where
  "register_cell api l g get eff \<longleftrightarrow> (\<forall>s.
     (\<exists>fl s'. k_lock_spinlock api l s = Some (fl, s') \<and> get s' = get s) \<and>
     (\<forall>fl. \<exists>s'. k_unlock_spinlock api l fl s = Some s' \<and> get s' = get s) \<and>
     (\<exists>s'. uacpi_gas_read_mapped g s = Some (UACPI_STATUS_OK, get s, s') \<and> get s' = get s) \<and>
     (\<forall>v. \<exists>s'. uacpi_gas_write_mapped g v s = Some (UACPI_STATUS_OK, s') \<and> get s' = eff v (get s)))"

text \<open>A register with one such block.\<close>

definition cell_mapped :: "'s kernel_api \<Rightarrow> 's regs \<Rightarrow> nat \<Rightarrow> ('s \<Rightarrow> u64) \<Rightarrow> (u64 \<Rightarrow> u64 \<Rightarrow> u64) \<Rightarrow> bool" where
  "cell_mapped api rs r get eff \<longleftrightarrow>
     states (register_mappings rs ! r) = [REGISTER_MAPPING_STATE_MAPPED, REGISTER_MAPPING_STATE_NOT_NEEDED] \<and>
     register_cell api (reg_lock rs) (blocks (register_mappings rs ! r) ! 0) get eff"

lemma cell_mapped_host [simp]: "cell_mapped api (rs\<lparr>host := s\<rparr>) r get eff = cell_mapped api rs r get eff"
  by (simp add: cell_mapped_def)

lemma already_mapped: "cell_mapped api rs r get eff \<Longrightarrow> ensure_register_mapped api ctx r rs = Some (UACPI_STATUS_OK, rs)"
  by (simp add: cell_mapped_def ensure_register_mapped_def)

abbreviation readable :: "register_spec \<Rightarrow> u64 \<Rightarrow> u64" where
  "readable reg w \<equiv> w AND NOT (write_only_mask reg)"

lemma read_cell:
  assumes "cell_mapped api rs r get eff"
  shows "\<exists>s'. do_read_register reg (register_mappings rs ! r) out s = Some (UACPI_STATUS_OK, readable reg (get s), s') \<and> get s' = get s"
proof -
  obtain s' where "uacpi_gas_read_mapped (blocks (register_mappings rs ! r) ! 0) s = Some (UACPI_STATUS_OK, get s, s')" "get s' = get s"
    using assms unfolding cell_mapped_def register_cell_def by blast
  moreover have "states (register_mappings rs ! r) = [REGISTER_MAPPING_STATE_MAPPED, REGISTER_MAPPING_STATE_NOT_NEEDED]"
    using assms by (simp add: cell_mapped_def)
  ultimately show ?thesis by (auto simp: do_read_register_def do_read_one_def)
qed

text \<open>What \<open>do_write_register\<close> sends to the block for a value.\<close>

definition sent :: "register_spec \<Rightarrow> u64 \<Rightarrow> u64 \<Rightarrow> u64" where
  "sent reg old v = (v AND NOT (preserve_mask reg)) OR
     (if access_kind reg = REGISTER_ACCESS_KIND_PRESERVE then readable reg old AND preserve_mask reg else 0)"

lemma write_cell:
  assumes "cell_mapped api rs r get eff"
  shows "\<exists>s'. do_write_register reg (register_mappings rs ! r) v s = Some (UACPI_STATUS_OK, s') \<and> get s' = eff (sent reg (get s) v) (get s)"
proof -
  let ?m = "register_mappings rs ! r"
  have m: "states ?m = [REGISTER_MAPPING_STATE_MAPPED, REGISTER_MAPPING_STATE_NOT_NEEDED]" using assms by (simp add: cell_mapped_def)
  have w: "\<exists>s'. do_write_both ?m x x t = Some (UACPI_STATUS_OK, s') \<and> get s' = eff x (get t)" for x t
  proof -
    obtain s' where "uacpi_gas_write_mapped (blocks ?m ! 0) x t = Some (UACPI_STATUS_OK, s')" "get s' = eff x (get t)"
      using assms unfolding cell_mapped_def register_cell_def by blast
    then show ?thesis by (simp add: do_write_both_def do_write_one_def m)
  qed
  show ?thesis
  proof (cases "preserve_mask reg \<noteq> 0 \<and> access_kind reg = REGISTER_ACCESS_KIND_PRESERVE")
    case True
    obtain t where t: "do_read_register reg ?m 0 s = Some (UACPI_STATUS_OK, readable reg (get s), t)" "get t = get s"
      using read_cell [OF assms] by blast
    show ?thesis using w [of "sent reg (get s) v" t] t True by (simp add: do_write_register_def sent_def Let_def)
  next
    case False
    then show ?thesis using w [of "sent reg (get s) v" s] by (auto simp: do_write_register_def sent_def Let_def)
  qed
qed

lemma read_field:
  assumes "cell_mapped api rs (field_reg (g_fields ! f)) get eff" "UACPI_INIT_LEVEL_SUBSYSTEM_INITIALIZED \<le> init_level ctx" "f \<le> UACPI_REGISTER_FIELD_MAX"
  defines "fd \<equiv> g_fields ! f"
  shows "\<exists>s'. uacpi_read_register_field api ctx f out rs = Some (UACPI_STATUS_OK,
      drop_bit (field_offset fd) (readable (g_registers ! field_reg fd) (get (host rs)) AND ucast (field_mask fd)), rs\<lparr>host := s'\<rparr>) \<and> get s' = get (host rs)"
proof -
  obtain s' where "do_read_register (g_registers ! field_reg fd) (register_mappings rs ! field_reg fd) out (host rs) =
      Some (UACPI_STATUS_OK, readable (g_registers ! field_reg fd) (get (host rs)), s')" "get s' = get (host rs)"
    using read_cell [OF assms(1)] unfolding fd_def by blast
  then show ?thesis using assms(2,3) already_mapped [OF assms(1)]
    by (intro exI [of _ s']) (simp add: uacpi_read_register_field_def UACPI_REGISTER_FIELD_MAX_def fd_def Let_def)
qed

lemma write_field:
  assumes "cell_mapped api rs (field_reg (g_fields ! f)) get eff" "UACPI_INIT_LEVEL_SUBSYSTEM_INITIALIZED \<le> init_level ctx" "f \<le> UACPI_REGISTER_FIELD_MAX"
  defines "fd \<equiv> g_fields ! f"
  defines "reg \<equiv> g_registers ! field_reg fd"
  shows "\<exists>s'. uacpi_write_register_field api ctx f v rs = Some (UACPI_STATUS_OK, rs\<lparr>host := s'\<rparr>) \<and>
    get s' = eff (sent reg (get (host rs))
      ((readable reg (get (host rs)) AND NOT (ucast (field_mask fd))) OR (push_bit (field_offset fd) v AND ucast (field_mask fd)))) (get (host rs))"
proof -
  have "kind reg = REGISTER_KIND_GAS" using field_at [OF assms(3)] by (simp add: field_ok_def reg_def fd_def)
  then have k: "kind reg \<noteq> REGISTER_ACCESS_KIND_WRITE_TO_CLEAR" by (simp add: REGISTER_KIND_GAS_def REGISTER_ACCESS_KIND_WRITE_TO_CLEAR_def)
  let ?m = "register_mappings rs ! field_reg fd"
  obtain fl s1 where l: "k_lock_spinlock api (reg_lock rs) (host rs) = Some (fl, s1)" "get s1 = get (host rs)"
    using assms(1) unfolding cell_mapped_def register_cell_def by blast
  obtain s2 where r: "do_read_register reg ?m 0 s1 = Some (UACPI_STATUS_OK, readable reg (get s1), s2)" "get s2 = get s1"
    using read_cell [OF assms(1)] unfolding fd_def by blast
  let ?d = "(readable reg (get s1) AND NOT (ucast (field_mask fd))) OR (push_bit (field_offset fd) v AND ucast (field_mask fd))"
  obtain s3 where w: "do_write_register reg ?m ?d s2 = Some (UACPI_STATUS_OK, s3)" "get s3 = eff (sent reg (get s2) ?d) (get s2)"
    using write_cell [OF assms(1)] unfolding fd_def by blast
  obtain s4 where u: "k_unlock_spinlock api (reg_lock rs) fl s3 = Some s4" "get s4 = get s3"
    using assms(1) unfolding cell_mapped_def register_cell_def by blast
  have "uacpi_write_register_field api ctx f v rs = Some (UACPI_STATUS_OK, rs\<lparr>host := s4\<rparr>)"
    using assms(2,3) already_mapped [OF assms(1)] l(1) r(1) w(1) u(1) k
    by (simp add: uacpi_write_register_field_def UACPI_REGISTER_FIELD_MAX_def fd_def reg_def Let_def)
  then show ?thesis using l(2) r(2) w(2) u(2) by auto
qed

text \<open>The content of a preserved register after the write of a field.\<close>

lemma preserved_bits:
  assumes "field_ok fd" "access_kind reg = REGISTER_ACCESS_KIND_PRESERVE" "reg = g_registers ! field_reg fd"
  shows "bit (sent reg old ((readable reg old AND NOT (ucast (field_mask fd))) OR (push_bit (field_offset fd) v AND ucast (field_mask fd)))) p \<longleftrightarrow>
    (if bit (field_mask fd) p then bit v (p - field_offset fd) else bit old p \<and> \<not> bit (write_only_mask reg) p)"
proof (cases "bit (field_mask fd) p")
  case True
  have lt: "p < 16" using True bit_imp_le_length by fastforce
  have "\<not> bit (preserve_mask reg) p"
  proof
    assume "bit (preserve_mask reg) p"
    then have "bit (ucast (field_mask fd) AND preserve_mask reg) p" using True lt by (simp add: bit_and_iff bit_ucast_iff)
    then show False using assms(1,3) by (simp add: field_ok_def)
  qed
  moreover have "field_offset fd \<le> p"
  proof -
    have "bit (push_bit (field_offset fd) (drop_bit (field_offset fd) (field_mask fd))) p" using True assms(1) by (simp add: field_ok_def)
    then show ?thesis by (simp add: bit_push_bit_iff)
  qed
  ultimately show ?thesis using True lt by (simp add: sent_def assms(2) bit_or_iff bit_and_iff bit_not_iff bit_ucast_iff bit_push_bit_iff)
next
  case False
  then show ?thesis by (auto simp: sent_def assms(2) bit_or_iff bit_and_iff bit_not_iff bit_ucast_iff dest: bit_imp_le_length)
qed

text \<open>
  C35: Fields of the registers that keep what is written to them. \<open>uacpi_write_register_field\<close> sets the field to the value, as far as it fits and can be read back,
  and \<open>uacpi_read_register_field\<close> yields it; every other field of the register reads as before, and no bit outside the field changes, except that
  the write-only bits are written as zeros.
\<close>

theorem register_field_roundtrip:
  fixes api :: "'s kernel_api" and rs :: "'s regs" and f :: nat
  defines "fd \<equiv> g_fields ! f"
  defines "reg \<equiv> g_registers ! field_reg fd"
  assumes "cell_mapped api rs (field_reg fd) get (\<lambda>v old. take_bit n v)" "16 \<le> n" "UACPI_INIT_LEVEL_SUBSYSTEM_INITIALIZED \<le> init_level ctx"
    "f \<le> UACPI_REGISTER_FIELD_MAX" "access_kind reg = REGISTER_ACCESS_KIND_PRESERVE"
  shows "\<exists>s'. uacpi_write_register_field api ctx f v rs = Some (UACPI_STATUS_OK, rs\<lparr>host := s'\<rparr>) \<and>
    (\<exists>t. uacpi_read_register_field api ctx f 0 (rs\<lparr>host := s'\<rparr>) =
       Some (UACPI_STATUS_OK, v AND drop_bit (field_offset fd) (readable reg (ucast (field_mask fd))), rs\<lparr>host := t\<rparr>)) \<and>
    (\<forall>g \<le> UACPI_REGISTER_FIELD_MAX. g \<noteq> f \<longrightarrow> field_reg (g_fields ! g) = field_reg fd \<longrightarrow>
       (\<exists>x t t'. uacpi_read_register_field api ctx g 0 rs = Some (UACPI_STATUS_OK, x, rs\<lparr>host := t\<rparr>) \<and>
          uacpi_read_register_field api ctx g 0 (rs\<lparr>host := s'\<rparr>) = Some (UACPI_STATUS_OK, x, rs\<lparr>host := t'\<rparr>))) \<and>
    (\<forall>p < n. \<not> bit (field_mask fd) p \<longrightarrow> (bit (get s') p \<longleftrightarrow> bit (get (host rs)) p \<and> \<not> bit (write_only_mask reg) p))"
proof -
  have ok: "field_ok fd" using field_at [OF assms(6)] by (simp add: fd_def)
  obtain s' where s': "uacpi_write_register_field api ctx f v rs = Some (UACPI_STATUS_OK, rs\<lparr>host := s'\<rparr>)"
    "get s' = take_bit n (sent reg (get (host rs))
      ((readable reg (get (host rs)) AND NOT (ucast (field_mask fd))) OR (push_bit (field_offset fd) v AND ucast (field_mask fd))))"
    using write_field [OF assms(3) [unfolded fd_def] assms(5,6), of v] unfolding fd_def reg_def by blast
  have w: "bit (get s') p \<longleftrightarrow>
      p < n \<and> (if bit (field_mask fd) p then bit v (p - field_offset fd) else bit (get (host rs)) p \<and> \<not> bit (write_only_mask reg) p)" for p
    unfolding s'(2) bit_take_bit_iff preserved_bits [OF ok assms(7) meta_eq_to_obj_eq [OF reg_def]] by simp
  have m16: "p < 16" if "bit m p" for m :: u16 and p using bit_imp_le_length [OF that] by simp
  have cell: "cell_mapped api (rs\<lparr>host := s'\<rparr>) (field_reg fd) get (\<lambda>v old. take_bit n v)" using assms(3) by simp
  obtain t where t: "uacpi_read_register_field api ctx f 0 (rs\<lparr>host := s'\<rparr>) =
      Some (UACPI_STATUS_OK, drop_bit (field_offset fd) (readable reg (get s') AND ucast (field_mask fd)), rs\<lparr>host := t\<rparr>)"
    using read_field [OF cell [unfolded fd_def] assms(5,6), of 0] unfolding fd_def reg_def by auto
  have v: "drop_bit (field_offset fd) (readable reg (get s') AND ucast (field_mask fd)) = v AND drop_bit (field_offset fd) (readable reg (ucast (field_mask fd)))"
    using assms(4) m16 by (intro bit_word_eqI) (auto simp: bit_drop_bit_eq bit_and_iff bit_not_iff bit_ucast_iff w dest!: m16)
  have others: "\<exists>x t t'. uacpi_read_register_field api ctx g 0 rs = Some (UACPI_STATUS_OK, x, rs\<lparr>host := t\<rparr>) \<and>
      uacpi_read_register_field api ctx g 0 (rs\<lparr>host := s'\<rparr>) = Some (UACPI_STATUS_OK, x, rs\<lparr>host := t'\<rparr>)"
    if g: "g \<le> UACPI_REGISTER_FIELD_MAX" "g \<noteq> f" "field_reg (g_fields ! g) = field_reg fd" for g
  proof -
    have apart: "field_mask fd AND field_mask (g_fields ! g) = 0"
      using fields_apart [OF assms(6) g(1) g(2) [symmetric]] g(3) by (simp add: fd_def)
    have "bit (get s') p \<longleftrightarrow> bit (get (host rs)) p \<and> \<not> bit (write_only_mask reg) p" if "bit (field_mask (g_fields ! g)) p" for p
    proof -
      have "\<not> bit (field_mask fd) p"
      proof
        assume "bit (field_mask fd) p"
        then have "bit (field_mask fd AND field_mask (g_fields ! g)) p" using that by (simp add: bit_and_iff)
        then show False by (simp add: apart)
      qed
      then show ?thesis using w m16 [OF that] assms(4) by auto
    qed
    then have eq: "readable reg (get s') AND ucast (field_mask (g_fields ! g)) = readable reg (get (host rs)) AND ucast (field_mask (g_fields ! g))"
      by (intro bit_word_eqI) (auto simp: bit_and_iff bit_not_iff bit_ucast_iff)
    show ?thesis
      using read_field [OF assms(3) [folded g(3)] assms(5) g(1), of 0] read_field [OF cell [folded g(3)] assms(5) g(1), of 0]
      unfolding g(3) reg_def [symmetric] by (auto simp: eq)
  qed
  show ?thesis
  proof (rule exI [of _ s'], intro conjI allI impI)
    show "uacpi_write_register_field api ctx f v rs = Some (UACPI_STATUS_OK, rs\<lparr>host := s'\<rparr>)" by (rule s'(1))
    show "\<exists>t. uacpi_read_register_field api ctx f 0 (rs\<lparr>host := s'\<rparr>) =
        Some (UACPI_STATUS_OK, v AND drop_bit (field_offset fd) (readable reg (ucast (field_mask fd))), rs\<lparr>host := t\<rparr>)"
      using t unfolding v by blast
  qed (use others w in auto)
qed

text \<open>
  C36: The status fields. The bits of a status register are cleared by writing a one to them, so that only the ones that were handled should be written. The code
  means to do so, but compares the register's kind instead of its access kind and takes the path of an ordinary register: it reads all
  pending bits and writes them back, which clears every one of them. Only the field itself stays, when it was to be written as zero, and the bits that are
  never written.
\<close>

theorem status_field_clears_all:
  fixes api :: "'s kernel_api" and rs :: "'s regs" and f :: nat
  defines "fd \<equiv> g_fields ! f"
  defines "reg \<equiv> g_registers ! field_reg fd"
  assumes "cell_mapped api rs (field_reg fd) get (\<lambda>v old. old AND NOT v)" "UACPI_INIT_LEVEL_SUBSYSTEM_INITIALIZED \<le> init_level ctx"
    "f \<le> UACPI_REGISTER_FIELD_MAX" "access_kind reg = REGISTER_ACCESS_KIND_WRITE_TO_CLEAR"
  shows "\<exists>s'. uacpi_write_register_field api ctx f v rs = Some (UACPI_STATUS_OK, rs\<lparr>host := s'\<rparr>) \<and>
    get s' = get (host rs) AND (preserve_mask reg OR (ucast (field_mask fd) AND NOT (push_bit (field_offset fd) v)))"
proof -
  obtain s' where s': "uacpi_write_register_field api ctx f v rs = Some (UACPI_STATUS_OK, rs\<lparr>host := s'\<rparr>)"
    "get s' = get (host rs) AND NOT (sent reg (get (host rs))
      ((readable reg (get (host rs)) AND NOT (ucast (field_mask fd))) OR (push_bit (field_offset fd) v AND ucast (field_mask fd))))"
    using write_field [OF assms(3) [unfolded fd_def] assms(4,5), of v] unfolding fd_def reg_def by blast
  have wo: "write_only_mask reg = 0"
  proof -
    have "field_reg fd \<le> UACPI_REGISTER_MAX" using field_at [OF assms(5)] by (simp add: field_ok_def fd_def)
    then have "field_reg fd \<in> {0, 1, 2, 3, 4, 5, 6, 7, 8}" by (auto simp: UACPI_REGISTER_MAX_def)
    then show ?thesis using assms(6)
      by (auto simp: reg_def g_registers_def REGISTER_ACCESS_KIND_PRESERVE_def REGISTER_ACCESS_KIND_WRITE_TO_CLEAR_def REGISTER_ACCESS_KIND_NORMAL_def)
  qed
  have "access_kind reg \<noteq> REGISTER_ACCESS_KIND_PRESERVE"
    using assms(6) by (simp add: REGISTER_ACCESS_KIND_PRESERVE_def REGISTER_ACCESS_KIND_WRITE_TO_CLEAR_def)
  then have "get s' = get (host rs) AND (preserve_mask reg OR (ucast (field_mask fd) AND NOT (push_bit (field_offset fd) v)))"
    unfolding s'(2) by (intro bit_word_eqI) (auto simp: sent_def wo bit_and_iff bit_or_iff bit_not_iff)
  then show ?thesis using s'(1) by blast
qed

text \<open>A block of 16 bits in I/O space is such a cell, when the port behind the handle keeps \<open>get\<close>.\<close>

lemma io_block_cell:
  fixes api :: "'s kernel_api"
  assumes "g_read g = uacpi_system_io_read api" "g_write g = uacpi_system_io_write api" "access_bit_width g = 16" "total_bit_width g = 16" "bit_offset g = 0"
    and "\<And>s. \<exists>s'. k_io_read16 api (mapping g) 0 s = Some (UACPI_STATUS_OK, get s, s') \<and> get s' = get s"
    and "\<And>s v. \<exists>s'. k_io_write16 api (mapping g) 0 v s = Some (UACPI_STATUS_OK, s') \<and> ucast (get s') = eff (ucast v) (ucast (get s))"
    and "\<And>s. \<exists>fl s'. k_lock_spinlock api l s = Some (fl, s') \<and> get s' = get s"
    and "\<And>s fl. \<exists>s'. k_unlock_spinlock api l fl s = Some s' \<and> get s' = get s"
    and "\<And>v s. eff (take_bit 16 v) (ucast (get s)) = eff v (ucast (get s))"
  shows "register_cell api l g (\<lambda>s. ucast (get s :: u16)) eff"
proof -
  have o: "ports.over api (mapping g) g 2" unfolding ports.over_def by (simp add: assms(1-3))
  have m: "w AND gas_mask g = take_bit 16 w" for w
    by (rule bit_word_eqI) (auto simp: ports.mask_bit_gas [OF o] bit_and_iff bit_take_bit_iff)
  have r: "\<exists>s'. uacpi_gas_read_mapped g s = Some (UACPI_STATUS_OK, ucast (get s), s') \<and> get s' = get s" for s
  proof -
    obtain s' where r: "k_io_read16 api (mapping g) 0 s = Some (UACPI_STATUS_OK, get s, s')" "get s' = get s" using assms(6) by blast
    have "take_bit 16 (ucast (get s) :: u64) = ucast (get s)"
      by (rule bit_word_eqI) (auto simp: bit_take_bit_iff bit_ucast_iff dest: bit_imp_le_length)
    then show ?thesis unfolding uacpi_gas_read_mapped_def
      by (subst gas_read_loop.simps) (simp add: assms(1,3-5) uacpi_system_io_read_def r m gas_read_loop.simps [of _ _ 0])
  qed
  have w: "\<exists>s'. uacpi_gas_write_mapped g v s = Some (UACPI_STATUS_OK, s') \<and> ucast (get s') = eff v (ucast (get s))" for v s
  proof -
    obtain s' where w: "k_io_write16 api (mapping g) 0 (ucast (take_bit 16 v)) s = Some (UACPI_STATUS_OK, s')"
      "ucast (get s') = eff (ucast (ucast (take_bit 16 v) :: u16)) (ucast (get s))" using assms(7) by blast
    have "ucast (ucast (take_bit 16 v) :: u16) = take_bit 16 v" by (rule bit_word_eqI) (auto simp: bit_take_bit_iff bit_ucast_iff)
    then have "ucast (get s') = eff v (ucast (get s))" using w(2) by (simp add: assms(10))
    then show ?thesis using w(1) unfolding uacpi_gas_write_mapped_def
      by (subst gas_write_loop.simps) (simp add: assms(2-5) uacpi_system_io_write_def m gas_write_loop.simps [of _ _ _ 0])
  qed
  show ?thesis unfolding register_cell_def
  proof (intro allI conjI)
    fix s v fl
    show "\<exists>fl s'. k_lock_spinlock api l s = Some (fl, s') \<and> (ucast (get s') :: u64) = ucast (get s)" using assms(8) [of s] by metis
    show "\<exists>s'. k_unlock_spinlock api l fl s = Some s' \<and> (ucast (get s') :: u64) = ucast (get s)" using assms(9) [of fl s] by metis
    show "\<exists>s'. uacpi_gas_read_mapped g s = Some (UACPI_STATUS_OK, ucast (get s), s') \<and> (ucast (get s') :: u64) = ucast (get s)" using r [of s] by metis
    show "\<exists>s'. uacpi_gas_write_mapped g v s = Some (UACPI_STATUS_OK, s') \<and> ucast (get s') = eff v (ucast (get s))" by (rule w)
  qed
qed

text \<open>A machine with one such port, for the witnesses: an ordinary register, or one whose bits are cleared by writing ones.\<close>

definition port_host :: "bool \<Rightarrow> u16 kernel_api" where
  "port_host clears = idle_host\<lparr>k_io_map := \<lambda>base len s. Some (UACPI_STATUS_OK, unat base, s), k_io_unmap := \<lambda>h s. Some s,
     k_io_read16 := \<lambda>h off s. Some (UACPI_STATUS_OK, s, s),
     k_io_write16 := \<lambda>h off v s. Some (UACPI_STATUS_OK, if clears then s AND NOT v else v)\<rparr>"

definition port_regs :: "bool \<Rightarrow> nat \<Rightarrow> u16 \<Rightarrow> u16 regs" where
  "port_regs clears r v = \<lparr>reg_lock = 1, register_mappings = (replicate 9 no_mapping)[r :=
     \<lparr>blocks = [\<lparr>mapping = 0x600, access_bit_width = 16, total_bit_width = 16, bit_offset = 0, g_read = uacpi_system_io_read (port_host clears),
        g_write = uacpi_system_io_write (port_host clears), g_unmap = unmap_gas_io (port_host clears)\<rparr>, fresh_gas],
      states = [REGISTER_MAPPING_STATE_MAPPED, REGISTER_MAPPING_STATE_NOT_NEEDED]\<rparr>], host = v\<rparr>"

definition demo_context :: runtime_context where
  "demo_context = (let none = \<lparr>address_space_id = 1, register_bit_width = 16, register_bit_offset = 0, access_size = 0, address = 0\<rparr> in
     \<lparr>pm1a_status_blk = none\<lparr>address := 0x600\<rparr>, pm1b_status_blk = none, pm1a_enable_blk = none\<lparr>address := 0x602\<rparr>, pm1b_enable_blk = none,
      x_pm1a_cnt_blk = none\<lparr>address := 0x604\<rparr>, x_pm1b_cnt_blk = none, x_pm_tmr_blk = none, x_pm2_cnt_blk = none, sleep_control_reg = none,
      sleep_status_reg = none, reset_reg = none, smi_cmd = 0xB2, init_level = 1\<rparr>)"


lemma port_regs_cell:
  assumes "r < 9"
  shows "cell_mapped (port_host False) (port_regs False r v) r ucast (\<lambda>v old. take_bit 16 v)"
    "cell_mapped (port_host True) (port_regs True r v) r ucast (\<lambda>v old. old AND NOT v)"
proof -
  have n: "ucast (s AND NOT w) = ucast s AND NOT (ucast w :: u64)" "ucast s AND NOT (take_bit 16 x) = ucast s AND NOT x" for s w :: u16 and x :: u64
    by (rule bit_word_eqI, auto simp: bit_take_bit_iff bit_ucast_iff bit_and_iff bit_not_iff dest: bit_imp_le_length)+
  have t: "take_bit 16 (ucast w :: u64) = ucast w" for w :: u16
    by (rule bit_word_eqI) (auto simp: bit_take_bit_iff bit_ucast_iff dest: bit_imp_le_length)
  show "cell_mapped (port_host False) (port_regs False r v) r ucast (\<lambda>v old. take_bit 16 v)"
    unfolding cell_mapped_def
    by (intro conjI io_block_cell [where get = id, unfolded id_apply])
      (use assms t in \<open>auto simp: port_regs_def port_host_def idle_host_def\<close>)
  show "cell_mapped (port_host True) (port_regs True r v) r ucast (\<lambda>v old. old AND NOT v)"
    unfolding cell_mapped_def
    by (intro conjI io_block_cell [where get = id, unfolded id_apply])
      (use assms n in \<open>auto simp: port_regs_def port_host_def idle_host_def\<close>)
qed

lemma demo_fields:
  "field_reg (g_fields ! 18) = 2" "field_offset (g_fields ! 18) = 10" "field_mask (g_fields ! 18) = 0x1C00" "access_kind (g_registers ! 2) = REGISTER_ACCESS_KIND_PRESERVE"
  "write_only_mask (g_registers ! 2) = 0x2004"
  "field_reg (g_fields ! 2) = 0" "field_offset (g_fields ! 2) = 5" "field_mask (g_fields ! 2) = 0x20"
  "access_kind (g_registers ! 0) = REGISTER_ACCESS_KIND_WRITE_TO_CLEAR" "preserve_mask (g_registers ! 0) = 0x800"
  by (simp_all add: g_fields_def g_registers_def register_numbers register_masks)

theorem register_field_roundtrip_witness:
  "\<exists>s' t. uacpi_write_register_field (port_host False) demo_context 18 5 (port_regs False 2 1) = Some (UACPI_STATUS_OK, (port_regs False 2 1)\<lparr>host := s'\<rparr>) \<and>
     uacpi_read_register_field (port_host False) demo_context 18 0 ((port_regs False 2 1)\<lparr>host := s'\<rparr>) =
       Some (UACPI_STATUS_OK, 5, (port_regs False 2 1)\<lparr>host := t\<rparr>)"
proof -
  have c: "cell_mapped (port_host False) (port_regs False 2 1) (field_reg (g_fields ! 18)) ucast (\<lambda>v old. take_bit 16 v)"
    using port_regs_cell(1) [of 2 1] by (simp add: demo_fields)
  have "UACPI_INIT_LEVEL_SUBSYSTEM_INITIALIZED \<le> init_level demo_context" "18 \<le> UACPI_REGISTER_FIELD_MAX"
    by (simp_all add: UACPI_INIT_LEVEL_SUBSYSTEM_INITIALIZED_def demo_context_def UACPI_REGISTER_FIELD_MAX_def Let_def)
  from register_field_roundtrip [OF c _ this, of 5] show ?thesis by (auto simp: demo_fields)
qed

theorem status_field_clears_all_witness:
  "uacpi_write_register_field (port_host True) demo_context 2 1 (port_regs True 0 0x8131) = Some (UACPI_STATUS_OK, port_regs True 0 0)"
proof -
  have c: "cell_mapped (port_host True) (port_regs True 0 0x8131) (field_reg (g_fields ! 2)) ucast (\<lambda>v old. old AND NOT v)"
    using port_regs_cell(2) [of 0 "0x8131"] by (simp add: demo_fields)
  have "UACPI_INIT_LEVEL_SUBSYSTEM_INITIALIZED \<le> init_level demo_context" "2 \<le> UACPI_REGISTER_FIELD_MAX"
    by (simp_all add: UACPI_INIT_LEVEL_SUBSYSTEM_INITIALIZED_def demo_context_def UACPI_REGISTER_FIELD_MAX_def Let_def)
  from status_field_clears_all [OF c this, of 1] obtain s' where
    "uacpi_write_register_field (port_host True) demo_context 2 1 (port_regs True 0 0x8131) = Some (UACPI_STATUS_OK, (port_regs True 0 0x8131)\<lparr>host := s'\<rparr>)"
    "(ucast s' :: u64) = 0"
    by (auto simp: demo_fields) (auto simp: port_regs_def)
  moreover have "s' = 0"
  proof (rule bit_word_eqI)
    show "bit s' n \<longleftrightarrow> bit (0 :: u16) n" if "n < LENGTH(16)" for n
      using that arg_cong [OF calculation(2), of "\<lambda>w. bit w n"] by (simp add: bit_ucast_iff)
  qed
  ultimately show ?thesis by (simp add: port_regs_def)
qed

section \<open>Types\<close>

text \<open>
  What is known of a mapped block whatever the tables of the firmware say: at most 64 bits, accesses of a whole number of bytes when there is anything
  to access, and the three functions of one of the two address spaces.
\<close>

definition block_typed :: "'s kernel_api \<Rightarrow> 's mapped_gas \<Rightarrow> bool" where
  "block_typed api g \<longleftrightarrow> total_bit_width g \<le> 64 \<and> access_bit_width g \<le> 64 \<and> (total_bit_width g = 0 \<or> 8 \<le> access_bit_width g) \<and>
     (g_read g = uacpi_system_memory_read api \<and> g_write g = uacpi_system_memory_write api \<and> g_unmap g = k_unmap api \<and> mapping g \<noteq> 0 \<or>
      g_read g = uacpi_system_io_read api \<and> g_write g = uacpi_system_io_write api \<and> g_unmap g = unmap_gas_io api \<and> access_bit_width g \<le> 32)"

definition mapping_typed :: "'s kernel_api \<Rightarrow> 's register_mapping \<Rightarrow> bool" where
  "mapping_typed api m \<longleftrightarrow> length (blocks m) = 2 \<and> length (states m) = 2 \<and>
     (\<forall>i < 2. states m ! i = REGISTER_MAPPING_STATE_MAPPED \<longrightarrow> block_typed api (blocks m ! i))"

definition regs_typed :: "'s kernel_api \<Rightarrow> 's regs \<Rightarrow> bool" where
  "regs_typed api rs \<longleftrightarrow> length (register_mappings rs) = Suc UACPI_REGISTER_MAX \<and> list_all (mapping_typed api) (register_mappings rs)"

lemma align_up_ge:
  fixes x m :: u64
  assumes "unat x + unat m < 2 ^ 64"
  shows "x \<le> (x + m) AND NOT m"
proof -
  let ?y = "x + m"
  have "(?y AND NOT m) + (?y AND m) = (?y AND NOT m) OR (?y AND m)"
    by (rule disjunctive_add_eq_or) (simp add: bit_eq_iff bit_simps)
  also have "\<dots> = ?y" by (rule bit_word_eqI) (auto simp: bit_or_iff bit_and_iff bit_not_iff)
  finally have "unat ?y = unat ((?y AND NOT m) + (?y AND m))" by simp
  also have "\<dots> \<le> unat (?y AND NOT m) + unat (?y AND m)" by (simp add: unat_word_ariths)
  finally have "unat ?y \<le> unat (?y AND NOT m) + unat (?y AND m)" .
  moreover have "unat (?y AND m) \<le> unat m" by (simp add: word_and_le1 flip: word_le_nat_alt)
  moreover have "unat ?y = unat x + unat m" using assms by (simp add: unat_word_ariths)
  ultimately show ?thesis by (simp add: word_le_nat_alt)
qed

lemma back_off_bytes:
  assumes "8 \<le> w" "back_off a w = Some v"
  shows "8 \<le> v"
  using assms
proof (induction "unat w" arbitrary: w rule: less_induct)
  case less
  show ?case
  proof (cases "is_aligned a (ucast (w div 8))")
    case True
    then show ?thesis using less.prems by (simp add: back_off.simps [of a w])
  next
    case False
    have n: "\<not> w < 16"
    proof
      assume "w < 16"
      then have "unat w div 8 = 1" using less.prems(1) by (simp add: word_less_nat_alt word_le_nat_alt)
      then have "w div 8 = 1" by (simp add: word_unat_eq_iff unat_div)
      then show False using False by (simp add: is_aligned_def)
    qed
    then have "16 \<le> unat w" by (simp add: word_less_nat_alt)
    then have "unat (w div 2) < unat w" "8 \<le> w div 2" by (simp_all add: unat_div word_le_nat_alt)
    then show ?thesis using less.hyps [of "w div 2"] less.prems(2) False by (simp add: back_off.simps [of a w])
  qed
qed

lemma access_limit:
  assumes "gas_get_access_bit_width gas = Some w"
  shows "w \<le> 64 \<and> (address_space_id gas = UACPI_ADDRESS_SPACE_SYSTEM_IO \<longrightarrow> w \<le> 32)"
proof -
  obtain v where "w = min v (if address_space_id gas = UACPI_ADDRESS_SPACE_SYSTEM_IO then 32 else 64)"
    using assms unfolding gas_get_access_bit_width_def Let_def by (auto split: Option.bind_splits)
  then have "w \<le> (if address_space_id gas = UACPI_ADDRESS_SPACE_SYSTEM_IO then 32 else 64)" by simp
  then show ?thesis by (auto split: if_splits intro: order_trans [of w 32 64])
qed

lemma size_bytes:
  fixes x :: u8
  assumes "x \<noteq> 0" "x \<le> 4"
  shows "8 \<le> x * 8"
proof -
  have "0 < unat x" "unat x \<le> 4" using assms by (simp_all add: word_le_nat_alt unat_gt_0)
  then have "unat (x * 8) = unat x * 8" by (simp add: unat_word_ariths)
  then show ?thesis using \<open>0 < unat x\<close> by (simp add: word_le_nat_alt)
qed

lemma access_bytes:
  assumes "gas_get_access_bit_width gas = Some w" "register_bit_width gas \<noteq> 0 \<or> register_bit_offset gas \<noteq> 0" "access_size gas \<le> 4"
  shows "8 \<le> w \<and> w \<le> 64 \<and> (address_space_id gas = UACPI_ADDRESS_SPACE_SYSTEM_IO \<longrightarrow> w \<le> 32)"
proof -
  let ?msb = "uacpi_bit_scan_backward (of_int (uint (register_bit_offset gas) + uint (register_bit_width gas) - 1))"
  obtain v where v: "w = min v (if address_space_id gas = UACPI_ADDRESS_SPACE_SYSTEM_IO then 32 else 64)"
    "(if register_bit_offset gas = 0 \<and> is_power_of_two (register_bit_width gas) \<and> is_aligned (register_bit_width gas) 8
           then Some (register_bit_width gas)
           else if access_size gas \<noteq> 0 then Some (access_size gas * 8)
           else if 31 \<le> ?msb then None else let w = of_nat (2 ^ ?msb) in if w \<le> 8 then Some 8 else back_off (address gas) w) = Some v"
    using assms(1) unfolding gas_get_access_bit_width_def Let_def by (auto split: Option.bind_splits)
  have "8 \<le> v"
  proof -
    consider (plain) "v = register_bit_width gas" "register_bit_offset gas = 0" "is_power_of_two v" "is_aligned v 8"
      | (given) "v = access_size gas * 8" "access_size gas \<noteq> 0"
      | (scan) "v = 8" | (halved) u where "\<not> u \<le> 8" "back_off (address gas) u = Some v"
      using v(2) by (auto simp: Let_def split: if_splits)
    then show ?thesis
    proof cases
      case plain
      then have "v \<in> {8, 16, 32, 64, 128}" using power_width assms(2) by blast
      then show ?thesis by auto
    next
      case given
      then show ?thesis using size_bytes assms(3) by simp
    next
      case halved
      then show ?thesis using back_off_bytes [of u "address gas" v] by (simp add: not_le)
    qed simp
  qed
  moreover have "8 \<le> (if address_space_id gas = UACPI_ADDRESS_SPACE_SYSTEM_IO then 32 else 64 :: u8)" by simp
  ultimately have "8 \<le> w" unfolding v(1) by (rule min.boundedI)
  then show ?thesis using access_limit [OF assms(1)] by blast
qed

lemma validated_widths:
  assumes "gas_validate (Some gas) = Some (UACPI_STATUS_OK, w, t)"
  shows "w \<le> 64 \<and> t \<le> 64 \<and> (t = 0 \<or> 8 \<le> w) \<and> (address_space_id gas \<noteq> UACPI_ADDRESS_SPACE_SYSTEM_MEMORY \<longrightarrow> w \<le> 32)"
proof -
  let ?t = "ucast (register_bit_offset gas) + ucast (register_bit_width gas) :: u64"
  have v: "gas_get_access_bit_width gas = Some w" "\<not> 64 < align_up ?t (ucast w)" "t = ucast ?t" "access_size gas \<le> 4"
    "address_space_id gas = UACPI_ADDRESS_SPACE_SYSTEM_IO \<or> address_space_id gas = UACPI_ADDRESS_SPACE_SYSTEM_MEMORY"
    using assms by (auto simp: gas_validate_def Let_def split: if_splits Option.bind_splits)
  have lim: "w \<le> 64 \<and> (address_space_id gas = UACPI_ADDRESS_SPACE_SYSTEM_IO \<longrightarrow> w \<le> 32)"
    using access_limit [OF v(1)] .
  show ?thesis
  proof (cases "register_bit_width gas = 0 \<and> register_bit_offset gas = 0")
    case True
    then show ?thesis using lim v(3,5) by auto
  next
    case False
    then have w: "8 \<le> w" using access_bytes [OF v(1) _ v(4)] by auto
    have ut: "unat ?t = unat (register_bit_offset gas) + unat (register_bit_width gas)" "unat ?t < 512"
      using unsigned_less [of "register_bit_offset gas", where ?'a = nat] unsigned_less [of "register_bit_width gas", where ?'a = nat]
      by (simp_all add: unat_word_ariths unsigned_ucast_eq take_bit_nat_eq_self)
    have "unat (ucast w - 1 :: u64) < 256"
      using w unsigned_less [of w, where ?'a = nat] by (simp add: unat_sub word_le_nat_alt unsigned_ucast_eq take_bit_nat_eq_self)
    then have "?t \<le> align_up ?t (ucast w)" using ut unfolding align_up_def by (intro align_up_ge) simp
    then have "unat ?t \<le> 64" using v(2) by (simp add: word_le_nat_alt word_less_nat_alt)
    then have "t \<le> 64" unfolding v(3) by (simp add: word_le_nat_alt unsigned_ucast_eq take_bit_nat_eq_self)
    then show ?thesis using lim w v(5) by auto
  qed
qed

lemma mapped_typed:
  assumes "uacpi_map_gas_noalloc api (Some gas) out s = Some (UACPI_STATUS_OK, g, s')"
  shows "block_typed api g"
proof -
  obtain w t where v: "gas_validate (Some gas) = Some (UACPI_STATUS_OK, w, t)"
    using assms unfolding uacpi_map_gas_noalloc_def by (auto split: Option.bind_splits if_splits)
  then have b: "unat w \<le> 64" "unat t \<le> 64" "unat t = 0 \<or> 8 \<le> unat w" "address_space_id gas \<noteq> UACPI_ADDRESS_SPACE_SYSTEM_MEMORY \<Longrightarrow> unat w \<le> 32"
    using validated_widths [OF v] by (auto simp: word_le_nat_alt)
  show ?thesis
  proof (cases "address_space_id gas = UACPI_ADDRESS_SPACE_SYSTEM_MEMORY")
    case True
    then show ?thesis using assms b(1-3) by (auto simp: uacpi_map_gas_noalloc_def v block_typed_def Let_def split: Option.bind_splits if_splits)
  next
    case False
    then show ?thesis using assms b by (auto simp: uacpi_map_gas_noalloc_def v block_typed_def Let_def split: Option.bind_splits if_splits)
  qed
qed

text \<open>\<open>map_one\<close> leaves the mapping alone, marks the block as not needed, or stores what mapping the block gave.\<close>

lemma map_one_cases:
  assumes "map_one api ctx spec m idx s = Some (ret, m', s')"
  obtains "m' = m" | "m' = m\<lparr>states := (states m)[idx := REGISTER_MAPPING_STATE_NOT_NEEDED]\<rparr>"
    | gas g t where "states m ! idx = REGISTER_MAPPING_STATE_NONE" "uacpi_map_gas_noalloc api (Some gas) (blocks m ! idx) s = Some (ret, g, t)"
        "m' = m\<lparr>blocks := (blocks m)[idx := g], states := if error ret then states m else (states m)[idx := REGISTER_MAPPING_STATE_MAPPED]\<rparr>"
  using assms unfolding map_one_def Let_def
  by (auto split: if_splits accessor.splits)

lemma map_one_typed:
  assumes "map_one api ctx spec m idx s = Some (ret, m', s')" "mapping_typed api m" "idx < 2"
  shows "mapping_typed api m'"
  using assms(1)
proof (cases rule: map_one_cases)
  case (3 gas g t)
  show ?thesis
  proof (cases "error ret")
    case True
    then show ?thesis using 3 assms(2,3) by (auto simp: mapping_typed_def nth_list_update)
  next
    case False
    then have "block_typed api g" using 3(2) by (auto intro: mapped_typed)
    then show ?thesis using False 3(3) assms(2,3) by (auto simp: mapping_typed_def nth_list_update)
  qed
qed (use assms(2,3) in \<open>auto simp: mapping_typed_def nth_list_update\<close>)

lemma ensure_typed:
  assumes "ensure_register_mapped api ctx r rs = Some (ret, rs')" "regs_typed api rs" "r \<le> UACPI_REGISTER_MAX"
  shows "regs_typed api rs'"
proof -
  have m: "mapping_typed api (register_mappings rs ! r)" using assms(2,3) by (simp add: regs_typed_def list_all_length)
  have up: "regs_typed api (rs\<lparr>register_mappings := (register_mappings rs)[r := x], host := s\<rparr>)" if "mapping_typed api x" for x s
    using assms(2,3) that by (auto simp: regs_typed_def list_all_length nth_list_update)
  show ?thesis
    using assms(1,2) m up
    by (auto simp: ensure_register_mapped_def Let_def split: if_splits Option.bind_splits prod.splits dest!: map_one_typed)
qed

lemma field_register: "f \<le> UACPI_REGISTER_FIELD_MAX \<Longrightarrow> field_reg (g_fields ! f) \<le> UACPI_REGISTER_MAX"
  using field_at by (simp add: field_ok_def)

lemma regs_typed_host [simp]: "regs_typed api (rs\<lparr>host := s\<rparr>) = regs_typed api rs"
  by (simp add: regs_typed_def)

text \<open>
  C34: Whatever the tables of the firmware and the host say, no operation of the module breaks the types of its table of mappings: nine entries of two blocks,
  and a block that is marked as mapped has at most 64 bits, accesses of at least a byte and the functions of one address space. Reads and writes
  therefore never shift by more than a word and never start a loop that does not advance.
\<close>

theorem registers_typed:
  assumes "regs_typed api rs"
  shows "(\<forall>ret rs'. uacpi_initialize_registers api rs = Some (ret, rs') \<longrightarrow> regs_typed api rs') \<and>
    (\<forall>rs'. uacpi_deinitialize_registers api rs = Some rs' \<longrightarrow> regs_typed api rs') \<and>
    (\<forall>r out ret v rs'. uacpi_read_register api ctx r out rs = Some (ret, v, rs') \<longrightarrow> regs_typed api rs') \<and>
    (\<forall>r v ret rs'. uacpi_write_register api ctx r v rs = Some (ret, rs') \<longrightarrow> regs_typed api rs') \<and>
    (\<forall>r v w ret rs'. uacpi_write_registers api ctx r v w rs = Some (ret, rs') \<longrightarrow> regs_typed api rs') \<and>
    (\<forall>f out ret v rs'. uacpi_read_register_field api ctx f out rs = Some (ret, v, rs') \<longrightarrow> regs_typed api rs') \<and>
    (\<forall>f v ret rs'. uacpi_write_register_field api ctx f v rs = Some (ret, rs') \<longrightarrow> regs_typed api rs')"
proof (intro conjI allI impI)
  fix ret rs' assume "uacpi_initialize_registers api rs = Some (ret, rs')"
  then show "regs_typed api rs'" using assms by (auto simp: uacpi_initialize_registers_def regs_typed_def Let_def split: Option.bind_splits prod.splits if_splits)
next
  fix rs' assume "uacpi_deinitialize_registers api rs = Some rs'"
  then show "regs_typed api rs'"
    by (auto simp: uacpi_deinitialize_registers_def regs_typed_def list_all_length mapping_typed_def no_mapping_def nth_Cons' split: Option.bind_splits)
next
  fix r out ret v rs' assume "uacpi_read_register api ctx r out rs = Some (ret, v, rs')"
  then show "regs_typed api rs'"
    using assms by (auto simp: uacpi_read_register_def get_reg_def split: Option.bind_splits prod.splits if_splits dest!: ensure_typed)
next
  fix r v ret rs' assume "uacpi_write_register api ctx r v rs = Some (ret, rs')"
  then show "regs_typed api rs'"
    using assms by (auto simp: uacpi_write_register_def get_reg_def split: Option.bind_splits prod.splits if_splits dest!: ensure_typed)
next
  fix r v w ret rs' assume "uacpi_write_registers api ctx r v w rs = Some (ret, rs')"
  then show "regs_typed api rs'"
    using assms by (auto simp: uacpi_write_registers_def get_reg_def split: Option.bind_splits prod.splits if_splits dest!: ensure_typed)
next
  fix f out ret v rs' assume "uacpi_read_register_field api ctx f out rs = Some (ret, v, rs')"
  then show "regs_typed api rs'"
    using assms field_register by (auto simp: uacpi_read_register_field_def Let_def split: Option.bind_splits prod.splits if_splits dest!: ensure_typed)
next
  fix f v ret rs' assume "uacpi_write_register_field api ctx f v rs = Some (ret, rs')"
  then show "regs_typed api rs'"
    using assms field_register by (auto simp: uacpi_write_register_field_def Let_def split: Option.bind_splits prod.splits if_splits dest!: ensure_typed)
qed

text \<open>The module before its first use.\<close>

definition unused_regs :: "'s \<Rightarrow> 's regs" where
  "unused_regs s = \<lparr>reg_lock = 0, register_mappings = replicate 9 no_mapping, host = s\<rparr>"

theorem registers_typed_witness:
  "\<exists>rs. uacpi_initialize_registers idle_host (unused_regs ()) = Some (UACPI_STATUS_OK, rs) \<and> reg_lock rs = 1 \<and> regs_typed idle_host rs"
proof -
  have "regs_typed idle_host (unused_regs ())"
    by (simp add: regs_typed_def unused_regs_def mapping_typed_def no_mapping_def list_all_length nth_Cons' UACPI_REGISTER_MAX_def)
  moreover have init: "uacpi_initialize_registers idle_host (unused_regs ()) = Some (UACPI_STATUS_OK, (unused_regs ())\<lparr>reg_lock := 1, host := ()\<rparr>)"
    by (simp add: uacpi_initialize_registers_def idle_host_def)
  ultimately have "regs_typed idle_host ((unused_regs ())\<lparr>reg_lock := 1, host := ()\<rparr>)"
    using conjunct1 [OF registers_typed [of idle_host "unused_regs ()"]] by blast
  then show ?thesis using init by (intro exI [of _ "(unused_regs ())\<lparr>reg_lock := 1, host := ()\<rparr>"]) simp
qed

end
