(* ===== verification/Uacpi_Lock.thy ===== *)
theory Uacpi_Lock
  imports Uacpi_Registers
begin

text \<open>
  The locks of the ACPI library (\<open>extra/uacpi/mutex.c\<close>): the global lock that it shares with the firmware, the mutexes of the bytecode, the recursive lock
  and the lock for readers and a writer, over the mutexes of the host.

  Besides the host, the machine's compare-and-exchange is a parameter, \<open>cas\<close>: it takes an address, the expected and the new value, and returns whether the
  exchange took place and the value that it found. The firmware may change the word at any time, so nothing is assumed about it. Messages are left out. \<open>None\<close> is
  undefined behaviour of the host, or a loop or a call of it that does not end.
\<close>

section \<open>State\<close>

type_synonym 's cas_fn = "nat \<Rightarrow> u32 \<Rightarrow> u32 \<Rightarrow> 's \<Rightarrow> (bool \<times> u32 \<times> 's) option"

definition UACPI_THREAD_ID_NONE :: u64 where "UACPI_THREAD_ID_NONE = - 1"

record aml_mutex =
  handle :: nat
  owner :: u64
  depth :: u16

record recursive_lock =
  rmutex :: nat
  rdepth :: nat
  rowner :: u64

record rw_lock =
  read_mutex :: nat
  write_mutex :: nat
  num_readers :: nat

record 's locks =
  has_global_lock :: bool
  global_lock_pending :: bool
  global_lock_acquired :: bool
  global_lock_seq_num :: u32
  global_lock_mutex :: nat
  global_lock_spinlock :: nat
  global_lock_event :: nat
  facs_lock :: nat
  namespace_lock :: rw_lock
  lregs :: "'s regs"

abbreviation host_of :: "'s locks \<Rightarrow> 's" where
  "host_of st \<equiv> host (lregs st)"

abbreviation set_host :: "'s \<Rightarrow> 's locks \<Rightarrow> 's locks" where
  "set_host s st \<equiv> st\<lparr>lregs := (lregs st)\<lparr>host := s\<rparr>\<rparr>"

section \<open>Mutexes of the host\<close>

definition uacpi_acquire_native_mutex :: "'s kernel_api \<Rightarrow> nat \<Rightarrow> 's \<Rightarrow> (uacpi_status \<times> 's) option" where
  "uacpi_acquire_native_mutex api mtx s =
     (if mtx = 0 then Some (UACPI_STATUS_INVALID_ARGUMENT, s) else k_acquire_mutex api mtx 0xFFFF s)"

definition uacpi_acquire_native_mutex_with_timeout :: "'s kernel_api \<Rightarrow> nat \<Rightarrow> u16 \<Rightarrow> 's \<Rightarrow> (uacpi_status \<times> 's) option" where
  "uacpi_acquire_native_mutex_with_timeout api mtx timeout s =
     (if mtx = 0 then Some (UACPI_STATUS_INVALID_ARGUMENT, s) else k_acquire_mutex api mtx timeout s)"

definition uacpi_release_native_mutex :: "'s kernel_api \<Rightarrow> nat \<Rightarrow> 's \<Rightarrow> (uacpi_status \<times> 's) option" where
  "uacpi_release_native_mutex api mtx s =
     (if mtx = 0 then Some (UACPI_STATUS_INVALID_ARGUMENT, s)
      else do { s \<leftarrow> k_release_mutex api mtx s; Some (UACPI_STATUS_OK, s) })"

section \<open>The global lock\<close>

definition GLOBAL_LOCK_PENDING :: u32 where "GLOBAL_LOCK_PENDING = 1"
definition GLOBAL_LOCK_OWNED :: u32 where "GLOBAL_LOCK_OWNED = 2"
definition GLOBAL_LOCK_MASK :: u32 where "GLOBAL_LOCK_MASK = 3"

definition wanted_value :: "u32 \<Rightarrow> u32" where
  "wanted_value value =
     (let new_value = (value AND NOT GLOBAL_LOCK_MASK) OR GLOBAL_LOCK_OWNED in
      if value AND GLOBAL_LOCK_OWNED \<noteq> 0 then new_value OR GLOBAL_LOCK_PENDING else new_value)"

partial_function (option) try_acquire_loop :: "'s cas_fn \<Rightarrow> nat \<Rightarrow> u32 \<Rightarrow> 's \<Rightarrow> (bool \<times> 's) option" where
  "try_acquire_loop cas lock value s = do {
     (done, found, s) \<leftarrow> cas lock value (wanted_value value) s;
     if done then Some (value AND GLOBAL_LOCK_OWNED = 0, s) else try_acquire_loop cas lock found s
   }"

definition try_acquire_global_lock_from_firmware :: "'s kernel_api \<Rightarrow> 's cas_fn \<Rightarrow> nat \<Rightarrow> 's \<Rightarrow> (bool \<times> 's) option" where
  "try_acquire_global_lock_from_firmware api cas lock s = do {
     (value, s) \<leftarrow> bus_read api 4 lock s;
     try_acquire_loop cas lock (ucast value) s
   }"

partial_function (option) do_release_loop :: "'s cas_fn \<Rightarrow> nat \<Rightarrow> u32 \<Rightarrow> 's \<Rightarrow> (bool \<times> 's) option" where
  "do_release_loop cas lock value s = do {
     (done, found, s) \<leftarrow> cas lock value (value AND NOT GLOBAL_LOCK_MASK) s;
     if done then Some (value AND GLOBAL_LOCK_PENDING \<noteq> 0, s) else do_release_loop cas lock found s
   }"

definition do_release_global_lock_to_firmware :: "'s kernel_api \<Rightarrow> 's cas_fn \<Rightarrow> nat \<Rightarrow> 's \<Rightarrow> (bool \<times> 's) option" where
  "do_release_global_lock_to_firmware api cas lock s = do {
     (value, s) \<leftarrow> bus_read api 4 lock s;
     do_release_loop cas lock (ucast value) s
   }"

text \<open>The attempts, with the spin lock held at the head. The results are success and the flags of the spin lock.\<close>

function acquire_attempts :: "'s kernel_api \<Rightarrow> 's cas_fn \<Rightarrow> nat \<Rightarrow> u64 \<Rightarrow> 's locks \<Rightarrow> (bool \<times> u64 \<times> 's locks) option" where
  "acquire_attempts api cas spins flags st = do {
     let spins = spins + 1;
     (success, s) \<leftarrow> try_acquire_global_lock_from_firmware api cas (facs_lock st) (host_of st);
     let st = set_host s st;
     if success then Some (True, flags, st)
     else if spins \<ge> 0xFFFF then Some (False, flags, st)
     else do {
       let st = st\<lparr>global_lock_pending := True\<rparr>;
       s \<leftarrow> k_unlock_spinlock api (global_lock_spinlock st) flags (host_of st);
       (_, s) \<leftarrow> k_wait_for_event api (global_lock_event st) 0xFFFF s;
       (flags, s) \<leftarrow> k_lock_spinlock api (global_lock_spinlock st) s;
       acquire_attempts api cas spins flags (set_host s st)
     }
   }"
  by pat_completeness auto
termination by (relation "measure (\<lambda>(api, cas, spins, flags, st). 0xFFFF - spins)") auto

declare acquire_attempts.simps [simp del]

definition uacpi_acquire_global_lock_from_firmware :: "'s kernel_api \<Rightarrow> 's cas_fn \<Rightarrow> 's locks \<Rightarrow> (uacpi_status \<times> 's locks) option" where
  "uacpi_acquire_global_lock_from_firmware api cas st =
     (if \<not> has_global_lock st then Some (UACPI_STATUS_OK, st)
      else do {
        (flags, s) \<leftarrow> k_lock_spinlock api (global_lock_spinlock st) (host_of st);
        (success, flags, st) \<leftarrow> acquire_attempts api cas 0 flags (set_host s st);
        let st = st\<lparr>global_lock_pending := False\<rparr>;
        s \<leftarrow> k_unlock_spinlock api (global_lock_spinlock st) flags (host_of st);
        Some (if success then UACPI_STATUS_OK else UACPI_STATUS_HARDWARE_TIMEOUT, set_host s st)
      })"

definition uacpi_release_global_lock_to_firmware :: "'s kernel_api \<Rightarrow> 's cas_fn \<Rightarrow> runtime_context \<Rightarrow> 's locks \<Rightarrow> 's locks option" where
  "uacpi_release_global_lock_to_firmware api cas ctx st =
     (if \<not> has_global_lock st then Some st
      else do {
        (pending, s) \<leftarrow> do_release_global_lock_to_firmware api cas (facs_lock st) (host_of st);
        let st = set_host s st;
        if pending then do {
          (_, rs) \<leftarrow> uacpi_write_register_field api ctx 17 1 (lregs st);
          Some (st\<lparr>lregs := rs\<rparr>)
        } else Some st
      })"

text \<open>The sequence number is the second result. The out parameter is never null here.\<close>

definition uacpi_acquire_global_lock ::
    "'s kernel_api \<Rightarrow> 's cas_fn \<Rightarrow> runtime_context \<Rightarrow> u16 \<Rightarrow> u32 \<Rightarrow> 's locks \<Rightarrow> (uacpi_status \<times> u32 \<times> 's locks) option" where
  "uacpi_acquire_global_lock api cas ctx timeout out_seq st =
     (if init_level ctx < UACPI_INIT_LEVEL_SUBSYSTEM_INITIALIZED then Some (UACPI_STATUS_INIT_LEVEL_MISMATCH, out_seq, st)
      else do {
        (ret, s) \<leftarrow> uacpi_acquire_native_mutex_with_timeout api (global_lock_mutex st) timeout (host_of st);
        let st = set_host s st;
        if ret \<noteq> UACPI_STATUS_OK then Some (ret, out_seq, st)
        else do {
          (ret, st) \<leftarrow> uacpi_acquire_global_lock_from_firmware api cas st;
          if error ret then do {
            (_, s) \<leftarrow> uacpi_release_native_mutex api (global_lock_mutex st) (host_of st);
            Some (ret, out_seq, set_host s st)
          } else do {
            let st = (if global_lock_seq_num st = 0xFFFFFFFF then st\<lparr>global_lock_seq_num := 0\<rparr> else st);
            let out_seq = global_lock_seq_num st;
            Some (UACPI_STATUS_OK, out_seq, st\<lparr>global_lock_seq_num := global_lock_seq_num st + 1, global_lock_acquired := True\<rparr>)
          }
        }
      })"

definition uacpi_release_global_lock :: "'s kernel_api \<Rightarrow> 's cas_fn \<Rightarrow> runtime_context \<Rightarrow> u32 \<Rightarrow> 's locks \<Rightarrow> (uacpi_status \<times> 's locks) option" where
  "uacpi_release_global_lock api cas ctx seq st =
     (if init_level ctx < UACPI_INIT_LEVEL_SUBSYSTEM_INITIALIZED then Some (UACPI_STATUS_INIT_LEVEL_MISMATCH, st)
      else if \<not> global_lock_acquired st \<or> seq \<noteq> global_lock_seq_num st then Some (UACPI_STATUS_INVALID_ARGUMENT, st)
      else do {
        let st = st\<lparr>global_lock_acquired := False\<rparr>;
        st \<leftarrow> uacpi_release_global_lock_to_firmware api cas ctx st;
        (_, s) \<leftarrow> uacpi_release_native_mutex api (global_lock_mutex st) (host_of st);
        Some (UACPI_STATUS_OK, set_host s st)
      })"

section \<open>Readers and a writer\<close>

text \<open>The first result says whether the lock was made.\<close>

definition uacpi_rw_lock_init :: "'s kernel_api \<Rightarrow> rw_lock \<Rightarrow> 's \<Rightarrow> (uacpi_status \<times> rw_lock \<times> 's) option" where
  "uacpi_rw_lock_init api lock s = do {
     (r, s) \<leftarrow> k_create_mutex api s;
     let lock = lock\<lparr>read_mutex := r\<rparr>;
     if r = 0 then Some (UACPI_STATUS_OUT_OF_MEMORY, lock, s)
     else do {
       (w, s) \<leftarrow> k_create_mutex api s;
       let lock = lock\<lparr>write_mutex := w\<rparr>;
       if w = 0 then do { s \<leftarrow> k_free_mutex api r s; Some (UACPI_STATUS_OUT_OF_MEMORY, lock\<lparr>read_mutex := 0\<rparr>, s) }
       else Some (UACPI_STATUS_OK, lock\<lparr>num_readers := 0\<rparr>, s)
     }
   }"

definition uacpi_rw_lock_deinit :: "'s kernel_api \<Rightarrow> rw_lock \<Rightarrow> 's \<Rightarrow> (uacpi_status \<times> rw_lock \<times> 's) option" where
  "uacpi_rw_lock_deinit api lock s = do {
     let lock = lock\<lparr>num_readers := 0\<rparr>;
     (lock, s) \<leftarrow> (if read_mutex lock \<noteq> 0 then do { s \<leftarrow> k_free_mutex api (read_mutex lock) s; Some (lock\<lparr>read_mutex := 0\<rparr>, s) } else Some (lock, s));
     (lock, s) \<leftarrow> (if write_mutex lock \<noteq> 0 then do { s \<leftarrow> k_free_mutex api (write_mutex lock) s; Some (lock\<lparr>write_mutex := 0\<rparr>, s) } else Some (lock, s));
     Some (UACPI_STATUS_OK, lock, s)
   }"

definition uacpi_rw_lock_read :: "'s kernel_api \<Rightarrow> rw_lock \<Rightarrow> 's \<Rightarrow> (uacpi_status \<times> rw_lock \<times> 's) option" where
  "uacpi_rw_lock_read api lock s = do {
     (ret, s) \<leftarrow> uacpi_acquire_native_mutex api (read_mutex lock) s;
     if error ret then Some (ret, lock, s)
     else do {
       let first = (num_readers lock = 0);
       let lock = lock\<lparr>num_readers := add64 (num_readers lock) 1\<rparr>;
       (ret, lock, s) \<leftarrow>
         (if first then do {
            (ret, s) \<leftarrow> uacpi_acquire_native_mutex api (write_mutex lock) s;
            Some (ret, if error ret then lock\<lparr>num_readers := 0\<rparr> else lock, s)
          } else Some (ret, lock, s));
       s \<leftarrow> k_release_mutex api (read_mutex lock) s;
       Some (ret, lock, s)
     }
   }"

definition uacpi_rw_unlock_read :: "'s kernel_api \<Rightarrow> rw_lock \<Rightarrow> 's \<Rightarrow> (uacpi_status \<times> rw_lock \<times> 's) option" where
  "uacpi_rw_unlock_read api lock s = do {
     (ret, s) \<leftarrow> uacpi_acquire_native_mutex api (read_mutex lock) s;
     if error ret then Some (ret, lock, s)
     else do {
       let last = (num_readers lock = 1);
       let lock = lock\<lparr>num_readers := sub64 (num_readers lock) 1\<rparr>;
       s \<leftarrow> (if last then map_option snd (uacpi_release_native_mutex api (write_mutex lock) s) else Some s);
       s \<leftarrow> k_release_mutex api (read_mutex lock) s;
       Some (ret, lock, s)
     }
   }"

definition uacpi_rw_lock_write :: "'s kernel_api \<Rightarrow> rw_lock \<Rightarrow> 's \<Rightarrow> (uacpi_status \<times> 's) option" where
  "uacpi_rw_lock_write api lock s = uacpi_acquire_native_mutex api (write_mutex lock) s"

definition uacpi_rw_unlock_write :: "'s kernel_api \<Rightarrow> rw_lock \<Rightarrow> 's \<Rightarrow> (uacpi_status \<times> 's) option" where
  "uacpi_rw_unlock_write api lock s = uacpi_release_native_mutex api (write_mutex lock) s"

section \<open>Mutexes of the bytecode\<close>

text \<open>The namespace is locked for writing when these functions are called; they release it while they wait. The number of the calling thread is the argument \<open>this_id\<close>.\<close>

definition uacpi_namespace_write_unlock :: "'s kernel_api \<Rightarrow> 's locks \<Rightarrow> 's locks option" where
  "uacpi_namespace_write_unlock api st = do {
     (_, s) \<leftarrow> uacpi_rw_unlock_write api (namespace_lock st) (host_of st);
     Some (set_host s st)
   }"

definition uacpi_namespace_write_lock :: "'s kernel_api \<Rightarrow> 's locks \<Rightarrow> 's locks option" where
  "uacpi_namespace_write_lock api st = do {
     (_, s) \<leftarrow> uacpi_rw_lock_write api (namespace_lock st) (host_of st);
     Some (set_host s st)
   }"

definition uacpi_this_thread_owns_aml_mutex :: "u64 \<Rightarrow> aml_mutex \<Rightarrow> bool" where
  "uacpi_this_thread_owns_aml_mutex this_id mutex \<longleftrightarrow> owner mutex = this_id"

definition uacpi_acquire_aml_mutex ::
    "'s kernel_api \<Rightarrow> 's cas_fn \<Rightarrow> u64 \<Rightarrow> u16 \<Rightarrow> aml_mutex \<Rightarrow> 's locks \<Rightarrow> (uacpi_status \<times> aml_mutex \<times> 's locks) option" where
  "uacpi_acquire_aml_mutex api cas this_id timeout mutex st =
     (if owner mutex = this_id then
        if depth mutex = 0xFFFF then Some (UACPI_STATUS_DENIED, mutex, st)
        else Some (UACPI_STATUS_OK, mutex\<lparr>depth := depth mutex + 1\<rparr>, st)
      else do {
        st \<leftarrow> uacpi_namespace_write_unlock api st;
        (ret, s) \<leftarrow> uacpi_acquire_native_mutex_with_timeout api (handle mutex) timeout (host_of st);
        let st = set_host s st;
        (ret, st) \<leftarrow>
          (if ret \<noteq> UACPI_STATUS_OK then Some (ret, st)
           else if handle mutex = global_lock_mutex st then do {
             (ret, st) \<leftarrow> uacpi_acquire_global_lock_from_firmware api cas st;
             if error ret then do {
               (_, s) \<leftarrow> uacpi_release_native_mutex api (handle mutex) (host_of st);
               Some (ret, set_host s st)
             } else Some (ret, st)
           } else Some (ret, st));
        let mutex = (if ret = UACPI_STATUS_OK then mutex\<lparr>owner := this_id, depth := 1\<rparr> else mutex);
        st \<leftarrow> uacpi_namespace_write_lock api st;
        Some (ret, mutex, st)
      })"

definition uacpi_release_aml_mutex ::
    "'s kernel_api \<Rightarrow> 's cas_fn \<Rightarrow> runtime_context \<Rightarrow> aml_mutex \<Rightarrow> 's locks \<Rightarrow> (uacpi_status \<times> aml_mutex \<times> 's locks) option" where
  "uacpi_release_aml_mutex api cas ctx mutex st =
     (let mutex' = mutex\<lparr>depth := depth mutex - 1\<rparr> in
      if depth mutex > 1 then Some (UACPI_STATUS_OK, mutex', st)
      else do {
        st \<leftarrow> (if handle mutex = global_lock_mutex st then uacpi_release_global_lock_to_firmware api cas ctx st else Some st);
        (_, s) \<leftarrow> uacpi_release_native_mutex api (handle mutex) (host_of st);
        Some (UACPI_STATUS_OK, mutex'\<lparr>owner := UACPI_THREAD_ID_NONE\<rparr>, set_host s st)
      })"

section \<open>The recursive lock\<close>

definition uacpi_recursive_lock_init :: "'s kernel_api \<Rightarrow> recursive_lock \<Rightarrow> 's \<Rightarrow> (uacpi_status \<times> recursive_lock \<times> 's) option" where
  "uacpi_recursive_lock_init api lock s = do {
     (m, s) \<leftarrow> k_create_mutex api s;
     let lock = lock\<lparr>rmutex := m\<rparr>;
     if m = 0 then Some (UACPI_STATUS_OUT_OF_MEMORY, lock, s)
     else Some (UACPI_STATUS_OK, lock\<lparr>rowner := UACPI_THREAD_ID_NONE, rdepth := 0\<rparr>, s)
   }"

definition uacpi_recursive_lock_deinit :: "'s kernel_api \<Rightarrow> recursive_lock \<Rightarrow> 's \<Rightarrow> (uacpi_status \<times> recursive_lock \<times> 's) option" where
  "uacpi_recursive_lock_deinit api lock s =
     (let lock = lock\<lparr>rdepth := 0, rowner := UACPI_THREAD_ID_NONE\<rparr> in
      if rmutex lock \<noteq> 0 then do { s \<leftarrow> k_free_mutex api (rmutex lock) s; Some (UACPI_STATUS_OK, lock\<lparr>rmutex := 0\<rparr>, s) }
      else Some (UACPI_STATUS_OK, lock, s))"

definition uacpi_recursive_lock_acquire :: "'s kernel_api \<Rightarrow> u64 \<Rightarrow> recursive_lock \<Rightarrow> 's \<Rightarrow> (uacpi_status \<times> recursive_lock \<times> 's) option" where
  "uacpi_recursive_lock_acquire api this_id lock s =
     (if rowner lock = this_id then Some (UACPI_STATUS_OK, lock\<lparr>rdepth := add64 (rdepth lock) 1\<rparr>, s)
      else do {
        (ret, s) \<leftarrow> uacpi_acquire_native_mutex api (rmutex lock) s;
        if error ret then Some (ret, lock, s)
        else Some (ret, lock\<lparr>rowner := this_id, rdepth := 1\<rparr>, s)
      })"

definition uacpi_recursive_lock_release :: "'s kernel_api \<Rightarrow> recursive_lock \<Rightarrow> 's \<Rightarrow> (uacpi_status \<times> recursive_lock \<times> 's) option" where
  "uacpi_recursive_lock_release api lock s =
     (let lock' = lock\<lparr>rdepth := sub64 (rdepth lock) 1\<rparr> in
      if rdepth lock > 1 then Some (UACPI_STATUS_OK, lock', s)
      else do {
        (ret, s) \<leftarrow> uacpi_release_native_mutex api (rmutex lock) s;
        Some (ret, lock'\<lparr>rowner := UACPI_THREAD_ID_NONE\<rparr>, s)
      })"


section \<open>Readers and a writer, call by call\<close>

text \<open>
  What \<open>kernel_api.h\<close> documents of the host's mutexes, for a view \<open>held\<close> of the host's state, the set of the mutexes that are
  held: acquiring a mutex that is free returns, and either takes it or reports an error and changes nothing; acquiring one that is held
  does not succeed; a mutex that is held can be released.
\<close>

definition mutex_host :: "'s kernel_api \<Rightarrow> ('s \<Rightarrow> nat set) \<Rightarrow> bool" where
  "mutex_host api held \<longleftrightarrow>
     (\<forall>m t s. m \<notin> held s \<longrightarrow> (\<exists>ret s'. k_acquire_mutex api m t s = Some (ret, s') \<and>
        held s' = (if error ret then held s else insert m (held s)))) \<and>
     (\<forall>m t s ret s'. m \<in> held s \<longrightarrow> k_acquire_mutex api m t s = Some (ret, s') \<longrightarrow> error ret \<and> held s' = held s) \<and>
     (\<forall>m s. m \<in> held s \<longrightarrow> (\<exists>s'. k_release_mutex api m s = Some s' \<and> held s' = held s - {m}))"

text \<open>
  The calls of the clients of one lock, in any order. The state has, beside the lock and the host, the numbers of clients that were
  given the lock for reading and for writing and have not given it back; a client only gives back what it has.
\<close>

datatype rw_call = Lock_read | Unlock_read | Lock_write | Unlock_write

fun rw_client :: "'s kernel_api \<Rightarrow> rw_call \<Rightarrow> rw_lock \<times> nat \<times> nat \<times> 's \<Rightarrow> (rw_lock \<times> nat \<times> nat \<times> 's) option" where
  "rw_client api Lock_read (lock, r, w, s) = do {
     (ret, lock, s) \<leftarrow> uacpi_rw_lock_read api lock s;
     Some (lock, if error ret then r else r + 1, w, s)
   }"
| "rw_client api Unlock_read (lock, r, w, s) =
     (if r = 0 then Some (lock, r, w, s)
      else do {
        (ret, lock, s) \<leftarrow> uacpi_rw_unlock_read api lock s;
        Some (lock, if error ret then r else r - 1, w, s)
      })"
| "rw_client api Lock_write (lock, r, w, s) = do {
     (ret, s) \<leftarrow> uacpi_rw_lock_write api lock s;
     Some (lock, r, if error ret then w else w + 1, s)
   }"
| "rw_client api Unlock_write (lock, r, w, s) =
     (if w = 0 then Some (lock, r, w, s)
      else do {
        (ret, s) \<leftarrow> uacpi_rw_unlock_write api lock s;
        Some (lock, r, if error ret then w else w - 1, s)
      })"

fun rw_calls :: "'s kernel_api \<Rightarrow> rw_call list \<Rightarrow> rw_lock \<times> nat \<times> nat \<times> 's \<Rightarrow> (rw_lock \<times> nat \<times> nat \<times> 's) option" where
  "rw_calls api [] x = Some x"
| "rw_calls api (c # cs) x = Option.bind (rw_client api c x) (rw_calls api cs)"

definition rw_mutexes :: "rw_lock \<Rightarrow> bool" where
  "rw_mutexes lock \<longleftrightarrow> read_mutex lock \<noteq> 0 \<and> write_mutex lock \<noteq> 0 \<and> read_mutex lock \<noteq> write_mutex lock"

fun rw_inv :: "('s \<Rightarrow> nat set) \<Rightarrow> nat \<Rightarrow> nat \<Rightarrow> rw_lock \<times> nat \<times> nat \<times> 's \<Rightarrow> bool" where
  "rw_inv held rm wm (lock, r, w, s) \<longleftrightarrow> rw_mutexes lock \<and> read_mutex lock = rm \<and> write_mutex lock = wm \<and>
     w \<le> 1 \<and> (w = 1 \<longrightarrow> r = 0) \<and> num_readers lock = r \<and> rm \<notin> held s \<and> (wm \<in> held s \<longleftrightarrow> 0 < r \<or> 0 < w)"

lemma mutex_hostD:
  assumes "mutex_host api held"
  shows "m \<notin> held s \<Longrightarrow> \<exists>ret s'. k_acquire_mutex api m t s = Some (ret, s') \<and> held s' = (if error ret then held s else insert m (held s))"
    "m \<in> held s \<Longrightarrow> k_acquire_mutex api m t s = Some (ret, s') \<Longrightarrow> error ret \<and> held s' = held s"
    "m \<in> held s \<Longrightarrow> \<exists>s'. k_release_mutex api m s = Some s' \<and> held s' = held s - {m}"
  using assms unfolding mutex_host_def by blast+

text \<open>One call keeps the invariant, and returns unless it has to wait for a client that holds the lock.\<close>

lemma rw_call_ok:
  assumes h: "mutex_host api held" and inv: "rw_inv held rm wm (lock, r, w, s)" and r: "r < 2 ^ 64 - 1"
  shows "(case rw_client api c (lock, r, w, s) of
      None \<Rightarrow> c = Lock_read \<and> w = 1 \<or> c = Lock_write \<and> (0 < r \<or> w = 1)
    | Some (lock', r', w', s') \<Rightarrow> rw_inv held rm wm (lock', r', w', s') \<and> r' \<le> r + 1)"
proof -
  have m: "rm \<noteq> 0" "wm \<noteq> 0" "rm \<noteq> wm" "read_mutex lock = rm" "write_mutex lock = wm" "num_readers lock = r"
    "w \<le> 1" "w = 1 \<longrightarrow> r = 0" "rm \<notin> held s" "wm \<in> held s \<longleftrightarrow> 0 < r \<or> 0 < w"
    using inv by (auto simp: rw_mutexes_def)
  obtain ret s1 where a: "k_acquire_mutex api rm 0xFFFF s = Some (ret, s1)" "held s1 = (if error ret then held s else insert rm (held s))"
    using mutex_hostD(1) [OF h m(9)] by blast
  have rel: "\<exists>s'. k_release_mutex api rm s0 = Some s' \<and> held s' = held s0 - {rm}" if "rm \<in> held s0" for s0
    using mutex_hostD(3) [OF h that] .
  have r64: "add64 r 1 = r + 1" "0 < r \<Longrightarrow> sub64 r 1 = r - 1"
    using r by (simp_all add: add64_le sub64_le SIZE_MAX_def)
  show ?thesis
  proof (cases c)
    case Lock_read
    show ?thesis
    proof (cases "error ret \<or> 0 < r")
      case True
      then show ?thesis
        using a m r64 inv rel [of s1]
        by (auto simp: Lock_read uacpi_rw_lock_read_def uacpi_acquire_native_mutex_def Let_def rw_mutexes_def split: if_splits)
    next
      case False
      then have h1: "held s1 = insert rm (held s)" using a(2) by simp
      show ?thesis
      proof (cases "k_acquire_mutex api wm 0xFFFF s1")
        case None
        then have "wm \<in> held s" using mutex_hostD(1) [where m = wm and s = s1 and t = "0xFFFF", OF h] h1 m(3) by auto
        then have "w = 1" using m(7,10) False by simp
        then show ?thesis using None a False m
          by (simp add: Lock_read uacpi_rw_lock_read_def uacpi_acquire_native_mutex_def Let_def)
      next
        case (Some q)
        obtain ret2 s2 where q: "k_acquire_mutex api wm 0xFFFF s1 = Some (ret2, s2)" using Some by (cases q) simp
        have h2: "held s2 = (if error ret2 then held s1 else insert wm (held s1))" "\<not> error ret2 \<Longrightarrow> wm \<notin> held s1"
          using mutex_hostD(1) [where m = wm and s = s1 and t = "0xFFFF", OF h] mutex_hostD(2) [OF h _ q] q by (cases "wm \<in> held s1"; auto)+
        have "rm \<in> held s2" using h1 h2(1) by simp
        then obtain s3 where s3: "k_release_mutex api rm s2 = Some s3" "held s3 = held s2 - {rm}" using rel by blast
        then show ?thesis using a q False m r64 h1 h2
          by (auto simp: Lock_read uacpi_rw_lock_read_def uacpi_acquire_native_mutex_def Let_def rw_mutexes_def split: if_splits)
      qed
    qed
  next
    case Unlock_read
    show ?thesis
    proof (cases "error ret \<or> r \<noteq> 1")
      case True
      then show ?thesis
        using a m r64 inv rel [of s1]
        by (auto simp: Unlock_read uacpi_rw_unlock_read_def uacpi_acquire_native_mutex_def Let_def rw_mutexes_def split: if_splits)
    next
      case False
      then have h1: "held s1 = insert rm (held s)" "wm \<in> held s1" using a(2) m(10) by simp_all
      obtain s2 where s2: "k_release_mutex api wm s1 = Some s2" "held s2 = held s1 - {wm}" using mutex_hostD(3) [OF h h1(2)] by blast
      then have "rm \<in> held s2" using h1(1) m(3) by simp
      then obtain s3 where s3: "k_release_mutex api rm s2 = Some s3" "held s3 = held s2 - {rm}" using rel by blast
      then show ?thesis using a s2 False m r64 h1
        by (auto simp: Unlock_read uacpi_rw_unlock_read_def uacpi_acquire_native_mutex_def uacpi_release_native_mutex_def Let_def
            rw_mutexes_def)
    qed
  next
    case Lock_write
    show ?thesis
    proof (cases "k_acquire_mutex api wm 0xFFFF s")
      case None
      then have "wm \<in> held s" using mutex_hostD(1) [where m = wm and s = s and t = "0xFFFF", OF h] by auto
      then show ?thesis using None m
        by (auto simp: Lock_write uacpi_rw_lock_write_def uacpi_acquire_native_mutex_def)
    next
      case (Some q)
      obtain ret2 s2 where q: "k_acquire_mutex api wm 0xFFFF s = Some (ret2, s2)" using Some by (cases q) simp
      have "held s2 = (if error ret2 then held s else insert wm (held s))" "\<not> error ret2 \<Longrightarrow> wm \<notin> held s"
        using mutex_hostD(1) [where m = wm and s = s and t = "0xFFFF", OF h] mutex_hostD(2) [OF h _ q] q by (cases "wm \<in> held s"; auto)+
      then show ?thesis using q m
        by (auto simp: Lock_write uacpi_rw_lock_write_def uacpi_acquire_native_mutex_def rw_mutexes_def)
    qed
  next
    case Unlock_write
    show ?thesis
    proof (cases "w = 0")
      case True
      then show ?thesis using inv by (simp add: Unlock_write)
    next
      case False
      then have "wm \<in> held s" "r = 0" "w = 1" using m by auto
      then obtain s2 where "k_release_mutex api wm s = Some s2" "held s2 = held s - {wm}" using mutex_hostD(3) [OF h] by blast
      then show ?thesis using m \<open>r = 0\<close> \<open>w = 1\<close>
        by (auto simp: Unlock_write uacpi_rw_unlock_write_def uacpi_release_native_mutex_def rw_mutexes_def)
    qed
  qed
qed

lemma rw_calls_ok:
  assumes "mutex_host api held" "rw_inv held rm wm (lock, r, w, s)" "r + length cs < 2 ^ 64"
    "rw_calls api cs (lock, r, w, s) = Some (lock', r', w', s')"
  shows "rw_inv held rm wm (lock', r', w', s') \<and> r' \<le> r + length cs"
  using assms(2-)
proof (induction cs arbitrary: lock r w s)
  case (Cons c cs)
  have r: "r < 2 ^ 64 - 1" using Cons.prems(2) by simp
  obtain l1 r1 w1 s1 where c: "rw_client api c (lock, r, w, s) = Some (l1, r1, w1, s1)"
    "rw_calls api cs (l1, r1, w1, s1) = Some (lock', r', w', s')"
    using Cons.prems(3) by (auto split: Option.bind_splits)
  have "rw_inv held rm wm (l1, r1, w1, s1) \<and> r1 \<le> r + 1"
    using rw_call_ok [OF assms(1) Cons.prems(1) r, of c] c(1) by simp
  then show ?case using Cons.IH [of l1 r1 w1 s1] c(2) Cons.prems(2) by simp
qed simp

section \<open>Properties\<close>

text \<open>
  C37: The lock for readers and a writer, on any host whose mutexes do what is documented. Starting from a fresh lock, after any sequence of calls that run
  to their ends one after the other, those included that report an error or are refused by the host, at most one client has the lock for
  writing, and then none for reading; the counter is the number of readers; the mutex of the readers is free; and the mutex of the writers is
  held exactly while some client has the lock. A next call that does not return waits for such a client: a reader for the writer, or a writer
  for a reader or a writer; giving the lock back always returns. That the mutexes of this repository's own kernel keep the contract is not
  claimed: \<open>mutex_race\<close> shows that they do not.
\<close>

theorem rw_lock_excludes:
  assumes "mutex_host api held" "rw_mutexes lock" "num_readers lock = 0" "read_mutex lock \<notin> held s" "write_mutex lock \<notin> held s"
    "length cs < 2 ^ 64 - 1" "rw_calls api cs (lock, 0, 0, s) = Some (lock', r, w, s')"
  shows "w \<le> 1 \<and> (w = 1 \<longrightarrow> r = 0) \<and> num_readers lock' = r \<and> read_mutex lock \<notin> held s' \<and>
    (write_mutex lock \<in> held s' \<longleftrightarrow> 0 < r \<or> w = 1) \<and>
    (uacpi_rw_lock_read api lock' s' = None \<longrightarrow> w = 1) \<and> (uacpi_rw_lock_write api lock' s' = None \<longrightarrow> 0 < r \<or> w = 1) \<and>
    (0 < r \<longrightarrow> uacpi_rw_unlock_read api lock' s' \<noteq> None) \<and> (w = 1 \<longrightarrow> uacpi_rw_unlock_write api lock' s' \<noteq> None)"
proof -
  have inv: "rw_inv held (read_mutex lock) (write_mutex lock) (lock', r, w, s')" and r: "r < 2 ^ 64 - 1"
    using rw_calls_ok [OF assms(1) _ _ assms(7), of "read_mutex lock" "write_mutex lock"] assms(2-6) by auto
  note c = rw_call_ok [OF assms(1) inv r]
  have "w = 1" if "uacpi_rw_lock_read api lock' s' = None"
    using c [of Lock_read] that by simp
  moreover have "0 < r \<or> w = 1" if "uacpi_rw_lock_write api lock' s' = None"
    using c [of Lock_write] that by simp
  moreover have "uacpi_rw_unlock_read api lock' s' \<noteq> None" if "0 < r"
    using c [of Unlock_read] that by (cases "uacpi_rw_unlock_read api lock' s'") simp_all
  moreover have "uacpi_rw_unlock_write api lock' s' \<noteq> None" if "w = 1"
    using c [of Unlock_write] that by (cases "uacpi_rw_unlock_write api lock' s'") simp_all
  moreover have "w \<le> 1 \<and> (w = 1 \<longrightarrow> r = 0) \<and> num_readers lock' = r \<and> read_mutex lock \<notin> held s' \<and>
      (write_mutex lock \<in> held s' \<longleftrightarrow> 0 < r \<or> w = 1)"
    using inv by (auto simp: le_Suc_eq)
  ultimately show ?thesis by simp
qed

text \<open>A host whose mutexes are a set, on which acquiring a mutex that is held does not return.\<close>

definition set_host_api :: "nat set kernel_api" where
  "set_host_api = \<lparr>k_map = \<lambda>a l s. None, k_unmap = \<lambda>p l s. None, k_io_map = \<lambda>a l s. None, k_io_unmap = \<lambda>h s. None,
     k_io_read8 = \<lambda>h off s. None, k_io_read16 = \<lambda>h off s. None, k_io_read32 = \<lambda>h off s. None,
     k_io_write8 = \<lambda>h off v s. None, k_io_write16 = \<lambda>h off v s. None, k_io_write32 = \<lambda>h off v s. None,
     k_create_mutex = \<lambda>s. None, k_free_mutex = \<lambda>m s. None,
     k_acquire_mutex = \<lambda>m t s. if m \<in> s then if t = 0 then Some (UACPI_STATUS_TIMEOUT, s) else None else Some (UACPI_STATUS_OK, insert m s),
     k_release_mutex = \<lambda>m s. Some (s - {m}),
     k_create_spinlock = \<lambda>s. None, k_free_spinlock = \<lambda>l s. None, k_lock_spinlock = \<lambda>l s. None, k_unlock_spinlock = \<lambda>l f s. None,
     k_wait_for_event = \<lambda>e t s. None, bus_read = \<lambda>w a s. None, bus_write = \<lambda>w a v s. None\<rparr>"

lemma set_host_ok: "mutex_host set_host_api id"
  by (auto simp: mutex_host_def set_host_api_def)

theorem rw_lock_excludes_witness:
  "rw_calls set_host_api [Lock_read, Lock_read, Unlock_read, Unlock_read, Lock_write] (\<lparr>read_mutex = 4, write_mutex = 5, num_readers = 0\<rparr>, 0, 0, {}) =
     Some (\<lparr>read_mutex = 4, write_mutex = 5, num_readers = 0\<rparr>, 0, 1, {5}) \<and>
   (uacpi_rw_lock_read set_host_api \<lparr>read_mutex = 4, write_mutex = 5, num_readers = 0\<rparr> {5} = None \<and> (5 :: nat) \<in> id {5})"
proof -
  let ?l = "\<lparr>read_mutex = 4, write_mutex = 5, num_readers = 0\<rparr>"
  have r: "rw_calls set_host_api [Lock_read, Lock_read, Unlock_read, Unlock_read, Lock_write] (?l, 0, 0, {}) = Some (?l, 0, 1, {5})"
    by (simp add: set_host_api_def uacpi_rw_lock_read_def uacpi_rw_unlock_read_def uacpi_rw_lock_write_def uacpi_acquire_native_mutex_def
        uacpi_release_native_mutex_def Let_def add64_def sub64_def) auto
  have "rw_mutexes ?l" by (simp add: rw_mutexes_def)
  from rw_lock_excludes [OF set_host_ok this _ _ _ _ r] have "write_mutex ?l \<in> id {5}" by simp
  moreover have "uacpi_rw_lock_read set_host_api ?l {5} = None"
    by (simp add: set_host_api_def uacpi_rw_lock_read_def uacpi_acquire_native_mutex_def Let_def)
  ultimately show ?thesis using r by simp
qed

text \<open>
  C38: The global lock cannot be given back. \<open>uacpi_acquire_global_lock\<close> hands out the sequence number before it counts it up, but
  \<open>uacpi_release_global_lock\<close> expects the number after: the token of the acquirer is always refused, and the lock stays taken. Only the token plus one,
  which nobody was given, would release it.
\<close>

theorem global_lock_token_refused:
  assumes "uacpi_acquire_global_lock api cas ctx timeout out st = Some (UACPI_STATUS_OK, seq, st1)"
  shows "uacpi_release_global_lock api cas ctx seq st1 = Some (UACPI_STATUS_INVALID_ARGUMENT, st1) \<and> global_lock_acquired st1 \<and>
    (\<forall>n. n \<noteq> seq + 1 \<longrightarrow> uacpi_release_global_lock api cas ctx n st1 = Some (UACPI_STATUS_INVALID_ARGUMENT, st1))"
proof -
  have l: "\<not> init_level ctx < UACPI_INIT_LEVEL_SUBSYSTEM_INITIALIZED" and a: "global_lock_acquired st1" and n: "global_lock_seq_num st1 = seq + 1"
    using assms by (auto simp: uacpi_acquire_global_lock_def Let_def split: if_splits Option.bind_splits)
  then have "\<forall>n. n \<noteq> seq + 1 \<longrightarrow> uacpi_release_global_lock api cas ctx n st1 = Some (UACPI_STATUS_INVALID_ARGUMENT, st1)"
    by (simp add: uacpi_release_global_lock_def)
  moreover have "seq \<noteq> seq + 1" by simp
  ultimately show ?thesis using a by blast
qed

definition idle_locks :: "unit locks" where
  "idle_locks = \<lparr>has_global_lock = False, global_lock_pending = False, global_lock_acquired = False, global_lock_seq_num = 0, global_lock_mutex = 1,
     global_lock_spinlock = 2, global_lock_event = 3, facs_lock = 0x1000, namespace_lock = \<lparr>read_mutex = 4, write_mutex = 5, num_readers = 0\<rparr>,
     lregs = \<lparr>reg_lock = 6, register_mappings = [], host = ()\<rparr>\<rparr>"

theorem global_lock_token_refused_witness:
  "\<exists>seq st1. uacpi_acquire_global_lock idle_host (\<lambda>_ _ _ _. None) demo_context 0xFFFF 0 idle_locks = Some (UACPI_STATUS_OK, seq, st1) \<and>
     uacpi_release_global_lock idle_host (\<lambda>_ _ _ _. None) demo_context seq st1 = Some (UACPI_STATUS_INVALID_ARGUMENT, st1)"
proof -
  have "\<exists>seq st1. uacpi_acquire_global_lock idle_host (\<lambda>_ _ _ _. None) demo_context 0xFFFF 0 idle_locks = Some (UACPI_STATUS_OK, seq, st1)"
    by (simp add: uacpi_acquire_global_lock_def uacpi_acquire_native_mutex_with_timeout_def uacpi_acquire_global_lock_from_firmware_def idle_locks_def
        idle_host_def demo_context_def UACPI_INIT_LEVEL_SUBSYSTEM_INITIALIZED_def Let_def)
  then show ?thesis using global_lock_token_refused by metis
qed

lemma wanted_bits:
  "bit (wanted_value v) 1" "bit (wanted_value v) 0 \<longleftrightarrow> bit v 1" "1 < i \<Longrightarrow> bit (wanted_value v) i = bit v i"
proof -
  have o: "v AND GLOBAL_LOCK_OWNED \<noteq> 0 \<longleftrightarrow> bit v 1"
    using and_exp_eq_0_iff_not_bit [of v 1] by (simp add: GLOBAL_LOCK_OWNED_def)
  have m: "GLOBAL_LOCK_MASK = mask 2" by (simp add: GLOBAL_LOCK_MASK_def mask_eq_exp_minus_1)
  have b: "bit GLOBAL_LOCK_MASK i \<longleftrightarrow> i < 2" "bit GLOBAL_LOCK_OWNED i \<longleftrightarrow> i = 1" "bit GLOBAL_LOCK_PENDING i \<longleftrightarrow> i = 0" for i
    unfolding m by (auto simp: GLOBAL_LOCK_OWNED_def GLOBAL_LOCK_PENDING_def bit_mask_iff bit_1_iff bit_2_iff)
  show "bit (wanted_value v) 1" "bit (wanted_value v) 0 \<longleftrightarrow> bit v 1" "1 < i \<Longrightarrow> bit (wanted_value v) i = bit v i"
    using o unfolding wanted_value_def Let_def
    by (auto simp: bit_or_iff bit_and_iff bit_not_iff b dest: bit_imp_le_length)
qed

lemma try_acquire_loop_last:
  assumes "try_acquire_loop cas lock v0 s0 = Some (ok, s1)"
  shows "\<exists>v s f. cas lock v (wanted_value v) s = Some (True, f, s1) \<and> (ok \<longleftrightarrow> \<not> bit v 1)"
proof -
  have o: "v AND GLOBAL_LOCK_OWNED = 0 \<longleftrightarrow> \<not> bit v 1" for v
    using and_exp_eq_0_iff_not_bit [of v 1] by (simp add: GLOBAL_LOCK_OWNED_def)
  have "\<exists>v s f. cas lock v (wanted_value v) s = Some (True, f, snd (ok, s1)) \<and> (fst (ok, s1) \<longleftrightarrow> \<not> bit v 1)"
    by (rule try_acquire_loop.raw_induct [OF _ assms, where P = "\<lambda>cas lock v0 s0 r. \<exists>v s f. cas lock v (wanted_value v) s = Some (True, f, snd r) \<and> (fst r \<longleftrightarrow> \<not> bit v 1)"])
      (auto simp: o split: Option.bind_splits if_splits, blast)
  then show ?thesis by simp
qed

lemma do_release_loop_last:
  assumes "do_release_loop cas lock v0 s0 = Some (p, s1)"
  shows "\<exists>v s f. cas lock v (v AND NOT GLOBAL_LOCK_MASK) s = Some (True, f, s1) \<and> (p \<longleftrightarrow> bit v 0)"
proof -
  have o: "v AND GLOBAL_LOCK_PENDING \<noteq> 0 \<longleftrightarrow> bit v 0" for v
    using and_exp_eq_0_iff_not_bit [of v 0] by (simp add: GLOBAL_LOCK_PENDING_def)
  have "\<exists>v s f. cas lock v (v AND NOT GLOBAL_LOCK_MASK) s = Some (True, f, snd (p, s1)) \<and> (fst (p, s1) \<longleftrightarrow> bit v 0)"
    by (rule do_release_loop.raw_induct [OF _ assms, where P = "\<lambda>cas lock v0 s0 r. \<exists>v s f. cas lock v (v AND NOT GLOBAL_LOCK_MASK) s = Some (True, f, snd r) \<and> (fst r \<longleftrightarrow> bit v 0)"])
      (auto simp: o split: Option.bind_splits if_splits, blast)
  then show ?thesis by simp
qed

text \<open>
  The word that is shared with the firmware. Whatever the firmware does to it in between, an attempt ends with one exchange: it found
  some value \<open>v\<close> and left it with the owned bit set, the pending bit set exactly when the lock was owned, and all other bits as they were;
  and the attempt succeeded exactly when it was not owned. A release leaves both bits clear and reports the pending bit it found.
\<close>

theorem global_lock_word:
  assumes "try_acquire_global_lock_from_firmware api cas lock s0 = Some (ok, s1)"
    "do_release_global_lock_to_firmware api cas lock t0 = Some (pending, t1)"
  shows "(\<exists>v n s f. cas lock v n s = Some (True, f, s1) \<and> (ok \<longleftrightarrow> \<not> bit v 1) \<and> bit n 1 \<and> (bit n 0 \<longleftrightarrow> bit v 1) \<and> (\<forall>i > 1. bit n i = bit v i)) \<and>
    (\<exists>v n s f. cas lock v n s = Some (True, f, t1) \<and> (pending \<longleftrightarrow> bit v 0) \<and> \<not> bit n 0 \<and> \<not> bit n 1 \<and> (\<forall>i > 1. bit n i = bit v i))"
proof
  obtain v s f where "cas lock v (wanted_value v) s = Some (True, f, s1)" "ok \<longleftrightarrow> \<not> bit v 1"
  proof -
    obtain v0 t where "try_acquire_loop cas lock v0 t = Some (ok, s1)"
      using assms(1) by (auto simp: try_acquire_global_lock_from_firmware_def split: Option.bind_splits)
    from try_acquire_loop_last [OF this] that show thesis by blast
  qed
  then show "\<exists>v n s f. cas lock v n s = Some (True, f, s1) \<and> (ok \<longleftrightarrow> \<not> bit v 1) \<and> bit n 1 \<and> (bit n 0 \<longleftrightarrow> bit v 1) \<and> (\<forall>i > 1. bit n i = bit v i)"
    using wanted_bits [where v = v] by blast
next
  obtain v s f where r: "cas lock v (v AND NOT GLOBAL_LOCK_MASK) s = Some (True, f, t1)" "pending \<longleftrightarrow> bit v 0"
  proof -
    obtain v0 t where "do_release_loop cas lock v0 t = Some (pending, t1)"
      using assms(2) by (auto simp: do_release_global_lock_to_firmware_def split: Option.bind_splits)
    from do_release_loop_last [OF this] that show thesis by blast
  qed
  have m: "GLOBAL_LOCK_MASK = mask 2" by (simp add: GLOBAL_LOCK_MASK_def mask_eq_exp_minus_1)
  have "\<not> bit (v AND NOT GLOBAL_LOCK_MASK) 0" "\<not> bit (v AND NOT GLOBAL_LOCK_MASK) 1" "\<forall>i > 1. bit (v AND NOT GLOBAL_LOCK_MASK) i = bit v i"
    unfolding m by (auto simp: bit_and_iff bit_not_iff bit_mask_iff dest: bit_imp_le_length)
  then show "\<exists>v n s f. cas lock v n s = Some (True, f, t1) \<and> (pending \<longleftrightarrow> bit v 0) \<and> \<not> bit n 0 \<and> \<not> bit n 1 \<and> (\<forall>i > 1. bit n i = bit v i)"
    using r by blast
qed

text \<open>A word in memory that only the exchange changes, for the witness.\<close>

definition word_host :: "u32 kernel_api" where
  "word_host = idle_host\<lparr>bus_read := \<lambda>w a s. Some (ucast s, s)\<rparr>"

definition word_cas :: "u32 cas_fn" where
  "word_cas p v n s = Some (if s = v then (True, v, n) else (False, s, s))"

theorem global_lock_word_witness:
  "try_acquire_global_lock_from_firmware word_host word_cas 0 2 = Some (False, 3) \<and> do_release_global_lock_to_firmware word_host word_cas 0 3 = Some (True, 0) \<and>
     (\<exists>v n s f. word_cas 0 v n s = Some (True, f, 3) \<and> bit v 1)"
proof -
  have "try_acquire_global_lock_from_firmware word_host word_cas 0 2 = Some (False, 3)"
    unfolding try_acquire_global_lock_from_firmware_def
    by (simp add: word_host_def try_acquire_loop.simps [of _ _ 2] word_cas_def wanted_value_def GLOBAL_LOCK_MASK_def GLOBAL_LOCK_OWNED_def GLOBAL_LOCK_PENDING_def)
  moreover have "do_release_global_lock_to_firmware word_host word_cas 0 3 = Some (True, 0)"
    unfolding do_release_global_lock_to_firmware_def
    by (simp add: word_host_def do_release_loop.simps [of _ _ 3] word_cas_def GLOBAL_LOCK_MASK_def GLOBAL_LOCK_PENDING_def)
  ultimately show ?thesis using global_lock_word [of word_host word_cas 0 2 False 3 3 True 0] by blast
qed

definition acquire_again :: "'s kernel_api \<Rightarrow> 's cas_fn \<Rightarrow> u64 \<Rightarrow> u16 \<Rightarrow> nat \<Rightarrow> aml_mutex \<Rightarrow> 's locks \<Rightarrow> (aml_mutex \<times> 's locks) option" where
  "acquire_again api cas t timeout n m st =
     fold (\<lambda>_ r. Option.bind r (\<lambda>(m, st). Option.bind (uacpi_acquire_aml_mutex api cas t timeout m st) (\<lambda>(ret, m, st). if error ret then None else Some (m, st))))
       [0..<n] (Some (m, st))"

definition release_again :: "'s kernel_api \<Rightarrow> 's cas_fn \<Rightarrow> runtime_context \<Rightarrow> nat \<Rightarrow> aml_mutex \<Rightarrow> 's locks \<Rightarrow> (aml_mutex \<times> 's locks) option" where
  "release_again api cas ctx n m st =
     fold (\<lambda>_ r. Option.bind r (\<lambda>(m, st). map_option snd (uacpi_release_aml_mutex api cas ctx m st))) [0..<n] (Some (m, st))"

lemma u16_nat: "k < 0x10000 \<Longrightarrow> unat (of_nat k :: u16) = k"
  by (simp add: unsigned_of_nat take_bit_nat_eq_self)

lemma acquire_again_ok:
  assumes "owner m = t" "depth m = 1" "n < 0xFFFF"
  shows "acquire_again api cas t timeout n m st = Some (m\<lparr>depth := of_nat (1 + n)\<rparr>, st)"
  using assms(3)
proof (induction n)
  case 0
  then show ?case using assms by (simp add: acquire_again_def)
next
  case (Suc n)
  have "unat (of_nat (1 + n) :: u16) = 1 + n" by (rule u16_nat) (use Suc.prems in simp)
  then have "of_nat (1 + n) \<noteq> (0xFFFF :: u16)" using Suc.prems by (auto simp: word_unat_eq_iff)
  then show ?case using Suc assms(1)
    by (simp add: acquire_again_def uacpi_acquire_aml_mutex_def)
qed

lemma release_again_ok:
  assumes "n < unat (depth m)"
  shows "release_again api cas ctx n m st = Some (m\<lparr>depth := depth m - of_nat n\<rparr>, st)"
  using assms
proof (induction n)
  case 0
  then show ?case by (simp add: release_again_def)
next
  case (Suc n)
  have "unat (depth m - of_nat n) = unat (depth m) - n"
    using Suc.prems unsigned_less [of "depth m", where ?'a = nat] by (subst unat_sub) (simp_all add: u16_nat word_le_nat_alt)
  then have "1 < depth m - of_nat n" using Suc.prems by (simp add: word_less_nat_alt)
  then show ?case using Suc by (simp add: release_again_def uacpi_release_aml_mutex_def Let_def diff_diff_eq add.commute)
qed

text \<open>
  C39: The mutexes of the bytecode are recursive. A thread that acquired a mutex can acquire it again, up to 65535 times in all, without any effect
  on the host, and has to release it as many times; one more acquisition is denied. The last release gives the mutex up: it gives the global lock back to the firmware first, if
  the mutex stands for it, then releases the mutex of the host, and leaves the mutex without an owner.
\<close>

theorem aml_mutex_nesting:
  assumes "owner m = t" "depth m = 1" "n < 0xFFFF" "handle m \<noteq> 0"
  shows "acquire_again api cas t timeout n m st = Some (m\<lparr>depth := of_nat (1 + n)\<rparr>, st) \<and>
    Option.bind (acquire_again api cas t timeout n m st) (\<lambda>(m, st). release_again api cas ctx n m st) = Some (m, st) \<and>
    uacpi_acquire_aml_mutex api cas t timeout (m\<lparr>depth := 0xFFFF\<rparr>) st = Some (UACPI_STATUS_DENIED, m\<lparr>depth := 0xFFFF\<rparr>, st) \<and>
    uacpi_release_aml_mutex api cas ctx m st =
      Option.bind (if handle m = global_lock_mutex st then uacpi_release_global_lock_to_firmware api cas ctx st else Some st)
        (\<lambda>st1. map_option (\<lambda>s. (UACPI_STATUS_OK, m\<lparr>depth := 0, owner := UACPI_THREAD_ID_NONE\<rparr>, set_host s st1))
           (k_release_mutex api (handle m) (host_of st1)))"
proof -
  have d: "unat (of_nat (1 + n) :: u16) = 1 + n" by (rule u16_nat) (use assms(3) in simp)
  have "release_again api cas ctx n (m\<lparr>depth := of_nat (1 + n)\<rparr>) st = Some (m, st)"
    using release_again_ok [of n "m\<lparr>depth := of_nat (1 + n)\<rparr>" api cas ctx st] assms(2) d by simp
  moreover have "uacpi_release_aml_mutex api cas ctx m st =
      Option.bind (if handle m = global_lock_mutex st then uacpi_release_global_lock_to_firmware api cas ctx st else Some st)
        (\<lambda>st1. map_option (\<lambda>s. (UACPI_STATUS_OK, m\<lparr>depth := 0, owner := UACPI_THREAD_ID_NONE\<rparr>, set_host s st1))
           (k_release_mutex api (handle m) (host_of st1)))"
    using assms(2,4) by (simp add: uacpi_release_aml_mutex_def uacpi_release_native_mutex_def map_conv_bind_option Let_def comp_def)
  ultimately show ?thesis using acquire_again_ok [OF assms(1-3), of api cas timeout st] assms(1)
    by (simp add: uacpi_acquire_aml_mutex_def)
qed

theorem aml_mutex_nesting_witness:
  "Option.bind (acquire_again idle_host (\<lambda>_ _ _ _. None) 7 0 3 \<lparr>handle = 9, owner = 7, depth = 1\<rparr> idle_locks)
     (\<lambda>(m, st). release_again idle_host (\<lambda>_ _ _ _. None) demo_context 3 m st) = Some (\<lparr>handle = 9, owner = 7, depth = 1\<rparr>, idle_locks)"
  by (rule conjunct1 [OF conjunct2 [OF aml_mutex_nesting]]) simp_all

end
