(* ===== verification/Spec2Isabelle.thy ===== *)
theory Spec2Isabelle
  imports Console Kernel_Output Printf_Spec Pmm_Boot Vmm_Map Liballoc_Kernel Klibc_Number Hlec_Spec Mutex Kernel_Entry Descriptors Acpi_Host Uacpi_Lock
begin

text \<open>
  A verification library for the Helix kernel, a small x86-64 kernel under \<open>src/kernel\<close>.

  \<^bold>\<open>The program.\<close> The kernel is booted by a Limine loader, which hands it a framebuffer, a memory map and a command line
  (\<open>entry.cpp\<close>). It brings up a text console (the terminal emulator flanterm with its framebuffer backend,
  \<open>extra/flanterm\<close>), prints through it with \<open>printf\<close> (\<open>extra/printf\<close>), manages memory in three layers (the buddy
  allocator \<open>mm/pmm.cpp\<close>, the page tables \<open>mm/vmm.cpp\<close>, the heap \<open>extra/liballoc\<close>), has a small C library
  (\<open>klibc\<close>), an event bus (\<open>hlec\<close>), mutexes, descriptor tables and interrupts (\<open>arch/x86_64\<close>), and hosts the ACPI
  library uACPI (\<open>extra/uacpi\<close>), to which it gives memory, ports, PCI, locks and interrupts. All paths below are under
  \<open>src/kernel/src\<close>.

  \<^bold>\<open>How the code is modelled.\<close> A struct is a record, an enum a datatype, an operation a definition of its own name over the
  state it changes. Machine integers are words, or natural numbers below 2 to the 64 with \<open>add64\<close>, \<open>sub64\<close> and \<open>mul64\<close>
  where they can wrap around. Objects that are linked by pointers are maps from addresses to fields. \<open>None\<close> is undefined behaviour, a
  halt of the kernel, or a loop that does not end; errors of the code are values. The loader, the processor, the devices, the providers
  of pages and the host of the ACPI library are parameters, records of functions over a state of their own.

  \<^bold>\<open>Theories and code.\<close>

  \<^item> \<open>Prelude\<close>: the widths of the machine's integers, arithmetic with wrap-around, counting loops (\<open>for_up\<close>, \<open>for_down\<close>).
  \<^item> Console. \<open>Flanterm_Tables\<close> and \<open>Flanterm\<close>: \<open>flanterm.c\<close>, one definition per function and per arm of its large switches;
    the record \<open>flanterm_context\<close> has the backend's part in its field \<open>be\<close>, the function pointers are the record \<open>flanterm_ops\<close>.
    \<open>Flanterm_Safety\<close>: its invariant \<open>term_inv\<close> and the locale \<open>term_backend\<close>, the contract of a backend.
    \<open>Flanterm_Font\<close>, \<open>Flanterm_Fb\<close>, \<open>Flanterm_Init\<close>: \<open>fb.c\<close>, with grid, queue, map, the four plotting routines,
    flush and refresh, the bump allocator, initialisation and destruction. \<open>Flanterm_Screen\<close>: the invariants \<open>fb_ok\<close> and
    \<open>fb_sync\<close> and the locale \<open>queue_invariant\<close>. \<open>Screen_Spec\<close>: an abstract screen and the refinement to it.
    \<open>Flanterm_Decode\<close>, \<open>Flanterm_Csi\<close>, \<open>Flanterm_Pixels\<close>: UTF-8, control sequences, pixels. \<open>Console\<close>: the
    calls of clients and of \<open>klibc/cstdio.cpp\<close>.
  \<^item> Output. \<open>Printf\<close>: \<open>printf.c\<close> without floating point, which is disabled there; the function that takes a character is a
    parameter (locale \<open>sink\<close>). \<open>Printf_Spec\<close>: the language of formats, given by its syntax and its meaning, without reference to the
    parser. \<open>Kernel_Output\<close>: \<open>printf\<close> on the terminal.
  \<^item> Memory. \<open>Pmm\<close>, \<open>Pmm_Buddy\<close>, \<open>Pmm_Boot\<close>: \<open>mm/pmm.cpp\<close>, its free lists as paths in the memory, the invariant of
    the buddies, the locale \<open>page_allocator\<close>. \<open>Vmm\<close>, \<open>Vmm_Tables\<close>, \<open>Vmm_Map\<close>: \<open>mm/vmm.cpp\<close>, page tables
    in physical memory, the walk of the processor with the rights of all levels (\<open>translate\<close>). \<open>Liballoc\<close>,
    \<open>Liballoc_Heap\<close>, \<open>Liballoc_Spec\<close>, \<open>Liballoc_Kernel\<close>: \<open>liballoc.c\<close> over the hooks of \<open>liballoc.h\<close>, and
    the kernel's own hooks.
  \<^item> Services. \<open>Klibc\<close>, \<open>Klibc_Spec\<close>, \<open>Klibc_Number\<close>, \<open>Klibc_Heap\<close>, \<open>Vector\<close>: \<open>klibc\<close>. \<open>Hlec\<close>,
    \<open>Hlec_Spec\<close>: \<open>hlec/hlec.cpp\<close>. \<open>Mutex\<close>: \<open>mutex/mutex.cpp\<close>, also as steps of several threads.
    \<open>Kernel_Entry\<close>: \<open>entry.cpp\<close>.
  \<^item> Machine. \<open>Descriptors\<close>, \<open>Interrupts\<close>: \<open>gdt.cpp\<close> and \<open>idt.cpp\<close>, the locale \<open>key_store\<close>. \<open>Pci\<close>:
    \<open>pcie/pcie.cpp\<close> over port I/O.
  \<^item> ACPI. \<open>Uacpi_Status\<close>, \<open>Kernel_Api\<close>: \<open>status.h\<close> and the host's functions of \<open>kernel_api.h\<close>. \<open>Acpi_Host\<close>: what this
    kernel provides, \<open>uacpi_kernel_wrapper.cpp\<close> and \<open>resources/io.cpp\<close>. \<open>Uacpi_Bits\<close>, \<open>Uacpi_Gas\<close>: fields of buffers and
    generic addresses, \<open>io.c\<close> (locale \<open>register_space\<close>). \<open>Uacpi_Registers\<close>: \<open>registers.c\<close>. \<open>Uacpi_Lock\<close>:
    \<open>mutex.c\<close>.

  \<^bold>\<open>What is shown.\<close> Invariants: the terminal, the backend, the buddy allocator, the page tables, the heap, the event table, the vectors, the table of
  interrupt handlers and the table of mapped registers keep theirs under every operation, but for the exceptions that are stated. Refinement:
  printing and scrolling implement the abstract screen, formatted output the language of formats, \<open>mmap\<close> and \<open>munmap\<close> a map from pages
  to entries and rights, the allocators sets of free pages and of live blocks, \<open>strtok_r\<close> the list of tokens. Round trips: UTF-8, decimal
  numbers, allocation and release, configuration space, bit fields and registers. Defects: the theorems of kind error state where the code does not do
  what it means to, among them the test and set of the mutex, the pointer that \<open>malloc\<close> truncates, the token of the global lock, and the PCI writes that
  exchange offset and value.

  \<^bold>\<open>Loops.\<close> No fuel is used. Loops over a bound known on entry and recursions with a measure are total functions. Loops that may run on are
  partial functions with \<open>None\<close> for not returning, and where they are used they are shown to return: \<open>unlink_loop\<close> (the free lists are finite
  paths), \<open>find_tag\<close> and the two merging loops of the heap (the lists and chunks are finite), the scans of strings (the terminating zero), the loops over the events
  (the list is finite), \<open>cmdline_length\<close>, \<open>back_off\<close> (every address is aligned to bytes), the loops over a generic address (the bits left decrease).
  \<open>munmap_loop\<close> does not always end, and \<open>munmap_top_diverges\<close> says when. \<open>spin\<close> and \<open>wait_signal\<close> wait for somebody else and end at once or not at
  all. The two loops around the compare-and-exchange of the global lock end as the firmware lets them, so their theorem is about the case that they do.

  \<^bold>\<open>Assumptions.\<close> They stand in the statements as named predicates on the parameters, each with a witness: \<open>hooks_ok\<close> is the contract of
  \<open>liballoc.h\<close>, \<open>config_mechanism\<close> the documented access to configuration space, \<open>ram\<close> and \<open>port_range\<close> memory and ports
  that hold what is written, \<open>mutex_host\<close> the mutexes of \<open>kernel_api.h\<close>. This kernel's own code does not meet all of them:
  \<open>kernel_malloc_outside\<close> and \<open>mutex_race\<close> show that its hooks and its mutexes do not.

  \<^bold>\<open>Bounds.\<close> Memory maps are limited to entries of 256 megabytes, beyond which initialisation writes out of bounds (\<open>pmm_defects\<close>); requests to the heap
  are below 2 to the 31, where the code computes with 32 bits.

  \<^bold>\<open>Not modelled.\<close> The interpreter of uACPI with its namespace and objects, and the parts that only call it (tables, resources, events, sleep,
  notification); the getters of the boot protocol, logging and the banner, panics; assembler, and the effects of loading registers of the processor and of the
  cache of translations; floating point in formats. Interrupts and other processors appear only where a theory has steps of several threads.
\<close>

end
